(* ===== verification/Prelude.thy ===== *)
theory Prelude
  imports Main "HOL-Library.Char_ord" "HOL-Library.List_Lexorder" "HOL-Library.Word"
begin

text \<open>
  Shared vocabulary of the development: Go strings and byte slices (both are sequences of
  bytes, modelled by \<open>string\<close>), the functions of Go's \<open>strings\<close> and
  \<open>encoding/hex\<close> packages that the sources call, big-endian encodings
  (\<open>encoding/binary\<close>), results with an error value, and generic lemmas on lists.
\<close>

named_theorems result_simps \<open>unfolding of results with an error value\<close>

type_synonym bytes = string

section \<open>Results\<close>

text \<open>A Go call that returns a value and an error is \<open>'e + 'a\<close>; \<open>rbind\<close> is the early
  return \<open>if err != nil { return err }\<close>.\<close>

definition rbind :: "'e + 'a \<Rightarrow> ('a \<Rightarrow> 'e + 'b) \<Rightarrow> 'e + 'b" where
  "rbind m f = (case m of Inl e \<Rightarrow> Inl e | Inr x \<Rightarrow> f x)"

lemma rbind_Inl [simp]: "rbind (Inl e) f = Inl e"
  by (simp add: rbind_def)

lemma rbind_Inr [simp]: "rbind (Inr x) f = f x"
  by (simp add: rbind_def)

lemma rbind_eq_Inr [result_simps]:
  "rbind m f = Inr y \<longleftrightarrow> (\<exists>x. m = Inr x \<and> f x = Inr y)"
  by (cases m) simp_all

lemma rbind_eq_Inl [result_simps]:
  "rbind m f = Inl e \<longleftrightarrow> m = Inl e \<or> (\<exists>x. m = Inr x \<and> f x = Inl e)"
  by (cases m) simp_all

text \<open>\<open>rpost m Q\<close>: if the call returns no error, its result satisfies \<open>Q\<close>. The introduction
  rules walk a composition of calls from left to right.\<close>

definition rpost :: "'e + 'a \<Rightarrow> ('a \<Rightarrow> bool) \<Rightarrow> bool" where
  "rpost m Q = (case m of Inl e \<Rightarrow> True | Inr x \<Rightarrow> Q x)"

lemma rpostI: "(\<And>x. m = Inr x \<Longrightarrow> Q x) \<Longrightarrow> rpost m Q"
  by (cases m) (simp_all add: rpost_def)

lemma rpostD: "rpost m Q \<Longrightarrow> m = Inr x \<Longrightarrow> Q x"
  by (simp add: rpost_def)

lemma rpost_Inr: "Q x \<Longrightarrow> rpost (Inr x) Q"
  by (simp add: rpost_def)

lemma rpost_Inl: "rpost (Inl e) Q"
  by (simp add: rpost_def)

lemma rpost_rbind: "(\<And>x. m = Inr x \<Longrightarrow> rpost (f x) Q) \<Longrightarrow> rpost (rbind m f) Q"
  by (cases m) (simp_all add: rpost_def)

lemma rpost_option:
  "(x = None \<Longrightarrow> rpost a Q) \<Longrightarrow> (\<And>y. x = Some y \<Longrightarrow> rpost (b y) Q) \<Longrightarrow>
   rpost (case x of None \<Rightarrow> a | Some y \<Rightarrow> b y) Q"
  by (cases x) simp_all

lemma rpost_If: "(b \<Longrightarrow> rpost x Q) \<Longrightarrow> (\<not> b \<Longrightarrow> rpost y Q) \<Longrightarrow> rpost (if b then x else y) Q"
  by simp

lemma rpost_prod: "(\<And>a b. x = (a, b) \<Longrightarrow> rpost (f a b) Q) \<Longrightarrow> rpost (case x of (a, b) \<Rightarrow> f a b) Q"
  by (cases x) simp

lemmas rpost_intros = rpost_Inr rpost_Inl rpost_rbind rpost_option rpost_If rpost_prod

section \<open>Strings\<close>

fun HasPrefix :: "string \<Rightarrow> string \<Rightarrow> bool" where
  "HasPrefix s [] = True"
| "HasPrefix [] (p # ps) = False"
| "HasPrefix (c # s) (p # ps) = (c = p \<and> HasPrefix s ps)"

lemma HasPrefix_iff: "HasPrefix s p \<longleftrightarrow> (\<exists>r. s = p @ r)"
  by (induction s p rule: HasPrefix.induct) auto

lemma HasPrefix_append [simp]: "HasPrefix (p @ r) p"
  by (auto simp: HasPrefix_iff)

lemma HasPrefix_append_iff [simp]: "HasPrefix (q @ s) (q @ p) = HasPrefix s p"
  by (auto simp: HasPrefix_iff)

lemma HasPrefix_length: "HasPrefix s p \<Longrightarrow> length p \<le> length s"
  by (auto simp: HasPrefix_iff)

lemma HasPrefix_take: "HasPrefix s p \<Longrightarrow> take (length p) s = p"
  by (auto simp: HasPrefix_iff)

lemma HasPrefix_same_cases:
  "HasPrefix s p \<Longrightarrow> HasPrefix s q \<Longrightarrow> HasPrefix p q \<or> HasPrefix q p"
  by (auto simp: HasPrefix_iff append_eq_append_conv2)

definition HasSuffix :: "string \<Rightarrow> string \<Rightarrow> bool" where
  "HasSuffix s p = HasPrefix (rev s) (rev p)"

lemma HasSuffix_iff: "HasSuffix s p \<longleftrightarrow> (\<exists>r. s = r @ p)"
proof
  assume "HasSuffix s p"
  then obtain r where "rev s = rev p @ r"
    by (auto simp: HasSuffix_def HasPrefix_iff)
  then have "s = rev r @ p"
    by (metis rev_append rev_rev_ident)
  then show "\<exists>r. s = r @ p" ..
qed (auto simp: HasSuffix_def)

definition CutPrefix :: "string \<Rightarrow> string \<Rightarrow> string option" where
  "CutPrefix s p = (if HasPrefix s p then Some (drop (length p) s) else None)"

lemma CutPrefix_append [simp]: "CutPrefix (p @ r) p = Some r"
  by (simp add: CutPrefix_def)

lemma CutPrefix_Some: "CutPrefix s p = Some r \<longleftrightarrow> s = p @ r"
  by (auto simp: CutPrefix_def HasPrefix_iff)

definition CutSuffix :: "string \<Rightarrow> string \<Rightarrow> string option" where
  "CutSuffix s p = (if HasSuffix s p then Some (take (length s - length p) s) else None)"

lemma CutSuffix_Some: "CutSuffix s p = Some r \<longleftrightarrow> s = r @ p"
  by (auto simp: CutSuffix_def HasSuffix_iff)

definition TrimPrefix :: "string \<Rightarrow> string \<Rightarrow> string" where
  "TrimPrefix s p = (case CutPrefix s p of Some r \<Rightarrow> r | None \<Rightarrow> s)"

definition TrimSuffix :: "string \<Rightarrow> string \<Rightarrow> string" where
  "TrimSuffix s p = (case CutSuffix s p of Some r \<Rightarrow> r | None \<Rightarrow> s)"

lemma TrimPrefix_append [simp]: "TrimPrefix (p @ r) p = r"
  by (simp add: TrimPrefix_def)

text \<open>\<open>strings.Cut\<close> with a one-byte separator: \<open>None\<close> when the separator is absent.\<close>

fun Cut :: "string \<Rightarrow> char \<Rightarrow> (string \<times> string) option" where
  "Cut [] c = None"
| "Cut (x # xs) c =
     (if x = c then Some ([], xs)
      else map_option (\<lambda>(a, b). (x # a, b)) (Cut xs c))"

lemma Cut_append [simp]: "c \<notin> set a \<Longrightarrow> Cut (a @ c # b) c = Some (a, b)"
  by (induction a) auto

lemma Cut_None: "Cut s c = None \<longleftrightarrow> c \<notin> set s"
  by (induction s) auto

lemma Cut_SomeD: "Cut s c = Some (a, b) \<Longrightarrow> s = a @ c # b \<and> c \<notin> set a"
proof (induction s arbitrary: a)
  case (Cons x xs)
  show ?case
  proof (cases "x = c")
    case False
    with Cons.prems obtain a' where "Cut xs c = Some (a', b)" "a = x # a'"
      by auto
    with Cons.IH [of a'] False show ?thesis by auto
  qed (use Cons.prems in simp)
qed simp

lemma Cut_Some: "Cut s c = Some (a, b) \<longleftrightarrow> s = a @ c # b \<and> c \<notin> set a"
  using Cut_SomeD [of s c a b] Cut_append [of c a b] by blast

text \<open>\<open>strings.Split\<close> with a one-byte separator.\<close>

fun SplitOn :: "string \<Rightarrow> char \<Rightarrow> string list" where
  "SplitOn [] c = [[]]"
| "SplitOn (x # xs) c =
     (if x = c then [] # SplitOn xs c
      else (case SplitOn xs c of [] \<Rightarrow> [[x]] | p # ps \<Rightarrow> (x # p) # ps))"

lemma SplitOn_not_Nil [simp]: "SplitOn s c \<noteq> []"
  by (induction s) (auto split: list.splits)

lemma SplitOn_none [simp]: "c \<notin> set a \<Longrightarrow> SplitOn a c = [a]"
  by (induction a) auto

lemma SplitOn_append [simp]: "c \<notin> set a \<Longrightarrow> SplitOn (a @ c # b) c = a # SplitOn b c"
  by (induction a) auto

lemma SplitOn_no_sep: "p \<in> set (SplitOn s c) \<Longrightarrow> c \<notin> set p"
proof (induction s arbitrary: p)
  case (Cons x xs)
  then show ?case
    by (cases "SplitOn xs c") (auto split: if_splits)
qed simp

text \<open>\<open>strings.SplitN(s, sep, 2)\<close> with a one-byte separator.\<close>

definition SplitN2 :: "string \<Rightarrow> char \<Rightarrow> string list" where
  "SplitN2 s c = (case Cut s c of None \<Rightarrow> [s] | Some (a, b) \<Rightarrow> [a, b])"

text \<open>\<open>strings.Index\<close> and \<open>strings.LastIndex\<close> with a one-byte needle, \<open>None\<close> for -1.\<close>

fun IndexOf :: "string \<Rightarrow> char \<Rightarrow> nat option" where
  "IndexOf [] c = None"
| "IndexOf (x # xs) c = (if x = c then Some 0 else map_option Suc (IndexOf xs c))"

fun LastIndexOf :: "string \<Rightarrow> char \<Rightarrow> nat option" where
  "LastIndexOf [] c = None"
| "LastIndexOf (x # xs) c =
     (case LastIndexOf xs c of
        Some i \<Rightarrow> Some (Suc i)
      | None \<Rightarrow> if x = c then Some 0 else None)"

lemma LastIndexOf_None: "LastIndexOf s c = None \<longleftrightarrow> c \<notin> set s"
  by (induction s) (auto split: option.splits)

lemma LastIndexOf_append: "c \<notin> set b \<Longrightarrow> LastIndexOf (a @ c # b) c = Some (length a)"
proof (induction a)
  case Nil
  then have "LastIndexOf b c = None" by (simp add: LastIndexOf_None)
  then show ?case by simp
qed simp

text \<open>\<open>strings.Contains\<close> with a string needle.\<close>

fun Contains :: "string \<Rightarrow> string \<Rightarrow> bool" where
  "Contains [] p = (p = [])"
| "Contains (c # s) p = (HasPrefix (c # s) p \<or> Contains s p)"

section \<open>Lower case\<close>

text \<open>
  \<open>strings.ToLower\<close> maps the bytes \<open>A..Z\<close> of an ASCII string; on a string with a byte
  above 127 it uses Go's Unicode tables, which are the parameter \<open>U\<close>.
\<close>

definition ascii_lower :: "char \<Rightarrow> char" where
  "ascii_lower c =
     (if CHR ''A'' \<le> c \<and> c \<le> CHR ''Z'' then char_of (of_char c + 32 :: nat) else c)"

definition is_ascii :: "string \<Rightarrow> bool" where
  "is_ascii s = list_all (\<lambda>c. of_char c < (128::nat)) s"

definition ToLower :: "(string \<Rightarrow> string) \<Rightarrow> string \<Rightarrow> string" where
  "ToLower U s = (if is_ascii s then map ascii_lower s else U s)"

lemma is_ascii_simps [simp]:
  "is_ascii []" "is_ascii (c # s) = (of_char c < (128::nat) \<and> is_ascii s)"
  "is_ascii (s @ t) = (is_ascii s \<and> is_ascii t)"
  by (simp_all add: is_ascii_def)

definition is_lower_stable :: "string \<Rightarrow> bool" where
  "is_lower_stable s = list_all (\<lambda>c. of_char c < (128::nat) \<and> ascii_lower c = c) s"

lemma ToLower_stable: "is_lower_stable s \<Longrightarrow> ToLower U s = s"
proof -
  assume st: "is_lower_stable s"
  then have "is_ascii s" by (simp add: is_lower_stable_def is_ascii_def list_all_iff)
  moreover from st have "map ascii_lower s = s"
    by (simp add: is_lower_stable_def list_all_iff map_idI)
  ultimately show ?thesis by (simp add: ToLower_def)
qed

lemma is_lower_stable_simps [simp]:
  "is_lower_stable []"
  "is_lower_stable (c # s) = (of_char c < (128::nat) \<and> ascii_lower c = c \<and> is_lower_stable s)"
  "is_lower_stable (s @ t) = (is_lower_stable s \<and> is_lower_stable t)"
  by (auto simp: is_lower_stable_def)

lemma ascii_lower_upper_range:
  "CHR ''A'' \<le> c \<Longrightarrow> c \<le> CHR ''Z'' \<Longrightarrow> of_char (ascii_lower c) = (of_char c + 32 :: nat)"
  by (simp add: ascii_lower_def less_eq_char_def)

lemma ascii_lower_idem [simp]: "ascii_lower (ascii_lower c) = ascii_lower c"
proof (cases "CHR ''A'' \<le> c \<and> c \<le> CHR ''Z''")
  case True
  then have "of_char (ascii_lower c) = (of_char c + 32 :: nat)"
    by (simp add: ascii_lower_upper_range)
  with True have "\<not> ascii_lower c \<le> CHR ''Z''"
    by (simp add: less_eq_char_def)
  then show ?thesis by (simp add: ascii_lower_def)
next
  case False
  then have "ascii_lower c = c" by (simp only: ascii_lower_def if_False)
  then show ?thesis by simp
qed

lemma ascii_lower_ascii: "of_char c < (128::nat) \<Longrightarrow> of_char (ascii_lower c) < (128::nat)"
  by (simp add: ascii_lower_def less_eq_char_def)

lemma is_ascii_map_lower: "is_ascii s \<Longrightarrow> is_ascii (map ascii_lower s)"
  by (induction s) (auto simp: ascii_lower_ascii)

lemma map_ascii_lower_stable: "is_ascii s \<Longrightarrow> is_lower_stable (map ascii_lower s)"
  by (induction s) (auto simp: ascii_lower_ascii)

section \<open>Lists\<close>

lemma filter_absent: "h \<notin> set xs \<Longrightarrow> filter (\<lambda>y. y \<noteq> h) xs = xs"
  by (auto simp: filter_id_conv)

end
