(* ===== verification/Bolt.thy ===== *)
theory Bolt
  imports Prelude
begin

text \<open>
  The bbolt buckets the program keeps its state in, seen through the part of their
  documented contract the sources use: a bucket is a finite map from byte-string keys to
  values, \<open>Put\<close> refuses an empty key and a key above 32768 bytes and overwrites otherwise,
  \<open>Delete\<close> of an absent key is a no-op, a cursor and \<open>ForEach\<close> visit the entries in byte
  order, and \<open>NextSequence\<close> is a per-bucket 64-bit counter. An update transaction
  commits all of its writes or, when its callback returns an error, none of them.
  Values are kept decoded: a \<open>cell\<close> says whether the stored bytes decode
  (\<open>json.Unmarshal\<close> or \<open>proto.Unmarshal\<close> succeeds).
\<close>

datatype bolt_error = ErrKeyRequired | ErrKeyTooLarge

datatype 'a cell = Good 'a | Corrupt

record 'v bucket =
  entries :: "(bytes \<times> 'v) list"
  bseq :: nat

definition maxKeySize :: nat where
  "maxKeySize = 32768"

definition valid_key :: "bytes \<Rightarrow> bool" where
  "valid_key k \<longleftrightarrow> k \<noteq> [] \<and> length k \<le> maxKeySize"

definition empty_bucket :: "'v bucket" where
  "empty_bucket = \<lparr>entries = [], bseq = 0\<rparr>"

definition bget :: "'v bucket \<Rightarrow> bytes \<Rightarrow> 'v option" where
  "bget b k = map_of (entries b) k"

fun kins :: "bytes \<Rightarrow> 'v \<Rightarrow> (bytes \<times> 'v) list \<Rightarrow> (bytes \<times> 'v) list" where
  "kins k v [] = [(k, v)]"
| "kins k v ((k', v') # xs) =
     (if k < k' then (k, v) # (k', v') # xs
      else if k = k' then (k, v) # xs
      else (k', v') # kins k v xs)"

definition kdel :: "bytes \<Rightarrow> (bytes \<times> 'v) list \<Rightarrow> (bytes \<times> 'v) list" where
  "kdel k xs = filter (\<lambda>e. fst e \<noteq> k) xs"

definition bset :: "bytes \<Rightarrow> 'v \<Rightarrow> 'v bucket \<Rightarrow> 'v bucket" where
  "bset k v b = b\<lparr>entries := kins k v (entries b)\<rparr>"

definition bput :: "bytes \<Rightarrow> 'v \<Rightarrow> 'v bucket \<Rightarrow> bolt_error + 'v bucket" where
  "bput k v b =
     (if k = [] then Inl ErrKeyRequired
      else if length k > maxKeySize then Inl ErrKeyTooLarge
      else Inr (bset k v b))"

definition bdelete :: "bytes \<Rightarrow> 'v bucket \<Rightarrow> 'v bucket" where
  "bdelete k b = b\<lparr>entries := kdel k (entries b)\<rparr>"

definition next_seq :: "'v bucket \<Rightarrow> nat \<times> 'v bucket" where
  "next_seq b = (let s = (bseq b + 1) mod 2 ^ 64 in (s, b\<lparr>bseq := s\<rparr>))"

definition keyN :: "'v bucket \<Rightarrow> nat" where
  "keyN b = length (entries b)"

text \<open>\<open>cursor.Seek(prefix)\<close> followed by \<open>Next\<close> while the key has the prefix.\<close>

definition seek_prefix :: "bytes \<Rightarrow> 'v bucket \<Rightarrow> (bytes \<times> 'v) list" where
  "seek_prefix p b =
     takeWhile (\<lambda>e. HasPrefix (fst e) p) (dropWhile (\<lambda>e. fst e < p) (entries b))"

section \<open>Well-formed buckets\<close>

definition wf_bucket :: "'v bucket \<Rightarrow> bool" where
  "wf_bucket b \<longleftrightarrow>
     sorted_wrt (<) (map fst (entries b)) \<and> list_all (\<lambda>e. valid_key (fst e)) (entries b)"

lemma map_of_kins [simp]: "map_of (kins k v xs) = (map_of xs)(k \<mapsto> v)"
  by (induction k v xs rule: kins.induct) (auto simp: fun_eq_iff)

lemma map_of_kdel [simp]: "map_of (kdel k xs) = (map_of xs)(k := None)"
  by (induction xs) (auto simp: kdel_def fun_eq_iff)

lemma fst_set_kins: "fst ` set (kins k v xs) = insert k (fst ` set xs)"
  by (induction k v xs rule: kins.induct) auto

lemma set_kins_subset: "set (kins k v xs) \<subseteq> insert (k, v) (set xs)"
  by (induction k v xs rule: kins.induct) auto

lemma sorted_kins: "sorted_wrt (<) (map fst xs) \<Longrightarrow> sorted_wrt (<) (map fst (kins k v xs))"
proof (induction k v xs rule: kins.induct)
  case (2 k v k' v' xs)
  have "k' < k \<Longrightarrow> \<forall>y \<in> fst ` set (kins k v xs). k' < y"
    using "2.prems" by (simp only: fst_set_kins) auto
  with 2 show ?case by (auto dest: less_trans)
qed simp

lemma sorted_kdel: "sorted_wrt (<) (map fst xs) \<Longrightarrow> sorted_wrt (<) (map fst (kdel k xs))"
  by (induction xs) (auto simp: kdel_def)

lemma kdel_absent: "k \<notin> fst ` set xs \<Longrightarrow> kdel k xs = xs"
  by (induction xs) (auto simp: kdel_def)

lemma set_kdel: "set (kdel k xs) = {e \<in> set xs. fst e \<noteq> k}"
  by (auto simp: kdel_def)

lemma sorted_distinct_keys: "sorted_wrt (<) (map fst xs) \<Longrightarrow> distinct (map fst (xs :: (bytes \<times> 'v) list))"
  by (induction xs) auto

lemma kins_append_last:
  "\<forall>y \<in> fst ` set xs. y < k \<Longrightarrow> kins k v xs = xs @ [(k, v)]"
  by (induction k v xs rule: kins.induct) auto

text \<open>Replacing the value of one key changes nothing else about the entries.\<close>

lemma kins_replace:
  "sorted_wrt (<) (map fst xs) \<Longrightarrow> k \<in> fst ` set xs \<Longrightarrow>
   kins k v xs = map (\<lambda>e. if fst e = k then (k, v) else e) xs"
proof (induction k v xs rule: kins.induct)
  case (2 k v k' v' xs)
  show ?case
  proof (cases "k = k'")
    case True
    have "map (\<lambda>e. if fst e = k then (k, v) else e) xs = xs"
      using "2.prems"(1) True by (intro map_idI) auto
    with True show ?thesis by simp
  next
    case False
    with "2.prems" have "k \<in> fst ` set xs" "\<not> k < k'" by auto
    with 2 False show ?thesis by simp
  qed
qed simp

lemma wf_empty_bucket [simp]: "wf_bucket empty_bucket"
  by (simp add: wf_bucket_def empty_bucket_def)

lemma wf_bset [intro]: "wf_bucket b \<Longrightarrow> valid_key k \<Longrightarrow> wf_bucket (bset k v b)"
  using set_kins_subset [of k v "entries b"]
  by (auto simp: wf_bucket_def bset_def sorted_kins list_all_iff)

lemma wf_bdelete [intro]: "wf_bucket b \<Longrightarrow> wf_bucket (bdelete k b)"
  by (auto simp: wf_bucket_def bdelete_def sorted_kdel list_all_iff set_kdel)

lemma wf_seq_update [simp]: "wf_bucket (b\<lparr>bseq := n\<rparr>) = wf_bucket b"
  by (simp add: wf_bucket_def)

lemma bput_Inr: "bput k v b = Inr b' \<longleftrightarrow> valid_key k \<and> b' = bset k v b"
  by (auto simp: bput_def valid_key_def)

lemma bput_valid [simp]: "valid_key k \<Longrightarrow> bput k v b = Inr (bset k v b)"
  by (simp add: bput_Inr)

lemma bget_empty [simp]: "bget empty_bucket k = None"
  by (simp add: bget_def empty_bucket_def)

lemma bget_bset [simp]: "bget (bset k v b) k' = (if k' = k then Some v else bget b k')"
  by (simp add: bget_def bset_def)

lemma bget_bdelete [simp]: "bget (bdelete k b) k' = (if k' = k then None else bget b k')"
  by (simp add: bget_def bdelete_def)

lemma bget_seq_update [simp]: "bget (b\<lparr>bseq := n\<rparr>) k = bget b k"
  by (simp add: bget_def)

lemma wf_bucket_distinct: "wf_bucket b \<Longrightarrow> distinct (map fst (entries b))"
  by (simp add: wf_bucket_def sorted_distinct_keys)

lemma bget_Some_iff: "wf_bucket b \<Longrightarrow> bget b k = Some v \<longleftrightarrow> (k, v) \<in> set (entries b)"
  by (simp add: bget_def wf_bucket_distinct)

lemma bget_Some_in: "bget b k = Some v \<Longrightarrow> (k, v) \<in> set (entries b)"
  by (simp add: bget_def map_of_SomeD)

lemma bget_None_iff: "bget b k = None \<longleftrightarrow> k \<notin> fst ` set (entries b)"
  by (simp add: bget_def map_of_eq_None_iff)

lemma bget_valid_key: "wf_bucket b \<Longrightarrow> bget b k = Some v \<Longrightarrow> valid_key k"
  by (auto simp: wf_bucket_def list_all_iff dest!: bget_Some_in)

lemma empty_bucket_simps [simp]:
  "entries empty_bucket = []" "bseq empty_bucket = 0" "empty_bucket\<lparr>entries := []\<rparr> = empty_bucket"
  "empty_bucket\<lparr>bseq := 0\<rparr> = empty_bucket"
  by (simp_all add: empty_bucket_def)

lemma bget_bseq [simp]: "bget (b\<lparr>bseq := n\<rparr>) k = bget b k"
  by (simp add: bget_def)

text \<open>Sums over the values of a bucket.\<close>

definition bsum :: "('v \<Rightarrow> nat) \<Rightarrow> 'v bucket \<Rightarrow> nat" where
  "bsum f b = sum_list (map (\<lambda>e. f (snd e)) (entries b))"

lemma bsum_empty [simp]: "bsum f empty_bucket = 0"
  by (simp add: bsum_def empty_bucket_def)

lemma sum_kins:
  "sorted_wrt (<) (map fst xs) \<Longrightarrow>
   sum_list (map (\<lambda>e. f (snd e)) (kins k v xs)) + (case map_of xs k of None \<Rightarrow> 0 | Some old \<Rightarrow> f old)
     = sum_list (map (\<lambda>e. f (snd e)) xs) + (f v :: nat)"
proof (induction k v xs rule: kins.induct)
  case (2 k v k' v' xs)
  have "k < k' \<Longrightarrow> k \<notin> fst ` set xs"
    using "2.prems" by (auto dest: less_trans)
  then have "k < k' \<Longrightarrow> map_of xs k = None"
    by (simp add: map_of_eq_None_iff)
  with 2 show ?case by (auto simp: ac_simps)
qed simp

lemma bsum_bset:
  "wf_bucket b \<Longrightarrow>
   bsum f (bset k v b) + (case bget b k of None \<Rightarrow> 0 | Some old \<Rightarrow> f old) = bsum f b + f v"
  by (simp add: bsum_def bset_def bget_def wf_bucket_def sum_kins)

lemma sum_kdel:
  "distinct (map fst xs) \<Longrightarrow>
   sum_list (map (\<lambda>e. f (snd e)) (kdel k xs)) + (case map_of xs k of None \<Rightarrow> 0 | Some old \<Rightarrow> f old)
     = (sum_list (map (\<lambda>e. f (snd e)) xs) :: nat)"
proof (induction xs)
  case (Cons e xs)
  show ?case
  proof (cases "fst e = k")
    case True
    with Cons.prems have "kdel k xs = xs" by (auto intro: kdel_absent)
    with True show ?thesis by (cases e) (simp add: kdel_def)
  next
    case False
    with Cons show ?thesis by (cases e) (simp add: kdel_def)
  qed
qed (simp add: kdel_def)

lemma bsum_bdelete:
  "wf_bucket b \<Longrightarrow>
   bsum f (bdelete k b) + (case bget b k of None \<Rightarrow> 0 | Some old \<Rightarrow> f old) = bsum f b"
  by (simp add: bsum_def bdelete_def bget_def wf_bucket_distinct sum_kdel)

lemma bget_le_bsum: "bget b k = Some v \<Longrightarrow> f v \<le> bsum f b"
proof -
  assume "bget b k = Some v"
  then have "f v \<in> set (map (\<lambda>e. f (snd e)) (entries b))"
    by (force dest: bget_Some_in)
  then show ?thesis unfolding bsum_def by (intro member_le_sum_list) auto
qed

text \<open>A prefix scan returns exactly the entries whose key has the prefix.\<close>

lemma HasPrefix_interval:
  fixes p :: bytes
  shows "p \<le> x \<Longrightarrow> x \<le> y \<Longrightarrow> HasPrefix y p \<Longrightarrow> HasPrefix x p"
proof (induction y p arbitrary: x rule: HasPrefix.induct)
  case (3 c s q ps)
  then obtain d t where x: "x = d # t"
    by (cases x) auto
  with 3 show ?case by auto
qed auto

lemma prefix_le: "HasPrefix y p \<Longrightarrow> (p :: bytes) \<le> y"
  by (induction y p rule: HasPrefix.induct) auto

lemma set_seek_prefix:
  assumes "wf_bucket b"
  shows "set (seek_prefix p b) = {e \<in> set (entries b). HasPrefix (fst e) p}"
proof -
  let ?P = "\<lambda>e. HasPrefix (fst e) p"
  have sorted: "sorted_wrt (<) (map fst (entries b))"
    using assms by (simp add: wf_bucket_def)
  have "takeWhile ?P (dropWhile (\<lambda>e. fst e < p) xs) = filter ?P xs"
    if "sorted_wrt (<) (map fst xs)" for xs :: "(bytes \<times> 'a) list"
    using that
  proof (induction xs)
    case (Cons e xs)
    have gt: "\<forall>y \<in> set xs. fst e < fst y" using Cons.prems by auto
    show ?case
    proof (cases "fst e < p")
      case True
      then have "\<not> ?P e" by (auto dest: prefix_le)
      with True Cons show ?thesis by simp
    next
      case ge: False
      then have tail: "dropWhile (\<lambda>e. fst e < p) xs = xs"
        using gt by (cases xs) auto
      show ?thesis
      proof (cases "?P e")
        case True
        with ge tail Cons show ?thesis by simp
      next
        case False
        have "\<not> ?P y" if "y \<in> set xs" for y
          using False ge gt that HasPrefix_interval [of p "fst e" "fst y"] by force
        then have "filter ?P xs = []" by (simp add: filter_empty_conv)
        with False ge show ?thesis by simp
      qed
    qed
  qed simp
  with sorted show ?thesis by (simp add: seek_prefix_def)
qed

end
