(* ===== verification/Encoding.thy ===== *)
theory Encoding
  imports Prelude
begin

text \<open>
  Fixed-width encodings used across the program: big-endian integers
  (\<open>encoding/binary\<close>), and hexadecimal text (\<open>encoding/hex\<close>).
\<close>

section \<open>Big-endian integers\<close>

text \<open>\<open>be_bytes n x\<close> is \<open>PutUint\<close> of the low \<open>n\<close> bytes of \<open>x\<close>; \<open>be_val\<close> reads them back.\<close>

fun be_bytes :: "nat \<Rightarrow> nat \<Rightarrow> bytes" where
  "be_bytes 0 x = []"
| "be_bytes (Suc n) x = be_bytes n (x div 256) @ [char_of (x mod 256)]"

definition be_val :: "bytes \<Rightarrow> nat" where
  "be_val bs = foldl (\<lambda>a c. a * 256 + of_char c) 0 bs"

lemma length_be_bytes [simp]: "length (be_bytes n x) = n"
  by (induction n arbitrary: x) auto

lemma be_val_snoc [simp]: "be_val (bs @ [c]) = be_val bs * 256 + of_char c"
  by (simp add: be_val_def)

lemma be_val_Nil [simp]: "be_val [] = 0"
  by (simp add: be_val_def)

lemma be_val_be_bytes: "be_val (be_bytes n x) = x mod 256 ^ n"
proof (induction n arbitrary: x)
  case (Suc n)
  have "x mod (256 * 256 ^ n) = 256 * (x div 256 mod 256 ^ n) + x mod 256"
    by (rule mod_mult2_eq)
  with Suc show ?case by (simp add: ac_simps)
qed simp

lemma be_bytes_be_val: "be_bytes (length bs) (be_val bs) = bs"
proof (induction bs rule: rev_induct)
  case (snoc c bs)
  have "(be_val bs * 256 + of_char c) div 256 = be_val bs"
    "(be_val bs * 256 + of_char c) mod 256 = (of_char c :: nat)"
    by simp_all
  with snoc show ?case by (simp only: length_append_singleton be_bytes.simps be_val_snoc char_of_char)
qed simp

lemma be_val_less: "be_val bs < 256 ^ length bs"
proof (induction bs rule: rev_induct)
  case (snoc c bs)
  have "of_char c < (256::nat)" by simp
  moreover from snoc have "be_val bs + 1 \<le> 256 ^ length bs" by simp
  then have "(be_val bs + 1) * 256 \<le> 256 ^ length bs * 256" by (rule mult_le_mono1)
  ultimately have "be_val bs * 256 + of_char c < 256 ^ length bs * 256"
    by (simp only: distrib_right)
  then show ?case by (simp add: mult.commute)
qed simp

lemma be_bytes_inject:
  "x < 256 ^ n \<Longrightarrow> y < 256 ^ n \<Longrightarrow> be_bytes n x = be_bytes n y \<longleftrightarrow> x = y"
  by (metis be_val_be_bytes mod_less)

text \<open>Byte strings of one length compare as the numbers they encode.\<close>

lemma lex_snoc:
  fixes xs ys :: "'a::linorder list"
  assumes "length xs = length ys"
  shows "xs @ [x] < ys @ [y] \<longleftrightarrow> xs < ys \<or> (xs = ys \<and> x < y)"
  using assms by (induction xs ys rule: list_induct2) auto

lemma digit_less_iff:
  fixes a b x y :: nat
  assumes "x < 256" and "y < 256"
  shows "a * 256 + x < b * 256 + y \<longleftrightarrow> a < b \<or> (a = b \<and> x < y)"
  using assms by auto

lemma be_val_less_iff:
  "length xs = length ys \<Longrightarrow> xs < ys \<longleftrightarrow> be_val xs < be_val ys"
proof (induction xs arbitrary: ys rule: rev_induct)
  case (snoc x xs)
  then obtain ys' y where ys: "ys = ys' @ [y]" "length xs = length ys'"
    by (cases ys rule: rev_cases) auto
  have "xs = ys' \<longleftrightarrow> be_val xs = be_val ys'"
    using ys(2) by (metis be_bytes_be_val)
  moreover have "of_char x < (256::nat)" "of_char y < (256::nat)" by simp_all
  moreover have "x < y \<longleftrightarrow> of_char x < (of_char y :: nat)" by (simp add: less_char_def)
  moreover have "xs < ys' \<longleftrightarrow> be_val xs < be_val ys'" using snoc.IH ys(2) .
  moreover have "xs @ [x] < ys \<longleftrightarrow> xs < ys' \<or> (xs = ys' \<and> x < y)"
    using ys by (simp add: lex_snoc)
  moreover have "be_val (xs @ [x]) = be_val xs * 256 + of_char x"
    "be_val ys = be_val ys' * 256 + of_char y" using ys by simp_all
  ultimately show ?case by (metis digit_less_iff)
qed simp

lemma be_bytes_less_iff:
  "x < 256 ^ n \<Longrightarrow> y < 256 ^ n \<Longrightarrow> be_bytes n x < be_bytes n y \<longleftrightarrow> x < y"
  by (simp add: be_val_less_iff be_val_be_bytes)

section \<open>Hexadecimal text\<close>

definition hexdig :: "nat \<Rightarrow> char" where
  "hexdig n = (if n < 10 then char_of (48 + n) else char_of (87 + n))"

definition fromHexChar :: "char \<Rightarrow> nat option" where
  "fromHexChar c =
     (if CHR ''0'' \<le> c \<and> c \<le> CHR ''9'' then Some (of_char c - 48)
      else if CHR ''a'' \<le> c \<and> c \<le> CHR ''f'' then Some (of_char c - 87)
      else if CHR ''A'' \<le> c \<and> c \<le> CHR ''F'' then Some (of_char c - 55)
      else None)"

fun hex_encode :: "bytes \<Rightarrow> string" where
  "hex_encode [] = []"
| "hex_encode (c # cs) = hexdig (of_char c div 16) # hexdig (of_char c mod 16) # hex_encode cs"

text \<open>\<open>hex.Decode\<close>: \<open>None\<close> is its error (a byte that is no hex digit, or an odd length).\<close>

fun hex_decode :: "string \<Rightarrow> bytes option" where
  "hex_decode [] = Some []"
| "hex_decode [c] = None"
| "hex_decode (a # b # s) =
     (case (fromHexChar a, fromHexChar b, hex_decode s) of
        (Some h, Some l, Some r) \<Rightarrow> Some (char_of (h * 16 + l) # r)
      | _ \<Rightarrow> None)"

lemma of_char_hexdig: "n < 16 \<Longrightarrow> of_char (hexdig n) = (if n < 10 then 48 + n else 87 + n)"
  by (simp add: hexdig_def)

lemma fromHexChar_hexdig [simp]: "n < 16 \<Longrightarrow> fromHexChar (hexdig n) = Some n"
  by (simp add: fromHexChar_def less_eq_char_def of_char_hexdig)

lemma fromHexChar_less: "fromHexChar c = Some n \<Longrightarrow> n < 16"
  by (auto simp: fromHexChar_def less_eq_char_def split: if_splits)

lemma length_hex_encode [simp]: "length (hex_encode bs) = 2 * length bs"
  by (induction bs) auto

lemma hex_encode_append [simp]: "hex_encode (a @ b) = hex_encode a @ hex_encode b"
  by (induction a) auto

lemma hex_decode_encode [simp]: "hex_decode (hex_encode bs) = Some bs"
proof (induction bs)
  case (Cons c cs)
  have "of_char c < (256::nat)" by simp
  then have "of_char c div 16 < (16::nat)" by linarith
  with Cons show ?case by (simp)
qed simp

lemma hex_decode_length: "hex_decode s = Some bs \<Longrightarrow> length s = 2 * length bs"
  by (induction s arbitrary: bs rule: hex_decode.induct)
     (auto split: option.splits)

lemma hexdig_stable: "n < 16 \<Longrightarrow> of_char (hexdig n) < (128::nat) \<and> ascii_lower (hexdig n) = hexdig n"
  by (simp add: ascii_lower_def less_eq_char_def of_char_hexdig)

lemma hexdig_fromHexChar: "fromHexChar c = Some n \<Longrightarrow> hexdig n = ascii_lower c"
proof -
  assume a: "fromHexChar c = Some n"
  have "of_char (hexdig n) = (of_char (ascii_lower c) :: nat)"
    using a fromHexChar_less [OF a]
    by (auto simp: fromHexChar_def of_char_hexdig ascii_lower_def less_eq_char_def split: if_splits)
  then show ?thesis by simp
qed

lemma hex_encode_stable: "is_lower_stable (hex_encode bs)"
proof (induction bs)
  case (Cons c cs)
  have "of_char c < (256::nat)" by simp
  then have "of_char c div 16 < (16::nat)" by linarith
  with Cons show ?case by (simp add: hexdig_stable)
qed simp

text \<open>A decoded string is the encoding, up to the case of its digits.\<close>

lemma hex_encode_decode: "hex_decode s = Some bs \<Longrightarrow> hex_encode bs = map ascii_lower s"
proof (induction s arbitrary: bs rule: hex_decode.induct)
  case (3 a b s)
  from "3.prems" obtain h l r where d: "fromHexChar a = Some h" "fromHexChar b = Some l"
      "hex_decode s = Some r" and bs: "bs = char_of (h * 16 + l) # r"
    by (auto split: option.splits)
  have "h < 16" "l < 16" using d by (auto dest: fromHexChar_less)
  then have "of_char (char_of (h * 16 + l) :: char) = h * 16 + l" by simp
  with d bs "3.IH" \<open>l < 16\<close> \<open>h < 16\<close> show ?case
    by (simp add: hexdig_fromHexChar)
qed simp_all

lemma hex_encode_inject [simp]: "hex_encode a = hex_encode b \<longleftrightarrow> a = b"
  by (metis hex_decode_encode option.inject)

lemma fromHexChar_ascii: "fromHexChar c = Some n \<Longrightarrow> of_char c < (128::nat)"
  by (auto simp: fromHexChar_def less_eq_char_def split: if_splits)

lemma hex_decode_ascii: "hex_decode s = Some bs \<Longrightarrow> is_ascii s"
  by (induction s arbitrary: bs rule: hex_decode.induct)
     (auto dest: fromHexChar_ascii split: option.splits)

lemma hexdig_not_sep: "n < 16 \<Longrightarrow> hexdig n \<noteq> CHR ''/'' \<and> hexdig n \<noteq> CHR '':'' \<and> hexdig n \<noteq> CHR ''.''"
proof -
  assume "n < 16"
  then have "of_char (hexdig n) \<noteq> (47::nat) \<and> of_char (hexdig n) \<noteq> (58::nat) \<and> of_char (hexdig n) \<noteq> (46::nat)"
    by (auto simp: of_char_hexdig)
  then show ?thesis by auto
qed

lemma hex_encode_no_sep:
  "CHR ''/'' \<notin> set (hex_encode bs) \<and> CHR '':'' \<notin> set (hex_encode bs) \<and> CHR ''.'' \<notin> set (hex_encode bs)"
proof (induction bs)
  case (Cons c cs)
  have "of_char c < (256::nat)" by simp
  then have "of_char c div 16 < (16::nat)" "of_char c mod 16 < (16::nat)" by linarith+
  with Cons hexdig_not_sep show ?case by (metis hex_encode.simps(2) set_ConsD)
qed simp

end
