(* ===== verification/Hashes.thy ===== *)
theory Hashes
  imports Encoding
begin

text \<open>
  Content hashes and blob references (\<open>hash.go\<close>, \<open>blobref.go\<close>): the hexadecimal text of a
  hash, its parser, references \<open>algorithm:hex\<close>, backend storage keys \<open>blobs/xx/hex\<close>,
  and the readers and writers that hash what passes through them. BLAKE3 itself is a
  third-party package: a parameter \<open>blake3\<close>, of which only the 32-byte length of its digests
  is used.
\<close>

section \<open>Hash values\<close>

type_synonym hash = bytes

definition HashSize :: nat where
  "HashSize = 32"

text \<open>The Go type is \<open>[32]byte\<close>: every value of it has this length.\<close>

definition is_hash :: "hash \<Rightarrow> bool" where
  "is_hash h \<longleftrightarrow> length h = HashSize"

definition zero_hash :: hash where
  "zero_hash = replicate HashSize (CHR 0x00)"

definition hash_String :: "hash \<Rightarrow> string" where
  "hash_String h = hex_encode h"

definition hash_ShortString :: "hash \<Rightarrow> string" where
  "hash_ShortString h = hex_encode (take 8 h)"

definition hash_Dir :: "hash \<Rightarrow> string" where
  "hash_Dir h = hex_encode (take 1 h)"

definition hash_IsZero :: "hash \<Rightarrow> bool" where
  "hash_IsZero h \<longleftrightarrow> h = zero_hash"

datatype hash_error = InvalidHashLength nat | InvalidHex

definition UnmarshalText :: "string \<Rightarrow> hash_error + hash" where
  "UnmarshalText text =
     (if length text \<noteq> HashSize * 2 then Inl (InvalidHashLength (length text))
      else (case hex_decode text of None \<Rightarrow> Inl InvalidHex | Some h \<Rightarrow> Inr h))"

definition ParseHash :: "string \<Rightarrow> hash_error + hash" where
  "ParseHash s = rbind (UnmarshalText s) Inr"

section \<open>Hashing readers and writers\<close>

text \<open>A BLAKE3 hasher is the sequence of bytes written to it.\<close>

record hashing_reader =
  hr_fed :: bytes
  hr_n :: int

definition NewHashingReader :: hashing_reader where
  "NewHashingReader = \<lparr>hr_fed = [], hr_n = 0\<rparr>"

text \<open>One \<open>Read\<close> of the wrapped reader that returned the bytes \<open>p\<close>.\<close>

definition HashingReader_Read :: "hashing_reader \<Rightarrow> bytes \<Rightarrow> hashing_reader" where
  "HashingReader_Read hr p =
     (if length p > 0
      then hr\<lparr>hr_fed := hr_fed hr @ p, hr_n := hr_n hr + int (length p)\<rparr>
      else hr)"

definition HashingReader_Sum :: "(bytes \<Rightarrow> hash) \<Rightarrow> hashing_reader \<Rightarrow> hash" where
  "HashingReader_Sum blake3 hr = blake3 (hr_fed hr)"

definition HashingReader_BytesRead :: "hashing_reader \<Rightarrow> int" where
  "HashingReader_BytesRead hr = hr_n hr"

text \<open>
  A source is the list of chunks its \<open>Read\<close> calls return and whether it then ends with an
  error instead of end-of-file. \<open>io.Copy(dst, NewHashingReader(src))\<close> writes what was read.
\<close>

record source =
  chunks :: "bytes list"
  src_fails :: bool

fun copy_hashing :: "hashing_reader \<Rightarrow> bytes \<Rightarrow> bytes list \<Rightarrow> hashing_reader \<times> bytes" where
  "copy_hashing hr out [] = (hr, out)"
| "copy_hashing hr out (p # ps) = copy_hashing (HashingReader_Read hr p) (out @ p) ps"

text \<open>\<open>HashReader\<close>: the digest and the number of bytes read, or the read error with the count.\<close>

definition HashReader :: "(bytes \<Rightarrow> hash) \<Rightarrow> source \<Rightarrow> (int + hash \<times> int)" where
  "HashReader blake3 r =
     (let (hr, out) = copy_hashing NewHashingReader [] (chunks r)
      in if src_fails r then Inl (hr_n hr) else Inr (HashingReader_Sum blake3 hr, hr_n hr))"

record hashing_writer =
  hw_out :: bytes
  hw_fed :: bytes
  hw_n :: int

text \<open>The wrapped writer may accept only the first \<open>n\<close> bytes of \<open>p\<close>.\<close>

definition HashingWriter_Write :: "hashing_writer \<Rightarrow> bytes \<Rightarrow> nat \<Rightarrow> hashing_writer" where
  "HashingWriter_Write hw p n =
     (if n > 0
      then hw\<lparr>hw_out := hw_out hw @ take n p, hw_fed := hw_fed hw @ take n p,
             hw_n := hw_n hw + int n\<rparr>
      else hw)"

section \<open>Blob references\<close>

definition AlgBLAKE3 :: string where
  "AlgBLAKE3 = ''blake3''"

record blob_ref =
  br_alg :: string
  br_hash :: hash

definition NewBlobRef :: "hash \<Rightarrow> blob_ref" where
  "NewBlobRef h = \<lparr>br_alg = AlgBLAKE3, br_hash = h\<rparr>"

definition BlobRef_String :: "blob_ref \<Rightarrow> string" where
  "BlobRef_String r = br_alg r @ '':'' @ hash_String (br_hash r)"

definition BlobRef_Hex :: "blob_ref \<Rightarrow> string" where
  "BlobRef_Hex r = hash_String (br_hash r)"

datatype ref_error = EmptyRef | UnsupportedAlgorithm string | InvalidRefHash hash_error

definition ParseBlobRef :: "(string \<Rightarrow> string) \<Rightarrow> string \<Rightarrow> ref_error + blob_ref" where
  "ParseBlobRef U s =
     (if s = [] then Inl EmptyRef
      else let (algoStr, hexStr) =
                 (case Cut s (CHR '':'') of Some (a, b) \<Rightarrow> (a, b) | None \<Rightarrow> (AlgBLAKE3, s));
               algoStr' = ToLower U algoStr
           in if algoStr' = AlgBLAKE3
              then (case ParseHash (ToLower U hexStr) of
                      Inl e \<Rightarrow> Inl (InvalidRefHash e)
                    | Inr h \<Rightarrow> Inr \<lparr>br_alg = AlgBLAKE3, br_hash = h\<rparr>)
              else Inl (UnsupportedAlgorithm algoStr'))"

section \<open>Storage keys\<close>

definition BlobKeyPrefix :: string where
  "BlobKeyPrefix = ''blobs''"

definition BlobStorageKey :: "hash \<Rightarrow> string" where
  "BlobStorageKey h =
     (let hex = hash_String h in BlobKeyPrefix @ ''/'' @ take 2 hex @ ''/'' @ hex)"

datatype key_error = InvalidKeyPrefix | InvalidKeyFormat | InvalidKeyHash hash_error

definition ParseBlobStorageKey :: "string \<Rightarrow> key_error + hash" where
  "ParseBlobStorageKey key =
     (case SplitOn key (CHR ''/'') of
        [p, xx, hex] \<Rightarrow>
          if p \<noteq> BlobKeyPrefix then Inl InvalidKeyPrefix
          else (case ParseHash hex of Inl e \<Rightarrow> Inl (InvalidKeyHash e) | Inr h \<Rightarrow> Inr h)
      | [p, xx, yy, hex] \<Rightarrow>
          if p \<noteq> BlobKeyPrefix then Inl InvalidKeyPrefix
          else (case ParseHash hex of Inl e \<Rightarrow> Inl (InvalidKeyHash e) | Inr h \<Rightarrow> Inr h)
      | _ \<Rightarrow> Inl InvalidKeyFormat)"

section \<open>Lemmas\<close>

lemma length_hash_String [simp]: "is_hash h \<Longrightarrow> length (hash_String h) = 64"
  by (simp add: is_hash_def hash_String_def HashSize_def)

lemma hash_String_inject [simp]: "hash_String a = hash_String b \<longleftrightarrow> a = b"
  by (simp add: hash_String_def)

lemma ParseHash_String [simp]: "is_hash h \<Longrightarrow> ParseHash (hash_String h) = Inr h"
  by (simp add: ParseHash_def UnmarshalText_def is_hash_def hash_String_def)

lemma ParseHash_Inr:
  "ParseHash s = Inr h \<longleftrightarrow> length s = 64 \<and> hex_decode s = Some h"
  by (auto simp: ParseHash_def UnmarshalText_def HashSize_def split: option.splits)

lemma ParseHash_is_hash: "ParseHash s = Inr h \<Longrightarrow> is_hash h"
  by (auto simp: ParseHash_Inr is_hash_def HashSize_def dest: hex_decode_length)

lemma ParseHash_lower: "ParseHash s = Inr h \<Longrightarrow> hash_String h = map ascii_lower s"
  by (auto simp: ParseHash_Inr hash_String_def hex_encode_decode)

lemma ToLower_hash_String [simp]: "ToLower U (hash_String h) = hash_String h"
  by (simp add: ToLower_stable hash_String_def hex_encode_stable)

lemma ToLower_AlgBLAKE3 [simp]: "ToLower U AlgBLAKE3 = AlgBLAKE3"
  by (rule ToLower_stable) (simp add: AlgBLAKE3_def ascii_lower_def less_eq_char_def)

lemma hash_String_no_sep:
  "CHR ''/'' \<notin> set (hash_String h)" "CHR '':'' \<notin> set (hash_String h)" "CHR ''.'' \<notin> set (hash_String h)"
  using hex_encode_no_sep [of h] by (auto simp: hash_String_def)

lemma is_hash_zero [simp]: "is_hash zero_hash"
  by (simp add: is_hash_def zero_hash_def HashSize_def)

lemma ToLower_BlobRef_String [simp]:
  "ToLower U (BlobRef_String (NewBlobRef h)) = BlobRef_String (NewBlobRef h)"
  by (rule ToLower_stable)
     (simp add: BlobRef_String_def NewBlobRef_def AlgBLAKE3_def hash_String_def hex_encode_stable
       ascii_lower_def less_eq_char_def)

lemma BlobRef_String_inject [simp]:
  "BlobRef_String (NewBlobRef a) = BlobRef_String (NewBlobRef b) \<longleftrightarrow> a = b"
  by (simp add: BlobRef_String_def NewBlobRef_def)

lemma copy_hashing_eq:
  "copy_hashing hr out ps =
     (\<lparr>hr_fed = hr_fed hr @ concat ps, hr_n = hr_n hr + int (length (concat ps))\<rparr>,
      out @ concat ps)"
  by (induction hr out ps rule: copy_hashing.induct) (auto simp: HashingReader_Read_def)

lemma ParseBlobRef_String [simp]:
  assumes "is_hash h"
  shows "ParseBlobRef U (BlobRef_String (NewBlobRef h)) = Inr (NewBlobRef h)"
proof -
  let ?s = "AlgBLAKE3 @ CHR '':'' # hash_String h"
  have s: "BlobRef_String (NewBlobRef h) = ?s"
    by (simp add: BlobRef_String_def NewBlobRef_def)
  have "CHR '':'' \<notin> set AlgBLAKE3" by (simp add: AlgBLAKE3_def)
  then have "Cut ?s (CHR '':'') = Some (AlgBLAKE3, hash_String h)" by (rule Cut_append)
  moreover have "?s \<noteq> []" by simp
  ultimately show ?thesis
    unfolding s ParseBlobRef_def using assms by (simp add: NewBlobRef_def)
qed

lemma ParseBlobRef_is_hash: "ParseBlobRef U s = Inr r \<Longrightarrow> is_hash (br_hash r) \<and> br_alg r = AlgBLAKE3"
  using ParseHash_is_hash
  by (clarsimp simp: ParseBlobRef_def Let_def split: if_splits option.splits sum.splits)

lemma BlobStorageKey_split:
  "SplitOn (BlobStorageKey h) (CHR ''/'') = [BlobKeyPrefix, take 2 (hash_String h), hash_String h]"
proof -
  have a: "CHR ''/'' \<notin> set BlobKeyPrefix" by (simp add: BlobKeyPrefix_def)
  have b: "CHR ''/'' \<notin> set (take 2 (hash_String h))"
    using hash_String_no_sep(1) [of h] by (auto dest: in_set_takeD)
  show ?thesis
    using a b hash_String_no_sep(1) [of h] by (simp add: BlobStorageKey_def Let_def)
qed

lemma ParseBlobStorageKey_key [simp]:
  "is_hash h \<Longrightarrow> ParseBlobStorageKey (BlobStorageKey h) = Inr h"
  by (simp add: ParseBlobStorageKey_def BlobStorageKey_split)

lemma BlobStorageKey_inject [simp]: "BlobStorageKey a = BlobStorageKey b \<longleftrightarrow> a = b"
  by (metis BlobStorageKey_split list.inject hash_String_inject)

end
