(* ===== verification/Envelope.thy ===== *)
theory Envelope
  imports Bolt Hashes "HOL-Library.Multiset"
begin

text \<open>
  Metadata envelopes (\<open>store/metadb/envelope.go\<close> and the message of \<open>envelope.proto\<close>): the
  payload codec with its size limits and integrity check, validation of an envelope before it
  is stored, canonical blob references and their differences. SHA-256 and zstd are parameters,
  the fields of a \<open>codec\<close>; \<open>ToLower\<close> takes Go's Unicode tables as the parameter \<open>U\<close>.
\<close>

section \<open>Messages and errors\<close>

datatype content_type =
  CT_UNSPECIFIED | CT_JSON | CT_XML | CT_TEXT | CT_OCTET_STREAM | CT_Other int

datatype content_encoding = ENC_IDENTITY | ENC_ZSTD | ENC_Other int

record envelope =
  EnvelopeVersion :: nat
  ContentType :: content_type
  ContentEncoding :: content_encoding
  Payload :: bytes
  PayloadDigest :: string
  PayloadSize :: nat
  FetchedAtUnixMs :: int
  ExpiresAtUnixMs :: int
  TtlSeconds :: int
  Etag :: string
  LastModifiedUnixMs :: int
  UpstreamHost :: string
  UpstreamStatus :: nat
  BlobRefs :: "string list"
  Attributes :: "(string \<times> bytes) list"

datatype mdb_error =
    ErrNotFound
  | ErrPayloadTooLarge
  | ErrDecompressionBomb
  | ErrCorrupted
  | ErrTooManyAttributes
  | ErrAttributesTooLarge
  | ErrInvalidDigestFormat
  | NilEnvelope
  | UnsupportedEncoding content_encoding
  | DecoderNotInitialized
  | DecompressFailed
  | MarshalFailed
  | UnmarshalFailed
  | CallbackFailed
  | BoltFailed bolt_error

definition CompressionThreshold :: nat where
  "CompressionThreshold = 2048"

definition MaxPayloadSize :: nat where
  "MaxPayloadSize = 10 * 1024 * 1024"

definition MaxDecompressedSize :: nat where
  "MaxDecompressedSize = 10 * 1024 * 1024"

definition MaxAttributeKeys :: nat where
  "MaxAttributeKeys = 10"

definition MaxAttributesSize :: nat where
  "MaxAttributesSize = 1024"

definition CurrentEnvelopeVersion :: nat where
  "CurrentEnvelopeVersion = 1"

section \<open>The payload codec\<close>

text \<open>
  \<open>c_compress\<close> is \<open>None\<close> where the pooled encoder is missing or its \<open>Write\<close> or \<open>Close\<close>
  fails; \<open>c_decompress\<close> is \<open>None\<close> where \<open>DecodeAll\<close> fails; \<open>c_decoder\<close> says that the codec has
  not been closed.
\<close>

record codec =
  c_sha256 :: "bytes \<Rightarrow> bytes"
  c_compress :: "bytes \<Rightarrow> bytes option"
  c_decompress :: "bytes \<Rightarrow> bytes option"
  c_decoder :: bool

definition codec_Close :: "codec \<Rightarrow> codec" where
  "codec_Close c = c\<lparr>c_decoder := False\<rparr>"

definition computeDigest :: "codec \<Rightarrow> bytes \<Rightarrow> string" where
  "computeDigest c data = ''sha256:'' @ hex_encode (c_sha256 c data)"

definition EncodePayload ::
  "codec \<Rightarrow> bytes \<Rightarrow> mdb_error + (bytes \<times> content_encoding \<times> string)" where
  "EncodePayload c data =
     (if length data > MaxPayloadSize then Inl ErrPayloadTooLarge
      else let digest = computeDigest c data
           in if length data < CompressionThreshold then Inr (data, ENC_IDENTITY, digest)
              else (case c_compress c data of
                      None \<Rightarrow> Inr (data, ENC_IDENTITY, digest)
                    | Some compressed \<Rightarrow>
                        if length compressed \<ge> length data
                        then Inr (data, ENC_IDENTITY, digest)
                        else Inr (compressed, ENC_ZSTD, digest)))"

definition DecodePayload ::
  "codec \<Rightarrow> bytes \<Rightarrow> content_encoding \<Rightarrow> string \<Rightarrow> nat \<Rightarrow> mdb_error + bytes" where
  "DecodePayload c payload encoding expectedDigest expectedSize =
     (if encoding = ENC_IDENTITY then
        (if expectedDigest \<noteq> [] \<and> computeDigest c payload \<noteq> expectedDigest
         then Inl ErrCorrupted else Inr payload)
      else if encoding \<noteq> ENC_ZSTD then Inl (UnsupportedEncoding encoding)
      else if expectedSize > MaxDecompressedSize then Inl ErrDecompressionBomb
      else if \<not> c_decoder c then Inl DecoderNotInitialized
      else (case c_decompress c payload of
              None \<Rightarrow> Inl DecompressFailed
            | Some decompressed \<Rightarrow>
                if length decompressed > MaxDecompressedSize then Inl ErrDecompressionBomb
                else if expectedDigest \<noteq> [] \<and> computeDigest c decompressed \<noteq> expectedDigest
                then Inl ErrCorrupted
                else Inr decompressed))"

text \<open>What the program relies on from zstd: what was compressed decompresses to itself.\<close>

definition zstd_ok :: "codec \<Rightarrow> bool" where
  "zstd_ok c \<longleftrightarrow> (\<forall>d z. c_compress c d = Some z \<longrightarrow> c_decompress c z = Some d)"

section \<open>Validation\<close>

definition isHexRune :: "char \<Rightarrow> bool" where
  "isHexRune c \<longleftrightarrow>
     (CHR ''0'' \<le> c \<and> c \<le> CHR ''9'') \<or> (CHR ''a'' \<le> c \<and> c \<le> CHR ''f'')
     \<or> (CHR ''A'' \<le> c \<and> c \<le> CHR ''F'')"

definition ValidateDigestFormat :: "(string \<Rightarrow> string) \<Rightarrow> string \<Rightarrow> mdb_error + unit" where
  "ValidateDigestFormat U digest =
     (case SplitN2 digest (CHR '':'') of
        [algo, hash] \<Rightarrow>
          (if ToLower U algo = ''sha256'' \<or> ToLower U algo = ''blake3'' then
             (if length hash \<noteq> 64 then Inl ErrInvalidDigestFormat
              else if \<not> list_all isHexRune hash then Inl ErrInvalidDigestFormat
              else Inr ())
           else Inl ErrInvalidDigestFormat)
      | _ \<Rightarrow> Inl ErrInvalidDigestFormat)"

fun validateRefs :: "(string \<Rightarrow> string) \<Rightarrow> string list \<Rightarrow> mdb_error + unit" where
  "validateRefs U [] = Inr ()"
| "validateRefs U (r # rs) = rbind (ValidateDigestFormat U r) (\<lambda>_. validateRefs U rs)"

definition attributesSize :: "(string \<times> bytes) list \<Rightarrow> nat" where
  "attributesSize as = sum_list (map (\<lambda>a. length (snd a)) as)"

definition ValidateEnvelope :: "(string \<Rightarrow> string) \<Rightarrow> envelope option \<Rightarrow> mdb_error + unit" where
  "ValidateEnvelope U env =
     (case env of
        None \<Rightarrow> Inl NilEnvelope
      | Some e \<Rightarrow>
          (if length (Attributes e) > MaxAttributeKeys then Inl ErrTooManyAttributes
           else if attributesSize (Attributes e) > MaxAttributesSize then Inl ErrAttributesTooLarge
           else validateRefs U (BlobRefs e)))"

section \<open>Blob references\<close>

fun canonLoop ::
  "(string \<Rightarrow> string) \<Rightarrow> string list \<Rightarrow> string list \<Rightarrow> string list" where
  "canonLoop U result [] = result"
| "canonLoop U result (ref # refs) =
     (let lower = ToLower U ref
      in canonLoop U (if lower \<in> set result then result else result @ [lower]) refs)"

definition CanonicalizeRefs :: "(string \<Rightarrow> string) \<Rightarrow> string list \<Rightarrow> string list" where
  "CanonicalizeRefs U refs = (if refs = [] then [] else sort (canonLoop U [] refs))"

definition DiffRefs :: "string list \<Rightarrow> string list \<Rightarrow> string list \<times> string list" where
  "DiffRefs oldRefs newRefs =
     (filter (\<lambda>r. r \<notin> set oldRefs) newRefs, filter (\<lambda>r. r \<notin> set newRefs) oldRefs)"

definition RefsEqual :: "string list \<Rightarrow> string list \<Rightarrow> bool" where
  "RefsEqual a b = (if length a \<noteq> length b then False else sort a = sort b)"

section \<open>Lemmas\<close>

lemma computeDigest_not_Nil [simp]: "computeDigest c d \<noteq> []"
  by (simp add: computeDigest_def)

lemma EncodePayload_cases:
  assumes "EncodePayload c data = Inr (p, e, dg)"
  obtains "p = data" "e = ENC_IDENTITY" "dg = computeDigest c data" "length data \<le> MaxPayloadSize"
  | "c_compress c data = Some p" "e = ENC_ZSTD" "dg = computeDigest c data"
    "length p < length data" "CompressionThreshold \<le> length data" "length data \<le> MaxPayloadSize"
  using assms by (auto simp: EncodePayload_def Let_def split: if_splits option.splits)

lemma DecodePayload_encoded:
  assumes ok: "zstd_ok c" "c_decoder c"
    and enc: "EncodePayload c data = Inr (p, e, dg)"
  shows "DecodePayload c p e dg (length data) = Inr data"
  using enc
proof (rule EncodePayload_cases)
  assume "c_compress c data = Some p" "e = ENC_ZSTD" "dg = computeDigest c data"
    "length data \<le> MaxPayloadSize"
  moreover from this ok have "c_decompress c p = Some data" by (simp add: zstd_ok_def)
  ultimately show ?thesis
    using ok by (simp add: DecodePayload_def MaxPayloadSize_def MaxDecompressedSize_def)
qed (simp add: DecodePayload_def)

lemma DecodePayload_digest:
  assumes "DecodePayload c p e dg n = Inr d" and "dg \<noteq> []"
  shows "computeDigest c d = dg"
  using assms by (auto simp: DecodePayload_def split: if_splits option.splits)

lemma DecodePayload_bounded:
  assumes "DecodePayload c p e dg n = Inr d"
  shows "length d \<le> max (length p) MaxDecompressedSize"
  using assms by (auto simp: DecodePayload_def split: if_splits option.splits)

lemma hexdig_isHexRune: "n < 16 \<Longrightarrow> isHexRune (hexdig n)"
  by (simp add: isHexRune_def less_eq_char_def of_char_hexdig)

lemma hex_encode_isHexRune: "list_all isHexRune (hex_encode bs)"
proof (induction bs)
  case (Cons c cs)
  have "of_char c < (256::nat)" by simp
  then have "of_char c div 16 < (16::nat)" "of_char c mod 16 < (16::nat)" by linarith+
  with Cons show ?case by (simp add: hexdig_isHexRune)
qed simp

text \<open>The reference of a content hash is a valid digest.\<close>

lemma ValidateDigestFormat_ref [simp]:
  assumes "is_hash h"
  shows "ValidateDigestFormat U (BlobRef_String (NewBlobRef h)) = Inr ()"
proof -
  have "CHR '':'' \<notin> set AlgBLAKE3" by (simp add: AlgBLAKE3_def)
  then have "SplitN2 (AlgBLAKE3 @ CHR '':'' # hash_String h) (CHR '':'') = [AlgBLAKE3, hash_String h]"
    by (simp add: SplitN2_def)
  moreover have "list_all isHexRune (hash_String h)" by (simp add: hash_String_def hex_encode_isHexRune)
  ultimately show ?thesis
    using assms unfolding ValidateDigestFormat_def BlobRef_String_def NewBlobRef_def
    by (simp del: ToLower_AlgBLAKE3 add: ToLower_AlgBLAKE3 [unfolded AlgBLAKE3_def] AlgBLAKE3_def)
qed

lemma validateRefs_Inr:
  "validateRefs U rs = Inr () \<longleftrightarrow> (\<forall>r \<in> set rs. ValidateDigestFormat U r = Inr ())"
  by (induction rs) (auto simp: result_simps)

lemma set_canonLoop: "set (canonLoop U res rs) = set res \<union> set (map (ToLower U) rs)"
  by (induction U res rs rule: canonLoop.induct) (auto simp: Let_def)

lemma distinct_canonLoop: "distinct res \<Longrightarrow> distinct (canonLoop U res rs)"
  by (induction U res rs rule: canonLoop.induct) (auto simp: Let_def)

lemma set_CanonicalizeRefs [simp]: "set (CanonicalizeRefs U rs) = set (map (ToLower U) rs)"
  by (simp add: CanonicalizeRefs_def set_canonLoop)

lemma distinct_CanonicalizeRefs [simp]: "distinct (CanonicalizeRefs U rs)"
  by (simp add: CanonicalizeRefs_def distinct_canonLoop)

lemma sorted_CanonicalizeRefs [simp]: "sorted (CanonicalizeRefs U rs)"
  by (simp add: CanonicalizeRefs_def)

lemma CanonicalizeRefs_unique:
  "CanonicalizeRefs U rs = sorted_list_of_set (set (map (ToLower U) rs))"
  by (rule sorted_distinct_set_unique) simp_all

lemma count_added:
  "distinct newRefs \<Longrightarrow>
   count_list (fst (DiffRefs oldRefs newRefs)) h = (if h \<in> set newRefs \<and> h \<notin> set oldRefs then 1 else 0)"
  by (induction newRefs) (auto simp: DiffRefs_def)

lemma count_removed:
  "distinct oldRefs \<Longrightarrow>
   count_list (snd (DiffRefs oldRefs newRefs)) h = (if h \<in> set oldRefs \<and> h \<notin> set newRefs then 1 else 0)"
  by (induction oldRefs) (auto simp: DiffRefs_def)

lemma RefsEqual_iff_mset: "RefsEqual a b \<longleftrightarrow> mset a = mset b"
proof
  assume "RefsEqual a b"
  then have "sort a = sort b" by (simp add: RefsEqual_def split: if_splits)
  then show "mset a = mset b" by (metis mset_sort)
next
  assume m: "mset a = mset b"
  then have "length a = length b" by (metis size_mset)
  moreover have "sort a = sort b" by (metis m mset_sort properties_for_sort sorted_sort)
  ultimately show "RefsEqual a b" by (simp add: RefsEqual_def)
qed

end
