(* ===== verification/Keys.thy ===== *)
theory Keys
  imports Encoding
begin

text \<open>
  Compound keys and timestamps of the metadata database (\<open>store/metadb/buckets.go\<close>). A
  \<open>time.Time\<close> is the number of nanoseconds since the Unix epoch; the zero time is 1 January
  of year 1. \<open>UnixNano\<close> is kept at its 64 bits, so an instant outside the years 1678 to 2262
  wraps as it does in Go.
\<close>

section \<open>Instants\<close>

type_synonym time = int

definition zero_time :: time where
  "zero_time = - 62135596800000000000"

definition IsZero :: "time \<Rightarrow> bool" where
  "IsZero t \<longleftrightarrow> t = zero_time"

definition UnixNano :: "time \<Rightarrow> 64 word" where
  "UnixNano t = word_of_int t"

definition UnixMilli :: "time \<Rightarrow> int" where
  "UnixMilli t = t div 1000000"

definition time_UnixMilli :: "int \<Rightarrow> time" where
  "time_UnixMilli ms = ms * 1000000"

definition nano_range :: "time \<Rightarrow> bool" where
  "nano_range t \<longleftrightarrow> - (2 ^ 63) \<le> t \<and> t < 2 ^ 63"

section \<open>Timestamps\<close>

definition minInt64 :: "64 word" where
  "minInt64 = 2 ^ 63"

definition encodeTimestamp :: "time \<Rightarrow> bytes" where
  "encodeTimestamp t = be_bytes 8 (unat (UnixNano t - minInt64))"

definition decodeTimestamp :: "bytes \<Rightarrow> time" where
  "decodeTimestamp b =
     (if length b < 8 then zero_time
      else sint (word_of_nat (be_val (take 8 b)) + minInt64))"

section \<open>Compound keys\<close>

definition sep :: char where
  "sep = CHR 0x00"

definition makeProtocolKey :: "string \<Rightarrow> string \<Rightarrow> bytes" where
  "makeProtocolKey protocol key = protocol @ sep # key"

definition parseProtocolKey :: "bytes \<Rightarrow> string \<times> string" where
  "parseProtocolKey data = (case Cut data sep of Some (p, k) \<Rightarrow> (p, k) | None \<Rightarrow> (data, []))"

definition makeMetaExpiryKey :: "time \<Rightarrow> string \<Rightarrow> string \<Rightarrow> bytes" where
  "makeMetaExpiryKey expiresAt protocol key = encodeTimestamp expiresAt @ protocol @ sep # key"

definition parseMetaExpiryKey :: "bytes \<Rightarrow> time \<times> string \<times> string" where
  "parseMetaExpiryKey data =
     (if length data < 9 then (zero_time, [], [])
      else (decodeTimestamp (take 8 data),
            case Cut (drop 8 data) sep of
              Some (p, k) \<Rightarrow> (p, k)
            | None \<Rightarrow> (drop 8 data, [])))"

definition makeEnvelopeKey :: "string \<Rightarrow> string \<Rightarrow> string \<Rightarrow> bytes" where
  "makeEnvelopeKey protocol kind key = protocol @ sep # kind @ sep # key"

definition parseEnvelopeKey :: "bytes \<Rightarrow> string \<times> string \<times> string" where
  "parseEnvelopeKey data =
     (case Cut data sep of
        None \<Rightarrow> (data, [], [])
      | Some (protocol, rest) \<Rightarrow>
          (case Cut rest sep of
             None \<Rightarrow> (data, [], [])
           | Some (kind, key) \<Rightarrow> (protocol, kind, key)))"

definition makeEnvelopeExpiryKey :: "time \<Rightarrow> string \<Rightarrow> string \<Rightarrow> string \<Rightarrow> bytes" where
  "makeEnvelopeExpiryKey expiresAt protocol kind key =
     encodeTimestamp expiresAt @ protocol @ sep # kind @ sep # key"

definition parseEnvelopeExpiryKey :: "bytes \<Rightarrow> time \<times> string \<times> string \<times> string" where
  "parseEnvelopeExpiryKey data =
     (if length data < 9 then (zero_time, [], [], [])
      else (decodeTimestamp (take 8 data), parseEnvelopeKey (drop 8 data)))"

section \<open>Lemmas\<close>

named_theorems key_simps

lemma length_encodeTimestamp [simp]: "length (encodeTimestamp t) = 8"
  by (simp add: encodeTimestamp_def)

lemma decode_encodeTimestamp:
  "decodeTimestamp (encodeTimestamp t) = sint (word_of_int t :: 64 word)"
  by (simp add: decodeTimestamp_def encodeTimestamp_def be_val_be_bytes UnixNano_def
      unsigned_less [THEN order_less_le_trans])

lemma decode_encodeTimestamp_range [simp]:
  "nano_range t \<Longrightarrow> decodeTimestamp (encodeTimestamp t) = t"
  by (simp add: decode_encodeTimestamp nano_range_def sint_sbintrunc' signed_take_bit_int_eq_self)

lemma encode_decodeTimestamp [simp]:
  assumes "length b = 8"
  shows "encodeTimestamp (decodeTimestamp b) = b"
proof -
  have "be_val b < 2 ^ 64" using be_val_less [of b] assms by simp
  then have "unat (word_of_nat (be_val b) :: 64 word) = be_val b"
    by (simp add: unat_of_nat)
  then show ?thesis
    using assms be_bytes_be_val [of b]
    by (simp add: encodeTimestamp_def decodeTimestamp_def UnixNano_def)
qed

lemma unat_shifted:
  assumes "nano_range t"
  shows "int (unat (UnixNano t - minInt64)) = t + 2 ^ 63"
proof -
  have "uint (word_of_int t - 2 ^ 63 :: 64 word) = (t - 2 ^ 63) mod 2 ^ 64"
    by (simp add: uint_word_ariths uint_word_of_int mod_diff_left_eq)
  also have "\<dots> = (t + 2 ^ 63) mod 2 ^ 64"
  proof -
    have "t - 2 ^ 63 = (t + 2 ^ 63) + (- 1) * 2 ^ 64" by simp
    then show ?thesis by (metis mod_mult_self1)
  qed
  also have "\<dots> = t + 2 ^ 63" using assms by (simp add: nano_range_def)
  finally show ?thesis by (simp add: UnixNano_def minInt64_def)
qed

lemma encodeTimestamp_less_iff:
  assumes "nano_range s" and "nano_range t"
  shows "encodeTimestamp s < encodeTimestamp t \<longleftrightarrow> s < t"
proof -
  let ?u = "\<lambda>t. unat (UnixNano t - minInt64)"
  have "?u x < 256 ^ 8" for x
    using unsigned_less [of "UnixNano x - minInt64"] by simp
  then have "encodeTimestamp s < encodeTimestamp t \<longleftrightarrow> ?u s < ?u t"
    by (simp add: encodeTimestamp_def be_bytes_less_iff)
  also have "\<dots> \<longleftrightarrow> s < t"
    using unat_shifted [OF assms(1)] unat_shifted [OF assms(2)] by linarith
  finally show ?thesis .
qed

lemma encodeTimestamp_inject:
  "nano_range s \<Longrightarrow> nano_range t \<Longrightarrow> encodeTimestamp s = encodeTimestamp t \<longleftrightarrow> s = t"
  by (metis decode_encodeTimestamp_range)

lemma parse_makeProtocolKey [simp, key_simps]:
  "sep \<notin> set protocol \<Longrightarrow> parseProtocolKey (makeProtocolKey protocol key) = (protocol, key)"
  by (simp add: parseProtocolKey_def makeProtocolKey_def)

lemma makeProtocolKey_inject:
  "sep \<notin> set p \<Longrightarrow> sep \<notin> set p' \<Longrightarrow>
   makeProtocolKey p k = makeProtocolKey p' k' \<longleftrightarrow> p = p' \<and> k = k'"
  by (metis parse_makeProtocolKey prod.inject)

lemma makeMetaExpiryKey_eq [key_simps]:
  "makeMetaExpiryKey t p k = encodeTimestamp t @ makeProtocolKey p k"
  by (simp add: makeMetaExpiryKey_def makeProtocolKey_def)

lemma parse_makeMetaExpiryKey [simp]:
  "sep \<notin> set p \<Longrightarrow>
   parseMetaExpiryKey (makeMetaExpiryKey t p k) = (decodeTimestamp (encodeTimestamp t), p, k)"
  by (simp add: parseMetaExpiryKey_def makeMetaExpiryKey_def)

lemma parse_makeEnvelopeKey [simp, key_simps]:
  "sep \<notin> set p \<Longrightarrow> sep \<notin> set kd \<Longrightarrow> parseEnvelopeKey (makeEnvelopeKey p kd k) = (p, kd, k)"
  by (simp add: parseEnvelopeKey_def makeEnvelopeKey_def)

lemma make_parseProtocolKey:
  assumes "parseProtocolKey (makeProtocolKey p k) = (p', k')"
  shows "makeProtocolKey p k = makeProtocolKey p' k' \<and> sep \<notin> set p'"
proof -
  obtain a b where "Cut (makeProtocolKey p k) sep = Some (a, b)"
    by (cases "Cut (makeProtocolKey p k) sep") (auto simp: Cut_None makeProtocolKey_def)
  with assms show ?thesis
    by (auto simp: parseProtocolKey_def Cut_Some makeProtocolKey_def)
qed

lemma make_parseEnvelopeKey:
  assumes "parseEnvelopeKey (makeEnvelopeKey p kd k) = (p', kd', k')"
  shows "makeEnvelopeKey p kd k = makeEnvelopeKey p' kd' k' \<and> sep \<notin> set p' \<and> sep \<notin> set kd'"
proof -
  let ?ck = "makeEnvelopeKey p kd k"
  obtain a r where a: "Cut ?ck sep = Some (a, r)"
    by (cases "Cut ?ck sep") (auto simp: Cut_None makeEnvelopeKey_def)
  then have eq: "?ck = a @ sep # r" "sep \<notin> set a" by (simp_all add: Cut_Some)
  have "sep \<in> set r"
  proof (rule ccontr)
    assume "sep \<notin> set r"
    with eq have "length (filter ((=) sep) ?ck) = 1" by (auto simp: filter_empty_conv)
    then show False by (simp add: makeEnvelopeKey_def)
  qed
  then obtain b c where "Cut r sep = Some (b, c)" by (cases "Cut r sep") (auto simp: Cut_None)
  with a eq assms show ?thesis
    by (auto simp: parseEnvelopeKey_def Cut_Some makeEnvelopeKey_def)
qed

lemma makeEnvelopeKey_inject:
  assumes "sep \<notin> set p" "sep \<notin> set kd" "sep \<notin> set p'" "sep \<notin> set kd'"
  shows "makeEnvelopeKey p kd k = makeEnvelopeKey p' kd' k' \<longleftrightarrow> p = p' \<and> kd = kd' \<and> k = k'"
  using assms by (metis parse_makeEnvelopeKey prod.inject)

lemma makeEnvelopeExpiryKey_eq [key_simps]:
  "makeEnvelopeExpiryKey t p kd k = encodeTimestamp t @ makeEnvelopeKey p kd k"
  by (simp add: makeEnvelopeExpiryKey_def makeEnvelopeKey_def)

lemma parse_makeEnvelopeExpiryKey [simp]:
  "sep \<notin> set p \<Longrightarrow> sep \<notin> set kd \<Longrightarrow>
   parseEnvelopeExpiryKey (makeEnvelopeExpiryKey t p kd k) =
     (decodeTimestamp (encodeTimestamp t), p, kd, k)"
  by (simp add: parseEnvelopeExpiryKey_def makeEnvelopeExpiryKey_eq)
     (simp add: makeEnvelopeKey_def)

lemma makeProtocolKey_not_Nil [simp]: "makeProtocolKey p k \<noteq> []"
  by (simp add: makeProtocolKey_def)

lemma makeEnvelopeKey_not_Nil [simp]: "makeEnvelopeKey p kd k \<noteq> []"
  by (simp add: makeEnvelopeKey_def)

end
