(* ===== verification/MetaDB.thy ===== *)
theory MetaDB
  imports Envelope Keys
begin

text \<open>
  The bbolt metadata database (\<open>store/metadb/bolt.go\<close>, \<open>types.go\<close>): its state, the protocol
  metadata with its expiry index, the blob table with reference and access counters, and the
  legacy metadata that carries blob references. \<open>Open\<close> creates every bucket and nothing
  removes one, so the branches for a missing bucket are not modelled. Reference and access
  counters are Go \<open>int\<close>s, far from overflow, and are integers here.
\<close>

section \<open>State\<close>

record blob_entry =
  be_Hash :: string
  be_Size :: int
  be_CachedAt :: time
  be_LastAccess :: time
  be_RefCount :: int
  be_AccessCount :: int

record expiry_entry =
  ee_Protocol :: string
  ee_Key :: string
  ee_ExpiresAt :: time
  ee_Size :: int

record db =
  d_meta :: "bytes bucket"
  d_blobs :: "blob_entry cell bucket"
  d_meta_by_expiry :: "bytes bucket"
  d_meta_expiry_by_key :: "bytes bucket"
  d_meta_refs :: "string list cell bucket"
  d_envs :: "envelope cell bucket"
  d_env_by_expiry :: "bytes bucket"
  d_env_expiry_by_key :: "bytes bucket"
  d_env_refs :: "string list cell bucket"

definition createBuckets :: db where
  "createBuckets =
     \<lparr>d_meta = empty_bucket, d_blobs = empty_bucket, d_meta_by_expiry = empty_bucket,
      d_meta_expiry_by_key = empty_bucket, d_meta_refs = empty_bucket, d_envs = empty_bucket,
      d_env_by_expiry = empty_bucket, d_env_expiry_by_key = empty_bucket,
      d_env_refs = empty_bucket\<rparr>"

text \<open>An update transaction: the callback's writes are kept only when it returns no error.\<close>

definition batch :: "db \<Rightarrow> mdb_error + ('r \<times> db) \<Rightarrow> (mdb_error + 'r) \<times> db" where
  "batch d m = (case m of Inl e \<Rightarrow> (Inl e, d) | Inr (r, d') \<Rightarrow> (Inr r, d'))"

definition bolt :: "bolt_error + 'a \<Rightarrow> mdb_error + 'a" where
  "bolt m = (case m of Inl e \<Rightarrow> Inl (BoltFailed e) | Inr x \<Rightarrow> Inr x)"

section \<open>Protocol metadata and its expiry index\<close>

definition GetMeta :: "db \<Rightarrow> string \<Rightarrow> string \<Rightarrow> mdb_error + bytes" where
  "GetMeta d protocol key =
     (case bget (d_meta d) (makeProtocolKey protocol key) of
        None \<Rightarrow> Inl ErrNotFound | Some val \<Rightarrow> Inr val)"

text \<open>The fallback scan for entries without a reverse index deletes the first match.\<close>

fun delFirstValue :: "'v \<Rightarrow> (bytes \<times> 'v) list \<Rightarrow> (bytes \<times> 'v) list" where
  "delFirstValue v [] = []"
| "delFirstValue v (e # xs) = (if snd e = v then xs else e # delFirstValue v xs)"

definition updateMetaExpiryIndex ::
  "db \<Rightarrow> string \<Rightarrow> string \<Rightarrow> time option \<Rightarrow> mdb_error + db" where
  "updateMetaExpiryIndex d protocol key expiresAt =
     (let compoundKey = makeProtocolKey protocol key;
          d1 = (case bget (d_meta_expiry_by_key d) compoundKey of
                  Some tsBytes \<Rightarrow>
                    d\<lparr>d_meta_by_expiry :=
                        bdelete (makeMetaExpiryKey (decodeTimestamp tsBytes) protocol key) (d_meta_by_expiry d),
                      d_meta_expiry_by_key := bdelete compoundKey (d_meta_expiry_by_key d)\<rparr>
                | None \<Rightarrow>
                    d\<lparr>d_meta_by_expiry := (d_meta_by_expiry d)
                        \<lparr>entries := delFirstValue compoundKey (entries (d_meta_by_expiry d))\<rparr>\<rparr>)
      in case expiresAt of
           None \<Rightarrow> Inr d1
         | Some t \<Rightarrow>
             rbind (bolt (bput (makeMetaExpiryKey t protocol key) compoundKey (d_meta_by_expiry d1)))
               (\<lambda>fwd. rbind (bolt (bput compoundKey (encodeTimestamp t) (d_meta_expiry_by_key d1)))
                 (\<lambda>rv. Inr (d1\<lparr>d_meta_by_expiry := fwd, d_meta_expiry_by_key := rv\<rparr>))))"

definition removeMetaExpiryIndex :: "db \<Rightarrow> string \<Rightarrow> string \<Rightarrow> mdb_error + db" where
  "removeMetaExpiryIndex d protocol key = updateMetaExpiryIndex d protocol key None"

definition expiryOf :: "time \<Rightarrow> int \<Rightarrow> time option" where
  "expiryOf now ttl = (if ttl > 0 then Some (now + ttl) else None)"

definition PutMeta ::
  "time \<Rightarrow> db \<Rightarrow> string \<Rightarrow> string \<Rightarrow> bytes \<Rightarrow> int \<Rightarrow> (mdb_error + unit) \<times> db" where
  "PutMeta now d protocol key data ttl =
     batch d
       (rbind (bolt (bput (makeProtocolKey protocol key) data (d_meta d)))
         (\<lambda>m. rbind (updateMetaExpiryIndex (d\<lparr>d_meta := m\<rparr>) protocol key (expiryOf now ttl))
           (\<lambda>d'. Inr ((), d'))))"

definition DeleteMeta :: "db \<Rightarrow> string \<Rightarrow> string \<Rightarrow> (mdb_error + unit) \<times> db" where
  "DeleteMeta d protocol key =
     batch d
       (rbind (removeMetaExpiryIndex d protocol key)
         (\<lambda>d'. Inr ((), d'\<lparr>d_meta := bdelete (makeProtocolKey protocol key) (d_meta d')\<rparr>)))"

definition ListMeta :: "db \<Rightarrow> string \<Rightarrow> string list" where
  "ListMeta d protocol =
     map (\<lambda>e. snd (parseProtocolKey (fst e))) (seek_prefix (protocol @ [sep]) (d_meta d))"

section \<open>Blob table\<close>

definition GetBlob :: "db \<Rightarrow> string \<Rightarrow> mdb_error + blob_entry" where
  "GetBlob d hash =
     (case bget (d_blobs d) hash of
        None \<Rightarrow> Inl ErrNotFound
      | Some Corrupt \<Rightarrow> Inl UnmarshalFailed
      | Some (Good e) \<Rightarrow> Inr e)"

definition PutBlob :: "db \<Rightarrow> blob_entry \<Rightarrow> (mdb_error + unit) \<times> db" where
  "PutBlob d entry =
     batch d
       (rbind (bolt (bput (be_Hash entry) (Good entry) (d_blobs d)))
         (\<lambda>b. Inr ((), d\<lparr>d_blobs := b\<rparr>)))"

definition DeleteBlob :: "db \<Rightarrow> string \<Rightarrow> (mdb_error + unit) \<times> db" where
  "DeleteBlob d hash = batch d (Inr ((), d\<lparr>d_blobs := bdelete hash (d_blobs d)\<rparr>))"

text \<open>Read, change and write back one blob entry; a missing one is \<open>ErrNotFound\<close>.\<close>

definition modifyBlob ::
  "(blob_entry \<Rightarrow> blob_entry) \<Rightarrow> blob_entry cell bucket \<Rightarrow> string
     \<Rightarrow> mdb_error + (blob_entry \<times> blob_entry cell bucket)" where
  "modifyBlob f b hash =
     (case bget b hash of
        None \<Rightarrow> Inl ErrNotFound
      | Some Corrupt \<Rightarrow> Inl UnmarshalFailed
      | Some (Good e) \<Rightarrow>
          rbind (bolt (bput hash (Good (f e)) b)) (\<lambda>b'. Inr (f e, b')))"

definition incRef :: "blob_entry \<Rightarrow> blob_entry" where
  "incRef e = e\<lparr>be_RefCount := be_RefCount e + 1\<rparr>"

definition decRef :: "blob_entry \<Rightarrow> blob_entry" where
  "decRef e = (if be_RefCount e > 0 then e\<lparr>be_RefCount := be_RefCount e - 1\<rparr> else e)"

definition IncrementBlobRef :: "db \<Rightarrow> string \<Rightarrow> (mdb_error + unit) \<times> db" where
  "IncrementBlobRef d hash =
     batch d (rbind (modifyBlob incRef (d_blobs d) hash) (\<lambda>(_, b). Inr ((), d\<lparr>d_blobs := b\<rparr>)))"

definition DecrementBlobRef :: "db \<Rightarrow> string \<Rightarrow> (mdb_error + unit) \<times> db" where
  "DecrementBlobRef d hash =
     batch d (rbind (modifyBlob decRef (d_blobs d) hash) (\<lambda>(_, b). Inr ((), d\<lparr>d_blobs := b\<rparr>)))"

definition touch :: "time \<Rightarrow> blob_entry \<Rightarrow> blob_entry" where
  "touch now e =
     (let e' = e\<lparr>be_LastAccess := now\<rparr>
      in if be_AccessCount e' < 3 then e'\<lparr>be_AccessCount := be_AccessCount e' + 1\<rparr> else e')"

definition TouchBlob :: "time \<Rightarrow> db \<Rightarrow> string \<Rightarrow> (mdb_error + int) \<times> db" where
  "TouchBlob now d hash =
     batch d
       (rbind (modifyBlob (touch now) (d_blobs d) hash)
         (\<lambda>(e, b). Inr (be_AccessCount e, d\<lparr>d_blobs := b\<rparr>)))"

fun goodEntries :: "(bytes \<times> 'v cell) list \<Rightarrow> (bytes \<times> 'v) list" where
  "goodEntries [] = []"
| "goodEntries ((k, Good e) # xs) = (k, e) # goodEntries xs"
| "goodEntries ((k, Corrupt) # xs) = goodEntries xs"

definition TotalBlobSize :: "db \<Rightarrow> int" where
  "TotalBlobSize d = sum_list (map (\<lambda>(_, e). be_Size e) (goodEntries (entries (d_blobs d))))"

definition limitTo :: "int \<Rightarrow> 'a list \<Rightarrow> 'a list" where
  "limitTo limit xs = (if limit > 0 then take (nat limit) xs else xs)"

definition GetExpiredMeta :: "db \<Rightarrow> time \<Rightarrow> int \<Rightarrow> expiry_entry list" where
  "GetExpiredMeta d before limit =
     map (\<lambda>(k, v).
            (case parseMetaExpiryKey k of
               (expiresAt, protocol, key) \<Rightarrow>
                 \<lparr>ee_Protocol = protocol, ee_Key = key, ee_ExpiresAt = expiresAt,
                  ee_Size = (case bget (d_meta d) v of Some data \<Rightarrow> int (length data) | None \<Rightarrow> 0)\<rparr>))
       (limitTo limit
         (takeWhile (\<lambda>(k, _). take 8 k < encodeTimestamp before) (entries (d_meta_by_expiry d))))"

definition lastSeen :: "blob_entry \<Rightarrow> time" where
  "lastSeen e = (if be_LastAccess e > be_CachedAt e then be_LastAccess e else be_CachedAt e)"

definition unreferenced :: "time \<Rightarrow> blob_entry \<Rightarrow> bool" where
  "unreferenced before e \<longleftrightarrow>
     be_RefCount e = 0 \<and> (if \<not> IsZero before then \<not> lastSeen e > before else True)"

definition GetUnreferencedBlobs :: "db \<Rightarrow> time \<Rightarrow> int \<Rightarrow> string list" where
  "GetUnreferencedBlobs d before limit =
     limitTo limit
       (map fst (filter (\<lambda>(k, e). unreferenced before e) (goodEntries (entries (d_blobs d)))))"

section \<open>Metadata with blob references\<close>

definition getRefs :: "string list cell bucket \<Rightarrow> bytes \<Rightarrow> string list" where
  "getRefs b compoundKey =
     (case bget b compoundKey of
        None \<Rightarrow> [] | Some Corrupt \<Rightarrow> [] | Some (Good refs) \<Rightarrow> refs)"

definition incrementBlobRefInTx ::
  "blob_entry cell bucket \<Rightarrow> string \<Rightarrow> mdb_error + blob_entry cell bucket" where
  "incrementBlobRefInTx b hash =
     (case bget b hash of
        None \<Rightarrow> Inr b
      | Some Corrupt \<Rightarrow> Inl UnmarshalFailed
      | Some (Good e) \<Rightarrow> bolt (bput hash (Good (incRef e)) b))"

definition decrementBlobRefInTx ::
  "blob_entry cell bucket \<Rightarrow> string \<Rightarrow> mdb_error + blob_entry cell bucket" where
  "decrementBlobRefInTx b hash =
     (case bget b hash of
        None \<Rightarrow> Inr b
      | Some Corrupt \<Rightarrow> Inl UnmarshalFailed
      | Some (Good e) \<Rightarrow> bolt (bput hash (Good (decRef e)) b))"

fun incrementAll ::
  "blob_entry cell bucket \<Rightarrow> string list \<Rightarrow> mdb_error + blob_entry cell bucket" where
  "incrementAll b [] = Inr b"
| "incrementAll b (h # hs) = rbind (incrementBlobRefInTx b h) (\<lambda>b'. incrementAll b' hs)"

fun decrementAll ::
  "blob_entry cell bucket \<Rightarrow> string list \<Rightarrow> mdb_error + blob_entry cell bucket" where
  "decrementAll b [] = Inr b"
| "decrementAll b (h # hs) = rbind (decrementBlobRefInTx b h) (\<lambda>b'. decrementAll b' hs)"

text \<open>The deletions that log a failed decrement and go on.\<close>

fun decrementAllLogged ::
  "blob_entry cell bucket \<Rightarrow> string list \<Rightarrow> blob_entry cell bucket" where
  "decrementAllLogged b [] = b"
| "decrementAllLogged b (h # hs) =
     decrementAllLogged (case decrementBlobRefInTx b h of Inl _ \<Rightarrow> b | Inr b' \<Rightarrow> b') hs"

definition diffRefs :: "string list \<Rightarrow> string list \<Rightarrow> string list \<times> string list" where
  "diffRefs oldRefs newRefs =
     (filter (\<lambda>r. r \<notin> set oldRefs) newRefs, filter (\<lambda>r. r \<notin> set newRefs) oldRefs)"

definition PutMetaWithRefs ::
  "time \<Rightarrow> db \<Rightarrow> string \<Rightarrow> string \<Rightarrow> bytes \<Rightarrow> int \<Rightarrow> string list \<Rightarrow> (mdb_error + unit) \<times> db" where
  "PutMetaWithRefs now d protocol key data ttl refs =
     batch d
       (let compoundKey = makeProtocolKey protocol key;
            (added, removed) = diffRefs (getRefs (d_meta_refs d) compoundKey) refs
        in rbind (incrementAll (d_blobs d) added)
          (\<lambda>b1. rbind (decrementAll b1 removed)
          (\<lambda>b2. rbind (bolt (bput compoundKey (Good refs) (d_meta_refs d)))
          (\<lambda>rf. rbind (bolt (bput compoundKey data (d_meta d)))
          (\<lambda>m. rbind (updateMetaExpiryIndex (d\<lparr>d_blobs := b2, d_meta_refs := rf, d_meta := m\<rparr>)
                         protocol key (expiryOf now ttl))
          (\<lambda>d'. Inr ((), d')))))))"

definition deleteMetaWithRefsInTx :: "db \<Rightarrow> string \<Rightarrow> string \<Rightarrow> mdb_error + db" where
  "deleteMetaWithRefsInTx d protocol key =
     (let compoundKey = makeProtocolKey protocol key;
          refs = getRefs (d_meta_refs d) compoundKey
      in rbind (removeMetaExpiryIndex
                  (d\<lparr>d_blobs := decrementAllLogged (d_blobs d) refs,
                     d_meta_refs := bdelete compoundKey (d_meta_refs d)\<rparr>) protocol key)
         (\<lambda>d'. Inr (d'\<lparr>d_meta := bdelete compoundKey (d_meta d')\<rparr>)))"

definition DeleteMetaWithRefs :: "db \<Rightarrow> string \<Rightarrow> string \<Rightarrow> (mdb_error + unit) \<times> db" where
  "DeleteMetaWithRefs d protocol key =
     batch d (rbind (deleteMetaWithRefsInTx d protocol key) (\<lambda>d'. Inr ((), d')))"

definition metaExpiryMatchesInTx :: "db \<Rightarrow> expiry_entry \<Rightarrow> bool" where
  "metaExpiryMatchesInTx d entry =
     (let compoundKey = makeProtocolKey (ee_Protocol entry) (ee_Key entry);
          expectedExpiry = encodeTimestamp (ee_ExpiresAt entry)
      in case bget (d_meta_expiry_by_key d) compoundKey of
           Some tsBytes \<Rightarrow> tsBytes = expectedExpiry
         | None \<Rightarrow>
             bget (d_meta_by_expiry d)
               (makeMetaExpiryKey (ee_ExpiresAt entry) (ee_Protocol entry) (ee_Key entry))
             = Some compoundKey)"

definition DeleteExpiredMetaWithRefs :: "db \<Rightarrow> expiry_entry \<Rightarrow> (mdb_error + bool) \<times> db" where
  "DeleteExpiredMetaWithRefs d entry =
     batch d
       (if \<not> metaExpiryMatchesInTx d entry then Inr (False, d)
        else rbind (deleteMetaWithRefsInTx d (ee_Protocol entry) (ee_Key entry))
               (\<lambda>d'. Inr (True, d')))"

definition GetMetaBlobRefs :: "db \<Rightarrow> string \<Rightarrow> string \<Rightarrow> string list" where
  "GetMetaBlobRefs d protocol key = getRefs (d_meta_refs d) (makeProtocolKey protocol key)"

text \<open>
  \<open>UpdateJSON\<close> on a value of type \<open>'v\<close>: \<open>dec\<close> and \<open>enc\<close> are the JSON decoding into and encoding
  of that type, \<open>v0\<close> the value the caller passes in.
\<close>

definition UpdateJSON ::
  "(bytes \<Rightarrow> 'v option) \<Rightarrow> ('v \<Rightarrow> bytes option) \<Rightarrow> time \<Rightarrow> db \<Rightarrow> string \<Rightarrow> string \<Rightarrow> int
     \<Rightarrow> ('v \<Rightarrow> mdb_error + 'v) \<Rightarrow> 'v \<Rightarrow> (mdb_error + unit) \<times> db" where
  "UpdateJSON dec enc now d protocol key ttl fn v0 =
     batch d
       (let compoundKey = makeProtocolKey protocol key
        in rbind (case bget (d_meta d) compoundKey of
                    None \<Rightarrow> Inr v0
                  | Some val \<Rightarrow> (case dec val of None \<Rightarrow> Inl UnmarshalFailed | Some v \<Rightarrow> Inr v))
          (\<lambda>v. rbind (fn v)
          (\<lambda>v'. rbind (case enc v' of None \<Rightarrow> Inl MarshalFailed | Some data \<Rightarrow> Inr data)
          (\<lambda>data. rbind (bolt (bput compoundKey data (d_meta d)))
          (\<lambda>m. rbind (updateMetaExpiryIndex (d\<lparr>d_meta := m\<rparr>) protocol key (expiryOf now ttl))
          (\<lambda>d'. Inr ((), d')))))))"

end
