(* ===== verification/EnvelopeDB.thy ===== *)
theory EnvelopeDB
  imports MetaDB
begin

text \<open>
  The envelope half of the metadata database (\<open>store/metadb/bolt.go\<close>, "Envelope APIs"):
  storing, updating and deleting envelopes with the reference counts of the blobs they name,
  the expiry index, and the queries and conditional deletes of the reaper. \<open>proto.Marshal\<close> is
  third-party: \<open>mar\<close> says which envelopes it encodes (proto3 rejects strings that are not UTF-8),
  and what it encoded decodes to the same message.
\<close>

record envelope_expiry_entry =
  xe_Protocol :: string
  xe_Kind :: string
  xe_Key :: string
  xe_ExpiresAt :: time

section \<open>Expiry index\<close>

definition updateEnvelopeExpiryIndex ::
  "db \<Rightarrow> string \<Rightarrow> string \<Rightarrow> string \<Rightarrow> int \<Rightarrow> mdb_error + db" where
  "updateEnvelopeExpiryIndex d protocol kind key expiresAtUnixMs =
     (let compoundKey = makeEnvelopeKey protocol kind key;
          d1 = (case bget (d_env_expiry_by_key d) compoundKey of
                  Some tsBytes \<Rightarrow>
                    d\<lparr>d_env_by_expiry :=
                        bdelete (makeEnvelopeExpiryKey (decodeTimestamp tsBytes) protocol kind key)
                          (d_env_by_expiry d),
                      d_env_expiry_by_key := bdelete compoundKey (d_env_expiry_by_key d)\<rparr>
                | None \<Rightarrow> d)
      in if expiresAtUnixMs > 0 then
           (let expiresAt = time_UnixMilli expiresAtUnixMs
            in rbind (bolt (bput (makeEnvelopeExpiryKey expiresAt protocol kind key) compoundKey
                              (d_env_by_expiry d1)))
                 (\<lambda>fwd. rbind (bolt (bput compoundKey (encodeTimestamp expiresAt) (d_env_expiry_by_key d1)))
                   (\<lambda>rv. Inr (d1\<lparr>d_env_by_expiry := fwd, d_env_expiry_by_key := rv\<rparr>))))
         else Inr d1)"

definition removeEnvelopeExpiryIndex :: "db \<Rightarrow> string \<Rightarrow> string \<Rightarrow> string \<Rightarrow> mdb_error + db" where
  "removeEnvelopeExpiryIndex d protocol kind key = updateEnvelopeExpiryIndex d protocol kind key 0"

section \<open>Reading\<close>

definition GetEnvelope :: "db \<Rightarrow> string \<Rightarrow> string \<Rightarrow> string \<Rightarrow> mdb_error + envelope" where
  "GetEnvelope d protocol kind key =
     (case bget (d_envs d) (makeEnvelopeKey protocol kind key) of
        None \<Rightarrow> Inl ErrNotFound
      | Some Corrupt \<Rightarrow> Inl UnmarshalFailed
      | Some (Good env) \<Rightarrow> Inr env)"

definition GetEnvelopeBlobRefs :: "db \<Rightarrow> string \<Rightarrow> string \<Rightarrow> string \<Rightarrow> string list" where
  "GetEnvelopeBlobRefs d protocol kind key =
     getRefs (d_env_refs d) (makeEnvelopeKey protocol kind key)"

definition ListEnvelopeKeys :: "db \<Rightarrow> string \<Rightarrow> string \<Rightarrow> string list" where
  "ListEnvelopeKeys d protocol kind =
     map (\<lambda>e. snd (snd (parseEnvelopeKey (fst e))))
       (seek_prefix (makeEnvelopeKey protocol kind []) (d_envs d))"

section \<open>Writing\<close>

definition PutEnvelope ::
  "(string \<Rightarrow> string) \<Rightarrow> (envelope \<Rightarrow> bool) \<Rightarrow> db \<Rightarrow> string \<Rightarrow> string \<Rightarrow> string
     \<Rightarrow> envelope option \<Rightarrow> (mdb_error + unit) \<times> db" where
  "PutEnvelope U mar d protocol kind key envp =
     (case ValidateEnvelope U envp of
        Inl e \<Rightarrow> (Inl e, d)
      | Inr _ \<Rightarrow>
          (let env = (the envp)\<lparr>BlobRefs := CanonicalizeRefs U (BlobRefs (the envp))\<rparr>
           in if \<not> mar env then (Inl MarshalFailed, d)
              else batch d
                (let compoundKey = makeEnvelopeKey protocol kind key;
                     oldRefs = getRefs (d_env_refs d) compoundKey;
                     (added, removed) = DiffRefs oldRefs (BlobRefs env)
                 in rbind (incrementAll (d_blobs d) added)
                   (\<lambda>b1. rbind (decrementAll b1 removed)
                   (\<lambda>b2. rbind (bolt (bput compoundKey (Good (BlobRefs env)) (d_env_refs d)))
                   (\<lambda>rf. rbind (bolt (bput compoundKey (Good env) (d_envs d)))
                   (\<lambda>ev. rbind (updateEnvelopeExpiryIndex
                                  (d\<lparr>d_blobs := b2, d_env_refs := rf, d_envs := ev\<rparr>)
                                  protocol kind key (ExpiresAtUnixMs env))
                   (\<lambda>d'. Inr ((), d')))))))))"

definition DeleteEnvelope ::
  "db \<Rightarrow> string \<Rightarrow> string \<Rightarrow> string \<Rightarrow> (mdb_error + unit) \<times> db" where
  "DeleteEnvelope d protocol kind key =
     batch d
       (let compoundKey = makeEnvelopeKey protocol kind key;
            refs = getRefs (d_env_refs d) compoundKey
        in rbind (decrementAll (d_blobs d) refs)
          (\<lambda>b. rbind (removeEnvelopeExpiryIndex
                        (d\<lparr>d_blobs := b, d_env_refs := bdelete compoundKey (d_env_refs d)\<rparr>)
                        protocol kind key)
          (\<lambda>d'. Inr ((), d'\<lparr>d_envs := bdelete compoundKey (d_envs d')\<rparr>))))"

text \<open>The callback receives the stored envelope, \<open>None\<close> when absent, and returns the new one,
  \<open>None\<close> to delete the entry, or an error.\<close>

definition UpdateEnvelope ::
  "(string \<Rightarrow> string) \<Rightarrow> (envelope \<Rightarrow> bool) \<Rightarrow> db \<Rightarrow> string \<Rightarrow> string \<Rightarrow> string
     \<Rightarrow> (envelope option \<Rightarrow> mdb_error + envelope option) \<Rightarrow> (mdb_error + unit) \<times> db" where
  "UpdateEnvelope U mar d protocol kind key fn =
     batch d
       (let compoundKey = makeEnvelopeKey protocol kind key
        in rbind (case bget (d_envs d) compoundKey of
                    None \<Rightarrow> Inr None
                  | Some Corrupt \<Rightarrow> Inl UnmarshalFailed
                  | Some (Good env) \<Rightarrow> Inr (Some env))
          (\<lambda>existing.
             let oldRefs = getRefs (d_env_refs d) compoundKey
             in rbind (fn existing)
               (\<lambda>result.
                  case result of
                    None \<Rightarrow>
                      rbind (removeEnvelopeExpiryIndex
                               (d\<lparr>d_blobs := decrementAllLogged (d_blobs d) oldRefs,
                                  d_env_refs := bdelete compoundKey (d_env_refs d)\<rparr>)
                               protocol kind key)
                        (\<lambda>d'. Inr ((), d'\<lparr>d_envs := bdelete compoundKey (d_envs d')\<rparr>))
                  | Some env0 \<Rightarrow>
                      rbind (ValidateEnvelope U (Some env0))
                        (\<lambda>_.
                          let env = env0\<lparr>BlobRefs := CanonicalizeRefs U (BlobRefs env0)\<rparr>;
                              (added, removed) = DiffRefs oldRefs (BlobRefs env)
                          in rbind (incrementAll (d_blobs d) added)
                            (\<lambda>b1. rbind (decrementAll b1 removed)
                            (\<lambda>b2. rbind (bolt (bput compoundKey (Good (BlobRefs env)) (d_env_refs d)))
                            (\<lambda>rf. rbind (if mar env then Inr () else Inl MarshalFailed)
                            (\<lambda>_. rbind (bolt (bput compoundKey (Good env) (d_envs d)))
                            (\<lambda>ev. rbind (updateEnvelopeExpiryIndex
                                           (d\<lparr>d_blobs := b2, d_env_refs := rf, d_envs := ev\<rparr>)
                                           protocol kind key (ExpiresAtUnixMs env))
                            (\<lambda>d'. Inr ((), d')))))))))))"

section \<open>Expiry\<close>

definition GetExpiredEnvelopes :: "db \<Rightarrow> time \<Rightarrow> int \<Rightarrow> envelope_expiry_entry list" where
  "GetExpiredEnvelopes d before limit =
     map (\<lambda>(k, _).
            (case parseEnvelopeExpiryKey k of
               (expiresAt, protocol, kind, key) \<Rightarrow>
                 \<lparr>xe_Protocol = protocol, xe_Kind = kind, xe_Key = key, xe_ExpiresAt = expiresAt\<rparr>))
       (take (nat limit)
         (takeWhile (\<lambda>(k, _). take 8 k < encodeTimestamp before) (entries (d_env_by_expiry d))))"

definition DeleteExpiredEnvelope :: "db \<Rightarrow> envelope_expiry_entry \<Rightarrow> (mdb_error + bool) \<times> db" where
  "DeleteExpiredEnvelope d entry =
     batch d
       (let compoundKey = makeEnvelopeKey (xe_Protocol entry) (xe_Kind entry) (xe_Key entry);
            expectedExpiry = encodeTimestamp (xe_ExpiresAt entry)
        in if bget (d_env_expiry_by_key d) compoundKey \<noteq> Some expectedExpiry then Inr (False, d)
           else
             rbind (decrementAll (d_blobs d) (getRefs (d_env_refs d) compoundKey))
               (\<lambda>b. Inr (True,
                  d\<lparr>d_blobs := b,
                    d_env_refs := bdelete compoundKey (d_env_refs d),
                    d_env_by_expiry :=
                      bdelete (makeEnvelopeExpiryKey (xe_ExpiresAt entry) (xe_Protocol entry)
                                 (xe_Kind entry) (xe_Key entry)) (d_env_by_expiry d),
                    d_env_expiry_by_key := bdelete compoundKey (d_env_expiry_by_key d),
                    d_envs := bdelete compoundKey (d_envs d)\<rparr>)))"

end
