(* ===== verification/RefCounts.thy ===== *)
theory RefCounts
  imports EnvelopeDB
begin

text \<open>
  Reference counting in the metadata database: how the counters of the blob table change
  under the increments and decrements of a transaction, and the accounting invariant that a
  stored counter equals the number of references recorded in the two reference buckets, stated
  for all blobs outside a set.
\<close>

named_theorems tx_simps \<open>unfolding of update transactions\<close>

section \<open>Transactions\<close>

lemma batch_Inl [simp]: "batch d (Inl e) = (Inl e, d)"
  by (simp add: batch_def)

lemma batch_Inr [simp]: "batch d (Inr (r, d')) = (Inr r, d')"
  by (simp add: batch_def)

lemma batch_cases:
  obtains e where "m = Inl e" "batch d m = (Inl e, d)"
  | r d' where "m = Inr (r, d')" "batch d m = (Inr r, d')"
  by (cases m) auto

lemma batch_post: "P d \<Longrightarrow> rpost m (\<lambda>rd. P (snd rd)) \<Longrightarrow> P (snd (batch d m))"
  by (cases m d rule: batch_cases) (auto simp: rpost_def)

lemma bolt_Inr [tx_simps]: "bolt m = Inr x \<longleftrightarrow> m = Inr x"
  by (cases m) (simp_all add: bolt_def)

lemmas [tx_simps] = bput_Inr

lemmas tx_unfold = result_simps tx_simps Let_def case_prod_beta

section \<open>Counter updates\<close>

lemma incrementBlobRefInTx_bget:
  assumes "incrementBlobRefInTx b x = Inr b'"
  shows "bget b' h = (if h = x then map_option (map_cell incRef) (bget b h) else bget b h)"
  using assms
  by (auto simp: incrementBlobRefInTx_def tx_simps split: option.splits cell.splits)

lemma decrementBlobRefInTx_bget:
  assumes "decrementBlobRefInTx b x = Inr b'"
  shows "bget b' h = (if h = x then map_option (map_cell decRef) (bget b h) else bget b h)"
  using assms
  by (auto simp: decrementBlobRefInTx_def tx_simps split: option.splits cell.splits)

lemma decrementBlobRefInTx_Inl:
  assumes "decrementBlobRefInTx b x = Inl e" and "wf_bucket b"
  shows "bget b x = Some Corrupt"
  using assms bget_valid_key [OF assms(2)]
  by (auto simp: decrementBlobRefInTx_def bolt_def split: option.splits cell.splits)

lemma incrementBlobRefInTx_wf:
  "incrementBlobRefInTx b x = Inr b' \<Longrightarrow> wf_bucket b \<Longrightarrow> wf_bucket b'"
  by (auto simp: incrementBlobRefInTx_def tx_simps split: option.splits cell.splits)

lemma decrementBlobRefInTx_wf:
  "decrementBlobRefInTx b x = Inr b' \<Longrightarrow> wf_bucket b \<Longrightarrow> wf_bucket b'"
  by (auto simp: decrementBlobRefInTx_def tx_simps split: option.splits cell.splits)

lemma incrementAll_wf: "incrementAll b rs = Inr b' \<Longrightarrow> wf_bucket b \<Longrightarrow> wf_bucket b'"
  by (induction b rs rule: incrementAll.induct) (auto simp: tx_unfold dest: incrementBlobRefInTx_wf)

lemma decrementAll_wf: "decrementAll b rs = Inr b' \<Longrightarrow> wf_bucket b \<Longrightarrow> wf_bucket b'"
  by (induction b rs rule: decrementAll.induct) (auto simp: tx_unfold dest: decrementBlobRefInTx_wf)

lemma decrementAllLogged_wf: "wf_bucket b \<Longrightarrow> wf_bucket (decrementAllLogged b rs)"
  by (induction b rs rule: decrementAllLogged.induct)
     (auto simp: decrementBlobRefInTx_wf split: sum.splits)

lemma cell_funpow_Suc:
  "map_option (map_cell (f ^^ n)) (map_option (map_cell f) x) = map_option (map_cell (f ^^ Suc n)) x"
  by (cases x) (auto simp: cell.map_comp o_def funpow_Suc_right simp del: funpow.simps)

lemma map_cell_id: "map_option (map_cell (f ^^ 0)) x = x"
  by (cases x) (auto simp: cell.map_id)

lemma incrementAll_bget:
  "incrementAll b rs = Inr b' \<Longrightarrow>
   bget b' h = map_option (map_cell (incRef ^^ count_list rs h)) (bget b h)"
proof (induction b rs rule: incrementAll.induct)
  case (2 b x xs)
  then obtain b1 where b1: "incrementBlobRefInTx b x = Inr b1" "incrementAll b1 xs = Inr b'"
    by (auto simp: tx_unfold)
  show ?case
    using "2.IH" [OF b1(2)] incrementBlobRefInTx_bget [OF b1(1), of h]
    by (auto simp: cell_funpow_Suc simp del: funpow.simps)
qed (simp add: map_cell_id [unfolded funpow.simps])

lemma decrementAll_bget:
  "decrementAll b rs = Inr b' \<Longrightarrow>
   bget b' h = map_option (map_cell (decRef ^^ count_list rs h)) (bget b h)"
proof (induction b rs rule: decrementAll.induct)
  case (2 b x xs)
  then obtain b1 where b1: "decrementBlobRefInTx b x = Inr b1" "decrementAll b1 xs = Inr b'"
    by (auto simp: tx_unfold)
  show ?case
    using "2.IH" [OF b1(2)] decrementBlobRefInTx_bget [OF b1(1), of h]
    by (auto simp: cell_funpow_Suc simp del: funpow.simps)
qed (simp add: map_cell_id [unfolded funpow.simps])

text \<open>A decrement can fail only on an entry that does not decode, so logging the failure and
  going on has the same effect on the entries that do.\<close>

lemma decrementAllLogged_bget:
  "wf_bucket b \<Longrightarrow>
   bget (decrementAllLogged b rs) h = map_option (map_cell (decRef ^^ count_list rs h)) (bget b h)"
proof (induction b rs rule: decrementAllLogged.induct)
  case (2 b x xs)
  define b1 where "b1 = (case decrementBlobRefInTx b x of Inl _ \<Rightarrow> b | Inr b' \<Rightarrow> b')"
  have wf: "wf_bucket b1"
    using "2.prems" by (auto simp: b1_def decrementBlobRefInTx_wf split: sum.splits)
  have "bget b1 h = (if h = x then map_option (map_cell decRef) (bget b h) else bget b h)"
  proof (cases "decrementBlobRefInTx b x")
    case (Inl e)
    with "2.prems" have "bget b x = Some Corrupt" by (rule_tac decrementBlobRefInTx_Inl)
    with Inl show ?thesis by (simp add: b1_def)
  next
    case (Inr b')
    then show ?thesis by (simp add: b1_def decrementBlobRefInTx_bget)
  qed
  moreover have "decrementAllLogged b (x # xs) = decrementAllLogged b1 xs"
    by (simp add: b1_def)
  ultimately show ?case
    using "2.IH" [unfolded b1_def [symmetric], OF wf]
    by (auto simp: cell_funpow_Suc simp del: funpow.simps)
qed (simp add: map_cell_id [unfolded funpow.simps])

lemma incRef_funpow: "(incRef ^^ n) e = e\<lparr>be_RefCount := be_RefCount e + int n\<rparr>"
  by (induction n) (auto simp: incRef_def)

lemma decRef_funpow:
  "int n \<le> be_RefCount e \<Longrightarrow> (decRef ^^ n) e = e\<lparr>be_RefCount := be_RefCount e - int n\<rparr>"
  by (induction n) (auto simp: decRef_def)

lemma decRef_funpow_floor:
  "0 \<le> be_RefCount e \<Longrightarrow> be_RefCount ((decRef ^^ n) e) = max 0 (be_RefCount e - int n)"
  by (induction n) (auto simp: decRef_def)

section \<open>The accounting invariant\<close>

fun cellRefs :: "string list cell \<Rightarrow> string list" where
  "cellRefs (Good refs) = refs"
| "cellRefs Corrupt = []"

definition refCount :: "string list cell bucket \<Rightarrow> string \<Rightarrow> nat" where
  "refCount b h = bsum (\<lambda>c. count_list (cellRefs c) h) b"

text \<open>The number of references to a blob that the database records.\<close>

definition refsTo :: "db \<Rightarrow> string \<Rightarrow> nat" where
  "refsTo d h = refCount (d_env_refs d) h + refCount (d_meta_refs d) h"

text \<open>The counters agree with a count of references, but for the blobs of a set \<open>R\<close>: those whose
  counter was written by hand. The legacy reference lists of the other blobs have no repetition.\<close>

definition counts_ok :: "string set \<Rightarrow> blob_entry cell bucket \<Rightarrow> (string \<Rightarrow> nat) \<Rightarrow> bool" where
  "counts_ok R b f \<longleftrightarrow> (\<forall>h e. h \<notin> R \<longrightarrow> bget b h = Some (Good e) \<longrightarrow> be_RefCount e = int (f h))"

definition single_refs :: "string set \<Rightarrow> string list \<Rightarrow> bool" where
  "single_refs R rs \<longleftrightarrow> (\<forall>h. h \<notin> R \<longrightarrow> count_list rs h \<le> 1)"

definition refs_exact :: "string set \<Rightarrow> db \<Rightarrow> bool" where
  "refs_exact R d \<longleftrightarrow> counts_ok R (d_blobs d) (refsTo d)"

lemma counts_ok_mono: "counts_ok R b f \<Longrightarrow> R \<subseteq> R' \<Longrightarrow> counts_ok R' b f"
  by (auto simp: counts_ok_def)

lemma counts_ok_UNIV [simp]: "counts_ok UNIV b f"
  by (simp add: counts_ok_def)

lemma single_refs_mono: "single_refs R rs \<Longrightarrow> R \<subseteq> R' \<Longrightarrow> single_refs R' rs"
  by (auto simp: single_refs_def)

lemma single_refs_UNIV [simp]: "single_refs UNIV rs"
  by (simp add: single_refs_def)

lemma getRefs_cell: "getRefs b ck = (case bget b ck of None \<Rightarrow> [] | Some c \<Rightarrow> cellRefs c)"
  by (auto simp: getRefs_def split: option.splits cell.splits)

lemma refCount_bset:
  "wf_bucket b \<Longrightarrow>
   refCount (bset ck (Good new) b) h + count_list (getRefs b ck) h = refCount b h + count_list new h"
  using bsum_bset [of b "\<lambda>c. count_list (cellRefs c) h" ck "Good new"]
  by (auto simp: refCount_def getRefs_cell split: option.splits)

lemma refCount_bdelete:
  "wf_bucket b \<Longrightarrow> refCount (bdelete ck b) h + count_list (getRefs b ck) h = refCount b h"
  using bsum_bdelete [of b "\<lambda>c. count_list (cellRefs c) h" ck]
  by (auto simp: refCount_def getRefs_cell split: option.splits)

lemma count_getRefs_le: "count_list (getRefs b ck) h \<le> refCount b h"
  using bget_le_bsum [of b ck _ "\<lambda>c. count_list (cellRefs c) h"]
  by (auto simp: refCount_def getRefs_cell split: option.splits)

lemma counts_ok_decrement:
  assumes ok: "counts_ok R b f"
    and dec: "\<And>h. bget b' h = map_option (map_cell (decRef ^^ count_list rs h)) (bget b h)"
    and g: "\<And>h. g h + count_list rs h = f h"
  shows "counts_ok R b' g"
  unfolding counts_ok_def
proof (intro allI impI)
  fix h e'
  assume h: "h \<notin> R" and "bget b' h = Some (Good e')"
  from this(2) dec [of h] obtain e where e: "bget b h = Some (Good e)" "e' = (decRef ^^ count_list rs h) e"
    by (cases "bget b h"; cases "the (bget b h)") auto
  with ok h have "be_RefCount e = int (f h)" by (simp add: counts_ok_def)
  with e g [of h] show "be_RefCount e' = int (g h)" by (simp add: decRef_funpow)
qed

lemma count_list_distinct:
  "distinct xs \<Longrightarrow> count_list xs h = (if h \<in> set xs then 1 else 0)"
  by (induction xs) auto

lemma single_refs_distinct: "distinct rs \<Longrightarrow> single_refs R rs"
  by (simp add: single_refs_def count_list_distinct)

lemma count_list_single: "single_refs R rs \<Longrightarrow> h \<notin> R \<Longrightarrow> count_list rs h = (if h \<in> set rs then 1 else 0)"
  unfolding single_refs_def by (metis One_nat_def Suc_leI count_list_0_iff le_antisym neq0_conv)

lemma count_DiffRefs:
  "count_list (fst (DiffRefs old new)) h = (if h \<in> set old then 0 else count_list new h)"
  "count_list (snd (DiffRefs old new)) h = (if h \<in> set new then 0 else count_list old h)"
proof -
  have "count_list (filter P xs) h = (if P h then count_list xs h else 0)" for P and xs :: "string list"
    by (induction xs) auto
  then show "count_list (fst (DiffRefs old new)) h = (if h \<in> set old then 0 else count_list new h)"
    "count_list (snd (DiffRefs old new)) h = (if h \<in> set new then 0 else count_list old h)"
    by (simp_all add: DiffRefs_def)
qed

lemma counts_ok_diff:
  assumes ok: "counts_ok R b f"
    and inc: "incrementAll b (fst (DiffRefs old new)) = Inr b1"
    and dec: "decrementAll b1 (snd (DiffRefs old new)) = Inr b2"
    and dist: "single_refs R old" "single_refs R new"
    and g: "\<And>h. g h + count_list old h = f h + count_list new h"
  shows "counts_ok R b2 g"
  unfolding counts_ok_def
proof (intro allI impI)
  fix h e'
  let ?a = "count_list (fst (DiffRefs old new)) h" and ?r = "count_list (snd (DiffRefs old new)) h"
  assume h: "h \<notin> R" and "bget b2 h = Some (Good e')"
  from this(2) decrementAll_bget [OF dec, of h] incrementAll_bget [OF inc, of h] obtain e where
    e: "bget b h = Some (Good e)" "e' = (decRef ^^ ?r) ((incRef ^^ ?a) e)"
    by (cases "bget b h"; cases "the (bget b h)") auto
  with ok h have "be_RefCount e = int (f h)" by (simp add: counts_ok_def)
  moreover have "g h + ?r = f h + ?a" "?r \<le> f h + ?a"
    using g [of h] dist h by (auto simp: count_DiffRefs count_list_single split: if_splits)
  ultimately show "be_RefCount e' = int (g h)"
    using e by (simp add: decRef_funpow incRef_funpow)
qed

end
