(* ===== verification/DBInv.thy ===== *)
theory DBInv
  imports RefCounts
begin

text \<open>
  The invariant of the metadata database and its preservation by every operation: buckets are
  well formed, the reference buckets and the two expiry indexes agree with the stored records,
  and the reference counters are exact but for the blobs of a given set. Each operation keeps the
  invariant for every set that holds the blobs whose counter it writes apart from the account.
\<close>

section \<open>Expiry indexes\<close>

text \<open>The forward index holds exactly the entries \<open>timestamp @ key\<close> of the reverse index.\<close>

definition idx_ok :: "bytes bucket \<Rightarrow> bytes bucket \<Rightarrow> bool" where
  "idx_ok fwd rv \<longleftrightarrow>
     (\<forall>ck ts. bget rv ck = Some ts \<longrightarrow> length ts = 8)
     \<and> (\<forall>k. bget fwd k =
           (if 8 \<le> length k \<and> bget rv (drop 8 k) = Some (take 8 k) then Some (drop 8 k) else None))"

lemma idx_ok_length: "idx_ok fwd rv \<Longrightarrow> bget rv ck = Some ts \<Longrightarrow> length ts = 8"
  by (simp add: idx_ok_def)

lemma idx_ok_fwd:
  "idx_ok fwd rv \<Longrightarrow>
   bget fwd k = (if 8 \<le> length k \<and> bget rv (drop 8 k) = Some (take 8 k) then Some (drop 8 k) else None)"
  by (simp add: idx_ok_def)

lemma idx_ok_empty: "idx_ok empty_bucket empty_bucket"
  by (simp add: idx_ok_def)

lemma idx_ok_remove:
  assumes ok: "idx_ok fwd rv" and ts: "bget rv ck = Some ts"
  shows "idx_ok (bdelete (ts @ ck) fwd) (bdelete ck rv)"
proof -
  have len: "length ts = 8" using ok ts by (rule idx_ok_length)
  have "k = ts @ ck" if "8 \<le> length k" "drop 8 k = ck" "take 8 k = ts" for k :: bytes
    using that by (metis append_take_drop_id)
  then show ?thesis
    using ok ts len by (auto simp: idx_ok_def)
qed

lemma idx_ok_add:
  assumes ok: "idx_ok fwd rv" and none: "bget rv ck = None" and len: "length ts = 8"
  shows "idx_ok (bset (ts @ ck) ck fwd) (bset ck ts rv)"
proof -
  have "k = ts @ ck" if "drop 8 k = ck" "take 8 k = ts" for k :: bytes
    using that by (metis append_take_drop_id)
  then show ?thesis
    using ok none len by (auto simp: idx_ok_def)
qed

definition expiryTs :: "int \<Rightarrow> bytes option" where
  "expiryTs ms = (if ms > 0 then Some (encodeTimestamp (time_UnixMilli ms)) else None)"

lemma updateEnvelopeExpiryIndex_Inr:
  assumes upd: "updateEnvelopeExpiryIndex d p kd k ms = Inr d'"
    and ok: "idx_ok (d_env_by_expiry d) (d_env_expiry_by_key d)"
    and wf: "wf_bucket (d_env_by_expiry d)" "wf_bucket (d_env_expiry_by_key d)"
  obtains fwd rv where "d' = d\<lparr>d_env_by_expiry := fwd, d_env_expiry_by_key := rv\<rparr>"
    and "idx_ok fwd rv" and "wf_bucket fwd" and "wf_bucket rv"
    and "\<And>c. bget rv c =
           (if c = makeEnvelopeKey p kd k then expiryTs ms else bget (d_env_expiry_by_key d) c)"
proof -
  let ?ck = "makeEnvelopeKey p kd k"
  obtain fwd1 rv1 where d1: "idx_ok fwd1 rv1" "wf_bucket fwd1" "wf_bucket rv1"
      "\<And>c. bget rv1 c = (if c = ?ck then None else bget (d_env_expiry_by_key d) c)"
    and eq: "(case bget (d_env_expiry_by_key d) ?ck of
                Some tsBytes \<Rightarrow>
                  d\<lparr>d_env_by_expiry :=
                      bdelete (makeEnvelopeExpiryKey (decodeTimestamp tsBytes) p kd k) (d_env_by_expiry d),
                    d_env_expiry_by_key := bdelete ?ck (d_env_expiry_by_key d)\<rparr>
              | None \<Rightarrow> d) = d\<lparr>d_env_by_expiry := fwd1, d_env_expiry_by_key := rv1\<rparr>"
  proof (cases "bget (d_env_expiry_by_key d) ?ck")
    case None
    with that [of "d_env_by_expiry d" "d_env_expiry_by_key d"] ok wf show thesis by auto
  next
    case (Some ts)
    with ok have "length ts = 8" by (simp add: idx_ok_length)
    then have "makeEnvelopeExpiryKey (decodeTimestamp ts) p kd k = ts @ ?ck"
      by (simp add: makeEnvelopeExpiryKey_eq)
    moreover have "idx_ok (bdelete (ts @ ?ck) (d_env_by_expiry d)) (bdelete ?ck (d_env_expiry_by_key d))"
      using ok Some by (rule idx_ok_remove)
    ultimately show thesis
      using that [of "bdelete (ts @ ?ck) (d_env_by_expiry d)" "bdelete ?ck (d_env_expiry_by_key d)"]
        Some wf by auto
  qed
  show thesis
  proof (cases "ms > 0")
    case False
    with upd eq have "d' = d\<lparr>d_env_by_expiry := fwd1, d_env_expiry_by_key := rv1\<rparr>"
      by (simp add: updateEnvelopeExpiryIndex_def Let_def)
    with False that d1 show thesis by (simp add: expiryTs_def)
  next
    case True
    let ?ts = "encodeTimestamp (time_UnixMilli ms)"
    from upd eq True have v: "valid_key (?ts @ ?ck)" "valid_key ?ck"
      and d': "d' = d\<lparr>d_env_by_expiry := bset (?ts @ ?ck) ?ck fwd1,
                   d_env_expiry_by_key := bset ?ck ?ts rv1\<rparr>"
      by (auto simp: updateEnvelopeExpiryIndex_def tx_unfold makeEnvelopeExpiryKey_eq)
    have "idx_ok (bset (?ts @ ?ck) ?ck fwd1) (bset ?ck ?ts rv1)"
      using d1 by (intro idx_ok_add) auto
    moreover have "wf_bucket (bset (?ts @ ?ck) ?ck fwd1)" "wf_bucket (bset ?ck ?ts rv1)"
      using d1(2,3) v by (auto intro: wf_bset)
    moreover have "bget (bset ?ck ?ts rv1) c =
        (if c = ?ck then expiryTs ms else bget (d_env_expiry_by_key d) c)" for c
      using True by (simp add: d1(4) expiryTs_def)
    ultimately show thesis by (rule that [OF d'])
  qed
qed

lemma delFirstValue_absent: "v \<notin> snd ` set xs \<Longrightarrow> delFirstValue v xs = xs"
  by (induction xs) auto

lemma updateMetaExpiryIndex_Inr:
  assumes upd: "updateMetaExpiryIndex d p k ex = Inr d'"
    and ok: "idx_ok (d_meta_by_expiry d) (d_meta_expiry_by_key d)"
    and wf: "wf_bucket (d_meta_by_expiry d)" "wf_bucket (d_meta_expiry_by_key d)"
  obtains fwd rv where "d' = d\<lparr>d_meta_by_expiry := fwd, d_meta_expiry_by_key := rv\<rparr>"
    and "idx_ok fwd rv" and "wf_bucket fwd" and "wf_bucket rv"
    and "\<And>c. bget rv c =
           (if c = makeProtocolKey p k then map_option encodeTimestamp ex
            else bget (d_meta_expiry_by_key d) c)"
proof -
  let ?ck = "makeProtocolKey p k"
  obtain fwd1 rv1 where d1: "idx_ok fwd1 rv1" "wf_bucket fwd1" "wf_bucket rv1"
      "\<And>c. bget rv1 c = (if c = ?ck then None else bget (d_meta_expiry_by_key d) c)"
    and eq: "(case bget (d_meta_expiry_by_key d) ?ck of
                Some tsBytes \<Rightarrow>
                  d\<lparr>d_meta_by_expiry :=
                      bdelete (makeMetaExpiryKey (decodeTimestamp tsBytes) p k) (d_meta_by_expiry d),
                    d_meta_expiry_by_key := bdelete ?ck (d_meta_expiry_by_key d)\<rparr>
              | None \<Rightarrow>
                  d\<lparr>d_meta_by_expiry := (d_meta_by_expiry d)
                      \<lparr>entries := delFirstValue ?ck (entries (d_meta_by_expiry d))\<rparr>\<rparr>)
             = d\<lparr>d_meta_by_expiry := fwd1, d_meta_expiry_by_key := rv1\<rparr>"
  proof (cases "bget (d_meta_expiry_by_key d) ?ck")
    case None
    have "?ck \<notin> snd ` set (entries (d_meta_by_expiry d))"
    proof
      assume "?ck \<in> snd ` set (entries (d_meta_by_expiry d))"
      then obtain key where "bget (d_meta_by_expiry d) key = Some ?ck"
        using wf(1) by (auto simp: bget_Some_iff)
      with idx_ok_fwd [OF ok, of key] None show False by (auto split: if_splits)
    qed
    then have "delFirstValue ?ck (entries (d_meta_by_expiry d)) = entries (d_meta_by_expiry d)"
      by (rule delFirstValue_absent)
    with that [of "d_meta_by_expiry d" "d_meta_expiry_by_key d"] None ok wf show thesis by auto
  next
    case (Some ts)
    with ok have "length ts = 8" by (simp add: idx_ok_length)
    then have "makeMetaExpiryKey (decodeTimestamp ts) p k = ts @ ?ck"
      by (simp add: makeMetaExpiryKey_eq)
    moreover have "idx_ok (bdelete (ts @ ?ck) (d_meta_by_expiry d)) (bdelete ?ck (d_meta_expiry_by_key d))"
      using ok Some by (rule idx_ok_remove)
    ultimately show thesis
      using that [of "bdelete (ts @ ?ck) (d_meta_by_expiry d)" "bdelete ?ck (d_meta_expiry_by_key d)"]
        Some wf by auto
  qed
  show thesis
  proof (cases ex)
    case None
    with upd eq have "d' = d\<lparr>d_meta_by_expiry := fwd1, d_meta_expiry_by_key := rv1\<rparr>"
      by (simp add: updateMetaExpiryIndex_def Let_def)
    with None that d1 show thesis by simp
  next
    case (Some t)
    let ?ts = "encodeTimestamp t"
    from upd eq Some have v: "valid_key (?ts @ ?ck)" "valid_key ?ck"
      and d': "d' = d\<lparr>d_meta_by_expiry := bset (?ts @ ?ck) ?ck fwd1,
                   d_meta_expiry_by_key := bset ?ck ?ts rv1\<rparr>"
      by (auto simp: updateMetaExpiryIndex_def tx_unfold makeMetaExpiryKey_eq)
    have "idx_ok (bset (?ts @ ?ck) ?ck fwd1) (bset ?ck ?ts rv1)"
      using d1 by (intro idx_ok_add) auto
    moreover have "wf_bucket (bset (?ts @ ?ck) ?ck fwd1)" "wf_bucket (bset ?ck ?ts rv1)"
      using d1(2,3) v by (auto intro: wf_bset)
    moreover have "bget (bset ?ck ?ts rv1) c =
        (if c = ?ck then map_option encodeTimestamp ex else bget (d_meta_expiry_by_key d) c)" for c
      using Some by (simp add: d1(4))
    ultimately show thesis by (rule that [OF d'])
  qed
qed

section \<open>The invariant\<close>

text \<open>Every stored envelope has its row of references and, when it expires, its index row;
  no other rows exist.\<close>

definition env_row ::
  "bytes \<Rightarrow> envelope cell option \<Rightarrow> string list cell option \<Rightarrow> bytes option \<Rightarrow> bool" where
  "env_row ck e r x =
     (case e of
        None \<Rightarrow> r = None \<and> x = None
      | Some Corrupt \<Rightarrow> False
      | Some (Good env) \<Rightarrow>
          (\<exists>p kd k. ck = makeEnvelopeKey p kd k) \<and> distinct (BlobRefs env) \<and> r = Some (Good (BlobRefs env)) \<and> x = expiryTs (ExpiresAtUnixMs env))"

definition env_rows :: "db \<Rightarrow> bool" where
  "env_rows d \<longleftrightarrow>
     (\<forall>ck. env_row ck (bget (d_envs d) ck) (bget (d_env_refs d) ck) (bget (d_env_expiry_by_key d) ck))"

definition meta_rows :: "string set \<Rightarrow> db \<Rightarrow> bool" where
  "meta_rows R d \<longleftrightarrow>
     (\<forall>ck c. bget (d_meta_refs d) ck = Some c \<longrightarrow> (\<exists>rs. c = Good rs \<and> single_refs R rs))"

definition env_idx :: "db \<Rightarrow> bool" where
  "env_idx d \<longleftrightarrow> idx_ok (d_env_by_expiry d) (d_env_expiry_by_key d)
     \<and> wf_bucket (d_env_by_expiry d) \<and> wf_bucket (d_env_expiry_by_key d)"

definition meta_idx :: "db \<Rightarrow> bool" where
  "meta_idx d \<longleftrightarrow> idx_ok (d_meta_by_expiry d) (d_meta_expiry_by_key d)
     \<and> (\<forall>ck. bget (d_meta_expiry_by_key d) ck \<noteq> None \<longrightarrow> (\<exists>p k. ck = makeProtocolKey p k))
     \<and> wf_bucket (d_meta_by_expiry d) \<and> wf_bucket (d_meta_expiry_by_key d)"

definition wf_stores :: "db \<Rightarrow> bool" where
  "wf_stores d \<longleftrightarrow> wf_bucket (d_meta d) \<and> wf_bucket (d_blobs d) \<and> wf_bucket (d_meta_refs d)
     \<and> wf_bucket (d_envs d) \<and> wf_bucket (d_env_refs d)"

text \<open>The invariant with exact counters outside a set of blobs; without counters it is
  the structural part, which holds of every reachable database.\<close>

definition db_invR :: "string set \<Rightarrow> db \<Rightarrow> bool" where
  "db_invR R d \<longleftrightarrow>
     wf_stores d \<and> env_idx d \<and> meta_idx d \<and> env_rows d \<and> meta_rows R d \<and> refs_exact R d"

abbreviation db_inv :: "db \<Rightarrow> bool" where
  "db_inv \<equiv> db_invR UNIV"

lemmas inv_defs = db_invR_def wf_stores_def env_idx_def meta_idx_def env_rows_def meta_rows_def
  refs_exact_def

lemma db_inv_createBuckets: "db_invR R createBuckets"
  by (simp add: inv_defs createBuckets_def idx_ok_empty env_row_def counts_ok_def)

lemma db_inv_parts:
  assumes "db_invR R d"
  shows "wf_stores d" "env_idx d" "meta_idx d" "env_rows d" "meta_rows R d" "refs_exact R d"
  using assms by (simp_all add: db_invR_def)

lemma db_inv_mono:
  assumes "db_invR R d" and "R \<subseteq> R'"
  shows "db_invR R' d"
proof -
  have "meta_rows R' d"
    using assms single_refs_mono unfolding db_invR_def meta_rows_def by blast
  then show ?thesis
    using assms counts_ok_mono by (auto simp: db_invR_def refs_exact_def)
qed

lemma db_inv_structural: "db_invR R d \<Longrightarrow> db_inv d"
  by (erule db_inv_mono) simp

lemma refsTo_update [simp]:
  "refsTo (d\<lparr>d_meta := m\<rparr>) = refsTo d"
  "refsTo (d\<lparr>d_blobs := b\<rparr>) = refsTo d"
  "refsTo (d\<lparr>d_envs := ev\<rparr>) = refsTo d"
  "refsTo (d\<lparr>d_meta_by_expiry := x\<rparr>) = refsTo d"
  "refsTo (d\<lparr>d_meta_expiry_by_key := x\<rparr>) = refsTo d"
  "refsTo (d\<lparr>d_env_by_expiry := x\<rparr>) = refsTo d"
  "refsTo (d\<lparr>d_env_expiry_by_key := x\<rparr>) = refsTo d"
  by (simp_all add: refsTo_def fun_eq_iff)

lemma db_inv_set_meta: "db_invR R d \<Longrightarrow> wf_bucket m \<Longrightarrow> db_invR R (d\<lparr>d_meta := m\<rparr>)"
  by (simp add: inv_defs)

lemma updateMetaExpiryIndex_inv:
  assumes upd: "updateMetaExpiryIndex d p k ex = Inr d'" and inv: "db_invR R d"
  shows "db_invR R d'"
proof -
  have i: "meta_idx d" using inv by (rule db_inv_parts)
  obtain fwd rv where d': "d' = d\<lparr>d_meta_by_expiry := fwd, d_meta_expiry_by_key := rv\<rparr>"
    and idx: "idx_ok fwd rv" "wf_bucket fwd" "wf_bucket rv"
    and rv: "\<And>c. bget rv c = (if c = makeProtocolKey p k then map_option encodeTimestamp ex
                              else bget (d_meta_expiry_by_key d) c)"
    by (rule updateMetaExpiryIndex_Inr [OF upd]) (use i in \<open>auto simp: meta_idx_def\<close>)
  have "meta_idx d'" using i idx rv by (auto simp: meta_idx_def d')
  then show ?thesis using inv unfolding db_invR_def
    by (simp add: wf_stores_def env_idx_def env_rows_def meta_rows_def refs_exact_def d')
qed

lemma env_row_put:
  "distinct (BlobRefs env) \<Longrightarrow>
   env_row (makeEnvelopeKey p kd k) (Some (Good env)) (Some (Good (BlobRefs env))) (expiryTs (ExpiresAtUnixMs env))"
  by (auto simp: env_row_def)

lemma env_row_refs:
  "env_rows d \<Longrightarrow> distinct (getRefs (d_env_refs d) ck)"
  unfolding env_rows_def env_row_def getRefs_def
  by (drule spec [of _ ck]) (auto split: option.splits cell.splits)

lemma meta_rows_refs: "meta_rows R d \<Longrightarrow> single_refs R (getRefs (d_meta_refs d) ck)"
  unfolding meta_rows_def getRefs_def
  by (auto simp: single_refs_def split: option.splits cell.splits)

section \<open>Preservation: envelopes\<close>

lemmas batch_inv = batch_post [where P = "db_invR R"] for R

lemma put_env_inv:
  assumes inv: "db_invR R d" and ck: "ck = makeEnvelopeKey p kd k"
    and old: "old = getRefs (d_env_refs d) ck"
    and inc: "incrementAll (d_blobs d) (fst (DiffRefs old (BlobRefs env))) = Inr b1"
    and dec: "decrementAll b1 (snd (DiffRefs old (BlobRefs env))) = Inr b2"
    and v: "valid_key ck" and dist: "distinct (BlobRefs env)"
    and upd: "updateEnvelopeExpiryIndex
                (d\<lparr>d_blobs := b2, d_env_refs := bset ck (Good (BlobRefs env)) (d_env_refs d),
                   d_envs := bset ck (Good env) (d_envs d)\<rparr>) p kd k (ExpiresAtUnixMs env) = Inr d'"
  shows "db_invR R d'"
proof -
  let ?d = "d\<lparr>d_blobs := b2, d_env_refs := bset ck (Good (BlobRefs env)) (d_env_refs d),
                   d_envs := bset ck (Good env) (d_envs d)\<rparr>"
  have i: "wf_stores d" "env_idx d" "meta_idx d" "env_rows d" "meta_rows R d" "refs_exact R d"
    using inv by (simp_all add: db_invR_def)
  obtain fwd rv where d': "d' = ?d\<lparr>d_env_by_expiry := fwd, d_env_expiry_by_key := rv\<rparr>"
    and idx: "idx_ok fwd rv" "wf_bucket fwd" "wf_bucket rv"
    and rv: "\<And>c. bget rv c = (if c = ck then expiryTs (ExpiresAtUnixMs env)
                              else bget (d_env_expiry_by_key d) c)"
    by (rule updateEnvelopeExpiryIndex_Inr [OF upd]) (use i(2) ck in \<open>auto simp: env_idx_def\<close>)
  have wf: "wf_bucket b2" "wf_bucket (d_env_refs d)"
    using i(1) inc dec by (auto simp: wf_stores_def dest: incrementAll_wf decrementAll_wf)
  have "counts_ok R b2 (refsTo d')"
  proof (rule counts_ok_diff [OF _ inc dec])
    show "counts_ok R (d_blobs d) (refsTo d)" using i by (simp add: refs_exact_def)
    show "single_refs R old" using i(4) by (simp add: old env_row_refs single_refs_distinct)
    show "refsTo d' h + count_list old h = refsTo d h + count_list (BlobRefs env) h" for h
      using refCount_bset [OF wf(2), of ck "BlobRefs env" h] by (simp add: refsTo_def d' old)
  qed (simp add: dist single_refs_distinct)
  then have "refs_exact R d'" by (simp add: refs_exact_def d')
  moreover have "wf_stores d'"
    using i(1) wf v by (auto simp: wf_stores_def d')
  moreover have "env_rows d'"
    using i(4) dist rv env_row_put by (auto simp: env_rows_def d' ck)
  ultimately show ?thesis
    using i idx by (simp add: db_invR_def env_idx_def meta_idx_def meta_rows_def d')
qed

lemma del_env_inv:
  assumes inv: "db_invR R d" and ck: "ck = makeEnvelopeKey p kd k"
    and dec: "\<And>h. bget b h = map_option (map_cell (decRef ^^ count_list (getRefs (d_env_refs d) ck) h))
                (bget (d_blobs d) h)"
    and wfb: "wf_bucket b"
    and idx: "idx_ok fwd rv" "wf_bucket fwd" "wf_bucket rv"
    and rv: "\<And>c. bget rv c = (if c = ck then None else bget (d_env_expiry_by_key d) c)"
    and d': "d' = d\<lparr>d_blobs := b, d_env_refs := bdelete ck (d_env_refs d), d_env_by_expiry := fwd,
               d_env_expiry_by_key := rv, d_envs := bdelete ck (d_envs d)\<rparr>"
  shows "db_invR R d'"
proof -
  have i: "wf_stores d" "env_idx d" "meta_idx d" "env_rows d" "meta_rows R d" "refs_exact R d"
    using inv by (simp_all add: db_invR_def)
  have wf: "wf_bucket (d_env_refs d)" using i(1) by (simp add: wf_stores_def)
  have "counts_ok R b (refsTo d')"
  proof (rule counts_ok_decrement [OF _ dec])
    show "counts_ok R (d_blobs d) (refsTo d)" using i by (simp add: refs_exact_def)
    show "refsTo d' h + count_list (getRefs (d_env_refs d) ck) h = refsTo d h" for h
      using refCount_bdelete [OF wf, of ck h] by (simp add: refsTo_def d')
  qed
  moreover have "wf_stores d'"
    using i(1) wfb by (auto simp: wf_stores_def d')
  moreover have "env_rows d'"
    using i(4) rv by (auto simp: env_rows_def env_row_def d')
  ultimately show ?thesis
    using i idx by (simp add: db_invR_def refs_exact_def env_idx_def meta_idx_def meta_rows_def d')
qed

lemma put_canon_inv:
  assumes inv: "db_invR R d"
    and diff: "DiffRefs (getRefs (d_env_refs d) (makeEnvelopeKey p kd k))
                 (CanonicalizeRefs U (BlobRefs env0)) = (added, removed)"
    and tx: "incrementAll (d_blobs d) added = Inr b1" "decrementAll b1 removed = Inr b2"
    and v: "valid_key (makeEnvelopeKey p kd k)"
    and upd: "updateEnvelopeExpiryIndex
       (d\<lparr>d_blobs := b2,
          d_env_refs := bset (makeEnvelopeKey p kd k) (Good (CanonicalizeRefs U (BlobRefs env0))) (d_env_refs d),
          d_envs := bset (makeEnvelopeKey p kd k)
            (Good (env0\<lparr>BlobRefs := CanonicalizeRefs U (BlobRefs env0)\<rparr>)) (d_envs d)\<rparr>)
       p kd k (ExpiresAtUnixMs env0) = Inr d'"
  shows "db_invR R d'"
  by (rule put_env_inv [OF inv refl refl _ _ v,
        where env = "env0\<lparr>BlobRefs := CanonicalizeRefs U (BlobRefs env0)\<rparr>"])
     (use diff tx upd in simp_all)

theorem PutEnvelope_inv:
  assumes inv: "db_invR R d"
  shows "db_invR R (snd (PutEnvelope U mar d p kd k envp))"
proof (cases "ValidateEnvelope U envp")
  case (Inr u)
  show ?thesis
    unfolding PutEnvelope_def Inr sum.case Let_def if_distrib [of snd]
    by (simp only: split: if_split, intro conjI impI, use inv in simp,
        rule batch_inv [OF inv], intro rpost_intros, clarsimp simp: tx_simps,
        rule put_canon_inv [OF inv]; assumption)
qed (use inv in \<open>simp add: PutEnvelope_def\<close>)

lemma removeEnvelopeExpiryIndex_del_inv:
  assumes inv: "db_invR R d" and ck: "ck = makeEnvelopeKey p kd k"
    and dec: "\<And>h. bget b h = map_option (map_cell (decRef ^^ count_list (getRefs (d_env_refs d) ck) h))
                (bget (d_blobs d) h)"
    and wfb: "wf_bucket b"
    and rm: "removeEnvelopeExpiryIndex
               (d\<lparr>d_blobs := b, d_env_refs := bdelete ck (d_env_refs d)\<rparr>) p kd k = Inr d1"
  shows "db_invR R (d1\<lparr>d_envs := bdelete ck (d_envs d1)\<rparr>)"
proof -
  let ?d = "d\<lparr>d_blobs := b, d_env_refs := bdelete ck (d_env_refs d)\<rparr>"
  have i: "env_idx d" using inv by (rule db_inv_parts)
  obtain fwd rv where d1: "d1 = ?d\<lparr>d_env_by_expiry := fwd, d_env_expiry_by_key := rv\<rparr>"
    and idx: "idx_ok fwd rv" "wf_bucket fwd" "wf_bucket rv"
    and rv: "\<And>c. bget rv c = (if c = ck then None else bget (d_env_expiry_by_key d) c)"
    by (rule updateEnvelopeExpiryIndex_Inr [OF rm [unfolded removeEnvelopeExpiryIndex_def]])
       (use i ck in \<open>auto simp: env_idx_def expiryTs_def\<close>)
  show ?thesis
    by (rule del_env_inv [OF inv ck dec wfb idx rv]) (simp_all add: d1)
qed

lemma decrementAll_facts:
  assumes "decrementAll b rs = Inr b'" and "wf_bucket b"
  shows "wf_bucket b'" "bget b' h = map_option (map_cell (decRef ^^ count_list rs h)) (bget b h)"
  using assms decrementAll_wf decrementAll_bget by auto

theorem DeleteEnvelope_inv:
  assumes inv: "db_invR R d"
  shows "db_invR R (snd (DeleteEnvelope d p kd k))"
proof -
  have wf: "wf_bucket (d_blobs d)" using inv by (simp add: inv_defs)
  show ?thesis
    unfolding DeleteEnvelope_def Let_def
    by (rule batch_inv [OF inv], intro rpost_intros, simp,
        rule removeEnvelopeExpiryIndex_del_inv [OF inv refl decrementAll_facts(2) [OF _ wf]
          decrementAll_facts(1) [OF _ wf]]; assumption)
qed

theorem UpdateEnvelope_inv:
  assumes inv: "db_invR R d"
  shows "db_invR R (snd (UpdateEnvelope U mar d p kd k fn))"
proof -
  have wf: "wf_bucket (d_blobs d)" using inv by (simp add: inv_defs)
  show ?thesis
    unfolding UpdateEnvelope_def Let_def
    apply (rule batch_inv [OF inv], intro rpost_intros; clarsimp simp: tx_simps)
    subgoal
      by (erule removeEnvelopeExpiryIndex_del_inv [OF inv refl decrementAllLogged_bget [OF wf]
            decrementAllLogged_wf [OF wf]])
    subgoal by (rule put_canon_inv [OF inv])
    done
qed

theorem DeleteExpiredEnvelope_inv:
  assumes inv: "db_invR R d"
  shows "db_invR R (snd (DeleteExpiredEnvelope d x))"
proof -
  let ?ck = "makeEnvelopeKey (xe_Protocol x) (xe_Kind x) (xe_Key x)"
  let ?ts = "encodeTimestamp (xe_ExpiresAt x)"
  have i: "env_idx d" "wf_bucket (d_blobs d)" using inv by (simp_all add: inv_defs)
  have "db_invR R (d\<lparr>d_blobs := b, d_env_refs := bdelete ?ck (d_env_refs d),
                  d_env_by_expiry := bdelete (?ts @ ?ck) (d_env_by_expiry d),
                  d_env_expiry_by_key := bdelete ?ck (d_env_expiry_by_key d),
                  d_envs := bdelete ?ck (d_envs d)\<rparr>)"
    if dec: "decrementAll (d_blobs d) (getRefs (d_env_refs d) ?ck) = Inr b"
      and ts: "bget (d_env_expiry_by_key d) ?ck = Some ?ts" for b
  proof (rule del_env_inv [OF inv refl])
    show "idx_ok (bdelete (?ts @ ?ck) (d_env_by_expiry d)) (bdelete ?ck (d_env_expiry_by_key d))"
      using i(1) ts by (intro idx_ok_remove) (simp_all add: env_idx_def)
  qed (use i decrementAll_facts [OF dec] in \<open>auto simp: env_idx_def\<close>)
  then show ?thesis
    unfolding DeleteExpiredEnvelope_def Let_def makeEnvelopeExpiryKey_eq
    by (intro batch_inv [OF inv] rpost_intros) (auto simp: inv)
qed

section \<open>Preservation: protocol metadata\<close>

theorem PutMeta_inv:
  assumes inv: "db_invR R d"
  shows "db_invR R (snd (PutMeta now d p k data ttl))"
proof -
  have "wf_bucket (d_meta d)" using inv by (simp add: inv_defs)
  then show ?thesis
    unfolding PutMeta_def
    by (intro batch_inv [OF inv] rpost_intros)
       (auto simp: tx_simps intro!: db_inv_set_meta [OF inv] elim!: updateMetaExpiryIndex_inv)
qed

theorem UpdateJSON_inv:
  assumes inv: "db_invR R d"
  shows "db_invR R (snd (UpdateJSON dec enc now d p k ttl fn v0))"
proof -
  have "wf_bucket (d_meta d)" using inv by (simp add: inv_defs)
  then show ?thesis
    unfolding UpdateJSON_def Let_def
    by (intro batch_inv [OF inv] rpost_intros)
       (auto simp: tx_simps intro!: db_inv_set_meta [OF inv] elim!: updateMetaExpiryIndex_inv)
qed

theorem DeleteMeta_inv:
  assumes inv: "db_invR R d"
  shows "db_invR R (snd (DeleteMeta d p k))"
  unfolding DeleteMeta_def
  by (intro batch_inv [OF inv] rpost_intros)
     (auto simp: removeMetaExpiryIndex_def inv_defs intro!: db_inv_set_meta
       dest!: updateMetaExpiryIndex_inv [OF _ inv])

lemma diffRefs_eq: "diffRefs = DiffRefs"
  by (simp add: diffRefs_def DiffRefs_def fun_eq_iff)

theorem PutMetaWithRefs_inv:
  assumes inv: "db_invR R d" and dist: "single_refs R refs"
  shows "db_invR R (snd (PutMetaWithRefs now d p k data ttl refs))"
proof -
  let ?ck = "makeProtocolKey p k"
  have i: "wf_bucket (d_blobs d)" "wf_bucket (d_meta_refs d)" "counts_ok R (d_blobs d) (refsTo d)"
    "meta_rows R d" using inv by (simp_all add: inv_defs)
  have stored: "db_invR R (d\<lparr>d_blobs := b2, d_meta_refs := bset ?ck (Good refs) (d_meta_refs d),
                     d_meta := bset ?ck data (d_meta d)\<rparr>)" (is "db_invR R ?d'")
    if inc: "incrementAll (d_blobs d) added = Inr b1" and dec: "decrementAll b1 removed = Inr b2"
      and diff: "DiffRefs (getRefs (d_meta_refs d) ?ck) refs = (added, removed)" and v: "valid_key ?ck"
    for added removed b1 b2
  proof -
    have "counts_ok R b2 (refsTo ?d')"
    proof (rule counts_ok_diff [OF i(3)])
      show "incrementAll (d_blobs d) (fst (DiffRefs (getRefs (d_meta_refs d) ?ck) refs)) = Inr b1"
        "decrementAll b1 (snd (DiffRefs (getRefs (d_meta_refs d) ?ck) refs)) = Inr b2"
        using inc dec by (simp_all add: diff)
      show "refsTo ?d' h + count_list (getRefs (d_meta_refs d) ?ck) h = refsTo d h + count_list refs h" for h
        using refCount_bset [OF i(2), of ?ck refs h] by (simp add: refsTo_def)
    qed (use dist meta_rows_refs [OF i(4)] in simp_all)
    moreover have "wf_bucket b2" using inc dec i(1) by (auto dest: incrementAll_wf decrementAll_wf)
    ultimately show ?thesis using inv v dist by (auto simp: inv_defs)
  qed
  show ?thesis
    unfolding PutMetaWithRefs_def Let_def diffRefs_eq
    by (rule batch_inv [OF inv], intro rpost_intros; clarsimp simp: tx_simps)
       (rule updateMetaExpiryIndex_inv, assumption, rule stored; assumption)
qed

lemma deleteMetaWithRefsInTx_inv:
  assumes inv: "db_invR R d"
  shows "rpost (deleteMetaWithRefsInTx d p k) (db_invR R)"
proof -
  let ?ck = "makeProtocolKey p k"
  let ?b = "decrementAllLogged (d_blobs d) (getRefs (d_meta_refs d) ?ck)"
  have i: "wf_bucket (d_blobs d)" "wf_bucket (d_meta_refs d)" "counts_ok R (d_blobs d) (refsTo d)"
    using inv by (simp_all add: inv_defs)
  let ?d = "d\<lparr>d_blobs := ?b, d_meta_refs := bdelete ?ck (d_meta_refs d)\<rparr>"
  have "counts_ok R ?b (refsTo ?d)"
  proof (rule counts_ok_decrement [OF i(3) decrementAllLogged_bget [OF i(1)]])
    show "refsTo ?d h + count_list (getRefs (d_meta_refs d) ?ck) h = refsTo d h" for h
      using refCount_bdelete [OF i(2), of ?ck h] by (simp add: refsTo_def)
  qed
  then have stored: "db_invR R ?d"
    using inv decrementAllLogged_wf [OF i(1)] by (auto simp: inv_defs)
  have "db_invR R (x\<lparr>d_meta := bdelete ?ck (d_meta x)\<rparr>)" if "db_invR R x" for x
    using that by (rule db_inv_set_meta) (use that in \<open>auto simp: inv_defs\<close>)
  then show ?thesis
    unfolding deleteMetaWithRefsInTx_def Let_def removeMetaExpiryIndex_def
    using updateMetaExpiryIndex_inv [OF _ stored] by (intro rpost_intros) blast
qed

theorem DeleteMetaWithRefs_inv:
  assumes inv: "db_invR R d"
  shows "db_invR R (snd (DeleteMetaWithRefs d p k))"
  unfolding DeleteMetaWithRefs_def
  by (rule batch_inv [OF inv], intro rpost_intros)
     (auto dest: rpostD [OF deleteMetaWithRefsInTx_inv [OF inv]])

theorem DeleteExpiredMetaWithRefs_inv:
  assumes inv: "db_invR R d"
  shows "db_invR R (snd (DeleteExpiredMetaWithRefs d x))"
  unfolding DeleteExpiredMetaWithRefs_def
  by (rule batch_inv [OF inv], intro rpost_intros)
     (auto simp: inv dest: rpostD [OF deleteMetaWithRefsInTx_inv [OF inv]])

section \<open>Preservation: the blob table\<close>

lemma db_inv_set_blobs:
  "db_invR R d \<Longrightarrow> wf_bucket b \<Longrightarrow> counts_ok R b (refsTo d) \<Longrightarrow> db_invR R (d\<lparr>d_blobs := b\<rparr>)"
  by (simp add: inv_defs)

theorem PutBlob_inv:
  assumes inv: "db_invR R d" and count: "be_Hash e \<in> R \<or> be_RefCount e = int (refsTo d (be_Hash e))"
  shows "db_invR R (snd (PutBlob d e))"
proof -
  have "wf_bucket (d_blobs d)" "counts_ok R (d_blobs d) (refsTo d)" using inv by (simp_all add: inv_defs)
  then show ?thesis
    unfolding PutBlob_def
    using count by (intro batch_inv [OF inv] rpost_intros)
       (auto simp: tx_simps counts_ok_def intro!: db_inv_set_blobs [OF inv])
qed

lemma modifyBlob_Inr:
  assumes "modifyBlob f b h = Inr (e', b')"
  obtains e where "bget b h = Some (Good e)" "e' = f e" "valid_key h" "b' = bset h (Good (f e)) b"
  using assms by (auto simp: modifyBlob_def tx_unfold split: option.splits cell.splits)

lemma modifyBlob_inv:
  assumes inv: "db_invR R d" and h: "h \<in> R"
  shows "rpost (modifyBlob f (d_blobs d) h) (\<lambda>(e, b). db_invR R (d\<lparr>d_blobs := b\<rparr>))"
proof (rule rpostI, clarsimp)
  fix e' b' assume "modifyBlob f (d_blobs d) h = Inr (e', b')"
  then obtain e where "valid_key h" "b' = bset h (Good (f e)) (d_blobs d)"
    by (rule modifyBlob_Inr)
  moreover have "wf_bucket (d_blobs d)" "counts_ok R (d_blobs d) (refsTo d)" using inv by (simp_all add: inv_defs)
  ultimately show "db_invR R (d\<lparr>d_blobs := b'\<rparr>)"
    using h by (auto simp: counts_ok_def intro!: db_inv_set_blobs [OF inv])
qed

text \<open>The direct increments and decrements keep no book of their own.\<close>

theorem IncrementBlobRef_inv:
  assumes "db_invR R d" and "h \<in> R"
  shows "db_invR R (snd (IncrementBlobRef d h))"
  unfolding IncrementBlobRef_def
  by (intro batch_inv [OF assms(1)] rpost_intros) (auto dest: rpostD [OF modifyBlob_inv [OF assms]])

theorem DecrementBlobRef_inv:
  assumes "db_invR R d" and "h \<in> R"
  shows "db_invR R (snd (DecrementBlobRef d h))"
  unfolding DecrementBlobRef_def
  by (intro batch_inv [OF assms(1)] rpost_intros) (auto dest: rpostD [OF modifyBlob_inv [OF assms]])

theorem DeleteBlob_inv:
  assumes inv: "db_invR R d"
  shows "db_invR R (snd (DeleteBlob d h))"
proof -
  have "wf_bucket (d_blobs d)" "counts_ok R (d_blobs d) (refsTo d)" using inv by (simp_all add: inv_defs)
  then show ?thesis
    by (auto simp: DeleteBlob_def counts_ok_def intro!: db_inv_set_blobs [OF inv])
qed

lemma touch_RefCount [simp]: "be_RefCount (touch now e) = be_RefCount e"
  by (simp add: touch_def Let_def)

theorem TouchBlob_inv:
  assumes inv: "db_invR R d"
  shows "db_invR R (snd (TouchBlob now d h))"
proof -
  have "wf_bucket (d_blobs d)" "counts_ok R (d_blobs d) (refsTo d)" using inv by (simp_all add: inv_defs)
  then show ?thesis
    unfolding TouchBlob_def
    by (intro batch_inv [OF inv] rpost_intros)
       (auto simp: counts_ok_def intro!: db_inv_set_blobs [OF inv] elim!: modifyBlob_Inr)
qed

end
