(* ===== verification/DBReach.thy ===== *)
theory DBReach
  imports DBInv
begin

text \<open>
  The database as a state machine: the operations, with any arguments, as a step relation that
  also says which counters a step sets apart from the account of references; the states reached
  from \<open>createBuckets\<close>; and what the invariant gives the readers: the expiry queries return
  exactly the expired entries, and counting references counts the envelopes and lists.
\<close>

section \<open>Steps\<close>

text \<open>
  Each operation is one transaction, so any interleaving of callers is a sequence of steps, with
  any arguments. A step carries the set of the blobs whose counter it does not keep in step with
  the recorded references: an entry put with another counter than the accounting has, a direct
  increment or decrement, a reference repeated in a list of the legacy interface, which keeps
  the repetition (\<open>UpdateJSON\<close> is taken at byte strings, which encode the values of every type).
\<close>

text \<open>Writing an entry keeps the accounting when it has the counter of the entry it replaces
  (\<open>s3fifo.go\<close> writes back an entry it has read) or when it is zero and no row of references
  names the blob (the store writes new content so).\<close>

fun putKeepsCount :: "blob_entry cell option \<Rightarrow> nat \<Rightarrow> blob_entry \<Rightarrow> bool" where
  "putKeepsCount (Some (Good old)) n e = (be_RefCount e = be_RefCount old \<or> be_RefCount e = 0 \<and> n = 0)"
| "putKeepsCount _ n e = (be_RefCount e = 0 \<and> n = 0)"

definition putWrites :: "db \<Rightarrow> blob_entry \<Rightarrow> string set" where
  "putWrites d e =
     (if putKeepsCount (bget (d_blobs d) (be_Hash e)) (refsTo d (be_Hash e)) e then {} else {be_Hash e})"

definition repeated :: "string list \<Rightarrow> string set" where
  "repeated rs = {h \<in> set rs. 1 < count_list rs h}"

inductive db_step ::
  "(string \<Rightarrow> string) \<Rightarrow> (envelope \<Rightarrow> bool) \<Rightarrow> db \<Rightarrow> string set \<Rightarrow> db \<Rightarrow> bool"
  for U :: "string \<Rightarrow> string" and mar :: "envelope \<Rightarrow> bool" where
  step_PutMeta: "db_step U mar d {} (snd (PutMeta now d p k data ttl))"
| step_DeleteMeta: "db_step U mar d {} (snd (DeleteMeta d p k))"
| step_UpdateJSON:
    "db_step U mar d {} (snd (UpdateJSON (dec :: bytes \<Rightarrow> bytes option) enc now d p k ttl fn v0))"
| step_PutMetaWithRefs: "db_step U mar d (repeated refs) (snd (PutMetaWithRefs now d p k data ttl refs))"
| step_DeleteMetaWithRefs: "db_step U mar d {} (snd (DeleteMetaWithRefs d p k))"
| step_DeleteExpiredMeta: "db_step U mar d {} (snd (DeleteExpiredMetaWithRefs d x))"
| step_PutBlob: "db_step U mar d (putWrites d e) (snd (PutBlob d e))"
| step_IncrementBlobRef: "db_step U mar d {h} (snd (IncrementBlobRef d h))"
| step_DecrementBlobRef: "db_step U mar d {h} (snd (DecrementBlobRef d h))"
| step_DeleteBlob: "db_step U mar d {} (snd (DeleteBlob d h))"
| step_TouchBlob: "db_step U mar d {} (snd (TouchBlob now d h))"
| step_PutEnvelope: "db_step U mar d {} (snd (PutEnvelope U mar d p kd k envp))"
| step_DeleteEnvelope: "db_step U mar d {} (snd (DeleteEnvelope d p kd k))"
| step_UpdateEnvelope: "db_step U mar d {} (snd (UpdateEnvelope U mar d p kd k fn))"
| step_DeleteExpiredEnvelope: "db_step U mar d {} (snd (DeleteExpiredEnvelope d y))"

inductive_cases db_stepE: "db_step U mar d A d'"

text \<open>Runs from the created database; \<open>R\<close> collects the labels.\<close>

inductive db_runs ::
  "(string \<Rightarrow> string) \<Rightarrow> (envelope \<Rightarrow> bool) \<Rightarrow> string set \<Rightarrow> db \<Rightarrow> bool"
  for U :: "string \<Rightarrow> string" and mar :: "envelope \<Rightarrow> bool" where
  runs_init: "db_runs U mar {} createBuckets"
| runs_step: "db_runs U mar R d \<Longrightarrow> db_step U mar d A d' \<Longrightarrow> db_runs U mar (R \<union> A) d'"

definition db_reach :: "(string \<Rightarrow> string) \<Rightarrow> (envelope \<Rightarrow> bool) \<Rightarrow> db \<Rightarrow> bool" where
  "db_reach U mar d \<longleftrightarrow> (\<exists>R. db_runs U mar R d)"

lemma runs_quiet: "db_runs U mar R d \<Longrightarrow> db_step U mar d {} d' \<Longrightarrow> db_runs U mar R d'"
  using runs_step [of U mar R d "{}" d'] by simp

lemma reach_init: "db_reach U mar createBuckets"
  unfolding db_reach_def by (rule exI) (rule runs_init)

lemma reach_step: "db_reach U mar d \<Longrightarrow> db_step U mar d A d' \<Longrightarrow> db_reach U mar d'"
  unfolding db_reach_def by (blast intro: runs_step)

lemma db_reach_induct [consumes 1, case_names reach_init reach_step]:
  assumes "db_reach U mar d" and "P createBuckets"
    and "\<And>d A d'. db_reach U mar d \<Longrightarrow> db_step U mar d A d' \<Longrightarrow> P d \<Longrightarrow> P d'"
  shows "P d"
proof -
  from assms(1) obtain R where "db_runs U mar R d" unfolding db_reach_def ..
  then show ?thesis
  proof (induction rule: db_runs.induct)
    case (runs_step R d A d')
    then have "db_reach U mar d" unfolding db_reach_def by (intro exI)
    then show ?case using runs_step.hyps(2) runs_step.IH by (rule assms(3))
  qed (rule assms(2))
qed

lemmas op_invs = PutMeta_inv DeleteMeta_inv UpdateJSON_inv PutMetaWithRefs_inv DeleteMetaWithRefs_inv
  DeleteExpiredMetaWithRefs_inv PutBlob_inv IncrementBlobRef_inv DecrementBlobRef_inv DeleteBlob_inv
  TouchBlob_inv PutEnvelope_inv DeleteEnvelope_inv UpdateEnvelope_inv DeleteExpiredEnvelope_inv

lemma single_refs_repeated: "repeated refs \<subseteq> R \<Longrightarrow> single_refs R refs"
  unfolding single_refs_def repeated_def
  by (metis (mono_tags, lifting) count_list_0_iff linorder_not_le mem_Collect_eq not_less_zero subsetD)

lemma putWrites_count:
  assumes "db_invR R d" and "putWrites d e \<subseteq> R"
  shows "be_Hash e \<in> R \<or> be_RefCount e = int (refsTo d (be_Hash e))"
proof (cases "bget (d_blobs d) (be_Hash e)")
  case (Some c)
  then show ?thesis
    using assms by (cases c) (auto simp: putWrites_def inv_defs counts_ok_def split: if_splits)
qed (use assms in \<open>auto simp: putWrites_def split: if_splits\<close>)

lemma db_step_inv: "db_step U mar d A d' \<Longrightarrow> db_invR R d \<Longrightarrow> A \<subseteq> R \<Longrightarrow> db_invR R d'"
  by (induction rule: db_step.induct) (simp_all add: op_invs single_refs_repeated putWrites_count)

lemma db_runs_inv: "db_runs U mar R d \<Longrightarrow> db_invR R d"
proof (induction rule: db_runs.induct)
  case (runs_step R d A d')
  then show ?case using db_step_inv [of U mar d A d' "R \<union> A"] db_inv_mono [of R d "R \<union> A"] by simp
qed (rule db_inv_createBuckets)

lemma db_reach_inv: "db_reach U mar d \<Longrightarrow> db_inv d"
  unfolding db_reach_def by (blast dest: db_runs_inv intro: db_inv_structural)

section \<open>Readers\<close>

lemma goodEntries_in: "(k, e) \<in> set (goodEntries xs) \<longleftrightarrow> (k, Good e) \<in> set xs"
  by (induction xs rule: goodEntries.induct) auto

lemma set_limitTo: "set (limitTo n xs) \<subseteq> set xs"
  by (auto simp: limitTo_def dest: in_set_takeD)

lemma GetUnreferencedBlobs_in:
  assumes "wf_bucket (d_blobs d)" and "h \<in> set (GetUnreferencedBlobs d before limit)"
  obtains e where "bget (d_blobs d) h = Some (Good e)" "unreferenced before e"
  using assms set_limitTo [of limit]
  by (fastforce simp: GetUnreferencedBlobs_def goodEntries_in bget_Some_iff)

lemma refsTo_createBuckets [simp]: "refsTo createBuckets h = 0"
  by (simp add: refsTo_def refCount_def createBuckets_def bsum_def empty_bucket_def)

lemma refsTo_env:
  assumes "db_inv d" and "bget (d_envs d) ck = Some (Good env)" and "h \<in> set (BlobRefs env)"
  shows "0 < refsTo d h"
proof -
  have "env_row ck (Some (Good env)) (bget (d_env_refs d) ck) (bget (d_env_expiry_by_key d) ck)"
    using assms by (metis db_inv_parts(4) env_rows_def)
  then have "getRefs (d_env_refs d) ck = BlobRefs env"
    by (simp add: env_row_def getRefs_def)
  moreover have "0 < count_list (BlobRefs env) h"
    using assms(3) by (metis count_list_0_iff not_gr_zero)
  ultimately show ?thesis
    using count_getRefs_le [of "d_env_refs d" ck h] by (simp add: refsTo_def)
qed

lemma GetBlob_Inr: "GetBlob d h = Inr e \<longleftrightarrow> bget (d_blobs d) h = Some (Good e)"
  by (auto simp: GetBlob_def split: option.splits cell.splits)

lemma GetEnvelope_Inr:
  "GetEnvelope d p kd k = Inr env \<longleftrightarrow> bget (d_envs d) (makeEnvelopeKey p kd k) = Some (Good env)"
  by (auto simp: GetEnvelope_def split: option.splits cell.splits)

lemma GetUnreferencedBlobs_all:
  "wf_bucket (d_blobs d) \<Longrightarrow> limit \<le> 0 \<Longrightarrow>
   set (GetUnreferencedBlobs d before limit) = {h. \<exists>e. bget (d_blobs d) h = Some (Good e) \<and> unreferenced before e}"
  by (force simp: GetUnreferencedBlobs_def limitTo_def goodEntries_in bget_Some_iff)

section \<open>Expired envelopes\<close>

lemma take_mono_lex: "(xs :: bytes) \<le> ys \<Longrightarrow> take n xs \<le> take n ys"
proof (induction n arbitrary: xs ys)
  case (Suc n)
  then show ?case by (cases xs; cases ys) auto
qed simp

lemma takeWhile_prefix_less:
  assumes "sorted_wrt (<) (map fst (xs :: (bytes \<times> 'v) list))"
  shows "set (takeWhile (\<lambda>e. take n (fst e) < b) xs) = {e \<in> set xs. take n (fst e) < b}"
  using assms
proof (induction xs)
  case (Cons x xs)
  have "take n (fst x) \<le> take n (fst y)" if "y \<in> set xs" for y
    using Cons.prems that by (intro take_mono_lex) (auto intro: less_imp_le)
  with Cons show ?case by (fastforce dest: le_less_trans)
qed simp

definition expiryEntryOf :: "string \<Rightarrow> string \<Rightarrow> string \<Rightarrow> envelope \<Rightarrow> envelope_expiry_entry" where
  "expiryEntryOf p kd k env =
     \<lparr>xe_Protocol = p, xe_Kind = kd, xe_Key = k, xe_ExpiresAt = time_UnixMilli (ExpiresAtUnixMs env)\<rparr>"

lemma expired_index_row:
  assumes inv: "db_inv d" and env: "bget (d_envs d) ck = Some (Good env)"
    and pos: "0 < ExpiresAtUnixMs env"
  shows "(encodeTimestamp (time_UnixMilli (ExpiresAtUnixMs env)) @ ck, ck)
           \<in> set (entries (d_env_by_expiry d))"
proof -
  let ?ts = "encodeTimestamp (time_UnixMilli (ExpiresAtUnixMs env))"
  have "env_row ck (Some (Good env)) (bget (d_env_refs d) ck) (bget (d_env_expiry_by_key d) ck)"
    using inv env by (metis db_inv_parts(4) env_rows_def)
  then have "bget (d_env_expiry_by_key d) ck = Some ?ts"
    using pos by (simp add: env_row_def expiryTs_def)
  then have "bget (d_env_by_expiry d) (?ts @ ck) = Some ck"
    using db_inv_parts(2) [OF inv] idx_ok_fwd [of "d_env_by_expiry d" "d_env_expiry_by_key d" "?ts @ ck"]
    by (simp add: env_idx_def)
  then show ?thesis by (rule bget_Some_in)
qed

lemma expired_index_in:
  assumes inv: "db_inv d" and row: "(key, v) \<in> set (entries (d_env_by_expiry d))"
  obtains ck env where "key = encodeTimestamp (time_UnixMilli (ExpiresAtUnixMs env)) @ ck"
    and "bget (d_envs d) ck = Some (Good env)" and "0 < ExpiresAtUnixMs env"
proof -
  have i: "idx_ok (d_env_by_expiry d) (d_env_expiry_by_key d)" "wf_bucket (d_env_by_expiry d)"
    "env_rows d" using inv by (simp_all add: inv_defs)
  have "bget (d_env_by_expiry d) key = Some v" using i(2) row by (simp add: bget_Some_iff)
  then have rv: "8 \<le> length key" "bget (d_env_expiry_by_key d) (drop 8 key) = Some (take 8 key)"
    using idx_ok_fwd [OF i(1), of key] by (auto split: if_splits)
  have "env_row (drop 8 key) (bget (d_envs d) (drop 8 key)) (bget (d_env_refs d) (drop 8 key)) (Some (take 8 key))"
    using i(3) rv(2) by (metis env_rows_def)
  then obtain env where env: "bget (d_envs d) (drop 8 key) = Some (Good env)"
    "expiryTs (ExpiresAtUnixMs env) = Some (take 8 key)"
    by (auto simp: env_row_def split: option.splits cell.splits)
  then have "0 < ExpiresAtUnixMs env"
    "encodeTimestamp (time_UnixMilli (ExpiresAtUnixMs env)) = take 8 key"
    by (auto simp: expiryTs_def split: if_splits)
  with env show thesis using that [of env "drop 8 key"] by simp
qed

lemma GetExpiredEnvelopes_all:
  assumes "wf_bucket (d_env_by_expiry d)" and "int (keyN (d_env_by_expiry d)) \<le> limit"
  shows "set (GetExpiredEnvelopes d before limit) =
    (\<lambda>e. case parseEnvelopeExpiryKey (fst e) of
        (t, p, kd, k) \<Rightarrow> \<lparr>xe_Protocol = p, xe_Kind = kd, xe_Key = k, xe_ExpiresAt = t\<rparr>) `
      {e \<in> set (entries (d_env_by_expiry d)). take 8 (fst e) < encodeTimestamp before}"
proof -
  let ?P = "\<lambda>e :: bytes \<times> bytes. take 8 (fst e) < encodeTimestamp before"
  have "length (takeWhile ?P (entries (d_env_by_expiry d))) \<le> nat limit"
    using assms(2) length_takeWhile_le [of ?P "entries (d_env_by_expiry d)"]
    unfolding keyN_def by linarith
  then show ?thesis
    using assms(1)
    by (simp add: GetExpiredEnvelopes_def case_prod_unfold takeWhile_prefix_less wf_bucket_def)
qed

text \<open>Every stored expiry lies in the years the 64-bit nanosecond clock covers.\<close>

definition expiries_in_range :: "db \<Rightarrow> bool" where
  "expiries_in_range d \<longleftrightarrow>
     (\<forall>ck env. bget (d_envs d) ck = Some (Good env) \<longrightarrow> nano_range (time_UnixMilli (ExpiresAtUnixMs env)))"

lemma parse_index_key:
  "length ts = 8 \<Longrightarrow>
   parseEnvelopeExpiryKey (ts @ makeEnvelopeKey p kd k) =
     (decodeTimestamp ts, parseEnvelopeKey (makeEnvelopeKey p kd k))"
  by (simp add: parseEnvelopeExpiryKey_def makeEnvelopeKey_def)

lemma GetExpiredEnvelopes_exact:
  assumes inv: "db_inv d" and rng: "expiries_in_range d" and b: "nano_range before"
    and lim: "int (keyN (d_env_by_expiry d)) \<le> limit"
  shows "set (GetExpiredEnvelopes d before limit) =
    {expiryEntryOf p kd k env | p kd k env.
       sep \<notin> set p \<and> sep \<notin> set kd \<and> bget (d_envs d) (makeEnvelopeKey p kd k) = Some (Good env)
       \<and> 0 < ExpiresAtUnixMs env \<and> time_UnixMilli (ExpiresAtUnixMs env) < before}"
    (is "_ = ?R")
proof -
  have wf: "wf_bucket (d_env_by_expiry d)" using inv by (simp add: inv_defs)
  let ?f = "\<lambda>e :: bytes \<times> bytes. case parseEnvelopeExpiryKey (fst e) of
        (t, p, kd, k) \<Rightarrow> \<lparr>xe_Protocol = p, xe_Kind = kd, xe_Key = k, xe_ExpiresAt = t\<rparr>"
  let ?E = "{e \<in> set (entries (d_env_by_expiry d)). take 8 (fst e) < encodeTimestamp before}"
  have "?f e \<in> ?R" if eE: "e \<in> ?E" for e
  proof -
    obtain key v where e: "e = (key, v)" by (cases e)
    obtain ck env where ck: "key = encodeTimestamp (time_UnixMilli (ExpiresAtUnixMs env)) @ ck"
      "bget (d_envs d) ck = Some (Good env)" "0 < ExpiresAtUnixMs env"
      by (rule expired_index_in [OF inv, of key v]) (use eE e in auto)
    let ?t = "time_UnixMilli (ExpiresAtUnixMs env)"
    have t: "nano_range ?t" using rng ck(2) by (simp add: expiries_in_range_def)
    have "env_row ck (Some (Good env)) (bget (d_env_refs d) ck) (bget (d_env_expiry_by_key d) ck)"
      using inv ck(2) by (metis db_inv_parts(4) env_rows_def)
    then obtain p kd k where mk: "ck = makeEnvelopeKey p kd k" by (auto simp: env_row_def)
    obtain p' kd' k' where pk: "parseEnvelopeKey ck = (p', kd', k')" by (cases "parseEnvelopeKey ck")
    then have m: "ck = makeEnvelopeKey p' kd' k'" "sep \<notin> set p'" "sep \<notin> set kd'"
      using make_parseEnvelopeKey [OF pk [unfolded mk]] unfolding mk by blast+
    have "parseEnvelopeExpiryKey key = (?t, p', kd', k')"
      using t m(2,3) unfolding ck(1) m(1) by (simp add: parse_index_key)
    then have "?f e = expiryEntryOf p' kd' k' env"
      by (simp add: e expiryEntryOf_def)
    moreover have "?t < before" using eE t b by (simp add: e ck(1) encodeTimestamp_less_iff)
    ultimately show ?thesis using ck m by blast
  qed
  moreover have "x \<in> ?f ` ?E" if "x \<in> ?R" for x
  proof -
    obtain p kd k env where x: "x = expiryEntryOf p kd k env" "sep \<notin> set p" "sep \<notin> set kd"
      "bget (d_envs d) (makeEnvelopeKey p kd k) = Some (Good env)" "0 < ExpiresAtUnixMs env"
      "time_UnixMilli (ExpiresAtUnixMs env) < before" using \<open>x \<in> ?R\<close> by blast
    let ?ts = "encodeTimestamp (time_UnixMilli (ExpiresAtUnixMs env))" and ?ck = "makeEnvelopeKey p kd k"
    have t: "nano_range (time_UnixMilli (ExpiresAtUnixMs env))"
      using rng x(4) by (simp add: expiries_in_range_def)
    have "(?ts @ ?ck, ?ck) \<in> ?E"
      using expired_index_row [OF inv x(4,5)] x(6) t b by (simp add: encodeTimestamp_less_iff)
    moreover have "?f (?ts @ ?ck, ?ck) = x"
      using t x(2,3) by (simp add: parse_index_key x(1) expiryEntryOf_def)
    ultimately show ?thesis by (metis (no_types, lifting) imageI)
  qed
  ultimately have "?f ` ?E = ?R" by (intro equalityI subsetI) (erule imageE, simp only:, blast)
  then show ?thesis
    unfolding GetExpiredEnvelopes_all [OF wf lim] .
qed

section \<open>Counting\<close>

lemma bsum_indicator:
  assumes wf: "wf_bucket b" and ind: "\<And>k v. bget b k = Some v \<Longrightarrow> f v = (if P v then 1 else 0)"
  shows "bsum f b = card {k. \<exists>v. bget b k = Some v \<and> P v}"
proof -
  have d: "distinct (map fst (entries b))" using wf by (rule wf_bucket_distinct)
  have "f (snd e) = (if P (snd e) then 1 else 0)" if "e \<in> set (entries b)" for e
    using ind [of "fst e" "snd e"] that wf by (simp add: bget_Some_iff)
  then have "bsum f b = sum_list (map (\<lambda>e. if P (snd e) then 1 else 0) (entries b))"
    unfolding bsum_def by (intro arg_cong [where f = sum_list] map_cong) auto
  also have "\<dots> = length (map fst (filter (\<lambda>e. P (snd e)) (entries b)))"
    by (simp add: sum_list_map_filter' [symmetric] sum_list_triv)
  also have "\<dots> = card (set (map fst (filter (\<lambda>e. P (snd e)) (entries b))))"
    using d by (intro distinct_card [symmetric] distinct_map_filter)
  also have "set (map fst (filter (\<lambda>e. P (snd e)) (entries b))) = {k. \<exists>v. bget b k = Some v \<and> P v}"
    using wf by (force simp: bget_Some_iff)
  finally show ?thesis .
qed

text \<open>The keys of the envelopes, and of the legacy metadata, that name a blob.\<close>

definition envelopesNaming :: "db \<Rightarrow> string \<Rightarrow> bytes set" where
  "envelopesNaming d h = {ck. \<exists>env. bget (d_envs d) ck = Some (Good env) \<and> h \<in> set (BlobRefs env)}"

definition metaNaming :: "db \<Rightarrow> string \<Rightarrow> bytes set" where
  "metaNaming d h = {ck. \<exists>rs. bget (d_meta_refs d) ck = Some (Good rs) \<and> h \<in> set rs}"

lemma refCount_envelopesNaming:
  assumes inv: "db_inv d"
  shows "refCount (d_env_refs d) h = card (envelopesNaming d h)"
proof -
  let ?f = "\<lambda>c. count_list (cellRefs c) h"
  have row: "env_row ck (bget (d_envs d) ck) (bget (d_env_refs d) ck) (bget (d_env_expiry_by_key d) ck)" for ck
    using inv by (simp add: inv_defs)
  have "wf_bucket (d_env_refs d)" using inv by (simp add: inv_defs)
  then have "bsum ?f (d_env_refs d) = card {ck. \<exists>c. bget (d_env_refs d) ck = Some c \<and> h \<in> set (cellRefs c)}"
  proof (rule bsum_indicator)
    fix ck c assume "bget (d_env_refs d) ck = Some c"
    then have "distinct (cellRefs c)" using row [of ck] by (auto simp: env_row_def split: option.splits cell.splits)
    then show "?f c = (if h \<in> set (cellRefs c) then 1 else 0)" by (rule count_list_distinct)
  qed
  also have "{ck. \<exists>c. bget (d_env_refs d) ck = Some c \<and> h \<in> set (cellRefs c)} = envelopesNaming d h"
  proof (rule set_eqI)
    show "ck \<in> {ck. \<exists>c. bget (d_env_refs d) ck = Some c \<and> h \<in> set (cellRefs c)} \<longleftrightarrow> ck \<in> envelopesNaming d h" for ck
      using row [of ck] by (auto simp: envelopesNaming_def env_row_def split: option.splits cell.splits)
  qed
  finally show ?thesis by (simp add: refCount_def)
qed

lemma refsTo_card:
  assumes inv: "db_invR R d" and h: "h \<notin> R"
  shows "refsTo d h = card (envelopesNaming d h) + card (metaNaming d h)"
proof -
  let ?f = "\<lambda>c. count_list (cellRefs c) h"
  have good: "\<exists>rs. c = Good rs \<and> single_refs R rs" if "bget (d_meta_refs d) ck = Some c" for ck c
    using inv that by (auto simp: inv_defs)
  have "wf_bucket (d_meta_refs d)" using inv by (simp add: inv_defs)
  then have "bsum ?f (d_meta_refs d) = card {ck. \<exists>c. bget (d_meta_refs d) ck = Some c \<and> h \<in> set (cellRefs c)}"
    by (rule bsum_indicator) (auto dest!: good simp: count_list_single [OF _ h])
  also have "{ck. \<exists>c. bget (d_meta_refs d) ck = Some c \<and> h \<in> set (cellRefs c)} = metaNaming d h"
    by (force simp: metaNaming_def dest: good)
  finally show ?thesis
    using refCount_envelopesNaming [OF db_inv_structural [OF inv]] by (simp add: refsTo_def refCount_def)
qed

end
