(* ===== verification/EnvelopeSpec.thy ===== *)
theory EnvelopeSpec
  imports DBReach
begin

text \<open>
  What the envelope operations of the database promise: they implement a map from
  (protocol, kind, key) to envelopes. Storing inserts the envelope with canonical references,
  deleting removes it, an update applies the callback to the stored value, and an operation
  that returns an error changes nothing. Protocol and kind are names without a NUL byte, the
  separator of the compound keys.
\<close>

type_synonym env_id = "string \<times> string \<times> string"

definition ok_id :: "env_id \<Rightarrow> bool" where
  "ok_id i = (case i of (p, kd, k) \<Rightarrow> sep \<notin> set p \<and> sep \<notin> set kd)"

definition envKey :: "env_id \<Rightarrow> bytes" where
  "envKey i = (case i of (p, kd, k) \<Rightarrow> makeEnvelopeKey p kd k)"

definition canonEnv :: "(string \<Rightarrow> string) \<Rightarrow> envelope \<Rightarrow> envelope" where
  "canonEnv U env = env\<lparr>BlobRefs := CanonicalizeRefs U (BlobRefs env)\<rparr>"

text \<open>The abstract value of the database: the map of its envelopes.\<close>

definition absEnvs :: "db \<Rightarrow> env_id \<rightharpoonup> envelope" where
  "absEnvs d i =
     (if ok_id i then case bget (d_envs d) (envKey i) of Some (Good e) \<Rightarrow> Some e | _ \<Rightarrow> None else None)"

lemma envKey_inject: "ok_id i \<Longrightarrow> ok_id j \<Longrightarrow> envKey i = envKey j \<longleftrightarrow> i = j"
  by (cases i; cases j) (auto simp: ok_id_def envKey_def makeEnvelopeKey_inject)

lemma absEnvs_cong: "d_envs d' = d_envs d \<Longrightarrow> absEnvs d' = absEnvs d"
  by (simp add: absEnvs_def fun_eq_iff)

lemma absEnvs_bset:
  "ok_id i \<Longrightarrow> d_envs d' = bset (envKey i) (Good e) (d_envs d) \<Longrightarrow> absEnvs d' = (absEnvs d)(i \<mapsto> e)"
  by (auto simp: absEnvs_def fun_eq_iff envKey_inject)

lemma absEnvs_bdelete:
  "ok_id i \<Longrightarrow> d_envs d' = bdelete (envKey i) (d_envs d) \<Longrightarrow> absEnvs d' = (absEnvs d)(i := None)"
  by (auto simp: absEnvs_def fun_eq_iff envKey_inject)

section \<open>Frame lemmas\<close>

lemma updateEnvelopeExpiryIndex_frame:
  assumes "updateEnvelopeExpiryIndex d p kd k ms = Inr d'"
  shows "d_envs d' = d_envs d" "d_blobs d' = d_blobs d" "d_env_refs d' = d_env_refs d"
    "d_meta d' = d_meta d" "d_meta_refs d' = d_meta_refs d"
  using assms
  by (auto simp: updateEnvelopeExpiryIndex_def tx_unfold split: option.splits if_splits)

lemma removeEnvelopeExpiryIndex_ok:
  "\<exists>d'. removeEnvelopeExpiryIndex d p kd k = Inr d'"
  by (simp add: removeEnvelopeExpiryIndex_def updateEnvelopeExpiryIndex_def Let_def)

lemma batch_fst_Inl: "fst (batch d m) = Inl e \<Longrightarrow> snd (batch d m) = d"
  by (cases m d rule: batch_cases) auto

lemma batch_Inr_iff: "batch d m = (Inr r, d') \<longleftrightarrow> m = Inr (r, d')"
  by (cases m d rule: batch_cases) auto

lemma PutEnvelope_atomic: "fst (PutEnvelope U mar d p kd k e) = Inl err \<Longrightarrow> snd (PutEnvelope U mar d p kd k e) = d"
  by (auto simp: PutEnvelope_def Let_def split: sum.splits intro: batch_fst_Inl)

lemma DeleteEnvelope_atomic: "fst (DeleteEnvelope d p kd k) = Inl err \<Longrightarrow> snd (DeleteEnvelope d p kd k) = d"
  by (simp add: DeleteEnvelope_def batch_fst_Inl)

lemma UpdateEnvelope_atomic:
  "fst (UpdateEnvelope U mar d p kd k fn) = Inl err \<Longrightarrow> snd (UpdateEnvelope U mar d p kd k fn) = d"
  by (simp add: UpdateEnvelope_def batch_fst_Inl)

lemma batch_rpost: "batch d m = (Inr r, d') \<Longrightarrow> rpost m (\<lambda>rd. P (snd rd)) \<Longrightarrow> P d'"
  by (auto simp: batch_Inr_iff rpost_def)

section \<open>Functional behaviour\<close>

text \<open>No stored envelope is corrupt. The envelope operations keep this whatever the blob rows say.\<close>

definition envs_good :: "db \<Rightarrow> bool" where
  "envs_good d \<longleftrightarrow> (\<forall>ck. bget (d_envs d) ck \<noteq> Some Corrupt)"

lemma db_inv_envs_good: "db_inv d \<Longrightarrow> envs_good d"
  unfolding envs_good_def
proof (intro allI notI)
  fix ck assume "db_inv d" "bget (d_envs d) ck = Some Corrupt"
  moreover from this have "env_row ck (bget (d_envs d) ck) (bget (d_env_refs d) ck) (bget (d_env_expiry_by_key d) ck)"
    using db_inv_parts(4) unfolding env_rows_def by blast
  ultimately show False by (simp add: env_row_def)
qed

lemma GetEnvelope_abs:
  assumes "ok_id (p, kd, k)" and "envs_good d"
  shows "GetEnvelope d p kd k = (case absEnvs d (p, kd, k) of None \<Rightarrow> Inl ErrNotFound | Some e \<Rightarrow> Inr e)"
  using assms by (auto simp: GetEnvelope_def absEnvs_def envKey_def envs_good_def split: option.splits cell.splits)

lemma PutEnvelope_envs:
  assumes "PutEnvelope U mar d p kd k (Some env) = (Inr (), d')"
  shows "d_envs d' = bset (makeEnvelopeKey p kd k) (Good (canonEnv U env)) (d_envs d)"
  using assms
  by (auto simp: PutEnvelope_def tx_unfold batch_Inr_iff canonEnv_def
      dest!: updateEnvelopeExpiryIndex_frame(1) split: sum.splits if_splits)

lemma PutEnvelope_abs:
  "ok_id (p, kd, k) \<Longrightarrow> PutEnvelope U mar d p kd k (Some env) = (Inr (), d') \<Longrightarrow>
   absEnvs d' = (absEnvs d)((p, kd, k) \<mapsto> canonEnv U env)"
  by (rule absEnvs_bset) (simp_all add: PutEnvelope_envs envKey_def)

lemma PutEnvelope_nil: "PutEnvelope U mar d p kd k None = (Inl NilEnvelope, d)"
  by (simp add: PutEnvelope_def ValidateEnvelope_def)

lemma DeleteEnvelope_envs:
  assumes "DeleteEnvelope d p kd k = (Inr (), d')"
  shows "d_envs d' = bdelete (makeEnvelopeKey p kd k) (d_envs d)"
  using assms
  by (auto simp: DeleteEnvelope_def tx_unfold batch_Inr_iff removeEnvelopeExpiryIndex_def
      dest!: updateEnvelopeExpiryIndex_frame(1))

lemma DeleteEnvelope_abs:
  "ok_id (p, kd, k) \<Longrightarrow> DeleteEnvelope d p kd k = (Inr (), d') \<Longrightarrow>
   absEnvs d' = (absEnvs d)((p, kd, k) := None)"
  by (rule absEnvs_bdelete) (simp_all add: DeleteEnvelope_envs envKey_def)

lemma UpdateEnvelope_envs:
  assumes "UpdateEnvelope U mar d p kd k fn = (Inr (), d')"
  shows "\<exists>existing.
    (bget (d_envs d) (makeEnvelopeKey p kd k) = None \<and> existing = None
       \<or> (\<exists>e. bget (d_envs d) (makeEnvelopeKey p kd k) = Some (Good e) \<and> existing = Some e))
    \<and> (fn existing = Inr None \<and> d_envs d' = bdelete (makeEnvelopeKey p kd k) (d_envs d)
       \<or> (\<exists>e. fn existing = Inr (Some e)
            \<and> d_envs d' = bset (makeEnvelopeKey p kd k) (Good (canonEnv U e)) (d_envs d)))"
  using assms unfolding UpdateEnvelope_def Let_def
  by (rule batch_rpost, intro rpost_intros)
     (fastforce simp: tx_simps removeEnvelopeExpiryIndex_def canonEnv_def
       dest: updateEnvelopeExpiryIndex_frame(1) split: option.splits cell.splits)+

lemma UpdateEnvelope_abs:
  assumes ok: "ok_id (p, kd, k)" and upd: "UpdateEnvelope U mar d p kd k fn = (Inr (), d')"
  shows "\<exists>r. fn (absEnvs d (p, kd, k)) = Inr r
    \<and> absEnvs d' = (absEnvs d)((p, kd, k) := map_option (canonEnv U) r)"
proof -
  let ?ck = "makeEnvelopeKey p kd k"
  obtain existing where ex: "bget (d_envs d) ?ck = None \<and> existing = None
       \<or> (\<exists>e. bget (d_envs d) ?ck = Some (Good e) \<and> existing = Some e)"
    and res: "fn existing = Inr None \<and> d_envs d' = bdelete ?ck (d_envs d)
       \<or> (\<exists>e. fn existing = Inr (Some e) \<and> d_envs d' = bset ?ck (Good (canonEnv U e)) (d_envs d))"
    using UpdateEnvelope_envs [OF upd] by blast
  have "absEnvs d (p, kd, k) = existing" using ex ok by (auto simp: absEnvs_def envKey_def)
  with res show ?thesis
    using absEnvs_bset [OF ok] absEnvs_bdelete [OF ok] by (auto simp: envKey_def)
qed

lemma PutEnvelope_envs_good: "envs_good d \<Longrightarrow> envs_good (snd (PutEnvelope U mar d p kd k eo))"
proof (cases "fst (PutEnvelope U mar d p kd k eo)")
  case (Inr u)
  assume d: "envs_good d"
  obtain e where e: "eo = Some e" using Inr PutEnvelope_nil by (cases eo) auto
  have "PutEnvelope U mar d p kd k (Some e) = (Inr (), snd (PutEnvelope U mar d p kd k eo))"
    using Inr e by (simp add: prod_eq_iff)
  from PutEnvelope_envs [OF this] show ?thesis using d by (simp add: envs_good_def)
qed (simp add: PutEnvelope_atomic)

lemma DeleteEnvelope_envs_good: "envs_good d \<Longrightarrow> envs_good (snd (DeleteEnvelope d p kd k))"
proof (cases "fst (DeleteEnvelope d p kd k)")
  case (Inr u)
  assume d: "envs_good d"
  have "DeleteEnvelope d p kd k = (Inr (), snd (DeleteEnvelope d p kd k))" using Inr by (simp add: prod_eq_iff)
  from DeleteEnvelope_envs [OF this] show ?thesis using d by (simp add: envs_good_def)
qed (simp add: DeleteEnvelope_atomic)

lemma UpdateEnvelope_envs_good: "envs_good d \<Longrightarrow> envs_good (snd (UpdateEnvelope U mar d p kd k fn))"
proof (cases "fst (UpdateEnvelope U mar d p kd k fn)")
  case (Inr u)
  assume d: "envs_good d"
  have "UpdateEnvelope U mar d p kd k fn = (Inr (), snd (UpdateEnvelope U mar d p kd k fn))"
    using Inr by (simp add: prod_eq_iff)
  from UpdateEnvelope_envs [OF this] show ?thesis using d by (auto simp: envs_good_def split: if_splits)
qed (simp add: UpdateEnvelope_atomic)

section \<open>When the operations succeed\<close>

definition blobs_good :: "blob_entry cell bucket \<Rightarrow> bool" where
  "blobs_good b \<longleftrightarrow> wf_bucket b \<and> (\<forall>h. bget b h \<noteq> Some Corrupt)"

lemma incrementBlobRefInTx_good:
  "blobs_good b \<Longrightarrow> \<exists>b'. incrementBlobRefInTx b h = Inr b' \<and> blobs_good b'"
  using bget_valid_key [of b h]
  by (auto simp: blobs_good_def incrementBlobRefInTx_def bolt_def split: option.splits cell.splits)

lemma decrementBlobRefInTx_good:
  "blobs_good b \<Longrightarrow> \<exists>b'. decrementBlobRefInTx b h = Inr b' \<and> blobs_good b'"
  using bget_valid_key [of b h]
  by (auto simp: blobs_good_def decrementBlobRefInTx_def bolt_def split: option.splits cell.splits)

lemma incrementAll_good: "blobs_good b \<Longrightarrow> \<exists>b'. incrementAll b rs = Inr b' \<and> blobs_good b'"
proof (induction rs arbitrary: b)
  case (Cons h rs)
  then show ?case using incrementBlobRefInTx_good [OF Cons.prems, of h] by auto
qed simp

lemma decrementAll_good: "blobs_good b \<Longrightarrow> \<exists>b'. decrementAll b rs = Inr b' \<and> blobs_good b'"
proof (induction rs arbitrary: b)
  case (Cons h rs)
  then show ?case using decrementBlobRefInTx_good [OF Cons.prems, of h] by auto
qed simp

lemma updateEnvelopeExpiryIndex_ok:
  assumes "length (makeEnvelopeKey p kd k) + 8 \<le> maxKeySize"
  shows "\<exists>d'. updateEnvelopeExpiryIndex d p kd k ms = Inr d'"
proof -
  have "valid_key (encodeTimestamp t @ makeEnvelopeKey p kd k)" "valid_key (makeEnvelopeKey p kd k)" for t
    using assms by (simp_all add: valid_key_def)
  then show ?thesis
    by (simp add: updateEnvelopeExpiryIndex_def Let_def makeEnvelopeExpiryKey_eq bolt_def)
qed

lemma PutEnvelope_succeeds:
  assumes good: "blobs_good (d_blobs d)" and len: "length (makeEnvelopeKey p kd k) + 8 \<le> maxKeySize"
    and valid: "ValidateEnvelope U (Some env) = Inr ()" and mar: "mar (canonEnv U env)"
  shows "\<exists>d'. PutEnvelope U mar d p kd k (Some env) = (Inr (), d') \<and> blobs_good (d_blobs d')"
proof -
  let ?ck = "makeEnvelopeKey p kd k"
  have v: "valid_key ?ck" using len by (simp add: valid_key_def)
  obtain added removed where diff:
    "DiffRefs (getRefs (d_env_refs d) ?ck) (BlobRefs (canonEnv U env)) = (added, removed)"
    by (cases "DiffRefs (getRefs (d_env_refs d) ?ck) (BlobRefs (canonEnv U env))")
  obtain b1 b2 where tx: "incrementAll (d_blobs d) added = Inr b1" "decrementAll b1 removed = Inr b2"
    "blobs_good b2" using incrementAll_good [OF good] decrementAll_good by metis
  obtain d' where d': "updateEnvelopeExpiryIndex
      (d\<lparr>d_blobs := b2, d_env_refs := bset ?ck (Good (BlobRefs (canonEnv U env))) (d_env_refs d),
         d_envs := bset ?ck (Good (canonEnv U env)) (d_envs d)\<rparr>) p kd k
      (ExpiresAtUnixMs (canonEnv U env)) = Inr d'"
    using updateEnvelopeExpiryIndex_ok [OF len] by blast
  then have "PutEnvelope U mar d p kd k (Some env) = (Inr (), d')"
    using mar valid v diff tx
    unfolding PutEnvelope_def Let_def canonEnv_def by (simp add: bolt_def)
  moreover have "d_blobs d' = b2" using updateEnvelopeExpiryIndex_frame(2) [OF d'] by simp
  ultimately show ?thesis using tx(3) by blast
qed

lemma DeleteEnvelope_succeeds:
  assumes "blobs_good (d_blobs d)"
  shows "\<exists>d'. DeleteEnvelope d p kd k = (Inr (), d')"
proof -
  obtain b where "decrementAll (d_blobs d) (getRefs (d_env_refs d) (makeEnvelopeKey p kd k)) = Inr b"
    using decrementAll_good [OF assms] by blast
  moreover obtain d1 where "removeEnvelopeExpiryIndex
      (d\<lparr>d_blobs := b, d_env_refs := bdelete (makeEnvelopeKey p kd k) (d_env_refs d)\<rparr>) p kd k = Inr d1"
    using removeEnvelopeExpiryIndex_ok by blast
  ultimately show ?thesis by (simp add: DeleteEnvelope_def Let_def)
qed

lemma UpdateEnvelope_deletes:
  assumes "bget (d_envs d) (makeEnvelopeKey p kd k) = Some (Good env)" and "fn (Some env) = Inr None"
  shows "\<exists>d'. UpdateEnvelope U mar d p kd k fn = (Inr (), d')"
proof -
  let ?ck = "makeEnvelopeKey p kd k"
  obtain d1 where "removeEnvelopeExpiryIndex
      (d\<lparr>d_blobs := decrementAllLogged (d_blobs d) (getRefs (d_env_refs d) ?ck),
         d_env_refs := bdelete ?ck (d_env_refs d)\<rparr>) p kd k = Inr d1"
    using removeEnvelopeExpiryIndex_ok by blast
  with assms show ?thesis by (simp add: UpdateEnvelope_def Let_def)
qed

text \<open>Where the callback keeps the entry, an update is a put of its result.\<close>

lemma UpdateEnvelope_puts:
  assumes "bget (d_envs d) (makeEnvelopeKey p kd k) = Some (Good env)" and "fn (Some env) = Inr (Some new)"
    and "mar (canonEnv U new)"
  shows "UpdateEnvelope U mar d p kd k fn = PutEnvelope U mar d p kd k (Some new)"
proof (cases "ValidateEnvelope U (Some new)")
  case Inl
  with assms show ?thesis by (simp add: UpdateEnvelope_def PutEnvelope_def Let_def batch_def)
next
  case Inr
  with assms show ?thesis unfolding canonEnv_def
    by (simp add: UpdateEnvelope_def PutEnvelope_def Let_def split: prod.splits)
qed

section \<open>Conditional deletion\<close>

text \<open>The reaper's delete removes the entry it saw, and only that: an envelope whose expiry
  has changed since stays, untouched.\<close>

lemma index_row_of:
  assumes "db_inv d" and "bget (d_envs d) ck = Some (Good env)"
  shows "bget (d_env_expiry_by_key d) ck = expiryTs (ExpiresAtUnixMs env)"
proof -
  have "env_row ck (Some (Good env)) (bget (d_env_refs d) ck) (bget (d_env_expiry_by_key d) ck)"
    using assms by (metis db_inv_parts(4) env_rows_def)
  then show ?thesis by (simp add: env_row_def)
qed

lemma DeleteExpiredEnvelope_stale:
  assumes inv: "db_inv d" and env: "bget (d_envs d) (makeEnvelopeKey p kd k) = Some (Good env)"
    and rng: "nano_range (time_UnixMilli (ExpiresAtUnixMs env))" "nano_range (xe_ExpiresAt x)"
    and x: "xe_Protocol x = p" "xe_Kind x = kd" "xe_Key x = k"
    and ne: "ExpiresAtUnixMs env \<le> 0 \<or> xe_ExpiresAt x \<noteq> time_UnixMilli (ExpiresAtUnixMs env)"
  shows "DeleteExpiredEnvelope d x = (Inr False, d)"
proof -
  have "bget (d_env_expiry_by_key d) (makeEnvelopeKey p kd k) \<noteq> Some (encodeTimestamp (xe_ExpiresAt x))"
    using index_row_of [OF inv env] ne rng by (auto simp: expiryTs_def encodeTimestamp_inject)
  then show ?thesis using x by (simp add: DeleteExpiredEnvelope_def Let_def)
qed

lemma DeleteExpiredEnvelope_match:
  assumes inv: "db_inv d" and env: "bget (d_envs d) (makeEnvelopeKey p kd k) = Some (Good env)"
    and pos: "0 < ExpiresAtUnixMs env" and good: "blobs_good (d_blobs d)"
  shows "\<exists>d'. DeleteExpiredEnvelope d (expiryEntryOf p kd k env) = (Inr True, d')
    \<and> d_envs d' = bdelete (makeEnvelopeKey p kd k) (d_envs d) \<and> blobs_good (d_blobs d')
    \<and> d_env_by_expiry d' =
        bdelete (encodeTimestamp (time_UnixMilli (ExpiresAtUnixMs env)) @ makeEnvelopeKey p kd k) (d_env_by_expiry d)"
proof -
  obtain b where b: "decrementAll (d_blobs d) (getRefs (d_env_refs d) (makeEnvelopeKey p kd k)) = Inr b"
    "blobs_good b" using decrementAll_good [OF good] by blast
  have "bget (d_env_expiry_by_key d) (makeEnvelopeKey p kd k)
      = Some (encodeTimestamp (time_UnixMilli (ExpiresAtUnixMs env)))"
    using index_row_of [OF inv env] pos by (simp add: expiryTs_def)
  with b show ?thesis
    by (simp add: DeleteExpiredEnvelope_def Let_def expiryEntryOf_def makeEnvelopeExpiryKey_eq)
qed

section \<open>Every reachable blob entry decodes\<close>

lemma map_cell_Corrupt [simp]: "map_cell f c = Corrupt \<longleftrightarrow> c = Corrupt"
  by (cases c) auto

lemma blobs_goodI:
  assumes "wf_bucket b'" "\<And>h. bget b' h = map_option (map_cell (f h)) (bget b h)" "blobs_good b"
  shows "blobs_good b'"
  using assms by (auto simp: blobs_good_def)

lemma decrementAllLogged_good: "blobs_good b \<Longrightarrow> blobs_good (decrementAllLogged b rs)"
  by (rule blobs_goodI [of _ "\<lambda>h. decRef ^^ count_list rs h" b])
     (auto simp: blobs_good_def decrementAllLogged_wf decrementAllLogged_bget)

lemma decrementAll_keeps: "decrementAll b rs = Inr b' \<Longrightarrow> blobs_good b \<Longrightarrow> blobs_good b'"
  using decrementAll_good [of b rs] by auto

lemma incrementAll_keeps: "incrementAll b rs = Inr b' \<Longrightarrow> blobs_good b \<Longrightarrow> blobs_good b'"
  using incrementAll_good [of b rs] by auto

lemma modifyBlob_keeps: "modifyBlob f b h = Inr (e, b') \<Longrightarrow> blobs_good b \<Longrightarrow> blobs_good b'"
  by (auto simp: modifyBlob_def blobs_good_def tx_unfold split: option.splits cell.splits if_splits)

lemma updateMetaExpiryIndex_blobs: "updateMetaExpiryIndex d p k ex = Inr d' \<Longrightarrow> d_blobs d' = d_blobs d"
  by (auto simp: updateMetaExpiryIndex_def tx_unfold split: option.splits)

lemmas keeps = decrementAll_keeps incrementAll_keeps modifyBlob_keeps decrementAllLogged_good
lemmas frames = updateMetaExpiryIndex_blobs updateEnvelopeExpiryIndex_frame(2)

lemma deleteMetaWithRefsInTx_good:
  "deleteMetaWithRefsInTx d p k = Inr d' \<Longrightarrow> blobs_good (d_blobs d) \<Longrightarrow> blobs_good (d_blobs d')"
  by (auto simp: deleteMetaWithRefsInTx_def removeMetaExpiryIndex_def tx_unfold intro: keeps dest!: frames)

lemma batch_good:
  "blobs_good (d_blobs d) \<Longrightarrow> rpost m (\<lambda>rd. blobs_good (d_blobs (snd rd))) \<Longrightarrow> blobs_good (d_blobs (snd (batch d m)))"
  by (rule batch_post)

lemma db_step_good: "db_step U mar d A d' \<Longrightarrow> blobs_good (d_blobs d) \<Longrightarrow> blobs_good (d_blobs d')"
proof (induction rule: db_step.induct)
  case (step_PutMeta d now p k data ttl)
  then show ?case unfolding PutMeta_def
    by (intro batch_good rpostI) (auto simp: tx_unfold dest!: frames)
next
  case (step_DeleteMeta d p k)
  then show ?case unfolding DeleteMeta_def
    by (intro batch_good rpostI) (auto simp: tx_unfold removeMetaExpiryIndex_def dest!: frames)
next
  case (step_PutMetaWithRefs d refs now p k data ttl)
  then show ?case unfolding PutMetaWithRefs_def
    by (intro batch_good rpostI) (auto simp: tx_unfold intro: keeps dest!: frames)
next
  case (step_UpdateJSON d dec enc now p k ttl fn v0)
  then show ?case unfolding UpdateJSON_def Let_def
    by (intro batch_good rpost_intros) (auto simp: tx_simps dest!: frames)
next
  case (step_IncrementBlobRef d h)
  then show ?case unfolding IncrementBlobRef_def
    by (intro batch_good rpostI) (auto simp: tx_unfold intro: modifyBlob_keeps)
next
  case (step_DecrementBlobRef d h)
  then show ?case unfolding DecrementBlobRef_def
    by (intro batch_good rpostI) (auto simp: tx_unfold intro: modifyBlob_keeps)
next
  case (step_DeleteMetaWithRefs d p k)
  then show ?case unfolding DeleteMetaWithRefs_def
    by (intro batch_good rpostI) (auto simp: tx_unfold intro: deleteMetaWithRefsInTx_good)
next
  case (step_DeleteExpiredMeta d x)
  then show ?case unfolding DeleteExpiredMetaWithRefs_def
    by (intro batch_good rpostI) (auto simp: tx_unfold intro: deleteMetaWithRefsInTx_good split: if_splits)
next
  case (step_PutBlob d e)
  then show ?case unfolding PutBlob_def
    by (intro batch_good rpostI) (auto simp: tx_unfold blobs_good_def split: if_splits)
next
  case (step_DeleteBlob d h)
  then show ?case unfolding DeleteBlob_def
    by (intro batch_good rpostI) (auto simp: blobs_good_def split: if_splits)
next
  case (step_TouchBlob d now h)
  then show ?case unfolding TouchBlob_def
    by (intro batch_good rpostI) (auto simp: tx_unfold intro: modifyBlob_keeps)
next
  case (step_PutEnvelope d p kd k envp)
  then show ?case unfolding PutEnvelope_def Let_def
    by (auto split: sum.splits intro!: batch_good rpostI) (auto simp: tx_unfold intro: keeps dest!: frames)
next
  case (step_DeleteEnvelope d p kd k)
  then show ?case unfolding DeleteEnvelope_def
    by (intro batch_good rpostI) (auto simp: tx_unfold removeEnvelopeExpiryIndex_def intro: keeps dest!: frames)
next
  case (step_UpdateEnvelope d p kd k fn)
  then show ?case unfolding UpdateEnvelope_def Let_def
    by (intro batch_good rpost_intros)
       (auto simp: tx_unfold removeEnvelopeExpiryIndex_def intro: keeps dest!: frames split: option.splits)
next
  case (step_DeleteExpiredEnvelope d y)
  then show ?case unfolding DeleteExpiredEnvelope_def Let_def
    by (intro batch_good rpost_intros) (auto simp: tx_unfold intro: keeps)
qed

lemma db_reach_good: "db_reach U mar d \<Longrightarrow> blobs_good (d_blobs d)"
proof (induction rule: db_reach_induct)
  case reach_init
  then show ?case by (simp add: createBuckets_def blobs_good_def)
qed (rule db_step_good)

end
