(* ===== verification/Reapers.thy ===== *)
theory Reapers
  imports EnvelopeSpec
begin

text \<open>
  The background reapers of expired entries (\<open>store/metadb/envelope_reaper.go\<close>,
  \<open>reaper.go\<close>) over the interfaces \<open>EnvelopeExpiryStore\<close> and \<open>MetaExpiryStore\<close> of \<open>db.go\<close>,
  which have the same shape: a query for a batch of expired entries and a conditional delete.
  Readings of the clock and of the cancelled context are numbered; a loop that may go on is
  given fuel. Metrics and logs are left out.
\<close>

record ('s, 'e) expiry_store =
  xs_Get :: "'s \<Rightarrow> time \<Rightarrow> int \<Rightarrow> mdb_error + 'e list"
  xs_Delete :: "'s \<Rightarrow> 'e \<Rightarrow> (mdb_error + bool) \<times> 's"

definition boltEnvelopeExpiry :: "(db, envelope_expiry_entry) expiry_store" where
  "boltEnvelopeExpiry =
     \<lparr>xs_Get = (\<lambda>d before limit. Inr (GetExpiredEnvelopes d before limit)),
      xs_Delete = DeleteExpiredEnvelope\<rparr>"

definition boltMetaExpiry :: "(db, expiry_entry) expiry_store" where
  "boltMetaExpiry =
     \<lparr>xs_Get = (\<lambda>d before limit. Inr (GetExpiredMeta d before limit)),
      xs_Delete = DeleteExpiredMetaWithRefs\<rparr>"

text \<open>The clock and the context: the answers to the first, second, ... reading.\<close>

record world =
  w_now :: "nat \<Rightarrow> time"
  w_done :: "nat \<Rightarrow> bool"

section \<open>The envelope reaper\<close>

record env_reaper =
  er_interval :: int
  er_batchSize :: int
  er_maxDuration :: int
  er_lastReapTime :: time
  er_lastReapCount :: int
  er_totalReaped :: int

definition WithEnvelopeReaperInterval :: "int \<Rightarrow> env_reaper \<Rightarrow> env_reaper" where
  "WithEnvelopeReaperInterval d r = r\<lparr>er_interval := d\<rparr>"

definition WithEnvelopeReaperBatchSize :: "int \<Rightarrow> env_reaper \<Rightarrow> env_reaper" where
  "WithEnvelopeReaperBatchSize n r = r\<lparr>er_batchSize := n\<rparr>"

definition WithEnvelopeReaperMaxDuration :: "int \<Rightarrow> env_reaper \<Rightarrow> env_reaper" where
  "WithEnvelopeReaperMaxDuration d r = r\<lparr>er_maxDuration := d\<rparr>"

definition NewEnvelopeReaper :: "(env_reaper \<Rightarrow> env_reaper) list \<Rightarrow> env_reaper" where
  "NewEnvelopeReaper opts =
     fold (\<lambda>opt r. opt r) opts
       \<lparr>er_interval = 5 * 60 * 1000000000, er_batchSize = 100, er_maxDuration = 30 * 1000000000,
        er_lastReapTime = zero_time, er_lastReapCount = 0, er_totalReaped = 0\<rparr>"

text \<open>The loop over one batch: the number deleted, whether an error was seen, whether the
  context was cancelled, the next reading and the store.\<close>

fun deleteExpired ::
  "('s, 'e) expiry_store \<Rightarrow> world \<Rightarrow> nat \<Rightarrow> 's \<Rightarrow> int \<Rightarrow> bool \<Rightarrow> 'e list
     \<Rightarrow> int \<times> bool \<times> bool \<times> nat \<times> 's" where
  "deleteExpired st w n s deleted hadError [] = (deleted, hadError, False, n, s)"
| "deleteExpired st w n s deleted hadError (x # xs) =
     (if w_done w n then (deleted, hadError, True, Suc n, s)
      else case xs_Delete st s x of
             (Inl _, s') \<Rightarrow> deleteExpired st w (Suc n) s' deleted True xs
           | (Inr removed, s') \<Rightarrow>
               deleteExpired st w (Suc n) s' (if removed then deleted + 1 else deleted) hadError xs)"

definition reapBatch ::
  "('s, 'e) expiry_store \<Rightarrow> world \<Rightarrow> env_reaper \<Rightarrow> nat \<Rightarrow> 's \<Rightarrow> int \<times> bool \<times> nat \<times> 's" where
  "reapBatch st w r n s =
     (case xs_Get st s (w_now w n) (er_batchSize r) of
        Inl _ \<Rightarrow> (0, False, Suc n, s)
      | Inr expired \<Rightarrow>
          if expired = [] then (0, False, Suc n, s)
          else (case deleteExpired st w (Suc n) s 0 False expired of
                  (deleted, hadError, cancelled, n', s') \<Rightarrow>
                    if cancelled then (deleted, False, n', s')
                    else (deleted, \<not> hadError \<and> int (length expired) = er_batchSize r, n', s')))"

definition recordReap :: "env_reaper \<Rightarrow> time \<Rightarrow> int \<Rightarrow> env_reaper" where
  "recordReap r now cycleTotal =
     (if cycleTotal > 0
      then r\<lparr>er_lastReapTime := now, er_lastReapCount := cycleTotal, er_totalReaped := er_totalReaped r + cycleTotal\<rparr>
      else r)"

fun reapNowLoop ::
  "nat \<Rightarrow> ('s, 'e) expiry_store \<Rightarrow> world \<Rightarrow> env_reaper \<Rightarrow> nat \<Rightarrow> 's \<Rightarrow> int \<Rightarrow> (int \<times> nat \<times> 's) option" where
  "reapNowLoop 0 st w r n s cycleTotal = None"
| "reapNowLoop (Suc fuel) st w r n s cycleTotal =
     (case reapBatch st w r n s of
        (cnt, hasMore, n', s') \<Rightarrow>
          if hasMore then reapNowLoop fuel st w r n' s' (cycleTotal + cnt)
          else Some (cycleTotal + cnt, n', s'))"

definition ReapNow ::
  "nat \<Rightarrow> ('s, 'e) expiry_store \<Rightarrow> world \<Rightarrow> env_reaper \<Rightarrow> nat \<Rightarrow> 's \<Rightarrow> (int \<times> env_reaper \<times> nat \<times> 's) option" where
  "ReapNow fuel st w r n s =
     (case reapNowLoop fuel st w r (Suc n) s 0 of
        None \<Rightarrow> None
      | Some (cycleTotal, n', s') \<Rightarrow> Some (cycleTotal, recordReap r (w_now w n') cycleTotal, Suc n', s'))"

text \<open>One cycle stops when a batch reports no more work, when the clock passes the deadline, or
  when the context is cancelled; in the last case the statistics are not updated.\<close>

fun reapCycleLoop ::
  "nat \<Rightarrow> ('s, 'e) expiry_store \<Rightarrow> world \<Rightarrow> env_reaper \<Rightarrow> time \<Rightarrow> nat \<Rightarrow> 's \<Rightarrow> int
     \<Rightarrow> (bool \<times> int \<times> nat \<times> 's) option" where
  "reapCycleLoop 0 st w r deadline n s cycleTotal = None"
| "reapCycleLoop (Suc fuel) st w r deadline n s cycleTotal =
     (if w_now w n > deadline then Some (False, cycleTotal, Suc n, s)
      else case reapBatch st w r (Suc n) s of
             (cnt, hasMore, n', s') \<Rightarrow>
               if \<not> hasMore then Some (False, cycleTotal + cnt, n', s')
               else if w_done w n' then Some (True, cycleTotal + cnt, Suc n', s')
               else reapCycleLoop fuel st w r deadline (Suc n') s' (cycleTotal + cnt))"

definition reapCycle ::
  "nat \<Rightarrow> ('s, 'e) expiry_store \<Rightarrow> world \<Rightarrow> env_reaper \<Rightarrow> nat \<Rightarrow> 's \<Rightarrow> (env_reaper \<times> nat \<times> 's) option" where
  "reapCycle fuel st w r n s =
     (case reapCycleLoop fuel st w r (w_now w n + er_maxDuration r) (Suc n) s 0 of
        None \<Rightarrow> None
      | Some (cancelled, cycleTotal, n', s') \<Rightarrow>
          Some (if cancelled then r else recordReap r (w_now w n') cycleTotal, Suc n', s'))"

record env_reaper_stats =
  rs_LastReapTime :: time
  rs_LastReapCount :: int
  rs_TotalReaped :: int
  rs_Interval :: int
  rs_BatchSize :: int

definition reaper_Stats :: "env_reaper \<Rightarrow> env_reaper_stats" where
  "reaper_Stats r =
     \<lparr>rs_LastReapTime = er_lastReapTime r, rs_LastReapCount = er_lastReapCount r,
      rs_TotalReaped = er_totalReaped r, rs_Interval = er_interval r, rs_BatchSize = er_batchSize r\<rparr>"

section \<open>The reaper of legacy metadata\<close>

record expiry_reaper =
  xr_interval :: int
  xr_batchSize :: int

definition WithReaperInterval :: "int \<Rightarrow> expiry_reaper \<Rightarrow> expiry_reaper" where
  "WithReaperInterval d r = r\<lparr>xr_interval := d\<rparr>"

definition WithReaperBatchSize :: "int \<Rightarrow> expiry_reaper \<Rightarrow> expiry_reaper" where
  "WithReaperBatchSize n r = r\<lparr>xr_batchSize := n\<rparr>"

definition NewExpiryReaper :: "(expiry_reaper \<Rightarrow> expiry_reaper) list \<Rightarrow> expiry_reaper" where
  "NewExpiryReaper opts =
     fold (\<lambda>opt r. opt r) opts \<lparr>xr_interval = 5 * 60 * 1000000000, xr_batchSize = 100\<rparr>"

fun deleteExpiredMeta ::
  "('s, 'e) expiry_store \<Rightarrow> 's \<Rightarrow> int \<Rightarrow> 'e list \<Rightarrow> int \<times> 's" where
  "deleteExpiredMeta st s deleted [] = (deleted, s)"
| "deleteExpiredMeta st s deleted (x # xs) =
     (case xs_Delete st s x of
        (Inl _, s') \<Rightarrow> deleteExpiredMeta st s' deleted xs
      | (Inr removed, s') \<Rightarrow> deleteExpiredMeta st s' (if removed then deleted + 1 else deleted) xs)"

definition ExpiryReaper_reapBatch ::
  "('s, 'e) expiry_store \<Rightarrow> expiry_reaper \<Rightarrow> time \<Rightarrow> 's \<Rightarrow> int \<times> 's" where
  "ExpiryReaper_reapBatch st r now s =
     (case xs_Get st s now (xr_batchSize r) of
        Inl _ \<Rightarrow> (0, s)
      | Inr expired \<Rightarrow> if expired = [] then (0, s) else deleteExpiredMeta st s 0 expired)"

section \<open>The contract of an expiry store\<close>

text \<open>\<open>live s now\<close> is the set of entries that are expired at \<open>now\<close>. The query returns some of
  them, without repetition, and all of them when it returns fewer than the limit; deleting
  one of them either fails and changes nothing, or removes that one only.\<close>

locale expiry_contract =
  fixes st :: "('s, 'e) expiry_store" and inv :: "'s \<Rightarrow> bool" and good :: "'s \<Rightarrow> bool"
    and live :: "'s \<Rightarrow> time \<Rightarrow> 'e set"
  assumes live_finite: "finite (\<Union>now. live s now)"
    and live_mono: "now \<le> now' \<Longrightarrow> nano_range now \<Longrightarrow> nano_range now' \<Longrightarrow> live s now \<subseteq> live s now'"
    and get_ok: "inv s \<Longrightarrow> \<exists>xs. xs_Get st s now limit = Inr xs"
    and del_good: "inv s \<Longrightarrow> good s \<Longrightarrow> x \<in> live s now \<Longrightarrow>
        \<exists>s'. xs_Delete st s x = (Inr True, s') \<and> good s'"
    and get_live: "inv s \<Longrightarrow> 0 < limit \<Longrightarrow> xs_Get st s now limit = Inr xs \<Longrightarrow>
        distinct xs \<and> set xs \<subseteq> live s now \<and> int (length xs) \<le> limit
        \<and> (int (length xs) < limit \<longrightarrow> set xs = live s now)"
    and del_inv: "inv s \<Longrightarrow> inv (snd (xs_Delete st s x))"
    and del_err: "xs_Delete st s x = (Inl err, s') \<Longrightarrow> s' = s"
    and del_live: "inv s \<Longrightarrow> x \<in> live s now \<Longrightarrow> xs_Delete st s x = (Inr b, s') \<Longrightarrow>
        b \<and> live s' t = live s t - {x}"
begin

lemma del_inv_pair: "inv s \<Longrightarrow> xs_Delete st s x = (r, s') \<Longrightarrow> inv s'"
  by (metis del_inv snd_conv)

text \<open>One batch: without an error or a cancellation exactly the entries of the batch go.\<close>

lemma deleteExpired_live:
  assumes "inv s" "distinct xs" "set xs \<subseteq> live s now"
    and "deleteExpired st w n s del err xs = (del', err', cancelled, n', s')"
  shows "inv s' \<and> (\<forall>t. live s' t \<subseteq> live s t \<and> live s t - live s' t \<subseteq> set xs)
    \<and> (err \<longrightarrow> err')
    \<and> (\<not> err' \<and> \<not> cancelled \<longrightarrow>
         del' = del + int (length xs) \<and> (\<forall>t. live s' t = live s t - set xs))"
  using assms
proof (induction xs arbitrary: n s del err)
  case (Cons x xs)
  show ?case
  proof (cases "w_done w n")
    case False
    obtain r s1 where d: "xs_Delete st s x = (r, s1)" by (cases "xs_Delete st s x")
    have inv1: "inv s1" using Cons.prems(1) d by (rule del_inv_pair)
    show ?thesis
    proof (cases r)
      case (Inl e)
      then have "s1 = s" using d del_err by blast
      then show ?thesis
        using Cons.IH [of s "Suc n" del True] Cons.prems d Inl False by auto
    next
      case (Inr b)
      have x: "x \<in> live s now" using Cons.prems(3) by simp
      have b: "b" "live s1 t = live s t - {x}" for t
        using del_live [OF Cons.prems(1) x d [unfolded Inr]] by blast+
      have "set xs \<subseteq> live s1 now" using Cons.prems(2,3) b(2) by auto
      then show ?thesis
        using Cons.IH [of s1 "Suc n" "del + 1" err] Cons.prems d Inr False inv1 b by auto
    qed
  qed (use Cons.prems in auto)
qed simp

lemma reapBatch_live:
  assumes inv: "inv s" and size: "0 < er_batchSize r"
    and batch: "reapBatch st w r n s = (cnt, hasMore, n', s')"
  shows "inv s' \<and> (\<forall>t. live s' t \<subseteq> live s t \<and> live s t - live s' t \<subseteq> live s (w_now w n))
    \<and> (hasMore \<longrightarrow> cnt = er_batchSize r
        \<and> (\<exists>B. B \<subseteq> live s (w_now w n) \<and> B \<noteq> {} \<and> (\<forall>t. live s' t = live s t - B)))"
proof (cases "xs_Get st s (w_now w n) (er_batchSize r)")
  case (Inr xs)
  note get = get_live [OF inv size Inr]
  show ?thesis
  proof (cases "xs = []")
    case False
    obtain del err c n1 s1 where de: "deleteExpired st w (Suc n) s 0 False xs = (del, err, c, n1, s1)"
      by (cases "deleteExpired st w (Suc n) s 0 False xs")
    have l: "inv s1 \<and> (\<forall>t. live s1 t \<subseteq> live s t \<and> live s t - live s1 t \<subseteq> set xs)
      \<and> (\<not> err \<and> \<not> c \<longrightarrow> del = int (length xs) \<and> (\<forall>t. live s1 t = live s t - set xs))"
      using deleteExpired_live [OF inv _ _ de, of "w_now w n"] get by auto
    have res: "cnt = del" "hasMore = (\<not> c \<and> \<not> err \<and> int (length xs) = er_batchSize r)" "s' = s1"
      using batch Inr False de by (auto simp: reapBatch_def split: if_splits)
    show ?thesis
    proof (intro conjI impI)
      assume "hasMore"
      with l res show "cnt = er_batchSize r" by auto
      show "\<exists>B. B \<subseteq> live s (w_now w n) \<and> B \<noteq> {} \<and> (\<forall>t. live s' t = live s t - B)"
        using \<open>hasMore\<close> l res get False by (intro exI [of _ "set xs"]) auto
    qed (use l res get in auto)
  qed (use assms Inr in \<open>auto simp: reapBatch_def\<close>)
qed (use assms in \<open>auto simp: reapBatch_def\<close>)

lemma deleteExpired_good:
  assumes "inv s" "good s" "distinct xs" "set xs \<subseteq> live s now" and "\<not> (\<exists>m. w_done w m)"
  shows "\<exists>d n' s'. deleteExpired st w n s del False xs = (d, False, False, n', s') \<and> n \<le> n' \<and> good s'"
  using assms
proof (induction xs arbitrary: n s del)
  case (Cons x xs)
  obtain s1 where s1: "xs_Delete st s x = (Inr True, s1)" "good s1"
    using del_good [OF Cons.prems(1,2)] Cons.prems(4) by fastforce
  have "set xs \<subseteq> live s1 now"
    using Cons.prems(3,4) del_live [OF Cons.prems(1) _ s1(1), of now now] by auto
  then obtain d n' s' where "deleteExpired st w (Suc n) s1 (del + 1) False xs = (d, False, False, n', s')"
    "Suc n \<le> n'" "good s'"
    using Cons.IH [of s1 "Suc n" "del + 1"] Cons.prems s1 del_inv_pair by auto
  then show ?case using s1 Cons.prems(5) by auto
qed simp

lemma reapBatch_good:
  assumes inv: "inv s" "good s" and size: "0 < er_batchSize r" and ctx: "\<not> (\<exists>m. w_done w m)"
    and batch: "reapBatch st w r n s = (cnt, hasMore, n', s')"
  shows "good s' \<and> n < n' \<and> (\<not> hasMore \<longrightarrow> live s' (w_now w n) = {})"
proof -
  obtain xs where xs: "xs_Get st s (w_now w n) (er_batchSize r) = Inr xs" using get_ok inv by blast
  note get = get_live [OF inv(1) size xs]
  obtain d n1 s1 where de: "deleteExpired st w (Suc n) s 0 False xs = (d, False, False, n1, s1)"
    "Suc n \<le> n1" "good s1"
    using deleteExpired_good [OF inv _ _ ctx, of xs "w_now w n" "Suc n" 0] get by blast
  have "\<forall>t. live s1 t = live s t - set xs"
    using deleteExpired_live [OF inv(1) _ _ de(1), of "w_now w n"] get by blast
  then show ?thesis
    using batch xs de get inv size by (auto simp: reapBatch_def split: if_splits)
qed

definition allLive :: "'s \<Rightarrow> 'e set" where
  "allLive s = (\<Union>t. live s t)"

lemma reapBatch_decreases:
  assumes "inv s" "0 < er_batchSize r" "reapBatch st w r n s = (cnt, True, n', s')"
  shows "card (allLive s') < card (allLive s)"
proof (rule psubset_card_mono)
  show "finite (allLive s)" unfolding allLive_def by (rule live_finite)
  obtain B where "B \<subseteq> live s (w_now w n)" "B \<noteq> {}" "\<forall>t. live s' t = live s t - B"
    using reapBatch_live [OF assms] by blast
  then show "allLive s' \<subset> allLive s" unfolding allLive_def by blast
qed

lemma reapNowLoop_terminates:
  assumes "inv s" "0 < er_batchSize r" "card (allLive s) < fuel"
  shows "reapNowLoop fuel st w r n s tot \<noteq> None"
  using assms
proof (induction fuel arbitrary: n s tot)
  case (Suc fuel)
  obtain cnt more n' s' where b: "reapBatch st w r n s = (cnt, more, n', s')"
    by (cases "reapBatch st w r n s")
  show ?case
  proof (cases more)
    case True
    have "card (allLive s') < fuel"
      using reapBatch_decreases [OF Suc.prems(1,2), of w n cnt n' s'] b True Suc.prems(3) by simp
    then show ?thesis
      using Suc.IH reapBatch_live [OF Suc.prems(1,2) b] Suc.prems(2) b True by simp
  qed (simp add: b)
qed simp

lemma reapNowLoop_result:
  assumes "inv s" "good s" "0 < er_batchSize r" "\<not> (\<exists>m. w_done w m)"
    and "\<And>m. n \<le> m \<Longrightarrow> t \<le> w_now w m \<and> nano_range (w_now w m)" "nano_range t"
    and "reapNowLoop fuel st w r n s tot = Some (tot', n', s')"
  shows "inv s' \<and> good s' \<and> live s' t = {} \<and> (\<forall>u. live s' u \<subseteq> live s u)"
  using assms
proof (induction fuel arbitrary: n s tot)
  case (Suc fuel)
  obtain cnt more n1 s1 where b: "reapBatch st w r n s = (cnt, more, n1, s1)"
    by (cases "reapBatch st w r n s")
  note l = reapBatch_live [OF Suc.prems(1,3) b] reapBatch_good [OF Suc.prems(1-4) b]
  show ?case
  proof (cases more)
    case True
    then have "inv s' \<and> good s' \<and> live s' t = {} \<and> (\<forall>u. live s' u \<subseteq> live s1 u)"
      using Suc.IH [of s1 n1 "tot + cnt"] l Suc.prems b by simp
    then show ?thesis using l by blast
  next
    case False
    have "live s1 t \<subseteq> live s1 (w_now w n)" using live_mono Suc.prems(5) [of n] Suc.prems(6) by blast
    then show ?thesis using False l Suc.prems(7) b by auto
  qed
qed simp

text \<open>What every deletion of an entry that is expired at a reading of the clock keeps, the loop keeps.\<close>

lemma deleteExpired_keeps:
  assumes "inv s" "P s" "set xs \<subseteq> live s (w_now w m)"
    and step: "\<And>s m x b s'. inv s \<Longrightarrow> P s \<Longrightarrow> x \<in> live s (w_now w m) \<Longrightarrow> xs_Delete st s x = (Inr b, s') \<Longrightarrow> P s'"
    and "distinct xs" "deleteExpired st w n s del err xs = (del', err', cancelled, n', s')"
  shows "P s'"
  using assms(1-3,5,6)
proof (induction xs arbitrary: n s del err)
  case (Cons x xs)
  obtain r s1 where d: "xs_Delete st s x = (r, s1)" by (cases "xs_Delete st s x")
  have x: "x \<in> live s (w_now w m)" using Cons.prems(3) by simp
  show ?case
  proof (cases r)
    case (Inl e)
    then have "s1 = s" using d del_err by blast
    then show ?thesis using Cons d Inl by (auto split: if_splits)
  next
    case (Inr b)
    have "inv s1" "P s1" using del_inv_pair step Cons.prems(1,2) x d Inr by blast+
    moreover have "set xs \<subseteq> live s1 (w_now w m)"
      using del_live [OF Cons.prems(1) x d [unfolded Inr]] Cons.prems(3,4) by auto
    ultimately show ?thesis using Cons.IH Cons.prems d Inr by (auto split: if_splits)
  qed
qed simp

lemma reapNowLoop_keeps:
  assumes "inv s" "P s" "0 < er_batchSize r"
    and step: "\<And>s m x b s'. inv s \<Longrightarrow> P s \<Longrightarrow> x \<in> live s (w_now w m) \<Longrightarrow> xs_Delete st s x = (Inr b, s') \<Longrightarrow> P s'"
    and "reapNowLoop fuel st w r n s tot = Some (tot', n', s')"
  shows "P s'"
  using assms(1-3,5)
proof (induction fuel arbitrary: n s tot)
  case (Suc fuel)
  obtain cnt more n1 s1 where b: "reapBatch st w r n s = (cnt, more, n1, s1)"
    by (cases "reapBatch st w r n s")
  have "P s1"
  proof (cases "xs_Get st s (w_now w n) (er_batchSize r)")
    case (Inr xs)
    show ?thesis
    proof (cases "xs = []")
      case False
      obtain d er c n2 s2 where de: "deleteExpired st w (Suc n) s 0 False xs = (d, er, c, n2, s2)"
        by (cases "deleteExpired st w (Suc n) s 0 False xs")
      have "P s2"
        using get_live [OF Suc.prems(1,3) Inr]
        by (intro deleteExpired_keeps [where P = P and m = n, OF Suc.prems(1,2) _ step _ de]) auto
      then show ?thesis using b Inr False de by (auto simp: reapBatch_def split: if_splits)
    qed (use b Inr Suc.prems in \<open>auto simp: reapBatch_def\<close>)
  qed (use b Suc.prems in \<open>auto simp: reapBatch_def\<close>)
  moreover have "inv s1" using reapBatch_live [OF Suc.prems(1,3) b] by blast
  ultimately show ?case using Suc b by (auto split: if_splits)
qed simp

text \<open>The legacy reaper does not look at the context and goes on after an error.\<close>

lemma deleteExpiredMeta_good:
  assumes "inv s" "good s" "distinct xs" "set xs \<subseteq> live s now"
    and "deleteExpiredMeta st s del xs = (del', s')"
  shows "inv s' \<and> good s' \<and> del' = del + int (length xs) \<and> (\<forall>t. live s' t = live s t - set xs)"
  using assms
proof (induction xs arbitrary: s del)
  case (Cons x xs)
  obtain s1 where s1: "xs_Delete st s x = (Inr True, s1)" "good s1"
    using del_good [OF Cons.prems(1,2)] Cons.prems(4) by fastforce
  have l: "live s1 t = live s t - {x}" for t
    using del_live [OF Cons.prems(1) _ s1(1), of now] Cons.prems(4) by auto
  then have "set xs \<subseteq> live s1 now" using Cons.prems(3,4) by auto
  then show ?case
    using Cons.IH [of s1 "del + 1"] Cons.prems s1 l del_inv_pair [OF Cons.prems(1) s1(1)] by auto
qed simp

lemma ExpiryReaper_reapBatch_good:
  assumes inv: "inv s" "good s" and size: "0 < xr_batchSize r"
    and batch: "ExpiryReaper_reapBatch st r now s = (cnt, s')"
  shows "inv s' \<and> good s' \<and> cnt \<le> xr_batchSize r
    \<and> cnt = int (card (live s now - live s' now)) \<and> live s' now \<subseteq> live s now
    \<and> (cnt < xr_batchSize r \<longrightarrow> live s' now = {})"
proof -
  obtain xs where xs: "xs_Get st s now (xr_batchSize r) = Inr xs" using get_ok inv by blast
  note get = get_live [OF inv(1) size xs]
  obtain d s1 where de: "deleteExpiredMeta st s 0 xs = (d, s1)" by (cases "deleteExpiredMeta st s 0 xs")
  have res: "cnt = d" "s' = s1"
    using batch xs de by (auto simp: ExpiryReaper_reapBatch_def split: if_splits)
  have l: "inv s1" "good s1" "d = int (length xs)" "live s1 t = live s t - set xs" for t
    using deleteExpiredMeta_good [OF inv _ _ de, of now] get by auto
  have "live s now - live s1 now = set xs" using get l(4) by auto
  then show ?thesis using get l by (auto simp: res distinct_card)
qed

end

section \<open>The database provides it for envelopes\<close>

definition rowEntry :: "bytes \<Rightarrow> envelope_expiry_entry" where
  "rowEntry key =
     (case parseEnvelopeExpiryKey key of
        (t, p, kd, k) \<Rightarrow> \<lparr>xe_Protocol = p, xe_Kind = kd, xe_Key = k, xe_ExpiresAt = t\<rparr>)"

definition entryRow :: "envelope_expiry_entry \<Rightarrow> bytes" where
  "entryRow x = encodeTimestamp (xe_ExpiresAt x) @ makeEnvelopeKey (xe_Protocol x) (xe_Kind x) (xe_Key x)"

definition expiredRows :: "'v bucket \<Rightarrow> time \<Rightarrow> (bytes \<times> 'v) set" where
  "expiredRows b now = {e \<in> set (entries b). take 8 (fst e) < encodeTimestamp now}"

definition liveEnvelopes :: "db \<Rightarrow> time \<Rightarrow> envelope_expiry_entry set" where
  "liveEnvelopes d now = (rowEntry \<circ> fst) ` expiredRows (d_env_by_expiry d) now"

lemma env_index_row:
  assumes inv: "db_inv d" and row: "e \<in> set (entries (d_env_by_expiry d))"
  shows "entryRow (rowEntry (fst e)) = fst e"
    and "bget (d_env_expiry_by_key d) (makeEnvelopeKey (xe_Protocol (rowEntry (fst e)))
           (xe_Kind (rowEntry (fst e))) (xe_Key (rowEntry (fst e))))
         = Some (encodeTimestamp (xe_ExpiresAt (rowEntry (fst e))))"
proof -
  obtain ck env where ck: "fst e = encodeTimestamp (time_UnixMilli (ExpiresAtUnixMs env)) @ ck"
    "bget (d_envs d) ck = Some (Good env)" "0 < ExpiresAtUnixMs env"
    by (rule expired_index_in [OF inv, of "fst e" "snd e"]) (use row in auto)
  let ?ts = "encodeTimestamp (time_UnixMilli (ExpiresAtUnixMs env))"
  have "env_row ck (Some (Good env)) (bget (d_env_refs d) ck) (bget (d_env_expiry_by_key d) ck)"
    using inv ck(2) by (metis db_inv_parts(4) env_rows_def)
  then obtain p kd k where mk: "ck = makeEnvelopeKey p kd k" by (auto simp: env_row_def)
  obtain p' kd' k' where pk: "parseEnvelopeKey ck = (p', kd', k')" by (cases "parseEnvelopeKey ck")
  then have m: "makeEnvelopeKey p' kd' k' = ck"
    using make_parseEnvelopeKey [OF pk [unfolded mk]] unfolding mk by metis
  have r: "rowEntry (fst e) =
      \<lparr>xe_Protocol = p', xe_Kind = kd', xe_Key = k', xe_ExpiresAt = decodeTimestamp ?ts\<rparr>"
    using parse_index_key [of ?ts p kd k] pk by (simp add: rowEntry_def ck(1) mk)
  show "entryRow (rowEntry (fst e)) = fst e" by (simp add: r entryRow_def m) (simp add: ck(1))
  show "bget (d_env_expiry_by_key d) (makeEnvelopeKey (xe_Protocol (rowEntry (fst e)))
           (xe_Kind (rowEntry (fst e))) (xe_Key (rowEntry (fst e))))
         = Some (encodeTimestamp (xe_ExpiresAt (rowEntry (fst e))))"
    using index_row_of [OF inv ck(2)] ck(3) by (simp add: r m expiryTs_def)
qed

lemma rowEntry_inj: "db_inv d \<Longrightarrow> inj_on (rowEntry \<circ> fst) (set (entries (d_env_by_expiry d)))"
proof (rule inj_onI)
  fix e f assume inv: "db_inv d" and ef: "e \<in> set (entries (d_env_by_expiry d))"
    "f \<in> set (entries (d_env_by_expiry d))" "(rowEntry \<circ> fst) e = (rowEntry \<circ> fst) f"
  then have "fst e = fst f" using env_index_row(1) [OF inv] by (metis comp_apply)
  moreover have "distinct (map fst (entries (d_env_by_expiry d)))"
    using inv by (simp add: inv_defs wf_bucket_distinct)
  ultimately show "e = f" using ef(1,2) by (metis eq_key_imp_eq_value prod.collapse)
qed

lemma expiredRows_bdelete: "expiredRows (bdelete k b) now = {e \<in> expiredRows b now. fst e \<noteq> k}"
  by (auto simp: expiredRows_def bdelete_def set_kdel)

lemma decrementAll_Inl_bad: "decrementAll b rs = Inl e \<Longrightarrow> \<not> blobs_good b"
  by (metis decrementAll_good Inr_not_Inl)

lemma decrementAll_Inr_good: "decrementAll b rs = Inr b' \<Longrightarrow> blobs_good b \<Longrightarrow> blobs_good b'"
  by (metis decrementAll_good sum.inject(2))

text \<open>Deleting a row the query returned removes that row, or fails on an undecodable blob entry.\<close>

lemma DeleteExpiredEnvelope_row:
  assumes inv: "db_inv d" and row: "e \<in> set (entries (d_env_by_expiry d))"
  shows "(\<exists>err. DeleteExpiredEnvelope d (rowEntry (fst e)) = (Inl err, d) \<and> \<not> blobs_good (d_blobs d))
    \<or> (\<exists>d'. DeleteExpiredEnvelope d (rowEntry (fst e)) = (Inr True, d')
         \<and> d_env_by_expiry d' = bdelete (fst e) (d_env_by_expiry d)
         \<and> (blobs_good (d_blobs d) \<longrightarrow> blobs_good (d_blobs d')))"
proof -
  let ?x = "rowEntry (fst e)"
  let ?ck = "makeEnvelopeKey (xe_Protocol ?x) (xe_Kind ?x) (xe_Key ?x)"
  note r = env_index_row [OF inv row]
  show ?thesis
  proof (cases "decrementAll (d_blobs d) (getRefs (d_env_refs d) ?ck)")
    case (Inl err)
    then have "\<not> blobs_good (d_blobs d)" by (rule decrementAll_Inl_bad)
    then show ?thesis using Inl r(2) by (simp add: DeleteExpiredEnvelope_def Let_def)
  next
    case (Inr b)
    then have "blobs_good (d_blobs d) \<Longrightarrow> blobs_good b" by (rule decrementAll_Inr_good)
    then show ?thesis
      using Inr r by (simp add: DeleteExpiredEnvelope_def Let_def makeEnvelopeExpiryKey_eq entryRow_def)
  qed
qed

lemma liveEnvelopes_delete:
  assumes "db_inv d" "e \<in> expiredRows (d_env_by_expiry d) now"
    and "d_env_by_expiry d' = bdelete (fst e) (d_env_by_expiry d)"
  shows "liveEnvelopes d' t = liveEnvelopes d t - {rowEntry (fst e)}"
proof -
  let ?F = "d_env_by_expiry d"
  have in_rows: "expiredRows ?F t \<subseteq> set (entries ?F)" "e \<in> set (entries ?F)"
    using assms(2) by (auto simp: expiredRows_def)
  have "distinct (map fst (entries ?F))" using assms(1) by (simp add: inv_defs wf_bucket_distinct)
  then have "f = e" if "f \<in> expiredRows ?F t" "fst f = fst e" for f
    using that in_rows eq_key_imp_eq_value [of "entries ?F" "fst e" "snd e" "snd f"]
    by (cases e; cases f) auto
  then have "{f \<in> expiredRows ?F t. fst f \<noteq> fst e} = expiredRows ?F t - {e}" by auto
  moreover have "(rowEntry \<circ> fst) ` (expiredRows ?F t - {e})
      = (rowEntry \<circ> fst) ` expiredRows ?F t - (rowEntry \<circ> fst) ` {e}"
    using rowEntry_inj [OF assms(1)] in_rows by (intro inj_on_image_set_diff) auto
  ultimately show ?thesis by (simp add: liveEnvelopes_def assms(3) expiredRows_bdelete)
qed

lemma GetExpiredEnvelopes_rows:
  "GetExpiredEnvelopes d now limit =
     map (rowEntry \<circ> fst) (take (nat limit)
       (takeWhile (\<lambda>e. take 8 (fst e) < encodeTimestamp now) (entries (d_env_by_expiry d))))"
  by (simp add: GetExpiredEnvelopes_def rowEntry_def case_prod_unfold o_def)

text \<open>A bounded query over the rows in key order.\<close>

lemma bounded_query:
  assumes wf: "wf_bucket b" and inj: "inj_on f (set (entries b))" and lim: "0 < limit"
    and xs: "xs = map f (take (nat limit) (takeWhile (\<lambda>e. take 8 (fst e) < encodeTimestamp now) (entries b)))"
  shows "distinct xs \<and> set xs \<subseteq> f ` expiredRows b now \<and> int (length xs) \<le> limit
    \<and> (int (length xs) < limit \<longrightarrow> set xs = f ` expiredRows b now)"
proof -
  let ?tw = "takeWhile (\<lambda>e. take 8 (fst e) < encodeTimestamp now) (entries b)"
  have tw: "set ?tw = expiredRows b now"
    using wf by (simp add: expiredRows_def takeWhile_prefix_less wf_bucket_def)
  have "distinct (entries b)" using wf_bucket_distinct [OF wf] by (simp add: distinct_map)
  then have d: "distinct ?tw" by (rule distinct_takeWhile)
  have sub: "set (take (nat limit) ?tw) \<subseteq> set (entries b)"
    using set_take_subset set_takeWhileD by fastforce
  have "distinct xs" unfolding xs
    using d sub inj by (simp add: distinct_map) (meson inj_on_subset)
  moreover have "int (length xs) < limit \<Longrightarrow> take (nat limit) ?tw = ?tw"
    unfolding xs by simp
  ultimately show ?thesis
    using tw lim set_take_subset [of "nat limit" ?tw] by (auto simp: xs)
qed

lemma encodeTimestamp_mono:
  "now \<le> now' \<Longrightarrow> nano_range now \<Longrightarrow> nano_range now' \<Longrightarrow> encodeTimestamp now \<le> encodeTimestamp now'"
  using encodeTimestamp_less_iff [of now' now] by (simp add: linorder_not_less [symmetric])

lemma expiredRows_mono:
  "now \<le> now' \<Longrightarrow> nano_range now \<Longrightarrow> nano_range now' \<Longrightarrow> expiredRows b now \<subseteq> expiredRows b now'"
  using encodeTimestamp_mono [of now now'] by (auto simp: expiredRows_def intro: less_le_trans)

interpretation env_expiry: expiry_contract boltEnvelopeExpiry db_inv "\<lambda>d. blobs_good (d_blobs d)" liveEnvelopes
proof unfold_locales
  fix d
  have "(\<Union>now. liveEnvelopes d now) \<subseteq> (rowEntry \<circ> fst) ` set (entries (d_env_by_expiry d))"
    by (auto simp: liveEnvelopes_def expiredRows_def)
  then show "finite (\<Union>now. liveEnvelopes d now)" by (rule finite_subset) simp
next
  fix now now' d assume "now \<le> now'" "nano_range now" "nano_range now'"
  then show "liveEnvelopes d now \<subseteq> liveEnvelopes d now'"
    unfolding liveEnvelopes_def by (intro image_mono expiredRows_mono)
next
  fix d now limit
  show "\<exists>xs. xs_Get boltEnvelopeExpiry d now limit = Inr xs" by (simp add: boltEnvelopeExpiry_def)
next
  fix d x now assume "db_inv d" "blobs_good (d_blobs d)" "x \<in> liveEnvelopes d now"
  then show "\<exists>d'. xs_Delete boltEnvelopeExpiry d x = (Inr True, d') \<and> blobs_good (d_blobs d')"
    using DeleteExpiredEnvelope_row [of d]
    by (fastforce simp: boltEnvelopeExpiry_def liveEnvelopes_def expiredRows_def)
next
  fix d limit now xs
  assume inv: "db_inv d" and lim: "0 < limit" and xs: "xs_Get boltEnvelopeExpiry d now limit = Inr xs"
  have "wf_bucket (d_env_by_expiry d)" using inv by (simp add: inv_defs)
  moreover have "xs = map (rowEntry \<circ> fst) (take (nat limit)
       (takeWhile (\<lambda>e. take 8 (fst e) < encodeTimestamp now) (entries (d_env_by_expiry d))))"
    using xs by (simp add: boltEnvelopeExpiry_def GetExpiredEnvelopes_rows)
  ultimately show "distinct xs \<and> set xs \<subseteq> liveEnvelopes d now \<and> int (length xs) \<le> limit
      \<and> (int (length xs) < limit \<longrightarrow> set xs = liveEnvelopes d now)"
    unfolding liveEnvelopes_def by (intro bounded_query rowEntry_inj [OF inv] lim)
next
  fix d x assume "db_inv d"
  then show "db_inv (snd (xs_Delete boltEnvelopeExpiry d x))"
    by (simp add: boltEnvelopeExpiry_def DeleteExpiredEnvelope_inv)
next
  fix d x err d' assume "xs_Delete boltEnvelopeExpiry d x = (Inl err, d')"
  then show "d' = d"
    by (auto simp: boltEnvelopeExpiry_def DeleteExpiredEnvelope_def batch_def split: sum.splits)
next
  fix d x now b d' t
  assume inv: "db_inv d" and x: "x \<in> liveEnvelopes d now" and del: "xs_Delete boltEnvelopeExpiry d x = (Inr b, d')"
  obtain e where e: "x = rowEntry (fst e)" "e \<in> expiredRows (d_env_by_expiry d) now"
    using x by (auto simp: liveEnvelopes_def)
  then have "e \<in> set (entries (d_env_by_expiry d))" by (simp add: expiredRows_def)
  then have "b" "d_env_by_expiry d' = bdelete (fst e) (d_env_by_expiry d)"
    using DeleteExpiredEnvelope_row [OF inv] del by (fastforce simp: boltEnvelopeExpiry_def e(1))+
  then show "b \<and> liveEnvelopes d' t = liveEnvelopes d t - {x}"
    using liveEnvelopes_delete [OF inv e(2)] e(1) by simp
qed

section \<open>The database provides it for legacy metadata\<close>

definition metaRowEntry :: "bytes bucket \<Rightarrow> bytes \<times> bytes \<Rightarrow> expiry_entry" where
  "metaRowEntry m e =
     (case parseMetaExpiryKey (fst e) of
        (t, p, k) \<Rightarrow>
          \<lparr>ee_Protocol = p, ee_Key = k, ee_ExpiresAt = t,
           ee_Size = (case bget m (snd e) of Some data \<Rightarrow> int (length data) | None \<Rightarrow> 0)\<rparr>)"

definition liveMeta :: "db \<Rightarrow> time \<Rightarrow> expiry_entry set" where
  "liveMeta d now = metaRowEntry (d_meta d) ` expiredRows (d_meta_by_expiry d) now"

lemma parse_meta_index_key:
  "length ts = 8 \<Longrightarrow>
   parseMetaExpiryKey (ts @ makeProtocolKey p k) = (decodeTimestamp ts, parseProtocolKey (makeProtocolKey p k))"
  by (simp add: parseMetaExpiryKey_def parseProtocolKey_def makeProtocolKey_def split: option.splits)

lemma meta_index_row:
  assumes inv: "db_inv d" and row: "e \<in> set (entries (d_meta_by_expiry d))"
  obtains t p k where "fst e = encodeTimestamp t @ makeProtocolKey p k" "snd e = makeProtocolKey p k"
    and "bget (d_meta_expiry_by_key d) (makeProtocolKey p k) = Some (encodeTimestamp t)"
    and "\<And>m. metaRowEntry m e =
      \<lparr>ee_Protocol = p, ee_Key = k, ee_ExpiresAt = t,
       ee_Size = (case bget m (makeProtocolKey p k) of Some data \<Rightarrow> int (length data) | None \<Rightarrow> 0)\<rparr>"
proof -
  have i: "idx_ok (d_meta_by_expiry d) (d_meta_expiry_by_key d)" "wf_bucket (d_meta_by_expiry d)"
    "\<And>ck. bget (d_meta_expiry_by_key d) ck \<noteq> None \<Longrightarrow> \<exists>p k. ck = makeProtocolKey p k"
    using inv by (simp_all add: inv_defs)
  have "bget (d_meta_by_expiry d) (fst e) = Some (snd e)" using i(2) row by (simp add: bget_Some_iff)
  then have rv: "8 \<le> length (fst e)" "snd e = drop 8 (fst e)"
    "bget (d_meta_expiry_by_key d) (snd e) = Some (take 8 (fst e))"
    using idx_ok_fwd [OF i(1), of "fst e"] by (auto split: if_splits)
  let ?ts = "take 8 (fst e)"
  obtain p k where mk: "snd e = makeProtocolKey p k" using i(3) [of "snd e"] rv(3) by blast
  obtain p' k' where pk: "parseProtocolKey (makeProtocolKey p k) = (p', k')"
    by (cases "parseProtocolKey (makeProtocolKey p k)")
  have m: "snd e = makeProtocolKey p' k'" using make_parseProtocolKey [OF pk] mk by metis
  have e: "fst e = ?ts @ makeProtocolKey p' k'" using rv(2) m by (metis append_take_drop_id)
  have ts: "length ?ts = 8" using rv(1) by simp
  show thesis
  proof (rule that [of "decodeTimestamp ?ts" p' k'])
    show "fst e = encodeTimestamp (decodeTimestamp ?ts) @ makeProtocolKey p' k'"
      using e ts by simp
    show "snd e = makeProtocolKey p' k'" by (rule m)
    show "bget (d_meta_expiry_by_key d) (makeProtocolKey p' k') = Some (encodeTimestamp (decodeTimestamp ?ts))"
      using rv(3) m ts by simp
    have "parseMetaExpiryKey (fst e) = (decodeTimestamp ?ts, p', k')"
      using parse_meta_index_key [OF ts, of p k] e m mk pk by metis
    then show "metaRowEntry mm e =
      \<lparr>ee_Protocol = p', ee_Key = k', ee_ExpiresAt = decodeTimestamp ?ts,
       ee_Size = (case bget mm (makeProtocolKey p' k') of Some data \<Rightarrow> int (length data) | None \<Rightarrow> 0)\<rparr>" for mm
      by (simp add: metaRowEntry_def m)
  qed
qed

lemma metaRowEntry_key:
  assumes inv: "db_inv d" and row: "e \<in> set (entries (d_meta_by_expiry d))"
  shows "fst e = encodeTimestamp (ee_ExpiresAt (metaRowEntry m e))
      @ makeProtocolKey (ee_Protocol (metaRowEntry m e)) (ee_Key (metaRowEntry m e))"
  by (rule meta_index_row [OF assms]) simp

lemma metaRowEntry_inj: "db_inv d \<Longrightarrow> inj_on (metaRowEntry m) (set (entries (d_meta_by_expiry d)))"
proof (rule inj_onI)
  fix e f assume inv: "db_inv d" and ef: "e \<in> set (entries (d_meta_by_expiry d))"
    "f \<in> set (entries (d_meta_by_expiry d))" "metaRowEntry m e = metaRowEntry m f"
  then have "fst e = fst f" using metaRowEntry_key [OF inv, of _ m] by metis
  moreover have "distinct (map fst (entries (d_meta_by_expiry d)))"
    using inv by (simp add: inv_defs wf_bucket_distinct)
  ultimately show "e = f" using ef(1,2) by (metis eq_key_imp_eq_value prod.collapse)
qed

lemma DeleteExpiredMeta_row:
  assumes inv: "db_inv d" and row: "e \<in> set (entries (d_meta_by_expiry d))"
  shows "\<exists>d'. DeleteExpiredMetaWithRefs d (metaRowEntry m e) = (Inr True, d')
    \<and> d_meta_by_expiry d' = bdelete (fst e) (d_meta_by_expiry d)
    \<and> d_meta d' = bdelete (snd e) (d_meta d)"
  using meta_index_row [OF assms]
proof cases
  case (1 t p k)
  then show ?thesis
    by (simp add: DeleteExpiredMetaWithRefs_def metaExpiryMatchesInTx_def deleteMetaWithRefsInTx_def
        removeMetaExpiryIndex_def updateMetaExpiryIndex_def Let_def makeMetaExpiryKey_eq)
qed

lemma liveMeta_delete:
  assumes inv: "db_inv d" and e: "e \<in> expiredRows (d_meta_by_expiry d) now"
    and d': "d_meta_by_expiry d' = bdelete (fst e) (d_meta_by_expiry d)"
      "d_meta d' = bdelete (snd e) (d_meta d)"
  shows "liveMeta d' t = liveMeta d t - {metaRowEntry (d_meta d) e}"
proof -
  let ?F = "d_meta_by_expiry d"
  have in_rows: "expiredRows ?F t \<subseteq> set (entries ?F)" "e \<in> set (entries ?F)"
    using e by (auto simp: expiredRows_def)
  have "distinct (map fst (entries ?F))" using inv by (simp add: inv_defs wf_bucket_distinct)
  then have "f = e" if "f \<in> expiredRows ?F t" "fst f = fst e" for f
    using that in_rows eq_key_imp_eq_value [of "entries ?F" "fst e" "snd e" "snd f"]
    by (cases e; cases f) auto
  then have rows: "{f \<in> expiredRows ?F t. fst f \<noteq> fst e} = expiredRows ?F t - {e}" by auto
  have same: "metaRowEntry (d_meta d') f = metaRowEntry (d_meta d) f"
    if f: "f \<in> set (entries ?F)" "fst f \<noteq> fst e" for f
  proof -
    have "snd f \<noteq> snd e"
    proof
      assume eq: "snd f = snd e"
      obtain t1 p1 k1 where 1: "fst e = encodeTimestamp t1 @ makeProtocolKey p1 k1" "snd e = makeProtocolKey p1 k1"
        "bget (d_meta_expiry_by_key d) (makeProtocolKey p1 k1) = Some (encodeTimestamp t1)"
        using meta_index_row [OF inv in_rows(2)] by metis
      obtain t2 p2 k2 where 2: "fst f = encodeTimestamp t2 @ makeProtocolKey p2 k2" "snd f = makeProtocolKey p2 k2"
        "bget (d_meta_expiry_by_key d) (makeProtocolKey p2 k2) = Some (encodeTimestamp t2)"
        using meta_index_row [OF inv f(1)] by metis
      from 1 2 eq f(2) show False by simp
    qed
    then show ?thesis by (simp add: metaRowEntry_def d'(2))
  qed
  have "metaRowEntry (d_meta d) ` (expiredRows ?F t - {e})
      = metaRowEntry (d_meta d) ` expiredRows ?F t - metaRowEntry (d_meta d) ` {e}"
    using metaRowEntry_inj [OF inv] in_rows by (intro inj_on_image_set_diff) auto
  moreover have "liveMeta d' t = metaRowEntry (d_meta d) ` (expiredRows ?F t - {e})"
    unfolding liveMeta_def d'(1) expiredRows_bdelete rows
    using same in_rows(1) rows by (intro image_cong) auto
  ultimately show ?thesis by (simp add: liveMeta_def)
qed

lemma GetExpiredMeta_rows:
  "0 < limit \<Longrightarrow> GetExpiredMeta d now limit =
     map (metaRowEntry (d_meta d)) (take (nat limit)
       (takeWhile (\<lambda>e. take 8 (fst e) < encodeTimestamp now) (entries (d_meta_by_expiry d))))"
  by (simp add: GetExpiredMeta_def limitTo_def metaRowEntry_def case_prod_unfold)

interpretation meta_expiry: expiry_contract boltMetaExpiry db_inv "\<lambda>d. True" liveMeta
proof unfold_locales
  fix d
  have "(\<Union>now. liveMeta d now) \<subseteq> metaRowEntry (d_meta d) ` set (entries (d_meta_by_expiry d))"
    by (auto simp: liveMeta_def expiredRows_def)
  then show "finite (\<Union>now. liveMeta d now)" by (rule finite_subset) simp
next
  fix now now' d assume "now \<le> now'" "nano_range now" "nano_range now'"
  then show "liveMeta d now \<subseteq> liveMeta d now'"
    unfolding liveMeta_def by (intro image_mono expiredRows_mono)
next
  fix d now limit
  show "\<exists>xs. xs_Get boltMetaExpiry d now limit = Inr xs" by (simp add: boltMetaExpiry_def)
next
  fix d x now assume "db_inv d" "x \<in> liveMeta d now"
  then show "\<exists>d'. xs_Delete boltMetaExpiry d x = (Inr True, d') \<and> True"
    using DeleteExpiredMeta_row [of d]
    by (fastforce simp: boltMetaExpiry_def liveMeta_def expiredRows_def)
next
  fix d limit now xs
  assume inv: "db_inv d" and lim: "0 < limit" and xs: "xs_Get boltMetaExpiry d now limit = Inr xs"
  have "wf_bucket (d_meta_by_expiry d)" using inv by (simp add: inv_defs)
  moreover have "xs = map (metaRowEntry (d_meta d)) (take (nat limit)
       (takeWhile (\<lambda>e. take 8 (fst e) < encodeTimestamp now) (entries (d_meta_by_expiry d))))"
    using xs lim by (simp add: boltMetaExpiry_def GetExpiredMeta_rows)
  ultimately show "distinct xs \<and> set xs \<subseteq> liveMeta d now \<and> int (length xs) \<le> limit
      \<and> (int (length xs) < limit \<longrightarrow> set xs = liveMeta d now)"
    unfolding liveMeta_def by (intro bounded_query metaRowEntry_inj [OF inv] lim)
next
  fix d x assume "db_inv d"
  then show "db_inv (snd (xs_Delete boltMetaExpiry d x))"
    by (simp add: boltMetaExpiry_def DeleteExpiredMetaWithRefs_inv)
next
  fix d x err d' assume "xs_Delete boltMetaExpiry d x = (Inl err, d')"
  then show "d' = d"
    by (auto simp: boltMetaExpiry_def DeleteExpiredMetaWithRefs_def batch_def split: sum.splits)
next
  fix d x now b d' t
  assume inv: "db_inv d" and x: "x \<in> liveMeta d now" and del: "xs_Delete boltMetaExpiry d x = (Inr b, d')"
  obtain e where e: "x = metaRowEntry (d_meta d) e" "e \<in> expiredRows (d_meta_by_expiry d) now"
    using x by (auto simp: liveMeta_def)
  then have "e \<in> set (entries (d_meta_by_expiry d))" by (simp add: expiredRows_def)
  then have "b" "d_meta_by_expiry d' = bdelete (fst e) (d_meta_by_expiry d)"
      "d_meta d' = bdelete (snd e) (d_meta d)"
    using DeleteExpiredMeta_row [OF inv, of e "d_meta d"] del by (auto simp: boltMetaExpiry_def e(1))
  then show "b \<and> liveMeta d' t = liveMeta d t - {x}"
    using liveMeta_delete [OF inv e(2)] e(1) by simp
qed

end
