(* ===== verification/MetaOps.thy ===== *)
theory MetaOps
  imports DBReach
begin

text \<open>
  Maintenance of the metadata database (\<open>store/metadb/operations.go\<close>): verifying and
  rebuilding the reference counters from the envelopes, statistics, the list of protocols,
  compaction and the export of envelopes.
\<close>

section \<open>Reference counters\<close>

record refcount_discrepancy =
  rd_Hash :: string
  rd_Stored :: int
  rd_Computed :: int

text \<open>The references of all envelopes that decode, in key order; the Go map \<open>computed\<close> counts them.\<close>

definition envelopeRefs :: "db \<Rightarrow> string list" where
  "envelopeRefs d = concat (map (\<lambda>(_, env). BlobRefs env) (goodEntries (entries (d_envs d))))"

definition computedRefs :: "db \<Rightarrow> string \<Rightarrow> int" where
  "computedRefs d h = int (count_list (envelopeRefs d) h)"

text \<open>
  Go iterates over the keys left in \<open>computed\<close> in an unspecified order, which \<open>ord\<close> chooses.
\<close>

definition VerifyEnvelopeRefcounts ::
  "(string list \<Rightarrow> string list) \<Rightarrow> db \<Rightarrow> refcount_discrepancy list" where
  "VerifyEnvelopeRefcounts ord d =
     (let blobs = goodEntries (entries (d_blobs d));
          stale = filter (\<lambda>(h, e). be_RefCount e \<noteq> computedRefs d h) blobs;
          left = filter (\<lambda>h. h \<notin> set (map fst blobs)) (remdups (envelopeRefs d))
      in map (\<lambda>(h, e). \<lparr>rd_Hash = h, rd_Stored = be_RefCount e, rd_Computed = computedRefs d h\<rparr>) stale
         @ map (\<lambda>h. \<lparr>rd_Hash = h, rd_Stored = 0, rd_Computed = computedRefs d h\<rparr>) (ord left))"

fun rebuildLoop ::
  "(string \<Rightarrow> int) \<Rightarrow> blob_entry cell bucket \<Rightarrow> int \<Rightarrow> (bytes \<times> blob_entry cell) list
     \<Rightarrow> mdb_error + (int \<times> blob_entry cell bucket)" where
  "rebuildLoop computed b updated [] = Inr (updated, b)"
| "rebuildLoop computed b updated ((k, Corrupt) # xs) = rebuildLoop computed b updated xs"
| "rebuildLoop computed b updated ((k, Good e) # xs) =
     (if be_RefCount e \<noteq> computed k then
        rbind (bolt (bput k (Good (e\<lparr>be_RefCount := computed k\<rparr>)) b))
          (\<lambda>b'. rebuildLoop computed b' (updated + 1) xs)
      else rebuildLoop computed b updated xs)"

definition RebuildEnvelopeRefcounts :: "db \<Rightarrow> (mdb_error + int) \<times> db" where
  "RebuildEnvelopeRefcounts d =
     batch d (rbind (rebuildLoop (computedRefs d) (d_blobs d) 0 (entries (d_blobs d)))
       (\<lambda>(updated, b). Inr (updated, d\<lparr>d_blobs := b\<rparr>)))"

section \<open>Statistics\<close>

record envelope_stats =
  st_EnvelopeCount :: int
  st_BlobCount :: int
  st_ExpiredCount :: int
  st_TotalPayloadSize :: int
  st_CompressedCount :: int
  st_OldestFetchedAt :: time
  st_NewestFetchedAt :: time
  st_ByProtocol :: "string \<Rightarrow> int"
  st_ByKind :: "string \<Rightarrow> int"
  st_ByProtocolKind :: "string \<Rightarrow> int"
  st_DBFileSize :: int
  st_NegativeCacheCount :: int

definition bump :: "string \<Rightarrow> (string \<Rightarrow> int) \<Rightarrow> string \<Rightarrow> int" where
  "bump k f = f(k := f k + 1)"

text \<open>\<open>int64(env.PayloadSize)\<close> reinterprets the 64 bits of the unsigned field.\<close>

definition payloadBytes :: "envelope \<Rightarrow> int" where
  "payloadBytes env = min (sint (word_of_nat (PayloadSize env) :: 64 word)) (int MaxPayloadSize)"

definition statsStep :: "time \<Rightarrow> envelope_stats \<Rightarrow> bytes \<times> envelope cell \<Rightarrow> envelope_stats" where
  "statsStep now st e =
     (case parseEnvelopeKey (fst e) of
        (protocol, kind, _) \<Rightarrow>
          let st1 = st\<lparr>st_EnvelopeCount := st_EnvelopeCount st + 1,
                       st_ByProtocol := bump protocol (st_ByProtocol st),
                       st_ByKind := bump kind (st_ByKind st),
                       st_ByProtocolKind := bump (protocol @ ''/'' @ kind) (st_ByProtocolKind st)\<rparr>
          in case snd e of
               Corrupt \<Rightarrow> st1
             | Good env \<Rightarrow>
                 let fetchedAt = time_UnixMilli (FetchedAtUnixMs env)
                 in st1\<lparr>st_TotalPayloadSize := st_TotalPayloadSize st1 + payloadBytes env,
                        st_CompressedCount := st_CompressedCount st1
                          + (if ContentEncoding env = ENC_ZSTD then 1 else 0),
                        st_NegativeCacheCount := st_NegativeCacheCount st1
                          + (if UpstreamStatus env \<ge> 400 then 1 else 0),
                        st_ExpiredCount := st_ExpiredCount st1
                          + (if ExpiresAtUnixMs env > 0 \<and> ExpiresAtUnixMs env < UnixMilli now then 1 else 0),
                        st_OldestFetchedAt :=
                          (if IsZero (st_OldestFetchedAt st1) \<or> fetchedAt < st_OldestFetchedAt st1
                           then fetchedAt else st_OldestFetchedAt st1),
                        st_NewestFetchedAt :=
                          (if fetchedAt > st_NewestFetchedAt st1 then fetchedAt else st_NewestFetchedAt st1)\<rparr>)"

definition EnvelopeStats :: "time \<Rightarrow> int \<Rightarrow> db \<Rightarrow> envelope_stats" where
  "EnvelopeStats now fileSize d =
     (foldl (statsStep now)
        \<lparr>st_EnvelopeCount = 0, st_BlobCount = 0, st_ExpiredCount = 0, st_TotalPayloadSize = 0,
         st_CompressedCount = 0, st_OldestFetchedAt = zero_time, st_NewestFetchedAt = zero_time,
         st_ByProtocol = (\<lambda>_. 0), st_ByKind = (\<lambda>_. 0), st_ByProtocolKind = (\<lambda>_. 0),
         st_DBFileSize = 0, st_NegativeCacheCount = 0\<rparr>
        (entries (d_envs d)))
     \<lparr>st_BlobCount := int (keyN (d_blobs d)), st_DBFileSize := fileSize\<rparr>"

definition ListEnvelopeProtocols :: "db \<Rightarrow> string list" where
  "ListEnvelopeProtocols d =
     foldl (\<lambda>protocols e.
              case parseEnvelopeKey (fst e) of
                (protocol, kind, _) \<Rightarrow>
                  let pk = protocol @ ''/'' @ kind
                  in if pk \<in> set protocols then protocols else protocols @ [pk])
       [] (entries (d_envs d))"

section \<open>Compaction and export\<close>

text \<open>One bucket copied into a bucket of the destination, entry by entry.\<close>

fun compactBucket :: "'v bucket \<Rightarrow> (bytes \<times> 'v) list \<Rightarrow> bolt_error + 'v bucket" where
  "compactBucket dest [] = Inr dest"
| "compactBucket dest ((k, v) # xs) = rbind (bput k v dest) (\<lambda>dest'. compactBucket dest' xs)"

definition CompactDB :: "db \<Rightarrow> db \<Rightarrow> bolt_error + db" where
  "CompactDB src dest =
     rbind (compactBucket (d_meta dest) (entries (d_meta src)))
    (\<lambda>m. rbind (compactBucket (d_blobs dest) (entries (d_blobs src)))
    (\<lambda>b. rbind (compactBucket (d_meta_by_expiry dest) (entries (d_meta_by_expiry src)))
    (\<lambda>mx. rbind (compactBucket (d_meta_expiry_by_key dest) (entries (d_meta_expiry_by_key src)))
    (\<lambda>mk. rbind (compactBucket (d_meta_refs dest) (entries (d_meta_refs src)))
    (\<lambda>mr. rbind (compactBucket (d_envs dest) (entries (d_envs src)))
    (\<lambda>ev. rbind (compactBucket (d_env_by_expiry dest) (entries (d_env_by_expiry src)))
    (\<lambda>ex. rbind (compactBucket (d_env_expiry_by_key dest) (entries (d_env_expiry_by_key src)))
    (\<lambda>ek. rbind (compactBucket (d_env_refs dest) (entries (d_env_refs src)))
    (\<lambda>er. Inr \<lparr>d_meta = m, d_blobs = b, d_meta_by_expiry = mx, d_meta_expiry_by_key = mk,
               d_meta_refs = mr, d_envs = ev, d_env_by_expiry = ex, d_env_expiry_by_key = ek,
               d_env_refs = er\<rparr>)))))))))"

record export_entry =
  ex_Protocol :: string
  ex_Kind :: string
  ex_Key :: string
  ex_Envelope :: envelope

definition ExportEnvelopes :: "db \<Rightarrow> export_entry list" where
  "ExportEnvelopes d =
     map (\<lambda>(k, env).
            (case parseEnvelopeKey k of
               (protocol, kind, key) \<Rightarrow>
                 \<lparr>ex_Protocol = protocol, ex_Kind = kind, ex_Key = key,
                  ex_Envelope = env\<lparr>Payload := []\<rparr>\<rparr>))
       (goodEntries (entries (d_envs d)))"

section \<open>Lemmas: counters\<close>

lemma count_list_concat: "count_list (concat xss) h = sum_list (map (\<lambda>xs. count_list xs h) xss)"
  by (induction xss) auto

lemma envelopeRefs_entries:
  assumes "list_all (\<lambda>e. \<exists>env. snd e = Good env) xs"
  shows "count_list (concat (map (\<lambda>(_, env). BlobRefs env) (goodEntries xs))) h
    = sum_list (map (\<lambda>e. case snd e of Good env \<Rightarrow> count_list (BlobRefs env) h | Corrupt \<Rightarrow> 0) xs)"
  using assms by (induction xs rule: goodEntries.induct) auto

text \<open>Two sorted buckets with the same keys and pointwise equal weights have the same sum.\<close>

lemma bsum_eq:
  assumes "wf_bucket a" "wf_bucket b"
    and "\<And>k. map_option f (bget a k) = map_option g (bget b k)"
  shows "bsum f a = bsum g b"
proof -
  have sum: "bsum w c = (\<Sum>k \<in> fst ` set (entries c). w (the (bget c k)))"
    if "wf_bucket c" for w :: "'x \<Rightarrow> nat" and c :: "'x bucket"
  proof -
    have d: "distinct (map fst (entries c))" using that by (rule wf_bucket_distinct)
    have "bsum w c = sum_list (map (\<lambda>k. w (the (bget c k))) (map fst (entries c)))"
      unfolding bsum_def map_map
      by (intro arg_cong [where f = sum_list] map_cong refl) (use that in \<open>auto simp: bget_Some_iff [symmetric]\<close>)
    then show ?thesis using d by (metis set_map sum_list_distinct_conv_sum_set)
  qed
  have "fst ` set (entries a) = fst ` set (entries b)"
    using assms(3) by (metis (no_types, opaque_lifting) bget_None_iff option.map_disc_iff subsetI subset_antisym)
  moreover have "f (the (bget a k)) = g (the (bget b k))" if "k \<in> fst ` set (entries a)" for k
    using assms(3) [of k] that bget_None_iff [of a k] by (cases "bget a k"; cases "bget b k") auto
  ultimately show ?thesis unfolding sum [OF assms(1)] sum [OF assms(2)] by (intro sum.cong) auto
qed

text \<open>Under the invariant the computed count is the number of recorded envelope references.\<close>

lemma computedRefs_refCount:
  assumes "env_rows d" "wf_bucket (d_envs d)" "wf_bucket (d_env_refs d)"
  shows "computedRefs d h = int (refCount (d_env_refs d) h)"
proof -
  let ?w = "\<lambda>c. case c of Good env \<Rightarrow> count_list (BlobRefs env) h | Corrupt \<Rightarrow> 0"
  have row: "env_row k (bget (d_envs d) k) (bget (d_env_refs d) k) (bget (d_env_expiry_by_key d) k)" for k
    using assms(1) by (simp add: env_rows_def)
  have "snd e \<noteq> Corrupt" if "e \<in> set (entries (d_envs d))" for e
  proof
    assume "snd e = Corrupt"
    then have "bget (d_envs d) (fst e) = Some Corrupt"
      using that assms(2) by (metis bget_Some_iff prod.collapse)
    with row [of "fst e"] show False by (simp add: env_row_def)
  qed
  then have "list_all (\<lambda>e. \<exists>env. snd e = Good env) (entries (d_envs d))"
    unfolding list_all_iff by (metis cell.exhaust)
  then have "count_list (envelopeRefs d) h = bsum ?w (d_envs d)"
    unfolding envelopeRefs_def bsum_def by (rule envelopeRefs_entries)
  also have "\<dots> = refCount (d_env_refs d) h"
    unfolding refCount_def
  proof (rule bsum_eq [OF assms(2,3)])
    show "map_option ?w (bget (d_envs d) k)
        = map_option (\<lambda>c. count_list (cellRefs c) h) (bget (d_env_refs d) k)" for k
      using row [of k] by (auto simp: env_row_def split: option.splits cell.splits)
  qed
  finally show ?thesis by (simp add: computedRefs_def)
qed

lemma rebuildLoop_spec:
  assumes "rebuildLoop computed b n xs = Inr (n', b')"
    and "wf_bucket b" "distinct (map fst xs)" "\<And>k c. (k, c) \<in> set xs \<Longrightarrow> bget b k = Some c"
  shows "wf_bucket b' \<and> (\<forall>h. bget b' h =
      (if h \<in> fst ` set xs then map_option (map_cell (\<lambda>e. e\<lparr>be_RefCount := computed h\<rparr>)) (bget b h)
       else bget b h))
    \<and> n' = n + int (length (filter (\<lambda>(k, e). be_RefCount e \<noteq> computed k) (goodEntries xs)))"
  using assms
proof (induction computed b n xs rule: rebuildLoop.induct)
  case (2 computed b n k xs)
  have k: "bget b k = Some Corrupt" using "2.prems"(4) by simp
  show ?case using 2 by (auto simp: image_iff k)
next
  case (3 computed b n k e xs)
  have k: "bget b k = Some (Good e)" using "3.prems"(4) by simp
  have nk: "k \<notin> fst ` set xs" using "3.prems"(3) by simp
  show ?case
  proof (cases "be_RefCount e = computed k")
    case True
    then have "e\<lparr>be_RefCount := computed k\<rparr> = e" by simp
    then show ?thesis using 3 True nk by (auto simp: image_iff k)
  next
    case False
    then obtain b1 where b1: "valid_key k" "b1 = bset k (Good (e\<lparr>be_RefCount := computed k\<rparr>)) b"
      and rest: "rebuildLoop computed b1 (n + 1) xs = Inr (n', b')"
      using "3.prems"(1) by (auto simp: tx_unfold)
    have mem: "bget b1 k' = Some c" if "(k', c) \<in> set xs" for k' c
      using that "3.prems"(4) nk by (force simp: b1(2))
    have wf: "wf_bucket b1" using "3.prems"(2) b1 by auto
    have "wf_bucket b' \<and> (\<forall>h. bget b' h =
        (if h \<in> fst ` set xs then map_option (map_cell (\<lambda>e. e\<lparr>be_RefCount := computed h\<rparr>)) (bget b1 h)
         else bget b1 h))
      \<and> n' = n + 1 + int (length (filter (\<lambda>(k, e). be_RefCount e \<noteq> computed k) (goodEntries xs)))"
      by (rule "3.IH"(1) [OF False rest wf _ mem]) (use "3.prems"(3) in simp_all)
    then show ?thesis using False k nk by (auto simp: b1(2))
  qed
qed auto

lemma RebuildEnvelopeRefcounts_spec:
  assumes "RebuildEnvelopeRefcounts d = (Inr n, d')" and "wf_bucket (d_blobs d)"
  shows "d' = d\<lparr>d_blobs := d_blobs d'\<rparr>" "wf_bucket (d_blobs d')"
    and "bget (d_blobs d') h =
      map_option (map_cell (\<lambda>e. e\<lparr>be_RefCount := computedRefs d h\<rparr>)) (bget (d_blobs d) h)"
    and "n = int (length (filter (\<lambda>(k, e). be_RefCount e \<noteq> computedRefs d k) (goodEntries (entries (d_blobs d)))))"
proof -
  obtain b where b: "rebuildLoop (computedRefs d) (d_blobs d) 0 (entries (d_blobs d)) = Inr (n, b)"
    and d': "d' = d\<lparr>d_blobs := b\<rparr>"
    using assms(1) by (auto simp: RebuildEnvelopeRefcounts_def batch_def result_simps split: sum.splits)
  note spec = rebuildLoop_spec [OF b assms(2) wf_bucket_distinct [OF assms(2)]]
  have all: "\<And>k c. (k, c) \<in> set (entries (d_blobs d)) \<Longrightarrow> bget (d_blobs d) k = Some c"
    using assms(2) by (simp add: bget_Some_iff)
  show "d' = d\<lparr>d_blobs := d_blobs d'\<rparr>" "wf_bucket (d_blobs d')" using spec [OF all] by (simp_all add: d')
  show "bget (d_blobs d') h =
      map_option (map_cell (\<lambda>e. e\<lparr>be_RefCount := computedRefs d h\<rparr>)) (bget (d_blobs d) h)"
    using spec [OF all] bget_None_iff [of "d_blobs d" h] by (auto simp: d')
  show "n = int (length (filter (\<lambda>(k, e). be_RefCount e \<noteq> computedRefs d k) (goodEntries (entries (d_blobs d)))))"
    using spec [OF all] by simp
qed

lemma rebuildLoop_ok:
  assumes "list_all (\<lambda>e. valid_key (fst e)) xs"
  shows "\<exists>r. rebuildLoop computed b n xs = Inr r"
  using assms
  by (induction computed b n xs rule: rebuildLoop.induct) (auto simp: bolt_def)

lemma RebuildEnvelopeRefcounts_ok:
  assumes "wf_bucket (d_blobs d)"
  shows "\<exists>n d'. RebuildEnvelopeRefcounts d = (Inr n, d')"
proof -
  have "list_all (\<lambda>e. valid_key (fst e)) (entries (d_blobs d))" using assms by (simp add: wf_bucket_def)
  then obtain n b where "rebuildLoop (computedRefs d) (d_blobs d) 0 (entries (d_blobs d)) = Inr (n, b)"
    using rebuildLoop_ok by (metis surj_pair)
  then show ?thesis by (simp add: RebuildEnvelopeRefcounts_def)
qed

text \<open>When the counters agree with the envelopes and no blob is missing, verification is silent.\<close>

lemma verify_nothing:
  assumes wf: "wf_bucket (d_blobs d)"
    and counts: "\<And>h e. bget (d_blobs d) h = Some (Good e) \<Longrightarrow> be_RefCount e = computedRefs d h"
    and present: "\<And>h. h \<in> set (envelopeRefs d) \<Longrightarrow> \<exists>e. bget (d_blobs d) h = Some (Good e)"
    and ord: "\<And>xs. set (ord xs) = set xs"
  shows "VerifyEnvelopeRefcounts ord d = []"
proof -
  let ?blobs = "goodEntries (entries (d_blobs d))"
  have "be_RefCount e = computedRefs d h" if "(h, e) \<in> set ?blobs" for h e
    using that wf counts by (simp add: goodEntries_in bget_Some_iff)
  then have a: "filter (\<lambda>(h, e). be_RefCount e \<noteq> computedRefs d h) ?blobs = []"
    by (auto simp: filter_empty_conv)
  have "h \<in> fst ` set ?blobs" if hin: "h \<in> set (envelopeRefs d)" for h
  proof -
    obtain e where "(h, e) \<in> set ?blobs"
      using present [OF hin] wf by (auto simp: goodEntries_in bget_Some_iff)
    then show ?thesis by (metis fst_conv imageI)
  qed
  then have b: "filter (\<lambda>h. h \<notin> set (map fst ?blobs)) (remdups (envelopeRefs d)) = []"
    by (auto simp: filter_empty_conv)
  have "ord [] = []" using ord [of "[]"] by simp
  then show ?thesis unfolding VerifyEnvelopeRefcounts_def Let_def a b by simp
qed

text \<open>A rebuild of any blob table that is well formed.\<close>

lemma computedRefs_card: "db_inv d \<Longrightarrow> computedRefs d h = int (card (envelopesNaming d h))"
  using computedRefs_refCount [of d h] refCount_envelopesNaming [of d h] by (simp add: inv_defs)

lemma computedRefs_pos: "h \<in> set (envelopeRefs d) \<longleftrightarrow> computedRefs d h \<noteq> 0"
  by (simp add: computedRefs_def count_list_0_iff)

lemma computedRefs_cong: "d_envs d' = d_envs d \<Longrightarrow> computedRefs d' = computedRefs d"
  by (simp add: computedRefs_def envelopeRefs_def fun_eq_iff)

section \<open>Lemmas: compaction\<close>

lemma compactBucket_append:
  assumes "sorted_wrt (<) (map fst (entries dest @ xs))" "list_all (\<lambda>e. valid_key (fst e)) xs"
  shows "compactBucket dest xs = Inr (dest\<lparr>entries := entries dest @ xs\<rparr>)"
  using assms
proof (induction dest xs rule: compactBucket.induct)
  case (2 dest k v xs)
  have "\<forall>y \<in> fst ` set (entries dest). y < k" using "2.prems"(1) by (auto simp: sorted_wrt_append)
  then have k: "bput k v dest = Inr (dest\<lparr>entries := entries dest @ [(k, v)]\<rparr>)"
    using "2.prems"(2) by (simp add: bput_Inr bset_def kins_append_last)
  show ?case using "2.IH" "2.prems" k by simp
qed simp

text \<open>A compacted bucket has the entries of the original; its sequence counter starts again.\<close>

lemma compactBucket_fresh:
  "wf_bucket b \<Longrightarrow> compactBucket empty_bucket (entries b) = Inr (b\<lparr>bseq := 0\<rparr>)"
  using compactBucket_append [of empty_bucket "entries b"]
  by (simp add: wf_bucket_def empty_bucket_def)

definition reset_seq :: "db \<Rightarrow> db" where
  "reset_seq d =
     \<lparr>d_meta = (d_meta d)\<lparr>bseq := 0\<rparr>, d_blobs = (d_blobs d)\<lparr>bseq := 0\<rparr>,
      d_meta_by_expiry = (d_meta_by_expiry d)\<lparr>bseq := 0\<rparr>,
      d_meta_expiry_by_key = (d_meta_expiry_by_key d)\<lparr>bseq := 0\<rparr>,
      d_meta_refs = (d_meta_refs d)\<lparr>bseq := 0\<rparr>, d_envs = (d_envs d)\<lparr>bseq := 0\<rparr>,
      d_env_by_expiry = (d_env_by_expiry d)\<lparr>bseq := 0\<rparr>,
      d_env_expiry_by_key = (d_env_expiry_by_key d)\<lparr>bseq := 0\<rparr>,
      d_env_refs = (d_env_refs d)\<lparr>bseq := 0\<rparr>\<rparr>"

lemma CompactDB_fresh: "db_inv d \<Longrightarrow> CompactDB d createBuckets = Inr (reset_seq d)"
  by (simp add: CompactDB_def createBuckets_def reset_seq_def compactBucket_fresh inv_defs)
end
