(* ===== verification/Samples.thy ===== *)
theory Samples
  imports EnvelopeSpec
begin

text \<open>
  Concrete values for the theorems that apply a property at an input: two content hashes,
  an envelope that names the blob of one, and databases that store them, each the result of
  running the operations from the empty database.
\<close>

definition hash0 :: hash where
  "hash0 = zero_hash"

definition hash1 :: hash where
  "hash1 = replicate HashSize (CHR ''1'')"

definition ref0 :: string where
  "ref0 = BlobRef_String (NewBlobRef hash0)"

definition ref1 :: string where
  "ref1 = BlobRef_String (NewBlobRef hash1)"

definition env0 :: envelope where
  "env0 =
     \<lparr>EnvelopeVersion = CurrentEnvelopeVersion, ContentType = CT_JSON, ContentEncoding = ENC_IDENTITY,
      Payload = ''{}'', PayloadDigest = [], PayloadSize = 2, FetchedAtUnixMs = 1000,
      ExpiresAtUnixMs = 2000, TtlSeconds = 1, Etag = [], LastModifiedUnixMs = 0, UpstreamHost = [],
      UpstreamStatus = 200, BlobRefs = [ref0], Attributes = []\<rparr>"

definition key0 :: bytes where
  "key0 = makeEnvelopeKey ''npm'' ''metadata'' ''left-pad''"

definition blob0 :: "int \<Rightarrow> blob_entry" where
  "blob0 n = \<lparr>be_Hash = ref0, be_Size = 5, be_CachedAt = 1, be_LastAccess = 1, be_RefCount = n, be_AccessCount = 0\<rparr>"

definition blob1 :: blob_entry where
  "blob1 = \<lparr>be_Hash = ref1, be_Size = 7, be_CachedAt = 1, be_LastAccess = 1, be_RefCount = 0, be_AccessCount = 0\<rparr>"

text \<open>Two blobs, and then the envelope.\<close>

definition db1 :: db where
  "db1 = createBuckets\<lparr>d_blobs := bset ref0 (Good (blob0 0)) empty_bucket\<rparr>"

definition db2 :: db where
  "db2 = db1\<lparr>d_blobs := bset ref1 (Good blob1) (d_blobs db1)\<rparr>"

definition db3 :: db where
  "db3 = db2\<lparr>d_blobs := bset ref0 (Good (blob0 1)) (d_blobs db2),
     d_envs := bset key0 (Good env0) empty_bucket,
     d_env_refs := bset key0 (Good [ref0]) empty_bucket,
     d_env_by_expiry := bset (encodeTimestamp 2000000000 @ key0) key0 empty_bucket,
     d_env_expiry_by_key := bset key0 (encodeTimestamp 2000000000) empty_bucket\<rparr>"

text \<open>The envelope alone.\<close>

definition db4 :: db where
  "db4 = createBuckets\<lparr>
     d_envs := bset key0 (Good env0) empty_bucket,
     d_env_refs := bset key0 (Good [ref0]) empty_bucket,
     d_env_by_expiry := bset (encodeTimestamp 2000000000 @ key0) key0 empty_bucket,
     d_env_expiry_by_key := bset key0 (encodeTimestamp 2000000000) empty_bucket\<rparr>"

lemma is_hash_samples [simp]: "is_hash hash0" "is_hash hash1"
  by (simp_all add: hash0_def hash1_def is_hash_def zero_hash_def)

lemma hash_samples_neq [simp]: "hash0 \<noteq> hash1" "hash1 \<noteq> hash0"
  by (simp_all add: hash0_def hash1_def zero_hash_def HashSize_def)

lemma ref_samples [simp]:
  "ref0 \<noteq> ref1" "ref1 \<noteq> ref0" "ToLower U ref0 = ref0" "ToLower U ref1 = ref1"
  "ValidateDigestFormat U ref0 = Inr ()" "ValidateDigestFormat U ref1 = Inr ()"
  "CanonicalizeRefs U [ref0] = [ref0]"
  by (simp_all add: ref0_def ref1_def CanonicalizeRefs_def)

lemma env0_simps [simp]:
  "BlobRefs env0 = [ref0]" "ExpiresAtUnixMs env0 = 2000" "canonEnv U env0 = env0"
  "ValidateEnvelope U (Some env0) = Inr ()"
  by (simp_all add: env0_def canonEnv_def ValidateEnvelope_def attributesSize_def)

lemma env0_canon [simp]: "env0\<lparr>BlobRefs := [ref0]\<rparr> = env0"
  by (simp add: env0_def)

lemma blob_samples [simp]:
  "be_RefCount (blob0 n) = n" "be_Hash (blob0 n) = ref0" "be_RefCount blob1 = 0" "be_Hash blob1 = ref1"
  by (simp_all add: blob0_def blob1_def)

lemma key0_eq: "makeEnvelopeKey ''npm'' ''metadata'' ''left-pad'' = key0"
  by (simp add: key0_def)

lemma valid_key0 [simp]: "valid_key key0" "valid_key (encodeTimestamp t @ key0)"
  by (simp_all add: key0_def valid_key_def maxKeySize_def makeEnvelopeKey_def)

lemma valid_refs [simp]: "valid_key ref0" "valid_key ref1"
  by (simp_all add: ref0_def ref1_def valid_key_def maxKeySize_def BlobRef_String_def NewBlobRef_def
      AlgBLAKE3_def)

lemma ok_id0 [simp]: "ok_id (''npm'', ''metadata'', ''left-pad'')"
  by (simp add: ok_id_def sep_def)

lemmas sample_defs = db1_def db2_def db3_def db4_def createBuckets_def blob0_def blob1_def

lemmas put_defs = PutEnvelope_def Let_def DiffRefs_def getRefs_def incrementBlobRefInTx_def incRef_def
  bolt_def batch_def updateEnvelopeExpiryIndex_def makeEnvelopeExpiryKey_eq time_UnixMilli_def

section \<open>Runs\<close>

lemma run_db1: "PutBlob createBuckets (blob0 0) = (Inr (), db1)"
  by (simp add: PutBlob_def sample_defs batch_def bolt_def)

lemma run_db2: "PutBlob db1 blob1 = (Inr (), db2)"
  by (simp add: PutBlob_def sample_defs batch_def bolt_def)

lemma run_db3:
  "PutEnvelope U (\<lambda>_. True) db2 ''npm'' ''metadata'' ''left-pad'' (Some env0) = (Inr (), db3)"
  by (simp add: key0_eq put_defs sample_defs)

lemma run_db4:
  "PutEnvelope U (\<lambda>_. True) createBuckets ''npm'' ''metadata'' ''left-pad'' (Some env0) = (Inr (), db4)"
  by (simp add: key0_eq put_defs sample_defs)

text \<open>In these runs every counter is kept.\<close>

lemma runs_db2: "db_runs U (\<lambda>_. True) {} db2"
proof -
  have "refsTo createBuckets h = 0" "refsTo db1 h = 0" for h
    by (simp_all add: refsTo_def refCount_def bsum_def sample_defs)
  then have w: "putWrites createBuckets (blob0 0) = {}" "putWrites db1 blob1 = {}"
    by (simp_all add: putWrites_def sample_defs blob1_def)
  have "db_step U (\<lambda>_. True) createBuckets {} db1"
    using step_PutBlob [of U _ createBuckets "blob0 0"] by (simp add: run_db1 w)
  moreover have "db_step U (\<lambda>_. True) db1 {} db2"
    using step_PutBlob [of U _ db1 blob1] by (simp add: run_db2 w)
  ultimately show ?thesis by (blast intro: runs_quiet runs_init)
qed

lemma runs_db3: "db_runs U (\<lambda>_. True) {} db3"
  using runs_quiet [OF runs_db2 step_PutEnvelope] by (metis run_db3 snd_conv)

lemma reach_db2: "db_reach U (\<lambda>_. True) db2" and reach_db3: "db_reach U (\<lambda>_. True) db3"
  unfolding db_reach_def by (blast intro: runs_db2 runs_db3)+

lemma reach_db4: "db_reach U (\<lambda>_. True) db4"
  using reach_step [OF reach_init step_PutEnvelope] by (metis run_db4 snd_conv)

lemma inv_db3: "db_inv db3" and inv_db4: "db_inv db4"
  using reach_db3 reach_db4 by (blast intro: db_reach_inv)+

end
