(* ===== verification/DBProperties.thy ===== *)
theory DBProperties
  imports Reapers MetaOps Samples
begin

text \<open>
  The properties of the metadata database.
\<close>

section \<open>Reference counters\<close>


lemma blob_db3: "GetBlob db3 ref0 = Inr (blob0 1)" "GetBlob db3 ref1 = Inr blob1"
  by (simp_all add: GetBlob_Inr db3_def db2_def db1_def)


lemma envelope_db3: "GetEnvelope db3 ''npm'' ''metadata'' ''left-pad'' = Inr env0"
  by (simp add: GetEnvelope_Inr key0_eq db3_def)

section \<open>Expiry\<close>

text \<open>The query of the reaper returns exactly the stored envelopes whose expiry lies before
  the given time, provided the times are in the range of 64-bit nanoseconds.\<close>

theorem expired_query_exact:
  assumes "db_reach U mar d" and "expiries_in_range d" "nano_range before"
    and "int (keyN (d_env_by_expiry d)) \<le> limit"
  shows "set (GetExpiredEnvelopes d before limit) =
    {expiryEntryOf p kd k env | p kd k env.
       sep \<notin> set p \<and> sep \<notin> set kd \<and> GetEnvelope d p kd k = Inr env
       \<and> 0 < ExpiresAtUnixMs env \<and> time_UnixMilli (ExpiresAtUnixMs env) < before}"
  using GetExpiredEnvelopes_exact [OF db_reach_inv] assms by (simp add: GetEnvelope_Inr)

lemma envs_db3: "bget (d_envs db3) ck = (if ck = key0 then Some (Good env0) else None)"
  by (simp add: db3_def)

lemma range_db3: "expiries_in_range db3"
  by (simp add: expiries_in_range_def envs_db3 time_UnixMilli_def nano_range_def)

theorem expired_query_exact_witness:
  "set (GetExpiredEnvelopes db3 3000000000 10) = {expiryEntryOf ''npm'' ''metadata'' ''left-pad'' env0}"
proof -
  have lim: "int (keyN (d_env_by_expiry db3)) \<le> 10"
    by (simp add: db3_def keyN_def bset_def empty_bucket_def)
  have rng: "nano_range 3000000000" by (simp add: nano_range_def)
  have key: "sep \<notin> set p \<and> sep \<notin> set kd \<and> makeEnvelopeKey p kd k = key0
      \<longleftrightarrow> p = ''npm'' \<and> kd = ''metadata'' \<and> k = ''left-pad''" for p kd k
    using ok_id0 by (auto simp: key0_def ok_id_def makeEnvelopeKey_inject)
  have "{expiryEntryOf p kd k env | p kd k env.
       sep \<notin> set p \<and> sep \<notin> set kd \<and> GetEnvelope db3 p kd k = Inr env
       \<and> 0 < ExpiresAtUnixMs env \<and> time_UnixMilli (ExpiresAtUnixMs env) < 3000000000}
    = {expiryEntryOf ''npm'' ''metadata'' ''left-pad'' env0}" (is "?L = {?x}")
  proof (intro equalityI subsetI)
    fix x assume "x \<in> ?L"
    then obtain p kd k env where x: "x = expiryEntryOf p kd k env" "sep \<notin> set p" "sep \<notin> set kd"
      "GetEnvelope db3 p kd k = Inr env" by blast
    then have "env = env0" "p = ''npm'' \<and> kd = ''metadata'' \<and> k = ''left-pad''"
      using key [of p kd k] by (simp_all add: GetEnvelope_Inr envs_db3 split: if_splits)
    with x show "x \<in> {?x}" by simp
  next
    fix x assume "x \<in> {?x}"
    moreover have "?x \<in> ?L"
      by (intro CollectI exI [of _ "''npm''"] exI [of _ "''metadata''"] exI [of _ "''left-pad''"] exI [of _ env0])
         (simp add: envelope_db3 time_UnixMilli_def sep_def)
    ultimately show "x \<in> ?L" by simp
  qed
  then show ?thesis unfolding expired_query_exact [OF reach_db3 [of id] range_db3 rng lim] .
qed

text \<open>The reaper deletes an envelope only while it still has the expiry the reaper saw; then
  the envelope is gone and every other one is untouched. If it was refreshed in between, or no
  longer expires, nothing changes.\<close>

theorem expired_delete_conditional:
  assumes reach: "db_reach U mar d" and env: "GetEnvelope d p kd k = Inr env"
    and rng: "nano_range (time_UnixMilli (ExpiresAtUnixMs env))" "nano_range t"
  defines "x \<equiv> \<lparr>xe_Protocol = p, xe_Kind = kd, xe_Key = k, xe_ExpiresAt = t\<rparr>"
  shows "if 0 < ExpiresAtUnixMs env \<and> t = time_UnixMilli (ExpiresAtUnixMs env)
    then \<exists>d'. DeleteExpiredEnvelope d x = (Inr True, d')
           \<and> d_envs d' = bdelete (makeEnvelopeKey p kd k) (d_envs d)
    else DeleteExpiredEnvelope d x = (Inr False, d)"
proof -
  have inv: "db_inv d" and good: "blobs_good (d_blobs d)"
    using reach by (rule db_reach_inv, rule db_reach_good)
  note env' = env [unfolded GetEnvelope_Inr]
  show ?thesis
  proof (cases "0 < ExpiresAtUnixMs env \<and> t = time_UnixMilli (ExpiresAtUnixMs env)")
    case True
    then have "x = expiryEntryOf p kd k env" by (simp add: x_def expiryEntryOf_def)
    then show ?thesis using DeleteExpiredEnvelope_match [OF inv env' _ good] True by auto
  next
    case False
    then have "DeleteExpiredEnvelope d x = (Inr False, d)"
      using rng by (intro DeleteExpiredEnvelope_stale [OF inv env']) (auto simp: x_def)
    then show ?thesis using False by (simp only: if_False)
  qed
qed

lemma range0: "nano_range (time_UnixMilli (ExpiresAtUnixMs env0))" "nano_range 1"
  by (simp_all add: nano_range_def time_UnixMilli_def)

theorem expired_delete_conditional_witness:
  "DeleteExpiredEnvelope db3
     \<lparr>xe_Protocol = ''npm'', xe_Kind = ''metadata'', xe_Key = ''left-pad'', xe_ExpiresAt = 1\<rparr> = (Inr False, db3)"
  using expired_delete_conditional [OF reach_db3 [of id] envelope_db3 range0] by (simp add: time_UnixMilli_def)

section \<open>The envelope store is a map\<close>

text \<open>C23: seen through \<open>absEnvs\<close>, storing, updating and deleting an envelope are the update and
  the deletion of one entry of a map, reading is its lookup, and an operation that returns an
  error changes nothing at all.\<close>

theorem envelope_store_refines_map:
  assumes "db_reach U mar d" and "ok_id (p, kd, k)"
  shows "(case PutEnvelope U mar d p kd k (Some env) of
            (Inl _, d') \<Rightarrow> d' = d
          | (Inr _, d') \<Rightarrow> absEnvs d' = (absEnvs d)((p, kd, k) \<mapsto> canonEnv U env))
    \<and> (case DeleteEnvelope d p kd k of
            (Inl _, d') \<Rightarrow> d' = d
          | (Inr _, d') \<Rightarrow> absEnvs d' = (absEnvs d)((p, kd, k) := None))
    \<and> (case UpdateEnvelope U mar d p kd k fn of
            (Inl _, d') \<Rightarrow> d' = d
          | (Inr _, d') \<Rightarrow> \<exists>r. fn (absEnvs d (p, kd, k)) = Inr r
              \<and> absEnvs d' = (absEnvs d)((p, kd, k) := map_option (canonEnv U) r))
    \<and> GetEnvelope d p kd k = (case absEnvs d (p, kd, k) of None \<Rightarrow> Inl ErrNotFound | Some e \<Rightarrow> Inr e)"
proof (intro conjI)
  show "GetEnvelope d p kd k = (case absEnvs d (p, kd, k) of None \<Rightarrow> Inl ErrNotFound | Some e \<Rightarrow> Inr e)"
    using assms db_inv_envs_good db_reach_inv by (intro GetEnvelope_abs) blast+
qed (use PutEnvelope_atomic [of U mar d p kd k "Some env"] DeleteEnvelope_atomic [of d p kd k]
       UpdateEnvelope_atomic [of U mar d p kd k fn] PutEnvelope_abs [OF assms(2)]
       DeleteEnvelope_abs [OF assms(2)] UpdateEnvelope_abs [OF assms(2)]
     in \<open>auto split: sum.split prod.split\<close>)

theorem envelope_store_refines_map_witness:
  "GetEnvelope db3 ''npm'' ''metadata'' ''left-pad'' =
     (case absEnvs db3 (''npm'', ''metadata'', ''left-pad'') of None \<Rightarrow> Inl ErrNotFound | Some e \<Rightarrow> Inr e)
   \<and> (\<exists>d'. DeleteEnvelope db3 ''npm'' ''metadata'' ''left-pad'' = (Inr (), d')
        \<and> absEnvs d' (''npm'', ''metadata'', ''left-pad'') = None)"
proof -
  have "blobs_good (d_blobs db3)" using reach_db3 by (rule db_reach_good)
  then obtain d' where "DeleteEnvelope db3 ''npm'' ''metadata'' ''left-pad'' = (Inr (), d')"
    using DeleteEnvelope_succeeds by blast
  then show ?thesis
    using envelope_store_refines_map [OF reach_db3 [of id] ok_id0, of env0 "\<lambda>_. Inr None"] by simp
qed

text \<open>Storing succeeds whenever the envelope is valid, encodes, and its compound key leaves
  room for the timestamp of the expiry index in a bbolt key.\<close>

theorem put_succeeds:
  assumes "db_reach U mar d" and "ValidateEnvelope U (Some env) = Inr ()" "mar (canonEnv U env)"
    and "length (makeEnvelopeKey p kd k) + 8 \<le> maxKeySize"
  shows "\<exists>d'. PutEnvelope U mar d p kd k (Some env) = (Inr (), d')"
  using PutEnvelope_succeeds [OF db_reach_good [OF assms(1)] assms(4,2), of mar] assms(3) by blast

theorem put_succeeds_witness:
  "\<exists>d'. PutEnvelope id (\<lambda>_. True) db3 ''npm'' ''metadata'' ''left-pad'' (Some env0) = (Inr (), d')"
  by (rule put_succeeds [OF reach_db3]) (simp_all add: makeEnvelopeKey_def maxKeySize_def)


text \<open>A blob entry that is stored with counter 0 after an envelope that names it, as the
  content store does, is offered for deletion although the envelope is still served.\<close>

theorem late_blob_undercounted:
  assumes "db_reach U mar d" and "GetEnvelope d p kd k = Inr env"
    and "be_Hash e \<in> set (BlobRefs env)" "be_RefCount e = 0" "lastSeen e \<le> before"
    and "PutBlob d e = (Inr (), d')"
  shows "GetEnvelope d' p kd k = Inr env \<and> be_Hash e \<in> set (GetUnreferencedBlobs d' before 0)"
proof -
  have wf: "wf_bucket (d_blobs d)" using db_reach_inv [OF assms(1)] by (simp add: inv_defs)
  have d': "d' = d\<lparr>d_blobs := bset (be_Hash e) (Good e) (d_blobs d)\<rparr>" "valid_key (be_Hash e)"
    using assms(6) by (auto simp: PutBlob_def tx_unfold batch_def split: sum.splits)
  then have "wf_bucket (d_blobs d')" using wf by (auto intro: wf_bset)
  moreover have "bget (d_blobs d') (be_Hash e) = Some (Good e)" by (simp add: d'(1))
  moreover have "unreferenced before e" using assms(4,5) by (simp add: unreferenced_def)
  ultimately have "be_Hash e \<in> set (GetUnreferencedBlobs d' before 0)" by (auto simp: GetUnreferencedBlobs_all)
  moreover have "GetEnvelope d' p kd k = GetEnvelope d p kd k" by (simp add: GetEnvelope_def d'(1))
  ultimately show ?thesis using assms(2) by simp
qed

lemma run_late: "PutBlob db4 (blob0 0) = (Inr (), db4\<lparr>d_blobs := bset ref0 (Good (blob0 0)) (d_blobs db4)\<rparr>)"
  by (simp add: PutBlob_def batch_def bolt_def)

theorem late_blob_undercounted_witness:
  "ref0 \<in> set (BlobRefs env0)
   \<and> ref0 \<in> set (GetUnreferencedBlobs (db4\<lparr>d_blobs := bset ref0 (Good (blob0 0)) (d_blobs db4)\<rparr>) 5 0)"
proof -
  have "GetEnvelope db4 ''npm'' ''metadata'' ''left-pad'' = Inr env0"
    by (simp add: GetEnvelope_Inr key0_eq db4_def)
  moreover have "lastSeen (blob0 0) \<le> 5" by (simp add: lastSeen_def blob0_def)
  ultimately show ?thesis
    using late_blob_undercounted [OF reach_db4 [of id] _ _ _ _ run_late] by simp
qed

section \<open>The reapers\<close>

lemma allLive_card:
  assumes "db_inv d"
  shows "card (env_expiry.allLive d) \<le> keyN (d_env_by_expiry d)"
proof -
  have sub: "env_expiry.allLive d \<subseteq> (rowEntry \<circ> fst) ` set (entries (d_env_by_expiry d))"
    by (auto simp: env_expiry.allLive_def liveEnvelopes_def expiredRows_def)
  have "card (env_expiry.allLive d) \<le> card ((rowEntry \<circ> fst) ` set (entries (d_env_by_expiry d)))"
    using sub by (rule card_mono [rotated]) simp
  also have "\<dots> \<le> card (set (entries (d_env_by_expiry d)))" by (rule card_image_le) simp
  also have "\<dots> \<le> keyN (d_env_by_expiry d)" by (simp add: keyN_def card_length)
  finally show ?thesis .
qed

lemma live_envelope:
  assumes inv: "db_inv d" and env: "bget (d_envs d) ck = Some (Good env)" and pos: "0 < ExpiresAtUnixMs env"
    and t: "time_UnixMilli (ExpiresAtUnixMs env) < t" "nano_range (time_UnixMilli (ExpiresAtUnixMs env))" "nano_range t"
  shows "liveEnvelopes d t \<noteq> {}"
  using expired_index_row [OF inv env pos] t
  by (force simp: liveEnvelopes_def expiredRows_def encodeTimestamp_less_iff)

text \<open>Deleting an expired entry removes envelopes only, and only expired ones.\<close>

lemma delete_live_envs:
  assumes inv: "db_inv d" and x: "x \<in> liveEnvelopes d t"
    and del: "xs_Delete boltEnvelopeExpiry d x = (Inr b, d')"
  shows "\<exists>ck env. d_envs d' = bdelete ck (d_envs d) \<and> bget (d_envs d) ck = Some (Good env)
    \<and> 0 < ExpiresAtUnixMs env
    \<and> encodeTimestamp (time_UnixMilli (ExpiresAtUnixMs env)) < encodeTimestamp t"
proof -
  obtain e where e: "x = rowEntry (fst e)" "e \<in> set (entries (d_env_by_expiry d))"
    "take 8 (fst e) < encodeTimestamp t"
    using x by (auto simp: liveEnvelopes_def expiredRows_def)
  obtain ck env where ck: "fst e = encodeTimestamp (time_UnixMilli (ExpiresAtUnixMs env)) @ ck"
    "bget (d_envs d) ck = Some (Good env)" "0 < ExpiresAtUnixMs env"
    by (rule expired_index_in [OF inv, of "fst e" "snd e"]) (use e in auto)
  have "entryRow x = fst e" using env_index_row(1) [OF inv e(2)] e(1) by simp
  moreover have "length (encodeTimestamp (xe_ExpiresAt x)) = 8" by simp
  ultimately have "makeEnvelopeKey (xe_Protocol x) (xe_Kind x) (xe_Key x) = ck"
    by (simp add: entryRow_def ck(1))
  moreover have "b" using env_expiry.del_live [OF inv x del] by blast
  ultimately have "d_envs d' = bdelete ck (d_envs d)"
    using del by (auto simp: boltEnvelopeExpiry_def DeleteExpiredEnvelope_def Let_def batch_Inr_iff tx_unfold
        split: if_splits)
  then show ?thesis using ck e(3) by auto
qed

text \<open>C22: a run of the envelope reaper returns, with more fuel than rows in the expiry index; it
  leaves no envelope that had expired when the run began, and no envelope is lost that never
  expires or expires only after the run.\<close>

theorem reap_now_clears:
  assumes reach: "db_reach U mar d" and size: "0 < er_batchSize r" and ctx: "\<not> (\<exists>m. w_done w m)"
    and clock: "\<And>m. start \<le> w_now w m \<and> w_now w m \<le> finish \<and> nano_range (w_now w m)"
    and rng: "nano_range start" "nano_range finish" "expiries_in_range d"
    and fuel: "keyN (d_env_by_expiry d) < fuel"
  shows "\<exists>cnt r' n' d'. ReapNow fuel boltEnvelopeExpiry w r n d = Some (cnt, r', n', d')
    \<and> (\<forall>ck env. bget (d_envs d') ck = Some (Good env) \<longrightarrow>
         bget (d_envs d) ck = Some (Good env)
         \<and> \<not> (0 < ExpiresAtUnixMs env \<and> time_UnixMilli (ExpiresAtUnixMs env) < start))
    \<and> (\<forall>ck env. bget (d_envs d) ck = Some (Good env) \<longrightarrow>
         ExpiresAtUnixMs env \<le> 0 \<or> finish \<le> time_UnixMilli (ExpiresAtUnixMs env) \<longrightarrow>
         bget (d_envs d') ck = Some (Good env))"
proof -
  have inv: "db_inv d" and good: "blobs_good (d_blobs d)"
    using reach by (rule db_reach_inv, rule db_reach_good)
  have "card (env_expiry.allLive d) < fuel" using allLive_card [OF inv] fuel by simp
  then obtain tot n1 d' where run: "reapNowLoop fuel boltEnvelopeExpiry w r (Suc n) d 0 = Some (tot, n1, d')"
    using env_expiry.reapNowLoop_terminates [OF inv size, of fuel w "Suc n" 0] by auto
  have res: "db_inv d'" "liveEnvelopes d' start = {}"
    using env_expiry.reapNowLoop_result [OF inv good size ctx _ rng(1) run] clock by blast+
  let ?sub = "\<lambda>d1. \<forall>ck env. bget (d_envs d1) ck = Some (Good env) \<longrightarrow> bget (d_envs d) ck = Some (Good env)"
  let ?keep = "\<lambda>d1. \<forall>ck env. bget (d_envs d) ck = Some (Good env) \<longrightarrow>
      ExpiresAtUnixMs env \<le> 0 \<or> finish \<le> time_UnixMilli (ExpiresAtUnixMs env) \<longrightarrow>
      bget (d_envs d1) ck = Some (Good env)"
  have "?sub d' \<and> ?keep d'"
  proof (rule env_expiry.reapNowLoop_keeps [where P = "\<lambda>d1. ?sub d1 \<and> ?keep d1", OF inv _ size _ run])
    fix d1 m x b d2
    assume i: "db_inv d1" and p: "?sub d1 \<and> ?keep d1" and x: "x \<in> liveEnvelopes d1 (w_now w m)"
      and del: "xs_Delete boltEnvelopeExpiry d1 x = (Inr b, d2)"
    obtain ck env where ck: "d_envs d2 = bdelete ck (d_envs d1)" "bget (d_envs d1) ck = Some (Good env)"
      "0 < ExpiresAtUnixMs env" "encodeTimestamp (time_UnixMilli (ExpiresAtUnixMs env)) < encodeTimestamp (w_now w m)"
      using delete_live_envs [OF i x del] by blast
    have orig: "bget (d_envs d) ck = Some (Good env)" using p ck(2) by blast
    then have "nano_range (time_UnixMilli (ExpiresAtUnixMs env))" using rng(3) by (simp add: expiries_in_range_def)
    then have "time_UnixMilli (ExpiresAtUnixMs env) < w_now w m"
      using ck(4) clock by (simp add: encodeTimestamp_less_iff)
    then have "time_UnixMilli (ExpiresAtUnixMs env) < finish" using clock less_le_trans by blast
    then have live: "0 < ExpiresAtUnixMs env \<and> \<not> finish \<le> time_UnixMilli (ExpiresAtUnixMs env)"
      using ck(3) by simp
    have "?sub d2"
    proof (intro allI impI)
      fix ck' env' assume "bget (d_envs d2) ck' = Some (Good env')"
      then have "bget (d_envs d1) ck' = Some (Good env')" unfolding ck(1) bget_bdelete by (metis option.distinct(1))
      then show "bget (d_envs d) ck' = Some (Good env')" using p by blast
    qed
    moreover have "?keep d2"
    proof (intro allI impI)
      fix ck' env' assume a: "bget (d_envs d) ck' = Some (Good env')"
        "ExpiresAtUnixMs env' \<le> 0 \<or> finish \<le> time_UnixMilli (ExpiresAtUnixMs env')"
      then have "ck' \<noteq> ck" using live orig by (metis cell.inject linorder_not_le option.inject)
      moreover have "bget (d_envs d1) ck' = Some (Good env')" using p a by blast
      ultimately show "bget (d_envs d2) ck' = Some (Good env')" by (simp add: ck(1))
    qed
    ultimately show "?sub d2 \<and> ?keep d2" ..
  qed simp
  then have sub: "?sub d'" and keep: "?keep d'" by blast+
  have "\<not> (0 < ExpiresAtUnixMs env \<and> time_UnixMilli (ExpiresAtUnixMs env) < start)"
    if "bget (d_envs d') ck = Some (Good env)" for ck env
  proof -
    have "nano_range (time_UnixMilli (ExpiresAtUnixMs env))"
      using sub that rng(3) unfolding expiries_in_range_def by blast
    then show ?thesis using live_envelope [OF res(1) that] res(2) rng(1) by blast
  qed
  then have old: "\<forall>ck env. bget (d_envs d') ck = Some (Good env) \<longrightarrow>
         bget (d_envs d) ck = Some (Good env)
         \<and> \<not> (0 < ExpiresAtUnixMs env \<and> time_UnixMilli (ExpiresAtUnixMs env) < start)"
    using sub by blast
  have "ReapNow fuel boltEnvelopeExpiry w r n d = Some (tot, recordReap r (w_now w n1) tot, Suc n1, d')"
    by (simp only: ReapNow_def run option.case prod.case)
  then show ?thesis using old keep by blast
qed


lemma rows_db3: "keyN (d_env_by_expiry db3) < 2"
  by (simp add: keyN_def db3_def bset_def empty_bucket_def)

theorem reap_now_clears_witness:
  "\<exists>cnt r' n' d'. ReapNow 2 boltEnvelopeExpiry \<lparr>w_now = \<lambda>_. 3000000000, w_done = \<lambda>_. False\<rparr>
      (NewEnvelopeReaper []) 0 db3 = Some (cnt, r', n', d')
    \<and> (\<forall>env. bget (d_envs d') key0 \<noteq> Some (Good env))"
proof -
  let ?w = "\<lparr>w_now = \<lambda>_. 3000000000, w_done = \<lambda>_. False\<rparr>"
  have "\<exists>cnt r' n' d'. ReapNow 2 boltEnvelopeExpiry ?w (NewEnvelopeReaper []) 0 db3 = Some (cnt, r', n', d')
    \<and> (\<forall>ck env. bget (d_envs d') ck = Some (Good env) \<longrightarrow>
         bget (d_envs db3) ck = Some (Good env)
         \<and> \<not> (0 < ExpiresAtUnixMs env \<and> time_UnixMilli (ExpiresAtUnixMs env) < 3000000000))
    \<and> (\<forall>ck env. bget (d_envs db3) ck = Some (Good env) \<longrightarrow>
         ExpiresAtUnixMs env \<le> 0 \<or> 3000000000 \<le> time_UnixMilli (ExpiresAtUnixMs env) \<longrightarrow>
         bget (d_envs d') ck = Some (Good env))"
    by (rule reap_now_clears [OF reach_db3 [of id] _ _ _ _ _ range_db3 rows_db3])
       (simp_all add: NewEnvelopeReaper_def nano_range_def)
  then obtain cnt r' n' d' where run: "ReapNow 2 boltEnvelopeExpiry ?w (NewEnvelopeReaper []) 0 db3 = Some (cnt, r', n', d')"
    and old: "\<And>ck env. bget (d_envs d') ck = Some (Good env) \<Longrightarrow> bget (d_envs db3) ck = Some (Good env)
         \<and> \<not> (0 < ExpiresAtUnixMs env \<and> time_UnixMilli (ExpiresAtUnixMs env) < 3000000000)" by blast
  have "bget (d_envs d') key0 \<noteq> Some (Good env)" for env
    using old [of key0 env] by (auto simp: envs_db3 time_UnixMilli_def)
  then show ?thesis using run by blast
qed


lemma meta_index_time:
  assumes "db_inv d" and "e \<in> set (entries (d_meta_by_expiry d))"
  shows "take 8 (fst e) = encodeTimestamp (ee_ExpiresAt (metaRowEntry m e))"
  using metaRowEntry_key [OF assms, of m] by (metis append_eq_conv_conj length_encodeTimestamp)

text \<open>One batch of the legacy reaper counts what it deletes, deletes no more than its batch
  size, and when it deletes fewer, no expired row is left in the expiry index.\<close>

theorem legacy_batch:
  assumes reach: "db_reach U mar d" and size: "0 < xr_batchSize r"
    and batch: "ExpiryReaper_reapBatch boltMetaExpiry r now d = (cnt, d')"
  shows "db_inv d' \<and> 0 \<le> cnt \<and> cnt \<le> xr_batchSize r
    \<and> int (card (liveMeta d' now)) + cnt = int (card (liveMeta d now))
    \<and> (cnt < xr_batchSize r \<longrightarrow>
         (\<forall>e \<in> set (entries (d_meta_by_expiry d')). \<not> take 8 (fst e) < encodeTimestamp now))"
proof -
  have inv: "db_inv d" using reach by (rule db_reach_inv)
  note good = meta_expiry.ExpiryReaper_reapBatch_good [OF inv TrueI size batch]
  have fin: "finite (liveMeta d now)" using meta_expiry.live_finite [of d] by (rule rev_finite_subset) blast
  have sub: "liveMeta d' now \<subseteq> liveMeta d now" and cnt: "cnt = int (card (liveMeta d now - liveMeta d' now))"
    using good by blast+
  have "card (liveMeta d now - liveMeta d' now) = card (liveMeta d now) - card (liveMeta d' now)"
    "card (liveMeta d' now) \<le> card (liveMeta d now)"
    using sub fin by (simp_all add: card_Diff_subset card_mono finite_subset)
  then have sum: "int (card (liveMeta d' now)) + cnt = int (card (liveMeta d now))" "0 \<le> cnt"
    using cnt by simp_all
  have rest: "cnt < xr_batchSize r \<longrightarrow>
      (\<forall>e \<in> set (entries (d_meta_by_expiry d')). \<not> take 8 (fst e) < encodeTimestamp now)"
    using good unfolding liveMeta_def expiredRows_def by blast
  have "db_inv d'" "cnt \<le> xr_batchSize r" using good by blast+
  then show ?thesis using sum rest by (intro conjI)
qed

text \<open>A database with one expired metadata entry.\<close>

definition db5 :: db where
  "db5 = snd (PutMeta 0 createBuckets ''pypi'' ''six'' ''{}'' 1000)"

lemma reach_db5: "db_reach U mar db5"
  unfolding db5_def by (rule reach_step [OF reach_init step_PutMeta])

theorem legacy_batch_witness:
  "\<exists>cnt d'. ExpiryReaper_reapBatch boltMetaExpiry (NewExpiryReaper []) 2000 db5 = (cnt, d')
    \<and> 0 \<le> cnt \<and> cnt \<le> 100 \<and> int (card (liveMeta d' 2000)) + cnt = int (card (liveMeta db5 2000))"
proof -
  obtain cnt d' where b: "ExpiryReaper_reapBatch boltMetaExpiry (NewExpiryReaper []) 2000 db5 = (cnt, d')"
    by (cases "ExpiryReaper_reapBatch boltMetaExpiry (NewExpiryReaper []) 2000 db5")
  have "0 < xr_batchSize (NewExpiryReaper [])" "xr_batchSize (NewExpiryReaper []) = 100"
    by (simp_all add: NewExpiryReaper_def)
  then show ?thesis using legacy_batch [OF reach_db5 [of id "\<lambda>_. True"] _ b] b by auto
qed

section \<open>Maintenance\<close>

text \<open>Rebuilding never fails; it sets every counter to the number of envelopes that name
  the blob, changes nothing else, and returns how many counters it corrected. Where no legacy
  metadata holds references, a second run and a verification find nothing more to do.\<close>

theorem rebuild_exact:
  assumes reach: "db_reach U mar d" and wf: "wf_bucket b"
  defines "rebuilt h \<equiv> map_option (map_cell (\<lambda>e. e\<lparr>be_RefCount := int (card (envelopesNaming d h))\<rparr>)) (bget b h)"
  shows "\<exists>n d'. RebuildEnvelopeRefcounts (d\<lparr>d_blobs := b\<rparr>) = (Inr n, d')
    \<and> d' = d\<lparr>d_blobs := d_blobs d'\<rparr> \<and> (\<forall>h. bget (d_blobs d') h = rebuilt h)
    \<and> ((\<forall>h. envelopesNaming d h \<noteq> {} \<longrightarrow> (\<exists>e. bget b h = Some (Good e))) \<longrightarrow>
         VerifyEnvelopeRefcounts rev d' = [])"
proof -
  let ?d = "d\<lparr>d_blobs := b\<rparr>"
  have inv: "db_inv d" using reach by (rule db_reach_inv)
  obtain n d' where run: "RebuildEnvelopeRefcounts ?d = (Inr n, d')"
    using RebuildEnvelopeRefcounts_ok [of ?d] wf by auto
  have wf': "wf_bucket (d_blobs ?d)" using wf by simp
  note spec = RebuildEnvelopeRefcounts_spec [OF run wf']
  have d': "d' = d\<lparr>d_blobs := d_blobs d'\<rparr>" using spec(1) by simp
  have "d_envs d' = d_envs d" by (subst d') simp
  then have comp: "computedRefs d' h = int (card (envelopesNaming d h))"
    "computedRefs ?d h = int (card (envelopesNaming d h))" for h
    using computedRefs_card [OF inv, of h] computedRefs_cong [of d' d] computedRefs_cong [of ?d d] by simp_all
  have reb: "bget (d_blobs d') h = rebuilt h" for h using spec(3) [of h] by (simp add: comp rebuilt_def)
  have "VerifyEnvelopeRefcounts rev d' = []"
    if present: "\<And>h. envelopesNaming d h \<noteq> {} \<Longrightarrow> \<exists>e. bget b h = Some (Good e)"
  proof (rule verify_nothing [OF spec(2)])
    fix h e assume "bget (d_blobs d') h = Some (Good e)"
    then show "be_RefCount e = computedRefs d' h"
      using reb [of h] by (cases "bget b h"; cases "the (bget b h)") (auto simp: rebuilt_def comp)
  next
    fix h assume "h \<in> set (envelopeRefs d')"
    then have "envelopesNaming d h \<noteq> {}" by (auto simp: computedRefs_pos comp)
    then obtain e where "bget b h = Some (Good e)" using present by blast
    then show "\<exists>e. bget (d_blobs d') h = Some (Good e)" using reb [of h] by (simp add: rebuilt_def)
  qed simp
  then have "(\<forall>h. envelopesNaming d h \<noteq> {} \<longrightarrow> (\<exists>e. bget b h = Some (Good e))) \<longrightarrow>
      VerifyEnvelopeRefcounts rev d' = []" by blast
  moreover have "\<forall>h. bget (d_blobs d') h = rebuilt h" using reb ..
  ultimately have "RebuildEnvelopeRefcounts ?d = (Inr n, d') \<and> d' = d\<lparr>d_blobs := d_blobs d'\<rparr>
      \<and> (\<forall>h. bget (d_blobs d') h = rebuilt h)
      \<and> ((\<forall>h. envelopesNaming d h \<noteq> {} \<longrightarrow> (\<exists>e. bget b h = Some (Good e))) \<longrightarrow>
           VerifyEnvelopeRefcounts rev d' = [])"
    using run d' by (intro conjI)
  then show ?thesis by (intro exI)
qed

theorem rebuild_exact_witness:
  "\<exists>n d'. RebuildEnvelopeRefcounts (db3\<lparr>d_blobs := bset ref0 (Good (blob0 7)) empty_bucket\<rparr>) = (Inr n, d')
    \<and> VerifyEnvelopeRefcounts rev d' = []"
proof -
  have "wf_bucket (bset ref0 (Good (blob0 7)) empty_bucket)" by (auto intro: wf_bset)
  moreover have "envelopesNaming db3 h \<noteq> {} \<Longrightarrow> h = ref0" for h
    by (auto simp: envelopesNaming_def envs_db3 split: if_splits)
  ultimately show ?thesis
    using rebuild_exact [OF reach_db3 [of id], of "bset ref0 (Good (blob0 7)) empty_bucket"] by (auto 0 3)
qed

text \<open>Compaction into a new file succeeds and keeps every entry of every bucket; what it
  does not keep is the sequence counter of a bucket, which starts again at zero.\<close>

theorem compact_copies:
  assumes "db_reach U mar d"
  shows "CompactDB d createBuckets = Inr (reset_seq d)
    \<and> GetEnvelope (reset_seq d) = GetEnvelope d \<and> GetMeta (reset_seq d) = GetMeta d
    \<and> GetBlob (reset_seq d) = GetBlob d \<and> GetExpiredEnvelopes (reset_seq d) = GetExpiredEnvelopes d
    \<and> bseq (d_blobs (reset_seq d)) = 0"
proof (intro conjI)
  show "CompactDB d createBuckets = Inr (reset_seq d)"
    using db_reach_inv [OF assms] by (rule CompactDB_fresh)
qed (simp_all add: fun_eq_iff GetEnvelope_def GetMeta_def GetBlob_def GetExpiredEnvelopes_def reset_seq_def bget_def)

theorem compact_copies_witness: "CompactDB db3 createBuckets = Inr (reset_seq db3)"
  using compact_copies [OF reach_db3 [of id]] by blast

end
