(* ===== verification/CodecProperties.thy ===== *)
theory CodecProperties
  imports Samples
begin

text \<open>
  The properties of the values the program stores: content references and storage keys, the
  compound keys and timestamps of the database, and the payload codec of envelopes.
\<close>

section \<open>References and storage keys\<close>

text \<open>The text of a blob reference and the storage key of a content hash parse back to it, and
  the reference is a digest that envelopes accept and that canonicalization leaves alone.\<close>

theorem reference_roundtrip:
  assumes "is_hash h"
  shows "ParseBlobRef U (BlobRef_String (NewBlobRef h)) = Inr (NewBlobRef h)
    \<and> ParseBlobStorageKey (BlobStorageKey h) = Inr h
    \<and> ValidateDigestFormat U (BlobRef_String (NewBlobRef h)) = Inr ()
    \<and> CanonicalizeRefs U [BlobRef_String (NewBlobRef h)] = [BlobRef_String (NewBlobRef h)]"
  using assms by (simp add: CanonicalizeRefs_def)

theorem reference_roundtrip_witness:
  "ParseBlobRef id (BlobRef_String (NewBlobRef hash1)) = Inr (NewBlobRef hash1)"
  using reference_roundtrip [OF is_hash_samples(2)] by blast



section \<open>Keys of the database\<close>

text \<open>A timestamp is stored so that the order of the bytes is the order of the times, and is
  read back exactly, over the range of 64-bit nanoseconds.\<close>

theorem timestamp_order:
  assumes "nano_range t" "nano_range u"
  shows "(encodeTimestamp t < encodeTimestamp u \<longleftrightarrow> t < u)
    \<and> length (encodeTimestamp t) = 8 \<and> decodeTimestamp (encodeTimestamp t) = t"
  using assms by (simp add: encodeTimestamp_less_iff)

theorem timestamp_order_witness: "encodeTimestamp (- 1) < encodeTimestamp 1"
  using timestamp_order [of "- 1" 1] by (simp add: nano_range_def)

text \<open>A row of the expiry index parses back into the expiry and the name of the envelope, when
  the protocol and the kind contain no NUL byte, and distinct names have distinct keys.\<close>

theorem expiry_key_roundtrip:
  assumes "ok_id (p, kd, k)" "ok_id (p', kd', k')" "nano_range t"
  shows "parseEnvelopeExpiryKey (makeEnvelopeExpiryKey t p kd k) = (t, p, kd, k)
    \<and> parseEnvelopeKey (makeEnvelopeKey p kd k) = (p, kd, k)
    \<and> (makeEnvelopeKey p kd k = makeEnvelopeKey p' kd' k' \<longleftrightarrow> (p, kd, k) = (p', kd', k'))"
  using assms by (auto simp: ok_id_def makeEnvelopeKey_inject)

theorem expiry_key_roundtrip_witness:
  "parseEnvelopeExpiryKey (makeEnvelopeExpiryKey 5 ''npm'' ''metadata'' ''left-pad'')
     = (5, ''npm'', ''metadata'', ''left-pad'')"
  using expiry_key_roundtrip [OF ok_id0 ok_id0, of 5] by (simp add: nano_range_def)

section \<open>The payload codec\<close>

text \<open>C38: what the codec encodes it decodes to the same bytes, never stores more bytes than it was
  given, compresses only payloads of at least the threshold, and rejects exactly the payloads
  over the limit.\<close>

theorem payload_roundtrip:
  assumes "zstd_ok c" "c_decoder c"
  shows "case EncodePayload c data of
      Inl err \<Rightarrow> err = ErrPayloadTooLarge \<and> MaxPayloadSize < length data
    | Inr (payload, enc, digest) \<Rightarrow>
        DecodePayload c payload enc digest (length data) = Inr data
        \<and> length payload \<le> length data \<and> length data \<le> MaxPayloadSize
        \<and> (if enc = ENC_IDENTITY then payload = data
           else enc = ENC_ZSTD \<and> CompressionThreshold \<le> length data \<and> length payload < length data)"
proof (cases "EncodePayload c data")
  case (Inl err)
  then show ?thesis by (auto simp: EncodePayload_def Let_def split: if_splits option.splits)
next
  case (Inr r)
  obtain payload enc digest where r: "r = (payload, enc, digest)" by (cases r)
  note enc = Inr [unfolded r]
  show ?thesis
    using enc DecodePayload_encoded [OF assms enc]
    by (auto simp: r elim!: EncodePayload_cases)
qed

text \<open>A codec whose encoder is missing, so that every payload is stored as it is.\<close>

definition plainCodec :: codec where
  "plainCodec = \<lparr>c_sha256 = (\<lambda>_. replicate 32 (CHR ''a'')), c_compress = (\<lambda>_. None),
     c_decompress = (\<lambda>_. None), c_decoder = True\<rparr>"

lemma plainCodec_ok [simp]: "zstd_ok plainCodec" "c_decoder plainCodec"
  by (simp_all add: plainCodec_def zstd_ok_def)

theorem payload_roundtrip_witness:
  "\<exists>payload enc digest. EncodePayload plainCodec ''{}'' = Inr (payload, enc, digest)
     \<and> DecodePayload plainCodec payload enc digest (length ''{}'') = Inr ''{}''"
  using payload_roundtrip [OF plainCodec_ok, of "''{}''"]
  by (simp only: split: sum.splits prod.splits) (auto simp: MaxPayloadSize_def)

text \<open>C39: whatever bytes stand in an envelope in the place of an encoded payload, and whatever size is
  recorded, what decodes under the recorded encoding and digest has the SHA-256 of the bytes that
  were encoded; decompressing gives at most 10 MiB and only where at most 10 MiB are announced,
  and a payload stored as it is is returned as it is (of any length: the limit is that of the
  decompression).\<close>

theorem payload_integrity:
  assumes enc: "EncodePayload c data = Inr (payload, enc, digest)"
    and dec: "DecodePayload c payload' enc digest n = Inr data'"
  shows "c_sha256 c data' = c_sha256 c data
    \<and> (if enc = ENC_ZSTD then n \<le> 10485760 \<and> length data' \<le> 10485760 \<and> c_decompress c payload' = Some data'
       else enc = ENC_IDENTITY \<and> data' = payload')"
proof -
  have d: "digest = computeDigest c data" "enc = ENC_IDENTITY \<or> enc = ENC_ZSTD"
    using enc by (auto elim: EncodePayload_cases)
  then have "digest \<noteq> []" by (simp add: computeDigest_def)
  then have "computeDigest c data' = computeDigest c data"
    using dec d by (auto simp: DecodePayload_def split: if_splits option.splits)
  then have "c_sha256 c data' = c_sha256 c data"
    unfolding computeDigest_def by (metis append_same_eq same_append_eq hex_decode_encode option.inject)
  then show ?thesis
    using dec d(2) by (auto simp: DecodePayload_def MaxDecompressedSize_def split: if_splits option.splits)
qed

text \<open>A codec that compresses: another compressed text decompresses to other bytes, which are refused.\<close>

definition text2048 :: bytes where
  "text2048 = replicate 2048 (CHR ''a'')"

definition zipCodec :: codec where
  "zipCodec = \<lparr>c_sha256 = (\<lambda>d. replicate 32 (if d = text2048 then CHR ''a'' else CHR ''b'')), c_compress = (\<lambda>_. Some ''z''),
     c_decompress = (\<lambda>z. Some (if z = ''z'' then text2048 else ''x'')), c_decoder = True\<rparr>"

theorem payload_integrity_witness:
  "EncodePayload zipCodec text2048 = Inr (''z'', ENC_ZSTD, computeDigest zipCodec text2048)
   \<and> DecodePayload zipCodec ''z'' ENC_ZSTD (computeDigest zipCodec text2048) 2048 = Inr text2048
   \<and> c_sha256 zipCodec text2048 \<noteq> c_sha256 zipCodec ''x''
   \<and> (\<forall>d. DecodePayload zipCodec ''y'' ENC_ZSTD (computeDigest zipCodec text2048) 2048 \<noteq> Inr d)"
proof -
  have "text2048 \<noteq> ''x''" by (auto simp: text2048_def dest: arg_cong [where f = length])
  then have sha: "c_sha256 zipCodec text2048 \<noteq> c_sha256 zipCodec ''x''" by (simp add: zipCodec_def)
  have enc: "EncodePayload zipCodec text2048 = Inr (''z'', ENC_ZSTD, computeDigest zipCodec text2048)"
    by (simp add: EncodePayload_def zipCodec_def text2048_def MaxPayloadSize_def CompressionThreshold_def Let_def)
  have dec: "DecodePayload zipCodec ''z'' ENC_ZSTD (computeDigest zipCodec text2048) 2048 = Inr text2048"
    by (simp add: DecodePayload_def zipCodec_def text2048_def MaxDecompressedSize_def)
  have "DecodePayload zipCodec ''y'' ENC_ZSTD (computeDigest zipCodec text2048) 2048 \<noteq> Inr d" for d
  proof
    assume y: "DecodePayload zipCodec ''y'' ENC_ZSTD (computeDigest zipCodec text2048) 2048 = Inr d"
    from payload_integrity [OF enc y] have "d = ''x''" "c_sha256 zipCodec d = c_sha256 zipCodec text2048"
      by (simp_all add: zipCodec_def)
    with sha show False by simp
  qed
  with enc dec sha show ?thesis by blast
qed

section \<open>Reference lists\<close>

text \<open>Canonical references are the sorted set of the lower-case references; so they do not
  depend on order, repetition or case, and canonicalizing twice changes nothing. The added and
  removed references turn the old set into the new one.\<close>

theorem canonical_refs:
  "CanonicalizeRefs U rs = sorted_list_of_set (set (map (ToLower U) rs))
   \<and> set newRefs = (set oldRefs - set (snd (DiffRefs oldRefs newRefs))) \<union> set (fst (DiffRefs oldRefs newRefs))
   \<and> (RefsEqual oldRefs newRefs \<longleftrightarrow> mset oldRefs = mset newRefs)"
  by (auto simp: CanonicalizeRefs_unique DiffRefs_def RefsEqual_iff_mset)

end
