(* ===== verification/EnvelopeIndex.thy ===== *)
theory EnvelopeIndex
  imports EnvelopeSpec
begin

text \<open>
  The per-protocol envelope index (\<open>store/metadb/envelope_index.go\<close>) over the interface
  \<open>EnvelopeStore\<close> of \<open>db.go\<close>. The Go interface value is the record \<open>envelope_store\<close> of its
  methods over a state \<open>'s\<close>; the locale \<open>envelope_contract\<close> states what the index relies on,
  and the bbolt database is its provider. \<open>now\<close> is the reading of the clock the call makes.
\<close>

record 's envelope_store =
  es_Put :: "'s \<Rightarrow> string \<Rightarrow> string \<Rightarrow> string \<Rightarrow> envelope option \<Rightarrow> (mdb_error + unit) \<times> 's"
  es_Get :: "'s \<Rightarrow> string \<Rightarrow> string \<Rightarrow> string \<Rightarrow> mdb_error + envelope"
  es_Delete :: "'s \<Rightarrow> string \<Rightarrow> string \<Rightarrow> string \<Rightarrow> (mdb_error + unit) \<times> 's"
  es_List :: "'s \<Rightarrow> string \<Rightarrow> string \<Rightarrow> string list"
  es_Refs :: "'s \<Rightarrow> string \<Rightarrow> string \<Rightarrow> string \<Rightarrow> string list"
  es_Update :: "'s \<Rightarrow> string \<Rightarrow> string \<Rightarrow> string
      \<Rightarrow> (envelope option \<Rightarrow> mdb_error + envelope option) \<Rightarrow> (mdb_error + unit) \<times> 's"

definition boltStore :: "(string \<Rightarrow> string) \<Rightarrow> (envelope \<Rightarrow> bool) \<Rightarrow> db envelope_store" where
  "boltStore U mar =
     \<lparr>es_Put = PutEnvelope U mar, es_Get = GetEnvelope, es_Delete = DeleteEnvelope,
      es_List = ListEnvelopeKeys, es_Refs = GetEnvelopeBlobRefs, es_Update = UpdateEnvelope U mar\<rparr>"

record env_index =
  ix_codec :: codec
  ix_protocol :: string
  ix_kind :: string
  ix_ttl :: int

definition NewEnvelopeIndex ::
  "codec \<Rightarrow> string \<Rightarrow> string \<Rightarrow> int \<Rightarrow> (env_index \<Rightarrow> env_index) list \<Rightarrow> env_index" where
  "NewEnvelopeIndex codec protocol kind ttl opts =
     fold (\<lambda>opt idx. opt idx) opts
       \<lparr>ix_codec = codec, ix_protocol = protocol, ix_kind = kind, ix_ttl = ttl\<rparr>"

definition WithEnvelopeIndexCodec :: "codec \<Rightarrow> env_index \<Rightarrow> env_index" where
  "WithEnvelopeIndexCodec codec idx = idx\<lparr>ix_codec := codec\<rparr>"

record put_options =
  po_TTL :: int
  po_Etag :: string
  po_LastModified :: time
  po_Upstream :: string
  po_UpstreamStatus :: nat

definition noOptions :: put_options where
  "noOptions = \<lparr>po_TTL = 0, po_Etag = [], po_LastModified = zero_time, po_Upstream = [],
     po_UpstreamStatus = 0\<rparr>"

text \<open>\<open>int64(ttl.Seconds())\<close>: whole seconds, truncated towards zero.\<close>

definition wholeSeconds :: "int \<Rightarrow> int" where
  "wholeSeconds ttl = sgn ttl * (\<bar>ttl\<bar> div 1000000000)"

section \<open>Operations\<close>

definition EI_PutWithOptions ::
  "'s envelope_store \<Rightarrow> env_index \<Rightarrow> time \<Rightarrow> 's \<Rightarrow> string \<Rightarrow> bytes \<Rightarrow> content_type
     \<Rightarrow> string list \<Rightarrow> put_options \<Rightarrow> (mdb_error + unit) \<times> 's" where
  "EI_PutWithOptions st idx now s key data contentType refs opts =
     (case EncodePayload (ix_codec idx) data of
        Inl e \<Rightarrow> (Inl e, s)
      | Inr (payload, encoding, digest) \<Rightarrow>
          (let ttl = (if po_TTL opts = 0 then ix_ttl idx else po_TTL opts);
               expiresAtMs = (if ttl > 0 then UnixMilli (now + ttl) else 0);
               env = \<lparr>EnvelopeVersion = CurrentEnvelopeVersion, ContentType = contentType,
                      ContentEncoding = encoding, Payload = payload, PayloadDigest = digest,
                      PayloadSize = length data, FetchedAtUnixMs = UnixMilli now,
                      ExpiresAtUnixMs = expiresAtMs, TtlSeconds = wholeSeconds ttl,
                      Etag = po_Etag opts,
                      LastModifiedUnixMs =
                        (if IsZero (po_LastModified opts) then 0 else UnixMilli (po_LastModified opts)),
                      UpstreamHost = po_Upstream opts, UpstreamStatus = po_UpstreamStatus opts,
                      BlobRefs = refs, Attributes = []\<rparr>
           in es_Put st s (ix_protocol idx) (ix_kind idx) key (Some env)))"

definition EI_Put ::
  "'s envelope_store \<Rightarrow> env_index \<Rightarrow> time \<Rightarrow> 's \<Rightarrow> string \<Rightarrow> bytes \<Rightarrow> content_type
     \<Rightarrow> string list \<Rightarrow> (mdb_error + unit) \<times> 's" where
  "EI_Put st idx now s key data contentType refs =
     EI_PutWithOptions st idx now s key data contentType refs noOptions"

definition EI_DecodePayload :: "env_index \<Rightarrow> envelope \<Rightarrow> mdb_error + bytes" where
  "EI_DecodePayload idx env =
     DecodePayload (ix_codec idx) (Payload env) (ContentEncoding env) (PayloadDigest env) (PayloadSize env)"

definition EI_GetEnvelope :: "'s envelope_store \<Rightarrow> env_index \<Rightarrow> 's \<Rightarrow> string \<Rightarrow> mdb_error + envelope" where
  "EI_GetEnvelope st idx s key = es_Get st s (ix_protocol idx) (ix_kind idx) key"

definition EI_Get :: "'s envelope_store \<Rightarrow> env_index \<Rightarrow> 's \<Rightarrow> string \<Rightarrow> mdb_error + bytes" where
  "EI_Get st idx s key =
     rbind (es_Get st s (ix_protocol idx) (ix_kind idx) key) (\<lambda>env. EI_DecodePayload idx env)"

definition EI_GetWithEnvelope ::
  "'s envelope_store \<Rightarrow> env_index \<Rightarrow> 's \<Rightarrow> string \<Rightarrow> mdb_error + (bytes \<times> envelope)" where
  "EI_GetWithEnvelope st idx s key =
     rbind (es_Get st s (ix_protocol idx) (ix_kind idx) key)
       (\<lambda>env. rbind (EI_DecodePayload idx env) (\<lambda>data. Inr (data, env)))"

definition EI_PutJSONWithOptions ::
  "('v \<Rightarrow> bytes option) \<Rightarrow> 's envelope_store \<Rightarrow> env_index \<Rightarrow> time \<Rightarrow> 's \<Rightarrow> string \<Rightarrow> 'v
     \<Rightarrow> string list \<Rightarrow> put_options \<Rightarrow> (mdb_error + unit) \<times> 's" where
  "EI_PutJSONWithOptions enc st idx now s key v refs opts =
     (case enc v of
        None \<Rightarrow> (Inl MarshalFailed, s)
      | Some data \<Rightarrow> EI_PutWithOptions st idx now s key data CT_JSON refs opts)"

definition EI_PutJSON ::
  "('v \<Rightarrow> bytes option) \<Rightarrow> 's envelope_store \<Rightarrow> env_index \<Rightarrow> time \<Rightarrow> 's \<Rightarrow> string \<Rightarrow> 'v
     \<Rightarrow> string list \<Rightarrow> (mdb_error + unit) \<times> 's" where
  "EI_PutJSON enc st idx now s key v refs =
     (case enc v of
        None \<Rightarrow> (Inl MarshalFailed, s)
      | Some data \<Rightarrow> EI_Put st idx now s key data CT_JSON refs)"

definition EI_GetJSON ::
  "(bytes \<Rightarrow> 'v option) \<Rightarrow> 's envelope_store \<Rightarrow> env_index \<Rightarrow> 's \<Rightarrow> string \<Rightarrow> mdb_error + 'v" where
  "EI_GetJSON dec st idx s key =
     rbind (EI_Get st idx s key)
       (\<lambda>data. case dec data of None \<Rightarrow> Inl UnmarshalFailed | Some v \<Rightarrow> Inr v)"

text \<open>The variable after a call of \<open>GetJSON\<close> whose error is ignored: it keeps its zero value when there
  is nothing to decode, and has what \<open>json.Unmarshal\<close> had filled in, the parameter \<open>part\<close>, when
  decoding fails.\<close>

definition EI_GetJSON_into ::
  "(bytes \<Rightarrow> 'v option) \<Rightarrow> (bytes \<Rightarrow> 'v) \<Rightarrow> 'v \<Rightarrow> 's envelope_store \<Rightarrow> env_index \<Rightarrow> 's \<Rightarrow> string \<Rightarrow> 'v" where
  "EI_GetJSON_into dec part zero st idx s key =
     (case EI_Get st idx s key of
        Inl _ \<Rightarrow> zero
      | Inr data \<Rightarrow> (case dec data of None \<Rightarrow> part data | Some v \<Rightarrow> v))"

lemma EI_GetJSON_into_Inr: "EI_GetJSON dec st idx s key = Inr v \<Longrightarrow> EI_GetJSON_into dec part zero st idx s key = v"
  by (auto simp: EI_GetJSON_def EI_GetJSON_into_def split: sum.splits option.splits)

definition EI_Delete ::
  "'s envelope_store \<Rightarrow> env_index \<Rightarrow> 's \<Rightarrow> string \<Rightarrow> (mdb_error + unit) \<times> 's" where
  "EI_Delete st idx s key = es_Delete st s (ix_protocol idx) (ix_kind idx) key"

definition EI_List :: "'s envelope_store \<Rightarrow> env_index \<Rightarrow> 's \<Rightarrow> string list" where
  "EI_List st idx s = es_List st s (ix_protocol idx) (ix_kind idx)"

definition EI_GetBlobRefs :: "'s envelope_store \<Rightarrow> env_index \<Rightarrow> 's \<Rightarrow> string \<Rightarrow> string list" where
  "EI_GetBlobRefs st idx s key = es_Refs st s (ix_protocol idx) (ix_kind idx) key"

text \<open>A nil slice is \<open>None\<close>. An empty payload field decodes from the wire as nil.\<close>

definition nilIfEmpty :: "bytes \<Rightarrow> bytes option" where
  "nilIfEmpty d = (if d = [] then None else Some d)"

definition newEnvelope :: "time \<Rightarrow> int \<Rightarrow> envelope" where
  "newEnvelope now defaultTTL =
     \<lparr>EnvelopeVersion = CurrentEnvelopeVersion, ContentType = CT_JSON, ContentEncoding = ENC_IDENTITY,
      Payload = [], PayloadDigest = [], PayloadSize = 0, FetchedAtUnixMs = UnixMilli now,
      ExpiresAtUnixMs = (if defaultTTL > 0 then UnixMilli (now + defaultTTL) else 0),
      TtlSeconds = (if defaultTTL > 0 then wholeSeconds defaultTTL else 0),
      Etag = [], LastModifiedUnixMs = 0, UpstreamHost = [], UpstreamStatus = 0, BlobRefs = [],
      Attributes = []\<rparr>"

definition updateCallback ::
  "env_index \<Rightarrow> time \<Rightarrow> (bytes option \<Rightarrow> envelope option \<Rightarrow> mdb_error + (bytes option \<times> string list))
     \<Rightarrow> envelope option \<Rightarrow> mdb_error + envelope option" where
  "updateCallback idx now fn existing =
     rbind (case existing of
              None \<Rightarrow> Inr None
            | Some env \<Rightarrow> rbind (EI_DecodePayload idx env) (\<lambda>d. Inr (nilIfEmpty d)))
       (\<lambda>existingData. rbind (fn existingData existing)
         (\<lambda>(newData, newRefs).
            case newData of
              None \<Rightarrow> Inr None
            | Some new \<Rightarrow>
                rbind (EncodePayload (ix_codec idx) new)
                  (\<lambda>(payload, encoding, digest).
                     let newEnv = (case existing of Some env \<Rightarrow> env | None \<Rightarrow> newEnvelope now (ix_ttl idx))
                     in Inr (Some (newEnv\<lparr>ContentEncoding := encoding, Payload := payload,
                                          PayloadDigest := digest, PayloadSize := length new,
                                          BlobRefs := newRefs\<rparr>)))))"

definition EI_Update ::
  "'s envelope_store \<Rightarrow> env_index \<Rightarrow> time \<Rightarrow> 's \<Rightarrow> string
     \<Rightarrow> (bytes option \<Rightarrow> envelope option \<Rightarrow> mdb_error + (bytes option \<times> string list))
     \<Rightarrow> (mdb_error + unit) \<times> 's" where
  "EI_Update st idx now s key fn =
     es_Update st s (ix_protocol idx) (ix_kind idx) key (updateCallback idx now fn)"

text \<open>\<open>UpdateJSON\<close>: \<open>v0\<close> is the value passed in; \<open>fn\<close> changes it and returns the references.\<close>

definition jsonCallback ::
  "(bytes \<Rightarrow> 'v option) \<Rightarrow> ('v \<Rightarrow> bytes option) \<Rightarrow> 'v \<Rightarrow> ('v \<Rightarrow> mdb_error + ('v \<times> string list))
     \<Rightarrow> bytes option \<Rightarrow> envelope option \<Rightarrow> mdb_error + (bytes option \<times> string list)" where
  "jsonCallback dec enc v0 fn data env =
     rbind (case data of
              None \<Rightarrow> Inr v0
            | Some d \<Rightarrow> (case dec d of None \<Rightarrow> Inl UnmarshalFailed | Some v \<Rightarrow> Inr v))
       (\<lambda>v. rbind (fn v)
         (\<lambda>(v', refs). case enc v' of None \<Rightarrow> Inl MarshalFailed | Some new \<Rightarrow> Inr (Some new, refs)))"

definition EI_UpdateJSON ::
  "(bytes \<Rightarrow> 'v option) \<Rightarrow> ('v \<Rightarrow> bytes option) \<Rightarrow> 's envelope_store \<Rightarrow> env_index \<Rightarrow> time \<Rightarrow> 's
     \<Rightarrow> string \<Rightarrow> 'v \<Rightarrow> ('v \<Rightarrow> mdb_error + ('v \<times> string list)) \<Rightarrow> (mdb_error + unit) \<times> 's" where
  "EI_UpdateJSON dec enc st idx now s key v0 fn =
     EI_Update st idx now s key (jsonCallback dec enc v0 fn)"

definition IsExpired :: "time \<Rightarrow> envelope \<Rightarrow> bool" where
  "IsExpired now env =
     (if ExpiresAtUnixMs env = 0 then False else UnixMilli now > ExpiresAtUnixMs env)"

definition IsNegativeCache :: "envelope \<Rightarrow> bool" where
  "IsNegativeCache env \<longleftrightarrow> UpstreamStatus env \<ge> 400"

definition EI_PutNegativeCache ::
  "'s envelope_store \<Rightarrow> env_index \<Rightarrow> time \<Rightarrow> 's \<Rightarrow> string \<Rightarrow> nat \<Rightarrow> int \<Rightarrow> (mdb_error + unit) \<times> 's" where
  "EI_PutNegativeCache st idx now s key statusCode ttl =
     es_Put st s (ix_protocol idx) (ix_kind idx) key
       (Some \<lparr>EnvelopeVersion = CurrentEnvelopeVersion, ContentType = CT_JSON,
              ContentEncoding = ENC_IDENTITY, Payload = [], PayloadDigest = [], PayloadSize = 0,
              FetchedAtUnixMs = UnixMilli now, ExpiresAtUnixMs = UnixMilli (now + ttl),
              TtlSeconds = wholeSeconds ttl, Etag = [], LastModifiedUnixMs = 0, UpstreamHost = [],
              UpstreamStatus = statusCode, BlobRefs = [], Attributes = []\<rparr>)"

section \<open>The contract of the store\<close>

definition existingOf :: "mdb_error + envelope \<Rightarrow> envelope option" where
  "existingOf r = (case r of Inl _ \<Rightarrow> None | Inr e \<Rightarrow> Some e)"

locale envelope_contract =
  fixes st :: "'s envelope_store" and inv :: "'s \<Rightarrow> bool" and canon :: "envelope \<Rightarrow> envelope"
  assumes put_inv: "inv s \<Longrightarrow> inv (snd (es_Put st s p kd k eo))"
    and put_err: "es_Put st s p kd k eo = (Inl err, s') \<Longrightarrow> s' = s"
    and put_get: "inv s \<Longrightarrow> ok_id (p, kd, k) \<Longrightarrow> es_Put st s p kd k (Some e) = (Inr (), s') \<Longrightarrow>
        es_Get st s' p kd k = Inr (canon e)"
    and put_other: "inv s \<Longrightarrow> ok_id (p, kd, k) \<Longrightarrow> ok_id (p', kd', k') \<Longrightarrow> (p', kd', k') \<noteq> (p, kd, k) \<Longrightarrow>
        es_Put st s p kd k (Some e) = (Inr (), s') \<Longrightarrow> es_Get st s' p' kd' k' = es_Get st s p' kd' k'"
    and delete_inv: "inv s \<Longrightarrow> inv (snd (es_Delete st s p kd k))"
    and delete_err: "es_Delete st s p kd k = (Inl err, s') \<Longrightarrow> s' = s"
    and delete_get: "inv s \<Longrightarrow> ok_id (p, kd, k) \<Longrightarrow> es_Delete st s p kd k = (Inr (), s') \<Longrightarrow>
        es_Get st s' p kd k = Inl ErrNotFound"
    and delete_other: "inv s \<Longrightarrow> ok_id (p, kd, k) \<Longrightarrow> ok_id (p', kd', k') \<Longrightarrow> (p', kd', k') \<noteq> (p, kd, k) \<Longrightarrow>
        es_Delete st s p kd k = (Inr (), s') \<Longrightarrow> es_Get st s' p' kd' k' = es_Get st s p' kd' k'"
    and update_inv: "inv s \<Longrightarrow> inv (snd (es_Update st s p kd k fn))"
    and update_err: "es_Update st s p kd k fn = (Inl err, s') \<Longrightarrow> s' = s"
    and update_get: "inv s \<Longrightarrow> ok_id (p, kd, k) \<Longrightarrow> es_Update st s p kd k fn = (Inr (), s') \<Longrightarrow>
        \<exists>r. fn (existingOf (es_Get st s p kd k)) = Inr r
          \<and> es_Get st s' p kd k = (case r of None \<Rightarrow> Inl ErrNotFound | Some e \<Rightarrow> Inr (canon e))"
    and update_other: "inv s \<Longrightarrow> ok_id (p, kd, k) \<Longrightarrow> ok_id (p', kd', k') \<Longrightarrow> (p', kd', k') \<noteq> (p, kd, k) \<Longrightarrow>
        es_Update st s p kd k fn = (Inr (), s') \<Longrightarrow> es_Get st s' p' kd' k' = es_Get st s p' kd' k'"
    and canon_refs: "canon e = e\<lparr>BlobRefs := BlobRefs (canon e)\<rparr>"
begin

lemma canon_fields [simp]:
  "Payload (canon e) = Payload e" "ContentEncoding (canon e) = ContentEncoding e"
  "PayloadDigest (canon e) = PayloadDigest e" "PayloadSize (canon e) = PayloadSize e"
  "ExpiresAtUnixMs (canon e) = ExpiresAtUnixMs e" "UpstreamStatus (canon e) = UpstreamStatus e"
  "Etag (canon e) = Etag e" "FetchedAtUnixMs (canon e) = FetchedAtUnixMs e"
  by (subst canon_refs, simp)+

lemma EI_DecodePayload_canon [simp]: "EI_DecodePayload idx (canon e) = EI_DecodePayload idx e"
  by (simp add: EI_DecodePayload_def)

lemma index_put_get:
  assumes codec: "zstd_ok (ix_codec idx)" "c_decoder (ix_codec idx)"
    and inv: "inv s" "ok_id (ix_protocol idx, ix_kind idx, key)"
    and put: "EI_PutWithOptions st idx now s key data ct refs opts = (Inr (), s')"
  shows "EI_Get st idx s' key = Inr data"
proof -
  obtain pl en dg where enc: "EncodePayload (ix_codec idx) data = Inr (pl, en, dg)"
    using put by (auto simp: EI_PutWithOptions_def split: sum.splits)
  show ?thesis
    using put put_get [OF inv] DecodePayload_encoded [OF codec enc]
    by (fastforce simp: EI_PutWithOptions_def enc Let_def EI_Get_def EI_DecodePayload_def)
qed

lemma index_put_expiry:
  assumes inv: "inv s" "ok_id (ix_protocol idx, ix_kind idx, key)"
    and put: "EI_PutWithOptions st idx now s key data ct refs opts = (Inr (), s')"
  shows "\<exists>env. EI_GetEnvelope st idx s' key = Inr env \<and> Etag env = po_Etag opts
    \<and> (IsExpired later env \<longleftrightarrow>
        (let ttl = (if po_TTL opts = 0 then ix_ttl idx else po_TTL opts)
         in ttl > 0 \<and> UnixMilli (now + ttl) \<noteq> 0 \<and> UnixMilli later > UnixMilli (now + ttl)))"
  using put put_get [OF inv]
  by (fastforce simp: EI_PutWithOptions_def Let_def EI_GetEnvelope_def IsExpired_def split: sum.splits)

lemma index_put_other:
  assumes inv: "inv s" and ids: "ok_id (ix_protocol idx, ix_kind idx, key)"
    "ok_id (ix_protocol idx', ix_kind idx', key')"
    and ne: "(ix_protocol idx', ix_kind idx', key') \<noteq> (ix_protocol idx, ix_kind idx, key)"
    and put: "EI_PutWithOptions st idx now s key data ct refs opts = (r, s')"
  shows "EI_Get st idx' s' key' = EI_Get st idx' s key'"
proof (cases r)
  case (Inl e)
  with put have "s' = s"
    by (auto simp: EI_PutWithOptions_def Let_def split: sum.splits dest: put_err)
  then show ?thesis by simp
next
  case (Inr u)
  then show ?thesis
    using put put_other [OF inv ids ne]
    by (fastforce simp: EI_PutWithOptions_def Let_def EI_Get_def split: sum.splits)
qed

lemma index_delete_get:
  assumes "inv s" "ok_id (ix_protocol idx, ix_kind idx, key)" and "EI_Delete st idx s key = (Inr (), s')"
  shows "EI_Get st idx s' key = Inl ErrNotFound"
  using assms delete_get by (simp add: EI_Delete_def EI_Get_def)

lemma index_update_get:
  assumes codec: "zstd_ok (ix_codec idx)" "c_decoder (ix_codec idx)"
    and inv: "inv s" "ok_id (ix_protocol idx, ix_kind idx, key)"
    and upd: "EI_Update st idx now s key fn = (Inr (), s')"
  shows "\<exists>old newData newRefs.
    fn old (existingOf (EI_GetEnvelope st idx s key)) = Inr (newData, newRefs)
    \<and> (case EI_GetEnvelope st idx s key of
          Inl _ \<Rightarrow> old = None
        | Inr _ \<Rightarrow> (\<exists>d. EI_Get st idx s key = Inr d \<and> old = nilIfEmpty d))
    \<and> EI_Get st idx s' key = (case newData of None \<Rightarrow> Inl ErrNotFound | Some d \<Rightarrow> Inr d)"
proof -
  obtain r where r: "updateCallback idx now fn (existingOf (EI_GetEnvelope st idx s key)) = Inr r"
    and get: "EI_GetEnvelope st idx s' key = (case r of None \<Rightarrow> Inl ErrNotFound | Some e \<Rightarrow> Inr (canon e))"
    using update_get [OF inv] upd by (fastforce simp: EI_Update_def EI_GetEnvelope_def)
  obtain old newData newRefs where
    old: "(case existingOf (EI_GetEnvelope st idx s key) of None \<Rightarrow> Inr None
           | Some env \<Rightarrow> rbind (EI_DecodePayload idx env) (\<lambda>d. Inr (nilIfEmpty d))) = Inr old"
    and fn: "fn old (existingOf (EI_GetEnvelope st idx s key)) = Inr (newData, newRefs)"
    and new: "newData = None \<and> r = None
      \<or> (\<exists>new e. newData = Some new \<and> r = Some e \<and> EI_DecodePayload idx e = Inr new)"
    using r DecodePayload_encoded [OF codec]
    by (fastforce simp: updateCallback_def result_simps Let_def EI_DecodePayload_def split: option.splits)
  have "case EI_GetEnvelope st idx s key of
          Inl _ \<Rightarrow> old = None
        | Inr _ \<Rightarrow> (\<exists>d. EI_Get st idx s key = Inr d \<and> old = nilIfEmpty d)"
    using old by (auto simp: existingOf_def EI_Get_def EI_GetEnvelope_def result_simps split: sum.splits)
  moreover have "EI_Get st idx s' key = (case newData of None \<Rightarrow> Inl ErrNotFound | Some d \<Rightarrow> Inr d)"
    using new get by (auto simp: EI_Get_def EI_GetEnvelope_def)
  ultimately show ?thesis using fn by blast
qed

lemma index_negative_get:
  assumes inv: "inv s" "ok_id (ix_protocol idx, ix_kind idx, key)"
    and put: "EI_PutNegativeCache st idx now s key code ttl = (Inr (), s')"
  shows "\<exists>env. EI_GetEnvelope st idx s' key = Inr env \<and> (IsNegativeCache env \<longleftrightarrow> code \<ge> 400)
    \<and> EI_Get st idx s' key = Inr []"
proof -
  note put' = put [unfolded EI_PutNegativeCache_def]
  show ?thesis
    using put_get [OF inv put']
    by (simp add: EI_GetEnvelope_def EI_Get_def EI_DecodePayload_def IsNegativeCache_def DecodePayload_def)
qed

end

section \<open>The bbolt database provides it\<close>

lemma boltStore_simps [simp]:
  "es_Put (boltStore U mar) = PutEnvelope U mar" "es_Get (boltStore U mar) = GetEnvelope"
  "es_Delete (boltStore U mar) = DeleteEnvelope" "es_Update (boltStore U mar) = UpdateEnvelope U mar"
  by (simp_all add: boltStore_def)

lemma DeleteEnvelope_good_pair: "envs_good d \<Longrightarrow> DeleteEnvelope d p kd k = (r, d') \<Longrightarrow> envs_good d'"
  by (metis DeleteEnvelope_envs_good snd_conv)

lemma PutEnvelope_good_pair: "envs_good d \<Longrightarrow> PutEnvelope U mar d p kd k e = (r, d') \<Longrightarrow> envs_good d'"
  by (metis PutEnvelope_envs_good snd_conv)

lemma UpdateEnvelope_good_pair: "envs_good d \<Longrightarrow> UpdateEnvelope U mar d p kd k fn = (r, d') \<Longrightarrow> envs_good d'"
  by (metis UpdateEnvelope_envs_good snd_conv)

lemma existingOf_GetEnvelope:
  "ok_id (p, kd, k) \<Longrightarrow> envs_good d \<Longrightarrow> existingOf (GetEnvelope d p kd k) = absEnvs d (p, kd, k)"
  by (simp add: GetEnvelope_abs existingOf_def split: option.splits)

text \<open>A successful operation that maps the stored envelopes as \<open>f\<close> does is read back so.\<close>

lemma GetEnvelope_after:
  assumes "envs_good d" "envs_good d'" "ok_id (p', kd', k')"
    and "absEnvs d' (p', kd', k') = absEnvs d (p', kd', k')"
  shows "GetEnvelope d' p' kd' k' = GetEnvelope d p' kd' k'"
  using assms by (simp add: GetEnvelope_abs)

lemma UpdateEnvelope_get:
  assumes inv: "envs_good d" and ok: "ok_id (p, kd, k)" and upd: "UpdateEnvelope U mar d p kd k fn = (Inr (), d')"
  shows "\<exists>r. fn (existingOf (GetEnvelope d p kd k)) = Inr r
      \<and> GetEnvelope d' p kd k = (case r of None \<Rightarrow> Inl ErrNotFound | Some e \<Rightarrow> Inr (canonEnv U e))"
proof -
  obtain r where r: "fn (absEnvs d (p, kd, k)) = Inr r"
    "absEnvs d' = (absEnvs d)((p, kd, k) := map_option (canonEnv U) r)"
    using UpdateEnvelope_abs [OF ok upd] by blast
  moreover have "GetEnvelope d' p kd k = (case r of None \<Rightarrow> Inl ErrNotFound | Some e \<Rightarrow> Inr (canonEnv U e))"
    using GetEnvelope_abs [OF ok UpdateEnvelope_good_pair [OF inv upd]] r(2) by (simp split: option.split)
  ultimately show ?thesis using existingOf_GetEnvelope [OF ok inv] by auto
qed

interpretation bolt_store: envelope_contract "boltStore U mar" envs_good "canonEnv U" for U mar
proof (unfold_locales, unfold boltStore_simps)
  fix d d' p kd k e
  assume "envs_good d" "ok_id (p, kd, k)" and put: "PutEnvelope U mar d p kd k (Some e) = (Inr (), d')"
  then show "GetEnvelope d' p kd k = Inr (canonEnv U e)"
    using PutEnvelope_abs [OF _ put] by (simp add: GetEnvelope_abs PutEnvelope_good_pair [OF _ put])
next
  fix d d' p kd k p' kd' k' e
  assume "envs_good d" "ok_id (p, kd, k)" "ok_id (p', kd', k')" "(p', kd', k') \<noteq> (p, kd, k)"
    and put: "PutEnvelope U mar d p kd k (Some e) = (Inr (), d')"
  then show "GetEnvelope d' p' kd' k' = GetEnvelope d p' kd' k'"
    using PutEnvelope_abs [OF _ put] by (intro GetEnvelope_after PutEnvelope_good_pair [OF _ put]) auto
next
  fix d d' p kd k
  assume "envs_good d" "ok_id (p, kd, k)" and del: "DeleteEnvelope d p kd k = (Inr (), d')"
  then show "GetEnvelope d' p kd k = Inl ErrNotFound"
    using DeleteEnvelope_abs [OF _ del] by (simp add: GetEnvelope_abs DeleteEnvelope_good_pair [OF _ del])
next
  fix d d' p kd k p' kd' k'
  assume "envs_good d" "ok_id (p, kd, k)" "ok_id (p', kd', k')" "(p', kd', k') \<noteq> (p, kd, k)"
    and del: "DeleteEnvelope d p kd k = (Inr (), d')"
  then show "GetEnvelope d' p' kd' k' = GetEnvelope d p' kd' k'"
    using DeleteEnvelope_abs [OF _ del] by (intro GetEnvelope_after DeleteEnvelope_good_pair [OF _ del]) auto
next
  fix d d' p kd k p' kd' k' fn
  assume "envs_good d" "ok_id (p, kd, k)" "ok_id (p', kd', k')" "(p', kd', k') \<noteq> (p, kd, k)"
    and upd: "UpdateEnvelope U mar d p kd k fn = (Inr (), d')"
  then show "GetEnvelope d' p' kd' k' = GetEnvelope d p' kd' k'"
    using UpdateEnvelope_abs [OF _ upd] by (intro GetEnvelope_after UpdateEnvelope_good_pair [OF _ upd]) auto
next
  fix e show "canonEnv U e = e\<lparr>BlobRefs := BlobRefs (canonEnv U e)\<rparr>" by (simp add: canonEnv_def)
next
  fix d d' p kd k eo err
  assume "PutEnvelope U mar d p kd k eo = (Inl err, d')"
  then show "d' = d" using PutEnvelope_atomic [of U mar d p kd k eo err] by simp
next
  fix d d' p kd k err
  assume "DeleteEnvelope d p kd k = (Inl err, d')"
  then show "d' = d" using DeleteEnvelope_atomic [of d p kd k err] by simp
next
  fix d d' p kd k fn err
  assume "UpdateEnvelope U mar d p kd k fn = (Inl err, d')"
  then show "d' = d" using UpdateEnvelope_atomic [of U mar d p kd k fn err] by simp
qed (rule PutEnvelope_envs_good DeleteEnvelope_envs_good UpdateEnvelope_envs_good UpdateEnvelope_get; assumption)+

end
