(* ===== verification/Index.thy ===== *)
theory Index
  imports DBReach
begin

text \<open>
  The legacy per-protocol index (\<open>store/metadb/index.go\<close>) over the interface \<open>MetaDB\<close>. The
  two optional interfaces \<open>metaRefsWriter\<close> and \<open>metaUpdateWriter\<close> are fields that a backend may
  leave out; the bbolt database provides both. \<open>enc\<close> and \<open>dec\<close> are the JSON encoding of a value
  type; \<open>now\<close> is the clock reading of the call.
\<close>

record ('s, 'v) meta_db =
  md_GetMeta :: "'s \<Rightarrow> string \<Rightarrow> string \<Rightarrow> mdb_error + bytes"
  md_PutMeta :: "time \<Rightarrow> 's \<Rightarrow> string \<Rightarrow> string \<Rightarrow> bytes \<Rightarrow> int \<Rightarrow> (mdb_error + unit) \<times> 's"
  md_DeleteMeta :: "'s \<Rightarrow> string \<Rightarrow> string \<Rightarrow> (mdb_error + unit) \<times> 's"
  md_DeleteMetaWithRefs :: "'s \<Rightarrow> string \<Rightarrow> string \<Rightarrow> (mdb_error + unit) \<times> 's"
  md_ListMeta :: "'s \<Rightarrow> string \<Rightarrow> string list"
  md_IncrementBlobRef :: "'s \<Rightarrow> string \<Rightarrow> (mdb_error + unit) \<times> 's"
  md_DecrementBlobRef :: "'s \<Rightarrow> string \<Rightarrow> (mdb_error + unit) \<times> 's"
  md_PutMetaWithRefs :: "(time \<Rightarrow> 's \<Rightarrow> string \<Rightarrow> string \<Rightarrow> bytes \<Rightarrow> int \<Rightarrow> string list
      \<Rightarrow> (mdb_error + unit) \<times> 's) option"
  md_UpdateJSON :: "(time \<Rightarrow> 's \<Rightarrow> string \<Rightarrow> string \<Rightarrow> int \<Rightarrow> ('v \<Rightarrow> mdb_error + 'v) \<Rightarrow> 'v
      \<Rightarrow> (mdb_error + unit) \<times> 's) option"

definition boltMetaDB :: "(bytes \<Rightarrow> 'v option) \<Rightarrow> ('v \<Rightarrow> bytes option) \<Rightarrow> (db, 'v) meta_db" where
  "boltMetaDB dec enc =
     \<lparr>md_GetMeta = GetMeta, md_PutMeta = PutMeta, md_DeleteMeta = DeleteMeta,
      md_DeleteMetaWithRefs = DeleteMetaWithRefs, md_ListMeta = ListMeta,
      md_IncrementBlobRef = IncrementBlobRef, md_DecrementBlobRef = DecrementBlobRef,
      md_PutMetaWithRefs = Some PutMetaWithRefs, md_UpdateJSON = Some (UpdateJSON dec enc)\<rparr>"

record index =
  idx_protocol :: string
  idx_ttl :: int

definition NewIndex :: "string \<Rightarrow> int \<Rightarrow> index" where
  "NewIndex protocol ttl = \<lparr>idx_protocol = protocol, idx_ttl = ttl\<rparr>"

definition Index_Get :: "('s, 'v) meta_db \<Rightarrow> index \<Rightarrow> 's \<Rightarrow> string \<Rightarrow> mdb_error + bytes" where
  "Index_Get m idx s key = md_GetMeta m s (idx_protocol idx) key"

definition Index_Put ::
  "('s, 'v) meta_db \<Rightarrow> index \<Rightarrow> time \<Rightarrow> 's \<Rightarrow> string \<Rightarrow> bytes \<Rightarrow> (mdb_error + unit) \<times> 's" where
  "Index_Put m idx now s key data = md_PutMeta m now s (idx_protocol idx) key data (idx_ttl idx)"

definition Index_GetJSON ::
  "(bytes \<Rightarrow> 'v option) \<Rightarrow> ('s, 'v) meta_db \<Rightarrow> index \<Rightarrow> 's \<Rightarrow> string \<Rightarrow> mdb_error + 'v" where
  "Index_GetJSON dec m idx s key =
     rbind (md_GetMeta m s (idx_protocol idx) key)
       (\<lambda>data. case dec data of None \<Rightarrow> Inl UnmarshalFailed | Some v \<Rightarrow> Inr v)"

definition Index_PutJSON ::
  "('v \<Rightarrow> bytes option) \<Rightarrow> ('s, 'v) meta_db \<Rightarrow> index \<Rightarrow> time \<Rightarrow> 's \<Rightarrow> string \<Rightarrow> 'v
     \<Rightarrow> (mdb_error + unit) \<times> 's" where
  "Index_PutJSON enc m idx now s key v =
     (case enc v of
        None \<Rightarrow> (Inl MarshalFailed, s)
      | Some data \<Rightarrow> md_PutMeta m now s (idx_protocol idx) key data (idx_ttl idx))"

definition Index_Delete :: "('s, 'v) meta_db \<Rightarrow> index \<Rightarrow> 's \<Rightarrow> string \<Rightarrow> (mdb_error + unit) \<times> 's" where
  "Index_Delete m idx s key = md_DeleteMeta m s (idx_protocol idx) key"

definition Index_List :: "('s, 'v) meta_db \<Rightarrow> index \<Rightarrow> 's \<Rightarrow> string list" where
  "Index_List m idx s = md_ListMeta m s (idx_protocol idx)"

definition Index_IncrementBlobRef ::
  "('s, 'v) meta_db \<Rightarrow> 's \<Rightarrow> string \<Rightarrow> (mdb_error + unit) \<times> 's" where
  "Index_IncrementBlobRef m s hash = md_IncrementBlobRef m s hash"

definition Index_DecrementBlobRef ::
  "('s, 'v) meta_db \<Rightarrow> 's \<Rightarrow> string \<Rightarrow> (mdb_error + unit) \<times> 's" where
  "Index_DecrementBlobRef m s hash = md_DecrementBlobRef m s hash"

text \<open>A backend without \<open>metaRefsWriter\<close> stores the value and drops the references.\<close>

definition Index_PutJSONWithRefs ::
  "('v \<Rightarrow> bytes option) \<Rightarrow> ('s, 'v) meta_db \<Rightarrow> index \<Rightarrow> time \<Rightarrow> 's \<Rightarrow> string \<Rightarrow> 'v \<Rightarrow> string list
     \<Rightarrow> (mdb_error + unit) \<times> 's" where
  "Index_PutJSONWithRefs enc m idx now s key v refs =
     (case enc v of
        None \<Rightarrow> (Inl MarshalFailed, s)
      | Some data \<Rightarrow>
          (case md_PutMetaWithRefs m of
             Some put \<Rightarrow> put now s (idx_protocol idx) key data (idx_ttl idx) refs
           | None \<Rightarrow> md_PutMeta m now s (idx_protocol idx) key data (idx_ttl idx)))"

definition Index_DeleteWithRefs ::
  "('s, 'v) meta_db \<Rightarrow> index \<Rightarrow> 's \<Rightarrow> string \<Rightarrow> (mdb_error + unit) \<times> 's" where
  "Index_DeleteWithRefs m idx s key = md_DeleteMetaWithRefs m s (idx_protocol idx) key"

definition Index_UpdateJSON ::
  "(bytes \<Rightarrow> 'v option) \<Rightarrow> ('v \<Rightarrow> bytes option) \<Rightarrow> ('s, 'v) meta_db \<Rightarrow> index \<Rightarrow> time \<Rightarrow> 's
     \<Rightarrow> string \<Rightarrow> ('v \<Rightarrow> mdb_error + 'v) \<Rightarrow> 'v \<Rightarrow> (mdb_error + unit) \<times> 's" where
  "Index_UpdateJSON dec enc m idx now s key fn v =
     (case md_UpdateJSON m of
        Some upd \<Rightarrow> upd now s (idx_protocol idx) key (idx_ttl idx) fn v
      | None \<Rightarrow>
          (let v1 = (case Index_GetJSON dec m idx s key of Inl _ \<Rightarrow> v | Inr v' \<Rightarrow> v')
           in case fn v1 of
                Inl e \<Rightarrow> (Inl e, s)
              | Inr v2 \<Rightarrow> Index_PutJSON enc m idx now s key v2))"

section \<open>Lemmas\<close>

lemma updateMetaExpiryIndex_frame:
  assumes "updateMetaExpiryIndex d p k ex = Inr d'"
  shows "d_meta d' = d_meta d \<and> d_meta_refs d' = d_meta_refs d"
  using assms by (auto simp: updateMetaExpiryIndex_def tx_unfold split: option.splits)

lemma PutMetaWithRefs_stored:
  assumes "PutMetaWithRefs now d p k data ttl refs = (Inr (), d')"
  shows "d_meta d' = bset (makeProtocolKey p k) data (d_meta d)
    \<and> d_meta_refs d' = bset (makeProtocolKey p k) (Good refs) (d_meta_refs d)"
  using assms
  by (auto simp: PutMetaWithRefs_def tx_unfold batch_def dest!: updateMetaExpiryIndex_frame split: sum.splits)

lemma PutMeta_stored:
  assumes "PutMeta now d p k data ttl = (Inr (), d')"
  shows "d_meta d' = bset (makeProtocolKey p k) data (d_meta d)"
  using assms
  by (auto simp: PutMeta_def tx_unfold batch_def dest!: updateMetaExpiryIndex_frame split: sum.splits)

lemma UpdateJSON_stored:
  assumes "UpdateJSON dec enc now d p k ttl fn v0 = (Inr (), d')"
  shows "\<exists>v v' data. (case bget (d_meta d) (makeProtocolKey p k) of None \<Rightarrow> v = v0 | Some val \<Rightarrow> dec val = Some v)
    \<and> fn v = Inr v' \<and> enc v' = Some data \<and> d_meta d' = bset (makeProtocolKey p k) data (d_meta d)"
  using assms
  by (auto simp: UpdateJSON_def tx_unfold batch_def dest!: updateMetaExpiryIndex_frame
      split: sum.splits option.splits)

lemma PutJSONWithRefs_stored:
  assumes put: "Index_PutJSONWithRefs enc (boltMetaDB dec enc) idx now d key v refs = (Inr (), d')"
    and json: "\<And>data. enc v = Some data \<Longrightarrow> dec data = Some v"
  shows "Index_GetJSON dec (boltMetaDB dec enc) idx d' key = Inr v"
    and "GetMetaBlobRefs d' (idx_protocol idx) key = refs"
  using put json
  by (auto simp: Index_PutJSONWithRefs_def boltMetaDB_def Index_GetJSON_def GetMeta_def GetMetaBlobRefs_def
      getRefs_def dest!: PutMetaWithRefs_stored split: option.splits)

lemma UpdateJSON_atomic:
  assumes upd: "Index_UpdateJSON dec enc (boltMetaDB dec enc) idx now d key fn v0 = (Inr (), d')"
    and json: "\<And>v data. enc v = Some data \<Longrightarrow> dec data = Some v"
  shows "\<exists>v'. fn (case Index_GetJSON dec (boltMetaDB dec enc) idx d key of Inl _ \<Rightarrow> v0 | Inr v \<Rightarrow> v) = Inr v'
    \<and> Index_GetJSON dec (boltMetaDB dec enc) idx d' key = Inr v'"
  using upd json
  by (fastforce simp: Index_UpdateJSON_def boltMetaDB_def Index_GetJSON_def GetMeta_def
      dest!: UpdateJSON_stored split: option.splits)

end
