(* ===== verification/IndexProperties.thy ===== *)
theory IndexProperties
  imports EnvelopeIndex Index CodecProperties
begin

text \<open>
  The properties of the typed indexes over the metadata database: the envelope index and the
  legacy JSON index.
\<close>

section \<open>The envelope index\<close>

text \<open>A value stored through an envelope index is read back byte for byte, through the
  compression, the digest and the canonicalization of its references; it expires at the time
  the options say; and no other entry of any index on the same database changes.\<close>

theorem index_put_read:
  assumes reach: "db_reach U mar d" and codec: "zstd_ok (ix_codec idx)" "c_decoder (ix_codec idx)"
    and ids: "ok_id (ix_protocol idx, ix_kind idx, key)" "ok_id (ix_protocol idx', ix_kind idx', key')"
    and put: "EI_PutWithOptions (boltStore U mar) idx now d key data ct refs opts = (Inr (), d')"
  shows "EI_Get (boltStore U mar) idx d' key = Inr data
    \<and> (\<exists>env. EI_GetEnvelope (boltStore U mar) idx d' key = Inr env \<and> Etag env = po_Etag opts
        \<and> (IsExpired later env \<longleftrightarrow>
            (let ttl = (if po_TTL opts = 0 then ix_ttl idx else po_TTL opts)
             in ttl > 0 \<and> UnixMilli (now + ttl) \<noteq> 0 \<and> UnixMilli later > UnixMilli (now + ttl))))
    \<and> ((ix_protocol idx', ix_kind idx', key') \<noteq> (ix_protocol idx, ix_kind idx, key) \<longrightarrow>
         EI_Get (boltStore U mar) idx' d' key' = EI_Get (boltStore U mar) idx' d key')"
proof -
  have inv: "envs_good d" using reach by (intro db_inv_envs_good db_reach_inv)
  show ?thesis
    using bolt_store.index_put_get [OF codec inv ids(1) put]
      bolt_store.index_put_expiry [OF inv ids(1) put] bolt_store.index_put_other [OF inv ids _ put]
    by blast
qed

definition idx0 :: env_index where
  "idx0 = NewEnvelopeIndex plainCodec ''npm'' ''metadata'' 1000000000 []"

lemma idx0_simps [simp]:
  "ix_codec idx0 = plainCodec" "ix_protocol idx0 = ''npm''" "ix_kind idx0 = ''metadata''"
  by (simp_all add: idx0_def NewEnvelopeIndex_def)

lemma encode_small: "length data < CompressionThreshold \<Longrightarrow>
  EncodePayload c data = Inr (data, ENC_IDENTITY, computeDigest c data)"
  by (simp add: EncodePayload_def Let_def CompressionThreshold_def MaxPayloadSize_def)

lemma put_db3:
  assumes "Attributes env = []" "set (BlobRefs env) \<subseteq> {ref0}"
  shows "\<exists>d'. PutEnvelope U (\<lambda>_. True) db3 ''npm'' ''metadata'' ''left-pad'' (Some env) = (Inr (), d')"
proof -
  have "blobs_good (d_blobs db3)" using reach_db3 by (rule db_reach_good)
  moreover have "ValidateEnvelope U (Some env) = Inr ()"
    using assms by (auto simp: ValidateEnvelope_def attributesSize_def validateRefs_Inr)
  ultimately show ?thesis
    using PutEnvelope_succeeds [of db3 "''npm''" "''metadata''" "''left-pad''" U env "\<lambda>_. True"]
    by (auto simp: makeEnvelopeKey_def maxKeySize_def)
qed

lemma put_sample:
  "\<exists>d'. EI_Put (boltStore U (\<lambda>_. True)) idx0 0 db3 ''left-pad'' ''{}'' CT_JSON [ref0] = (Inr (), d')"
proof -
  have enc: "EncodePayload plainCodec ''{}'' = Inr (''{}'', ENC_IDENTITY, computeDigest plainCodec ''{}'')"
    by (rule encode_small) (simp add: CompressionThreshold_def)
  show ?thesis
    unfolding EI_Put_def EI_PutWithOptions_def idx0_simps enc sum.case prod.case Let_def boltStore_simps
    by (rule put_db3) simp_all
qed

theorem index_put_read_witness:
  "\<exists>d'. EI_Put (boltStore id (\<lambda>_. True)) idx0 0 db3 ''left-pad'' ''{}'' CT_JSON [ref0] = (Inr (), d')
     \<and> EI_Get (boltStore id (\<lambda>_. True)) idx0 d' ''left-pad'' = Inr ''{}''"
proof -
  obtain d' where "EI_Put (boltStore id (\<lambda>_. True)) idx0 0 db3 ''left-pad'' ''{}'' CT_JSON [ref0] = (Inr (), d')"
    using put_sample by blast
  then show ?thesis
    using index_put_read [OF reach_db3 [of id], of idx0 "''left-pad''" idx0 "''left-pad''" 0 "''{}''" CT_JSON "[ref0]"
        noOptions d'] by (simp add: EI_Put_def)
qed

text \<open>An update through the index applies the caller's function to the value and the envelope
  that are stored at that moment, and what it returns is what the next read returns: the new
  value, or nothing when it asks for deletion.\<close>

theorem index_update_read:
  assumes reach: "db_reach U mar d" and codec: "zstd_ok (ix_codec idx)" "c_decoder (ix_codec idx)"
    and ids: "ok_id (ix_protocol idx, ix_kind idx, key)"
    and upd: "EI_Update (boltStore U mar) idx now d key fn = (Inr (), d')"
  shows "\<exists>old newData newRefs.
    fn old (existingOf (EI_GetEnvelope (boltStore U mar) idx d key)) = Inr (newData, newRefs)
    \<and> (case EI_GetEnvelope (boltStore U mar) idx d key of
          Inl _ \<Rightarrow> old = None
        | Inr _ \<Rightarrow> (\<exists>data. EI_Get (boltStore U mar) idx d key = Inr data \<and> old = nilIfEmpty data))
    \<and> EI_Get (boltStore U mar) idx d' key = (case newData of None \<Rightarrow> Inl ErrNotFound | Some data \<Rightarrow> Inr data)"
  using bolt_store.index_update_get [OF codec db_inv_envs_good [OF db_reach_inv [OF reach]] ids upd] .

theorem index_update_read_witness:
  "\<exists>d'. EI_Update (boltStore id (\<lambda>_. True)) idx0 0 db3 ''left-pad'' (\<lambda>_ _. Inr (None, [])) = (Inr (), d')
     \<and> EI_Get (boltStore id (\<lambda>_. True)) idx0 d' ''left-pad'' = Inl ErrNotFound"
proof -
  have env: "EI_DecodePayload idx0 env0 = Inr ''{}''"
    by (simp add: EI_DecodePayload_def DecodePayload_def env0_def)
  have "bget (d_envs db3) key0 = Some (Good env0)" by (simp add: db3_def)
  then obtain d' where "EI_Update (boltStore id (\<lambda>_. True)) idx0 0 db3 ''left-pad'' (\<lambda>_ _. Inr (None, [])) = (Inr (), d')"
    using UpdateEnvelope_deletes [of db3 "''npm''" "''metadata''" "''left-pad''" env0
        "updateCallback idx0 0 (\<lambda>_ _. Inr (None, []))" id "\<lambda>_. True"]
    by (auto simp: EI_Update_def updateCallback_def env key0_eq)
  moreover note index_update_read [OF reach_db3 [of id] _ _ _ this]
  ultimately show ?thesis by auto
qed

text \<open>An update that keeps an existing entry keeps its expiry, its fetch time and its TTL; only
  an update that creates the entry sets them.\<close>

theorem index_update_expiry:
  assumes reach: "db_reach U mar d" and ids: "ok_id (ix_protocol idx, ix_kind idx, key)"
    and upd: "EI_Update (boltStore U mar) idx now d key fn = (Inr (), d')"
    and old: "EI_GetEnvelope (boltStore U mar) idx d key = Inr env"
    and new: "EI_GetEnvelope (boltStore U mar) idx d' key = Inr env'"
  shows "ExpiresAtUnixMs env' = ExpiresAtUnixMs env \<and> FetchedAtUnixMs env' = FetchedAtUnixMs env
    \<and> TtlSeconds env' = TtlSeconds env"
proof -
  have "\<exists>r. updateCallback idx now fn (existingOf (EI_GetEnvelope (boltStore U mar) idx d key)) = Inr r
      \<and> EI_GetEnvelope (boltStore U mar) idx d' key
          = (case r of None \<Rightarrow> Inl ErrNotFound | Some e \<Rightarrow> Inr (canonEnv U e))"
    using bolt_store.update_get [OF db_inv_envs_good [OF db_reach_inv [OF reach]] ids] upd
    by (simp add: EI_Update_def EI_GetEnvelope_def)
  then obtain e where e: "updateCallback idx now fn (Some env) = Inr (Some e)" "env' = canonEnv U e"
    using old new by (auto simp: existingOf_def split: option.splits)
  then show ?thesis
    by (auto simp: updateCallback_def tx_unfold canonEnv_def split: option.splits)
qed

theorem index_update_expiry_witness:
  "\<exists>d' env'. EI_Update (boltStore id (\<lambda>_. True)) idx0 (5 * 10 ^ 12) db3 ''left-pad'' (\<lambda>_ _. Inr (Some ''{}'', [])) = (Inr (), d')
     \<and> EI_GetEnvelope (boltStore id (\<lambda>_. True)) idx0 d' ''left-pad'' = Inr env' \<and> ExpiresAtUnixMs env' = 2000"
proof -
  let ?fn = "\<lambda>_ _. Inr (Some ''{}'', [])" and ?st = "boltStore id (\<lambda>_. True)"
  have dec: "EI_DecodePayload idx0 env0 = Inr ''{}''"
    by (simp add: EI_DecodePayload_def DecodePayload_def env0_def)
  have enc: "EncodePayload plainCodec ''{}'' = Inr (''{}'', ENC_IDENTITY, computeDigest plainCodec ''{}'')"
    by (rule encode_small) (simp add: CompressionThreshold_def)
  have old: "bget (d_envs db3) key0 = Some (Good env0)" by (simp add: db3_def)
  obtain new where new: "updateCallback idx0 (5 * 10 ^ 12) ?fn (Some env0) = Inr (Some new)"
      "Attributes new = []" "BlobRefs new = []"
    by (simp add: updateCallback_def dec enc) (simp add: env0_def)
  have "UpdateEnvelope id (\<lambda>_. True) db3 ''npm'' ''metadata'' ''left-pad'' (updateCallback idx0 (5 * 10 ^ 12) ?fn)
      = PutEnvelope id (\<lambda>_. True) db3 ''npm'' ''metadata'' ''left-pad'' (Some new)"
    by (rule UpdateEnvelope_puts) (use old new(1) in \<open>simp_all add: key0_eq\<close>)
  then obtain d' where run: "EI_Update ?st idx0 (5 * 10 ^ 12) db3 ''left-pad'' ?fn = (Inr (), d')"
    using put_db3 [of new id] new by (auto simp: EI_Update_def)
  have get: "EI_GetEnvelope ?st idx0 db3 ''left-pad'' = Inr env0"
    using old by (simp add: EI_GetEnvelope_def GetEnvelope_def key0_eq)
  have "existingOf (es_Get ?st db3 ''npm'' ''metadata'' ''left-pad'') = Some env0"
    using get by (simp add: EI_GetEnvelope_def existingOf_def)
  then obtain env' where env': "EI_GetEnvelope ?st idx0 d' ''left-pad'' = Inr env'"
    using bolt_store.update_get [OF db_inv_envs_good [OF inv_db3] ok_id0, of id "\<lambda>_. True"] run new(1)
    by (fastforce simp: EI_Update_def EI_GetEnvelope_def)
  then show ?thesis
    using index_update_expiry [OF reach_db3 [of id] _ run get env'] run by auto
qed

text \<open>A negative entry is read back as an empty value whose envelope carries the upstream
  status, and counts as negative exactly when that status is an error.\<close>

theorem negative_cache_read:
  assumes reach: "db_reach U mar d" and ids: "ok_id (ix_protocol idx, ix_kind idx, key)"
    and put: "EI_PutNegativeCache (boltStore U mar) idx now d key code ttl = (Inr (), d')"
  shows "EI_Get (boltStore U mar) idx d' key = Inr []
    \<and> (\<exists>env. EI_GetEnvelope (boltStore U mar) idx d' key = Inr env \<and> (IsNegativeCache env \<longleftrightarrow> code \<ge> 400))"
  using bolt_store.index_negative_get [OF db_inv_envs_good [OF db_reach_inv [OF reach]] ids put] by blast

theorem negative_cache_read_witness:
  "\<exists>d'. EI_PutNegativeCache (boltStore id (\<lambda>_. True)) idx0 0 db3 ''left-pad'' 404 1000 = (Inr (), d')
     \<and> EI_Get (boltStore id (\<lambda>_. True)) idx0 d' ''left-pad'' = Inr []"
proof -
  have "\<exists>d'. EI_PutNegativeCache (boltStore id (\<lambda>_. True)) idx0 0 db3 ''left-pad'' 404 1000 = (Inr (), d')"
    unfolding EI_PutNegativeCache_def idx0_simps boltStore_simps by (rule put_db3) simp_all
  then show ?thesis using negative_cache_read [OF reach_db3 [of id], of idx0] by auto
qed

section \<open>The legacy JSON index\<close>

text \<open>A value stored with references is read back with them, and an update applies the caller's
  function to the stored value, or to the value passed in when there is none, in one transaction.\<close>

theorem json_index_read:
  assumes json: "\<And>v data. enc v = Some data \<Longrightarrow> dec data = Some v"
  shows "(\<forall>d'. Index_PutJSONWithRefs enc (boltMetaDB dec enc) idx now d key v refs = (Inr (), d') \<longrightarrow>
        Index_GetJSON dec (boltMetaDB dec enc) idx d' key = Inr v
        \<and> GetMetaBlobRefs d' (idx_protocol idx) key = refs)
    \<and> (\<forall>d'. Index_UpdateJSON dec enc (boltMetaDB dec enc) idx now d key fn v0 = (Inr (), d') \<longrightarrow>
        (\<exists>v'. fn (case Index_GetJSON dec (boltMetaDB dec enc) idx d key of Inl _ \<Rightarrow> v0 | Inr v \<Rightarrow> v) = Inr v'
           \<and> Index_GetJSON dec (boltMetaDB dec enc) idx d' key = Inr v'))"
  using PutJSONWithRefs_stored [of enc dec idx now d key v refs] UpdateJSON_atomic [of dec enc idx now d key fn v0]
    json by blast

theorem json_index_read_witness:
  "\<exists>d'. Index_PutJSONWithRefs Some (boltMetaDB Some Some) (NewIndex ''pypi'' 0) 0 createBuckets ''six'' ''{}'' [] = (Inr (), d')
     \<and> Index_GetJSON Some (boltMetaDB Some Some) (NewIndex ''pypi'' 0) d' ''six'' = Inr ''{}''"
proof -
  have "\<exists>d'. Index_PutJSONWithRefs Some (boltMetaDB Some Some) (NewIndex ''pypi'' 0) 0 createBuckets ''six'' ''{}'' [] = (Inr (), d')"
    by (simp add: Index_PutJSONWithRefs_def boltMetaDB_def NewIndex_def PutMetaWithRefs_def createBuckets_def
        getRefs_def diffRefs_def bolt_def updateMetaExpiryIndex_def Let_def expiryOf_def
        valid_key_def maxKeySize_def makeProtocolKey_def)
  then show ?thesis using json_index_read [of Some Some "NewIndex ''pypi'' 0" 0 createBuckets "''six''" "''{}''" "[]"] by blast
qed

text \<open>C37: a reference list with a repetition is counted once per repetition when it is stored, but an
  overwrite with the same blob named once takes nothing back: after the entry is deleted the
  blob still has a counter of one, and no reference.\<close>

theorem repeated_refs_leak:
  "\<exists>d1 d2 d3. PutMetaWithRefs 0 db1 ''pypi'' ''six'' ''{}'' 0 [ref0, ref0] = (Inr (), d1)
     \<and> PutMetaWithRefs 0 d1 ''pypi'' ''six'' ''{}'' 0 [ref0] = (Inr (), d2)
     \<and> DeleteMetaWithRefs d2 ''pypi'' ''six'' = (Inr (), d3)
     \<and> GetBlob d3 ref0 = Inr (blob0 1) \<and> refsTo d3 ref0 = 0"
proof -
  let ?k = "makeProtocolKey ''pypi'' ''six''"
  have k: "valid_key ?k" by (simp add: valid_key_def maxKeySize_def makeProtocolKey_def)
  define d1 where "d1 = db1\<lparr>d_blobs := bset ref0 (Good (blob0 2)) (bset ref0 (Good (blob0 1)) (d_blobs db1)),
    d_meta_refs := bset ?k (Good [ref0, ref0]) empty_bucket, d_meta := bset ?k ''{}'' empty_bucket\<rparr>"
  define d2 where "d2 = d1\<lparr>d_meta_refs := bset ?k (Good [ref0]) (d_meta_refs d1), d_meta := bset ?k ''{}'' (d_meta d1)\<rparr>"
  define d3 where "d3 = d2\<lparr>d_blobs := bset ref0 (Good (blob0 1)) (d_blobs d2),
    d_meta_refs := bdelete ?k (d_meta_refs d2), d_meta := bdelete ?k (d_meta d2)\<rparr>"
  have "PutMetaWithRefs 0 db1 ''pypi'' ''six'' ''{}'' 0 [ref0, ref0] = (Inr (), d1)"
    using k by (simp add: PutMetaWithRefs_def getRefs_def diffRefs_def bolt_def updateMetaExpiryIndex_def
        Let_def expiryOf_def incrementBlobRefInTx_def incRef_def d1_def sample_defs)
  moreover have "PutMetaWithRefs 0 d1 ''pypi'' ''six'' ''{}'' 0 [ref0] = (Inr (), d2)"
    using k by (simp add: PutMetaWithRefs_def getRefs_def diffRefs_def bolt_def updateMetaExpiryIndex_def
        Let_def expiryOf_def d2_def d1_def sample_defs)
  moreover have "DeleteMetaWithRefs d2 ''pypi'' ''six'' = (Inr (), d3)"
    using k by (simp add: DeleteMetaWithRefs_def deleteMetaWithRefsInTx_def removeMetaExpiryIndex_def getRefs_def
        bolt_def updateMetaExpiryIndex_def Let_def decrementBlobRefInTx_def decRef_def d3_def d2_def d1_def
        sample_defs)
  moreover have "GetBlob d3 ref0 = Inr (blob0 1)" by (simp add: GetBlob_Inr d3_def)
  moreover have "refsTo d3 ref0 = 0"
    by (simp add: refsTo_def refCount_def bsum_def d3_def d2_def d1_def sample_defs bset_def
        bdelete_def kdel_def)
  ultimately show ?thesis by blast
qed

end
