(* ===== verification/Queues.thy ===== *)
theory Queues
  imports Bolt Encoding
begin

text \<open>
  The persistent queues of the eviction policy (\<open>store/s3fifo/queues.go\<close>): two FIFO queues and
  the ghost set, each a pair of bbolt buckets, sequence number to hash and hash to sequence
  number. The interface \<open>Queues\<close> is the record \<open>queue_ops\<close>, its contract the locale
  \<open>queues_contract\<close> over lists of hashes, oldest first, and \<open>BoltQueues\<close> its provider. The two
  queue names are constants of the package; another name panics and is not a value here.
\<close>

datatype queue = QueueSmall | QueueMain

datatype queue_error = ErrQueueEmpty | QueueFailed bolt_error

record queues =
  q_small :: "bytes bucket"
  q_small_by_hash :: "bytes bucket"
  q_main :: "bytes bucket"
  q_main_by_hash :: "bytes bucket"
  q_ghost :: "bytes bucket"
  q_ghost_by_seq :: "bytes bucket"

definition createQueues :: queues where
  "createQueues =
     \<lparr>q_small = empty_bucket, q_small_by_hash = empty_bucket, q_main = empty_bucket,
      q_main_by_hash = empty_bucket, q_ghost = empty_bucket, q_ghost_by_seq = empty_bucket\<rparr>"

definition encodeSeq :: "nat \<Rightarrow> bytes" where
  "encodeSeq seq = be_bytes 8 seq"

fun queueFwd :: "queues \<Rightarrow> queue \<Rightarrow> bytes bucket" where
  "queueFwd q QueueSmall = q_small q"
| "queueFwd q QueueMain = q_main q"

fun queueRev :: "queues \<Rightarrow> queue \<Rightarrow> bytes bucket" where
  "queueRev q QueueSmall = q_small_by_hash q"
| "queueRev q QueueMain = q_main_by_hash q"

fun setQueue :: "queues \<Rightarrow> queue \<Rightarrow> bytes bucket \<Rightarrow> bytes bucket \<Rightarrow> queues" where
  "setQueue q QueueSmall fwd rv = q\<lparr>q_small := fwd, q_small_by_hash := rv\<rparr>"
| "setQueue q QueueMain fwd rv = q\<lparr>q_main := fwd, q_main_by_hash := rv\<rparr>"

definition qbolt :: "bolt_error + 'a \<Rightarrow> queue_error + 'a" where
  "qbolt m = (case m of Inl e \<Rightarrow> Inl (QueueFailed e) | Inr x \<Rightarrow> Inr x)"

definition qbatch :: "queues \<Rightarrow> queue_error + ('r \<times> queues) \<Rightarrow> (queue_error + 'r) \<times> queues" where
  "qbatch q m = (case m of Inl e \<Rightarrow> (Inl e, q) | Inr (r, q') \<Rightarrow> (Inr r, q'))"

section \<open>Operations\<close>

definition txPushHead ::
  "bytes bucket \<Rightarrow> bytes bucket \<Rightarrow> string \<Rightarrow> queue_error + (bool \<times> bytes bucket \<times> bytes bucket)" where
  "txPushHead fwd rv hash =
     (let (replaced, fwd1) =
            (case bget rv hash of
               Some oldSeq \<Rightarrow> (True, bdelete oldSeq fwd)
             | None \<Rightarrow> (False, fwd));
          (seq, fwd2) = next_seq fwd1;
          seqKey = encodeSeq seq
      in rbind (qbolt (bput seqKey hash fwd2))
        (\<lambda>fwd3. rbind (qbolt (bput hash seqKey rv))
        (\<lambda>rv3. Inr (replaced, fwd3, rv3))))"

definition txPopTail ::
  "bytes bucket \<Rightarrow> bytes bucket \<Rightarrow> queue_error + (string \<times> bytes bucket \<times> bytes bucket)" where
  "txPopTail fwd rv =
     (case entries fwd of
        [] \<Rightarrow> Inl ErrQueueEmpty
      | (k, v) # _ \<Rightarrow> Inr (v, bdelete k fwd, bdelete v rv))"

definition PushHead :: "queues \<Rightarrow> queue \<Rightarrow> string \<Rightarrow> (queue_error + bool) \<times> queues" where
  "PushHead q queue hash =
     qbatch q (rbind (txPushHead (queueFwd q queue) (queueRev q queue) hash)
       (\<lambda>(replaced, fwd, rv). Inr (replaced, setQueue q queue fwd rv)))"

definition PopTail :: "queues \<Rightarrow> queue \<Rightarrow> (queue_error + string) \<times> queues" where
  "PopTail q queue =
     qbatch q (rbind (txPopTail (queueFwd q queue) (queueRev q queue))
       (\<lambda>(hash, fwd, rv). Inr (hash, setQueue q queue fwd rv)))"

definition Remove :: "queues \<Rightarrow> queue \<Rightarrow> string \<Rightarrow> (queue_error + bool) \<times> queues" where
  "Remove q queue hash =
     qbatch q
       (case bget (queueRev q queue) hash of
          None \<Rightarrow> Inr (False, q)
        | Some seqKey \<Rightarrow>
            Inr (True, setQueue q queue (bdelete seqKey (queueFwd q queue)) (bdelete hash (queueRev q queue))))"

definition Len :: "queues \<Rightarrow> queue \<Rightarrow> int" where
  "Len q queue = int (keyN (queueFwd q queue))"

text \<open>The hashes \<open>ForEach\<close> visits, oldest first.\<close>

definition ForEach :: "queues \<Rightarrow> queue \<Rightarrow> string list" where
  "ForEach q queue = map snd (entries (queueFwd q queue))"

definition AdmitGhostHit :: "queues \<Rightarrow> string \<Rightarrow> (queue_error + bool) \<times> queues" where
  "AdmitGhostHit q hash =
     qbatch q
       (case bget (q_ghost q) hash of
          None \<Rightarrow> Inr (False, q)
        | Some seqKey \<Rightarrow>
            (let q1 = q\<lparr>q_ghost := bdelete hash (q_ghost q),
                        q_ghost_by_seq := bdelete seqKey (q_ghost_by_seq q)\<rparr>
             in rbind (txPushHead (q_main q1) (q_main_by_hash q1) hash)
                  (\<lambda>(_, fwd, rv). Inr (True, q1\<lparr>q_main := fwd, q_main_by_hash := rv\<rparr>))))"

definition GhostContains :: "queues \<Rightarrow> string \<Rightarrow> bool" where
  "GhostContains q hash \<longleftrightarrow> bget (q_ghost q) hash \<noteq> None"

definition GhostAdd :: "queues \<Rightarrow> string \<Rightarrow> (queue_error + unit) \<times> queues" where
  "GhostAdd q hash =
     qbatch q
       (let seqB = (case bget (q_ghost q) hash of
                      Some oldSeq \<Rightarrow> bdelete oldSeq (q_ghost_by_seq q)
                    | None \<Rightarrow> q_ghost_by_seq q);
            (seq, seqB1) = next_seq seqB;
            seqKey = encodeSeq seq
        in rbind (qbolt (bput hash seqKey (q_ghost q)))
          (\<lambda>g. rbind (qbolt (bput seqKey hash seqB1))
          (\<lambda>sb. Inr ((), q\<lparr>q_ghost := g, q_ghost_by_seq := sb\<rparr>))))"

definition GhostRemove :: "queues \<Rightarrow> string \<Rightarrow> (queue_error + unit) \<times> queues" where
  "GhostRemove q hash =
     qbatch q
       (case bget (q_ghost q) hash of
          None \<Rightarrow> Inr ((), q)
        | Some seqKey \<Rightarrow>
            Inr ((), q\<lparr>q_ghost := bdelete hash (q_ghost q),
                      q_ghost_by_seq := bdelete seqKey (q_ghost_by_seq q)\<rparr>))"

text \<open>The loop counts down from the committed number of entries.\<close>

fun trimLoop :: "nat \<Rightarrow> int \<Rightarrow> bytes bucket \<Rightarrow> bytes bucket \<Rightarrow> bytes bucket \<times> bytes bucket" where
  "trimLoop 0 maxEntries ghost seqB = (ghost, seqB)"
| "trimLoop (Suc n) maxEntries ghost seqB =
     (if int (Suc n) > maxEntries then
        (case entries seqB of
           [] \<Rightarrow> (ghost, seqB)
         | (seqKey, hashVal) # _ \<Rightarrow> trimLoop n maxEntries (bdelete hashVal ghost) (bdelete seqKey seqB))
      else (ghost, seqB))"

definition GhostTrimToMaxSize :: "queues \<Rightarrow> int \<Rightarrow> (queue_error + unit) \<times> queues" where
  "GhostTrimToMaxSize q maxEntries =
     (case trimLoop (keyN (q_ghost_by_seq q)) maxEntries (q_ghost q) (q_ghost_by_seq q) of
        (g, sb) \<Rightarrow> (Inr (), q\<lparr>q_ghost := g, q_ghost_by_seq := sb\<rparr>))"

definition GhostLen :: "queues \<Rightarrow> int" where
  "GhostLen q = int (keyN (q_ghost q))"

section \<open>The pair of buckets as a queue\<close>

text \<open>The two buckets are inverse maps, and no key is above the sequence counter.\<close>

definition pair_ok :: "bytes bucket \<Rightarrow> bytes bucket \<Rightarrow> bool" where
  "pair_ok fwd rv \<longleftrightarrow>
     wf_bucket fwd \<and> wf_bucket rv
     \<and> (\<forall>k h. bget fwd k = Some h \<longleftrightarrow> bget rv h = Some k)
     \<and> (\<forall>e \<in> set (entries fwd). \<exists>s \<le> bseq fwd. fst e = encodeSeq s)
     \<and> bseq fwd < 2 ^ 64"

definition hashes :: "bytes bucket \<Rightarrow> string list" where
  "hashes fwd = map snd (entries fwd)"

lemma encodeSeq_less: "s < 2 ^ 64 \<Longrightarrow> t < 2 ^ 64 \<Longrightarrow> encodeSeq s < encodeSeq t \<longleftrightarrow> s < t"
  by (simp add: encodeSeq_def be_bytes_less_iff)

lemma encodeSeq_valid [simp]: "valid_key (encodeSeq s)"
proof -
  have "length (encodeSeq s) = 8" by (simp add: encodeSeq_def)
  then show ?thesis by (auto simp: valid_key_def maxKeySize_def)
qed

lemma pair_ok_empty: "pair_ok empty_bucket empty_bucket"
  by (simp add: pair_ok_def)

lemma pair_ok_entry: "pair_ok fwd rv \<Longrightarrow> (k, h) \<in> set (entries fwd) \<longleftrightarrow> bget rv h = Some k"
  by (metis bget_Some_iff pair_ok_def)

lemma in_hashes: "pair_ok fwd rv \<Longrightarrow> h \<in> set (hashes fwd) \<longleftrightarrow> bget rv h \<noteq> None"
  using pair_ok_entry [of fwd rv] by (force simp: hashes_def image_iff)

lemma distinct_hashes: "pair_ok fwd rv \<Longrightarrow> distinct (hashes fwd)"
proof -
  assume ok: "pair_ok fwd rv"
  then have d: "distinct (map fst (entries fwd))" by (simp add: pair_ok_def wf_bucket_distinct)
  have "inj_on snd (set (entries fwd))"
    using ok by (auto simp: inj_on_def pair_ok_entry)
  moreover have "distinct (entries fwd)" using d by (simp add: distinct_map)
  ultimately show ?thesis by (simp add: hashes_def distinct_map)
qed

lemma pair_ok_delete:
  assumes ok: "pair_ok fwd rv" and k: "bget rv h = Some k"
  shows "pair_ok (bdelete k fwd) (bdelete h rv)" "hashes (bdelete k fwd) = filter (\<lambda>x. x \<noteq> h) (hashes fwd)"
proof -
  have inv: "bget fwd k' = Some h' \<longleftrightarrow> bget rv h' = Some k'" for k' h'
    using ok by (simp add: pair_ok_def)
  have fk: "bget fwd k = Some h" using inv k by simp
  have ne: "fst e \<noteq> k \<longleftrightarrow> snd e \<noteq> h" if "e \<in> set (entries fwd)" for e
  proof -
    have "bget rv (snd e) = Some (fst e)" using that ok by (metis pair_ok_entry prod.collapse)
    moreover have "bget fwd (fst e) = Some (snd e)" using ok calculation by (simp add: pair_ok_def)
    ultimately show ?thesis using k fk by auto
  qed
  show "hashes (bdelete k fwd) = filter (\<lambda>x. x \<noteq> h) (hashes fwd)"
    using ne by (auto simp: hashes_def bdelete_def kdel_def filter_map o_def cong: filter_cong)
  have "bget (bdelete k fwd) k' = Some h' \<longleftrightarrow> bget (bdelete h rv) h' = Some k'" for k' h'
    using inv [of k' h'] inv [of k h'] inv [of k' h] fk k by auto
  then show "pair_ok (bdelete k fwd) (bdelete h rv)"
    using ok unfolding pair_ok_def by (simp add: wf_bdelete) (simp add: bdelete_def set_kdel)
qed

lemma txPushHead_fresh:
  assumes ok: "pair_ok fwd rv" and h: "valid_key h" "bget rv h = None" and room: "bseq fwd + 1 < 2 ^ 64"
  defines "k \<equiv> encodeSeq (bseq fwd + 1)"
  shows "pair_ok (bset k h (fwd\<lparr>bseq := bseq fwd + 1\<rparr>)) (bset h k rv)"
    and "hashes (bset k h (fwd\<lparr>bseq := bseq fwd + 1\<rparr>)) = hashes fwd @ [h]"
proof -
  have lt: "fst e < k" if "e \<in> set (entries fwd)" for e
  proof -
    obtain s where "s \<le> bseq fwd" "fst e = encodeSeq s" using ok \<open>e \<in> _\<close> by (auto simp: pair_ok_def)
    then show ?thesis using room by (simp add: k_def encodeSeq_less)
  qed
  then have kins: "kins k h (entries fwd) = entries fwd @ [(k, h)]"
    by (intro kins_append_last) auto
  then show "hashes (bset k h (fwd\<lparr>bseq := bseq fwd + 1\<rparr>)) = hashes fwd @ [h]"
    by (simp add: hashes_def bset_def)
  have nk: "bget fwd k = None" using lt by (force simp: bget_None_iff)
  have inv: "bget fwd k' = Some h' \<longleftrightarrow> bget rv h' = Some k'" for k' h'
    using ok by (simp add: pair_ok_def)
  have "wf_bucket (bset k h (fwd\<lparr>bseq := bseq fwd + 1\<rparr>))" "wf_bucket (bset h k rv)"
    using ok h by (auto simp: pair_ok_def k_def intro!: wf_bset)
  moreover have "bget (bset k h (fwd\<lparr>bseq := bseq fwd + 1\<rparr>)) k' = Some h' \<longleftrightarrow> bget (bset h k rv) h' = Some k'"
    for k' h' using inv [of k' h'] inv [of k h'] inv [of k' h] nk h(2) by auto
  moreover have "\<forall>e \<in> set (entries (bset k h (fwd\<lparr>bseq := bseq fwd + 1\<rparr>))). \<exists>s \<le> bseq fwd + 1. fst e = encodeSeq s"
  proof -
    have "\<exists>s \<le> bseq fwd + 1. fst e = encodeSeq s" if "e \<in> set (entries fwd)" for e
      using ok that unfolding pair_ok_def by (meson le_SucI trans_le_add1)
    then show ?thesis unfolding bset_def using kins by (auto simp: k_def)
  qed
  ultimately show "pair_ok (bset k h (fwd\<lparr>bseq := bseq fwd + 1\<rparr>)) (bset h k rv)"
    using room by (simp add: pair_ok_def bset_def)
qed

text \<open>Pushing moves the hash to the newest end and reports whether it was there.\<close>

lemma txPushHead_spec:
  assumes ok: "pair_ok fwd rv" and h: "valid_key h" and room: "bseq fwd + 1 < 2 ^ 64"
  shows "\<exists>fwd' rv'. txPushHead fwd rv h = Inr (h \<in> set (hashes fwd), fwd', rv')
    \<and> pair_ok fwd' rv' \<and> hashes fwd' = filter (\<lambda>x. x \<noteq> h) (hashes fwd) @ [h] \<and> bseq fwd' = bseq fwd + 1"
proof (cases "bget rv h")
  case None
  then have "h \<notin> set (hashes fwd)" using in_hashes [OF ok] by simp
  moreover from this have "filter (\<lambda>x. x \<noteq> h) (hashes fwd) = hashes fwd"
    by (simp add: filter_absent)
  ultimately show ?thesis
    using txPushHead_fresh [OF ok h None room] None h room
    by (simp add: txPushHead_def next_seq_def Let_def qbolt_def) (simp add: bset_def)
next
  case (Some k)
  let ?f = "bdelete k fwd" and ?r = "bdelete h rv"
  note del = pair_ok_delete [OF ok Some]
  have "h \<in> set (hashes fwd)" using in_hashes [OF ok] Some by simp
  moreover have bs: "bseq ?f = bseq fwd" by (simp add: bdelete_def)
  moreover have "bset h x ?r = bset h x rv" for x
  proof -
    have *: "kins h x (kdel h xs) = kins h x xs" if "sorted_wrt (<) (map fst xs)" for xs :: "(bytes \<times> bytes) list"
      using that
    proof (induction xs)
      case (Cons e xs)
      show ?case
      proof (cases "fst e = h")
        case True
        then have "kdel h xs = xs" using Cons.prems by (intro kdel_absent) auto
        moreover have "kins h x xs = (h, x) # xs"
          using Cons.prems True by (cases xs) auto
        ultimately show ?thesis using True by (cases e) (simp add: kdel_def)
      next
        case False
        show ?thesis
        proof (cases "h < fst e")
          case True
          then have "kdel h xs = xs" using Cons.prems by (intro kdel_absent) (auto dest: less_trans)
          then show ?thesis using True False by (cases e) (auto simp: kdel_def)
        next
          case ge: False
          then show ?thesis using False Cons by (cases e) (auto simp: kdel_def)
        qed
      qed
    qed (simp add: kdel_def)
    have "sorted_wrt (<) (map fst (entries rv))" using ok by (simp add: pair_ok_def wf_bucket_def)
    then show ?thesis by (simp add: bset_def bdelete_def *)
  qed
  moreover have "bget ?r h = None" by simp
  ultimately show ?thesis
    using txPushHead_fresh [OF del(1) h, unfolded bs] Some h room del(2)
    by (simp add: txPushHead_def next_seq_def Let_def qbolt_def) (simp add: bset_def)
qed

lemma txPopTail_spec:
  assumes ok: "pair_ok fwd rv"
  shows "(case hashes fwd of
      [] \<Rightarrow> txPopTail fwd rv = Inl ErrQueueEmpty
    | h # hs \<Rightarrow> \<exists>fwd' rv'. txPopTail fwd rv = Inr (h, fwd', rv') \<and> pair_ok fwd' rv' \<and> hashes fwd' = hs
        \<and> bseq fwd' = bseq fwd)"
proof (cases "entries fwd")
  case Nil
  then show ?thesis by (simp add: txPopTail_def hashes_def)
next
  case (Cons e xs)
  obtain k h where e: "e = (k, h)" by (cases e)
  have "bget rv h = Some k" using ok Cons e by (metis list.set_intros(1) pair_ok_entry)
  note del = pair_ok_delete [OF ok this]
  have "distinct (hashes fwd)" using ok by (rule distinct_hashes)
  then have "filter (\<lambda>x. x \<noteq> h) (hashes fwd) = map snd xs"
    using Cons e by (auto simp: hashes_def filter_id_conv)
  then show ?thesis using Cons e del
    by (simp add: txPopTail_def hashes_def [of fwd]) (simp add: bdelete_def)
qed

section \<open>The interface and its contract\<close>

record 'q queue_ops =
  qo_PushHead :: "'q \<Rightarrow> queue \<Rightarrow> string \<Rightarrow> (queue_error + bool) \<times> 'q"
  qo_PopTail :: "'q \<Rightarrow> queue \<Rightarrow> (queue_error + string) \<times> 'q"
  qo_Remove :: "'q \<Rightarrow> queue \<Rightarrow> string \<Rightarrow> (queue_error + bool) \<times> 'q"
  qo_Len :: "'q \<Rightarrow> queue \<Rightarrow> queue_error + int"
  qo_ForEach :: "'q \<Rightarrow> queue \<Rightarrow> queue_error + string list"
  qo_AdmitGhostHit :: "'q \<Rightarrow> string \<Rightarrow> (queue_error + bool) \<times> 'q"
  qo_GhostContains :: "'q \<Rightarrow> string \<Rightarrow> queue_error + bool"
  qo_GhostAdd :: "'q \<Rightarrow> string \<Rightarrow> (queue_error + unit) \<times> 'q"
  qo_GhostRemove :: "'q \<Rightarrow> string \<Rightarrow> (queue_error + unit) \<times> 'q"
  qo_GhostTrim :: "'q \<Rightarrow> int \<Rightarrow> (queue_error + unit) \<times> 'q"
  qo_GhostLen :: "'q \<Rightarrow> queue_error + int"

definition boltQueues :: "queues queue_ops" where
  "boltQueues =
     \<lparr>qo_PushHead = PushHead, qo_PopTail = PopTail, qo_Remove = Remove,
      qo_Len = (\<lambda>q x. Inr (Len q x)), qo_ForEach = (\<lambda>q x. Inr (ForEach q x)),
      qo_AdmitGhostHit = AdmitGhostHit, qo_GhostContains = (\<lambda>q h. Inr (GhostContains q h)),
      qo_GhostAdd = GhostAdd, qo_GhostRemove = GhostRemove, qo_GhostTrim = GhostTrimToMaxSize,
      qo_GhostLen = (\<lambda>q. Inr (GhostLen q))\<rparr>"

text \<open>
  \<open>lst\<close> and \<open>gh\<close> are the contents, oldest first; \<open>room q n\<close> says that \<open>n\<close> more
  insertions have sequence numbers left.
\<close>

locale queues_contract =
  fixes qo :: "'q queue_ops" and inv :: "'q \<Rightarrow> bool" and room :: "'q \<Rightarrow> nat \<Rightarrow> bool"
    and lst :: "'q \<Rightarrow> queue \<Rightarrow> string list" and gh :: "'q \<Rightarrow> string list"
  assumes lst_distinct: "inv q \<Longrightarrow> distinct (lst q x)"
    and gh_distinct: "inv q \<Longrightarrow> distinct (gh q)"
    and lst_valid: "inv q \<Longrightarrow> h \<in> set (lst q x) \<Longrightarrow> valid_key h"
    and gh_valid: "inv q \<Longrightarrow> h \<in> set (gh q) \<Longrightarrow> valid_key h"
    and room_mono: "room q n \<Longrightarrow> m \<le> n \<Longrightarrow> room q m"
    and push: "inv q \<Longrightarrow> room q (Suc n) \<Longrightarrow> valid_key h \<Longrightarrow>
        \<exists>q'. qo_PushHead qo q x h = (Inr (h \<in> set (lst q x)), q') \<and> inv q' \<and> room q' n
          \<and> lst q' = (lst q)(x := filter (\<lambda>y. y \<noteq> h) (lst q x) @ [h]) \<and> gh q' = gh q"
    and pop_empty: "inv q \<Longrightarrow> lst q x = [] \<Longrightarrow> qo_PopTail qo q x = (Inl ErrQueueEmpty, q)"
    and pop: "inv q \<Longrightarrow> room q n \<Longrightarrow> lst q x = h # hs \<Longrightarrow>
        \<exists>q'. qo_PopTail qo q x = (Inr h, q') \<and> inv q' \<and> room q' n
          \<and> lst q' = (lst q)(x := hs) \<and> gh q' = gh q"
    and remove: "inv q \<Longrightarrow> room q n \<Longrightarrow>
        \<exists>q'. qo_Remove qo q x h = (Inr (h \<in> set (lst q x)), q') \<and> inv q' \<and> room q' n
          \<and> lst q' = (lst q)(x := filter (\<lambda>y. y \<noteq> h) (lst q x)) \<and> gh q' = gh q"
    and len: "inv q \<Longrightarrow> qo_Len qo q x = Inr (int (length (lst q x)))"
    and for_each: "inv q \<Longrightarrow> qo_ForEach qo q x = Inr (lst q x)"
    and ghost_hit: "inv q \<Longrightarrow> room q (Suc n) \<Longrightarrow> h \<in> set (gh q) \<Longrightarrow>
        \<exists>q'. qo_AdmitGhostHit qo q h = (Inr True, q') \<and> inv q' \<and> room q' n
          \<and> lst q' = (lst q)(QueueMain := filter (\<lambda>y. y \<noteq> h) (lst q QueueMain) @ [h])
          \<and> gh q' = filter (\<lambda>y. y \<noteq> h) (gh q)"
    and ghost_miss: "inv q \<Longrightarrow> h \<notin> set (gh q) \<Longrightarrow> qo_AdmitGhostHit qo q h = (Inr False, q)"
    and ghost_contains: "inv q \<Longrightarrow> qo_GhostContains qo q h = Inr (h \<in> set (gh q))"
    and ghost_add: "inv q \<Longrightarrow> room q (Suc n) \<Longrightarrow> valid_key h \<Longrightarrow>
        \<exists>q'. qo_GhostAdd qo q h = (Inr (), q') \<and> inv q' \<and> room q' n \<and> lst q' = lst q
          \<and> gh q' = filter (\<lambda>y. y \<noteq> h) (gh q) @ [h]"
    and ghost_remove: "inv q \<Longrightarrow> room q n \<Longrightarrow>
        \<exists>q'. qo_GhostRemove qo q h = (Inr (), q') \<and> inv q' \<and> room q' n \<and> lst q' = lst q
          \<and> gh q' = filter (\<lambda>y. y \<noteq> h) (gh q)"
    and ghost_trim: "inv q \<Longrightarrow> room q n \<Longrightarrow>
        \<exists>q'. qo_GhostTrim qo q maxn = (Inr (), q') \<and> inv q' \<and> room q' n \<and> lst q' = lst q
          \<and> gh q' = drop (length (gh q) - nat maxn) (gh q)"
    and ghost_len: "inv q \<Longrightarrow> qo_GhostLen qo q = Inr (int (length (gh q)))"

section \<open>The bbolt queues provide it\<close>

definition queues_inv :: "queues \<Rightarrow> bool" where
  "queues_inv q \<longleftrightarrow>
     pair_ok (q_small q) (q_small_by_hash q) \<and> pair_ok (q_main q) (q_main_by_hash q)
     \<and> pair_ok (q_ghost_by_seq q) (q_ghost q)"

definition queues_room :: "queues \<Rightarrow> nat \<Rightarrow> bool" where
  "queues_room q n \<longleftrightarrow>
     bseq (q_small q) + n < 2 ^ 64 \<and> bseq (q_main q) + n < 2 ^ 64 \<and> bseq (q_ghost_by_seq q) + n < 2 ^ 64"

definition queueList :: "queues \<Rightarrow> queue \<Rightarrow> string list" where
  "queueList q x = hashes (queueFwd q x)"

definition ghostList :: "queues \<Rightarrow> string list" where
  "ghostList q = hashes (q_ghost_by_seq q)"

lemma queues_inv_create: "queues_inv createQueues"
  by (simp add: queues_inv_def createQueues_def pair_ok_empty)

lemma queues_inv_pair: "queues_inv q \<Longrightarrow> pair_ok (queueFwd q x) (queueRev q x)"
  by (cases x) (simp_all add: queues_inv_def)

lemma queues_inv_ghost: "queues_inv q \<Longrightarrow> pair_ok (q_ghost_by_seq q) (q_ghost q)"
  by (simp add: queues_inv_def)

lemma queues_room_fwd: "queues_room q n \<Longrightarrow> bseq (queueFwd q x) + n < 2 ^ 64"
  by (cases x) (simp_all add: queues_room_def)

lemma setQueue_inv:
  "queues_inv q \<Longrightarrow> pair_ok fwd rv \<Longrightarrow> queues_inv (setQueue q x fwd rv)"
  by (cases x) (simp_all add: queues_inv_def)

lemma setQueue_room:
  "queues_room q n \<Longrightarrow> bseq fwd + m < 2 ^ 64 \<Longrightarrow> m \<le> n \<Longrightarrow> queues_room (setQueue q x fwd rv) m"
  by (cases x) (simp_all add: queues_room_def)

lemma setQueue_list: "queueList (setQueue q x fwd rv) = (queueList q)(x := hashes fwd)"
proof
  fix y show "queueList (setQueue q x fwd rv) y = ((queueList q)(x := hashes fwd)) y"
    by (cases x; cases y) (simp_all add: queueList_def)
qed

lemma setQueue_ghost: "ghostList (setQueue q x fwd rv) = ghostList q"
  by (cases x) (simp_all add: ghostList_def)

lemma pair_ok_valid: "pair_ok fwd rv \<Longrightarrow> h \<in> set (hashes fwd) \<Longrightarrow> valid_key h"
  using in_hashes [of fwd rv h] by (auto simp: pair_ok_def intro: bget_valid_key)

lemma keyN_hashes: "keyN fwd = length (hashes fwd)"
  by (simp add: keyN_def hashes_def)

lemma pair_ok_keyN: "pair_ok fwd rv \<Longrightarrow> keyN rv = keyN fwd"
proof -
  assume ok: "pair_ok fwd rv"
  have "set (hashes fwd) = fst ` set (entries rv)"
    using in_hashes [OF ok] bget_None_iff [of rv] by auto
  moreover have "distinct (map fst (entries rv))" using ok by (simp add: pair_ok_def wf_bucket_distinct)
  ultimately show ?thesis
    using distinct_hashes [OF ok] by (metis distinct_card keyN_def keyN_hashes length_map set_map)
qed

lemma trimLoop_spec:
  assumes "pair_ok seqB ghost" "n = keyN seqB"
  shows "\<exists>g sb. trimLoop n m ghost seqB = (g, sb) \<and> pair_ok sb g
    \<and> hashes sb = drop (length (hashes seqB) - nat m) (hashes seqB) \<and> bseq sb = bseq seqB"
  using assms
proof (induction n m ghost seqB rule: trimLoop.induct)
  case (2 n m ghost seqB)
  have len: "length (hashes seqB) = Suc n" using "2.prems"(2) by (simp add: keyN_hashes)
  show ?case
  proof (cases "int (Suc n) > m")
    case True
    obtain k h xs where e: "entries seqB = (k, h) # xs"
      using "2.prems"(2) by (cases "entries seqB") (auto simp: keyN_def)
    have "bget ghost h = Some k" using "2.prems"(1) e by (metis list.set_intros(1) pair_ok_entry)
    note del = pair_ok_delete [OF "2.prems"(1) this]
    have "distinct (hashes seqB)" using "2.prems"(1) by (rule distinct_hashes)
    then have tl: "filter (\<lambda>x. x \<noteq> h) (hashes seqB) = map snd xs"
      using e by (auto simp: hashes_def filter_id_conv)
    have "n = keyN (bdelete k seqB)" using del(2) tl len e by (simp add: keyN_hashes hashes_def)
    moreover have "hashes (bdelete k seqB) = map snd xs" "length (map snd xs) = n"
      using del(2) tl len e by (simp_all add: hashes_def)
    moreover have "bseq (bdelete k seqB) = bseq seqB" by (simp add: bdelete_def)
    ultimately obtain g sb where "trimLoop n m (bdelete h ghost) (bdelete k seqB) = (g, sb)" "pair_ok sb g"
      "hashes sb = drop (n - nat m) (map snd xs)" "bseq sb = bseq seqB"
      using "2.IH" [OF True e refl del(1)] by metis
    moreover have "Suc n - nat m = Suc (n - nat m)" using True by linarith
    ultimately show ?thesis using True e len by (simp add: hashes_def)
  next
    case False
    then show ?thesis using len "2.prems"(1) by simp
  qed
qed (simp add: keyN_hashes)

interpretation bolt_queues: queues_contract boltQueues queues_inv queues_room queueList ghostList
proof (unfold_locales, unfold boltQueues_def queue_ops.simps)
  fix q n x h
  assume q: "queues_inv q" "queues_room q (Suc n)" "valid_key h"
  note ok = queues_inv_pair [OF q(1), of x]
  have "bseq (queueFwd q x) + 1 < 2 ^ 64" using queues_room_fwd [OF q(2), of x] by simp
  from txPushHead_spec [OF ok q(3) this]
  obtain fwd rv where t: "txPushHead (queueFwd q x) (queueRev q x) h =
      Inr (h \<in> set (hashes (queueFwd q x)), fwd, rv)" "pair_ok fwd rv"
    "hashes fwd = filter (\<lambda>y. y \<noteq> h) (hashes (queueFwd q x)) @ [h]" "bseq fwd = bseq (queueFwd q x) + 1"
    by blast
  have "bseq fwd + n < 2 ^ 64" using queues_room_fwd [OF q(2), of x] t(4) by simp
  then show "\<exists>q'. PushHead q x h = (Inr (h \<in> set (queueList q x)), q') \<and> queues_inv q' \<and> queues_room q' n
      \<and> queueList q' = (queueList q)(x := filter (\<lambda>y. y \<noteq> h) (queueList q x) @ [h])
      \<and> ghostList q' = ghostList q"
    using t setQueue_inv [OF q(1) t(2)] setQueue_room [OF q(2)]
    by (simp add: PushHead_def qbatch_def setQueue_list setQueue_ghost queueList_def)
next
  fix q x assume q: "queues_inv q" "queueList q x = []"
  then show "PopTail q x = (Inl ErrQueueEmpty, q)"
    using txPopTail_spec [OF queues_inv_pair [OF q(1), of x]]
    by (simp add: PopTail_def qbatch_def queueList_def)
next
  fix q n x h hs assume q: "queues_inv q" "queues_room q n" "queueList q x = h # hs"
  then obtain fwd rv where t: "txPopTail (queueFwd q x) (queueRev q x) = Inr (h, fwd, rv)" "pair_ok fwd rv"
    "hashes fwd = hs" "bseq fwd = bseq (queueFwd q x)"
    using txPopTail_spec [OF queues_inv_pair [OF q(1), of x]] by (auto simp: queueList_def)
  then show "\<exists>q'. PopTail q x = (Inr h, q') \<and> queues_inv q' \<and> queues_room q' n
      \<and> queueList q' = (queueList q)(x := hs) \<and> ghostList q' = ghostList q"
    using setQueue_inv [OF q(1) t(2)] setQueue_room [OF q(2)] queues_room_fwd [OF q(2), of x]
    by (simp add: PopTail_def qbatch_def setQueue_list setQueue_ghost)
next
  fix q n x h assume q: "queues_inv q" "queues_room q n"
  note ok = queues_inv_pair [OF q(1), of x]
  show "\<exists>q'. Remove q x h = (Inr (h \<in> set (queueList q x)), q') \<and> queues_inv q' \<and> queues_room q' n
      \<and> queueList q' = (queueList q)(x := filter (\<lambda>y. y \<noteq> h) (queueList q x)) \<and> ghostList q' = ghostList q"
  proof (cases "bget (queueRev q x) h")
    case None
    then have "h \<notin> set (queueList q x)" using in_hashes [OF ok] by (simp add: queueList_def)
    moreover from this have "filter (\<lambda>y. y \<noteq> h) (queueList q x) = queueList q x"
      by (simp add: filter_absent)
    ultimately show ?thesis using None q by (simp add: Remove_def qbatch_def fun_upd_idem)
  next
    case (Some k)
    note del = pair_ok_delete [OF ok Some]
    have "h \<in> set (queueList q x)" using in_hashes [OF ok] Some by (simp add: queueList_def)
    moreover have "bseq (bdelete k (queueFwd q x)) + n < 2 ^ 64"
      using queues_room_fwd [OF q(2), of x] by (simp add: bdelete_def)
    ultimately show ?thesis
      using Some setQueue_inv [OF q(1) del(1)] setQueue_room [OF q(2)] del(2)
      by (simp add: Remove_def qbatch_def setQueue_list setQueue_ghost queueList_def)
  qed
next
  fix q n h assume q: "queues_inv q" "queues_room q (Suc n)" "h \<in> set (ghostList q)"
  note ok = queues_inv_ghost [OF q(1)]
  obtain k where k: "bget (q_ghost q) h = Some k" using q(3) in_hashes [OF ok] by (auto simp: ghostList_def)
  have v: "valid_key h" using pair_ok_valid [OF ok] q(3) by (simp add: ghostList_def)
  note del = pair_ok_delete [OF ok k]
  have m: "pair_ok (q_main q) (q_main_by_hash q)" "bseq (q_main q) + 1 < 2 ^ 64"
    using q(1,2) by (simp_all add: queues_inv_def queues_room_def)
  obtain fwd rv b where t: "txPushHead (q_main q) (q_main_by_hash q) h = Inr (b, fwd, rv)" "pair_ok fwd rv"
    "hashes fwd = filter (\<lambda>y. y \<noteq> h) (hashes (q_main q)) @ [h]" "bseq fwd = bseq (q_main q) + 1"
    using txPushHead_spec [OF m(1) v m(2)] by blast
  let ?q' = "q\<lparr>q_ghost := bdelete h (q_ghost q), q_ghost_by_seq := bdelete k (q_ghost_by_seq q),
               q_main := fwd, q_main_by_hash := rv\<rparr>"
  have "AdmitGhostHit q h = (Inr True, ?q')"
    using k t(1) by (simp add: AdmitGhostHit_def qbatch_def Let_def)
  moreover have "queues_inv ?q'" using q(1) t(2) del(1) by (simp add: queues_inv_def)
  moreover have "queues_room ?q' n" using q(2) t(4) by (simp add: queues_room_def bdelete_def)
  moreover have "queueList ?q' = (queueList q)(QueueMain := filter (\<lambda>y. y \<noteq> h) (queueList q QueueMain) @ [h])"
  proof
    fix y show "queueList ?q' y
        = ((queueList q)(QueueMain := filter (\<lambda>y. y \<noteq> h) (queueList q QueueMain) @ [h])) y"
      by (cases y) (simp_all add: queueList_def t(3))
  qed
  moreover have "ghostList ?q' = filter (\<lambda>y. y \<noteq> h) (ghostList q)"
    using del(2) by (simp add: ghostList_def)
  ultimately show "\<exists>q'. AdmitGhostHit q h = (Inr True, q') \<and> queues_inv q' \<and> queues_room q' n
      \<and> queueList q' = (queueList q)(QueueMain := filter (\<lambda>y. y \<noteq> h) (queueList q QueueMain) @ [h])
      \<and> ghostList q' = filter (\<lambda>y. y \<noteq> h) (ghostList q)" by blast
next
  fix q h assume q: "queues_inv q" "h \<notin> set (ghostList q)"
  then have "bget (q_ghost q) h = None"
    using in_hashes [OF queues_inv_ghost [OF q(1)], of h] by (simp add: ghostList_def)
  then show "AdmitGhostHit q h = (Inr False, q)" by (simp add: AdmitGhostHit_def qbatch_def)
next
  fix q h assume q: "queues_inv q"
  show "Inr (GhostContains q h) = (Inr (h \<in> set (ghostList q)) :: queue_error + bool)"
    using in_hashes [OF queues_inv_ghost [OF q], of h] by (simp add: GhostContains_def ghostList_def)
next
  fix q n h assume q: "queues_inv q" "queues_room q (Suc n)" "valid_key h"
  note ok = queues_inv_ghost [OF q(1)]
  have room: "bseq (q_ghost_by_seq q) + 1 < 2 ^ 64" using q(2) by (simp add: queues_room_def)
  obtain sb g b where t: "txPushHead (q_ghost_by_seq q) (q_ghost q) h = Inr (b, sb, g)" "pair_ok sb g"
    "hashes sb = filter (\<lambda>y. y \<noteq> h) (hashes (q_ghost_by_seq q)) @ [h]"
    "bseq sb = bseq (q_ghost_by_seq q) + 1"
    using txPushHead_spec [OF ok q(3) room] by blast
  have "GhostAdd q h = (Inr (), q\<lparr>q_ghost := g, q_ghost_by_seq := sb\<rparr>)"
    using t(1) q(3)
    by (auto simp: GhostAdd_def qbatch_def txPushHead_def Let_def next_seq_def qbolt_def result_simps
        split: option.splits)
  moreover have "queues_inv (q\<lparr>q_ghost := g, q_ghost_by_seq := sb\<rparr>)"
    using q(1) t(2) by (simp add: queues_inv_def)
  moreover have "queues_room (q\<lparr>q_ghost := g, q_ghost_by_seq := sb\<rparr>) n"
    using q(2) t(4) by (simp add: queues_room_def)
  moreover have "queueList (q\<lparr>q_ghost := g, q_ghost_by_seq := sb\<rparr>) = queueList q"
  proof
    fix y show "queueList (q\<lparr>q_ghost := g, q_ghost_by_seq := sb\<rparr>) y = queueList q y"
      by (cases y) (simp_all add: queueList_def)
  qed
  ultimately show "\<exists>q'. GhostAdd q h = (Inr (), q') \<and> queues_inv q' \<and> queues_room q' n
      \<and> queueList q' = queueList q \<and> ghostList q' = filter (\<lambda>y. y \<noteq> h) (ghostList q) @ [h]"
    using t(3) by (auto simp: ghostList_def)
next
  fix q n h assume q: "queues_inv q" "queues_room q n"
  note ok = queues_inv_ghost [OF q(1)]
  show "\<exists>q'. GhostRemove q h = (Inr (), q') \<and> queues_inv q' \<and> queues_room q' n
      \<and> queueList q' = queueList q \<and> ghostList q' = filter (\<lambda>y. y \<noteq> h) (ghostList q)"
  proof (cases "bget (q_ghost q) h")
    case None
    then have "h \<notin> set (ghostList q)" using in_hashes [OF ok] by (simp add: ghostList_def)
    then have "filter (\<lambda>y. y \<noteq> h) (ghostList q) = ghostList q"
      by (simp add: filter_absent)
    then show ?thesis using None q by (simp add: GhostRemove_def qbatch_def)
  next
    case (Some k)
    note del = pair_ok_delete [OF ok Some]
    let ?q' = "q\<lparr>q_ghost := bdelete h (q_ghost q), q_ghost_by_seq := bdelete k (q_ghost_by_seq q)\<rparr>"
    have "queueList ?q' = queueList q"
    proof
      fix y show "queueList ?q' y = queueList q y" by (cases y) (simp_all add: queueList_def)
    qed
    moreover have "queues_inv ?q'" "queues_room ?q' n"
      using q del(1) by (simp_all add: queues_inv_def queues_room_def bdelete_def)
    ultimately show ?thesis
      using Some del(2) by (simp add: GhostRemove_def qbatch_def ghostList_def)
  qed
next
  fix q n m assume q: "queues_inv q" "queues_room q n"
  obtain g sb where t: "trimLoop (keyN (q_ghost_by_seq q)) m (q_ghost q) (q_ghost_by_seq q) = (g, sb)"
    "pair_ok sb g" "hashes sb = drop (length (hashes (q_ghost_by_seq q)) - nat m) (hashes (q_ghost_by_seq q))"
    "bseq sb = bseq (q_ghost_by_seq q)"
    using trimLoop_spec [OF queues_inv_ghost [OF q(1)] refl] by blast
  have "queueList (q\<lparr>q_ghost := g, q_ghost_by_seq := sb\<rparr>) = queueList q"
  proof
    fix y show "queueList (q\<lparr>q_ghost := g, q_ghost_by_seq := sb\<rparr>) y = queueList q y"
      by (cases y) (simp_all add: queueList_def)
  qed
  moreover have "queues_inv (q\<lparr>q_ghost := g, q_ghost_by_seq := sb\<rparr>)"
    "queues_room (q\<lparr>q_ghost := g, q_ghost_by_seq := sb\<rparr>) n"
    using q t by (simp_all add: queues_inv_def queues_room_def)
  ultimately show "\<exists>q'. GhostTrimToMaxSize q m = (Inr (), q') \<and> queues_inv q' \<and> queues_room q' n
      \<and> queueList q' = queueList q \<and> ghostList q' = drop (length (ghostList q) - nat m) (ghostList q)"
    using t by (simp add: GhostTrimToMaxSize_def ghostList_def)
next
  fix q assume q: "queues_inv q"
  show "Inr (GhostLen q) = (Inr (int (length (ghostList q))) :: queue_error + int)"
    using pair_ok_keyN [OF queues_inv_ghost [OF q]] by (simp add: GhostLen_def ghostList_def keyN_hashes)
next
  fix q n m assume "queues_room q n" "m \<le> n"
  then show "queues_room q m" by (simp add: queues_room_def)
qed (auto simp: queueList_def ghostList_def Len_def ForEach_def keyN_hashes hashes_def [symmetric]
    intro: distinct_hashes [OF queues_inv_pair] distinct_hashes [OF queues_inv_ghost]
      pair_ok_valid [OF queues_inv_pair] pair_ok_valid [OF queues_inv_ghost])

end
