(* ===== verification/Backend.thy ===== *)
theory Backend
  imports Hashes "HOL-Library.AList"
begin

text \<open>
  Storage backends (\<open>backend/backend.go\<close>, \<open>framing.go\<close>, \<open>filesystem.go\<close>): the interface, the
  framed file format, and the filesystem backend with its atomic writes through temporary
  files. The file system is a finite map from paths (lists of components) to contents with a
  set of directories; any system call may fail, as the schedule \<open>fs_fail\<close> decides call by call.
\<close>

section \<open>Interface\<close>

datatype backend_error =
    BackendNotFound
  | IOFailed
  | ErrInvalidMagic
  | ErrHeaderTooLarge
  | ShortRead
  | HeaderMarshalFailed
  | HeaderParseFailed

record blob_header =
  bh_ContentType :: string
  bh_ContentLength :: int
  bh_CachedAt :: string
  bh_UpstreamETag :: string
  bh_ContentHash :: string

text \<open>Optional interfaces are \<open>None\<close> where the backend does not implement them.\<close>

record 'b backend_ops =
  bk_Write :: "'b \<Rightarrow> string \<Rightarrow> source \<Rightarrow> (backend_error + unit) \<times> 'b"
  bk_Read :: "'b \<Rightarrow> string \<Rightarrow> backend_error + bytes"
  bk_Delete :: "'b \<Rightarrow> string \<Rightarrow> (backend_error + unit) \<times> 'b"
  bk_Exists :: "'b \<Rightarrow> string \<Rightarrow> backend_error + bool"
  bk_List :: "'b \<Rightarrow> string \<Rightarrow> backend_error + string list"
  bk_Size :: "('b \<Rightarrow> string \<Rightarrow> backend_error + int) option"
  bk_WriteFramed :: "('b \<Rightarrow> string \<Rightarrow> blob_header \<Rightarrow> source \<Rightarrow> (backend_error + unit) \<times> 'b) option"
  bk_ReadFramed :: "('b \<Rightarrow> string \<Rightarrow> backend_error + (blob_header \<times> bytes)) option"

section \<open>Framing\<close>

definition MagicBytes :: bytes where
  "MagicBytes = ''CCB1''"

definition MaxHeaderSize :: nat where
  "MaxHeaderSize = 64 * 1024"

text \<open>The JSON encoding of a header and its decoding.\<close>

record header_codec =
  hc_enc :: "blob_header \<Rightarrow> bytes option"
  hc_dec :: "bytes \<Rightarrow> blob_header option"

definition header_codec_ok :: "header_codec \<Rightarrow> bool" where
  "header_codec_ok c \<longleftrightarrow> (\<forall>h b. hc_enc c h = Some b \<longrightarrow> hc_dec c b = Some h)"

text \<open>The bytes written before an error, and the error if there is one.\<close>

definition WriteFramed ::
  "header_codec \<Rightarrow> blob_header \<Rightarrow> source \<Rightarrow> (backend_error + unit) \<times> bytes" where
  "WriteFramed c header body =
     (case hc_enc c header of
        None \<Rightarrow> (Inl HeaderMarshalFailed, [])
      | Some headerBytes \<Rightarrow>
          let headerLen = length headerBytes
          in if headerLen > MaxHeaderSize then (Inl ErrHeaderTooLarge, [])
             else let out = MagicBytes @ be_bytes 4 headerLen @ headerBytes @ concat (chunks body)
                  in if src_fails body then (Inl IOFailed, out) else (Inr (), out))"

definition ReadFramed :: "header_codec \<Rightarrow> bytes \<Rightarrow> backend_error + (blob_header \<times> bytes)" where
  "ReadFramed c r =
     (if length r < 4 then Inl ShortRead
      else if take 4 r \<noteq> MagicBytes then Inl ErrInvalidMagic
      else let r1 = drop 4 r
           in if length r1 < 4 then Inl ShortRead
              else let headerLen = be_val (take 4 r1); r2 = drop 4 r1
                   in if headerLen > MaxHeaderSize then Inl ErrHeaderTooLarge
                      else if length r2 < headerLen then Inl ShortRead
                      else (case hc_dec c (take headerLen r2) of
                              None \<Rightarrow> Inl HeaderParseFailed
                            | Some header \<Rightarrow> Inr (header, drop headerLen r2)))"

definition IsFramed :: "bytes \<Rightarrow> bool" where
  "IsFramed r = (if length r < 4 then False else take 4 r = MagicBytes)"

section \<open>Paths\<close>

type_synonym path = "string list"

text \<open>\<open>filepath.Clean\<close> of an absolute path, over its components, most recent first.\<close>

fun cleanPath :: "path \<Rightarrow> string list \<Rightarrow> path" where
  "cleanPath acc [] = rev acc"
| "cleanPath acc (c # cs) =
     (if c = [] \<or> c = ''.'' then cleanPath acc cs
      else if c = ''..'' then cleanPath (drop 1 acc) cs
      else cleanPath (c # acc) cs)"

section \<open>The file system\<close>

record fs =
  fs_root :: path
  fs_files :: "(path \<times> bytes) list"
  fs_dirs :: "path list"
  fs_fail :: "nat \<Rightarrow> bool"
  fs_tick :: nat

definition fs_sys :: "fs \<Rightarrow> bool \<times> fs" where
  "fs_sys fs = (\<not> fs_fail fs (fs_tick fs), fs\<lparr>fs_tick := Suc (fs_tick fs)\<rparr>)"

definition isFile :: "fs \<Rightarrow> path \<Rightarrow> bool" where
  "isFile fs p \<longleftrightarrow> map_of (fs_files fs) p \<noteq> None"

definition mkdirAll :: "fs \<Rightarrow> path \<Rightarrow> bool \<times> fs" where
  "mkdirAll fs dir =
     (let (ok, fs1) = fs_sys fs; ps = map (\<lambda>n. take n dir) [0..<Suc (length dir)]
      in if \<not> ok \<or> list_ex (isFile fs) ps then (False, fs1)
         else (True, fs1\<lparr>fs_dirs := remdups (ps @ fs_dirs fs1)\<rparr>))"

text \<open>\<open>os.CreateTemp\<close> picks a name that does not exist.\<close>

definition freshName :: "(path \<times> bytes) list \<Rightarrow> string" where
  "freshName files =
     ''.tmp-'' @ replicate (sum_list (map (\<lambda>(p, _). sum_list (map length p)) files)) (CHR ''0'')"

definition createTemp :: "fs \<Rightarrow> path \<Rightarrow> path option \<times> fs" where
  "createTemp fs dir =
     (let (ok, fs1) = fs_sys fs; tmp = dir @ [freshName (fs_files fs)]
      in if ok then (Some tmp, fs1\<lparr>fs_files := AList.update tmp [] (fs_files fs1)\<rparr>) else (None, fs1))"

text \<open>Append to an open file; a failing device writes nothing.\<close>

definition fappend :: "fs \<Rightarrow> path \<Rightarrow> bytes \<Rightarrow> bool \<times> fs" where
  "fappend fs p d =
     (let (ok, fs1) = fs_sys fs
      in if ok then (True, fs1\<lparr>fs_files := AList.map_entry p (\<lambda>old. old @ d) (fs_files fs1)\<rparr>) else (False, fs1))"

definition fremove :: "fs \<Rightarrow> path \<Rightarrow> bool \<times> fs" where
  "fremove fs p =
     (let (ok, fs1) = fs_sys fs
      in if ok then (True, fs1\<lparr>fs_files := AList.delete p (fs_files fs1)\<rparr>) else (False, fs1))"

definition frename :: "fs \<Rightarrow> path \<Rightarrow> path \<Rightarrow> bool \<times> fs" where
  "frename fs src dst =
     (let (ok, fs1) = fs_sys fs
      in case map_of (fs_files fs) src of
           None \<Rightarrow> (False, fs1)
         | Some d \<Rightarrow>
             if \<not> ok \<or> dst \<in> set (fs_dirs fs) then (False, fs1)
             else (True, fs1\<lparr>fs_files := AList.update dst d (AList.delete src (fs_files fs1))\<rparr>))"

section \<open>The filesystem backend\<close>

definition keyToPath :: "fs \<Rightarrow> string \<Rightarrow> path" where
  "keyToPath fs key = cleanPath [] (fs_root fs @ SplitOn key (CHR ''/''))"

text \<open>The tail shared by the atomic writes: sync, close, rename; the temporary file is removed,
  best effort, when a step fails.\<close>

definition discardTemp :: "fs \<Rightarrow> path \<Rightarrow> fs" where
  "discardTemp fs tmp = snd (fremove fs tmp)"

definition commitTemp :: "fs \<Rightarrow> path \<Rightarrow> path \<Rightarrow> (backend_error + unit) \<times> fs" where
  "commitTemp fs tmp path =
     (case fs_sys fs of
        (False, fs1) \<Rightarrow> (Inl IOFailed, discardTemp fs1 tmp)
      | (True, fs1) \<Rightarrow>
          (case fs_sys fs1 of
             (False, fs2) \<Rightarrow> (Inl IOFailed, discardTemp fs2 tmp)
           | (True, fs2) \<Rightarrow>
               (case frename fs2 tmp path of
                  (False, fs3) \<Rightarrow> (Inl IOFailed, discardTemp fs3 tmp)
                | (True, fs3) \<Rightarrow> (Inr (), fs3))))"

definition openTemp :: "fs \<Rightarrow> path \<Rightarrow> path option \<times> fs" where
  "openTemp fs path =
     (case mkdirAll fs (butlast path) of
        (False, fs1) \<Rightarrow> (None, fs1)
      | (True, fs1) \<Rightarrow> createTemp fs1 (butlast path))"

definition fs_Write :: "fs \<Rightarrow> string \<Rightarrow> source \<Rightarrow> (backend_error + unit) \<times> fs" where
  "fs_Write fs key r =
     (let path = keyToPath fs key
      in case openTemp fs path of
           (None, fs1) \<Rightarrow> (Inl IOFailed, fs1)
         | (Some tmp, fs1) \<Rightarrow>
             (case fappend fs1 tmp (concat (chunks r)) of
                (ok, fs2) \<Rightarrow>
                  if \<not> ok \<or> src_fails r then (Inl IOFailed, discardTemp fs2 tmp)
                  else commitTemp fs2 tmp path))"

definition fs_Read :: "fs \<Rightarrow> string \<Rightarrow> backend_error + bytes" where
  "fs_Read fs key =
     (case map_of (fs_files fs) (keyToPath fs key) of
        Some d \<Rightarrow> if fs_fail fs (fs_tick fs) then Inl IOFailed else Inr d
      | None \<Rightarrow> if keyToPath fs key \<in> set (fs_dirs fs) then Inl IOFailed else Inl BackendNotFound)"

text \<open>\<open>os.Remove\<close> removes a file or an empty directory.\<close>

definition fs_Delete :: "fs \<Rightarrow> string \<Rightarrow> (backend_error + unit) \<times> fs" where
  "fs_Delete fs key =
     (let path = keyToPath fs key
      in if isFile fs path then
           (case fremove fs path of (ok, fs1) \<Rightarrow> (if ok then Inr () else Inl IOFailed, fs1))
         else if path \<in> set (fs_dirs fs) then
           (if list_ex (\<lambda>p. butlast p = path \<and> p \<noteq> path) (map fst (fs_files fs) @ fs_dirs fs)
            then (Inl IOFailed, fs)
            else (Inr (), fs\<lparr>fs_dirs := removeAll path (fs_dirs fs)\<rparr>))
         else (Inr (), fs))"

definition fs_Exists :: "fs \<Rightarrow> string \<Rightarrow> backend_error + bool" where
  "fs_Exists fs key =
     (if fs_fail fs (fs_tick fs) then Inl IOFailed
      else Inr (isFile fs (keyToPath fs key) \<or> keyToPath fs key \<in> set (fs_dirs fs)))"

text \<open>\<open>filepath.Rel\<close> of a path under the root, with slashes.\<close>

fun joinPath :: "path \<Rightarrow> string" where
  "joinPath [] = ''.''"
| "joinPath [c] = c"
| "joinPath (c # d # cs) = c @ ''/'' @ joinPath (d # cs)"

definition fs_List :: "fs \<Rightarrow> string \<Rightarrow> backend_error + string list" where
  "fs_List fs pre =
     (let dir = keyToPath fs pre
      in if fs_fail fs (fs_tick fs) then Inl IOFailed
         else if isFile fs dir then Inr [pre]
         else if dir \<notin> set (fs_dirs fs) then Inr []
         else Inr (map (\<lambda>p. joinPath (drop (length (fs_root fs)) p))
                (filter (\<lambda>p. \<not> HasPrefix (last p) ''.tmp-'')
                  (sort (filter (\<lambda>p. take (length dir) p = dir) (map fst (fs_files fs)))))))"

definition fs_Size :: "fs \<Rightarrow> string \<Rightarrow> backend_error + int" where
  "fs_Size fs key =
     (case map_of (fs_files fs) (keyToPath fs key) of
        None \<Rightarrow> Inl BackendNotFound
      | Some d \<Rightarrow> if fs_fail fs (fs_tick fs) then Inl IOFailed else Inr (int (length d)))"

definition fs_WriteFramed ::
  "header_codec \<Rightarrow> fs \<Rightarrow> string \<Rightarrow> blob_header \<Rightarrow> source \<Rightarrow> (backend_error + unit) \<times> fs" where
  "fs_WriteFramed c fs key header body =
     (let path = keyToPath fs key
      in case openTemp fs path of
           (None, fs1) \<Rightarrow> (Inl IOFailed, fs1)
         | (Some tmp, fs1) \<Rightarrow>
             (case WriteFramed c header body of
                (r, out) \<Rightarrow>
                  (case fappend fs1 tmp out of
                     (ok, fs2) \<Rightarrow>
                       (case r of
                          Inl e \<Rightarrow> (Inl e, discardTemp fs2 tmp)
                        | Inr _ \<Rightarrow>
                            if \<not> ok then (Inl IOFailed, discardTemp fs2 tmp)
                            else commitTemp fs2 tmp path))))"

definition fs_ReadFramed :: "header_codec \<Rightarrow> fs \<Rightarrow> string \<Rightarrow> backend_error + (blob_header \<times> bytes)" where
  "fs_ReadFramed c fs key = rbind (fs_Read fs key) (\<lambda>d. ReadFramed c d)"

definition filesystem :: "header_codec \<Rightarrow> fs backend_ops" where
  "filesystem c =
     \<lparr>bk_Write = fs_Write, bk_Read = fs_Read, bk_Delete = fs_Delete, bk_Exists = fs_Exists,
      bk_List = fs_List, bk_Size = Some fs_Size, bk_WriteFramed = Some (fs_WriteFramed c),
      bk_ReadFramed = Some (fs_ReadFramed c)\<rparr>"

text \<open>\<open>NewFilesystem\<close> with an absolute root.\<close>

definition NewFilesystem :: "fs \<Rightarrow> path \<Rightarrow> fs option" where
  "NewFilesystem fs root =
     (case mkdirAll fs (cleanPath [] root) of
        (False, _) \<Rightarrow> None
      | (True, fs1) \<Rightarrow> Some (fs1\<lparr>fs_root := cleanPath [] root\<rparr>))"

section \<open>The atomic writer\<close>

record atomic_writer =
  aw_tmp :: path
  aw_dst :: path
  aw_closed :: bool

definition fs_Writer :: "fs \<Rightarrow> string \<Rightarrow> (backend_error + atomic_writer) \<times> fs" where
  "fs_Writer fs key =
     (case openTemp fs (keyToPath fs key) of
        (None, fs1) \<Rightarrow> (Inl IOFailed, fs1)
      | (Some tmp, fs1) \<Rightarrow> (Inr \<lparr>aw_tmp = tmp, aw_dst = keyToPath fs key, aw_closed = False\<rparr>, fs1))"

definition aw_Write :: "fs \<Rightarrow> atomic_writer \<Rightarrow> bytes \<Rightarrow> bool \<times> fs" where
  "aw_Write fs w p = fappend fs (aw_tmp w) p"

definition aw_Close :: "fs \<Rightarrow> atomic_writer \<Rightarrow> (backend_error + unit) \<times> atomic_writer \<times> fs" where
  "aw_Close fs w =
     (if aw_closed w then (Inr (), w, fs)
      else (case commitTemp fs (aw_tmp w) (aw_dst w) of (r, fs1) \<Rightarrow> (r, w\<lparr>aw_closed := True\<rparr>, fs1)))"

definition aw_Abort :: "fs \<Rightarrow> atomic_writer \<Rightarrow> (backend_error + unit) \<times> atomic_writer \<times> fs" where
  "aw_Abort fs w =
     (if aw_closed w then (Inr (), w, fs)
      else (case fremove fs (aw_tmp w) of
              (ok, fs1) \<Rightarrow> (if ok then Inr () else Inl IOFailed, w\<lparr>aw_closed := True\<rparr>, fs1)))"

section \<open>Framing lemmas\<close>

lemma ReadFramed_WriteFramed:
  assumes codec: "header_codec_ok c" and w: "WriteFramed c header body = (Inr (), out)"
  shows "ReadFramed c out = Inr (header, concat (chunks body))"
proof -
  obtain hb where hb: "hc_enc c header = Some hb" "length hb \<le> MaxHeaderSize"
    "out = MagicBytes @ be_bytes 4 (length hb) @ hb @ concat (chunks body)"
    using w by (auto simp: WriteFramed_def Let_def split: option.splits if_splits)
  have magic: "length MagicBytes = 4" by (simp add: MagicBytes_def)
  have "be_val (be_bytes 4 (length hb)) = length hb"
    using hb(2) by (simp add: be_val_be_bytes MaxHeaderSize_def)
  moreover have "hc_dec c hb = Some header" using codec hb(1) by (simp add: header_codec_ok_def)
  ultimately show ?thesis
    using hb(2) magic by (simp add: ReadFramed_def Let_def hb(3))
qed

lemma IsFramed_WriteFramed: "WriteFramed c header body = (Inr (), out) \<Longrightarrow> IsFramed out"
  by (auto simp: WriteFramed_def Let_def IsFramed_def MagicBytes_def split: option.splits if_splits)

lemma ReadFramed_Inr_IsFramed: "ReadFramed c r = Inr x \<Longrightarrow> IsFramed r"
  by (auto simp: ReadFramed_def Let_def IsFramed_def split: if_splits)

section \<open>Paths of blobs\<close>

definition blobPath :: "fs \<Rightarrow> hash \<Rightarrow> path" where
  "blobPath fs h = fs_root fs @ [BlobKeyPrefix, take 2 (hash_String h), hash_String h]"

lemma cleanPath_append: "cleanPath acc (xs @ ys) = cleanPath (rev (cleanPath acc xs)) ys"
  by (induction acc xs rule: cleanPath.induct) auto

definition plain :: "string \<Rightarrow> bool" where
  "plain c \<longleftrightarrow> c \<noteq> [] \<and> c \<noteq> ''.'' \<and> c \<noteq> ''..''"

lemma cleanPath_plain: "list_all plain cs \<Longrightarrow> cleanPath acc cs = rev acc @ cs"
  by (induction cs arbitrary: acc) (auto simp: plain_def)

lemma no_dot_plain: "c \<noteq> [] \<Longrightarrow> CHR ''.'' \<notin> set c \<Longrightarrow> plain c"
  by (auto simp: plain_def)

lemma plain_blob:
  assumes "is_hash h"
  shows "plain BlobKeyPrefix" "plain (take 2 (hash_String h))" "plain (hash_String h)"
proof -
  have "length (hash_String h) = 64" using assms by simp
  then have "hash_String h \<noteq> []" "take 2 (hash_String h) \<noteq> []" by auto
  then show "plain (take 2 (hash_String h))" "plain (hash_String h)"
    using hash_String_no_sep(3) [of h] by (auto intro: no_dot_plain dest: in_set_takeD)
  show "plain BlobKeyPrefix" by (simp add: plain_def BlobKeyPrefix_def)
qed

text \<open>Files lie three levels under the root, and directories above them.\<close>

definition filePath :: "path \<Rightarrow> path \<Rightarrow> bool" where
  "filePath root p \<longleftrightarrow>
     length p = length root + 3 \<and> take (length root) p = root
     \<and> (\<forall>c \<in> set (drop (length root) p). CHR ''/'' \<notin> set c \<and> plain c)"

definition fs_inv :: "fs \<Rightarrow> bool" where
  "fs_inv fs \<longleftrightarrow>
     cleanPath [] (fs_root fs) = fs_root fs \<and> distinct (map fst (fs_files fs))
     \<and> fst ` set (fs_files fs) \<subseteq> Collect (filePath (fs_root fs))
     \<and> (\<forall>d \<in> set (fs_dirs fs). length d \<le> length (fs_root fs) + 2)"

lemma fs_inv_tick [simp]: "fs_inv (fs\<lparr>fs_tick := n\<rparr>) = fs_inv fs"
  by (simp add: fs_inv_def)

lemma fs_inv_file: "fs_inv fs \<Longrightarrow> map_of (fs_files fs) p \<noteq> None \<Longrightarrow> filePath (fs_root fs) p"
  by (auto simp: fs_inv_def map_of_eq_None_iff)

lemma keyToPath_blob:
  assumes "fs_inv fs" and "is_hash h"
  shows "keyToPath fs (BlobStorageKey h) = blobPath fs h"
proof -
  have "list_all plain [BlobKeyPrefix, take 2 (hash_String h), hash_String h]"
    using plain_blob [OF assms(2)] by simp
  moreover have "cleanPath [] (fs_root fs) = fs_root fs" using assms(1) by (simp add: fs_inv_def)
  ultimately show ?thesis
    by (simp only: keyToPath_def BlobStorageKey_split cleanPath_append cleanPath_plain blobPath_def rev_rev_ident)
qed

lemma blobPath_inject: "blobPath fs g = blobPath fs h \<longleftrightarrow> g = h"
  by (auto simp: blobPath_def)

lemma length_blobPath [simp]: "length (blobPath fs h) = length (fs_root fs) + 3"
  by (simp add: blobPath_def)

section \<open>What the steps of a write keep\<close>

text \<open>\<open>keeps fs fs'\<close>: same root, the invariant, and the same content at every path but \<open>tmp\<close>.\<close>

definition keeps :: "path set \<Rightarrow> fs \<Rightarrow> fs \<Rightarrow> bool" where
  "keeps ps fs fs' \<longleftrightarrow>
     fs_root fs' = fs_root fs \<and> fs_inv fs' \<and> fs_fail fs' = fs_fail fs \<and> fs_tick fs \<le> fs_tick fs'
     \<and> (\<forall>p. p \<notin> ps \<longrightarrow> map_of (fs_files fs') p = map_of (fs_files fs) p)"

lemma keeps_trans: "keeps ps a b \<Longrightarrow> keeps qs b c \<Longrightarrow> keeps (ps \<union> qs) a c"
  by (simp add: keeps_def)

lemma keeps_mono: "keeps ps a b \<Longrightarrow> ps \<subseteq> qs \<Longrightarrow> keeps qs a b"
  by (auto simp: keeps_def)

lemma keeps_inv: "keeps ps a b \<Longrightarrow> fs_inv b"
  by (simp add: keeps_def)

lemma fs_sys_keeps: "fs_inv fs \<Longrightarrow> fs_sys fs = (ok, fs') \<Longrightarrow>
    keeps {} fs fs' \<and> fs_files fs' = fs_files fs \<and> fs_dirs fs' = fs_dirs fs
    \<and> (ok \<longleftrightarrow> \<not> fs_fail fs (fs_tick fs))"
  by (auto simp: fs_sys_def keeps_def)

lemma mkdirAll_keeps:
  assumes "fs_inv fs" and "length dir = length (fs_root fs) + 2" and "mkdirAll fs dir = (ok, fs')"
  shows "keeps {} fs fs' \<and> fs_files fs' = fs_files fs \<and> (\<not> fs_fail fs (fs_tick fs) \<longrightarrow> ok)"
proof -
  define ps where "ps = map (\<lambda>n. take n dir) [0..<Suc (length dir)]"
  have "\<not> isFile fs (take n dir)" for n
  proof
    assume "isFile fs (take n dir)"
    then have "filePath (fs_root fs) (take n dir)" using assms(1) by (simp add: isFile_def fs_inv_file)
    then have "length (take n dir) = length (fs_root fs) + 3" by (simp only: filePath_def)
    moreover have "length (take n dir) \<le> length dir" by (metis length_take min.cobounded1)
    ultimately show False using assms(2) by linarith
  qed
  then have no: "\<not> list_ex (isFile fs) ps" by (auto simp: list_ex_iff ps_def simp del: upt_Suc)
  have "\<forall>d \<in> set ps. length d \<le> length (fs_root fs) + 2" using assms(2) by (auto simp: ps_def)
  then have "fs_inv (fs\<lparr>fs_tick := Suc (fs_tick fs), fs_dirs := remdups (ps @ fs_dirs fs)\<rparr>)"
    using assms(1) by (auto simp: fs_inv_def)
  then show ?thesis
    using assms(1,3) no
    by (auto simp: mkdirAll_def fs_sys_def keeps_def Let_def ps_def [symmetric] simp del: upt_Suc
        split: if_splits)
qed

lemma update_inv:
  "fs_inv fs \<Longrightarrow> filePath (fs_root fs) p \<Longrightarrow> fs_inv (fs\<lparr>fs_files := AList.update p d (fs_files fs)\<rparr>)"
  by (simp add: fs_inv_def distinct_update dom_update)

lemma delete_inv: "fs_inv fs \<Longrightarrow> fs_inv (fs\<lparr>fs_files := AList.delete p (fs_files fs)\<rparr>)"
  using dom_delete_subset [of p "fs_files fs"]
  by (simp add: fs_inv_def distinct_delete) blast

lemma map_entry_inv: "fs_inv fs \<Longrightarrow> fs_inv (fs\<lparr>fs_files := AList.map_entry p f (fs_files fs)\<rparr>)"
  by (simp add: fs_inv_def distinct_map_entry dom_map_entry)

lemma fs_inv_tick_files [simp]:
  "fs_inv (fs\<lparr>fs_tick := n, fs_files := xs\<rparr>) = fs_inv (fs\<lparr>fs_files := xs\<rparr>)"
  by (simp add: fs_inv_def)

lemma freshName_fresh: "dir @ [freshName files] \<notin> fst ` set files"
proof
  assume "dir @ [freshName files] \<in> fst ` set files"
  then obtain d where d: "(dir @ [freshName files], d) \<in> set files" by auto
  have "sum_list (map length (dir @ [freshName files]))
      \<le> sum_list (map (\<lambda>(p, _). sum_list (map length p)) files)"
    using d by (intro member_le_sum_list) force+
  then show False by (simp add: freshName_def)
qed

lemma createTemp_keeps:
  assumes "fs_inv fs" and dir: "filePath (fs_root fs) (dir @ [x])" and "createTemp fs dir = (t, fs')"
  shows "(\<not> fs_fail fs (fs_tick fs) \<longrightarrow> t \<noteq> None) \<and>
    (case t of None \<Rightarrow> keeps {} fs fs'
     | Some tmp \<Rightarrow> tmp = dir @ [freshName (fs_files fs)] \<and> keeps {tmp} fs fs'
        \<and> map_of (fs_files fs) tmp = None \<and> map_of (fs_files fs') tmp = Some [])"
proof -
  let ?tmp = "dir @ [freshName (fs_files fs)]"
  have "CHR ''/'' \<notin> set (freshName (fs_files fs))" "plain (freshName (fs_files fs))"
    by (auto simp: freshName_def plain_def)
  moreover have "length (fs_root fs) \<le> length dir" using dir by (simp add: filePath_def)
  ultimately have "filePath (fs_root fs) ?tmp" using dir by (simp add: filePath_def)
  then have "fs_inv (fs\<lparr>fs_files := AList.update ?tmp [] (fs_files fs)\<rparr>)"
    by (rule update_inv [OF assms(1)])
  moreover have "map_of (fs_files fs) ?tmp = None"
    using freshName_fresh [of dir "fs_files fs"] by (simp add: map_of_eq_None_iff)
  ultimately show ?thesis
    using assms by (auto simp: createTemp_def fs_sys_def Let_def keeps_def update_conv' split: if_splits)
qed

lemma fremove_keeps:
  assumes "fs_inv fs" and "fremove fs p = (ok, fs')"
  shows "keeps {p} fs fs' \<and> (\<not> fs_fail fs (fs_tick fs) \<longrightarrow> ok) \<and> (ok \<longrightarrow> map_of (fs_files fs') p = None)
    \<and> (\<not> ok \<longrightarrow> keeps {} fs fs')"
  using assms delete_inv [OF assms(1), of p]
  by (auto simp: fremove_def fs_sys_def Let_def keeps_def delete_conv' split: if_splits)

lemma discardTemp_keeps: "fs_inv fs \<Longrightarrow> keeps {p} fs (discardTemp fs p)"
  using fremove_keeps [of fs p] by (cases "fremove fs p") (auto simp: discardTemp_def)

lemma fappend_keeps:
  assumes "fs_inv fs" and "fappend fs p d = (ok, fs')"
  shows "keeps {p} fs fs' \<and> (\<not> fs_fail fs (fs_tick fs) \<longrightarrow> ok)
    \<and> (ok \<longrightarrow> map_of (fs_files fs') p = map_option (\<lambda>old. old @ d) (map_of (fs_files fs) p))"
  using assms map_entry_inv [OF assms(1), of p "\<lambda>old. old @ d"]
  by (auto simp: fappend_def fs_sys_def Let_def keeps_def map_of_map_entry split: if_splits option.splits)

lemma frename_keeps:
  assumes "fs_inv fs" and src: "map_of (fs_files fs) src = Some d" and ne: "src \<noteq> dst"
    and dst: "filePath (fs_root fs) dst" and "frename fs src dst = (ok, fs')"
  shows "keeps {src, dst} fs fs' \<and> (\<not> fs_fail fs (fs_tick fs) \<longrightarrow> ok) \<and> (\<not> ok \<longrightarrow> keeps {} fs fs')
    \<and> (ok \<longrightarrow> map_of (fs_files fs') dst = Some d \<and> map_of (fs_files fs') src = None)"
proof -
  have "dst \<notin> set (fs_dirs fs)" using assms(1) dst by (force simp: fs_inv_def filePath_def)
  moreover have "fs_inv (fs\<lparr>fs_files := AList.update dst d (AList.delete src (fs_files fs))\<rparr>)"
    using update_inv [OF delete_inv [OF assms(1), of src], of dst d] dst by simp
  ultimately show ?thesis
    using assms
    by (auto simp: frename_def fs_sys_def Let_def keeps_def update_conv' delete_conv' split: if_splits)
qed

section \<open>The contract of a backend\<close>

text \<open>
  \<open>content b h\<close> is what is stored under the key of the blob \<open>h\<close>; \<open>listed\<close> holds of the keys
  that listings return, and deleting by such a key touches only the blob of that very key; \<open>healthy b\<close> says that no
  later call fails for a reason of its own. A write that fails leaves every content as it was.
\<close>

locale backend_contract =
  fixes bk :: "'b backend_ops" and inv :: "'b \<Rightarrow> bool" and healthy :: "'b \<Rightarrow> bool"
    and content :: "'b \<Rightarrow> hash \<Rightarrow> bytes option" and listed :: "string \<Rightarrow> bool"
  assumes put_data: "inv b \<Longrightarrow> is_hash h \<Longrightarrow> bk_Write bk b (BlobStorageKey h) r = (res, b') \<Longrightarrow>
        inv b' \<and> (healthy b \<longrightarrow> healthy b' \<and> (src_fails r \<or> res = Inr ()))
        \<and> (case res of
             Inl _ \<Rightarrow> (\<forall>g. is_hash g \<longrightarrow> content b' g = content b g)
           | Inr _ \<Rightarrow> \<not> src_fails r \<and> (\<forall>g. is_hash g \<longrightarrow>
               content b' g = (if g = h then Some (concat (chunks r)) else content b g)))"
    and get_data: "inv b \<Longrightarrow> is_hash h \<Longrightarrow> bk_Read bk b (BlobStorageKey h) = rres \<Longrightarrow>
        (case rres of
           Inr d \<Rightarrow> content b h = Some d
         | Inl e \<Rightarrow> (e = BackendNotFound \<longrightarrow> content b h = None) \<and> (healthy b \<longrightarrow> content b h = None \<and> e = BackendNotFound))"
    and del_data: "inv b \<Longrightarrow> is_hash h \<Longrightarrow> bk_Delete bk b (BlobStorageKey h) = (res, b') \<Longrightarrow>
        inv b' \<and> (healthy b \<longrightarrow> healthy b' \<and> res = Inr ())
        \<and> (case res of
             Inl e \<Rightarrow> (e = BackendNotFound \<longrightarrow> content b h = None)
               \<and> (\<forall>g. is_hash g \<longrightarrow> content b' g = content b g)
           | Inr _ \<Rightarrow> (\<forall>g. is_hash g \<longrightarrow> content b' g = (if g = h then None else content b g)))"
    and has_data: "inv b \<Longrightarrow> is_hash h \<Longrightarrow> bk_Exists bk b (BlobStorageKey h) = xres \<Longrightarrow>
        (case xres of Inr x \<Rightarrow> x \<longleftrightarrow> content b h \<noteq> None | Inl e \<Rightarrow> \<not> healthy b)"
    and size_data: "inv b \<Longrightarrow> is_hash h \<Longrightarrow> bk_Size bk = Some sz \<Longrightarrow> sz b (BlobStorageKey h) = Inr n \<Longrightarrow>
        \<exists>d. content b h = Some d \<and> n = int (length d)"
    and size_healthy: "inv b \<Longrightarrow> is_hash h \<Longrightarrow> bk_Size bk = Some sz \<Longrightarrow> healthy b \<Longrightarrow> content b h = Some d \<Longrightarrow>
        sz b (BlobStorageKey h) = Inr (int (length d))"
    and list_data: "inv b \<Longrightarrow> pre \<in> {BlobKeyPrefix, BlobKeyPrefix @ ''/''} \<Longrightarrow> bk_List bk b pre = Inr keys \<Longrightarrow>
        key \<in> set keys \<Longrightarrow> listed key \<and> (\<forall>h. is_hash h \<longrightarrow> key = BlobStorageKey h \<longrightarrow> content b h \<noteq> None)"
    and del_listed: "inv b \<Longrightarrow> listed key \<Longrightarrow> bk_Delete bk b key = (res, b') \<Longrightarrow>
        inv b' \<and> (healthy b \<longrightarrow> healthy b')
        \<and> (\<forall>g. is_hash g \<longrightarrow> key \<noteq> BlobStorageKey g \<longrightarrow> content b' g = content b g)"
begin

text \<open>What was written is read back.\<close>

lemma write_read:
  assumes "inv b" "is_hash h" "bk_Write bk b (BlobStorageKey h) r = (Inr (), b')" "healthy b"
  shows "bk_Read bk b' (BlobStorageKey h) = Inr (concat (chunks r))"
  using put_data [OF assms(1-3)] get_data [of b' h] assms(2,4)
  by (cases "bk_Read bk b' (BlobStorageKey h)") auto

end

section \<open>The filesystem provides it\<close>

definition fs_healthy :: "fs \<Rightarrow> bool" where
  "fs_healthy fs \<longleftrightarrow> (\<forall>n \<ge> fs_tick fs. \<not> fs_fail fs n)"

definition fs_content :: "fs \<Rightarrow> hash \<Rightarrow> bytes option" where
  "fs_content fs h = map_of (fs_files fs) (blobPath fs h)"

lemma keeps_healthy: "keeps ps a b \<Longrightarrow> fs_healthy a \<Longrightarrow> fs_healthy b"
  by (auto simp: keeps_def fs_healthy_def)

lemma healthy_now: "fs_healthy fs \<Longrightarrow> \<not> fs_fail fs (fs_tick fs)"
  by (simp add: fs_healthy_def)

lemma filePath_blob: "is_hash h \<Longrightarrow> filePath (fs_root fs) (blobPath fs h)"
  using hash_String_no_sep(1) [of h]
    plain_blob [of h]
  by (auto simp: filePath_def blobPath_def BlobKeyPrefix_def dest: in_set_takeD)

lemma tmp_not_blob: "dir @ [freshName fl] \<noteq> blobPath fs h"
proof
  assume "dir @ [freshName fl] = blobPath fs h"
  then have "last (dir @ [freshName fl]) = last (blobPath fs h)" by simp
  then have "freshName fl = hash_String h" by (simp add: blobPath_def)
  moreover have "CHR ''.'' \<in> set (freshName fl)" by (simp add: freshName_def)
  ultimately show False using hash_String_no_sep(3) [of h] by simp
qed

lemma keeps_blobPath: "keeps ps a b \<Longrightarrow> blobPath b h = blobPath a h"
  by (simp add: keeps_def blobPath_def)

lemma openTemp_keeps:
  assumes "fs_inv fs" and path: "filePath (fs_root fs) path" and "openTemp fs path = (t, fs')"
  shows "(fs_healthy fs \<longrightarrow> t \<noteq> None) \<and>
    (case t of None \<Rightarrow> keeps {} fs fs'
     | Some tmp \<Rightarrow> (\<exists>fl. tmp = butlast path @ [freshName fl]) \<and> keeps {tmp} fs fs'
        \<and> map_of (fs_files fs) tmp = None \<and> map_of (fs_files fs') tmp = Some [])"
proof -
  have ne: "path \<noteq> []" using path by (auto simp: filePath_def)
  have len: "length (butlast path) = length (fs_root fs) + 2" using path by (simp add: filePath_def)
  obtain ok fs1 where m: "mkdirAll fs (butlast path) = (ok, fs1)" by (cases "mkdirAll fs (butlast path)")
  note mk = mkdirAll_keeps [OF assms(1) len m]
  show ?thesis
  proof (cases ok)
    case True
    obtain t2 fs2 where c: "createTemp fs1 (butlast path) = (t2, fs2)"
      by (cases "createTemp fs1 (butlast path)")
    have inv1: "fs_inv fs1" and root: "fs_root fs1 = fs_root fs" using mk by (auto simp: keeps_def)
    have "filePath (fs_root fs1) (butlast path @ [last path])" using path ne root by simp
    note ct = createTemp_keeps [OF inv1 this c]
    have "t = t2" "fs' = fs2" using assms(3) m c True by (simp_all add: openTemp_def)
    moreover have "fs_healthy fs \<Longrightarrow> t2 \<noteq> None"
      using ct mk keeps_healthy healthy_now by blast
    ultimately show ?thesis
      using ct mk keeps_trans [of "{}" fs fs1] by (auto split: option.splits)
  next
    case False
    then show ?thesis using mk assms(3) m healthy_now [of fs] by (auto simp: openTemp_def)
  qed
qed

lemma commitTemp_keeps:
  assumes "fs_inv fs" and src: "map_of (fs_files fs) tmp = Some d" and ne: "tmp \<noteq> path"
    and path: "filePath (fs_root fs) path" and c: "commitTemp fs tmp path = (res, fs')"
  shows "(fs_healthy fs \<longrightarrow> res = Inr ()) \<and>
    (case res of Inl _ \<Rightarrow> keeps {tmp} fs fs'
     | Inr _ \<Rightarrow> keeps {tmp, path} fs fs' \<and> map_of (fs_files fs') path = Some d
         \<and> map_of (fs_files fs') tmp = None)"
proof -
  obtain ok1 fs1 where s1: "fs_sys fs = (ok1, fs1)" by (cases "fs_sys fs")
  note k1 = fs_sys_keeps [OF assms(1) s1]
  show ?thesis
  proof (cases ok1)
    case False
    then have "res = Inl IOFailed" "fs' = discardTemp fs1 tmp" using c s1 by (simp_all add: commitTemp_def)
    then show ?thesis
      using k1 False healthy_now [of fs] keeps_trans [of "{}" fs fs1 "{tmp}"] discardTemp_keeps [of fs1 tmp]
      by (auto dest: keeps_inv)
  next
    case ok1: True
    obtain ok2 fs2 where s2: "fs_sys fs1 = (ok2, fs2)" by (cases "fs_sys fs1")
    have inv1: "fs_inv fs1" using k1 by (auto dest: keeps_inv)
    note k2 = fs_sys_keeps [OF inv1 s2]
    have k12: "keeps {} fs fs2" using k1 k2 keeps_trans [of "{}" fs fs1 "{}" fs2] by simp
    show ?thesis
    proof (cases ok2)
      case False
      then have "res = Inl IOFailed" "fs' = discardTemp fs2 tmp" using c s1 ok1 s2 by (simp_all add: commitTemp_def)
      moreover have "\<not> fs_healthy fs" using False k1 k2 keeps_healthy healthy_now by blast
      ultimately show ?thesis
        using k12 keeps_trans [of "{}" fs fs2 "{tmp}"] discardTemp_keeps [of fs2 tmp] by (auto dest: keeps_inv)
    next
      case ok2: True
      obtain ok3 fs3 where r: "frename fs2 tmp path = (ok3, fs3)" by (cases "frename fs2 tmp path")
      have pre: "fs_inv fs2" "map_of (fs_files fs2) tmp = Some d" "filePath (fs_root fs2) path"
        using k12 src path k1 k2 by (auto simp: keeps_def)
      note k3 = frename_keeps [OF pre(1,2) ne pre(3) r]
      show ?thesis
      proof (cases ok3)
        case True
        then have "res = Inr ()" "fs' = fs3" using c s1 ok1 s2 ok2 r by (simp_all add: commitTemp_def)
        then show ?thesis using True k3 keeps_trans [OF k12] by auto
      next
        case False
        then have "res = Inl IOFailed" "fs' = discardTemp fs3 tmp"
          using c s1 ok1 s2 ok2 r by (simp_all add: commitTemp_def)
        moreover have "\<not> fs_healthy fs" using False k3 k12 keeps_healthy healthy_now by blast
        moreover have "keeps {} fs fs3" using False k3 keeps_trans [OF k12, of "{}"] by simp
        ultimately show ?thesis
          using keeps_trans [of "{}" fs fs3 "{tmp}"] discardTemp_keeps [of fs3 tmp] by (auto dest: keeps_inv)
      qed
    qed
  qed
qed

lemma keeps_content:
  assumes "keeps {dir @ [freshName fl]} a b"
  shows "fs_content b g = fs_content a g"
  using assms tmp_not_blob [of dir fl a g] keeps_blobPath [OF assms]
  by (auto simp: fs_content_def keeps_def)

lemma keeps_content0: "keeps {} a b \<Longrightarrow> fs_content b g = fs_content a g"
  by (simp add: fs_content_def blobPath_def keeps_def)

text \<open>Writing data \<open>d\<close> through a temporary file, the shape shared by \<open>Write\<close> and \<open>WriteFramed\<close>:
  \<open>good\<close> says whether producing the data succeeds.\<close>

lemma atomic_write:
  assumes inv: "fs_inv fs" and h: "is_hash h" and o: "openTemp fs (blobPath fs h) = (Some tmp, fs1)"
    and a: "fappend fs1 tmp d = (ok, fs2)"
    and w: "(res, fs') = (if \<not> ok \<or> \<not> good then (Inl e, discardTemp fs2 tmp)
                          else commitTemp fs2 tmp (blobPath fs h))"
  shows "fs_inv fs' \<and> (fs_healthy fs \<longrightarrow> fs_healthy fs' \<and> (\<not> good \<or> res = Inr ()))
    \<and> (case res of
         Inl _ \<Rightarrow> (\<forall>g. fs_content fs' g = fs_content fs g)
       | Inr _ \<Rightarrow> good \<and> (\<forall>g. fs_content fs' g = (if g = h then Some d else fs_content fs g)))"
proof -
  note op = openTemp_keeps [OF inv filePath_blob [OF h] o]
  obtain dir fl where tmp: "tmp = dir @ [freshName fl]" using op by auto
  have k1: "keeps {tmp} fs fs1" and t1: "map_of (fs_files fs1) tmp = Some []" using op by auto
  have inv1: "fs_inv fs1" using k1 by (rule keeps_inv)
  note ap = fappend_keeps [OF inv1 a]
  have k2: "keeps {tmp} fs fs2" using keeps_trans [OF k1, of "{tmp}" fs2] ap by simp
  have inv2: "fs_inv fs2" using k2 by (rule keeps_inv)
  show ?thesis
  proof (cases "\<not> ok \<or> \<not> good")
    case True
    then have r: "res = Inl e" "fs' = discardTemp fs2 tmp" using w by auto
    have k3: "keeps {tmp} fs fs'"
      using keeps_trans [OF k2 discardTemp_keeps [OF inv2, of tmp]] by (simp add: r)
    have "fs_healthy fs \<Longrightarrow> ok"
      using ap k1 keeps_healthy healthy_now by blast
    then show ?thesis
      using True k3 keeps_content [OF k3 [unfolded tmp]] keeps_healthy [OF k3] keeps_inv [OF k3] r by auto
  next
    case False
    then have c: "commitTemp fs2 tmp (blobPath fs h) = (res, fs')" using w by simp
    have t2: "map_of (fs_files fs2) tmp = Some d" using ap t1 False by simp
    have ne: "tmp \<noteq> blobPath fs h" unfolding tmp by (rule tmp_not_blob)
    have "filePath (fs_root fs2) (blobPath fs h)"
      using filePath_blob [OF h, of fs] k2 by (simp add: keeps_def)
    note cm = commitTemp_keeps [OF inv2 t2 ne this c]
    show ?thesis
    proof (cases res)
      case (Inl x)
      then have k3: "keeps {tmp} fs fs'" using cm keeps_trans [OF k2, of "{tmp}" fs'] by simp
      moreover have "fs_healthy fs \<Longrightarrow> res = Inr ()" using cm k2 keeps_healthy by blast
      ultimately show ?thesis
        using Inl keeps_content [OF k3 [unfolded tmp]] keeps_healthy [OF k3] keeps_inv [OF k3] by auto
    next
      case (Inr u)
      then have k3: "keeps {tmp, blobPath fs h} fs fs'" and new: "map_of (fs_files fs') (blobPath fs h) = Some d"
        using cm keeps_trans [OF k2, of "{tmp, blobPath fs h}" fs'] by (auto simp: insert_commute)
      have "fs_content fs' g = (if g = h then Some d else fs_content fs g)" for g
        using k3 new tmp_not_blob [of dir fl fs g] blobPath_inject [of fs g h] keeps_blobPath [OF k3]
        unfolding fs_content_def keeps_def tmp by auto
      then show ?thesis
        using Inr False keeps_healthy [OF k3] keeps_inv [OF k3] by auto
    qed
  qed
qed

lemma fs_Write_spec:
  assumes inv: "fs_inv fs" and h: "is_hash h" and w: "fs_Write fs (BlobStorageKey h) r = (res, fs')"
  shows "fs_inv fs' \<and> (fs_healthy fs \<longrightarrow> fs_healthy fs' \<and> (src_fails r \<or> res = Inr ()))
    \<and> (case res of
         Inl _ \<Rightarrow> (\<forall>g. fs_content fs' g = fs_content fs g)
       | Inr _ \<Rightarrow> \<not> src_fails r \<and> (\<forall>g. fs_content fs' g =
           (if g = h then Some (concat (chunks r)) else fs_content fs g)))"
proof -
  note kp = keyToPath_blob [OF inv h]
  obtain t fs1 where o: "openTemp fs (blobPath fs h) = (t, fs1)" by (cases "openTemp fs (blobPath fs h)")
  note op = openTemp_keeps [OF inv filePath_blob [OF h] o]
  show ?thesis
  proof (cases t)
    case None
    then have k: "keeps {} fs fs1" "\<not> fs_healthy fs" using op by auto
    have "res = Inl IOFailed" "fs' = fs1" using w None o by (simp_all add: fs_Write_def kp)
    then show ?thesis using k keeps_inv [OF k(1)] by (simp add: keeps_content0 [OF k(1)])
  next
    case (Some tmp)
    obtain ok fs2 where a: "fappend fs1 tmp (concat (chunks r)) = (ok, fs2)"
      by (cases "fappend fs1 tmp (concat (chunks r))")
    have "(res, fs') = (if \<not> ok \<or> \<not> \<not> src_fails r then (Inl IOFailed, discardTemp fs2 tmp)
        else commitTemp fs2 tmp (blobPath fs h))"
      using w o Some a by (simp add: fs_Write_def kp)
    from atomic_write [OF inv h o [unfolded Some] a this] show ?thesis by simp
  qed
qed

lemma fs_WriteFramed_spec:
  assumes inv: "fs_inv fs" and h: "is_hash h"
    and w: "fs_WriteFramed c fs (BlobStorageKey h) header body = (res, fs')"
  shows "fs_inv fs' \<and> (fs_healthy fs \<and> fst (WriteFramed c header body) = Inr () \<longrightarrow> res = Inr ())
    \<and> (case res of
      Inl _ \<Rightarrow> (\<forall>g. fs_content fs' g = fs_content fs g)
    | Inr _ \<Rightarrow> fst (WriteFramed c header body) = Inr () \<and> (\<forall>g. fs_content fs' g =
        (if g = h then Some (snd (WriteFramed c header body)) else fs_content fs g)))"
proof -
  note kp = keyToPath_blob [OF inv h]
  obtain t fs1 where o: "openTemp fs (blobPath fs h) = (t, fs1)" by (cases "openTemp fs (blobPath fs h)")
  note op = openTemp_keeps [OF inv filePath_blob [OF h] o]
  obtain r out where wf: "WriteFramed c header body = (r, out)" by (cases "WriteFramed c header body")
  show ?thesis
  proof (cases t)
    case None
    then have k: "keeps {} fs fs1" "\<not> fs_healthy fs" using op by auto
    have "res = Inl IOFailed" "fs' = fs1" using w None o by (simp_all add: fs_WriteFramed_def kp)
    then show ?thesis using k keeps_inv [OF k(1)] by (simp add: keeps_content0 [OF k(1)])
  next
    case (Some tmp)
    obtain ok fs2 where a: "fappend fs1 tmp out = (ok, fs2)" by (cases "fappend fs1 tmp out")
    have "(res, fs') = (if \<not> ok \<or> \<not> (r = Inr ()) then (Inl (case r of Inl e \<Rightarrow> e | Inr _ \<Rightarrow> IOFailed), discardTemp fs2 tmp)
        else commitTemp fs2 tmp (blobPath fs h))"
      using w o Some a wf by (cases r) (auto simp: fs_WriteFramed_def kp)
    from atomic_write [OF inv h o [unfolded Some] a this] show ?thesis
      by (auto simp: wf split: sum.splits)
  qed
qed

lemma blob_not_dir: "fs_inv fs \<Longrightarrow> blobPath fs h \<notin> set (fs_dirs fs)"
  by (auto simp: fs_inv_def)

lemma joinPath_SplitOn: "joinPath (SplitOn s (CHR ''/'')) = s"
proof (induction s)
  case (Cons x s)
  obtain p ps where "SplitOn s (CHR ''/'') = p # ps" by (meson SplitOn_not_Nil neq_Nil_conv)
  then show ?case using Cons by (cases ps) auto
qed simp

text \<open>The keys under which a listing shows the files.\<close>

definition listedKey :: "string \<Rightarrow> bool" where
  "listedKey key \<longleftrightarrow> list_all plain (SplitOn key (CHR ''/''))"

lemma keyToPath_listed:
  assumes "fs_inv fs" "listedKey key"
  shows "keyToPath fs key = fs_root fs @ SplitOn key (CHR ''/'')"
  using assms by (simp add: keyToPath_def listedKey_def cleanPath_append cleanPath_plain fs_inv_def)

lemma listed_path_inject:
  assumes "fs_inv fs" "listedKey key" "keyToPath fs key = blobPath fs h"
  shows "key = BlobStorageKey h"
proof -
  have "SplitOn key (CHR ''/'') = SplitOn (BlobStorageKey h) (CHR ''/'')"
    using assms keyToPath_listed [OF assms(1,2)] by (simp add: blobPath_def BlobStorageKey_split)
  then show ?thesis by (metis joinPath_SplitOn)
qed

lemma file_listed:
  assumes inv: "fs_inv fs" and p: "p \<in> fst ` set (fs_files fs)"
  shows "listedKey (joinPath (drop (length (fs_root fs)) p))"
    "joinPath (drop (length (fs_root fs)) p) = BlobStorageKey h \<Longrightarrow> p = blobPath fs h"
proof -
  let ?n = "length (fs_root fs)"
  have fp: "length p = ?n + 3" "take ?n p = fs_root fs" "\<And>c. c \<in> set (drop ?n p) \<Longrightarrow> CHR ''/'' \<notin> set c \<and> plain c"
    using inv p by (auto simp: fs_inv_def filePath_def)
  have "length (drop ?n p) = 3" using fp(1) by simp
  then obtain a b c where abc: "drop ?n p = [a, b, c]"
    by (cases "drop ?n p" rule: remdups_adj.cases) (auto simp: numeral_3_eq_3 length_Suc_conv)
  then have sep: "CHR ''/'' \<notin> set a" "CHR ''/'' \<notin> set b" "CHR ''/'' \<notin> set c" "plain a" "plain b" "plain c"
    using fp(3) by auto
  have split: "SplitOn (joinPath (drop ?n p)) (CHR ''/'') = [a, b, c]" using sep(1-3) by (simp add: abc)
  then show "listedKey (joinPath (drop ?n p))" using sep(4-6) by (simp add: listedKey_def)
  assume "joinPath (drop ?n p) = BlobStorageKey h"
  then have "drop ?n p = [BlobKeyPrefix, take 2 (hash_String h), hash_String h]"
    using split abc BlobStorageKey_split [of h] by metis
  then show "p = blobPath fs h" using fp(2) by (metis append_take_drop_id blobPath_def)
qed

lemma fs_List_spec:
  assumes inv: "fs_inv fs" and pre: "pre \<in> {BlobKeyPrefix, BlobKeyPrefix @ ''/''}"
    and l: "fs_List fs pre = Inr keys" and k: "key \<in> set keys"
  shows "listedKey key \<and> (key = BlobStorageKey h \<longrightarrow> fs_content fs h \<noteq> None)"
proof -
  have "keyToPath fs pre = fs_root fs @ [BlobKeyPrefix]"
    using inv pre by (auto simp: keyToPath_def cleanPath_append BlobKeyPrefix_def fs_inv_def)
  then have "\<not> isFile fs (keyToPath fs pre)"
    using fs_inv_file [OF inv, of "keyToPath fs pre"] by (force simp: isFile_def filePath_def)
  then have "\<exists>ps. set ps \<subseteq> set (map fst (fs_files fs)) \<and> keys = map (\<lambda>p. joinPath (drop (length (fs_root fs)) p)) ps"
    using l by (auto simp: fs_List_def Let_def split: if_splits
        intro!: exI [of _ "filter _ (sort (filter _ (map fst (fs_files fs))))"])
  then obtain p where p: "p \<in> fst ` set (fs_files fs)" "key = joinPath (drop (length (fs_root fs)) p)"
    using k unfolding set_map by force
  then show ?thesis
    using file_listed [OF inv p(1)] by (auto simp: fs_content_def map_of_eq_None_iff)
qed

lemma fs_Delete_keeps:
  assumes inv: "fs_inv fs" and d: "fs_Delete fs key = (res, fs')"
  shows "keeps {keyToPath fs key} fs fs'"
proof (cases "isFile fs (keyToPath fs key)")
  case True
  then show ?thesis
    using d fremove_keeps [OF inv, of "keyToPath fs key"]
    by (cases "fremove fs (keyToPath fs key)") (simp add: fs_Delete_def)
next
  case False
  have rm: "fs_inv (fs\<lparr>fs_dirs := removeAll p (fs_dirs fs)\<rparr>)" for p using inv by (auto simp: fs_inv_def)
  have "fs' = fs \<or> fs' = fs\<lparr>fs_dirs := removeAll (keyToPath fs key) (fs_dirs fs)\<rparr>"
    using d False by (auto simp: fs_Delete_def Let_def split: if_splits)
  then show ?thesis using inv rm [of "keyToPath fs key"] by (elim disjE) (simp_all add: keeps_def)
qed

interpretation filesystem: backend_contract "filesystem c" fs_inv fs_healthy fs_content listedKey for c
proof (unfold_locales, goal_cases)
  case (1 b h r res b')
  then show ?case using fs_Write_spec [of b h r res b'] by (auto simp: filesystem_def split: sum.splits)
next
  case (2 b h rres)
  then show ?case
    using blob_not_dir [OF 2(1), of h] healthy_now [of b]
    by (auto simp: filesystem_def fs_Read_def keyToPath_blob fs_content_def split: option.splits)
next
  case (3 b h res b')
  obtain ok fs1 where f: "fremove b (blobPath b h) = (ok, fs1)" by (cases "fremove b (blobPath b h)")
  note k = fremove_keeps [OF 3(1) f]
  show ?case
  proof (cases "isFile b (blobPath b h)")
    case True
    then have r: "res = (if ok then Inr () else Inl IOFailed)" "b' = fs1"
      using 3 f by (simp_all add: filesystem_def fs_Delete_def keyToPath_blob)
    have k1: "keeps {blobPath b h} b fs1" using k by simp
    have "fs_content fs1 g = (if g = h then None else fs_content b g)" if ok
      using k that keeps_blobPath [OF k1] blobPath_inject [of b g h] by (auto simp: fs_content_def keeps_def)
    moreover have "fs_content fs1 g = fs_content b g" if "\<not> ok" for g
      using k that by (simp add: keeps_content0)
    ultimately show ?thesis
      using k r healthy_now [of b] keeps_healthy [OF k1] keeps_inv [OF k1] keeps_blobPath [OF k1]
      by (auto simp: fs_content_def keeps_def blobPath_inject)
  next
    case False
    then have "res = Inr ()" "b' = b"
      using 3 blob_not_dir [OF 3(1), of h] by (simp_all add: filesystem_def fs_Delete_def keyToPath_blob)
    then show ?thesis using False 3 by (auto simp: isFile_def fs_content_def)
  qed
next
  case (4 b h xres)
  then show ?case
    using blob_not_dir [OF 4(1), of h] healthy_now [of b]
    by (auto simp: filesystem_def fs_Exists_def keyToPath_blob fs_content_def isFile_def split: if_splits)
next
  case (5 b h sz n)
  then show ?case
    by (auto simp: filesystem_def fs_Size_def keyToPath_blob fs_content_def split: option.splits if_splits)
next
  case (6 b h sz d)
  then show ?case
    using healthy_now [of b] by (auto simp: filesystem_def fs_Size_def keyToPath_blob fs_content_def)
next
  case (7 b pre keys key)
  then show ?case using fs_List_spec [of b pre keys key] by (simp add: filesystem_def)
next
  case (8 b key res b')
  then have k: "keeps {keyToPath b key} b b'" using fs_Delete_keeps [of b key res b'] by (simp add: filesystem_def)
  have "fs_content b' g = fs_content b g" if "key \<noteq> BlobStorageKey g" for g
  proof -
    have "blobPath b g \<noteq> keyToPath b key" using that listed_path_inject [OF 8(1,2), of g] by metis
    then show ?thesis using k keeps_blobPath [OF k, of g] by (simp add: keeps_def fs_content_def)
  qed
  then show ?case using keeps_inv [OF k] keeps_healthy [OF k] by blast
qed

end
