(* ===== verification/StorageProperties.thy ===== *)
theory StorageProperties
  imports Queues Backend MetaOps Samples
begin

text \<open>
  The properties of the two stores below the eviction policy: the queues in the metadata
  database and the files of the storage backend.
\<close>

section \<open>The queues\<close>

text \<open>C34: each pair of buckets is a queue without repetitions: pushing moves a hash to the head and
  reports whether it was there, popping takes the oldest, removing deletes; and the ghost set
  is such a queue that trimming cuts to its newest entries. Every operation succeeds while
  sequence numbers are left, and keeps the buckets inverse to each other.\<close>

theorem queues_refine_lists:
  assumes "queues_inv q" "queues_room q (Suc n)" "valid_key h"
  shows "(\<exists>q'. PushHead q x h = (Inr (h \<in> set (queueList q x)), q') \<and> queues_inv q' \<and> queues_room q' n
        \<and> queueList q' = (queueList q)(x := filter (\<lambda>y. y \<noteq> h) (queueList q x) @ [h]))
    \<and> (case queueList q x of
         [] \<Rightarrow> PopTail q x = (Inl ErrQueueEmpty, q)
       | g # gs \<Rightarrow> (\<exists>q'. PopTail q x = (Inr g, q') \<and> queues_inv q' \<and> queueList q' = (queueList q)(x := gs)))
    \<and> (\<exists>q'. Remove q x h = (Inr (h \<in> set (queueList q x)), q') \<and> queues_inv q'
        \<and> queueList q' = (queueList q)(x := filter (\<lambda>y. y \<noteq> h) (queueList q x)))
    \<and> (\<exists>q'. GhostAdd q h = (Inr (), q') \<and> queues_inv q' \<and> queueList q' = queueList q
        \<and> ghostList q' = filter (\<lambda>y. y \<noteq> h) (ghostList q) @ [h])
    \<and> (\<exists>q'. GhostTrimToMaxSize q m = (Inr (), q') \<and> queues_inv q' \<and> queueList q' = queueList q
        \<and> ghostList q' = drop (length (ghostList q) - nat m) (ghostList q))
    \<and> distinct (queueList q x) \<and> distinct (ghostList q)"
proof (intro conjI)
  note bolt = bolt_queues.push bolt_queues.pop bolt_queues.remove bolt_queues.ghost_add bolt_queues.ghost_trim
  show "\<exists>q'. PushHead q x h = (Inr (h \<in> set (queueList q x)), q') \<and> queues_inv q' \<and> queues_room q' n
        \<and> queueList q' = (queueList q)(x := filter (\<lambda>y. y \<noteq> h) (queueList q x) @ [h])"
    using bolt_queues.push [OF assms, of x] by (auto simp: boltQueues_def)
  show "case queueList q x of
         [] \<Rightarrow> PopTail q x = (Inl ErrQueueEmpty, q)
       | g # gs \<Rightarrow> (\<exists>q'. PopTail q x = (Inr g, q') \<and> queues_inv q' \<and> queueList q' = (queueList q)(x := gs))"
    using bolt_queues.pop_empty [OF assms(1), of x] bolt_queues.pop [OF assms(1,2), of x]
    by (auto simp: boltQueues_def split: list.split)
  show "\<exists>q'. Remove q x h = (Inr (h \<in> set (queueList q x)), q') \<and> queues_inv q'
        \<and> queueList q' = (queueList q)(x := filter (\<lambda>y. y \<noteq> h) (queueList q x))"
    using bolt_queues.remove [OF assms(1,2), of x h] by (auto simp: boltQueues_def)
  show "\<exists>q'. GhostAdd q h = (Inr (), q') \<and> queues_inv q' \<and> queueList q' = queueList q
        \<and> ghostList q' = filter (\<lambda>y. y \<noteq> h) (ghostList q) @ [h]"
    using bolt_queues.ghost_add [OF assms] by (auto simp: boltQueues_def)
  show "\<exists>q'. GhostTrimToMaxSize q m = (Inr (), q') \<and> queues_inv q' \<and> queueList q' = queueList q
        \<and> ghostList q' = drop (length (ghostList q) - nat m) (ghostList q)"
    using bolt_queues.ghost_trim [OF assms(1,2), of m] by (auto simp: boltQueues_def)
qed (use assms bolt_queues.lst_distinct bolt_queues.gh_distinct in auto)

lemma room_create: "queues_room createQueues 1"
  by (simp add: queues_room_def createQueues_def empty_bucket_def)

theorem queues_refine_lists_witness:
  "\<exists>q'. PushHead createQueues QueueSmall ref0 = (Inr False, q') \<and> queueList q' QueueSmall = [ref0]"
proof -
  have "queueList createQueues QueueSmall = []"
    by (simp add: queueList_def createQueues_def hashes_def empty_bucket_def)
  then show ?thesis
    using queues_refine_lists [OF queues_inv_create, of 0 ref0 QueueSmall 0] room_create by auto
qed

text \<open>The compaction of \<open>operations.go\<close> copies every bucket of the file, the queues' too.\<close>

definition CompactQueues :: "queues \<Rightarrow> queues \<Rightarrow> bolt_error + queues" where
  "CompactQueues src dest =
     rbind (compactBucket (q_small dest) (entries (q_small src)))
    (\<lambda>s. rbind (compactBucket (q_small_by_hash dest) (entries (q_small_by_hash src)))
    (\<lambda>sh. rbind (compactBucket (q_main dest) (entries (q_main src)))
    (\<lambda>m. rbind (compactBucket (q_main_by_hash dest) (entries (q_main_by_hash src)))
    (\<lambda>mh. rbind (compactBucket (q_ghost dest) (entries (q_ghost src)))
    (\<lambda>g. rbind (compactBucket (q_ghost_by_seq dest) (entries (q_ghost_by_seq src)))
    (\<lambda>gs. Inr \<lparr>q_small = s, q_small_by_hash = sh, q_main = m, q_main_by_hash = mh,
              q_ghost = g, q_ghost_by_seq = gs\<rparr>))))))"

lemma bset_bseq: "(bset k v b)\<lparr>bseq := n\<rparr> = bset k v (b\<lparr>bseq := n\<rparr>)" "bseq (bset k v b) = bseq b"
  by (simp_all add: bset_def)

text \<open>C36: a compacted file restarts the sequence numbers of the queues, so the first push after a
  compaction can overwrite the oldest entry: here the queue holds one blob, and after the push
  of another it has lost the first, which its reverse index still lists.\<close>

theorem compaction_loses_queue_entry:
  "\<exists>q1 q2 q3. PushHead createQueues QueueSmall ref0 = (Inr False, q1)
     \<and> CompactQueues q1 createQueues = Inr q2 \<and> ForEach q2 QueueSmall = [ref0]
     \<and> PushHead q2 QueueSmall ref1 = (Inr False, q3)
     \<and> ForEach q3 QueueSmall = [ref1] \<and> bget (q_small_by_hash q3) ref0 \<noteq> None"
proof -
  let ?k = "encodeSeq 1"
  define q1 where "q1 = createQueues\<lparr>q_small := bset ?k ref0 (empty_bucket\<lparr>bseq := 1\<rparr>),
    q_small_by_hash := bset ref0 ?k empty_bucket\<rparr>"
  define q2 where "q2 = createQueues\<lparr>q_small := bset ?k ref0 empty_bucket, q_small_by_hash := bset ref0 ?k empty_bucket\<rparr>"
  define q3 where "q3 = q2\<lparr>q_small := bset ?k ref1 (bset ?k ref0 (empty_bucket\<lparr>bseq := 1\<rparr>)),
    q_small_by_hash := bset ref1 ?k (q_small_by_hash q2)\<rparr>"
  have "PushHead createQueues QueueSmall ref0 = (Inr False, q1)"
    by (simp add: PushHead_def txPushHead_def q1_def createQueues_def next_seq_def qbolt_def qbatch_def Let_def)
  moreover have "CompactQueues q1 createQueues = Inr q2"
    by (simp add: CompactQueues_def q1_def q2_def createQueues_def bset_def)
  moreover have "PushHead q2 QueueSmall ref1 = (Inr False, q3)"
    by (simp add: PushHead_def txPushHead_def q3_def q2_def createQueues_def next_seq_def qbolt_def qbatch_def Let_def
        bset_bseq)
  moreover have "ForEach q2 QueueSmall = [ref0]" "ForEach q3 QueueSmall = [ref1]"
    by (simp_all add: ForEach_def q3_def q2_def bset_def)
  moreover have "bget (q_small_by_hash q3) ref0 \<noteq> None" by (simp add: q3_def q2_def)
  ultimately show ?thesis by blast
qed

section \<open>Framing\<close>

text \<open>What \<open>WriteFramed\<close> writes is recognised as framed and reads back as the same header and
  body, whatever chunks the body comes in, given that JSON decodes what it encoded.\<close>

theorem framing_roundtrip:
  assumes "header_codec_ok c" and "WriteFramed c header body = (Inr (), out)"
  shows "ReadFramed c out = Inr (header, concat (chunks body)) \<and> IsFramed out"
  using ReadFramed_WriteFramed [OF assms] IsFramed_WriteFramed [OF assms(2)] by blast

definition header0 :: blob_header where
  "header0 = \<lparr>bh_ContentType = ''text/plain'', bh_ContentLength = 5, bh_CachedAt = ''2024-01-01T00:00:00Z'',
     bh_UpstreamETag = [], bh_ContentHash = ref1\<rparr>"

definition codec0 :: header_codec where
  "codec0 = \<lparr>hc_enc = (\<lambda>h. if h = header0 then Some ''{}'' else None), hc_dec = (\<lambda>_. Some header0)\<rparr>"

definition src0 :: source where
  "src0 = \<lparr>chunks = [''he'', ''llo''], src_fails = False\<rparr>"

lemma codec0_ok [simp]: "header_codec_ok codec0"
  by (simp add: header_codec_ok_def codec0_def)

lemma frame0: "WriteFramed codec0 header0 src0 = (Inr (), MagicBytes @ be_bytes 4 2 @ ''{}'' @ ''hello'')"
  by (simp add: WriteFramed_def codec0_def src0_def MaxHeaderSize_def numeral_2_eq_2)

theorem framing_roundtrip_witness:
  "ReadFramed codec0 (MagicBytes @ be_bytes 4 2 @ ''{}'' @ ''hello'') = Inr (header0, ''hello'')"
  using framing_roundtrip [OF codec0_ok frame0] by (simp add: src0_def)

section \<open>The filesystem\<close>

text \<open>C35: a write replaces the content of its key as a whole or not at all: whichever of its system
  calls fails, and when the data cannot be produced, every blob keeps the content it had, and
  when it succeeds only its own key changes. Without failures it succeeds.\<close>

theorem write_atomic:
  assumes "fs_inv fs" "is_hash h" and "fs_Write fs (BlobStorageKey h) r = (res, fs')"
  shows "(case res of
      Inl _ \<Rightarrow> (\<forall>g. fs_content fs' g = fs_content fs g)
    | Inr _ \<Rightarrow> \<not> src_fails r
        \<and> (\<forall>g. fs_content fs' g = (if g = h then Some (concat (chunks r)) else fs_content fs g)))
    \<and> fs_inv fs' \<and> (fs_healthy fs \<and> \<not> src_fails r \<longrightarrow> res = Inr ())"
  using fs_Write_spec [OF assms] by (auto split: sum.splits)

definition fs0 :: fs where
  "fs0 = \<lparr>fs_root = [''data''], fs_files = [], fs_dirs = [[''data'']], fs_fail = (\<lambda>_. False), fs_tick = 0\<rparr>"

lemma fs0_ok [simp]: "fs_inv fs0" "fs_healthy fs0"
  by (simp_all add: fs0_def fs_inv_def fs_healthy_def)

theorem write_atomic_witness:
  "\<exists>fs'. fs_Write fs0 (BlobStorageKey hash1) src0 = (Inr (), fs') \<and> fs_content fs' hash1 = Some ''hello''"
proof -
  obtain res fs' where w: "fs_Write fs0 (BlobStorageKey hash1) src0 = (res, fs')"
    by (cases "fs_Write fs0 (BlobStorageKey hash1) src0")
  then show ?thesis
    using write_atomic [OF fs0_ok(1) is_hash_samples(2) w] by (auto simp: src0_def)
qed

text \<open>The framed write is atomic in the same way, leaves the framed bytes of its header and body,
  so that they read back as such, and succeeds when no call fails and the framing does.\<close>

theorem write_framed_atomic:
  assumes fs: "fs_inv fs" "is_hash h" and codec: "header_codec_ok c"
    and w: "fs_WriteFramed c fs (BlobStorageKey h) header body = (res, fs')"
  shows "(case res of
      Inl _ \<Rightarrow> (\<forall>g. fs_content fs' g = fs_content fs g)
    | Inr _ \<Rightarrow> (\<exists>d. fs_content fs' h = Some d \<and> ReadFramed c d = Inr (header, concat (chunks body)))
        \<and> (\<forall>g. g \<noteq> h \<longrightarrow> fs_content fs' g = fs_content fs g))
    \<and> (fs_healthy fs \<and> fst (WriteFramed c header body) = Inr () \<longrightarrow> res = Inr ())"
proof (cases res)
  case (Inl e)
  then show ?thesis using fs_WriteFramed_spec [OF fs w] by simp
next
  case (Inr u)
  have wf: "WriteFramed c header body = (Inr (), snd (WriteFramed c header body))"
    using fs_WriteFramed_spec [OF fs w] Inr by (auto simp: prod_eq_iff)
  show ?thesis
    using fs_WriteFramed_spec [OF fs w] Inr ReadFramed_WriteFramed [OF codec wf] by auto
qed

theorem write_framed_atomic_witness:
  "\<exists>fs' d. fs_WriteFramed codec0 fs0 (BlobStorageKey hash1) header0 src0 = (Inr (), fs')
     \<and> fs_content fs' hash1 = Some d \<and> ReadFramed codec0 d = Inr (header0, ''hello'')"
proof -
  obtain res fs' where w: "fs_WriteFramed codec0 fs0 (BlobStorageKey hash1) header0 src0 = (res, fs')"
    by (cases "fs_WriteFramed codec0 fs0 (BlobStorageKey hash1) header0 src0")
  show ?thesis
    using write_framed_atomic [OF fs0_ok(1) is_hash_samples(2) codec0_ok w] w frame0
    by (auto simp: src0_def)
qed

end
