(* ===== verification/BlobStore.thy ===== *)
theory BlobStore
  imports EnvelopeSpec
begin

text \<open>
  The part of the interface \<open>MetaDB\<close> (\<open>store/metadb/db.go\<close>) that the eviction policy, the
  content store and the garbage collector use to track blobs, its contract as a map from
  references to entries, and the bbolt database as its provider.
\<close>

record 'd blob_ops =
  bo_GetBlob :: "'d \<Rightarrow> string \<Rightarrow> mdb_error + blob_entry"
  bo_PutBlob :: "'d \<Rightarrow> blob_entry \<Rightarrow> (mdb_error + unit) \<times> 'd"
  bo_DeleteBlob :: "'d \<Rightarrow> string \<Rightarrow> (mdb_error + unit) \<times> 'd"
  bo_TouchBlob :: "time \<Rightarrow> 'd \<Rightarrow> string \<Rightarrow> (mdb_error + int) \<times> 'd"
  bo_GetUnreferenced :: "'d \<Rightarrow> time \<Rightarrow> int \<Rightarrow> mdb_error + string list"
  bo_GetExpiredMeta :: "'d \<Rightarrow> time \<Rightarrow> int \<Rightarrow> mdb_error + expiry_entry list"
  bo_DeleteExpiredMeta :: "'d \<Rightarrow> expiry_entry \<Rightarrow> (mdb_error + bool) \<times> 'd"

definition boltBlobs :: "db blob_ops" where
  "boltBlobs =
     \<lparr>bo_GetBlob = GetBlob, bo_PutBlob = PutBlob, bo_DeleteBlob = DeleteBlob, bo_TouchBlob = TouchBlob,
      bo_GetUnreferenced = (\<lambda>d before limit. Inr (GetUnreferencedBlobs d before limit)),
      bo_GetExpiredMeta = (\<lambda>d before limit. Inr (GetExpiredMeta d before limit)),
      bo_DeleteExpiredMeta = DeleteExpiredMetaWithRefs\<rparr>"

locale blobs_contract =
  fixes bo :: "'d blob_ops" and dinv :: "'d \<Rightarrow> bool" and blobs :: "'d \<Rightarrow> string \<Rightarrow> blob_entry option"
  assumes get_blob: "dinv d \<Longrightarrow>
        bo_GetBlob bo d h = (case blobs d h of None \<Rightarrow> Inl ErrNotFound | Some e \<Rightarrow> Inr e)"
    and put_blob: "dinv d \<Longrightarrow> valid_key (be_Hash e) \<Longrightarrow>
        \<exists>d'. bo_PutBlob bo d e = (Inr (), d') \<and> dinv d' \<and> blobs d' = (blobs d)(be_Hash e \<mapsto> e)"
    and del_blob: "dinv d \<Longrightarrow>
        \<exists>d'. bo_DeleteBlob bo d h = (Inr (), d') \<and> dinv d' \<and> blobs d' = (blobs d)(h := None)"
    and touch_blob: "dinv d \<Longrightarrow> bo_TouchBlob bo now d h =
          (case blobs d h of
             None \<Rightarrow> (Inl ErrNotFound, d)
           | Some e \<Rightarrow> (Inr (be_AccessCount (touch now e)), snd (bo_TouchBlob bo now d h)))
        \<and> dinv (snd (bo_TouchBlob bo now d h))
        \<and> blobs (snd (bo_TouchBlob bo now d h)) = (blobs d)(h := map_option (touch now) (blobs d h))"

definition blobMap :: "db \<Rightarrow> string \<Rightarrow> blob_entry option" where
  "blobMap d h = (case bget (d_blobs d) h of Some (Good e) \<Rightarrow> Some e | _ \<Rightarrow> None)"

definition blobs_inv :: "db \<Rightarrow> bool" where
  "blobs_inv d \<longleftrightarrow> blobs_good (d_blobs d)"

lemma blobs_good_bset: "blobs_good b \<Longrightarrow> valid_key h \<Longrightarrow> blobs_good (bset h (Good e) b)"
  by (auto simp: blobs_good_def)

lemma blobs_good_bdelete: "blobs_good b \<Longrightarrow> blobs_good (bdelete h b)"
  by (auto simp: blobs_good_def)

interpretation bolt_blobs: blobs_contract boltBlobs blobs_inv blobMap
proof
  fix d h assume "blobs_inv d"
  then show "bo_GetBlob boltBlobs d h = (case blobMap d h of None \<Rightarrow> Inl ErrNotFound | Some e \<Rightarrow> Inr e)"
    by (auto simp: boltBlobs_def GetBlob_def blobMap_def blobs_inv_def blobs_good_def
        split: option.splits cell.splits)
next
  fix d and e :: blob_entry assume "blobs_inv d" "valid_key (be_Hash e)"
  then show "\<exists>d'. bo_PutBlob boltBlobs d e = (Inr (), d') \<and> blobs_inv d'
      \<and> blobMap d' = (blobMap d)(be_Hash e \<mapsto> e)"
    by (auto simp: boltBlobs_def PutBlob_def bolt_def blobs_inv_def blobMap_def fun_eq_iff blobs_good_bset)
next
  fix d h assume "blobs_inv d"
  then show "\<exists>d'. bo_DeleteBlob boltBlobs d h = (Inr (), d') \<and> blobs_inv d' \<and> blobMap d' = (blobMap d)(h := None)"
    by (auto simp: boltBlobs_def DeleteBlob_def blobs_inv_def blobMap_def fun_eq_iff blobs_good_bdelete)
next
  fix d now h assume inv: "blobs_inv d"
  show "bo_TouchBlob boltBlobs now d h =
          (case blobMap d h of
             None \<Rightarrow> (Inl ErrNotFound, d)
           | Some e \<Rightarrow> (Inr (be_AccessCount (touch now e)), snd (bo_TouchBlob boltBlobs now d h)))
        \<and> blobs_inv (snd (bo_TouchBlob boltBlobs now d h))
        \<and> blobMap (snd (bo_TouchBlob boltBlobs now d h)) = (blobMap d)(h := map_option (touch now) (blobMap d h))"
  proof (cases "bget (d_blobs d) h")
    case None
    then show ?thesis using inv by (auto simp: boltBlobs_def TouchBlob_def modifyBlob_def blobMap_def fun_eq_iff)
  next
    case (Some c)
    then obtain e where c: "c = Good e" using inv by (cases c) (auto simp: blobs_inv_def blobs_good_def)
    have "valid_key h" using Some inv bget_valid_key by (auto simp: blobs_inv_def blobs_good_def)
    then show ?thesis
      using inv Some c
      by (auto simp: boltBlobs_def TouchBlob_def modifyBlob_def blobMap_def bolt_def blobs_inv_def
          blobs_good_bset fun_eq_iff)
  qed
qed

end
