(* ===== verification/S3FIFO.thy ===== *)
theory S3FIFO
  imports Queues BlobStore Backend
begin

text \<open>
  The eviction policy (\<open>store/s3fifo/s3fifo.go\<close>): the manager with its two queues, ghost set and
  in-memory counters over the interfaces of the queues, the metadata database and the storage
  backend. A handler is a function on the manager's state; the steps of an eviction that the
  code separates by releasing its lock are separate definitions, so that an interleaving is a
  sequence of them. Metrics and logs are left out; \<open>evictCh\<close> is a channel of capacity one.
\<close>

section \<open>State\<close>

record s3_config =
  MaxSize :: int
  SmallQueuePercent :: int
  GhostMaxEntries :: int
  CheckInterval :: int

definition defaultSmallQueuePercent :: int where
  "defaultSmallQueuePercent = 10"

definition defaultCheckInterval :: int where
  "defaultCheckInterval = 30 * 1000000000"

definition ghostFloor :: int where
  "ghostFloor = 128"

text \<open>The three interface values a manager holds, and Go's Unicode tables.\<close>

record ('q, 'd, 'b) s3_env =
  v_queues :: "'q queue_ops"
  v_metaDB :: "'d blob_ops"
  v_backend :: "'b backend_ops"
  v_unicode :: "string \<Rightarrow> string"

record ('q, 'd, 'b) s3 =
  m_config :: s3_config
  m_queues :: 'q
  m_metaDB :: 'd
  m_backend :: 'b
  m_smallBytes :: int
  m_mainBytes :: int
  m_smallLen :: int
  m_mainLen :: int
  m_ghostLen :: int
  m_evictCh :: bool

datatype s3_error =
    MaxSizeNotPositive
  | SmallPercentTooLarge
  | QueueErr queue_error
  | GetBlobErr mdb_error
  | PutBlobErr mdb_error
  | DeleteBlobErr mdb_error
  | ParseHashErr ref_error
  | BackendDeleteErr backend_error
  | ContextDone

record pending_eviction =
  pe_queue :: queue
  pe_hash :: string
  pe_size :: int
  pe_addToGhost :: bool

text \<open>\<open>MaxSize * int64(SmallQueuePercent) / 100\<close> in 64-bit arithmetic, truncated.\<close>

definition int64 :: "int \<Rightarrow> int" where
  "int64 x = sint (word_of_int x :: 64 word)"

definition smallTarget :: "s3_config \<Rightarrow> int" where
  "smallTarget cfg =
     (let p = int64 (MaxSize cfg * SmallQueuePercent cfg) in sgn p * (\<bar>p\<bar> div 100))"

section \<open>Creation\<close>

fun sumSizes :: "'d blob_ops \<Rightarrow> 'd \<Rightarrow> string list \<Rightarrow> int" where
  "sumSizes bo d [] = 0"
| "sumSizes bo d (h # hs) =
     (case bo_GetBlob bo d h of Inl _ \<Rightarrow> sumSizes bo d hs | Inr e \<Rightarrow> be_Size e + sumSizes bo d hs)"

definition recomputeState ::
  "('q, 'd, 'b) s3_env \<Rightarrow> ('q, 'd, 'b) s3 \<Rightarrow> queue_error + ('q, 'd, 'b) s3" where
  "recomputeState v m =
     rbind (qo_ForEach (v_queues v) (m_queues m) QueueSmall)
       (\<lambda>small. rbind (qo_ForEach (v_queues v) (m_queues m) QueueMain)
       (\<lambda>main. rbind (qo_GhostLen (v_queues v) (m_queues m))
       (\<lambda>ghostCount.
          Inr (m\<lparr>m_smallBytes := sumSizes (v_metaDB v) (m_metaDB m) small,
                 m_mainBytes := sumSizes (v_metaDB v) (m_metaDB m) main,
                 m_smallLen := int (length small), m_mainLen := int (length main),
                 m_ghostLen := ghostCount\<rparr>))))"

definition NewManager ::
  "('q, 'd, 'b) s3_env \<Rightarrow> 'q \<Rightarrow> 'd \<Rightarrow> 'b \<Rightarrow> s3_config \<Rightarrow> s3_error + ('q, 'd, 'b) s3" where
  "NewManager v q d b cfg0 =
     (if MaxSize cfg0 \<le> 0 then Inl MaxSizeNotPositive
      else let cfg1 = (if SmallQueuePercent cfg0 \<le> 0
                       then cfg0\<lparr>SmallQueuePercent := defaultSmallQueuePercent\<rparr> else cfg0)
           in if SmallQueuePercent cfg1 > 100 then Inl SmallPercentTooLarge
              else let cfg = (if CheckInterval cfg1 \<le> 0
                              then cfg1\<lparr>CheckInterval := defaultCheckInterval\<rparr> else cfg1);
                       m = \<lparr>m_config = cfg, m_queues = q, m_metaDB = d, m_backend = b, m_smallBytes = 0,
                            m_mainBytes = 0, m_smallLen = 0, m_mainLen = 0, m_ghostLen = 0,
                            m_evictCh = False\<rparr>
                   in (case recomputeState v m of
                         Inl e \<Rightarrow> Inl (QueueErr e)
                       | Inr m' \<Rightarrow>
                           Inr (m'\<lparr>m_evictCh := (m_smallBytes m' + m_mainBytes m' > MaxSize cfg)\<rparr>)))"

section \<open>Admission and removal\<close>

definition floor0 :: "int \<Rightarrow> int" where
  "floor0 x = (if x < 0 then 0 else x)"

definition overLimit :: "('q, 'd, 'b) s3 \<Rightarrow> bool" where
  "overLimit m \<longleftrightarrow> m_smallBytes m + m_mainBytes m > MaxSize (m_config m)"

definition signalIfOver :: "('q, 'd, 'b) s3 \<Rightarrow> ('q, 'd, 'b) s3" where
  "signalIfOver m = (if overLimit m then m\<lparr>m_evictCh := True\<rparr> else m)"

text \<open>A failed ghost check falls through to the small queue; a failed write admits nothing.\<close>

definition Admit ::
  "('q, 'd, 'b) s3_env \<Rightarrow> ('q, 'd, 'b) s3 \<Rightarrow> string \<Rightarrow> int \<Rightarrow> ('q, 'd, 'b) s3" where
  "Admit v m hash blobSize =
     (let inGhost = (case qo_GhostContains (v_queues v) (m_queues m) hash of Inl _ \<Rightarrow> False | Inr b \<Rightarrow> b)
      in if inGhost then
           (case qo_AdmitGhostHit (v_queues v) (m_queues m) hash of
              (Inl _, q) \<Rightarrow> m\<lparr>m_queues := q\<rparr>
            | (Inr ghostAdmitted, q) \<Rightarrow>
                if ghostAdmitted then
                  signalIfOver (m\<lparr>m_queues := q, m_mainBytes := m_mainBytes m + blobSize,
                                  m_mainLen := m_mainLen m + 1, m_ghostLen := floor0 (m_ghostLen m - 1)\<rparr>)
                else m\<lparr>m_queues := q\<rparr>)
         else
           (case qo_PushHead (v_queues v) (m_queues m) QueueSmall hash of
              (Inl _, q) \<Rightarrow> m\<lparr>m_queues := q\<rparr>
            | (Inr replaced, q) \<Rightarrow>
                if \<not> replaced then
                  signalIfOver (m\<lparr>m_queues := q, m_smallBytes := m_smallBytes m + blobSize,
                                  m_smallLen := m_smallLen m + 1\<rparr>)
                else m\<lparr>m_queues := q\<rparr>))"

definition removeFrom ::
  "('q, 'd, 'b) s3_env \<Rightarrow> queue \<Rightarrow> string \<Rightarrow> int \<Rightarrow> ('q, 'd, 'b) s3 \<Rightarrow> ('q, 'd, 'b) s3" where
  "removeFrom v queue hash blobSize m =
     (case qo_Remove (v_queues v) (m_queues m) queue hash of
        (Inl _, q) \<Rightarrow> m\<lparr>m_queues := q\<rparr>
      | (Inr removed, q) \<Rightarrow>
          let m1 = m\<lparr>m_queues := q\<rparr>
          in if \<not> removed then m1
             else (case queue of
                     QueueSmall \<Rightarrow> m1\<lparr>m_smallBytes := floor0 (m_smallBytes m1 - blobSize),
                                     m_smallLen := floor0 (m_smallLen m1 - 1)\<rparr>
                   | QueueMain \<Rightarrow> m1\<lparr>m_mainBytes := floor0 (m_mainBytes m1 - blobSize),
                                    m_mainLen := floor0 (m_mainLen m1 - 1)\<rparr>))"

definition Remove_blob ::
  "('q, 'd, 'b) s3_env \<Rightarrow> ('q, 'd, 'b) s3 \<Rightarrow> string \<Rightarrow> int \<Rightarrow> ('q, 'd, 'b) s3" where
  "Remove_blob v m hash blobSize =
     (let m2 = removeFrom v QueueMain hash blobSize (removeFrom v QueueSmall hash blobSize m);
          inGhost = (case qo_GhostContains (v_queues v) (m_queues m2) hash of Inl _ \<Rightarrow> False | Inr b \<Rightarrow> b)
      in if inGhost then
           (case qo_GhostRemove (v_queues v) (m_queues m2) hash of
              (Inl _, q) \<Rightarrow> m2\<lparr>m_queues := q\<rparr>
            | (Inr _, q) \<Rightarrow> m2\<lparr>m_queues := q, m_ghostLen := floor0 (m_ghostLen m2 - 1)\<rparr>)
         else m2)"

section \<open>One eviction decision\<close>

text \<open>The result of looking at one candidate: an error, or whether it was skipped (pinned) and
  the deletion it leaves pending.\<close>

type_synonym decision = "s3_error + (bool \<times> pending_eviction option)"

text \<open>\<open>PushHead\<close> with its result ignored, as the recovery paths do.\<close>

definition pushBack :: "('q, 'd, 'b) s3_env \<Rightarrow> 'q \<Rightarrow> queue \<Rightarrow> string \<Rightarrow> 'q" where
  "pushBack v q queue hash = snd (qo_PushHead (v_queues v) q queue hash)"

definition evictFromSmall ::
  "('q, 'd, 'b) s3_env \<Rightarrow> ('q, 'd, 'b) s3 \<Rightarrow> decision \<times> ('q, 'd, 'b) s3" where
  "evictFromSmall v m =
     (case qo_PopTail (v_queues v) (m_queues m) QueueSmall of
        (Inl e, q) \<Rightarrow> ((if e = ErrQueueEmpty then Inr (False, None) else Inl (QueueErr e)), m\<lparr>m_queues := q\<rparr>)
      | (Inr hash, q) \<Rightarrow>
          let m1 = m\<lparr>m_queues := q, m_smallLen := m_smallLen m - 1\<rparr>
          in (case bo_GetBlob (v_metaDB v) (m_metaDB m1) hash of
                Inl e \<Rightarrow>
                  if e = ErrNotFound then (Inr (False, None), m1)
                  else (Inl (GetBlobErr e),
                        m1\<lparr>m_queues := pushBack v (m_queues m1) QueueSmall hash,
                           m_smallLen := m_smallLen m1 + 1\<rparr>)
              | Inr entry \<Rightarrow>
                  if be_RefCount entry > 0 then
                    (case qo_PushHead (v_queues v) (m_queues m1) QueueSmall hash of
                       (Inl e, q') \<Rightarrow> (Inl (QueueErr e), m1\<lparr>m_queues := q'\<rparr>)
                     | (Inr _, q') \<Rightarrow>
                         (Inr (True, None), m1\<lparr>m_queues := q', m_smallLen := m_smallLen m1 + 1\<rparr>))
                  else
                    let m2 = m1\<lparr>m_smallBytes := m_smallBytes m1 - be_Size entry\<rparr>
                    in if be_AccessCount entry > 0 then
                         (case qo_PushHead (v_queues v) (m_queues m2) QueueMain hash of
                            (Inl e, q') \<Rightarrow>
                              (Inl (QueueErr e),
                               m2\<lparr>m_queues := pushBack v q' QueueSmall hash,
                                  m_smallBytes := m_smallBytes m2 + be_Size entry,
                                  m_smallLen := m_smallLen m2 + 1\<rparr>)
                          | (Inr _, q') \<Rightarrow>
                              (Inr (False, None),
                               m2\<lparr>m_queues := q', m_mainBytes := m_mainBytes m2 + be_Size entry,
                                  m_mainLen := m_mainLen m2 + 1\<rparr>))
                       else
                         (Inr (False, Some \<lparr>pe_queue = QueueSmall, pe_hash = hash,
                                           pe_size = be_Size entry, pe_addToGhost = True\<rparr>), m2)))"

definition evictFromMain ::
  "('q, 'd, 'b) s3_env \<Rightarrow> ('q, 'd, 'b) s3 \<Rightarrow> decision \<times> ('q, 'd, 'b) s3" where
  "evictFromMain v m =
     (case qo_PopTail (v_queues v) (m_queues m) QueueMain of
        (Inl e, q) \<Rightarrow> ((if e = ErrQueueEmpty then Inr (False, None) else Inl (QueueErr e)), m\<lparr>m_queues := q\<rparr>)
      | (Inr hash, q) \<Rightarrow>
          let m1 = m\<lparr>m_queues := q, m_mainLen := m_mainLen m - 1\<rparr>
          in (case bo_GetBlob (v_metaDB v) (m_metaDB m1) hash of
                Inl e \<Rightarrow>
                  if e = ErrNotFound then (Inr (False, None), m1)
                  else (Inl (GetBlobErr e),
                        m1\<lparr>m_queues := pushBack v (m_queues m1) QueueMain hash,
                           m_mainLen := m_mainLen m1 + 1\<rparr>)
              | Inr entry \<Rightarrow>
                  if be_RefCount entry > 0 then
                    (case qo_PushHead (v_queues v) (m_queues m1) QueueMain hash of
                       (Inl e, q') \<Rightarrow> (Inl (QueueErr e), m1\<lparr>m_queues := q'\<rparr>)
                     | (Inr _, q') \<Rightarrow>
                         (Inr (True, None), m1\<lparr>m_queues := q', m_mainLen := m_mainLen m1 + 1\<rparr>))
                  else if be_AccessCount entry > 0 then
                    (case bo_PutBlob (v_metaDB v) (m_metaDB m1)
                            (entry\<lparr>be_AccessCount := be_AccessCount entry - 1\<rparr>) of
                       (Inl e, d) \<Rightarrow>
                         (Inl (PutBlobErr e),
                          m1\<lparr>m_metaDB := d, m_queues := pushBack v (m_queues m1) QueueMain hash,
                             m_mainLen := m_mainLen m1 + 1\<rparr>)
                     | (Inr _, d) \<Rightarrow>
                         (case qo_PushHead (v_queues v) (m_queues m1) QueueMain hash of
                            (Inl e, q') \<Rightarrow> (Inl (QueueErr e), m1\<lparr>m_metaDB := d, m_queues := q'\<rparr>)
                          | (Inr _, q') \<Rightarrow>
                              (Inr (False, None),
                               m1\<lparr>m_metaDB := d, m_queues := q', m_mainLen := m_mainLen m1 + 1\<rparr>)))
                  else
                    (Inr (False, Some \<lparr>pe_queue = QueueMain, pe_hash = hash, pe_size = be_Size entry,
                                      pe_addToGhost = False\<rparr>),
                     m1\<lparr>m_mainBytes := m_mainBytes m1 - be_Size entry\<rparr>)))"

definition evictFrom ::
  "('q, 'd, 'b) s3_env \<Rightarrow> queue \<Rightarrow> ('q, 'd, 'b) s3 \<Rightarrow> decision \<times> ('q, 'd, 'b) s3" where
  "evictFrom v queue m = (case queue of QueueSmall \<Rightarrow> evictFromSmall v m | QueueMain \<Rightarrow> evictFromMain v m)"

definition scanDone :: "('q, 'd, 'b) s3 \<Rightarrow> queue \<Rightarrow> int \<Rightarrow> bool" where
  "scanDone m queue target \<longleftrightarrow>
     \<not> overLimit m
     \<or> (queue = QueueSmall \<and> (m_smallBytes m \<le> target \<or> m_smallLen m = 0))
     \<or> (queue = QueueMain \<and> m_mainLen m = 0)"

text \<open>\<open>done k\<close> says whether the context is found cancelled with \<open>k\<close> attempts left. The result is
  \<open>(acted, pending, error)\<close>.\<close>

fun scanEvictionQueue ::
  "('q, 'd, 'b) s3_env \<Rightarrow> (nat \<Rightarrow> bool) \<Rightarrow> queue \<Rightarrow> nat \<Rightarrow> int \<Rightarrow> ('q, 'd, 'b) s3
     \<Rightarrow> (bool \<times> pending_eviction option \<times> s3_error option) \<times> ('q, 'd, 'b) s3" where
  "scanEvictionQueue v ctx queue 0 target m = ((False, None, None), m)"
| "scanEvictionQueue v ctx queue (Suc attempts) target m =
     (if ctx (Suc attempts) then ((False, None, Some ContextDone), m)
      else if scanDone m queue target then ((False, None, None), m)
      else (case evictFrom v queue m of
              (Inl e, m') \<Rightarrow> ((False, None, Some e), m')
            | (Inr (skipped, pending), m') \<Rightarrow>
                if \<not> skipped then ((True, pending, None), m')
                else scanEvictionQueue v ctx queue attempts target m'))"

section \<open>Carrying an eviction out\<close>

definition deleteFromBackend ::
  "('q, 'd, 'b) s3_env \<Rightarrow> ('q, 'd, 'b) s3 \<Rightarrow> string \<Rightarrow> (s3_error + unit) \<times> ('q, 'd, 'b) s3" where
  "deleteFromBackend v m hash =
     (case ParseBlobRef (v_unicode v) hash of
        Inl e \<Rightarrow> (Inl (ParseHashErr e), m)
      | Inr ref \<Rightarrow>
          (case bk_Delete (v_backend v) (m_backend m) (BlobStorageKey (br_hash ref)) of
             (r, b) \<Rightarrow>
               let m1 = m\<lparr>m_backend := b\<rparr>
               in if r \<noteq> Inr () \<and> r \<noteq> Inl BackendNotFound
                  then (case r of Inl e \<Rightarrow> (Inl (BackendDeleteErr e), m1) | Inr _ \<Rightarrow> (Inr (), m1))
                  else (case bo_DeleteBlob (v_metaDB v) (m_metaDB m1) hash of
                          (rd, d) \<Rightarrow>
                            let m2 = m1\<lparr>m_metaDB := d\<rparr>
                            in (case rd of
                                  Inl e \<Rightarrow> if e = ErrNotFound then (Inr (), m2) else (Inl (DeleteBlobErr e), m2)
                                | Inr _ \<Rightarrow> (Inr (), m2)))))"

definition restorePendingEviction ::
  "('q, 'd, 'b) s3_env \<Rightarrow> ('q, 'd, 'b) s3 \<Rightarrow> pending_eviction \<Rightarrow> ('q, 'd, 'b) s3" where
  "restorePendingEviction v m p =
     (case qo_PushHead (v_queues v) (m_queues m) (pe_queue p) (pe_hash p) of
        (Inl _, q) \<Rightarrow> m\<lparr>m_queues := q\<rparr>
      | (Inr replaced, q) \<Rightarrow>
          let m1 = m\<lparr>m_queues := q\<rparr>
          in if replaced then m1
             else (case pe_queue p of
                     QueueSmall \<Rightarrow> m1\<lparr>m_smallBytes := m_smallBytes m1 + pe_size p,
                                     m_smallLen := m_smallLen m1 + 1\<rparr>
                   | QueueMain \<Rightarrow> m1\<lparr>m_mainBytes := m_mainBytes m1 + pe_size p,
                                    m_mainLen := m_mainLen m1 + 1\<rparr>))"

definition ghostMaxEntries :: "('q, 'd, 'b) s3 \<Rightarrow> int" where
  "ghostMaxEntries m =
     (if GhostMaxEntries (m_config m) > 0 then GhostMaxEntries (m_config m)
      else if m_mainLen m < ghostFloor then ghostFloor
      else m_mainLen m)"

definition finishPendingEviction ::
  "('q, 'd, 'b) s3_env \<Rightarrow> ('q, 'd, 'b) s3 \<Rightarrow> pending_eviction \<Rightarrow> ('q, 'd, 'b) s3" where
  "finishPendingEviction v m p =
     (if pe_addToGhost p then
        (let m1 = (case qo_GhostAdd (v_queues v) (m_queues m) (pe_hash p) of
                     (Inl _, q) \<Rightarrow> m\<lparr>m_queues := q\<rparr>
                   | (Inr _, q) \<Rightarrow> m\<lparr>m_queues := q, m_ghostLen := m_ghostLen m + 1\<rparr>);
             ghostMax = ghostMaxEntries m1;
             m2 = m1\<lparr>m_queues := snd (qo_GhostTrim (v_queues v) (m_queues m1) ghostMax)\<rparr>
         in if m_ghostLen m2 > ghostMax then m2\<lparr>m_ghostLen := ghostMax\<rparr> else m2)
      else m)"

text \<open>The result is whether the pass made a decision and the error, if any.\<close>

definition decide ::
  "('q, 'd, 'b) s3_env \<Rightarrow> (nat \<Rightarrow> bool) \<Rightarrow> ('q, 'd, 'b) s3
     \<Rightarrow> (bool \<times> pending_eviction option \<times> s3_error option) \<times> ('q, 'd, 'b) s3" where
  "decide v ctx m =
     (if overLimit m then
        (case scanEvictionQueue v ctx QueueSmall (nat (m_smallLen m)) (smallTarget (m_config m)) m of
           ((acted, pending, err), m1) \<Rightarrow>
             if \<not> acted \<and> err = None
             then scanEvictionQueue v ctx QueueMain (nat (m_mainLen m1)) (smallTarget (m_config m)) m1
             else ((acted, pending, err), m1))
      else ((False, None, None), m))"

definition maybeEvict ::
  "('q, 'd, 'b) s3_env \<Rightarrow> (nat \<Rightarrow> bool) \<Rightarrow> ('q, 'd, 'b) s3 \<Rightarrow> (bool \<times> s3_error option) \<times> ('q, 'd, 'b) s3" where
  "maybeEvict v ctx m =
     (case decide v ctx m of
        ((acted, pending, err), m1) \<Rightarrow>
          (case (case pending of
                   None \<Rightarrow> (acted, err, m1)
                 | Some p \<Rightarrow>
                     (case deleteFromBackend v m1 (pe_hash p) of
                        (Inl e, m2) \<Rightarrow> (False, Some e, restorePendingEviction v m2 p)
                      | (Inr _, m2) \<Rightarrow> (acted, err, finishPendingEviction v m2 p)))
           of (acted', err', m') \<Rightarrow>
                ((acted', err'), if acted' then signalIfOver m' else m')))"

text \<open>\<open>n\<close> passes of the background goroutine.\<close>

fun evictPasses ::
  "('q, 'd, 'b) s3_env \<Rightarrow> (nat \<Rightarrow> bool) \<Rightarrow> nat \<Rightarrow> ('q, 'd, 'b) s3 \<Rightarrow> ('q, 'd, 'b) s3" where
  "evictPasses v ctx 0 m = m"
| "evictPasses v ctx (Suc n) m = evictPasses v ctx n (snd (maybeEvict v ctx m))"

end
