(* ===== verification/FifoSpec.thy ===== *)
theory FifoSpec
  imports S3FIFO "HOL-Library.Multiset"
begin

text \<open>
  What one pass of the eviction policy (\<open>store/s3fifo/s3fifo.go\<close>) is meant to do, over three
  lists of hashes and the map of blob entries, with no queues, counters or errors: the first
  blob of the small queue that is not in use, if that queue is over its share, is promoted
  when it was read and evicted when it was not; else the main queue gives its first unused
  blob a second chance or evicts it. The section at the end shows that passes end.
\<close>

type_synonym blob_map = "string \<Rightarrow> blob_entry option"

record fifo =
  f_small :: "string list"
  f_main :: "string list"
  f_ghost :: "string list"
  f_blobs :: blob_map

definition entrySize :: "blob_map \<Rightarrow> string \<Rightarrow> int" where
  "entrySize B h = (case B h of None \<Rightarrow> 0 | Some e \<Rightarrow> be_Size e)"

definition fifoBytes :: "blob_map \<Rightarrow> string list \<Rightarrow> int" where
  "fifoBytes B hs = (\<Sum>h \<leftarrow> hs. entrySize B h)"

definition pinned :: "blob_map \<Rightarrow> string \<Rightarrow> bool" where
  "pinned B h \<longleftrightarrow> (case B h of None \<Rightarrow> False | Some e \<Rightarrow> be_RefCount e > 0)"

definition accessed :: "blob_map \<Rightarrow> string \<Rightarrow> bool" where
  "accessed B h \<longleftrightarrow> (case B h of None \<Rightarrow> False | Some e \<Rightarrow> be_AccessCount e > 0)"

text \<open>The oldest entry that is not pinned, and the queue without it: what was passed over is
  requeued at the new end.\<close>

definition candidate :: "blob_map \<Rightarrow> string list \<Rightarrow> (string \<times> string list) option" where
  "candidate B hs =
     (case dropWhile (pinned B) hs of
        [] \<Rightarrow> None
      | h # rest \<Rightarrow> Some (h, rest @ takeWhile (pinned B) hs))"

definition tired :: "blob_entry \<Rightarrow> blob_entry" where
  "tired e = e\<lparr>be_AccessCount := be_AccessCount e - 1\<rparr>"

definition ghostLimit :: "s3_config \<Rightarrow> string list \<Rightarrow> nat" where
  "ghostLimit cfg main =
     (if GhostMaxEntries cfg > 0 then nat (GhostMaxEntries cfg)
      else if int (length main) < ghostFloor then nat ghostFloor else length main)"

definition remember :: "s3_config \<Rightarrow> string list \<Rightarrow> string list \<Rightarrow> string \<Rightarrow> string list" where
  "remember cfg main ghost h = drop (Suc (length ghost) - ghostLimit cfg main) (ghost @ [h])"

definition fifoOver :: "s3_config \<Rightarrow> fifo \<Rightarrow> bool" where
  "fifoOver cfg s \<longleftrightarrow> fifoBytes (f_blobs s) (f_small s) + fifoBytes (f_blobs s) (f_main s) > MaxSize cfg"

text \<open>The choice of a pass: which queue gives up which blob.\<close>

definition choice :: "s3_config \<Rightarrow> fifo \<Rightarrow> (queue \<times> string \<times> string list) option" where
  "choice cfg s =
     (if \<not> fifoOver cfg s then None
      else case (if fifoBytes (f_blobs s) (f_small s) > smallTarget cfg
                 then candidate (f_blobs s) (f_small s) else None) of
             Some (h, rest) \<Rightarrow> Some (QueueSmall, h, rest)
           | None \<Rightarrow> map_option (Pair QueueMain) (candidate (f_blobs s) (f_main s)))"

definition queueOf :: "fifo \<Rightarrow> queue \<Rightarrow> string list" where
  "queueOf s x = (case x of QueueSmall \<Rightarrow> f_small s | QueueMain \<Rightarrow> f_main s)"

definition without :: "queue \<Rightarrow> string list \<Rightarrow> fifo \<Rightarrow> fifo" where
  "without x rest s = (case x of QueueSmall \<Rightarrow> s\<lparr>f_small := rest\<rparr> | QueueMain \<Rightarrow> s\<lparr>f_main := rest\<rparr>)"

definition requeue :: "queue \<Rightarrow> string \<Rightarrow> fifo \<Rightarrow> fifo" where
  "requeue x h s = without x (queueOf s x @ [h]) s"

text \<open>From the small queue a blob that was read moves to the main queue; in the main queue it
  stays and one of its reads is used up.\<close>

definition promote :: "queue \<Rightarrow> string \<Rightarrow> fifo \<Rightarrow> fifo" where
  "promote x h s =
     requeue QueueMain h
       (case x of QueueSmall \<Rightarrow> s
        | QueueMain \<Rightarrow> s\<lparr>f_blobs := (f_blobs s)(h := map_option tired (f_blobs s h))\<rparr>)"

definition evict :: "s3_config \<Rightarrow> queue \<Rightarrow> string \<Rightarrow> fifo \<Rightarrow> fifo" where
  "evict cfg x h s =
     (case x of
        QueueSmall \<Rightarrow> s\<lparr>f_ghost := remember cfg (f_main s) (f_ghost s) h, f_blobs := (f_blobs s)(h := None)\<rparr>
      | QueueMain \<Rightarrow> s\<lparr>f_blobs := (f_blobs s)(h := None)\<rparr>)"

text \<open>\<open>ok\<close> says whether the backend deletes what it is asked to delete; if not, the blob is
  queued again.\<close>

definition policy :: "s3_config \<Rightarrow> bool \<Rightarrow> fifo \<Rightarrow> fifo" where
  "policy cfg ok s =
     (case choice cfg s of
        None \<Rightarrow> s
      | Some (x, h, rest) \<Rightarrow>
          (let s' = without x rest s
           in if accessed (f_blobs s) h then promote x h s'
              else if ok then evict cfg x h s' else requeue x h s'))"

text \<open>The blob a pass deletes.\<close>

definition victim :: "s3_config \<Rightarrow> bool \<Rightarrow> fifo \<Rightarrow> string option" where
  "victim cfg ok s =
     (case choice cfg s of
        None \<Rightarrow> None
      | Some (_, h, _) \<Rightarrow> if ok \<and> \<not> accessed (f_blobs s) h then Some h else None)"

section \<open>Well-formed contents\<close>

text \<open>What is queued has an entry under its own reference; no hash is in two places.\<close>

definition queued_ok :: "blob_map \<Rightarrow> string \<Rightarrow> bool" where
  "queued_ok B h \<longleftrightarrow>
     (\<exists>x e. is_hash x \<and> h = BlobRef_String (NewBlobRef x) \<and> B h = Some e \<and> be_Hash e = h
       \<and> be_Size e \<ge> 0 \<and> be_AccessCount e \<ge> 0)"

definition fifo_ok :: "fifo \<Rightarrow> bool" where
  "fifo_ok s \<longleftrightarrow>
     distinct (f_small s @ f_main s @ f_ghost s)
     \<and> (\<forall>h \<in> set (f_small s) \<union> set (f_main s). queued_ok (f_blobs s) h)"

lemma fifoBytes_simps [simp]:
  "fifoBytes B [] = 0" "fifoBytes B (h # hs) = entrySize B h + fifoBytes B hs"
  "fifoBytes B (xs @ ys) = fifoBytes B xs + fifoBytes B ys"
  by (simp_all add: fifoBytes_def)

lemma fifoBytes_cong:
  "(\<And>h. h \<in> set hs \<Longrightarrow> entrySize B' h = entrySize B h) \<Longrightarrow> fifoBytes B' hs = fifoBytes B hs"
  by (simp add: fifoBytes_def cong: map_cong)

lemma fifoBytes_upd_other: "h \<notin> set hs \<Longrightarrow> fifoBytes (B(h := x)) hs = fifoBytes B hs"
  by (rule fifoBytes_cong) (auto simp: entrySize_def)

lemma fifoBytes_nonneg: "(\<And>h. h \<in> set hs \<Longrightarrow> queued_ok B h) \<Longrightarrow> fifoBytes B hs \<ge> 0"
  unfolding fifoBytes_def by (rule sum_list_nonneg) (force simp: entrySize_def queued_ok_def)

lemma candidate_Some:
  "candidate B hs = Some (h, rest) \<longleftrightarrow>
     (\<exists>ps qs. hs = ps @ h # qs \<and> rest = qs @ ps \<and> (\<forall>p \<in> set ps. pinned B p) \<and> \<not> pinned B h)"
proof
  assume c: "candidate B hs = Some (h, rest)"
  let ?ps = "takeWhile (pinned B) hs"
  obtain qs where d: "dropWhile (pinned B) hs = h # qs" "rest = qs @ ?ps"
    using c by (auto simp: candidate_def split: list.splits)
  have "hs = ?ps @ h # qs" by (metis d(1) takeWhile_dropWhile_id)
  moreover have "\<not> pinned B h" using d(1) by (metis hd_dropWhile list.distinct(1) list.sel(1))
  moreover have "\<forall>p \<in> set ?ps. pinned B p" by (auto dest: set_takeWhileD)
  ultimately show "\<exists>ps qs. hs = ps @ h # qs \<and> rest = qs @ ps \<and> (\<forall>p \<in> set ps. pinned B p) \<and> \<not> pinned B h"
    using d(2) by (intro exI [of _ ?ps] exI [of _ qs] conjI)
next
  assume "\<exists>ps qs. hs = ps @ h # qs \<and> rest = qs @ ps \<and> (\<forall>p \<in> set ps. pinned B p) \<and> \<not> pinned B h"
  then obtain ps qs where "hs = ps @ h # qs" "rest = qs @ ps" "\<forall>p \<in> set ps. pinned B p" "\<not> pinned B h"
    by blast
  then show "candidate B hs = Some (h, rest)"
    by (simp add: candidate_def dropWhile_append2 takeWhile_append2)
qed

lemma candidate_None: "candidate B hs = None \<longleftrightarrow> (\<forall>h \<in> set hs. pinned B h)"
proof -
  have "dropWhile (pinned B) hs = [] \<longleftrightarrow> (\<forall>h \<in> set hs. pinned B h)" by (rule dropWhile_eq_Nil_conv)
  moreover have "candidate B hs = None \<longleftrightarrow> dropWhile (pinned B) hs = []"
    unfolding candidate_def by (simp split: list.splits del: dropWhile_eq_Nil_conv)
  ultimately show ?thesis by simp
qed

lemma candidate_mset: "candidate B hs = Some (h, rest) \<Longrightarrow> mset hs = add_mset h (mset rest)"
  by (auto simp: candidate_Some)

lemma fifoBytes_mset: "mset xs = mset ys \<Longrightarrow> fifoBytes B xs = fifoBytes B ys"
  unfolding fifoBytes_def by (metis mset_map sum_mset_sum_list)

section \<open>A pass keeps the contents well-formed\<close>

text \<open>A queue that offers \<open>h\<close>: everything of it stays in the rest except \<open>h\<close>.\<close>

lemma candidateD:
  assumes "candidate B hs = Some (h, rest)"
  shows "set hs = insert h (set rest)" "h \<in> set hs" "\<not> pinned B h" "length hs = Suc (length rest)"
    "fifoBytes B' hs = entrySize B' h + fifoBytes B' rest"
    "distinct hs \<Longrightarrow> distinct rest \<and> h \<notin> set rest"
  using assms by (auto simp: candidate_Some)

lemma choiceD:
  assumes "choice cfg s = Some (x, h, rest)"
  shows "fifoOver cfg s" "candidate (f_blobs s) (queueOf s x) = Some (h, rest)"
  using assms by (auto simp: choice_def queueOf_def split: if_splits option.splits)

definition unqueued :: "fifo \<Rightarrow> string \<Rightarrow> bool" where
  "unqueued s h \<longleftrightarrow> h \<notin> set (f_small s) \<and> h \<notin> set (f_main s) \<and> h \<notin> set (f_ghost s)"

lemma queued_ok_upd: "queued_ok B h \<Longrightarrow> g \<noteq> h \<Longrightarrow> queued_ok (B(g := x)) h"
  by (auto simp: queued_ok_def)

lemma queued_ok_tired:
  "queued_ok B h \<Longrightarrow> accessed B h \<Longrightarrow> queued_ok (B(h := map_option tired (B h))) h"
  by (auto simp: queued_ok_def accessed_def tired_def)

lemma set_remember: "set (remember cfg main ghost h) \<subseteq> insert h (set ghost)"
  unfolding remember_def by (auto dest: in_set_dropD)

lemma distinct_remember: "distinct (h # ghost) \<Longrightarrow> distinct (remember cfg main ghost h)"
  unfolding remember_def by (intro distinct_drop) auto

lemma without_ok:
  assumes ok: "fifo_ok s" and c: "set (queueOf s x) = insert h (set rest)" "distinct rest" "h \<notin> set rest"
  shows "fifo_ok (without x rest s)" "unqueued (without x rest s) h" "queued_ok (f_blobs s) h"
    "f_blobs (without x rest s) = f_blobs s"
  using assms by (cases x; auto simp: fifo_ok_def without_def unqueued_def queueOf_def)+

lemma requeue_ok:
  "fifo_ok s \<Longrightarrow> unqueued s h \<Longrightarrow> queued_ok (f_blobs s) h \<Longrightarrow> fifo_ok (requeue x h s)"
  by (cases x) (auto simp: fifo_ok_def requeue_def without_def unqueued_def queueOf_def)

lemma blobs_upd_ok:
  assumes "fifo_ok s" "unqueued s h"
  shows "fifo_ok (s\<lparr>f_blobs := (f_blobs s)(h := y)\<rparr>)"
  using assms by (auto simp: fifo_ok_def unqueued_def intro!: queued_ok_upd simp del: fun_upd_apply)

lemma promote_ok:
  assumes ok: "fifo_ok s" "unqueued s h" "queued_ok (f_blobs s) h" and acc: "accessed (f_blobs s) h"
  shows "fifo_ok (promote x h s)"
proof (cases x)
  case QueueSmall
  then show ?thesis using requeue_ok [OF ok] by (simp add: promote_def)
next
  case QueueMain
  then show ?thesis
    using requeue_ok [OF blobs_upd_ok [OF ok(1,2)]] ok(2) queued_ok_tired [OF ok(3) acc]
    by (simp add: promote_def unqueued_def)
qed

lemma evict_ok:
  assumes ok: "fifo_ok s" "unqueued s h"
  shows "fifo_ok (evict cfg x h s)"
proof (cases x)
  case QueueSmall
  have "distinct (h # f_ghost s)" using ok by (simp add: fifo_ok_def unqueued_def)
  then show ?thesis
    using QueueSmall blobs_upd_ok [OF ok, of None] ok(2) set_remember [of cfg "f_main s" "f_ghost s" h]
      distinct_remember [of h "f_ghost s" cfg "f_main s"]
    unfolding fifo_ok_def evict_def unqueued_def by auto
qed (use blobs_upd_ok [OF ok] in \<open>simp add: evict_def\<close>)

lemma policy_ok:
  assumes ok: "fifo_ok s"
  shows "fifo_ok (policy cfg deleted s)"
proof (cases "choice cfg s")
  case None
  then show ?thesis using ok by (simp add: policy_def)
next
  case (Some c)
  obtain x h rest where c: "c = (x, h, rest)" by (cases c)
  note cd = candidateD [OF choiceD(2) [OF Some [unfolded c]]]
  have "distinct (queueOf s x)" using ok by (cases x) (simp_all add: fifo_ok_def queueOf_def)
  then have "distinct rest" "h \<notin> set rest" using cd(6) by auto
  note w = without_ok [OF ok cd(1) this]
  show ?thesis
    using Some c w promote_ok [OF w(1,2)] evict_ok [OF w(1,2)] requeue_ok [OF w(1,2)]
    by (simp add: policy_def Let_def)
qed

text \<open>Only an unused blob that nobody read since is deleted, and never a pinned one.\<close>

lemmas policy_defs = policy_def Let_def promote_def evict_def requeue_def without_def queueOf_def

lemma policy_blobs:
  "f_blobs (policy cfg deleted s) =
     (case choice cfg s of
        None \<Rightarrow> f_blobs s
      | Some (x, h, _) \<Rightarrow>
          if accessed (f_blobs s) h then
            (if x = QueueMain then (f_blobs s)(h := map_option tired (f_blobs s h)) else f_blobs s)
          else if deleted then (f_blobs s)(h := None) else f_blobs s)"
  by (auto simp: policy_defs split: option.splits queue.splits)

lemma policy_keeps_pinned:
  assumes "pinned (f_blobs s) h"
  shows "f_blobs (policy cfg deleted s) h = f_blobs s h"
  using assms candidateD(3) [OF choiceD(2)]
  by (auto simp: policy_blobs split: option.splits)

lemma victim_unpinned: "victim cfg ok s = Some h \<Longrightarrow> \<not> pinned (f_blobs s) h"
  by (auto simp: victim_def split: option.splits if_splits dest: candidateD(3) [OF choiceD(2)])

section \<open>Passes come to an end\<close>

text \<open>The share of the small queue is at most the whole, even where the product of the size and
  the percentage overflows 64 bits.\<close>

lemma int64_bound: "\<bar>int64 x\<bar> \<le> 2 ^ 63"
  using sint_greater_eq [of "word_of_int x :: 64 word"] sint_less [of "word_of_int x :: 64 word"]
  by (simp add: int64_def)

lemma int64_id: "\<bar>x\<bar> < 2 ^ 63 \<Longrightarrow> int64 x = x"
  by (simp add: int64_def sint_sbintrunc' signed_take_bit_int_eq_self)

lemma smallTarget_le:
  assumes "0 < MaxSize cfg" "0 < SmallQueuePercent cfg" "SmallQueuePercent cfg \<le> 100"
  shows "smallTarget cfg \<le> MaxSize cfg"
proof -
  let ?x = "MaxSize cfg * SmallQueuePercent cfg"
  have pos: "0 < ?x" using assms by simp
  have le: "?x \<le> MaxSize cfg * 100" using assms by simp
  have "\<bar>int64 ?x\<bar> \<le> MaxSize cfg * 100"
  proof (cases "?x < 2 ^ 63")
    case True
    then show ?thesis using int64_id [of ?x] pos le by simp
  next
    case False
    then show ?thesis using int64_bound [of ?x] le by linarith
  qed
  then have "\<bar>int64 ?x\<bar> div 100 \<le> MaxSize cfg" by linarith
  moreover have "sgn (int64 ?x) * (\<bar>int64 ?x\<bar> div 100) \<le> \<bar>int64 ?x\<bar> div 100"
    by (auto simp: sgn_if pos_imp_zdiv_nonneg_iff)
  ultimately show ?thesis unfolding smallTarget_def Let_def by linarith
qed

text \<open>A promotion, a second chance and an eviction each use up weight.\<close>

definition reads :: "blob_map \<Rightarrow> string \<Rightarrow> nat" where
  "reads B h = (case B h of None \<Rightarrow> 0 | Some e \<Rightarrow> nat (be_AccessCount e))"

definition weight :: "fifo \<Rightarrow> nat" where
  "weight s = (\<Sum>h \<leftarrow> f_small s. reads (f_blobs s) h + 2) + (\<Sum>h \<leftarrow> f_main s. reads (f_blobs s) h + 1)"

lemma sum_upd_other: "h \<notin> set hs \<Longrightarrow> (\<Sum>g \<leftarrow> hs. f (reads (B(h := x)) g)) = (\<Sum>g \<leftarrow> hs. f (reads B g))"
  by (intro arg_cong [of _ _ sum_list] map_cong) (auto simp: reads_def)

lemma candidate_sum:
  "candidate B hs = Some (h, rest) \<Longrightarrow> (\<Sum>g \<leftarrow> hs. f g) = f h + (\<Sum>g \<leftarrow> rest. f g :: nat)"
  by (auto simp: candidate_Some)

lemma choice_exists:
  assumes ok: "fifo_ok s" and cfg: "0 < MaxSize cfg" "0 < SmallQueuePercent cfg" "SmallQueuePercent cfg \<le> 100"
    and free: "\<forall>h \<in> set (f_small s) \<union> set (f_main s). \<not> pinned (f_blobs s) h" and over: "fifoOver cfg s"
  shows "choice cfg s \<noteq> None"
proof (cases "fifoBytes (f_blobs s) (f_small s) > smallTarget cfg \<and> f_small s \<noteq> []")
  case True
  then have "candidate (f_blobs s) (f_small s) \<noteq> None" using free by (auto simp: candidate_None)
  then show ?thesis using True over by (auto simp: choice_def split: option.splits)
next
  case False
  then have "fifoBytes (f_blobs s) (f_small s) \<le> MaxSize cfg" using smallTarget_le [OF cfg] cfg(1) by auto
  then have "f_main s \<noteq> []" using over by (auto simp: fifoOver_def)
  then have "candidate (f_blobs s) (f_main s) \<noteq> None" using free by (auto simp: candidate_None)
  then show ?thesis using over by (auto simp: choice_def split: option.splits)
qed

lemma policy_weight:
  assumes ok: "fifo_ok s" and c: "choice cfg s \<noteq> None"
  shows "weight (policy cfg True s) < weight s"
proof -
  obtain x h rest where c: "choice cfg s = Some (x, h, rest)" using c by (cases "choice cfg s") auto
  note cd = choiceD(2) [OF c, unfolded queueOf_def] and D = candidateD [OF choiceD(2) [OF c, unfolded queueOf_def]]
  show ?thesis
  proof (cases x)
    case QueueSmall
    have "distinct (f_small s)" "h \<notin> set (f_main s)" "h \<notin> set rest"
      using ok D(2,6) QueueSmall by (auto simp: fifo_ok_def)
    then show ?thesis
      using c QueueSmall cd candidate_sum [of "f_blobs s" "f_small s" h rest "\<lambda>g. reads (f_blobs s) g + 2"]
      by (auto simp: policy_defs weight_def sum_upd_other [where f = "\<lambda>n. Suc (Suc n)"] sum_upd_other [where f = Suc])
  next
    case QueueMain
    have dj: "h \<notin> set (f_small s)" "h \<notin> set rest" "queued_ok (f_blobs s) h"
      using ok D(2,6) QueueMain by (auto simp: fifo_ok_def)
    moreover have "accessed (f_blobs s) h \<Longrightarrow>
        reads ((f_blobs s)(h := map_option tired (f_blobs s h))) h < reads (f_blobs s) h"
      using dj(3) by (auto simp: reads_def accessed_def tired_def queued_ok_def)
    ultimately show ?thesis
      using c QueueMain cd candidate_sum [of "f_blobs s" "f_main s" h rest "\<lambda>g. reads (f_blobs s) g + 1"]
      by (auto simp: policy_defs weight_def sum_upd_other [where f = "\<lambda>n. Suc (Suc n)"] sum_upd_other [where f = Suc] simp del: fun_upd_apply)
  qed
qed

lemma policy_free:
  assumes "\<forall>h \<in> set (f_small s) \<union> set (f_main s). \<not> pinned (f_blobs s) h"
  shows "\<forall>h \<in> set (f_small (policy cfg ok s)) \<union> set (f_main (policy cfg ok s)). \<not> pinned (f_blobs (policy cfg ok s)) h"
proof (cases "choice cfg s")
  case None
  then show ?thesis using assms by (simp add: policy_def)
next
  case (Some c)
  obtain x h rest where c: "c = (x, h, rest)" by (cases c)
  note D = candidateD(1) [OF choiceD(2) [OF Some [unfolded c], unfolded queueOf_def]]
  show ?thesis using assms Some c D
    by (cases x) (auto simp: policy_defs pinned_def tired_def split: option.splits)
qed

end
