(* ===== verification/Eviction.thy ===== *)
theory Eviction
  imports FifoSpec
begin

text \<open>
  The eviction policy as it is coded implements its specification: over any queues, blob
  entries and backend that keep their contracts, the in-memory counters of the manager are the
  lengths and sizes of its queues, admission, removal and eviction keep that so, and a pass of
  \<open>maybeEvict\<close> is one step of \<open>policy\<close>. The locale combines the three contracts; the bbolt
  queues, the bbolt database and the filesystem are one instance of it.
\<close>

section \<open>What the counters say\<close>

definition counters_ok :: "s3_config \<Rightarrow> fifo \<Rightarrow> ('q, 'd, 'b) s3 \<Rightarrow> bool" where
  "counters_ok cfg s m \<longleftrightarrow>
     m_config m = cfg
     \<and> m_smallLen m = int (length (f_small s)) \<and> m_mainLen m = int (length (f_main s))
     \<and> m_ghostLen m = int (length (f_ghost s))
     \<and> m_smallBytes m = fifoBytes (f_blobs s) (f_small s)
     \<and> m_mainBytes m = fifoBytes (f_blobs s) (f_main s)"

lemma counters_over: "counters_ok cfg s m \<Longrightarrow> overLimit m \<longleftrightarrow> fifoOver cfg s"
  by (simp add: counters_ok_def overLimit_def fifoOver_def)

definition fifoView ::
  "('q \<Rightarrow> queue \<Rightarrow> string list) \<Rightarrow> ('q \<Rightarrow> string list) \<Rightarrow> ('d \<Rightarrow> blob_map) \<Rightarrow> ('q, 'd, 'b) s3 \<Rightarrow> fifo" where
  "fifoView lst gh blobs m =
     \<lparr>f_small = lst (m_queues m) QueueSmall, f_main = lst (m_queues m) QueueMain,
      f_ghost = gh (m_queues m), f_blobs = blobs (m_metaDB m)\<rparr>"

lemma fifoView_simps [simp]:
  "f_small (fifoView lst gh blobs m) = lst (m_queues m) QueueSmall"
  "f_main (fifoView lst gh blobs m) = lst (m_queues m) QueueMain"
  "f_ghost (fifoView lst gh blobs m) = gh (m_queues m)" "f_blobs (fifoView lst gh blobs m) = blobs (m_metaDB m)"
  by (simp_all add: fifoView_def)

lemma fifoView_backend [simp]: "fifoView lst gh blobs (m\<lparr>m_backend := b\<rparr>) = fifoView lst gh blobs m"
  by (simp add: fifoView_def)

lemma filter_present:
  assumes "distinct xs" "h \<in> set xs"
  shows "length xs = Suc (length (filter (\<lambda>y. y \<noteq> h) xs))"
    "fifoBytes B xs = entrySize B h + fifoBytes B (filter (\<lambda>y. y \<noteq> h) xs)"
  using assms by (induction xs) (auto simp: filter_absent)

lemma queued_valid: "queued_ok B h \<Longrightarrow> valid_key h"
  by (auto simp: queued_ok_def valid_key_def maxKeySize_def BlobRef_String_def NewBlobRef_def AlgBLAKE3_def)

text \<open>Everything but the order of one queue is as it was.\<close>

definition sameParts :: "('q, 'd, 'b) s3 \<Rightarrow> ('q, 'd, 'b) s3 \<Rightarrow> bool" where
  "sameParts m m' \<longleftrightarrow> m' = m\<lparr>m_queues := m_queues m'\<rparr>"

lemma sameParts_simps:
  assumes "sameParts m m'"
  shows "m_metaDB m' = m_metaDB m" "m_backend m' = m_backend m" "m_config m' = m_config m"
    "overLimit m' = overLimit m" "scanDone m' x target = scanDone m x target"
    "m_smallBytes m' = m_smallBytes m" "m_mainBytes m' = m_mainBytes m"
    "m_smallLen m' = m_smallLen m" "m_mainLen m' = m_mainLen m" "m_ghostLen m' = m_ghostLen m"
  by (subst assms [unfolded sameParts_def], simp add: overLimit_def scanDone_def)+

lemma sameParts_trans: "sameParts a b \<Longrightarrow> sameParts b c \<Longrightarrow> sameParts a c"
  unfolding sameParts_def by (metis s3.update_convs(2) s3.select_convs s3.surjective)

locale eviction =
  queues: queues_contract "v_queues v" qinv room lst gh +
  blobs: blobs_contract "v_metaDB v" dinv blobs +
  backend: backend_contract "v_backend v" binv healthy content listed
  for v :: "('q, 'd, 'b) s3_env" and qinv room lst gh dinv blobs binv healthy content listed
begin

abbreviation view :: "('q, 'd, 'b) s3 \<Rightarrow> fifo" where
  "view \<equiv> fifoView lst gh blobs"

text \<open>\<open>n\<close> insertions are left before a sequence number runs out.\<close>

definition parts_ok :: "nat \<Rightarrow> ('q, 'd, 'b) s3 \<Rightarrow> bool" where
  "parts_ok n m \<longleftrightarrow> qinv (m_queues m) \<and> room (m_queues m) n \<and> dinv (m_metaDB m) \<and> binv (m_backend m)"

definition s3_ok :: "nat \<Rightarrow> ('q, 'd, 'b) s3 \<Rightarrow> bool" where
  "s3_ok n m \<longleftrightarrow> parts_ok n m \<and> fifo_ok (view m) \<and> counters_ok (m_config m) (view m) m"

lemma s3_okI:
  "parts_ok n m \<Longrightarrow> fifo_ok (view m) \<Longrightarrow> counters_ok (m_config m) (view m) m \<Longrightarrow> s3_ok n m"
  by (simp add: s3_ok_def)

lemma s3_okD:
  assumes "s3_ok n m"
  shows "qinv (m_queues m)" "room (m_queues m) n" "dinv (m_metaDB m)" "binv (m_backend m)"
    "fifo_ok (view m)" "counters_ok (m_config m) (view m) m"
  using assms by (simp_all add: s3_ok_def parts_ok_def)

lemma queued_get:
  assumes "s3_ok n m" "h \<in> set (lst (m_queues m) x)"
  obtains e where "bo_GetBlob (v_metaDB v) (m_metaDB m) h = Inr e" "blobs (m_metaDB m) h = Some e"
    "be_Hash e = h" "valid_key h"
proof -
  have q: "queued_ok (blobs (m_metaDB m)) h"
    using s3_okD(5) [OF assms(1)] assms(2) by (cases x) (auto simp: fifo_ok_def)
  then obtain e where "blobs (m_metaDB m) h = Some e" "be_Hash e = h" by (auto simp: queued_ok_def)
  then show thesis using that blobs.get_blob [OF s3_okD(3) [OF assms(1)]] queued_valid [OF q] by simp
qed

lemma s3_ok_mono: "s3_ok n m \<Longrightarrow> k \<le> n \<Longrightarrow> s3_ok k m"
  by (auto simp: s3_ok_def parts_ok_def intro: queues.room_mono)

section \<open>Looking at one candidate\<close>

text \<open>A pinned entry goes to the other end of its queue.\<close>

lemma evictFrom_pinned:
  assumes ok: "s3_ok (Suc n) m" and q: "lst (m_queues m) x = h # hs" and pin: "pinned (blobs (m_metaDB m)) h"
  shows "\<exists>m'. evictFrom v x m = (Inr (True, None), m') \<and> s3_ok n m' \<and> sameParts m m'
    \<and> lst (m_queues m') = (lst (m_queues m))(x := hs @ [h]) \<and> gh (m_queues m') = gh (m_queues m)"
proof -
  obtain e where e: "bo_GetBlob (v_metaDB v) (m_metaDB m) h = Inr e" "blobs (m_metaDB m) h = Some e" "valid_key h"
    using queued_get [OF ok, of h x] q by (metis list.set_intros(1))
  have rc: "be_RefCount e > 0" using pin e(2) by (simp add: pinned_def)
  obtain q1 where q1: "qo_PopTail (v_queues v) (m_queues m) x = (Inr h, q1)" "qinv q1" "room q1 (Suc n)"
    "lst q1 = (lst (m_queues m))(x := hs)" "gh q1 = gh (m_queues m)"
    using queues.pop [OF s3_okD(1,2) [OF ok] q] by blast
  obtain b q2 where q2: "qo_PushHead (v_queues v) q1 x h = (Inr b, q2)" "qinv q2" "room q2 n"
    "lst q2 = (lst q1)(x := filter (\<lambda>y. y \<noteq> h) (lst q1 x) @ [h])" "gh q2 = gh q1"
    using queues.push [OF q1(2,3) e(3)] by metis
  let ?m = "m\<lparr>m_queues := q2\<rparr>"
  have "filter (\<lambda>y. y \<noteq> h) hs = hs"
    using queues.lst_distinct [OF s3_okD(1) [OF ok], of x] q by (auto simp: filter_id_conv)
  then have l2: "lst q2 = (lst (m_queues m))(x := hs @ [h])" by (simp add: q2(4) q1(4))
  have ev: "evictFrom v x m = (Inr (True, None), ?m)"
    using q1(1) e(1) rc q2(1)
    by (cases x) (simp_all add: evictFrom_def evictFromSmall_def evictFromMain_def)
  have "fifo_ok (view ?m)"
    using s3_okD(5) [OF ok] l2 q q1(5) q2(5) by (cases x) (auto simp: fifo_ok_def)
  moreover have "counters_ok (m_config ?m) (view ?m) ?m"
    using s3_okD(6) [OF ok] l2 q1(5) q2(5) q by (cases x) (auto simp: counters_ok_def)
  ultimately have "s3_ok n ?m"
    using s3_okD(3,4) [OF ok] q2(2,3) by (simp add: s3_ok_def parts_ok_def)
  then show ?thesis using ev l2 q1(5) q2(5) by (simp add: sameParts_def)
qed

definition pendingOf :: "queue \<Rightarrow> ('q, 'd, 'b) s3 \<Rightarrow> string \<Rightarrow> pending_eviction" where
  "pendingOf x m h = \<lparr>pe_queue = x, pe_hash = h, pe_size = entrySize (blobs (m_metaDB m)) h,
                      pe_addToGhost = (x = QueueSmall)\<rparr>"

lemma queueOf_view [simp]: "queueOf (view m) x = lst (m_queues m) x"
  by (cases x) (simp_all add: queueOf_def)

lemma head_without:
  assumes ok: "s3_ok n m" and q: "lst (m_queues m) x = h # hs"
  shows "fifo_ok (without x hs (view m))" "unqueued (without x hs (view m)) h"
    "queued_ok (blobs (m_metaDB m)) h" "f_blobs (without x hs (view m)) = blobs (m_metaDB m)"
  using without_ok [OF s3_okD(5) [OF ok], of x h hs] q queues.lst_distinct [OF s3_okD(1) [OF ok], of x]
  by simp_all

lemma evictFrom_read:
  assumes ok: "s3_ok (Suc n) m" and q: "lst (m_queues m) x = h # hs"
    and free: "\<not> pinned (blobs (m_metaDB m)) h" and acc: "accessed (blobs (m_metaDB m)) h"
  shows "\<exists>m'. evictFrom v x m = (Inr (False, None), m') \<and> s3_ok n m'
    \<and> view m' = promote x h (without x hs (view m)) \<and> m_backend m' = m_backend m \<and> m_config m' = m_config m"
proof -
  obtain e where e: "bo_GetBlob (v_metaDB v) (m_metaDB m) h = Inr e" "blobs (m_metaDB m) h = Some e"
    "be_Hash e = h" "valid_key h"
    using queued_get [OF ok, of h x] q by (metis list.set_intros(1))
  have rc: "\<not> be_RefCount e > 0" "be_AccessCount e > 0" using free acc e(2) by (simp_all add: pinned_def accessed_def)
  obtain q1 where q1: "qo_PopTail (v_queues v) (m_queues m) x = (Inr h, q1)" "qinv q1" "room q1 (Suc n)"
    "lst q1 = (lst (m_queues m))(x := hs)" "gh q1 = gh (m_queues m)"
    using queues.pop [OF s3_okD(1,2) [OF ok] q] by blast
  obtain b q2 where q2: "qo_PushHead (v_queues v) q1 QueueMain h = (Inr b, q2)" "qinv q2" "room q2 n"
    "lst q2 = (lst q1)(QueueMain := filter (\<lambda>y. y \<noteq> h) (lst q1 QueueMain) @ [h])" "gh q2 = gh q1"
    using queues.push [OF q1(2,3) e(4)] by metis
  note w = head_without [OF ok q]
  have "h \<notin> set (lst q1 QueueMain)"
    using w(2) q1(4) by (cases x) (auto simp: unqueued_def without_def)
  then have l2: "lst q2 = (lst q1)(QueueMain := lst q1 QueueMain @ [h])"
    using q2(4) by (auto simp: filter_id_conv)
  have pok: "fifo_ok (promote x h (without x hs (view m)))"
    using promote_ok [OF w(1,2)] w(3,4) acc by simp
  have cnt: "counters_ok (m_config m) (view m) m" and d: "dinv (m_metaDB m)" and b: "binv (m_backend m)"
    using s3_okD [OF ok] by simp_all
  show ?thesis
  proof (cases x)
    case QueueSmall
    let ?m = "m\<lparr>m_queues := q2, m_smallLen := m_smallLen m - 1, m_smallBytes := m_smallBytes m - be_Size e,
                m_mainBytes := m_mainBytes m + be_Size e, m_mainLen := m_mainLen m + 1\<rparr>"
    have "evictFrom v x m = (Inr (False, None), ?m)"
      using QueueSmall q1(1) e(1) rc q2(1) by (simp add: evictFrom_def evictFromSmall_def)
    moreover have vw: "view ?m = promote x h (without x hs (view m))"
      using QueueSmall l2 q1(4,5) q2(5) q by (simp add: promote_def requeue_def without_def queueOf_def fifoView_def)
    moreover have "counters_ok (m_config ?m) (view ?m) ?m"
      using cnt QueueSmall l2 q1(4,5) q2(5) q e(2) by (simp add: counters_ok_def entrySize_def)
    ultimately show ?thesis using pok d b q2(2,3) by (intro exI [of _ ?m]) (simp add: s3_ok_def parts_ok_def)
  next
    case QueueMain
    obtain d' where d': "bo_PutBlob (v_metaDB v) (m_metaDB m) (tired e) = (Inr (), d')" "dinv d'"
      "blobs d' = (blobs (m_metaDB m))(h \<mapsto> tired e)"
      using blobs.put_blob [OF d, of "tired e"] e(3,4) by (auto simp: tired_def)
    let ?m = "m\<lparr>m_metaDB := d', m_queues := q2\<rparr>"
    have "evictFrom v x m = (Inr (False, None), ?m)"
      using QueueMain q1(1) e(1) rc q2(1) d'(1) by (simp add: evictFrom_def evictFromMain_def tired_def)
    moreover have vw: "view ?m = promote x h (without x hs (view m))"
      using QueueMain l2 q1(4,5) q2(5) q d'(3) e(2)
      by (simp add: promote_def requeue_def without_def queueOf_def fifoView_def)
    moreover have "counters_ok (m_config ?m) (view ?m) ?m"
    proof -
      have "h \<notin> set (lst (m_queues m) QueueSmall)" "h \<notin> set hs"
        using w(2) QueueMain by (simp_all add: unqueued_def without_def)
      then have "fifoBytes (blobs d') (lst (m_queues m) QueueSmall)
            = fifoBytes (blobs (m_metaDB m)) (lst (m_queues m) QueueSmall)"
          "fifoBytes (blobs d') hs = fifoBytes (blobs (m_metaDB m)) hs"
        unfolding d'(3) by (auto intro!: fifoBytes_upd_other)
      moreover have "entrySize (blobs d') h = entrySize (blobs (m_metaDB m)) h"
        using d'(3) e(2) by (simp add: entrySize_def tired_def)
      ultimately show ?thesis
        using cnt QueueMain l2 q1(4,5) q2(5) q by (simp add: counters_ok_def)
    qed
    ultimately show ?thesis using pok d'(2) b q2(2,3) by (intro exI [of _ ?m]) (simp add: s3_ok_def parts_ok_def)
  qed
qed

text \<open>One that was not is left to be deleted: it is in no queue and in no count.\<close>

lemma evictFrom_cold:
  assumes ok: "s3_ok n m" and q: "lst (m_queues m) x = h # hs"
    and free: "\<not> pinned (blobs (m_metaDB m)) h" and acc: "\<not> accessed (blobs (m_metaDB m)) h"
  shows "\<exists>m'. evictFrom v x m = (Inr (False, Some (pendingOf x m h)), m') \<and> s3_ok n m'
    \<and> view m' = without x hs (view m) \<and> m_backend m' = m_backend m \<and> m_config m' = m_config m"
proof -
  obtain e where e: "bo_GetBlob (v_metaDB v) (m_metaDB m) h = Inr e" "blobs (m_metaDB m) h = Some e"
    using queued_get [OF ok, of h x] q by (metis list.set_intros(1))
  have rc: "\<not> be_RefCount e > 0" "\<not> be_AccessCount e > 0" using free acc e(2) by (simp_all add: pinned_def accessed_def)
  obtain q1 where q1: "qo_PopTail (v_queues v) (m_queues m) x = (Inr h, q1)" "qinv q1" "room q1 n"
    "lst q1 = (lst (m_queues m))(x := hs)" "gh q1 = gh (m_queues m)"
    using queues.pop [OF s3_okD(1,2) [OF ok] q] by blast
  note w = head_without [OF ok q] and cnt = s3_okD [OF ok]
  let ?m = "case x of
      QueueSmall \<Rightarrow> m\<lparr>m_queues := q1, m_smallLen := m_smallLen m - 1, m_smallBytes := m_smallBytes m - be_Size e\<rparr>
    | QueueMain \<Rightarrow> m\<lparr>m_queues := q1, m_mainLen := m_mainLen m - 1, m_mainBytes := m_mainBytes m - be_Size e\<rparr>"
  have "evictFrom v x m = (Inr (False, Some (pendingOf x m h)), ?m)"
    using q1(1) e rc
    by (cases x) (simp_all add: evictFrom_def evictFromSmall_def evictFromMain_def pendingOf_def entrySize_def)
  moreover have vw: "view ?m = without x hs (view m)"
    using q1(4,5) by (cases x) (simp_all add: without_def fifoView_def)
  moreover have "counters_ok (m_config ?m) (view ?m) ?m"
    using cnt(6) q1(4,5) q e(2) by (cases x) (simp_all add: counters_ok_def entrySize_def)
  moreover have "parts_ok n ?m" using cnt q1(2,3) by (cases x) (simp_all add: parts_ok_def)
  moreover have "m_backend ?m = m_backend m" "m_config ?m = m_config m" by (cases x; simp)+
  ultimately show ?thesis using w(1) by (intro exI [of _ ?m]) (simp add: s3_ok_def)
qed

section \<open>The scan of a queue\<close>

text \<open>A scan rotates \<open>j\<close> pinned entries; then it has used its attempts or found its context done,
  or it decides on the first entry that is not pinned.\<close>

definition rotated :: "queue \<Rightarrow> nat \<Rightarrow> ('q, 'd, 'b) s3 \<Rightarrow> ('q, 'd, 'b) s3 \<Rightarrow> bool" where
  "rotated x j m m' \<longleftrightarrow>
     sameParts m m' \<and> gh (m_queues m') = gh (m_queues m)
     \<and> lst (m_queues m') = (lst (m_queues m))(x := drop j (lst (m_queues m) x) @ take j (lst (m_queues m) x))"

lemma rotated_0 [simp]: "rotated x 0 m m"
  by (simp add: rotated_def sameParts_def)

lemma rotated_Suc:
  assumes "rotated x 1 m m1" "rotated x j m1 m2" "lst (m_queues m) x = h # hs" "j \<le> length hs"
  shows "rotated x (Suc j) m m2"
  using assms sameParts_trans [of m m1 m2] by (auto simp: rotated_def)

definition decisionOf ::
  "decision \<times> ('q, 'd, 'b) s3 \<Rightarrow> (bool \<times> pending_eviction option \<times> s3_error option) \<times> ('q, 'd, 'b) s3" where
  "decisionOf r = (case r of
       (Inl e, m) \<Rightarrow> ((False, None, Some e), m) | (Inr (_, pending), m) \<Rightarrow> ((True, pending, None), m))"

lemma scan_spec:
  assumes "s3_ok (k + n) m" and "\<not> scanDone m x target" and "k \<le> length (lst (m_queues m) x)"
  shows "\<exists>j \<le> k. \<exists>m1. (\<forall>i < j. pinned (blobs (m_metaDB m)) (lst (m_queues m) x ! i))
    \<and> rotated x j m m1 \<and> s3_ok (k - j + n) m1
    \<and> (scanEvictionQueue v ctx x k target m = ((False, None, if j = k then None else Some ContextDone), m1)
         \<and> (j = k \<or> ctx (k - j))
       \<or> j < k \<and> \<not> pinned (blobs (m_metaDB m)) (lst (m_queues m) x ! j)
         \<and> scanEvictionQueue v ctx x k target m = decisionOf (evictFrom v x m1))"
  using assms
proof (induction k arbitrary: m)
  case 0
  then show ?case by (intro exI [of _ 0] exI [of _ m]) simp
next
  case (Suc k)
  obtain h hs where q: "lst (m_queues m) x = h # hs" using Suc.prems(3) by (cases "lst (m_queues m) x") auto
  show ?case
  proof (cases "ctx (Suc k)")
    case True
    then show ?thesis using Suc.prems by (intro exI [of _ 0] conjI exI [of _ m]) simp_all
  next
    case ctx: False
    show ?thesis
    proof (cases "pinned (blobs (m_metaDB m)) h")
      case True
      obtain m0 where m0: "evictFrom v x m = (Inr (True, None), m0)" "s3_ok (k + n) m0" "sameParts m m0"
        "lst (m_queues m0) = (lst (m_queues m))(x := hs @ [h])" "gh (m_queues m0) = gh (m_queues m)"
        using evictFrom_pinned [OF _ q True, of "k + n"] Suc.prems(1) by auto
      note same = sameParts_simps [OF m0(3)]
      have r1: "rotated x 1 m m0" using m0(3-5) q by (simp add: rotated_def)
      have len: "k \<le> length hs" using Suc.prems(3) q by simp
      have "\<exists>j \<le> k. \<exists>m1. (\<forall>i < j. pinned (blobs (m_metaDB m)) ((hs @ [h]) ! i))
        \<and> rotated x j m0 m1 \<and> s3_ok (k - j + n) m1
        \<and> (scanEvictionQueue v ctx x k target m0 = ((False, None, if j = k then None else Some ContextDone), m1)
             \<and> (j = k \<or> ctx (k - j))
           \<or> j < k \<and> \<not> pinned (blobs (m_metaDB m)) ((hs @ [h]) ! j)
             \<and> scanEvictionQueue v ctx x k target m0 = decisionOf (evictFrom v x m1))"
        using Suc.IH [OF m0(2)] Suc.prems(2) same(1,5) m0(4) len by simp
      then obtain j m1 where j: "j \<le> k" "\<forall>i < j. pinned (blobs (m_metaDB m)) ((hs @ [h]) ! i)"
        "rotated x j m0 m1" "s3_ok (k - j + n) m1"
        "scanEvictionQueue v ctx x k target m0 = ((False, None, if j = k then None else Some ContextDone), m1)
             \<and> (j = k \<or> ctx (k - j))
           \<or> j < k \<and> \<not> pinned (blobs (m_metaDB m)) ((hs @ [h]) ! j)
             \<and> scanEvictionQueue v ctx x k target m0 = decisionOf (evictFrom v x m1)" by blast
      have step: "scanEvictionQueue v ctx x (Suc k) target m = scanEvictionQueue v ctx x k target m0"
        using ctx Suc.prems(2) m0(1) by simp
      have "rotated x (Suc j) m m1" using rotated_Suc [OF r1 j(3) q] j(1) len by simp
      moreover have "\<forall>i < Suc j. pinned (blobs (m_metaDB m)) ((h # hs) ! i)"
        using j(1,2) len True by (auto simp: less_Suc_eq_0_disj nth_append)
      moreover have "j < k \<Longrightarrow> (h # hs) ! Suc j = (hs @ [h]) ! j" using len by (simp add: nth_append)
      ultimately show ?thesis
        using j q unfolding step by (intro exI [of _ "Suc j"] conjI exI [of _ m1]) auto
    next
      case False
      have dec: "scanEvictionQueue v ctx x (Suc k) target m = decisionOf (evictFrom v x m)"
      proof -
        have "s3_ok (Suc (k + n)) m" using Suc.prems(1) by simp
        then have "\<exists>p m'. evictFrom v x m = (Inr (False, p), m')"
          using evictFrom_read [OF _ q False] evictFrom_cold [OF _ q False]
          by (cases "accessed (blobs (m_metaDB m)) h") blast+
        then show ?thesis using ctx Suc.prems(2) by (auto simp: decisionOf_def)
      qed
      show ?thesis using Suc.prems False q dec by (intro exI [of _ 0] conjI exI [of _ m]) simp_all
    qed
  qed
qed

lemma rotated_view:
  "rotated x j m m' \<Longrightarrow> view m' = without x (drop j (lst (m_queues m) x) @ take j (lst (m_queues m) x)) (view m)"
  by (cases x) (auto simp: rotated_def fifoView_def without_def dest: sameParts_simps(1))

lemma without_without [simp]: "without x a (without x b s) = without x a s"
  by (cases x) (simp_all add: without_def)

lemma without_id [simp]: "without x (lst (m_queues m) x) (view m) = view m"
  by (cases x) (simp_all add: without_def fifoView_def)

text \<open>With a context that is never done, the scan finds the candidate if there is one.\<close>

lemma scan_none:
  assumes ok: "s3_ok (length (lst (m_queues m) x) + n) m" and c: "candidate (blobs (m_metaDB m)) (lst (m_queues m) x) = None"
  shows "\<exists>m'. scanEvictionQueue v (\<lambda>_. False) x (length (lst (m_queues m) x)) target m = ((False, None, None), m')
    \<and> s3_ok n m' \<and> sameParts m m' \<and> view m' = view m"
proof (cases "scanDone m x target")
  case True
  then have "scanEvictionQueue v (\<lambda>_. False) x k target m = ((False, None, None), m)" for k
    by (cases k) simp_all
  then show ?thesis using s3_ok_mono [OF ok] by (intro exI [of _ m]) (simp add: sameParts_def)
next
  case False
  let ?xs = "lst (m_queues m) x"
  obtain j m1 where j: "j \<le> length ?xs" "rotated x j m m1" "s3_ok (length ?xs - j + n) m1"
    and res: "scanEvictionQueue v (\<lambda>_. False) x (length ?xs) target m
        = ((False, None, if j = length ?xs then None else Some ContextDone), m1) \<and> (j = length ?xs \<or> False)
      \<or> j < length ?xs \<and> \<not> pinned (blobs (m_metaDB m)) (?xs ! j)
        \<and> scanEvictionQueue v (\<lambda>_. False) x (length ?xs) target m = decisionOf (evictFrom v x m1)"
    using scan_spec [OF ok False order_refl, of "\<lambda>_. False"] by blast
  moreover have "j < length ?xs \<Longrightarrow> pinned (blobs (m_metaDB m)) (?xs ! j)"
    using c by (simp add: candidate_None)
  ultimately show ?thesis
    using rotated_view [OF j(2)] by (intro exI [of _ m1]) (auto simp: rotated_def)
qed

lemma scan_some:
  assumes ok: "s3_ok (length (lst (m_queues m) x) + n) m" and nd: "\<not> scanDone m x target"
    and c: "candidate (blobs (m_metaDB m)) (lst (m_queues m) x) = Some (h, rest)"
  shows "\<exists>p m'. scanEvictionQueue v (\<lambda>_. False) x (length (lst (m_queues m) x)) target m = ((True, p, None), m')
    \<and> s3_ok n m' \<and> m_backend m' = m_backend m \<and> m_config m' = m_config m
    \<and> (if accessed (blobs (m_metaDB m)) h then p = None \<and> view m' = promote x h (without x rest (view m))
        else p = Some (pendingOf x m h) \<and> view m' = without x rest (view m))"
proof -
  let ?xs = "lst (m_queues m) x"
  obtain ps qs where split: "?xs = ps @ h # qs" "rest = qs @ ps" "\<forall>p \<in> set ps. pinned (blobs (m_metaDB m)) p"
    "\<not> pinned (blobs (m_metaDB m)) h" using c by (auto simp: candidate_Some)
  obtain j m1 where j: "j \<le> length ?xs" "\<forall>i < j. pinned (blobs (m_metaDB m)) (?xs ! i)" "rotated x j m m1"
    "s3_ok (length ?xs - j + n) m1"
    "j = length ?xs \<or> j < length ?xs \<and> \<not> pinned (blobs (m_metaDB m)) (?xs ! j)
      \<and> scanEvictionQueue v (\<lambda>_. False) x (length ?xs) target m = decisionOf (evictFrom v x m1)"
    using scan_spec [OF ok nd order_refl, of "\<lambda>_. False"] by blast
  have "\<not> length ps < j" using j(2) split(1,4) by (metis nth_append_length)
  moreover have "\<not> j < length ps \<or> pinned (blobs (m_metaDB m)) (?xs ! j)"
    using split(1,3) by (simp add: nth_append)
  ultimately have jp: "j = length ps" using j(1,5) split(1) by auto
  have q1: "lst (m_queues m1) x = h # rest" and b1: "blobs (m_metaDB m1) = blobs (m_metaDB m)"
    and be: "m_backend m1 = m_backend m" "m_config m1 = m_config m"
    using j(3) jp split(1,2) by (auto simp: rotated_def sameParts_simps)
  have ok1: "s3_ok (Suc n) m1" using j(4) jp split(1) by (auto intro: s3_ok_mono)
  have scan: "scanEvictionQueue v (\<lambda>_. False) x (length ?xs) target m = decisionOf (evictFrom v x m1)"
    using j(5) jp split(1) by auto
  have vw: "without x rest (view m1) = without x rest (view m)" using rotated_view [OF j(3)] by simp
  show ?thesis
  proof (cases "accessed (blobs (m_metaDB m)) h")
    case True
    then show ?thesis
      using evictFrom_read [OF ok1 q1] split(4) scan b1 be vw by (auto simp: decisionOf_def)
  next
    case False
    have "pendingOf x m1 h = pendingOf x m h" using b1 by (simp add: pendingOf_def)
    then show ?thesis
      using evictFrom_cold [OF s3_ok_mono [OF ok1, of n] q1] split(4) scan b1 be vw False
      by (auto simp: decisionOf_def)
  qed
qed

section \<open>Carrying an eviction out\<close>

lemma unqueued_bytes:
  "unqueued s h \<Longrightarrow> fifoBytes (B(h := y)) (f_small s) = fifoBytes B (f_small s)"
  "unqueued s h \<Longrightarrow> fifoBytes (B(h := y)) (f_main s) = fifoBytes B (f_main s)"
  by (simp_all add: unqueued_def fifoBytes_upd_other del: fun_upd_apply)

lemma delete_spec:
  assumes ok: "s3_ok n m" and un: "unqueued (view m) h" and h: "is_hash g" "h = BlobRef_String (NewBlobRef g)"
    and del: "deleteFromBackend v m h = (res, m')"
  shows "s3_ok n m' \<and> m_config m' = m_config m \<and> m_queues m' = m_queues m
    \<and> (healthy (m_backend m) \<longrightarrow> healthy (m_backend m') \<and> res = Inr ())
    \<and> (case res of
         Inl _ \<Rightarrow> m_metaDB m' = m_metaDB m \<and> (\<forall>x. is_hash x \<longrightarrow> content (m_backend m') x = content (m_backend m) x)
       | Inr _ \<Rightarrow> blobs (m_metaDB m') = (blobs (m_metaDB m))(h := None)
           \<and> (\<forall>x. is_hash x \<longrightarrow> content (m_backend m') x = (if x = g then None else content (m_backend m) x)))"
proof -
  obtain r b where r: "bk_Delete (v_backend v) (m_backend m) (BlobStorageKey g) = (r, b)"
    by (cases "bk_Delete (v_backend v) (m_backend m) (BlobStorageKey g)")
  note bk = backend.del_data [OF s3_okD(4) [OF ok] h(1) r]
  obtain d where d: "bo_DeleteBlob (v_metaDB v) (m_metaDB m) h = (Inr (), d)" "dinv d"
    "blobs d = (blobs (m_metaDB m))(h := None)" using blobs.del_blob [OF s3_okD(3) [OF ok]] by blast
  have parse: "ParseBlobRef (v_unicode v) h = Inr (NewBlobRef g)" using h by simp
  show ?thesis
  proof (cases "r = Inr () \<or> r = Inl BackendNotFound")
    case True
    then have eq: "res = Inr ()" "m' = m\<lparr>m_backend := b, m_metaDB := d\<rparr>"
      using del parse r d(1) by (auto simp: deleteFromBackend_def NewBlobRef_def)
    have "fifo_ok ((view m)\<lparr>f_blobs := (f_blobs (view m))(h := None)\<rparr>)"
      using blobs_upd_ok [OF s3_okD(5) [OF ok] un] .
    moreover have "view m' = (view m)\<lparr>f_blobs := (f_blobs (view m))(h := None)\<rparr>"
      using eq d(3) by (simp add: fifoView_def)
    moreover have "counters_ok (m_config m') (view m') m'"
      using s3_okD(6) [OF ok] eq d(3) unqueued_bytes [OF un]
      by (simp add: counters_ok_def del: fun_upd_apply)
    ultimately show ?thesis
      using eq d True bk s3_okD(1,2) [OF ok] by (auto simp: s3_ok_def parts_ok_def)
  next
    case False
    then obtain e where e: "r = Inl e" "res = Inl (BackendDeleteErr e)" "m' = m\<lparr>m_backend := b\<rparr>"
      using del parse r by (cases r) (auto simp: deleteFromBackend_def NewBlobRef_def)
    have "view m' = view m" using e by simp
    moreover have "counters_ok (m_config m') (view m') m'"
      using s3_okD(6) [OF ok] e by (simp add: counters_ok_def)
    ultimately show ?thesis
      using e bk False s3_okD [OF ok] by (auto simp: s3_ok_def parts_ok_def)
  qed
qed

lemma restore_spec:
  assumes ok: "s3_ok (Suc n) m" and un: "unqueued (view m) h" and q: "queued_ok (blobs (m_metaDB m)) h"
  shows "s3_ok n (restorePendingEviction v m (pendingOf x m h))
    \<and> view (restorePendingEviction v m (pendingOf x m h)) = requeue x h (view m)
    \<and> m_config (restorePendingEviction v m (pendingOf x m h)) = m_config m
    \<and> m_backend (restorePendingEviction v m (pendingOf x m h)) = m_backend m"
proof -
  have nin: "h \<notin> set (lst (m_queues m) x)" using un by (cases x) (simp_all add: unqueued_def)
  obtain q1 where q1: "qo_PushHead (v_queues v) (m_queues m) x h = (Inr False, q1)" "qinv q1" "room q1 n"
    "lst q1 = (lst (m_queues m))(x := lst (m_queues m) x @ [h])" "gh q1 = gh (m_queues m)"
    using queues.push [OF s3_okD(1,2) [OF ok] queued_valid [OF q], of x] nin by (auto simp: filter_absent)
  let ?m = "restorePendingEviction v m (pendingOf x m h)"
  have eq: "?m = (case x of
      QueueSmall \<Rightarrow> m\<lparr>m_queues := q1, m_smallBytes := m_smallBytes m + entrySize (blobs (m_metaDB m)) h,
                     m_smallLen := m_smallLen m + 1\<rparr>
    | QueueMain \<Rightarrow> m\<lparr>m_queues := q1, m_mainBytes := m_mainBytes m + entrySize (blobs (m_metaDB m)) h,
                    m_mainLen := m_mainLen m + 1\<rparr>)"
    using q1(1) by (cases x) (simp_all add: restorePendingEviction_def pendingOf_def)
  have vw: "view ?m = requeue x h (view m)"
    using eq q1(4,5) by (cases x) (simp_all add: requeue_def without_def queueOf_def fifoView_def)
  have "fifo_ok (view ?m)" unfolding vw using requeue_ok [OF s3_okD(5) [OF ok] un] q by simp
  moreover have "counters_ok (m_config ?m) (view ?m) ?m"
    using s3_okD(6) [OF ok] q1(4,5) eq by (cases x) (simp_all add: counters_ok_def)
  moreover have "parts_ok n ?m" "m_config ?m = m_config m" "m_backend ?m = m_backend m"
    using s3_okD(3,4) [OF ok] q1(2,3) eq by (cases x; simp add: parts_ok_def)+
  ultimately show ?thesis using vw by (simp add: s3_ok_def)
qed

lemma finish_spec:
  assumes ok: "s3_ok (Suc n) m" and un: "unqueued (view m) h" and h: "valid_key h" and p: "pe_hash p = h"
    and b: "blobs (m_metaDB m) h = None"
  shows "s3_ok n (finishPendingEviction v m p)
    \<and> view (finishPendingEviction v m p)
        = evict (m_config m) (if pe_addToGhost p then QueueSmall else QueueMain) h (view m)
    \<and> m_config (finishPendingEviction v m p) = m_config m
    \<and> m_backend (finishPendingEviction v m p) = m_backend m"
proof (cases "pe_addToGhost p")
  case False
  moreover have "(blobs (m_metaDB m))(h := None) = blobs (m_metaDB m)" using b by auto
  ultimately show ?thesis
    using s3_ok_mono [OF ok, of n] by (simp add: finishPendingEviction_def evict_def fifoView_def)
next
  case True
  have "h \<notin> set (gh (m_queues m))" using un by (simp add: unqueued_def)
  then obtain q1 where q1: "qo_GhostAdd (v_queues v) (m_queues m) h = (Inr (), q1)" "qinv q1" "room q1 n"
    "lst q1 = lst (m_queues m)" "gh q1 = gh (m_queues m) @ [h]"
    using queues.ghost_add [OF s3_okD(1,2) [OF ok] h] by (auto simp: filter_absent)
  let ?max = "ghostMaxEntries m"
  obtain q2 where q2: "qo_GhostTrim (v_queues v) q1 ?max = (Inr (), q2)" "qinv q2" "room q2 n"
    "lst q2 = lst q1" "gh q2 = drop (length (gh q1) - nat ?max) (gh q1)"
    using queues.ghost_trim [OF q1(2,3)] by blast
  note cnt = s3_okD(6) [OF ok, unfolded counters_ok_def]
  have max: "nat ?max = ghostLimit (m_config m) (lst (m_queues m) QueueMain)" "0 \<le> ?max"
    using cnt by (auto simp: ghostMaxEntries_def ghostLimit_def ghostFloor_def)
  have gm: "ghostMaxEntries (m\<lparr>m_queues := q1, m_ghostLen := g\<rparr>) = ?max" for g
    by (simp add: ghostMaxEntries_def)
  let ?m = "finishPendingEviction v m p"
  have m: "?m = m\<lparr>m_queues := q2, m_ghostLen := min (m_ghostLen m + 1) ?max\<rparr>"
    using True p q1(1) q2(1) by (simp add: finishPendingEviction_def gm Let_def min_def)
  have "(blobs (m_metaDB m))(h := None) = blobs (m_metaDB m)" using b by auto
  then have vw: "view ?m = evict (m_config m) QueueSmall h (view m)"
    using m q1(4,5) q2(4,5) max by (simp add: evict_def remember_def fifoView_def)
  have "fifo_ok (view ?m)" unfolding vw by (rule evict_ok [OF s3_okD(5) [OF ok] un])
  moreover have "counters_ok (m_config ?m) (view ?m) ?m"
    using m cnt q1(4,5) q2(4,5) max(2) by (simp add: counters_ok_def)
  moreover have "parts_ok n ?m" "m_config ?m = m_config m" "m_backend ?m = m_backend m"
    using m q2(2,3) s3_okD(3,4) [OF ok] by (simp_all add: parts_ok_def)
  ultimately show ?thesis using True vw by (simp add: s3_ok_def)
qed

section \<open>A pass\<close>

definition carriedOut :: "('q, 'd, 'b) s3 \<Rightarrow> queue \<Rightarrow> string \<Rightarrow> ('q, 'd, 'b) s3 \<Rightarrow> bool \<times> s3_error option \<times> ('q, 'd, 'b) s3" where
  "carriedOut m x h m0 =
     (case deleteFromBackend v m h of
        (Inl e, m2) \<Rightarrow> (False, Some e, restorePendingEviction v m2 (pendingOf x m0 h))
      | (Inr _, m2) \<Rightarrow> (True, None, finishPendingEviction v m2 (pendingOf x m0 h)))"

lemma carriedOut_spec:
  assumes ok: "s3_ok (Suc n) m" and un: "unqueued (view m) h" and g: "is_hash g" "h = BlobRef_String (NewBlobRef g)"
    and q: "queued_ok (blobs (m_metaDB m)) h" and b0: "blobs (m_metaDB m0) = blobs (m_metaDB m)"
    and run: "carriedOut m x h m0 = (acted, err, m')"
  shows "s3_ok n m' \<and> m_config m' = m_config m \<and> (acted \<longleftrightarrow> err = None)
    \<and> view m' = (if acted then evict (m_config m) x h (view m) else requeue x h (view m))
    \<and> (healthy (m_backend m) \<longrightarrow> healthy (m_backend m') \<and> acted)
    \<and> (\<forall>y. is_hash y \<longrightarrow> content (m_backend m') y = (if acted \<and> y = g then None else content (m_backend m) y))"
proof -
  obtain res m2 where d: "deleteFromBackend v m h = (res, m2)" by (cases "deleteFromBackend v m h")
  note ds = delete_spec [OF ok un g d]
  show ?thesis
  proof (cases res)
    case (Inl e)
    have "view m2 = view m" using ds Inl by (simp add: fifoView_def)
    moreover have "pendingOf x m0 h = pendingOf x m2 h" using ds Inl b0 by (simp add: pendingOf_def)
    ultimately show ?thesis
      using run d Inl ds restore_spec [of n m2 h x] un q by (auto simp: carriedOut_def)
  next
    case (Inr u)
    have un2: "unqueued (view m2) h" using ds un by (simp add: unqueued_def)
    have vw: "view m2 = (view m)\<lparr>f_blobs := (f_blobs (view m))(h := None)\<rparr>" using ds Inr by (simp add: fifoView_def)
    have "evict (m_config m) x h (view m2) = evict (m_config m) x h (view m)"
      by (cases x) (simp_all add: vw evict_def)
    moreover have "(if pe_addToGhost (pendingOf x m0 h) then QueueSmall else QueueMain) = x"
      by (cases x) (simp_all add: pendingOf_def)
    moreover have "pe_hash (pendingOf x m0 h) = h" by (simp add: pendingOf_def)
    ultimately show ?thesis
      using run d Inr ds finish_spec [of n m2 h "pendingOf x m0 h"] un2 queued_valid [OF q]
      by (auto simp: carriedOut_def)
  qed
qed

definition evictable :: "('q, 'd, 'b) s3 \<Rightarrow> queue \<Rightarrow> string \<Rightarrow> string list \<Rightarrow> ('q, 'd, 'b) s3
    \<Rightarrow> pending_eviction option \<Rightarrow> bool" where
  "evictable m x h rest m' p \<longleftrightarrow>
     m_backend m' = m_backend m \<and> m_config m' = m_config m
     \<and> (if accessed (blobs (m_metaDB m)) h then p = None \<and> view m' = promote x h (without x rest (view m))
        else p = Some (pendingOf x m h) \<and> view m' = without x rest (view m))"

lemma decide_spec:
  assumes ok: "s3_ok (length (lst (m_queues m) QueueSmall) + length (lst (m_queues m) QueueMain) + n) m"
  shows "case choice (m_config m) (view m) of
      None \<Rightarrow> \<exists>m'. decide v (\<lambda>_. False) m = ((False, None, None), m') \<and> s3_ok n m' \<and> sameParts m m' \<and> view m' = view m
    | Some (x, h, rest) \<Rightarrow> \<exists>p m'. decide v (\<lambda>_. False) m = ((True, p, None), m') \<and> s3_ok n m' \<and> evictable m x h rest m' p"
proof (cases "overLimit m")
  case False
  then have "choice (m_config m) (view m) = None"
    using counters_over [OF s3_okD(6) [OF ok]] by (simp add: choice_def)
  then show ?thesis using False s3_ok_mono [OF ok, of n]
    by (auto simp: decide_def sameParts_def intro!: exI [of _ m])
next
  case over: True
  let ?S = "lst (m_queues m) QueueSmall" and ?M = "lst (m_queues m) QueueMain" and ?B = "blobs (m_metaDB m)"
  let ?target = "smallTarget (m_config m)"
  note cnt = s3_okD(6) [OF ok, unfolded counters_ok_def]
  have fover: "fifoOver (m_config m) (view m)" using over counters_over [OF s3_okD(6) [OF ok]] by simp
  have lens: "nat (m_smallLen m) = length ?S" "nat (m_mainLen m) = length ?M" using cnt by simp_all
  have ok1: "s3_ok (length ?S + (length ?M + n)) m" using ok by (simp add: add.assoc)
  have sd: "scanDone m QueueSmall ?target \<longleftrightarrow> fifoBytes ?B ?S \<le> ?target \<or> ?S = []"
    using over cnt by (simp add: scanDone_def)
  show ?thesis
  proof (cases "\<not> scanDone m QueueSmall ?target \<and> candidate ?B ?S \<noteq> None")
    case True
    then obtain h rest where c: "candidate ?B ?S = Some (h, rest)" by auto
    have "choice (m_config m) (view m) = Some (QueueSmall, h, rest)"
      using True fover sd c by (simp add: choice_def)
    moreover obtain p m' where "scanEvictionQueue v (\<lambda>_. False) QueueSmall (length ?S) ?target m = ((True, p, None), m')"
      "s3_ok (length ?M + n) m'" "evictable m QueueSmall h rest m' p"
      using scan_some [OF ok1 _ c, of ?target] True unfolding evictable_def by blast
    ultimately show ?thesis using over lens s3_ok_mono [of "length ?M + n" m' n] by (simp add: decide_def)
  next
    case False
    obtain m1 where m1: "scanEvictionQueue v (\<lambda>_. False) QueueSmall (length ?S) ?target m = ((False, None, None), m1)"
      "s3_ok (length ?M + n) m1" "sameParts m m1" "view m1 = view m"
    proof (cases "scanDone m QueueSmall ?target")
      case True
      then have "scanEvictionQueue v (\<lambda>_. False) QueueSmall k ?target m = ((False, None, None), m)" for k
        by (cases k) simp_all
      then show ?thesis using that [of m] s3_ok_mono [OF ok1] by (simp add: sameParts_def)
    next
      case nd: False
      then have "candidate ?B ?S = None" using False by blast
      then show ?thesis using scan_none [OF ok1, of ?target] that by blast
    qed
    note same = sameParts_simps [OF m1(3)]
    have v1: "lst (m_queues m1) QueueMain = ?M" "blobs (m_metaDB m1) = ?B"
      using arg_cong [OF m1(4), of f_main] arg_cong [OF m1(4), of f_blobs] by simp_all
    have dec: "decide v (\<lambda>_. False) m = scanEvictionQueue v (\<lambda>_. False) QueueMain (length ?M) ?target m1"
      using over lens m1(1) same by (simp add: decide_def)
    have "(if fifoBytes ?B ?S > ?target then candidate ?B ?S else None) = None"
    proof (cases "?S = []")
      case True
      then show ?thesis by (simp add: candidate_def)
    next
      case ne: False
      then have "candidate ?B ?S = None" if "fifoBytes ?B ?S > ?target"
        using False sd that by (meson not_le)
      then show ?thesis by simp
    qed
    then have ch: "choice (m_config m) (view m) = map_option (Pair QueueMain) (candidate ?B ?M)"
      unfolding choice_def fifoView_simps using fover by (auto split: if_splits)
    show ?thesis
    proof (cases "candidate ?B ?M")
      case None
      obtain m' where "scanEvictionQueue v (\<lambda>_. False) QueueMain (length ?M) ?target m1 = ((False, None, None), m')"
        "s3_ok n m'" "sameParts m1 m'" "view m' = view m1"
        using scan_none [of m1 QueueMain n ?target] m1(2) v1 None by auto
      then show ?thesis using ch None dec m1(3,4) sameParts_trans by auto
    next
      case (Some c)
      obtain h rest where c: "c = (h, rest)" by (cases c)
      have "?M \<noteq> []" using Some by (auto simp: candidate_def)
      then have "\<not> scanDone m1 QueueMain ?target"
        using over same(4,9) cnt by (simp add: scanDone_def)
      then obtain p m' where
        "scanEvictionQueue v (\<lambda>_. False) QueueMain (length ?M) ?target m1 = ((True, p, None), m')"
        "s3_ok n m'" "evictable m1 QueueMain h rest m' p"
        using scan_some [of m1 QueueMain n ?target h rest] m1(2) v1 Some c unfolding evictable_def by auto
      moreover have "evictable m1 QueueMain h rest m' p = evictable m QueueMain h rest m' p"
        using same v1 m1(4) by (simp add: evictable_def pendingOf_def)
      ultimately show ?thesis using ch Some c dec by simp
    qed
  qed
qed

lemma signal_simps [simp]:
  "view (signalIfOver m) = view m" "m_config (signalIfOver m) = m_config m"
  "m_backend (signalIfOver m) = m_backend m" "m_metaDB (signalIfOver m) = m_metaDB m" "s3_ok n (signalIfOver m) = s3_ok n m"
  by (simp_all add: signalIfOver_def fifoView_def s3_ok_def parts_ok_def counters_ok_def)

text \<open>A pass is a step of the policy.\<close>

lemma maybeEvict_spec:
  assumes ok: "s3_ok (length (lst (m_queues m) QueueSmall) + length (lst (m_queues m) QueueMain) + Suc n) m"
    and run: "maybeEvict v (\<lambda>_. False) m = ((acted, err), m')"
  shows "\<exists>deleted. s3_ok n m' \<and> m_config m' = m_config m
    \<and> view m' = policy (m_config m) deleted (view m)
    \<and> (err = None \<longleftrightarrow> deleted) \<and> (acted \<longleftrightarrow> deleted \<and> choice (m_config m) (view m) \<noteq> None)
    \<and> (healthy (m_backend m) \<longrightarrow> healthy (m_backend m') \<and> deleted)
    \<and> (\<forall>y. is_hash y \<longrightarrow> content (m_backend m') y =
          (if victim (m_config m) deleted (view m) = Some (BlobRef_String (NewBlobRef y)) then None
           else content (m_backend m) y))"
proof (cases "choice (m_config m) (view m)")
  case None
  then obtain m1 where m1: "decide v (\<lambda>_. False) m = ((False, None, None), m1)" "s3_ok (Suc n) m1" "sameParts m m1"
    "view m1 = view m" using decide_spec [OF ok] by auto
  then have "acted = False" "err = None" "m' = m1" using run by (simp_all add: maybeEvict_def)
  then show ?thesis
    using None m1(4) s3_ok_mono [OF m1(2), of n] sameParts_simps [OF m1(3)]
    by (intro exI [of _ True]) (simp add: policy_def victim_def)
next
  case (Some c)
  obtain x h rest where c: "c = (x, h, rest)" by (cases c)
  then obtain p m1 where m1: "decide v (\<lambda>_. False) m = ((True, p, None), m1)" "s3_ok (Suc n) m1" "evictable m x h rest m1 p"
    using decide_spec [OF ok] Some by auto
  show ?thesis
  proof (cases "accessed (blobs (m_metaDB m)) h")
    case True
    then have "acted = True" "err = None" "m' = signalIfOver m1" "view m1 = promote x h (without x rest (view m))"
      "m_config m1 = m_config m" "m_backend m1 = m_backend m"
      using run m1 by (auto simp: maybeEvict_def evictable_def)
    then show ?thesis
      using Some c True s3_ok_mono [OF m1(2), of n]
      by (intro exI [of _ True]) (simp add: policy_def victim_def)
  next
    case False
    then have p: "p = Some (pendingOf x m h)" and vw: "view m1 = without x rest (view m)"
      and same: "m_config m1 = m_config m" "m_backend m1 = m_backend m"
      using m1(3) by (simp_all add: evictable_def)
    obtain a e m2 where co: "carriedOut m1 x h m = (a, e, m2)" by (cases "carriedOut m1 x h m")
    have res: "acted = a" "err = e" "m' = (if a then signalIfOver m2 else m2)"
      using run m1(1) p co
      by (auto simp: maybeEvict_def carriedOut_def pendingOf_def split: prod.splits sum.splits)
    note cd = candidateD [OF choiceD(2) [OF Some [unfolded c]], simplified]
    have q: "queued_ok (blobs (m_metaDB m)) h"
      using s3_okD(5) [OF ok] cd(2) by (cases x) (auto simp: fifo_ok_def)
    then obtain g where g: "is_hash g" "h = BlobRef_String (NewBlobRef g)" by (auto simp: queued_ok_def)
    have "distinct (lst (m_queues m) x)" using queues.lst_distinct s3_okD(1) [OF ok] .
    then have un: "unqueued (view m1) h" and "f_blobs (view m1) = blobs (m_metaDB m)"
      using without_ok [OF s3_okD(5) [OF ok], of x h rest] cd vw by simp_all
    then have b1: "blobs (m_metaDB m1) = blobs (m_metaDB m)" by simp
    note cs = carriedOut_spec [OF m1(2) un g _ _ co, unfolded b1, OF q refl]
    show ?thesis
      using Some c False cs res same vw g
      by (intro exI [of _ a]) (auto simp: policy_def victim_def)
  qed
qed

section \<open>Repeated passes\<close>

text \<open>Each pass over the limit uses up weight, so that as many passes as there is weight bring the
  cache under its limit when no queued blob is in use and the backend deletes.\<close>

definition freeBlobs :: "('q, 'd, 'b) s3 \<Rightarrow> bool" where
  "freeBlobs m \<longleftrightarrow>
     (\<forall>h \<in> set (f_small (view m)) \<union> set (f_main (view m)). \<not> pinned (f_blobs (view m)) h)"

lemma policy_size:
  assumes "choice cfg s = Some (x, h, rest)"
  shows "length (f_small (policy cfg ok s)) + length (f_main (policy cfg ok s))
    \<le> length (f_small s) + length (f_main s)"
  using candidateD(4) [OF choiceD(2) [OF assms]] assms
  by (cases x) (simp_all add: policy_defs)

lemma passes_spec:
  assumes "s3_ok (Suc L * k) m" and "length (f_small (view m)) + length (f_main (view m)) \<le> L"
    and "0 < MaxSize (m_config m)" "0 < SmallQueuePercent (m_config m)" "SmallQueuePercent (m_config m) \<le> 100"
    and "freeBlobs m" "healthy (m_backend m)" "weight (view m) \<le> k"
  shows "\<not> overLimit (evictPasses v (\<lambda>_. False) k m)"
  using assms
proof (induction k arbitrary: m)
  case 0
  have "f_small (view m) = []" "f_main (view m) = []" using "0.prems"(8) by (auto simp: weight_def)
  then have "\<not> fifoOver (m_config m) (view m)" using "0.prems"(3) by (simp add: fifoOver_def)
  then show ?case using counters_over [OF s3_okD(6) [OF "0.prems"(1)]] by simp
next
  case (Suc k)
  let ?cfg = "m_config m"
  obtain acted err m' where run: "maybeEvict v (\<lambda>_. False) m = ((acted, err), m')"
    by (metis prod.collapse)
  have "length (lst (m_queues m) QueueSmall) + length (lst (m_queues m) QueueMain) + Suc (Suc L * k) \<le> Suc L * Suc k"
    using Suc.prems(2) by simp
  note ok = s3_ok_mono [OF Suc.prems(1) this]
  obtain deleted where "s3_ok (Suc L * k) m'" "m_config m' = ?cfg" "view m' = policy ?cfg deleted (view m)"
    "healthy (m_backend m) \<longrightarrow> healthy (m_backend m') \<and> deleted"
    using maybeEvict_spec [OF ok run] by blast
  then have m': "s3_ok (Suc L * k) m'" "m_config m' = ?cfg" "view m' = policy ?cfg True (view m)"
    "healthy (m_backend m')" using Suc.prems(7) by auto
  have free: "freeBlobs m'"
    using policy_free [of "view m" ?cfg True] Suc.prems(6) unfolding freeBlobs_def m'(3) by blast
  have "weight (view m') \<le> k \<and> length (f_small (view m')) + length (f_main (view m')) \<le> L" if "fifoOver ?cfg (view m)"
  proof -
    have "choice ?cfg (view m) \<noteq> None"
      using choice_exists [OF s3_okD(5) [OF ok] Suc.prems(3-5)] Suc.prems(6) that
      unfolding freeBlobs_def by blast
    then show ?thesis
      using policy_weight [OF s3_okD(5) [OF ok]] policy_size [of ?cfg "view m" _ _ _ True] Suc.prems(2,8) m'(3)
      by fastforce
  qed
  moreover have "\<not> overLimit (evictPasses v (\<lambda>_. False) k m')" if "\<not> fifoOver ?cfg (view m)"
  proof -
    have stay: "\<not> overLimit a \<Longrightarrow> evictPasses v (\<lambda>_. False) j a = a" for a j
      by (induction j) (simp_all add: maybeEvict_def decide_def)
    have "choice ?cfg (view m) = None" using that by (simp add: choice_def)
    then have "view m' = view m" using m'(3) by (simp add: policy_def)
    then have "\<not> overLimit m'" using counters_over [OF s3_okD(6) [OF m'(1)]] that m'(2) by simp
    then show ?thesis by (simp add: stay)
  qed
  ultimately show ?case
    using Suc.IH [OF m'(1)] m'(2,4) free Suc.prems(3-5) run by auto
qed

section \<open>Admission\<close>

text \<open>A hash of the ghost set goes to the main queue, any other to the head of the small queue, where
  it may already be: it is moved there and not counted again.\<close>

definition admit :: "string \<Rightarrow> fifo \<Rightarrow> fifo" where
  "admit h s =
     (if h \<in> set (f_ghost s)
      then s\<lparr>f_main := f_main s @ [h], f_ghost := filter (\<lambda>g. g \<noteq> h) (f_ghost s)\<rparr>
      else s\<lparr>f_small := filter (\<lambda>g. g \<noteq> h) (f_small s) @ [h]\<rparr>)"

lemma Admit_ghost_spec:
  assumes ok: "s3_ok (Suc n) m" and ghost: "h \<in> set (gh (m_queues m))"
    and q: "queued_ok (blobs (m_metaDB m)) h" and size: "entrySize (blobs (m_metaDB m)) h = blobSize"
  shows "s3_ok n (Admit v m h blobSize) \<and> view (Admit v m h blobSize) = admit h (view m)
    \<and> m_config (Admit v m h blobSize) = m_config m \<and> m_metaDB (Admit v m h blobSize) = m_metaDB m
    \<and> m_backend (Admit v m h blobSize) = m_backend m"
proof -
  note D = s3_okD [OF ok]
  have gc: "qo_GhostContains (v_queues v) (m_queues m) h = Inr True"
    using queues.ghost_contains [OF D(1)] ghost by simp
  have new: "h \<notin> set (lst (m_queues m) QueueSmall)" "h \<notin> set (lst (m_queues m) QueueMain)"
    using D(5) ghost by (auto simp: fifo_ok_def)
  obtain q1 where q1: "qo_AdmitGhostHit (v_queues v) (m_queues m) h = (Inr True, q1)" "qinv q1" "room q1 n"
    "lst q1 = (lst (m_queues m))(QueueMain := lst (m_queues m) QueueMain @ [h])"
    "gh q1 = filter (\<lambda>y. y \<noteq> h) (gh (m_queues m))"
    using queues.ghost_hit [OF D(1,2) ghost] new by (auto simp: filter_absent)
  have len: "length (gh (m_queues m)) = Suc (length (gh q1))"
    using ghost queues.gh_distinct [OF D(1)] q1(5) by (simp add: filter_present(1))
  let ?m = "m\<lparr>m_queues := q1, m_mainBytes := m_mainBytes m + blobSize, m_mainLen := m_mainLen m + 1,
              m_ghostLen := floor0 (m_ghostLen m - 1)\<rparr>"
  have eq: "Admit v m h blobSize = signalIfOver ?m" using gc q1(1) by (simp add: Admit_def)
  have vw: "view ?m = admit h (view m)"
    using ghost q1(4,5) by (simp add: admit_def fifoView_def)
  have "fifo_ok (view ?m)"
    using D(5) q1(4,5) new q unfolding vw by (auto simp: fifo_ok_def admit_def)
  moreover have "counters_ok (m_config ?m) (view ?m) ?m"
    using D(6) q1(4,5) size len by (simp add: counters_ok_def floor0_def)
  ultimately have "s3_ok n ?m" using D(3,4) q1(2,3) by (simp add: s3_ok_def parts_ok_def)
  then show ?thesis using vw unfolding eq by simp
qed

text \<open>Outside the ghost set the push is the only change; what is counted depends on what it replaced.\<close>

lemma Admit_push:
  assumes ok: "s3_ok (Suc n) m" and miss: "h \<notin> set (gh (m_queues m))" and q: "queued_ok (blobs (m_metaDB m)) h"
  obtains q1 where "qinv q1" "room q1 n" "gh q1 = gh (m_queues m)"
    "lst q1 = (lst (m_queues m))(QueueSmall := filter (\<lambda>g. g \<noteq> h) (lst (m_queues m) QueueSmall) @ [h])"
    "Admit v m h blobSize =
       (if h \<in> set (lst (m_queues m) QueueSmall) then m\<lparr>m_queues := q1\<rparr>
        else signalIfOver (m\<lparr>m_queues := q1, m_smallBytes := m_smallBytes m + blobSize, m_smallLen := m_smallLen m + 1\<rparr>))"
proof -
  note D = s3_okD [OF ok]
  have gc: "qo_GhostContains (v_queues v) (m_queues m) h = Inr False"
    using queues.ghost_contains [OF D(1)] miss by simp
  obtain q1 where q1: "qo_PushHead (v_queues v) (m_queues m) QueueSmall h = (Inr (h \<in> set (lst (m_queues m) QueueSmall)), q1)"
    "qinv q1" "room q1 n" "gh q1 = gh (m_queues m)"
    "lst q1 = (lst (m_queues m))(QueueSmall := filter (\<lambda>g. g \<noteq> h) (lst (m_queues m) QueueSmall) @ [h])"
    using queues.push [OF D(1,2) queued_valid [OF q], of QueueSmall] by auto
  show thesis by (rule that [OF q1(2-5)]) (simp add: Admit_def gc q1(1))
qed

lemma Admit_spec:
  assumes ok: "s3_ok (Suc n) m" and new: "h \<notin> set (lst (m_queues m) QueueMain)"
    and q: "queued_ok (blobs (m_metaDB m)) h"
    and size: "h \<notin> set (lst (m_queues m) QueueSmall) \<Longrightarrow> entrySize (blobs (m_metaDB m)) h = blobSize"
  shows "s3_ok n (Admit v m h blobSize) \<and> view (Admit v m h blobSize) = admit h (view m)
    \<and> m_config (Admit v m h blobSize) = m_config m \<and> m_metaDB (Admit v m h blobSize) = m_metaDB m
    \<and> m_backend (Admit v m h blobSize) = m_backend m"
proof (cases "h \<in> set (gh (m_queues m))")
  case True
  moreover from this have "h \<notin> set (lst (m_queues m) QueueSmall)"
    using s3_okD(5) [OF ok] by (auto simp: fifo_ok_def)
  ultimately show ?thesis using Admit_ghost_spec [OF ok _ q] size by blast
next
  case miss: False
  note D = s3_okD [OF ok]
  obtain q1 where q1: "qinv q1" "room q1 n" "gh q1 = gh (m_queues m)"
    "lst q1 = (lst (m_queues m))(QueueSmall := filter (\<lambda>g. g \<noteq> h) (lst (m_queues m) QueueSmall) @ [h])"
    "Admit v m h blobSize =
       (if h \<in> set (lst (m_queues m) QueueSmall) then m\<lparr>m_queues := q1\<rparr>
        else signalIfOver (m\<lparr>m_queues := q1, m_smallBytes := m_smallBytes m + blobSize, m_smallLen := m_smallLen m + 1\<rparr>))"
    by (rule Admit_push [OF ok miss q])
  let ?old = "m\<lparr>m_queues := q1\<rparr>"
  let ?new = "m\<lparr>m_queues := q1, m_smallBytes := m_smallBytes m + blobSize, m_smallLen := m_smallLen m + 1\<rparr>"
  have vw: "view ?old = admit h (view m)" "view ?new = admit h (view m)"
    using miss q1(3,4) by (simp_all add: admit_def fifoView_def)
  have fifo: "fifo_ok (admit h (view m))"
    using D(5) new q miss by (auto simp: fifo_ok_def admit_def)
  have parts: "parts_ok n ?old" "parts_ok n ?new" using D(3,4) q1(1,2) by (simp_all add: parts_ok_def)
  show ?thesis
  proof (cases "h \<in> set (lst (m_queues m) QueueSmall)")
    case True
    note p = filter_present [OF queues.lst_distinct [OF D(1), of QueueSmall] True]
    have "counters_ok (m_config ?old) (view ?old) ?old"
      using D(6) q1(3,4) p by (simp add: counters_ok_def)
    then have "s3_ok n ?old" using parts(1) fifo by (simp add: s3_ok_def vw)
    then show ?thesis using vw(1) True by (simp add: q1(5))
  next
    case False
    have "counters_ok (m_config ?new) (view ?new) ?new"
      using D(6) q1(3,4) size False by (simp add: counters_ok_def filter_absent)
    then have "s3_ok n ?new" using parts(2) fifo by (simp add: s3_ok_def vw)
    then show ?thesis using vw(2) False by (simp add: q1(5))
  qed
qed

text \<open>A hash of the main queue is queued a second time and its size is counted twice.\<close>

lemma Admit_main_spec:
  assumes ok: "s3_ok (Suc n) m" and main: "h \<in> set (lst (m_queues m) QueueMain)"
  shows "view (Admit v m h blobSize) = (view m)\<lparr>f_small := lst (m_queues m) QueueSmall @ [h]\<rparr>
    \<and> m_smallBytes (Admit v m h blobSize) = m_smallBytes m + blobSize
    \<and> m_smallLen (Admit v m h blobSize) = m_smallLen m + 1
    \<and> m_mainBytes (Admit v m h blobSize) = m_mainBytes m \<and> m_mainLen (Admit v m h blobSize) = m_mainLen m"
proof -
  have out: "h \<notin> set (gh (m_queues m))" "h \<notin> set (lst (m_queues m) QueueSmall)"
    and q: "queued_ok (blobs (m_metaDB m)) h"
    using s3_okD(5) [OF ok] main by (auto simp: fifo_ok_def)
  obtain q1 where q1: "gh q1 = gh (m_queues m)"
    "lst q1 = (lst (m_queues m))(QueueSmall := filter (\<lambda>g. g \<noteq> h) (lst (m_queues m) QueueSmall) @ [h])"
    "Admit v m h blobSize =
       (if h \<in> set (lst (m_queues m) QueueSmall) then m\<lparr>m_queues := q1\<rparr>
        else signalIfOver (m\<lparr>m_queues := q1, m_smallBytes := m_smallBytes m + blobSize, m_smallLen := m_smallLen m + 1\<rparr>))"
    by (rule Admit_push [OF ok out(1) q])
  then show ?thesis
    using out(2) by (simp add: fifoView_def filter_absent signalIfOver_def)
qed

section \<open>Removal\<close>

text \<open>\<open>Remove\<close> is called when the entry of the blob is gone: the hash is still queued, and the
  counters still include the size it had.\<close>

definition forget :: "string \<Rightarrow> fifo \<Rightarrow> fifo" where
  "forget h s =
     s\<lparr>f_small := filter (\<lambda>g. g \<noteq> h) (f_small s), f_main := filter (\<lambda>g. g \<noteq> h) (f_main s),
       f_ghost := filter (\<lambda>g. g \<noteq> h) (f_ghost s), f_blobs := (f_blobs s)(h := None)\<rparr>"

text \<open>What the counters of a queue say when the blob map is \<open>B\<close>.\<close>

definition queue_counted :: "blob_map \<Rightarrow> queue \<Rightarrow> ('q, 'd, 'b) s3 \<Rightarrow> bool" where
  "queue_counted B x m \<longleftrightarrow>
     (case x of
        QueueSmall \<Rightarrow> m_smallLen m = int (length (lst (m_queues m) x)) \<and> m_smallBytes m = fifoBytes B (lst (m_queues m) x)
      | QueueMain \<Rightarrow> m_mainLen m = int (length (lst (m_queues m) x)) \<and> m_mainBytes m = fifoBytes B (lst (m_queues m) x))"

lemma removeFrom_spec:
  assumes inv: "qinv (m_queues m)" "room (m_queues m) n" and cnt: "\<And>y. queue_counted B y m"
    and pos: "\<And>g y. g \<in> set (lst (m_queues m) y) \<Longrightarrow> entrySize B g \<ge> 0"
    and size: "h \<in> set (lst (m_queues m) x) \<Longrightarrow> blobSize = entrySize B h"
    and r: "removeFrom v x h blobSize m = m'"
  shows "qinv (m_queues m') \<and> room (m_queues m') n \<and> gh (m_queues m') = gh (m_queues m)
    \<and> lst (m_queues m') = (lst (m_queues m))(x := filter (\<lambda>y. y \<noteq> h) (lst (m_queues m) x))
    \<and> (\<forall>y. queue_counted B y m')
    \<and> m_config m' = m_config m \<and> m_metaDB m' = m_metaDB m \<and> m_backend m' = m_backend m
    \<and> m_ghostLen m' = m_ghostLen m"
proof -
  let ?xs = "lst (m_queues m) x"
  obtain q where q: "qo_Remove (v_queues v) (m_queues m) x h = (Inr (h \<in> set ?xs), q)" "qinv q" "room q n"
    "lst q = (lst (m_queues m))(x := filter (\<lambda>y. y \<noteq> h) ?xs)" "gh q = gh (m_queues m)"
    using queues.remove [OF inv] by blast
  show ?thesis
  proof (cases "h \<in> set ?xs")
    case False
    then have m': "m' = m\<lparr>m_queues := q\<rparr>" and same: "lst q = lst (m_queues m)"
      using r q by (simp_all add: removeFrom_def filter_absent fun_upd_idem)
    moreover have "queue_counted B y (m\<lparr>m_queues := q\<rparr>)" for y
      using cnt [of y] same by (cases y) (simp_all add: queue_counted_def)
    ultimately show ?thesis using q False by (simp add: filter_absent fun_upd_idem)
  next
    case True
    note fp = filter_present [OF queues.lst_distinct [OF inv(1)] True]
    have nn: "fifoBytes B (filter (\<lambda>y. y \<noteq> h) ?xs) \<ge> 0"
      unfolding fifoBytes_def by (intro sum_list_nonneg) (use pos in auto)
    have m': "m' = (case x of
          QueueSmall \<Rightarrow> m\<lparr>m_queues := q, m_smallLen := m_smallLen m - 1, m_smallBytes := m_smallBytes m - blobSize\<rparr>
        | QueueMain \<Rightarrow> m\<lparr>m_queues := q, m_mainLen := m_mainLen m - 1, m_mainBytes := m_mainBytes m - blobSize\<rparr>)"
      unfolding r [symmetric] using True q(1) cnt [of x] fp(1) fp(2) [of B] nn size [OF True]
      by (cases x) (simp_all add: removeFrom_def queue_counted_def floor0_def)
    moreover have "queue_counted B y m'" for y
      unfolding m' using cnt [of y] q(4) fp(1) fp(2) [of B] size [OF True]
      by (cases x; cases y) (simp_all add: queue_counted_def)
    ultimately show ?thesis using q by (cases x) simp_all
  qed
qed

lemma Remove_spec:
  assumes ok: "s3_ok n m" and d: "dinv d" "blobs d = (blobs (m_metaDB m))(h := None)"
    and size: "blobSize = entrySize (blobs (m_metaDB m)) h"
    and r: "Remove_blob v (m\<lparr>m_metaDB := d\<rparr>) h blobSize = m'"
  shows "s3_ok n m' \<and> view m' = forget h (view m) \<and> m_config m' = m_config m \<and> m_metaDB m' = d
    \<and> m_backend m' = m_backend m"
proof -
  note D = s3_okD [OF ok]
  let ?B = "blobs (m_metaDB m)" and ?m = "m\<lparr>m_metaDB := d\<rparr>"
  have "queued_ok ?B g" if "g \<in> set (lst (m_queues m) y)" for g y
    using D(5) that by (cases y) (auto simp: fifo_ok_def)
  then have pos: "entrySize ?B g \<ge> 0" if "g \<in> set (lst (m_queues m) y)" for g y
    using that by (force simp: queued_ok_def entrySize_def)
  have c0: "queue_counted ?B y ?m" for y using D(6) by (cases y) (simp_all add: queue_counted_def counters_ok_def)
  obtain m1 where r1: "removeFrom v QueueSmall h blobSize ?m = m1" by simp
  have s1: "qinv (m_queues m1)" "room (m_queues m1) n" "gh (m_queues m1) = gh (m_queues m)" "\<And>y. queue_counted ?B y m1"
    "lst (m_queues m1) = (lst (m_queues m))(QueueSmall := filter (\<lambda>y. y \<noteq> h) (lst (m_queues m) QueueSmall))"
    and f1: "m_config m1 = m_config m" "m_metaDB m1 = d" "m_backend m1 = m_backend m" "m_ghostLen m1 = m_ghostLen m"
    using removeFrom_spec [OF _ _ c0 _ size r1, of n] D(1,2) pos by simp_all
  obtain m2 where r2: "removeFrom v QueueMain h blobSize m1 = m2" by simp
  have pos1: "entrySize ?B g \<ge> 0" if "g \<in> set (lst (m_queues m1) y)" for g y
    using pos that s1(5) by (cases y) auto
  have s2: "qinv (m_queues m2)" "room (m_queues m2) n" "gh (m_queues m2) = gh (m_queues m)" "\<And>y. queue_counted ?B y m2"
    "lst (m_queues m2) = (\<lambda>y. filter (\<lambda>g. g \<noteq> h) (lst (m_queues m) y))"
    and f2: "m_config m2 = m_config m" "m_metaDB m2 = d" "m_backend m2 = m_backend m" "m_ghostLen m2 = m_ghostLen m"
    using removeFrom_spec [OF s1(1,2,4) pos1 size r2] s1(3,5) f1
    by (auto simp: fun_eq_iff split: queue.splits) (metis queue.exhaust)
  have gc: "qo_GhostContains (v_queues v) (m_queues m2) h = Inr (h \<in> set (gh (m_queues m)))"
    using queues.ghost_contains [OF s2(1)] s2(3) by simp
  have gl: "m_ghostLen m2 = int (length (gh (m_queues m)))" using D(6) f2 by (simp add: counters_ok_def)
  obtain q3 where q3: "qinv q3" "room q3 n" "lst q3 = lst (m_queues m2)"
      "gh q3 = filter (\<lambda>g. g \<noteq> h) (gh (m_queues m))"
    and m': "m' = m2\<lparr>m_queues := q3, m_ghostLen := int (length (gh q3))\<rparr>"
  proof (cases "h \<in> set (gh (m_queues m))")
    case True
    obtain q3 where "qo_GhostRemove (v_queues v) (m_queues m2) h = (Inr (), q3)" "qinv q3" "room q3 n"
      "lst q3 = lst (m_queues m2)" "gh q3 = filter (\<lambda>g. g \<noteq> h) (gh (m_queues m2))"
      using queues.ghost_remove [OF s2(1,2)] by blast
    moreover have "length (gh (m_queues m)) = Suc (length (filter (\<lambda>g. g \<noteq> h) (gh (m_queues m))))"
      using filter_present(1) [OF queues.gh_distinct [OF D(1)] True] .
    ultimately show ?thesis
      using that [of q3] r r1 r2 gc True s2(3) gl by (simp add: Remove_blob_def floor0_def Let_def)
  next
    case False
    then have "m' = m2" using r r1 r2 gc by (simp add: Remove_blob_def Let_def)
    then show ?thesis using that [of "m_queues m2"] s2 False gl by (simp add: filter_absent)
  qed
  have vw: "view m' = forget h (view m)"
    using m' q3(3,4) s2(5) f2(2) d(2) by (simp add: forget_def fifoView_def)
  have "fifo_ok (forget h (view m))"
    using D(5) by (auto simp: fifo_ok_def forget_def intro: queued_ok_upd simp del: fun_upd_apply)
  moreover have "counters_ok (m_config m') (view m') m'"
  proof -
    have "fifoBytes (?B(h := None)) (filter (\<lambda>g. g \<noteq> h) xs) = fifoBytes ?B (filter (\<lambda>g. g \<noteq> h) xs)" for xs
      by (rule fifoBytes_upd_other) simp
    then show ?thesis
      using s2(4) [of QueueSmall] s2(4) [of QueueMain] s2(5) m' q3(3,4)
      unfolding vw by (simp add: counters_ok_def forget_def queue_counted_def del: fun_upd_apply)
  qed
  ultimately show ?thesis
    using vw m' q3(1,2) d(1) D(4) f2 by (simp add: s3_ok_def parts_ok_def)
qed

section \<open>Restart\<close>

text \<open>A new manager counts what the stored queues hold.\<close>

lemma sumSizes_eq: "dinv d \<Longrightarrow> sumSizes (v_metaDB v) d hs = fifoBytes (blobs d) hs"
  by (induction hs) (simp_all add: blobs.get_blob entrySize_def split: option.splits)

lemma NewManager_spec:
  assumes inv: "qinv q" "room q n" "dinv d" "binv b" and cfg: "0 < MaxSize cfg" "SmallQueuePercent cfg \<le> 100"
    and ok: "fifo_ok \<lparr>f_small = lst q QueueSmall, f_main = lst q QueueMain, f_ghost = gh q, f_blobs = blobs d\<rparr>"
  shows "\<exists>m. NewManager v q d b cfg = Inr m \<and> s3_ok n m \<and> m_queues m = q \<and> m_metaDB m = d \<and> m_backend m = b
    \<and> MaxSize (m_config m) = MaxSize cfg \<and> GhostMaxEntries (m_config m) = GhostMaxEntries cfg
    \<and> 0 < SmallQueuePercent (m_config m) \<and> SmallQueuePercent (m_config m) \<le> 100"
proof -
  have "\<exists>m. NewManager v q d b cfg = Inr m"
    using cfg by (auto simp: NewManager_def recomputeState_def queues.for_each [OF inv(1)]
        queues.ghost_len [OF inv(1)] Let_def defaultSmallQueuePercent_def)
  then obtain m where m: "NewManager v q d b cfg = Inr m" by blast
  have parts: "m_queues m = q" "m_metaDB m = d" "m_backend m = b"
    "m_smallBytes m = fifoBytes (blobs d) (lst q QueueSmall)" "m_mainBytes m = fifoBytes (blobs d) (lst q QueueMain)"
    "m_smallLen m = int (length (lst q QueueSmall))" "m_mainLen m = int (length (lst q QueueMain))"
    "m_ghostLen m = int (length (gh q))" "MaxSize (m_config m) = MaxSize cfg"
    "GhostMaxEntries (m_config m) = GhostMaxEntries cfg"
    "0 < SmallQueuePercent (m_config m)" "SmallQueuePercent (m_config m) \<le> 100"
    using m cfg
    by (auto simp: NewManager_def recomputeState_def queues.for_each [OF inv(1)] sumSizes_eq [OF inv(3)]
        queues.ghost_len [OF inv(1)] Let_def defaultSmallQueuePercent_def split: if_splits)
  have "view m = \<lparr>f_small = lst q QueueSmall, f_main = lst q QueueMain, f_ghost = gh q, f_blobs = blobs d\<rparr>"
    using parts by (simp add: fifoView_def)
  then have "fifo_ok (view m)" using ok by simp
  then show ?thesis using m parts inv by (intro exI [of _ m]) (simp add: s3_ok_def parts_ok_def counters_ok_def)
qed

section \<open>Changes by others\<close>

text \<open>The database may change the counters and times of the entries, and may gain entries.\<close>

lemma s3_ok_metaDB:
  assumes ok: "s3_ok n m" and d: "dinv d"
    and same: "\<And>h. h \<in> set (lst (m_queues m) QueueSmall) \<union> set (lst (m_queues m) QueueMain) \<Longrightarrow>
      queued_ok (blobs d) h \<and> entrySize (blobs d) h = entrySize (blobs (m_metaDB m)) h"
    and b: "binv b"
  shows "s3_ok n (m\<lparr>m_metaDB := d, m_backend := b\<rparr>)"
proof -
  have "fifoBytes (blobs d) (lst (m_queues m) x) = fifoBytes (blobs (m_metaDB m)) (lst (m_queues m) x)" for x
    using same by (intro fifoBytes_cong) (cases x; simp)
  then show ?thesis
    using s3_okD [OF ok] d b same by (simp add: s3_ok_def parts_ok_def fifo_ok_def counters_ok_def)
qed

end

section \<open>The server's instance\<close>

definition serverEnv :: "header_codec \<Rightarrow> (string \<Rightarrow> string) \<Rightarrow> (queues, db, fs) s3_env" where
  "serverEnv c U = \<lparr>v_queues = boltQueues, v_metaDB = boltBlobs, v_backend = filesystem c, v_unicode = U\<rparr>"

interpretation s3: eviction "serverEnv c U" queues_inv queues_room queueList ghostList blobs_inv blobMap
    fs_inv fs_healthy fs_content listedKey for c U
  unfolding eviction_def
  by (simp add: serverEnv_def bolt_queues.queues_contract_axioms bolt_blobs.blobs_contract_axioms
      filesystem.backend_contract_axioms)

abbreviation managerView :: "(queues, db, fs) s3 \<Rightarrow> fifo" where
  "managerView \<equiv> fifoView queueList ghostList blobMap"

text \<open>The manager's invariant, with room for \<open>n\<close> insertions.\<close>

definition manager_ok :: "nat \<Rightarrow> (queues, db, fs) s3 \<Rightarrow> bool" where
  "manager_ok n m \<longleftrightarrow>
     queues_inv (m_queues m) \<and> queues_room (m_queues m) n \<and> blobs_inv (m_metaDB m) \<and> fs_inv (m_backend m)
     \<and> fifo_ok (managerView m) \<and> counters_ok (m_config m) (managerView m) m"

lemma manager_ok_eq: "manager_ok n m = s3.s3_ok n m"
  by (auto simp: manager_ok_def s3.s3_ok_def s3.parts_ok_def)

end
