(* ===== verification/EvictionProperties.thy ===== *)
theory EvictionProperties
  imports Eviction StorageProperties
begin

text \<open>
  The properties of the eviction policy as the server runs it: over the bbolt queues, the bbolt
  database and the filesystem backend.
\<close>

section \<open>Runs of the manager\<close>

text \<open>What the manager goes through: it is created over stored queues; a blob with a row is
  admitted, which may be in the small queue already (then with any size); a blob whose row was
  deleted is removed, with the size of that row; a pass of the background loop runs; the manager is
  created again over the stored queues; the database and the files change otherwise, while each
  queued blob keeps a row of its size. The index bounds the insertions that follow.\<close>

inductive manager_reach :: "header_codec \<Rightarrow> (string \<Rightarrow> string) \<Rightarrow> nat \<Rightarrow> (queues, db, fs) s3 \<Rightarrow> bool"
  for c U where
  reach_new: "blobs_inv d \<Longrightarrow> fs_inv b \<Longrightarrow> n < 2 ^ 64 \<Longrightarrow> NewManager (serverEnv c U) createQueues d b cfg = Inr m \<Longrightarrow>
      manager_reach c U n m"
| reach_admit: "manager_reach c U (Suc n) m \<Longrightarrow> queued_ok (blobMap (m_metaDB m)) h \<Longrightarrow>
      h \<notin> set (f_main (managerView m)) \<Longrightarrow>
      h \<in> set (f_small (managerView m)) \<or> sz = entrySize (blobMap (m_metaDB m)) h \<Longrightarrow>
      manager_reach c U n (Admit (serverEnv c U) m h sz)"
| reach_remove: "manager_reach c U n m \<Longrightarrow> DeleteBlob (m_metaDB m) h = (Inr (), d) \<Longrightarrow>
      manager_reach c U n (Remove_blob (serverEnv c U) (m\<lparr>m_metaDB := d\<rparr>) h (entrySize (blobMap (m_metaDB m)) h))"
| reach_pass: "manager_reach c U (length (f_small (managerView m)) + length (f_main (managerView m)) + Suc n) m \<Longrightarrow>
      manager_reach c U n (snd (maybeEvict (serverEnv c U) (\<lambda>_. False) m))"
| reach_restart: "manager_reach c U n m \<Longrightarrow>
      NewManager (serverEnv c U) (m_queues m) (m_metaDB m) (m_backend m) cfg = Inr m' \<Longrightarrow> manager_reach c U n m'"
| reach_others: "manager_reach c U n m \<Longrightarrow> blobs_inv d \<Longrightarrow> fs_inv b \<Longrightarrow>
      (\<And>h. h \<in> set (f_small (managerView m)) \<union> set (f_main (managerView m)) \<Longrightarrow>
        queued_ok (blobMap d) h \<and> entrySize (blobMap d) h = entrySize (blobMap (m_metaDB m)) h) \<Longrightarrow>
      manager_reach c U n (m\<lparr>m_metaDB := d, m_backend := b\<rparr>)"

lemma manager_okI: "s3.s3_ok n m \<Longrightarrow> manager_ok n m" and manager_okD: "manager_ok n m \<Longrightarrow> s3.s3_ok n m"
  by (simp_all add: manager_ok_eq)

lemma NewManager_config:
  "NewManager v q d b cfg = Inr m \<Longrightarrow> 0 < MaxSize cfg \<and> SmallQueuePercent cfg \<le> 100"
  by (auto simp: NewManager_def defaultSmallQueuePercent_def Let_def split: if_splits)

lemma queues_create: "queues_room createQueues n \<longleftrightarrow> n < 2 ^ 64" "queueList createQueues x = []"
  "ghostList createQueues = []"
  by (cases x; simp add: queues_room_def createQueues_def queueList_def ghostList_def hashes_def)+

lemma manager_reach_ok: "manager_reach c U n m \<Longrightarrow> manager_ok n m"
proof (induction rule: manager_reach.induct)
  case (reach_new d b n cfg m)
  then show ?case
    using s3.NewManager_spec [of createQueues n d b cfg c U] NewManager_config [OF reach_new(4)]
    by (auto simp: manager_ok_eq queues_create queues_inv_create fifo_ok_def)
next
  case (reach_admit n m h sz)
  then show ?case using s3.Admit_spec [of n m h sz c U] by (auto simp: manager_ok_eq)
next
  case (reach_remove n m h d)
  have "blobs_inv (m_metaDB m)" using reach_remove.IH by (simp add: manager_ok_def)
  then obtain d' where "DeleteBlob (m_metaDB m) h = (Inr (), d')" "blobs_inv d'"
      "blobMap d' = (blobMap (m_metaDB m))(h := None)"
    using bolt_blobs.del_blob [of "m_metaDB m" h] unfolding boltBlobs_def blob_ops.simps by blast
  moreover from this have "d' = d" using reach_remove.hyps(2) by simp
  ultimately have d: "blobs_inv d" "blobMap d = (blobMap (m_metaDB m))(h := None)" by simp_all
  show ?case using s3.Remove_spec [OF manager_okD [OF reach_remove.IH] d refl refl] by (rule manager_okI [OF conjunct1])
next
  case (reach_pass m n)
  obtain acted err m' where run: "maybeEvict (serverEnv c U) (\<lambda>_. False) m = ((acted, err), m')"
    by (metis prod.collapse)
  show ?case using s3.maybeEvict_spec [OF _ run, of n] reach_pass run by (auto simp: manager_ok_eq)
next
  case (reach_restart n m cfg m')
  have "fifo_ok (managerView m)" using reach_restart by (simp add: manager_ok_def)
  then show ?case
    using s3.NewManager_spec [of "m_queues m" n "m_metaDB m" "m_backend m" cfg c U]
      NewManager_config [OF reach_restart(2)] reach_restart
      s3.s3_okD [OF manager_okD [OF reach_restart(3)]]
    by (auto simp: manager_ok_eq fifoView_def)
next
  case (reach_others n m d b)
  then show ?case using s3.s3_ok_metaDB [of n m d b] by (simp add: manager_ok_eq)
qed

text \<open>C26: whatever the manager goes through, its counters are exact: the lengths of the stored queues
  and of the ghost set, and the total sizes of the queued blobs as the database has them; and no
  hash is in two queues, or in a queue and in the ghost set. A blob admitted again while it is in
  the small queue is moved, not counted again. Left out of what the manager goes through are
  admissions of a blob of the main queue (see the end of this theory), removals with another size
  than the deleted row had, and queued blobs that lose their row without a removal.\<close>

theorem eviction_counters_exact:
  assumes "manager_reach c U n m"
  shows "m_smallLen m = int (length (queueList (m_queues m) QueueSmall))
    \<and> m_mainLen m = int (length (queueList (m_queues m) QueueMain))
    \<and> m_ghostLen m = int (length (ghostList (m_queues m)))
    \<and> m_smallBytes m = fifoBytes (blobMap (m_metaDB m)) (queueList (m_queues m) QueueSmall)
    \<and> m_mainBytes m = fifoBytes (blobMap (m_metaDB m)) (queueList (m_queues m) QueueMain)
    \<and> distinct (queueList (m_queues m) QueueSmall @ queueList (m_queues m) QueueMain @ ghostList (m_queues m))"
  using manager_reach_ok [OF assms] by (simp add: manager_ok_def counters_ok_def fifo_ok_def)

section \<open>A sample manager\<close>

definition cfg0 :: s3_config where
  "cfg0 = \<lparr>MaxSize = 10, SmallQueuePercent = 10, GhostMaxEntries = 0, CheckInterval = 1\<rparr>"

lemma blobs_db23:
  "blobMap db2 = [ref0 \<mapsto> blob0 0, ref1 \<mapsto> blob1]" "blobMap db3 = [ref0 \<mapsto> blob0 1, ref1 \<mapsto> blob1]"
  "blobs_inv db2" "blobs_inv db3"
  using db_reach_good [OF reach_db2] db_reach_good [OF reach_db3]
  by (auto simp: fun_eq_iff blobMap_def db2_def db3_def db1_def blobs_inv_def)

lemma queued_samples:
  assumes "B ref0 = Some (blob0 n)" "B ref1 = Some blob1"
  shows "queued_ok B ref0" "queued_ok B ref1" "entrySize B ref0 = 5" "entrySize B ref1 = 7"
  using assms is_hash_samples
  by (auto simp: queued_ok_def entrySize_def ref0_def ref1_def blob0_def blob1_def)

text \<open>Over either database: the two blobs were admitted, in order, and are over the limit of 10.\<close>

lemma sample_manager:
  assumes d: "blobs_inv d" "blobMap d ref0 = Some (blob0 k)" "blobMap d ref1 = Some blob1" and n: "n < 1000"
  shows "\<exists>m. manager_reach c U n m \<and> m_metaDB m = d \<and> m_backend m = fs0 \<and> m_config m = cfg0
    \<and> managerView m = \<lparr>f_small = [ref0, ref1], f_main = [], f_ghost = [], f_blobs = blobMap d\<rparr>"
proof -
  note q = queued_samples [of "blobMap d", OF d(2,3)]
  obtain m0 where m0: "NewManager (serverEnv c U) createQueues d fs0 cfg0 = Inr m0" "m_queues m0 = createQueues"
    "m_metaDB m0 = d" "m_backend m0 = fs0"
    using s3.NewManager_spec [of createQueues n d fs0 cfg0 c U] d(1) n
    by (auto simp: queues_create queues_inv_create fifo_ok_def cfg0_def)
  then have cfg: "m_config m0 = cfg0"
    by (auto simp: NewManager_def Let_def cfg0_def recomputeState_def serverEnv_def boltQueues_def split: if_splits)
  have r0: "manager_reach c U (Suc (Suc n)) m0" using reach_new [OF d(1) fs0_ok(1) _ m0(1)] n by simp
  have v0: "managerView m0 = \<lparr>f_small = [], f_main = [], f_ghost = [], f_blobs = blobMap d\<rparr>"
    using m0 by (simp add: fifoView_def queues_create)
  let ?m1 = "Admit (serverEnv c U) m0 ref0 5"
  have r1: "manager_reach c U (Suc n) ?m1"
    using reach_admit [OF r0, of ref0 5] q m0 by (simp add: queues_create)
  have v1: "managerView ?m1 = \<lparr>f_small = [ref0], f_main = [], f_ghost = [], f_blobs = blobMap d\<rparr>"
      "m_config ?m1 = cfg0" "m_metaDB ?m1 = d" "m_backend ?m1 = fs0"
    using s3.Admit_spec [OF manager_okD [OF manager_reach_ok [OF r0]], of ref0 5 c U] q m0 v0 cfg
    by (simp_all add: queues_create s3.admit_def)
  have l1: "queueList (m_queues ?m1) QueueSmall = [ref0]" "queueList (m_queues ?m1) QueueMain = []"
      "ghostList (m_queues ?m1) = []" "blobMap (m_metaDB ?m1) = blobMap d"
    using v1(1) by (simp_all add: fifoView_def)
  let ?m2 = "Admit (serverEnv c U) ?m1 ref1 7"
  have r2: "manager_reach c U n ?m2" using reach_admit [OF r1, of ref1 7] q l1 by simp
  have "managerView ?m2 = \<lparr>f_small = [ref0, ref1], f_main = [], f_ghost = [], f_blobs = blobMap d\<rparr>"
      "m_config ?m2 = cfg0" "m_metaDB ?m2 = d" "m_backend ?m2 = fs0"
    using s3.Admit_spec [OF manager_okD [OF manager_reach_ok [OF r1]], of ref1 7 c U] q l1 v1
    by (simp_all add: s3.admit_def)
  then show ?thesis using r2 by blast
qed

text \<open>The first blob is admitted once more, with a wrong size: it moves and the counters stay.\<close>

theorem eviction_counters_exact_witness:
  "\<exists>m. manager_reach codec0 id 7 m \<and> queueList (m_queues m) QueueSmall = [ref0, ref1]
     \<and> (let m' = Admit (serverEnv codec0 id) m ref0 99
        in queueList (m_queues m') QueueSmall = [ref1, ref0]
          \<and> m_smallLen m' = 2 \<and> m_smallBytes m' = 12 \<and> m_mainLen m' = 0 \<and> m_ghostLen m' = 0)"
proof -
  obtain m where m: "manager_reach codec0 id 7 m" "m_metaDB m = db2"
    "managerView m = \<lparr>f_small = [ref0, ref1], f_main = [], f_ghost = [], f_blobs = blobMap db2\<rparr>"
    using sample_manager [of db2 0 7 codec0 id] blobs_db23 by auto
  then have l: "queueList (m_queues m) QueueSmall = [ref0, ref1]" "queueList (m_queues m) QueueMain = []"
    "ghostList (m_queues m) = []" by (simp_all add: fifoView_def)
  note q = queued_samples [of "blobMap db2" 0]
  let ?m = "Admit (serverEnv codec0 id) m ref0 99"
  have r: "manager_reach codec0 id 6 ?m"
    using reach_admit [of codec0 id 6 m ref0 99] m(1,2) l q blobs_db23(1) by simp
  have "managerView ?m = s3.admit ref0 (managerView m)" "m_metaDB ?m = db2"
    using s3.Admit_spec [of 6 m ref0 99 codec0 id] manager_okD [OF manager_reach_ok [OF m(1)]] m(2) l q blobs_db23(1)
    by simp_all
  then have "queueList (m_queues ?m) QueueSmall = [ref1, ref0]" "queueList (m_queues ?m) QueueMain = []"
    "ghostList (m_queues ?m) = []" "m_metaDB ?m = db2"
    by (simp_all add: fifoView_def s3.admit_def l)
  moreover have "entrySize (blobMap db2) ref0 = 5" "entrySize (blobMap db2) ref1 = 7"
    using q blobs_db23(1) by simp_all
  ultimately show ?thesis
    using eviction_counters_exact [OF r] m(1) l(1) by (intro exI [of _ m]) (simp add: Let_def)
qed

section \<open>A pass\<close>

text \<open>C25: a pass of the background loop is one step of the S3-FIFO policy on the contents of the
  queues: over the limit, the oldest blob of the small queue that no envelope names is evicted,
  or promoted when it was read, while that queue is over its share, and else the main queue
  gives one up or a second chance; at most that blob's file goes. When the file cannot be
  deleted nothing is lost: the blob is queued again and the error is returned.\<close>

theorem eviction_policy:
  assumes reach: "manager_reach c U
      (length (queueList (m_queues m) QueueSmall) + length (queueList (m_queues m) QueueMain) + Suc n) m"
    and run: "maybeEvict (serverEnv c U) (\<lambda>_. False) m = ((acted, err), m')"
  shows "\<exists>deleted. managerView m' = policy (m_config m) deleted (managerView m) \<and> m_config m' = m_config m
    \<and> (err = None \<longleftrightarrow> deleted) \<and> (fs_healthy (m_backend m) \<longrightarrow> deleted)
    \<and> (acted \<longleftrightarrow> deleted \<and> choice (m_config m) (managerView m) \<noteq> None)
    \<and> (\<forall>g. is_hash g \<longrightarrow> fs_content (m_backend m') g =
          (if victim (m_config m) deleted (managerView m) = Some (BlobRef_String (NewBlobRef g)) then None
           else fs_content (m_backend m) g))"
  using s3.maybeEvict_spec [OF manager_okD [OF manager_reach_ok [OF reach]] run] by blast

lemma sample_choice:
  "choice cfg0 \<lparr>f_small = [ref0, ref1], f_main = [], f_ghost = [], f_blobs = blobMap db3\<rparr>
     = Some (QueueSmall, ref1, [ref0])"
  using queued_samples [of "blobMap db3" 1] blobs_db23(2)
  by (simp add: choice_def fifoOver_def cfg0_def smallTarget_def int64_id candidate_def pinned_def)

theorem eviction_policy_witness:
  "\<exists>m m'. manager_reach codec0 id 7 m \<and> maybeEvict (serverEnv codec0 id) (\<lambda>_. False) m = ((True, None), m')
     \<and> managerView m = \<lparr>f_small = [ref0, ref1], f_main = [], f_ghost = [], f_blobs = [ref0 \<mapsto> blob0 1, ref1 \<mapsto> blob1]\<rparr>
     \<and> managerView m' = \<lparr>f_small = [ref0], f_main = [], f_ghost = [ref1], f_blobs = [ref0 \<mapsto> blob0 1]\<rparr>"
proof -
  obtain m where m: "manager_reach codec0 id 7 m" "m_backend m = fs0" "m_config m = cfg0"
    "managerView m = \<lparr>f_small = [ref0, ref1], f_main = [], f_ghost = [], f_blobs = blobMap db3\<rparr>"
    using sample_manager [of db3 1 7 codec0 id] blobs_db23 by auto
  then have l: "queueList (m_queues m) QueueSmall = [ref0, ref1]" "queueList (m_queues m) QueueMain = []"
    by (simp_all add: fifoView_def)
  obtain acted err m' where run: "maybeEvict (serverEnv codec0 id) (\<lambda>_. False) m = ((acted, err), m')"
    by (metis prod.collapse)
  have "managerView m' = policy cfg0 True (managerView m)" "err = None" "acted"
    using eviction_policy [of codec0 id m 4, OF _ run] m l sample_choice by auto
  moreover have "policy cfg0 True (managerView m)
      = \<lparr>f_small = [ref0], f_main = [], f_ghost = [ref1], f_blobs = [ref0 \<mapsto> blob0 1]\<rparr>"
  proof -
    have "remember cfg0 [] [] ref1 = [ref1]"
      by (simp add: remember_def ghostLimit_def cfg0_def ghostFloor_def)
    then show ?thesis
      unfolding m(4) using blobs_db23(2)
      by (simp add: policy_def sample_choice accessed_def evict_def without_def blob1_def fun_eq_iff)
  qed
  ultimately show ?thesis using m run blobs_db23(2) by auto
qed

text \<open>C24: no pass deletes a blob that an envelope names, neither its entry nor its file.\<close>

theorem eviction_spares_referenced:
  assumes reach: "manager_reach c U
      (length (queueList (m_queues m) QueueSmall) + length (queueList (m_queues m) QueueMain) + Suc n) m"
    and ref: "GetBlob (m_metaDB m) (BlobRef_String (NewBlobRef g)) = Inr e" "be_RefCount e > 0" "is_hash g"
  defines "m' \<equiv> snd (maybeEvict (serverEnv c U) (\<lambda>_. False) m)"
  shows "GetBlob (m_metaDB m') (BlobRef_String (NewBlobRef g)) = Inr e
    \<and> fs_content (m_backend m') g = fs_content (m_backend m) g"
proof -
  let ?h = "BlobRef_String (NewBlobRef g)"
  note ok = manager_okD [OF manager_reach_ok [OF reach]]
  have inv: "blobs_inv (m_metaDB m)" using s3.s3_okD(3) [OF ok] .
  have e: "blobMap (m_metaDB m) ?h = Some e"
    using bolt_blobs.get_blob [OF inv, of ?h] ref(1) by (simp add: boltBlobs_def split: option.splits)
  then have pin: "pinned (f_blobs (managerView m)) ?h" using ref(2) by (simp add: pinned_def)
  obtain acted err where run: "maybeEvict (serverEnv c U) (\<lambda>_. False) m = ((acted, err), m')"
    unfolding m'_def by (metis prod.collapse)
  obtain deleted where d: "s3.s3_ok n m'" "managerView m' = policy (m_config m) deleted (managerView m)"
    "fs_content (m_backend m') g =
          (if victim (m_config m) deleted (managerView m) = Some ?h then None else fs_content (m_backend m) g)"
    using s3.maybeEvict_spec [OF ok run] ref(3) by blast
  have "blobMap (m_metaDB m') ?h = Some e"
    using policy_keeps_pinned [OF pin, of "m_config m" deleted] d(2) e by (metis fifoView_simps(4))
  moreover have "victim (m_config m) deleted (managerView m) \<noteq> Some ?h"
    using pin victim_unpinned by blast
  moreover have "blobs_inv (m_metaDB m')" using s3.s3_okD(3) [OF d(1)] .
  ultimately show ?thesis
    using d(3) bolt_blobs.get_blob [of "m_metaDB m'" ?h] by (simp add: boltBlobs_def)
qed

theorem eviction_spares_referenced_witness:
  "\<exists>m. manager_reach codec0 id 7 m \<and> overLimit m \<and> queueList (m_queues m) QueueSmall = [ref0, ref1]
     \<and> GetBlob (m_metaDB (snd (maybeEvict (serverEnv codec0 id) (\<lambda>_. False) m))) ref0 = Inr (blob0 1)"
proof -
  obtain m where m: "manager_reach codec0 id 7 m" "m_metaDB m = db3" "m_config m = cfg0"
    "managerView m = \<lparr>f_small = [ref0, ref1], f_main = [], f_ghost = [], f_blobs = blobMap db3\<rparr>"
    using sample_manager [of db3 1 7 codec0 id] blobs_db23 by auto
  then have l: "queueList (m_queues m) QueueSmall = [ref0, ref1]" "queueList (m_queues m) QueueMain = []"
    by (simp_all add: fifoView_def)
  have over: "overLimit m"
    using counters_over [OF s3.s3_okD(6) [OF manager_okD [OF manager_reach_ok [OF m(1)]]]] choiceD(1) [OF sample_choice] m(3,4)
    by simp
  have "GetBlob (m_metaDB m) (BlobRef_String (NewBlobRef hash0)) = Inr (blob0 1)"
    using m(2) by (simp add: GetBlob_def db3_def ref0_def [symmetric])
  then show ?thesis
    using eviction_spares_referenced [of codec0 id m 4 hash0 "blob0 1"] m(1) l over
    by (intro exI [of _ m]) (simp add: ref0_def [symmetric])
qed

section \<open>Repeated passes\<close>

text \<open>C27: when no queued blob is in use and the filesystem deletes, finitely many passes bring the
  cache under its limit: one for every read of a queued blob and at most two more for the blob.
  This holds for every limit and share, even where their product overflows 64 bits.\<close>

theorem eviction_converges:
  fixes m :: "(queues, db, fs) s3"
  defines "L \<equiv> length (queueList (m_queues m) QueueSmall) + length (queueList (m_queues m) QueueMain)"
  assumes reach: "manager_reach c U (Suc L * k) m"
    and cfg: "0 < MaxSize (m_config m)" "0 < SmallQueuePercent (m_config m)" "SmallQueuePercent (m_config m) \<le> 100"
    and free: "\<forall>h \<in> set (queueList (m_queues m) QueueSmall) \<union> set (queueList (m_queues m) QueueMain).
      \<not> pinned (blobMap (m_metaDB m)) h"
    and fs: "fs_healthy (m_backend m)" and k: "weight (managerView m) \<le> k"
  shows "\<not> overLimit (evictPasses (serverEnv c U) (\<lambda>_. False) k m)"
  using s3.passes_spec [of L k m c U] manager_okD [OF manager_reach_ok [OF reach]] cfg free fs k
  by (simp add: L_def s3.freeBlobs_def)

theorem eviction_converges_witness:
  "\<exists>m. overLimit m \<and> \<not> overLimit (evictPasses (serverEnv codec0 id) (\<lambda>_. False) 4 m)"
proof -
  obtain m where m: "manager_reach codec0 id 12 m" "m_metaDB m = db2" "m_config m = cfg0" "m_backend m = fs0"
    "managerView m = \<lparr>f_small = [ref0, ref1], f_main = [], f_ghost = [], f_blobs = blobMap db2\<rparr>"
    using sample_manager [of db2 0 12 codec0 id] blobs_db23 by auto
  then have l: "queueList (m_queues m) QueueSmall = [ref0, ref1]" "queueList (m_queues m) QueueMain = []"
    by (simp_all add: fifoView_def)
  have "fifoOver cfg0 (managerView m)"
    using queued_samples [of "blobMap db2" 0] blobs_db23(1) m(5) by (simp add: fifoOver_def cfg0_def)
  then have "overLimit m"
    using counters_over [OF s3.s3_okD(6) [OF manager_okD [OF manager_reach_ok [OF m(1)]]]] m(3) by simp
  moreover have "weight (managerView m) \<le> 4"
    unfolding m(5) using blobs_db23(1) by (simp add: weight_def reads_def blob0_def blob1_def)
  moreover have "\<forall>h \<in> {ref0, ref1}. \<not> pinned (blobMap db2) h" using blobs_db23(1) by (simp add: pinned_def)
  ultimately show ?thesis
    using eviction_converges [where m = m and k = 4 and c = codec0 and U = id] m l
    by (intro exI [of _ m]) (simp add: cfg0_def)
qed

section \<open>Between the decision and the deletion\<close>

text \<open>C28: the deletion does not look again: once a pass has decided, the blob is deleted whatever the
  database says by then, also when an envelope that names it was stored in between and its
  counter is positive.\<close>

theorem eviction_ignores_late_reference:
  assumes reach: "manager_reach c U
      (length (queueList (m_queues m) QueueSmall) + length (queueList (m_queues m) QueueMain) + n) m"
    and dec: "decide (serverEnv c U) (\<lambda>_. False) m = ((True, Some p, None), m1)"
    and between: "blobs_inv d" and fs: "fs_healthy (m_backend m)"
  shows "\<exists>m2 g. deleteFromBackend (serverEnv c U) (m1\<lparr>m_metaDB := d\<rparr>) (pe_hash p) = (Inr (), m2)
    \<and> pe_hash p = BlobRef_String (NewBlobRef g) \<and> GetBlob (m_metaDB m2) (pe_hash p) = Inl ErrNotFound
    \<and> fs_content (m_backend m2) g = None \<and> m_metaDB m2 = snd (DeleteBlob d (pe_hash p))"
proof -
  note ok = manager_okD [OF manager_reach_ok [OF reach]]
  obtain x h rest where ch: "choice (m_config m) (managerView m) = Some (x, h, rest)"
    using s3.decide_spec [OF ok, of c U] dec by (cases "choice (m_config m) (managerView m)") auto
  then have p: "pe_hash p = h" and m1: "s3.s3_ok n m1" "m_backend m1 = m_backend m"
    using s3.decide_spec [OF ok, of c U] dec by (auto simp: s3.evictable_def s3.pendingOf_def split: if_splits)
  have "h \<in> set (queueList (m_queues m) x)" using candidateD(2) [OF choiceD(2) [OF ch]] by simp
  then have "queued_ok (blobMap (m_metaDB m)) h"
    using s3.s3_okD(5) [OF ok] by (cases x) (auto simp: fifo_ok_def)
  then obtain g where g: "is_hash g" "h = BlobRef_String (NewBlobRef g)" by (auto simp: queued_ok_def)
  obtain r b where r: "bk_Delete (filesystem c) (m_backend m) (BlobStorageKey g) = (r, b)"
    by (cases "bk_Delete (filesystem c) (m_backend m) (BlobStorageKey g)")
  have b: "r = Inr ()" "fs_content b g = None"
    using filesystem.del_data [OF _ g(1) r] s3.s3_okD(4) [OF ok] fs g(1) by auto
  obtain d' where d': "DeleteBlob d h = (Inr (), d')" "blobs_inv d'" "blobMap d' = (blobMap d)(h := None)"
    using bolt_blobs.del_blob [OF between, of h] unfolding boltBlobs_def blob_ops.simps by blast
  have "br_hash (NewBlobRef g) = g" by (simp add: NewBlobRef_def)
  then have "deleteFromBackend (serverEnv c U) (m1\<lparr>m_metaDB := d\<rparr>) h = (Inr (), m1\<lparr>m_metaDB := d', m_backend := b\<rparr>)"
    using r b(1) d'(1) g m1(2) \<open>br_hash (NewBlobRef g) = g\<close>
    by (simp add: deleteFromBackend_def serverEnv_def boltBlobs_def)
  moreover have "GetBlob d' h = Inl ErrNotFound"
    using bolt_blobs.get_blob [OF d'(2), of h] d'(3) by (simp add: boltBlobs_def)
  ultimately show ?thesis using p g(2) b(2) d'(1) by auto
qed

theorem eviction_ignores_late_reference_witness:
  "\<exists>m p m1 m2. manager_reach codec0 id 7 m \<and> m_metaDB m = db2
     \<and> decide (serverEnv codec0 id) (\<lambda>_. False) m = ((True, Some p, None), m1)
     \<and> PutEnvelope id (\<lambda>_. True) db2 ''npm'' ''metadata'' ''left-pad'' (Some env0) = (Inr (), db3)
     \<and> deleteFromBackend (serverEnv codec0 id) (m1\<lparr>m_metaDB := db3\<rparr>) (pe_hash p) = (Inr (), m2)
     \<and> GetEnvelope (m_metaDB m2) ''npm'' ''metadata'' ''left-pad'' = Inr env0 \<and> BlobRefs env0 = [ref0]
     \<and> GetBlob (m_metaDB m2) ref0 = Inl ErrNotFound"
proof -
  obtain m where m: "manager_reach codec0 id 7 m" "m_metaDB m = db2" "m_config m = cfg0" "m_backend m = fs0"
    "managerView m = \<lparr>f_small = [ref0, ref1], f_main = [], f_ghost = [], f_blobs = blobMap db2\<rparr>"
    using sample_manager [of db2 0 7 codec0 id] blobs_db23 by auto
  then have l: "queueList (m_queues m) QueueSmall = [ref0, ref1]" "queueList (m_queues m) QueueMain = []"
    by (simp_all add: fifoView_def)
  have ch: "choice (m_config m) (managerView m) = Some (QueueSmall, ref0, [ref1])"
    using queued_samples [of "blobMap db2" 0] blobs_db23(1) m(3,5)
    by (simp add: choice_def fifoOver_def cfg0_def smallTarget_def int64_id candidate_def pinned_def blob0_def)
  have "s3.s3_ok (length (queueList (m_queues m) QueueSmall) + length (queueList (m_queues m) QueueMain) + 5) m"
    using manager_okD [OF manager_reach_ok [OF m(1)]] l by simp
  then obtain p m1 where dec: "decide (serverEnv codec0 id) (\<lambda>_. False) m = ((True, Some p, None), m1)" "pe_hash p = ref0"
    using s3.decide_spec [of m 5 codec0 id] ch m(2) blobs_db23(1)
    by (auto simp: s3.evictable_def s3.pendingOf_def accessed_def blob0_def)
  obtain m2 where m2: "deleteFromBackend (serverEnv codec0 id) (m1\<lparr>m_metaDB := db3\<rparr>) ref0 = (Inr (), m2)"
    "GetBlob (m_metaDB m2) ref0 = Inl ErrNotFound" "m_metaDB m2 = snd (DeleteBlob db3 ref0)"
    using eviction_ignores_late_reference [of codec0 id m 5 p m1 db3] m l dec blobs_db23(4) by auto
  have "d_envs (m_metaDB m2) = d_envs db3"
    unfolding m2(3) by (simp add: DeleteBlob_def batch_def)
  then have "GetEnvelope (m_metaDB m2) ''npm'' ''metadata'' ''left-pad'' = Inr env0"
    by (simp add: GetEnvelope_def key0_eq db3_def)
  then show ?thesis using m(1,2) dec m2 run_db3 by (intro exI [of _ m] exI [of _ p] exI [of _ m1] exI [of _ m2]) simp
qed

section \<open>Blobs of the main queue\<close>

text \<open>Admitting a blob that sits in the main queue, as the store does when it writes a missing file
  again, queues the blob a second time, in the small queue, and adds its size to a total that has
  it already.\<close>

theorem main_blob_counted_twice:
  fixes sz :: int
  assumes "manager_reach c U (Suc n) m" and "h \<in> set (queueList (m_queues m) QueueMain)"
  defines "m' \<equiv> Admit (serverEnv c U) m h sz"
  shows "queueList (m_queues m') QueueSmall = queueList (m_queues m) QueueSmall @ [h]
    \<and> queueList (m_queues m') QueueMain = queueList (m_queues m) QueueMain
    \<and> m_smallBytes m' + m_mainBytes m' = m_smallBytes m + m_mainBytes m + sz
    \<and> m_smallLen m' + m_mainLen m' = m_smallLen m + m_mainLen m + 1"
  using s3.Admit_main_spec [OF manager_okD [OF manager_reach_ok [OF assms(1)]] assms(2), of c U sz]
  unfolding m'_def by (simp add: fifoView_def)

text \<open>A blob was evicted, stored and admitted again: the ghost set sent it to the main queue.\<close>

lemma sample_main:
  "\<exists>m. manager_reach codec0 id 3 m \<and> queueList (m_queues m) QueueSmall = [ref0]
     \<and> queueList (m_queues m) QueueMain = [ref1] \<and> m_smallBytes m + m_mainBytes m = 12"
proof -
  obtain m where m: "manager_reach codec0 id 7 m" "m_backend m = fs0" "m_config m = cfg0"
    "managerView m = \<lparr>f_small = [ref0, ref1], f_main = [], f_ghost = [], f_blobs = blobMap db3\<rparr>"
    using sample_manager [of db3 1 7 codec0 id] blobs_db23 by auto
  then have l: "queueList (m_queues m) QueueSmall = [ref0, ref1]" "queueList (m_queues m) QueueMain = []"
    by (simp_all add: fifoView_def)
  obtain acted err m1 where run: "maybeEvict (serverEnv codec0 id) (\<lambda>_. False) m = ((acted, err), m1)"
    by (metis prod.collapse)
  have ok: "s3.s3_ok (length (queueList (m_queues m) QueueSmall) + length (queueList (m_queues m) QueueMain) + Suc 4) m"
    using manager_okD [OF manager_reach_ok [OF m(1)]] l by simp
  obtain deleted where "managerView m1 = policy (m_config m) deleted (managerView m)" "fs_healthy (m_backend m) \<longrightarrow> deleted"
    using s3.maybeEvict_spec [OF ok run] by blast
  then have v1: "managerView m1 = policy cfg0 True (managerView m)" using m(2,3) fs0_ok by auto
  have r1: "manager_reach codec0 id 4 m1" using reach_pass [of codec0 id m 4] m(1) l run by simp
  note q = queued_samples [of "blobMap db3" 1]
  have "remember cfg0 [] [] ref1 = [ref1]"
    by (simp add: remember_def ghostLimit_def cfg0_def ghostFloor_def)
  then have v1: "managerView m1 = \<lparr>f_small = [ref0], f_main = [], f_ghost = [ref1], f_blobs = [ref0 \<mapsto> blob0 1]\<rparr>"
    unfolding v1 m(4) using blobs_db23(2)
    by (simp add: policy_def sample_choice accessed_def evict_def without_def blob1_def fun_eq_iff)
  let ?m2 = "m1\<lparr>m_metaDB := db3, m_backend := fs0\<rparr>"
  have r2: "manager_reach codec0 id 4 ?m2"
  proof (rule reach_others [OF r1 blobs_db23(4)])
    show "fs_inv fs0" using fs0_ok by simp
    have "blobMap (m_metaDB m1) = [ref0 \<mapsto> blob0 1]" using v1 by (simp add: fifoView_def)
    then show "queued_ok (blobMap db3) h \<and> entrySize (blobMap db3) h = entrySize (blobMap (m_metaDB m1)) h"
      if "h \<in> set (f_small (managerView m1)) \<union> set (f_main (managerView m1))" for h
      using that q blobs_db23(2) unfolding v1 by (auto simp: entrySize_def)
  qed
  let ?m3 = "Admit (serverEnv codec0 id) ?m2 ref1 7"
  have l2: "queueList (m_queues ?m2) QueueSmall = [ref0]" "queueList (m_queues ?m2) QueueMain = []"
    "ghostList (m_queues ?m2) = [ref1]" using v1 by (simp_all add: fifoView_def)
  have r3: "manager_reach codec0 id 3 ?m3"
    using reach_admit [of codec0 id 3 ?m2 ref1 7] r2 l2 q blobs_db23(2) by simp
  have "managerView ?m3 = s3.admit ref1 (managerView ?m2)" "m_metaDB ?m3 = db3"
    using s3.Admit_spec [of 3 ?m2 ref1 7 codec0 id] manager_okD [OF manager_reach_ok [OF r2]] l2 q blobs_db23(2)
    by simp_all
  then have l3: "queueList (m_queues ?m3) QueueSmall = [ref0]" "queueList (m_queues ?m3) QueueMain = [ref1]"
    "m_metaDB ?m3 = db3" using l2 by (simp_all add: fifoView_def s3.admit_def)
  have sz: "entrySize (blobMap db3) ref0 = 5" "entrySize (blobMap db3) ref1 = 7"
    using q blobs_db23(2) by simp_all
  have "m_smallBytes ?m3 + m_mainBytes ?m3 = 12"
    using s3.s3_okD(6) [OF manager_okD [OF manager_reach_ok [OF r3]]] l3 sz by (simp add: counters_ok_def)
  then show ?thesis using r3 l3 by (intro exI [of _ ?m3]) simp
qed

theorem main_blob_counted_twice_witness:
  "\<exists>m. queueList (m_queues m) QueueMain = [ref1] \<and> m_smallBytes m + m_mainBytes m = 12
     \<and> (let m' = Admit (serverEnv codec0 id) m ref1 7
        in queueList (m_queues m') QueueSmall = [ref0, ref1] \<and> queueList (m_queues m') QueueMain = [ref1]
          \<and> m_smallBytes m' + m_mainBytes m' = 19)"
proof -
  obtain m where m: "manager_reach codec0 id 3 m" "queueList (m_queues m) QueueSmall = [ref0]"
    "queueList (m_queues m) QueueMain = [ref1]" "m_smallBytes m + m_mainBytes m = 12" using sample_main by blast
  then show ?thesis
    using main_blob_counted_twice [of codec0 id 2 m ref1 7] by (intro exI [of _ m]) (simp add: Let_def)
qed

end
