(* ===== verification/Cafs.thy ===== *)
theory Cafs
  imports BlobStore Backend
begin

text \<open>
  The content store (\<open>store/cafs.go\<close>, \<open>store/store.go\<close>): content is written once, under its
  hash, to a storage backend; a row of the metadata database, or the legacy tracker, follows
  it; and the eviction policy is told what is stored and deleted. The three collaborators are
  interface values: records of operations over states of their own.
\<close>

section \<open>The store and its collaborators\<close>

text \<open>The legacy interface \<open>MetadataTracker\<close>; callers ignore its errors.\<close>

record 't tracker_ops =
  tk_Create :: "'t \<Rightarrow> hash \<Rightarrow> int \<Rightarrow> (string + unit) \<times> 't"
  tk_Touch :: "'t \<Rightarrow> hash \<Rightarrow> (string + unit) \<times> 't"
  tk_Delete :: "'t \<Rightarrow> hash \<Rightarrow> (string + unit) \<times> 't"

text \<open>\<open>EvictionNotifier\<close>.\<close>

record 'n notifier_ops =
  nt_Admit :: "'n \<Rightarrow> string \<Rightarrow> int \<Rightarrow> 'n"
  nt_Remove :: "'n \<Rightarrow> string \<Rightarrow> int \<Rightarrow> 'n"

text \<open>A store's interface values, nil ones \<open>None\<close>, with the hash function of the package and
  \<open>time.Format\<close> for headers; and the states behind them.\<close>

record ('d, 'b, 't, 'n) cafs_env =
  cv_backend :: "'b backend_ops"
  cv_metaDB :: "'d blob_ops option"
  cv_metadata :: "'t tracker_ops option"
  cv_notifier :: "'n notifier_ops option"
  cv_blake3 :: "bytes \<Rightarrow> hash"
  cv_RFC3339 :: "time \<Rightarrow> string"

record ('d, 'b, 't, 'n) cafs =
  cs_backend :: 'b
  cs_metaDB :: 'd
  cs_metadata :: 't
  cs_notifier :: 'n

text \<open>The constructor takes options; without one a collaborator is nil.\<close>

definition NewCAFS ::
  "(bytes \<Rightarrow> hash) \<Rightarrow> (time \<Rightarrow> string) \<Rightarrow> 'b backend_ops
     \<Rightarrow> (('d, 'b, 't, 'n) cafs_env \<Rightarrow> ('d, 'b, 't, 'n) cafs_env) list \<Rightarrow> ('d, 'b, 't, 'n) cafs_env" where
  "NewCAFS blake3 fmt b opts =
     fold (\<lambda>opt c. opt c) opts
       \<lparr>cv_backend = b, cv_metaDB = None, cv_metadata = None, cv_notifier = None, cv_blake3 = blake3, cv_RFC3339 = fmt\<rparr>"

definition WithMetadataTracker :: "'t tracker_ops \<Rightarrow> ('d, 'b, 't, 'n) cafs_env \<Rightarrow> ('d, 'b, 't, 'n) cafs_env" where
  "WithMetadataTracker tracker c = c\<lparr>cv_metadata := Some tracker\<rparr>"

definition WithMetaDB :: "'d blob_ops \<Rightarrow> ('d, 'b, 't, 'n) cafs_env \<Rightarrow> ('d, 'b, 't, 'n) cafs_env" where
  "WithMetaDB db c = c\<lparr>cv_metaDB := Some db\<rparr>"

definition WithEvictionNotifier :: "'n notifier_ops \<Rightarrow> ('d, 'b, 't, 'n) cafs_env \<Rightarrow> ('d, 'b, 't, 'n) cafs_env" where
  "WithEvictionNotifier n c = c\<lparr>cv_notifier := Some n\<rparr>"

text \<open>What the system answers to the calls on the temporary file of an upload: to its creation,
  to writing the copy, to seeking and to reading it back.\<close>

record temp_file =
  tf_create :: bool
  tf_write :: bool
  tf_seek :: bool
  tf_read :: bool

text \<open>Copying an upload stops at the first failing read of the source or write of the copy.\<close>

datatype copy_failure = SourceFailed | CopyFailed

datatype cafs_error =
    CreatingTempFile
  | ReadingContent copy_failure
  | ReadingStored
  | CheckingExistence backend_error
  | TrackingBlob mdb_error
  | SeekingTempFile
  | WritingContent backend_error
  | NoFramedSupport
  | ContentNotFound
  | BackendFailed backend_error

record put_result =
  pr_Hash :: hash
  pr_Size :: int
  pr_Exists :: bool

section \<open>Tracking\<close>

definition blobRefOf :: "hash \<Rightarrow> string" where
  "blobRefOf h = BlobRef_String (NewBlobRef h)"

lemma blobRefOf_inject [simp]: "blobRefOf g = blobRefOf h \<longleftrightarrow> g = h"
  by (simp add: blobRefOf_def)

text \<open>Updating the access time is best effort: its errors are logged.\<close>

definition touchRow ::
  "('d, 'b, 't, 'n) cafs_env \<Rightarrow> time \<Rightarrow> hash \<Rightarrow> ('d, 'b, 't, 'n) cafs \<Rightarrow> ('d, 'b, 't, 'n) cafs" where
  "touchRow v now h s =
     (case cv_metaDB v of
        Some db \<Rightarrow> s\<lparr>cs_metaDB := snd (bo_TouchBlob db now (cs_metaDB s) (blobRefOf h))\<rparr>
      | None \<Rightarrow> s)"

definition touchContent ::
  "('d, 'b, 't, 'n) cafs_env \<Rightarrow> time \<Rightarrow> hash \<Rightarrow> ('d, 'b, 't, 'n) cafs \<Rightarrow> ('d, 'b, 't, 'n) cafs" where
  "touchContent v now h s =
     (case (cv_metaDB v, cv_metadata v) of
        (None, Some tk) \<Rightarrow> s\<lparr>cs_metadata := snd (tk_Touch tk (cs_metadata s) h)\<rparr>
      | _ \<Rightarrow> touchRow v now h s)"

definition newEntry :: "time \<Rightarrow> hash \<Rightarrow> int \<Rightarrow> blob_entry" where
  "newEntry now h sz =
     \<lparr>be_Hash = blobRefOf h, be_Size = sz, be_CachedAt = now, be_LastAccess = now, be_RefCount = 0,
      be_AccessCount = 0\<rparr>"

definition createRow ::
  "('d, 'b, 't, 'n) cafs_env \<Rightarrow> time \<Rightarrow> hash \<Rightarrow> int \<Rightarrow> ('d, 'b, 't, 'n) cafs
     \<Rightarrow> (cafs_error + unit) \<times> ('d, 'b, 't, 'n) cafs" where
  "createRow v now h sz s =
     (case cv_metaDB v of
        Some db \<Rightarrow>
          (case bo_PutBlob db (cs_metaDB s) (newEntry now h sz) of
             (Inl e, d) \<Rightarrow> (Inl (TrackingBlob e), s\<lparr>cs_metaDB := d\<rparr>)
           | (Inr _, d) \<Rightarrow> (Inr (), s\<lparr>cs_metaDB := d\<rparr>))
      | None \<Rightarrow> (Inr (), s))"

definition dropRow ::
  "('d, 'b, 't, 'n) cafs_env \<Rightarrow> hash \<Rightarrow> ('d, 'b, 't, 'n) cafs \<Rightarrow> ('d, 'b, 't, 'n) cafs" where
  "dropRow v h s =
     (case cv_metaDB v of
        Some db \<Rightarrow> s\<lparr>cs_metaDB := snd (bo_DeleteBlob db (cs_metaDB s) (blobRefOf h))\<rparr>
      | None \<Rightarrow> s)"

definition notifyAdmit ::
  "('d, 'b, 't, 'n) cafs_env \<Rightarrow> hash \<Rightarrow> int \<Rightarrow> ('d, 'b, 't, 'n) cafs \<Rightarrow> ('d, 'b, 't, 'n) cafs" where
  "notifyAdmit v h sz s =
     (case cv_notifier v of
        Some nt \<Rightarrow> s\<lparr>cs_notifier := nt_Admit nt (cs_notifier s) (blobRefOf h) sz\<rparr>
      | None \<Rightarrow> s)"

section \<open>Storing\<close>

text \<open>An upload is copied to a temporary file while it is hashed. The result is the content, its
  hash and its size.\<close>

definition receive :: "('d, 'b, 't, 'n) cafs_env \<Rightarrow> temp_file \<Rightarrow> source \<Rightarrow> cafs_error + (bytes \<times> hash \<times> int)" where
  "receive v tf r =
     (if \<not> tf_create tf then Inl CreatingTempFile
      else let (hr, content) = copy_hashing NewHashingReader [] (chunks r)
           in if \<not> tf_write tf then Inl (ReadingContent CopyFailed)
              else if src_fails r then Inl (ReadingContent SourceFailed)
              else Inr (content, HashingReader_Sum (cv_blake3 v) hr, HashingReader_BytesRead hr))"

definition PutWithResult ::
  "('d, 'b, 't, 'n) cafs_env \<Rightarrow> temp_file \<Rightarrow> time \<Rightarrow> ('d, 'b, 't, 'n) cafs \<Rightarrow> source
     \<Rightarrow> (cafs_error + put_result) \<times> ('d, 'b, 't, 'n) cafs" where
  "PutWithResult v tf now s r =
     (case receive v tf r of
        Inl e \<Rightarrow> (Inl e, s)
      | Inr (content, h, sz) \<Rightarrow>
          (case bk_Exists (cv_backend v) (cs_backend s) (BlobStorageKey h) of
             Inl e \<Rightarrow> (Inl (CheckingExistence e), s)
           | Inr True \<Rightarrow> (Inr \<lparr>pr_Hash = h, pr_Size = sz, pr_Exists = True\<rparr>, touchContent v now h s)
           | Inr False \<Rightarrow>
               (case (case (cv_metaDB v, cv_metadata v) of
                        (None, Some tk) \<Rightarrow>
                          (Inr (), s\<lparr>cs_metadata := snd (tk_Create tk (cs_metadata s) h sz)\<rparr>)
                      | _ \<Rightarrow> createRow v now h sz s) of
                  (Inl e, s1) \<Rightarrow> (Inl e, s1)
                | (Inr _, s1) \<Rightarrow>
                    if \<not> tf_seek tf then (Inl SeekingTempFile, s1)
                    else (case bk_Write (cv_backend v) (cs_backend s1) (BlobStorageKey h)
                                 \<lparr>chunks = [content], src_fails = \<not> tf_read tf\<rparr> of
                            (Inl e, b) \<Rightarrow> (Inl (WritingContent e), dropRow v h (s1\<lparr>cs_backend := b\<rparr>))
                          | (Inr _, b) \<Rightarrow>
                              (Inr \<lparr>pr_Hash = h, pr_Size = sz, pr_Exists = False\<rparr>,
                               notifyAdmit v h sz (s1\<lparr>cs_backend := b\<rparr>))))))"

definition Put ::
  "('d, 'b, 't, 'n) cafs_env \<Rightarrow> temp_file \<Rightarrow> time \<Rightarrow> ('d, 'b, 't, 'n) cafs \<Rightarrow> source
     \<Rightarrow> (cafs_error + hash) \<times> ('d, 'b, 't, 'n) cafs" where
  "Put v tf now s r =
     (case PutWithResult v tf now s r of
        (Inl e, s') \<Rightarrow> (Inl e, s')
      | (Inr result, s') \<Rightarrow> (Inr (pr_Hash result), s'))"

definition PutBytes ::
  "('d, 'b, 't, 'n) cafs_env \<Rightarrow> temp_file \<Rightarrow> time \<Rightarrow> ('d, 'b, 't, 'n) cafs \<Rightarrow> bytes
     \<Rightarrow> (cafs_error + hash) \<times> ('d, 'b, 't, 'n) cafs" where
  "PutBytes v tf now s data = Put v tf now s \<lparr>chunks = [data], src_fails = False\<rparr>"

text \<open>The header completed by \<open>PutFramed\<close>.\<close>

definition completeHeader ::
  "('d, 'b, 't, 'n) cafs_env \<Rightarrow> time \<Rightarrow> hash \<Rightarrow> int \<Rightarrow> blob_header \<Rightarrow> blob_header" where
  "completeHeader v now h sz header =
     (let header1 = header\<lparr>bh_ContentLength := sz, bh_ContentHash := hash_String h\<rparr>
      in if bh_CachedAt header1 = [] then header1\<lparr>bh_CachedAt := cv_RFC3339 v now\<rparr> else header1)"

definition PutFramed ::
  "('d, 'b, 't, 'n) cafs_env \<Rightarrow> temp_file \<Rightarrow> time \<Rightarrow> ('d, 'b, 't, 'n) cafs \<Rightarrow> blob_header \<Rightarrow> source
     \<Rightarrow> (cafs_error + hash) \<times> ('d, 'b, 't, 'n) cafs" where
  "PutFramed v tf now s header body =
     (case receive v tf body of
        Inl e \<Rightarrow> (Inl e, s)
      | Inr (content, h, sz) \<Rightarrow>
          (case bk_Exists (cv_backend v) (cs_backend s) (BlobStorageKey h) of
             Inl e \<Rightarrow> (Inl (CheckingExistence e), s)
           | Inr True \<Rightarrow> (Inr h, touchRow v now h s)
           | Inr False \<Rightarrow>
               (case createRow v now h sz s of
                  (Inl e, s1) \<Rightarrow> (Inl e, s1)
                | (Inr _, s1) \<Rightarrow>
                    if \<not> tf_seek tf then (Inl SeekingTempFile, s1)
                    else (case bk_WriteFramed (cv_backend v) of
                            None \<Rightarrow> (Inl NoFramedSupport, s1)
                          | Some writeFramed \<Rightarrow>
                              (case writeFramed (cs_backend s1) (BlobStorageKey h)
                                      (completeHeader v now h sz header)
                                      \<lparr>chunks = [content], src_fails = \<not> tf_read tf\<rparr> of
                                 (Inl e, b) \<Rightarrow> (Inl (WritingContent e), dropRow v h (s1\<lparr>cs_backend := b\<rparr>))
                               | (Inr _, b) \<Rightarrow> (Inr h, notifyAdmit v h sz (s1\<lparr>cs_backend := b\<rparr>)))))))"

section \<open>Reading and deleting\<close>

text \<open>The access time is updated by a goroutine; here it has run when the call returns.\<close>

definition readError :: "backend_error \<Rightarrow> cafs_error" where
  "readError e = (if e = BackendNotFound then ContentNotFound else BackendFailed e)"

definition Get ::
  "('d, 'b, 't, 'n) cafs_env \<Rightarrow> time \<Rightarrow> ('d, 'b, 't, 'n) cafs \<Rightarrow> hash
     \<Rightarrow> (cafs_error + bytes) \<times> ('d, 'b, 't, 'n) cafs" where
  "Get v now s h =
     (case bk_Read (cv_backend v) (cs_backend s) (BlobStorageKey h) of
        Inl e \<Rightarrow> (Inl (readError e), s)
      | Inr d \<Rightarrow> (Inr d, touchContent v now h s))"

text \<open>\<open>readable\<close> says whether reading the opened content to its end succeeds.\<close>

definition GetBytes ::
  "('d, 'b, 't, 'n) cafs_env \<Rightarrow> time \<Rightarrow> bool \<Rightarrow> ('d, 'b, 't, 'n) cafs \<Rightarrow> hash
     \<Rightarrow> (cafs_error + bytes) \<times> ('d, 'b, 't, 'n) cafs" where
  "GetBytes v now readable s h =
     (case Get v now s h of
        (Inl e, s') \<Rightarrow> (Inl e, s')
      | (Inr d, s') \<Rightarrow> (if readable then Inr d else Inl ReadingStored, s'))"

definition GetFramed ::
  "('d, 'b, 't, 'n) cafs_env \<Rightarrow> time \<Rightarrow> ('d, 'b, 't, 'n) cafs \<Rightarrow> hash
     \<Rightarrow> (cafs_error + (blob_header \<times> bytes)) \<times> ('d, 'b, 't, 'n) cafs" where
  "GetFramed v now s h =
     (case bk_ReadFramed (cv_backend v) of
        None \<Rightarrow> (Inl NoFramedSupport, s)
      | Some readFramed \<Rightarrow>
          (case readFramed (cs_backend s) (BlobStorageKey h) of
             Inl e \<Rightarrow> (Inl (readError e), s)
           | Inr hb \<Rightarrow> (Inr hb, touchRow v now h s)))"

definition Has :: "('d, 'b, 't, 'n) cafs_env \<Rightarrow> ('d, 'b, 't, 'n) cafs \<Rightarrow> hash \<Rightarrow> backend_error + bool" where
  "Has v s h = bk_Exists (cv_backend v) (cs_backend s) (BlobStorageKey h)"

definition Delete ::
  "('d, 'b, 't, 'n) cafs_env \<Rightarrow> ('d, 'b, 't, 'n) cafs \<Rightarrow> hash
     \<Rightarrow> (backend_error + unit) \<times> ('d, 'b, 't, 'n) cafs" where
  "Delete v s h =
     (case bk_Delete (cv_backend v) (cs_backend s) (BlobStorageKey h) of
        (Inl e, b) \<Rightarrow> (Inl e, s\<lparr>cs_backend := b\<rparr>)
      | (Inr _, b) \<Rightarrow>
          let s1 = s\<lparr>cs_backend := b\<rparr>;
              sz = (case cv_metaDB v of
                        Some db \<Rightarrow>
                          (case bo_GetBlob db (cs_metaDB s1) (blobRefOf h) of Inl _ \<Rightarrow> 0 | Inr e \<Rightarrow> be_Size e)
                      | None \<Rightarrow> 0);
              s2 = (case (cv_metaDB v, cv_metadata v) of
                      (None, Some tk) \<Rightarrow> s1\<lparr>cs_metadata := snd (tk_Delete tk (cs_metadata s1) h)\<rparr>
                    | _ \<Rightarrow> dropRow v h s1)
          in (Inr (),
              case cv_notifier v of
                Some nt \<Rightarrow> s2\<lparr>cs_notifier := nt_Remove nt (cs_notifier s2) (blobRefOf h) sz\<rparr>
              | None \<Rightarrow> s2))"

definition Size :: "('d, 'b, 't, 'n) cafs_env \<Rightarrow> ('d, 'b, 't, 'n) cafs \<Rightarrow> hash \<Rightarrow> cafs_error + int" where
  "Size v s h =
     (case bk_Size (cv_backend v) of
        Some sizeOf \<Rightarrow>
          (case sizeOf (cs_backend s) (BlobStorageKey h) of Inl e \<Rightarrow> Inl (readError e) | Inr n \<Rightarrow> Inr n)
      | None \<Rightarrow>
          (case bk_Read (cv_backend v) (cs_backend s) (BlobStorageKey h) of
             Inl e \<Rightarrow> Inl (readError e)
           | Inr d \<Rightarrow> Inr (int (length d))))"

text \<open>Keys that are no storage keys are skipped.\<close>

definition CAFS_List :: "('d, 'b, 't, 'n) cafs_env \<Rightarrow> ('d, 'b, 't, 'n) cafs \<Rightarrow> backend_error + hash list" where
  "CAFS_List v s =
     (case bk_List (cv_backend v) (cs_backend s) BlobKeyPrefix of
        Inl e \<Rightarrow> Inl e
      | Inr keys \<Rightarrow>
          Inr (concat (map (\<lambda>key. case ParseBlobStorageKey key of Inl _ \<Rightarrow> [] | Inr h \<Rightarrow> [h]) keys)))"

end
