(* ===== verification/CafsSpec.thy ===== *)
theory CafsSpec
  imports Cafs
begin

text \<open>
  The content store over any database and backend that keep their contracts: every stored file
  has the hash it is stored under and a row with its size, and the operations keep that so.
\<close>

text \<open>The system's calls on the temporary file succeed.\<close>

definition temp_ok :: "temp_file \<Rightarrow> bool" where
  "temp_ok tf \<longleftrightarrow> tf_create tf \<and> tf_write tf \<and> tf_seek tf \<and> tf_read tf"

lemma receive_Inr:
  "receive v tf r = Inr (content, h, sz) \<Longrightarrow>
     content = concat (chunks r) \<and> h = cv_blake3 v content \<and> sz = int (length content) \<and> \<not> src_fails r"
  by (auto simp: receive_def copy_hashing_eq NewHashingReader_def HashingReader_Sum_def HashingReader_BytesRead_def
      Let_def split: if_splits)

lemma receive_Inl: "receive v tf r = Inl e \<Longrightarrow> \<not> temp_ok tf \<or> src_fails r"
  by (auto simp: receive_def temp_ok_def Let_def split: if_splits prod.splits)

text \<open>BLAKE3 digests have 32 bytes.\<close>

definition digest_ok :: "(bytes \<Rightarrow> hash) \<Rightarrow> bool" where
  "digest_ok blake3 \<longleftrightarrow> (\<forall>x. is_hash (blake3 x))"

locale content_store =
  blobs: blobs_contract db dinv blobs +
  backend: backend_contract "cv_backend v" binv healthy content listed
  for v :: "('d, 'b, 't, 'n) cafs_env" and db dinv blobs binv healthy content listed +
  assumes metaDB: "cv_metaDB v = Some db"
begin

text \<open>A stored file: its content hashes to its name and its row has its size.\<close>

definition store_ok :: "('d, 'b, 't, 'n) cafs \<Rightarrow> bool" where
  "store_ok s \<longleftrightarrow>
     dinv (cs_metaDB s) \<and> binv (cs_backend s)
     \<and> (\<forall>h d. is_hash h \<longrightarrow> content (cs_backend s) h = Some d \<longrightarrow>
          cv_blake3 v d = h
          \<and> (\<exists>e. blobs (cs_metaDB s) (blobRefOf h) = Some e \<and> be_Size e = int (length d)))"

lemma store_okD:
  assumes "store_ok s"
  shows "dinv (cs_metaDB s)" "binv (cs_backend s)"
    "is_hash h \<Longrightarrow> content (cs_backend s) h = Some d \<Longrightarrow> cv_blake3 v d = h"
    "is_hash h \<Longrightarrow> content (cs_backend s) h = Some d \<Longrightarrow>
      \<exists>e. blobs (cs_metaDB s) (blobRefOf h) = Some e \<and> be_Size e = int (length d)"
  using assms by (auto simp: store_ok_def)

lemma valid_blobRef: "is_hash h \<Longrightarrow> valid_key (blobRefOf h)"
  by (simp add: blobRefOf_def valid_key_def maxKeySize_def BlobRef_String_def NewBlobRef_def AlgBLAKE3_def)

lemma touch_size [simp]: "be_Size (touch now e) = be_Size e"
  by (simp add: touch_def Let_def)

lemma touchRow_spec:
  assumes "store_ok s"
  shows "store_ok (touchRow v now h s)" "cs_backend (touchRow v now h s) = cs_backend s"
    "cs_notifier (touchRow v now h s) = cs_notifier s"
    "blobs (cs_metaDB (touchRow v now h s))
       = (blobs (cs_metaDB s))(blobRefOf h := map_option (touch now) (blobs (cs_metaDB s) (blobRefOf h)))"
proof -
  note tb = blobs.touch_blob [OF store_okD(1) [OF assms], of now "blobRefOf h"]
  show "cs_backend (touchRow v now h s) = cs_backend s" "cs_notifier (touchRow v now h s) = cs_notifier s"
    and b: "blobs (cs_metaDB (touchRow v now h s))
       = (blobs (cs_metaDB s))(blobRefOf h := map_option (touch now) (blobs (cs_metaDB s) (blobRefOf h)))"
    using tb by (simp_all add: touchRow_def metaDB)
  have "\<exists>e. blobs (cs_metaDB (touchRow v now h s)) (blobRefOf g) = Some e \<and> be_Size e = int (length d)"
    if "is_hash g" "content (cs_backend s) g = Some d" for g d
    using store_okD(4) [OF assms that] unfolding b by auto
  then show "store_ok (touchRow v now h s)"
    using tb assms by (simp add: touchRow_def metaDB store_ok_def)
qed

lemma touchContent_eq: "touchContent v now h s = touchRow v now h s"
  by (simp add: touchContent_def metaDB)

section \<open>Storing\<close>

lemma createRow_spec:
  assumes ok: "store_ok s" and h: "is_hash h" and none: "content (cs_backend s) h = None"
  shows "\<exists>d. createRow v now h sz s = (Inr (), s\<lparr>cs_metaDB := d\<rparr>) \<and> store_ok (s\<lparr>cs_metaDB := d\<rparr>)
    \<and> blobs d = (blobs (cs_metaDB s))(blobRefOf h \<mapsto> newEntry now h sz)"
proof -
  have "valid_key (be_Hash (newEntry now h sz))" using valid_blobRef [OF h] by (simp add: newEntry_def)
  then obtain d where d: "bo_PutBlob db (cs_metaDB s) (newEntry now h sz) = (Inr (), d)" "dinv d"
    "blobs d = (blobs (cs_metaDB s))(blobRefOf h \<mapsto> newEntry now h sz)"
    using blobs.put_blob [OF store_okD(1) [OF ok]] by (metis newEntry_def blob_entry.select_convs(1))
  moreover have "store_ok (s\<lparr>cs_metaDB := d\<rparr>)" using ok d(2,3) none by (auto simp: store_ok_def)
  ultimately show ?thesis using metaDB by (auto simp: createRow_def)
qed

lemma dropRow_spec:
  assumes ok: "store_ok s" and none: "content (cs_backend s) h = None"
  shows "store_ok (dropRow v h s)" "cs_backend (dropRow v h s) = cs_backend s"
    "cs_notifier (dropRow v h s) = cs_notifier s"
    "blobs (cs_metaDB (dropRow v h s)) = (blobs (cs_metaDB s))(blobRefOf h := None)"
proof -
  obtain d where "bo_DeleteBlob db (cs_metaDB s) (blobRefOf h) = (Inr (), d)" "dinv d"
    "blobs d = (blobs (cs_metaDB s))(blobRefOf h := None)"
    using blobs.del_blob [OF store_okD(1) [OF ok]] by blast
  then show "store_ok (dropRow v h s)" "cs_backend (dropRow v h s) = cs_backend s"
    "cs_notifier (dropRow v h s) = cs_notifier s"
    "blobs (cs_metaDB (dropRow v h s)) = (blobs (cs_metaDB s))(blobRefOf h := None)"
    using ok none metaDB by (auto simp: dropRow_def store_ok_def)
qed

lemma notifyAdmit_simps [simp]:
  "cs_backend (notifyAdmit v h sz s) = cs_backend s" "cs_metaDB (notifyAdmit v h sz s) = cs_metaDB s"
  "store_ok (notifyAdmit v h sz s) = store_ok s"
  by (auto simp: notifyAdmit_def store_ok_def split: option.splits)

text \<open>What a put leaves behind.\<close>

definition put_post :: "time \<Rightarrow> ('d, 'b, 't, 'n) cafs \<Rightarrow> bytes \<Rightarrow> put_result \<Rightarrow> ('d, 'b, 't, 'n) cafs \<Rightarrow> bool" where
  "put_post now s data p s' \<longleftrightarrow>
     pr_Hash p = cv_blake3 v data \<and> pr_Size p = int (length data)
     \<and> (pr_Exists p \<longleftrightarrow> content (cs_backend s) (pr_Hash p) \<noteq> None)
     \<and> (\<forall>g. is_hash g \<longrightarrow> content (cs_backend s') g =
          (if g = pr_Hash p \<and> \<not> pr_Exists p then Some data else content (cs_backend s) g))
     \<and> blobs (cs_metaDB s') = (blobs (cs_metaDB s))(blobRefOf (pr_Hash p) :=
          (if pr_Exists p then map_option (touch now) (blobs (cs_metaDB s) (blobRefOf (pr_Hash p)))
           else Some (newEntry now (pr_Hash p) (pr_Size p))))"

lemma PutWithResult_spec:
  assumes blake3: "digest_ok (cv_blake3 v)" and ok: "store_ok s" and put: "PutWithResult v tf now s r = (res, s')"
  shows "store_ok s'
    \<and> (healthy (cs_backend s) \<longrightarrow>
         healthy (cs_backend s') \<and> (temp_ok tf \<longrightarrow> \<not> src_fails r \<longrightarrow> (\<exists>p. res = Inr p)))
    \<and> (case res of
      Inl _ \<Rightarrow> (\<forall>g. is_hash g \<longrightarrow> content (cs_backend s') g = content (cs_backend s) g)
    | Inr p \<Rightarrow> put_post now s (concat (chunks r)) p s')"
proof (cases "receive v tf r")
  case (Inl e)
  then show ?thesis using put ok receive_Inl [OF Inl] by (auto simp: PutWithResult_def)
next
  case (Inr c)
  obtain data h sz where c: "c = (data, h, sz)" by (cases c)
  note rc = receive_Inr [OF Inr [unfolded c]]
  have h: "is_hash h" using rc blake3 by (simp add: digest_ok_def)
  show ?thesis
  proof (cases "bk_Exists (cv_backend v) (cs_backend s) (BlobStorageKey h)")
    case (Inl e)
    then show ?thesis
      using put ok Inr c backend.has_data [OF store_okD(2) [OF ok] h Inl] by (auto simp: PutWithResult_def)
  next
    case ex: (Inr x)
    have x: "x \<longleftrightarrow> content (cs_backend s) h \<noteq> None"
      using backend.has_data [OF store_okD(2) [OF ok] h ex] by simp
    show ?thesis
    proof (cases x)
      case True
      then have "res = Inr \<lparr>pr_Hash = h, pr_Size = sz, pr_Exists = True\<rparr>" "s' = touchRow v now h s"
        using put Inr c ex by (auto simp: PutWithResult_def touchContent_eq)
      then show ?thesis using True x rc touchRow_spec [OF ok, of now h] by (auto simp: put_post_def)
    next
      case False
      then have none: "content (cs_backend s) h = None" using x by simp
      obtain d where d: "createRow v now h sz s = (Inr (), s\<lparr>cs_metaDB := d\<rparr>)" "store_ok (s\<lparr>cs_metaDB := d\<rparr>)"
        "blobs d = (blobs (cs_metaDB s))(blobRefOf h \<mapsto> newEntry now h sz)"
        using createRow_spec [OF ok h none] by blast
      let ?s1 = "s\<lparr>cs_metaDB := d\<rparr>"
      obtain w b where w: "bk_Write (cv_backend v) (cs_backend s) (BlobStorageKey h)
          \<lparr>chunks = [data], src_fails = \<not> tf_read tf\<rparr> = (w, b)" by fastforce
      note pd = backend.put_data [OF store_okD(2) [OF ok] h w]
      have run: "(res, s') = (if \<not> tf_seek tf then (Inl SeekingTempFile, ?s1)
          else case w of
            Inl e \<Rightarrow> (Inl (WritingContent e), dropRow v h (?s1\<lparr>cs_backend := b\<rparr>))
          | Inr _ \<Rightarrow> (Inr \<lparr>pr_Hash = h, pr_Size = sz, pr_Exists = False\<rparr>, notifyAdmit v h sz (?s1\<lparr>cs_backend := b\<rparr>)))"
        using put Inr c ex False d(1) w metaDB by (auto simp: PutWithResult_def split: sum.splits)
      show ?thesis
      proof (cases "tf_seek tf")
        case False
        then show ?thesis using run d(2) by (simp add: temp_ok_def)
      next
        case seek: True
        show ?thesis
        proof (cases w)
          case (Inl e)
          have "store_ok (?s1\<lparr>cs_backend := b\<rparr>)"
            using d(2) pd Inl by (auto simp: store_ok_def)
          moreover have "content b h = None" using pd Inl none h by simp
          ultimately show ?thesis
            using run seek Inl dropRow_spec [of "?s1\<lparr>cs_backend := b\<rparr>" h] pd by (simp add: temp_ok_def)
        next
          case (Inr u)
          have "store_ok (?s1\<lparr>cs_backend := b\<rparr>)"
            using d(2,3) pd Inr rc by (auto simp: store_ok_def newEntry_def)
          then show ?thesis
            using run seek Inr pd rc none d(3) by (simp add: put_post_def)
        qed
      qed
    qed
  qed
qed

text \<open>A put reaches the database only through the operations on blobs.\<close>

lemma PutWithResult_db:
  assumes "P (cs_metaDB s)" and "\<And>d e. P d \<Longrightarrow> P (snd (bo_PutBlob db d e))"
    and "\<And>d h. P d \<Longrightarrow> P (snd (bo_DeleteBlob db d h))" and "\<And>d h. P d \<Longrightarrow> P (snd (bo_TouchBlob db now d h))"
  shows "P (cs_metaDB (snd (PutWithResult v tf now s r)))"
proof -
  have touch: "P (cs_metaDB (touchRow v now h s))" for h using assms(1,4) by (simp add: touchRow_def metaDB)
  have create: "P (cs_metaDB (snd (createRow v now h sz s)))" for h sz
    using assms(1) assms(2) [OF assms(1), of "newEntry now h sz"]
    by (cases "bo_PutBlob db (cs_metaDB s) (newEntry now h sz)") (auto simp: createRow_def metaDB split: sum.splits)
  have drop: "P (cs_metaDB x) \<Longrightarrow> P (cs_metaDB (dropRow v h x))" for h x
    using assms(3) by (simp add: dropRow_def metaDB)
  have step: "P (cs_metaDB s1)" if "createRow v now h sz s = (x, s1)" for h sz x s1
    using create [of h sz] that by simp
  show ?thesis
    using assms(1) touch step
    by (auto simp: PutWithResult_def metaDB touchContent_eq drop split: sum.split prod.split bool.split)
qed

section \<open>Reading and deleting\<close>

lemma Get_spec:
  assumes ok: "store_ok s" and h: "is_hash h" and get: "Get v now s h = (res, s')"
  shows "store_ok s' \<and> cs_backend s' = cs_backend s
    \<and> (case res of
         Inr d \<Rightarrow> content (cs_backend s) h = Some d \<and> cv_blake3 v d = h
       | Inl e \<Rightarrow> (e = ContentNotFound \<longrightarrow> content (cs_backend s) h = None)
           \<and> (healthy (cs_backend s) \<longrightarrow> e = ContentNotFound))"
proof -
  obtain r where r: "bk_Read (cv_backend v) (cs_backend s) (BlobStorageKey h) = r" by simp
  note gd = backend.get_data [OF store_okD(2) [OF ok] h r]
  show ?thesis
    using get gd ok r touchRow_spec [OF ok, of now h] store_okD(3) [OF ok h]
    by (auto simp: Get_def touchContent_eq readError_def split: sum.splits)
qed

lemma Delete_spec:
  assumes ok: "store_ok s" and h: "is_hash h" and del: "Delete v s h = (res, s')"
  shows "store_ok s' \<and> (healthy (cs_backend s) \<longrightarrow> res = Inr ())
    \<and> (case res of
         Inl _ \<Rightarrow> cs_metaDB s' = cs_metaDB s \<and> (\<forall>g. is_hash g \<longrightarrow> content (cs_backend s') g = content (cs_backend s) g)
       | Inr _ \<Rightarrow> blobs (cs_metaDB s') = (blobs (cs_metaDB s))(blobRefOf h := None)
           \<and> (\<forall>g. is_hash g \<longrightarrow> content (cs_backend s') g = (if g = h then None else content (cs_backend s) g)))"
proof -
  obtain r b where r: "bk_Delete (cv_backend v) (cs_backend s) (BlobStorageKey h) = (r, b)" by fastforce
  note dd = backend.del_data [OF store_okD(2) [OF ok] h r]
  show ?thesis
  proof (cases r)
    case (Inl e)
    then have "res = Inl e" "s' = s\<lparr>cs_backend := b\<rparr>" using del r by (simp_all add: Delete_def)
    then show ?thesis using dd Inl ok by (auto simp: store_ok_def)
  next
    case (Inr u)
    let ?s1 = "s\<lparr>cs_backend := b\<rparr>"
    have ok1: "store_ok ?s1" using dd Inr ok by (auto simp: store_ok_def split: if_splits)
    have "content (cs_backend ?s1) h = None" using dd Inr h by simp
    note dr = dropRow_spec [OF ok1 this]
    have "res = Inr ()" "cs_backend s' = cs_backend (dropRow v h ?s1)" "cs_metaDB s' = cs_metaDB (dropRow v h ?s1)"
      using del r Inr metaDB by (auto simp: Delete_def Let_def split: option.splits)
    moreover from this have "store_ok s' = store_ok (dropRow v h ?s1)" by (simp add: store_ok_def)
    ultimately show ?thesis using dr dd Inr by simp
  qed
qed

lemma Size_content:
  assumes ok: "store_ok s" and h: "is_hash h" and sz: "Size v s h = Inr n"
  shows "\<exists>d. content (cs_backend s) h = Some d \<and> n = int (length d)"
proof (cases "bk_Size (cv_backend v)")
  case None
  then obtain d where "bk_Read (cv_backend v) (cs_backend s) (BlobStorageKey h) = Inr d" "n = int (length d)"
    using sz by (auto simp: Size_def split: sum.splits)
  then show ?thesis using backend.get_data [OF store_okD(2) [OF ok] h] by fastforce
next
  case (Some f)
  then show ?thesis
    using sz backend.size_data [OF store_okD(2) [OF ok] h Some] by (auto simp: Size_def split: sum.splits)
qed

lemma Size_healthy:
  assumes ok: "store_ok s" and h: "is_hash h" and d: "healthy (cs_backend s)" "content (cs_backend s) h = Some d"
  shows "Size v s h = Inr (int (length d))"
proof (cases "bk_Size (cv_backend v)")
  case None
  then show ?thesis
    using d backend.get_data [OF store_okD(2) [OF ok] h refl] by (auto simp: Size_def split: sum.splits)
next
  case (Some f)
  then show ?thesis using d backend.size_healthy [OF store_okD(2) [OF ok] h Some] by (simp add: Size_def)
qed

lemma Has_spec:
  assumes "store_ok s" and "is_hash h"
  shows "case Has v s h of Inr x \<Rightarrow> x \<longleftrightarrow> content (cs_backend s) h \<noteq> None | Inl e \<Rightarrow> \<not> healthy (cs_backend s)"
  using backend.has_data [OF store_okD(2) [OF assms(1)] assms(2) refl] by (simp add: Has_def)

end

section \<open>The server's store\<close>

definition serverStore ::
  "header_codec \<Rightarrow> (bytes \<Rightarrow> hash) \<Rightarrow> (time \<Rightarrow> string) \<Rightarrow> 'n notifier_ops option \<Rightarrow> (db, fs, unit, 'n) cafs_env" where
  "serverStore c blake3 fmt nt =
     NewCAFS blake3 fmt (filesystem c)
       (WithMetaDB boltBlobs # (case nt of None \<Rightarrow> [] | Some n \<Rightarrow> [WithEvictionNotifier n]))"

lemma serverStore_simps [simp]:
  "cv_backend (serverStore c blake3 fmt nt) = filesystem c" "cv_metaDB (serverStore c blake3 fmt nt) = Some boltBlobs"
  "cv_blake3 (serverStore c blake3 fmt nt) = blake3" "cv_notifier (serverStore c blake3 fmt nt) = nt"
  "cv_metadata (serverStore c blake3 fmt nt) = None"
  by (simp_all add: serverStore_def NewCAFS_def WithMetaDB_def WithEvictionNotifier_def split: option.split)

interpretation cafs: content_store "serverStore c blake3 fmt nt" boltBlobs blobs_inv blobMap
    fs_inv fs_healthy fs_content listedKey for c blake3 fmt nt
  by (simp add: content_store_def content_store_axioms_def bolt_blobs.blobs_contract_axioms
      filesystem.backend_contract_axioms)

text \<open>Every file hashes to its name and has a row with its size.\<close>

definition storeOk :: "(bytes \<Rightarrow> hash) \<Rightarrow> (db, fs, unit, 'n) cafs \<Rightarrow> bool" where
  "storeOk blake3 s \<longleftrightarrow>
     blobs_inv (cs_metaDB s) \<and> fs_inv (cs_backend s)
     \<and> (\<forall>h d. is_hash h \<longrightarrow> fs_content (cs_backend s) h = Some d \<longrightarrow>
          blake3 d = h \<and> (\<exists>e. GetBlob (cs_metaDB s) (blobRefOf h) = Inr e \<and> be_Size e = int (length d)))"

lemma storeOkD:
  "storeOk blake3 s \<Longrightarrow> is_hash h \<Longrightarrow> fs_content (cs_backend s) h = Some d \<Longrightarrow>
     blake3 d = h \<and> (\<exists>e. GetBlob (cs_metaDB s) (blobRefOf h) = Inr e \<and> be_Size e = int (length d))"
  unfolding storeOk_def by blast

lemma GetBlob_blobMap: "blobs_inv d \<Longrightarrow> GetBlob d h = Inr e \<longleftrightarrow> blobMap d h = Some e"
  using bolt_blobs.get_blob [of d h] by (simp add: boltBlobs_def split: option.splits)

lemma storeOk_eq: "storeOk blake3 s = cafs.store_ok c blake3 fmt nt s"
  by (auto simp: storeOk_def cafs.store_ok_def GetBlob_blobMap)

end

