(* ===== verification/GC.thy ===== *)
theory GC
  imports Cafs
begin

text \<open>
  The garbage collector (\<open>store/gc/manager.go\<close>, \<open>store/gc/phases.go\<close>): a run expires legacy
  metadata, deletes blobs that nothing references, and deletes files that have no row. The
  database, the backend and the hook that tells the eviction policy are interface values. The
  goroutine that starts a run per interval is left out, and so are the counters it exports.
\<close>

section \<open>State\<close>

record gc_config =
  gc_BatchSize :: int
  gc_BlobRetentionTTL :: int

datatype gc_error =
    GetExpiredFailed mdb_error
  | DeleteMetaFailed expiry_entry mdb_error
  | GetUnreferencedFailed mdb_error
  | DeleteBlobFailed string gc_delete_error
  | ListFailed backend_error
  | CheckBlobFailed string mdb_error
  | DeleteOrphanFailed string backend_error
and gc_delete_error =
    GetMetadataFailed mdb_error
  | ParseFailed ref_error
  | BackendDeleteFailed backend_error
  | MetaDeleteFailed mdb_error

record gc_result =
  gr_StartedAt :: time
  gr_Duration :: int
  gr_UnreferencedBlobsDeleted :: int
  gr_OrphanBlobsDeleted :: int
  gr_ExpiredMetaDeleted :: int
  gr_BytesReclaimed :: int
  gr_Errors :: "gc_error list"

record ('d, 'b, 'n) gc_env =
  gv_db :: "'d blob_ops"
  gv_backend :: "'b backend_ops"
  gv_config :: gc_config
  gv_hook :: "('n \<Rightarrow> string \<Rightarrow> int \<Rightarrow> 'n) option"
  gv_unicode :: "string \<Rightarrow> string"

text \<open>The states behind the interface values, and the result that the phases fill in.\<close>

record ('d, 'b, 'n) gc =
  g_db :: 'd
  g_backend :: 'b
  g_hook :: 'n
  g_result :: gc_result
  g_lastRun :: "gc_result option"

definition addError :: "gc_error \<Rightarrow> ('d, 'b, 'n) gc \<Rightarrow> ('d, 'b, 'n) gc" where
  "addError e g = g\<lparr>g_result := (g_result g)\<lparr>gr_Errors := gr_Errors (g_result g) @ [e]\<rparr>\<rparr>"

section \<open>Phase 1: expired metadata\<close>

text \<open>\<open>ctx n\<close> says whether the context is done with \<open>n\<close> items to go.\<close>

fun expireLoop ::
  "('d, 'b, 'n) gc_env \<Rightarrow> (nat \<Rightarrow> bool) \<Rightarrow> expiry_entry list \<Rightarrow> ('d, 'b, 'n) gc \<Rightarrow> ('d, 'b, 'n) gc" where
  "expireLoop v ctx [] g = g"
| "expireLoop v ctx (entry # rest) g =
     (if ctx (Suc (length rest)) then g
      else (case bo_DeleteExpiredMeta (gv_db v) (g_db g) entry of
              (Inl e, d) \<Rightarrow> expireLoop v ctx rest (addError (DeleteMetaFailed entry e) (g\<lparr>g_db := d\<rparr>))
            | (Inr deleted, d) \<Rightarrow>
                let g1 = g\<lparr>g_db := d\<rparr>
                in expireLoop v ctx rest
                     (if \<not> deleted then g1
                      else g1\<lparr>g_result := (g_result g1)
                               \<lparr>gr_ExpiredMetaDeleted := gr_ExpiredMetaDeleted (g_result g1) + 1,
                                gr_BytesReclaimed := gr_BytesReclaimed (g_result g1) + ee_Size entry\<rparr>\<rparr>)))"

definition phaseExpireMeta ::
  "('d, 'b, 'n) gc_env \<Rightarrow> (nat \<Rightarrow> bool) \<Rightarrow> time \<Rightarrow> ('d, 'b, 'n) gc \<Rightarrow> ('d, 'b, 'n) gc" where
  "phaseExpireMeta v ctx now g =
     (case bo_GetExpiredMeta (gv_db v) (g_db g) now (gc_BatchSize (gv_config v)) of
        Inl e \<Rightarrow> addError (GetExpiredFailed e) g
      | Inr expired \<Rightarrow> expireLoop v ctx expired g)"

section \<open>Phase 2: unreferenced blobs\<close>

definition deleteBlob ::
  "('d, 'b, 'n) gc_env \<Rightarrow> ('d, 'b, 'n) gc \<Rightarrow> string \<Rightarrow> (gc_delete_error + int) \<times> ('d, 'b, 'n) gc" where
  "deleteBlob v g hash =
     (case (case bo_GetBlob (gv_db v) (g_db g) hash of
              Inl e \<Rightarrow> if e = ErrNotFound then Inr 0 else Inl (GetMetadataFailed e)
            | Inr entry \<Rightarrow> Inr (be_Size entry)) of
        Inl e \<Rightarrow> (Inl e, g)
      | Inr sz \<Rightarrow>
          (case ParseBlobRef (gv_unicode v) hash of
             Inl e \<Rightarrow> (Inl (ParseFailed e), g)
           | Inr ref \<Rightarrow>
               (case bk_Delete (gv_backend v) (g_backend g) (BlobStorageKey (br_hash ref)) of
                  (r, b) \<Rightarrow>
                    let g1 = g\<lparr>g_backend := b\<rparr>
                    in if r \<noteq> Inr () \<and> r \<noteq> Inl BackendNotFound
                       then (Inl (BackendDeleteFailed (case r of Inl e \<Rightarrow> e | Inr _ \<Rightarrow> IOFailed)), g1)
                       else (case bo_DeleteBlob (gv_db v) (g_db g1) hash of
                               (rd, d) \<Rightarrow>
                                 let g2 = g1\<lparr>g_db := d\<rparr>
                                 in if rd \<noteq> Inr () \<and> rd \<noteq> Inl ErrNotFound
                                    then (Inl (MetaDeleteFailed (case rd of Inl e \<Rightarrow> e | Inr _ \<Rightarrow> ErrNotFound)), g2)
                                    else (Inr sz,
                                          case gv_hook v of
                                            None \<Rightarrow> g2
                                          | Some hook \<Rightarrow> g2\<lparr>g_hook := hook (g_hook g2) hash sz\<rparr>)))))"

fun deleteLoop ::
  "('d, 'b, 'n) gc_env \<Rightarrow> (nat \<Rightarrow> bool) \<Rightarrow> string list \<Rightarrow> ('d, 'b, 'n) gc \<Rightarrow> ('d, 'b, 'n) gc" where
  "deleteLoop v ctx [] g = g"
| "deleteLoop v ctx (hash # rest) g =
     (if ctx (Suc (length rest)) then g
      else (case deleteBlob v g hash of
              (Inl e, g1) \<Rightarrow> deleteLoop v ctx rest (addError (DeleteBlobFailed hash e) g1)
            | (Inr bytesReclaimed, g1) \<Rightarrow>
                deleteLoop v ctx rest
                  (g1\<lparr>g_result := (g_result g1)
                        \<lparr>gr_UnreferencedBlobsDeleted := gr_UnreferencedBlobsDeleted (g_result g1) + 1,
                         gr_BytesReclaimed := gr_BytesReclaimed (g_result g1) + bytesReclaimed\<rparr>\<rparr>)))"

definition phaseDeleteUnreferenced ::
  "('d, 'b, 'n) gc_env \<Rightarrow> (nat \<Rightarrow> bool) \<Rightarrow> time \<Rightarrow> ('d, 'b, 'n) gc \<Rightarrow> ('d, 'b, 'n) gc" where
  "phaseDeleteUnreferenced v ctx now g =
     (let before = (if gc_BlobRetentionTTL (gv_config v) > 0 then now - gc_BlobRetentionTTL (gv_config v)
                    else zero_time)
      in case bo_GetUnreferenced (gv_db v) (g_db g) before (gc_BatchSize (gv_config v)) of
           Inl e \<Rightarrow> addError (GetUnreferencedFailed e) g
         | Inr hashes \<Rightarrow> deleteLoop v ctx hashes g)"

section \<open>Phase 3: orphans\<close>

text \<open>The row of a stored key: under its reference, else under the plain hexadecimal hash of old
  databases.\<close>

definition rowOfKey :: "('d, 'b, 'n) gc_env \<Rightarrow> 'd \<Rightarrow> hash \<Rightarrow> mdb_error + blob_entry" where
  "rowOfKey v d h =
     (case bo_GetBlob (gv_db v) d (blobRefOf h) of
        Inl e \<Rightarrow> if e = ErrNotFound then bo_GetBlob (gv_db v) d (hash_String h) else Inl e
      | Inr entry \<Rightarrow> Inr entry)"

fun orphanLoop ::
  "('d, 'b, 'n) gc_env \<Rightarrow> (nat \<Rightarrow> bool) \<Rightarrow> int \<Rightarrow> string list \<Rightarrow> ('d, 'b, 'n) gc \<Rightarrow> ('d, 'b, 'n) gc" where
  "orphanLoop v ctx processed [] g = g"
| "orphanLoop v ctx processed (key # rest) g =
     (if processed \<ge> gc_BatchSize (gv_config v) then g
      else if ctx (Suc (length rest)) then g
      else (case ParseBlobStorageKey key of
              Inl _ \<Rightarrow> orphanLoop v ctx processed rest g
            | Inr h \<Rightarrow>
                (case rowOfKey v (g_db g) h of
                   Inr _ \<Rightarrow> orphanLoop v ctx processed rest g
                 | Inl e \<Rightarrow>
                     if e \<noteq> ErrNotFound
                     then orphanLoop v ctx processed rest (addError (CheckBlobFailed (blobRefOf h) e) g)
                     else
                       let sz = (case bk_Size (gv_backend v) of
                                   None \<Rightarrow> 0
                                 | Some f \<Rightarrow> (case f (g_backend g) key of Inl _ \<Rightarrow> 0 | Inr n \<Rightarrow> n))
                       in (case bk_Delete (gv_backend v) (g_backend g) key of
                             (Inl e, b) \<Rightarrow>
                               orphanLoop v ctx processed rest
                                 (addError (DeleteOrphanFailed key e) (g\<lparr>g_backend := b\<rparr>))
                           | (Inr _, b) \<Rightarrow>
                               orphanLoop v ctx (processed + 1) rest
                                 (g\<lparr>g_backend := b,
                                    g_result := (g_result g)
                                      \<lparr>gr_OrphanBlobsDeleted := gr_OrphanBlobsDeleted (g_result g) + 1,
                                       gr_BytesReclaimed := gr_BytesReclaimed (g_result g) + sz\<rparr>\<rparr>)))))"

definition phaseDeleteOrphans ::
  "('d, 'b, 'n) gc_env \<Rightarrow> (nat \<Rightarrow> bool) \<Rightarrow> ('d, 'b, 'n) gc \<Rightarrow> ('d, 'b, 'n) gc" where
  "phaseDeleteOrphans v ctx g =
     (case bk_List (gv_backend v) (g_backend g) ''blobs/'' of
        Inl e \<Rightarrow> addError (ListFailed e) g
      | Inr keys \<Rightarrow> orphanLoop v ctx 0 keys g)"

section \<open>A run\<close>

text \<open>The clock at the start, in the first two phases and at the end.\<close>

definition runGC ::
  "('d, 'b, 'n) gc_env \<Rightarrow> (nat \<Rightarrow> bool) \<Rightarrow> time \<times> time \<times> time \<times> time \<Rightarrow> ('d, 'b, 'n) gc
     \<Rightarrow> gc_result \<times> ('d, 'b, 'n) gc" where
  "runGC v ctx clock g =
     (case clock of (start, t1, t2, t3) \<Rightarrow>
        let g0 = g\<lparr>g_result := \<lparr>gr_StartedAt = start, gr_Duration = 0, gr_UnreferencedBlobsDeleted = 0,
                       gr_OrphanBlobsDeleted = 0, gr_ExpiredMetaDeleted = 0, gr_BytesReclaimed = 0,
                       gr_Errors = []\<rparr>\<rparr>;
            g1 = phaseExpireMeta v ctx t1 g0;
            g2 = phaseDeleteUnreferenced v ctx t2 g1;
            g3 = phaseDeleteOrphans v ctx g2;
            result = (g_result g3)\<lparr>gr_Duration := t3 - start\<rparr>
        in (result, g3\<lparr>g_result := result, g_lastRun := Some result\<rparr>))"

definition RunNow ::
  "('d, 'b, 'n) gc_env \<Rightarrow> (nat \<Rightarrow> bool) \<Rightarrow> time \<times> time \<times> time \<times> time \<Rightarrow> ('d, 'b, 'n) gc
     \<Rightarrow> gc_result \<times> ('d, 'b, 'n) gc" where
  "RunNow v ctx clock g = runGC v ctx clock g"

definition Status :: "('d, 'b, 'n) gc \<Rightarrow> gc_result option" where
  "Status g = g_lastRun g"

end
