(* ===== verification/GCSpec.thy ===== *)
theory GCSpec
  imports GC
begin

text \<open>
  What a run of the garbage collector deletes, over any database and backend that keep their
  contracts: blobs that the database reports as unreferenced, and files without a row.
\<close>

section \<open>What the collector relies on\<close>

text \<open>The same blob, with what expiring metadata may change of its entry.\<close>

definition released :: "blob_entry \<Rightarrow> blob_entry \<Rightarrow> bool" where
  "released e e' \<longleftrightarrow> e' = e\<lparr>be_RefCount := be_RefCount e'\<rparr> \<and> be_RefCount e' \<le> be_RefCount e"

locale gc_db = blobs_contract bo dinv blobs
  for bo :: "'d blob_ops" and dinv :: "'d \<Rightarrow> bool" and blobs :: "'d \<Rightarrow> string \<Rightarrow> blob_entry option" +
  assumes unreferenced_zero: "dinv d \<Longrightarrow> bo_GetUnreferenced bo d before limit = Inr hs \<Longrightarrow> h \<in> set hs \<Longrightarrow>
        \<exists>e. blobs d h = Some e \<and> be_RefCount e = 0 \<and> (IsZero before \<or> lastSeen e \<le> before)"
    and expire_rows: "dinv d \<Longrightarrow> bo_DeleteExpiredMeta bo d x = (r, d') \<Longrightarrow>
        dinv d' \<and> (\<forall>h. rel_option released (blobs d h) (blobs d' h))"

lemma released_refl: "released e e"
  by (simp add: released_def)

lemma released_trans: "released a b \<Longrightarrow> released b c \<Longrightarrow> released a c"
  unfolding released_def by (metis blob_entry.update_convs(5) blob_entry.surjective blob_entry.select_convs(5) order_trans)

lemma released_decRef: "0 \<le> be_RefCount e \<Longrightarrow> released e (decRef e)"
  by (simp add: released_def decRef_def)

text \<open>The bbolt database keeps the contract.\<close>

lemma released_funpow: "released e ((decRef ^^ n) e)"
proof (induction n)
  case (Suc n)
  have "released x (decRef x)" for x by (simp add: released_def decRef_def)
  then show ?case using Suc released_trans by auto
qed (simp add: released_refl)

lemma decrementAllLogged_released:
  assumes "blobs_good (d_blobs d)" "d_blobs d' = decrementAllLogged (d_blobs d) rs"
  shows "rel_option released (blobMap d h) (blobMap d' h)"
proof -
  have "bget (d_blobs d') h = map_option (map_cell (decRef ^^ count_list rs h)) (bget (d_blobs d) h)"
    using assms decrementAllLogged_bget by (simp add: blobs_good_def)
  then show ?thesis
    using released_funpow by (auto simp: blobMap_def split: option.splits cell.splits)
qed

lemma deleteMetaWithRefsInTx_blobs:
  "deleteMetaWithRefsInTx d p k = Inr d' \<Longrightarrow> \<exists>rs. d_blobs d' = decrementAllLogged (d_blobs d) rs"
  by (auto simp: deleteMetaWithRefsInTx_def removeMetaExpiryIndex_def tx_unfold dest!: frames)

interpretation gc_bolt: gc_db boltBlobs blobs_inv blobMap
proof
  fix d before limit hs h
  assume d: "blobs_inv d" and u: "bo_GetUnreferenced boltBlobs d before limit = Inr hs" "h \<in> set hs"
  have "wf_bucket (d_blobs d)" "h \<in> set (GetUnreferencedBlobs d before limit)"
    using d u by (simp_all add: blobs_inv_def blobs_good_def boltBlobs_def)
  then obtain e where "bget (d_blobs d) h = Some (Good e)" "unreferenced before e"
    by (rule GetUnreferencedBlobs_in)
  then show "\<exists>e. blobMap d h = Some e \<and> be_RefCount e = 0 \<and> (IsZero before \<or> lastSeen e \<le> before)"
    by (auto simp: blobMap_def unreferenced_def split: if_splits)
next
  fix d x r d'
  assume d: "blobs_inv d" and run: "bo_DeleteExpiredMeta boltBlobs d x = (r, d')"
  have "d' = d \<or> (\<exists>p k. deleteMetaWithRefsInTx d p k = Inr d')"
    using run by (auto simp: boltBlobs_def DeleteExpiredMetaWithRefs_def batch_def tx_unfold split: sum.splits if_splits)
  then show "blobs_inv d' \<and> (\<forall>h. rel_option released (blobMap d h) (blobMap d' h))"
  proof (elim disjE exE)
    assume "d' = d"
    then show ?thesis using d by (simp add: rel_option_reflI released_refl)
  next
    fix p k assume t: "deleteMetaWithRefsInTx d p k = Inr d'"
    then obtain rs where rs: "d_blobs d' = decrementAllLogged (d_blobs d) rs" using deleteMetaWithRefsInTx_blobs by blast
    then show ?thesis
      using d decrementAllLogged_released [OF _ rs] decrementAllLogged_good by (simp add: blobs_inv_def)
  qed
qed

section \<open>The phases\<close>

text \<open>What a run leaves: rows that are counted or were seen within the retention time.\<close>

definition keepsRow :: "gc_config \<Rightarrow> time \<Rightarrow> blob_entry \<Rightarrow> bool" where
  "keepsRow cfg now e \<longleftrightarrow>
     be_RefCount e \<noteq> 0
     \<or> (let before = now - gc_BlobRetentionTTL cfg
        in gc_BlobRetentionTTL cfg > 0 \<and> \<not> IsZero before \<and> lastSeen e > before)"

locale collector =
  db: gc_db "gv_db v" dinv blobs +
  backend: backend_contract "gv_backend v" binv healthy content listed
  for v :: "('d, 'b, 'n) gc_env" and dinv blobs binv healthy content listed
begin

definition gc_ok :: "('d, 'b, 'n) gc \<Rightarrow> bool" where
  "gc_ok g \<longleftrightarrow> dinv (g_db g) \<and> binv (g_backend g)"

text \<open>Rows and files outside \<open>hs\<close> are as they were, and rows of \<open>hs\<close> too where they remain.\<close>

definition untouched :: "string set \<Rightarrow> ('d, 'b, 'n) gc \<Rightarrow> ('d, 'b, 'n) gc \<Rightarrow> bool" where
  "untouched hs g g' \<longleftrightarrow>
     (\<forall>h. blobs (g_db g') h = blobs (g_db g) h \<or> h \<in> hs \<and> blobs (g_db g') h = None)
     \<and> (\<forall>x. is_hash x \<longrightarrow> blobRefOf x \<notin> hs \<longrightarrow> content (g_backend g') x = content (g_backend g) x)"

lemma untouched_refl [simp]: "untouched hs g g"
  by (simp add: untouched_def)

lemma untouchedD:
  "untouched hs g g' \<Longrightarrow> blobs (g_db g) h = None \<Longrightarrow> blobs (g_db g') h = None"
  "untouched hs g g' \<Longrightarrow> h \<notin> hs \<Longrightarrow> blobs (g_db g') h = blobs (g_db g) h"
  "untouched hs g g' \<Longrightarrow> is_hash x \<Longrightarrow> blobRefOf x \<notin> hs \<Longrightarrow> content (g_backend g') x = content (g_backend g) x"
  unfolding untouched_def by metis+

lemma untouched_trans: "untouched hs a b \<Longrightarrow> untouched ks b c \<Longrightarrow> untouched (hs \<union> ks) a c"
  unfolding untouched_def by (metis UnCI)

lemma addError_simps [simp]:
  "g_db (addError e g) = g_db g" "g_backend (addError e g) = g_backend g" "g_hook (addError e g) = g_hook g"
  "gc_ok (addError e g) = gc_ok g" "untouched hs g0 (addError e g) = untouched hs g0 g"
  by (simp_all add: addError_def gc_ok_def untouched_def)

lemma expireLoop_spec:
  "gc_ok g \<Longrightarrow> gc_ok (expireLoop v ctx xs g) \<and> g_backend (expireLoop v ctx xs g) = g_backend g
    \<and> g_hook (expireLoop v ctx xs g) = g_hook g
    \<and> (\<forall>h. rel_option released (blobs (g_db g) h) (blobs (g_db (expireLoop v ctx xs g)) h))"
proof (induction xs arbitrary: g)
  case Nil
  then show ?case by (simp add: rel_option_reflI released_refl)
next
  case (Cons x xs)
  obtain r d where r: "bo_DeleteExpiredMeta (gv_db v) (g_db g) x = (r, d)" by fastforce
  have d: "dinv d" "\<forall>h. rel_option released (blobs (g_db g) h) (blobs d h)"
    using db.expire_rows [OF _ r] Cons.prems by (simp_all add: gc_ok_def)
  have trans: "rel_option released a c" if "rel_option released a b" "rel_option released b c" for a b c
    using that released_trans by (auto simp: rel_option_iff split: option.splits)
  show ?case
  proof (cases "ctx (Suc (length xs))")
    case True
    then show ?thesis using Cons.prems by (simp add: rel_option_reflI released_refl)
  next
    case False
    obtain g1 where g1: "expireLoop v ctx (x # xs) g = expireLoop v ctx xs g1" "g_db g1 = d"
      "g_backend g1 = g_backend g" "g_hook g1 = g_hook g"
      using False r by (cases r) (simp_all add: Let_def)
    have "gc_ok g1" using g1 d Cons.prems by (simp add: gc_ok_def)
    from Cons.IH [OF this] show ?thesis using g1 d(2) trans by metis
  qed
qed

lemma deleteBlob_spec:
  assumes ok: "gc_ok g" and x: "is_hash x" and run: "deleteBlob v g (blobRefOf x) = (res, g')"
  shows "gc_ok g' \<and> untouched {blobRefOf x} g g'
    \<and> (case res of
         Inl _ \<Rightarrow> True
       | Inr n \<Rightarrow> blobs (g_db g') (blobRefOf x) = None
           \<and> n = (case blobs (g_db g) (blobRefOf x) of None \<Rightarrow> 0 | Some e \<Rightarrow> be_Size e)
           \<and> content (g_backend g') x = None)
    \<and> (healthy (g_backend g) \<longrightarrow> healthy (g_backend g') \<and> (\<exists>n. res = Inr n))"
proof -
  let ?h = "blobRefOf x"
  have inv: "dinv (g_db g)" "binv (g_backend g)" using ok by (simp_all add: gc_ok_def)
  obtain sz where sz: "(case bo_GetBlob (gv_db v) (g_db g) ?h of
      Inl e \<Rightarrow> if e = ErrNotFound then Inr 0 else Inl (GetMetadataFailed e)
    | Inr entry \<Rightarrow> Inr (be_Size entry)) = Inr sz"
    "sz = (case blobs (g_db g) ?h of None \<Rightarrow> 0 | Some e \<Rightarrow> be_Size e)"
    using db.get_blob [OF inv(1), of ?h] by (auto split: option.splits)
  have parse: "ParseBlobRef (gv_unicode v) ?h = Inr (NewBlobRef x)" "br_hash (NewBlobRef x) = x"
    using x by (simp_all add: blobRefOf_def) (simp add: NewBlobRef_def)
  obtain r b where r: "bk_Delete (gv_backend v) (g_backend g) (BlobStorageKey x) = (r, b)" by fastforce
  note dd = backend.del_data [OF inv(2) x r]
  show ?thesis
  proof (cases "r = Inr () \<or> r = Inl BackendNotFound")
    case False
    then obtain e where "r = Inl e" "res = Inl (BackendDeleteFailed e)" "g' = g\<lparr>g_backend := b\<rparr>"
      using run sz(1) parse r by (cases r) (auto simp: deleteBlob_def)
    then show ?thesis using dd False inv by (auto simp: gc_ok_def untouched_def)
  next
    case True
    obtain d where d: "bo_DeleteBlob (gv_db v) (g_db g) ?h = (Inr (), d)" "dinv d"
      "blobs d = (blobs (g_db g))(?h := None)" using db.del_blob [OF inv(1)] by blast
    have "res = Inr sz" "g_backend g' = b" "g_db g' = d"
      using run sz(1) parse r True d(1) by (auto simp: deleteBlob_def Let_def split: option.splits)
    then show ?thesis
      using dd True inv d(2,3) sz(2) x by (auto simp: gc_ok_def untouched_def)
  qed
qed

lemma deleteLoop_spec:
  assumes "gc_ok g" and "\<forall>h \<in> set hs. \<exists>x. is_hash x \<and> h = blobRefOf x"
  shows "gc_ok (deleteLoop v ctx hs g) \<and> untouched (set hs) g (deleteLoop v ctx hs g)"
  using assms
proof (induction hs arbitrary: g)
  case (Cons h hs)
  obtain x where x: "is_hash x" "h = blobRefOf x" using Cons.prems(2) by auto
  obtain res g1 where run: "deleteBlob v g h = (res, g1)" by fastforce
  note ds = deleteBlob_spec [OF Cons.prems(1) x(1) run [unfolded x(2)]]
  show ?case
  proof (cases "ctx (Suc (length hs))")
    case True
    then show ?thesis using Cons.prems(1) by simp
  next
    case False
    obtain g2 where g2: "deleteLoop v ctx (h # hs) g = deleteLoop v ctx hs g2" "g_db g2 = g_db g1"
      "g_backend g2 = g_backend g1"
      using False run by (cases res) simp_all
    have "gc_ok g2" "untouched {h} g g2" using ds g2 x(2) by (simp_all add: gc_ok_def untouched_def)
    then show ?thesis
      using Cons.IH [of g2] Cons.prems(2) g2(1) untouched_trans [of "{h}" g g2 "set hs"] by simp
  qed
qed simp

text \<open>A file goes only when neither of its rows exists.\<close>

definition hasRow :: "'d \<Rightarrow> hash \<Rightarrow> bool" where
  "hasRow d x \<longleftrightarrow> blobs d (blobRefOf x) \<noteq> None \<or> blobs d (hash_String x) \<noteq> None"

lemma rowOfKey_None: "dinv d \<Longrightarrow> rowOfKey v d x = Inl ErrNotFound \<longleftrightarrow> \<not> hasRow d x"
  by (auto simp: rowOfKey_def hasRow_def db.get_blob split: option.splits)

lemma orphanLoop_spec:
  assumes "gc_ok g" and "\<forall>key \<in> set keys. listed key"
  shows "gc_ok (orphanLoop v ctx n keys g) \<and> g_db (orphanLoop v ctx n keys g) = g_db g
    \<and> g_hook (orphanLoop v ctx n keys g) = g_hook g
    \<and> (\<forall>x. is_hash x \<longrightarrow> hasRow (g_db g) x \<longrightarrow>
          content (g_backend (orphanLoop v ctx n keys g)) x = content (g_backend g) x)"
  using assms
proof (induction keys arbitrary: g n)
  case (Cons key keys)
  show ?case
  proof (cases "n \<ge> gc_BatchSize (gv_config v) \<or> ctx (Suc (length keys))")
    case True
    then show ?thesis using Cons.prems by auto
  next
    case go: False
    obtain r b where r: "bk_Delete (gv_backend v) (g_backend g) key = (r, b)" by fastforce
    have inv: "dinv (g_db g)" "binv (g_backend g)" using Cons.prems(1) by (simp_all add: gc_ok_def)
    have dl: "binv b" "\<And>x. is_hash x \<Longrightarrow> key \<noteq> BlobStorageKey x \<Longrightarrow> content b x = content (g_backend g) x"
      using backend.del_listed [OF inv(2) _ r] Cons.prems(2) by simp_all
    have "\<exists>g1 k. orphanLoop v ctx n (key # keys) g = orphanLoop v ctx k keys g1 \<and> g_db g1 = g_db g \<and> g_hook g1 = g_hook g
        \<and> (g_backend g1 = g_backend g
           \<or> g_backend g1 = b \<and> (\<exists>h. ParseBlobStorageKey key = Inr h \<and> \<not> hasRow (g_db g) h))"
    proof (cases "ParseBlobStorageKey key")
      case (Inl e)
      then have "orphanLoop v ctx n (key # keys) g = orphanLoop v ctx n keys g" using go by simp
      then show ?thesis by blast
    next
      case (Inr h)
      show ?thesis
      proof (cases "rowOfKey v (g_db g) h = Inl ErrNotFound")
        case True
        then have none: "\<not> hasRow (g_db g) h" using rowOfKey_None [OF inv(1)] by simp
        show ?thesis
        proof (cases r)
          case (Inl e)
          have "orphanLoop v ctx n (key # keys) g
              = orphanLoop v ctx n keys (addError (DeleteOrphanFailed key e) (g\<lparr>g_backend := b\<rparr>))"
            using go Inr r True Inl by (simp add: Let_def)
          then show ?thesis using Inr none by (intro exI conjI) (assumption, simp_all)
        next
          case (Inr u)
          obtain g1 where "orphanLoop v ctx n (key # keys) g = orphanLoop v ctx (n + 1) keys g1"
            "g_db g1 = g_db g" "g_hook g1 = g_hook g" "g_backend g1 = b"
            using go \<open>ParseBlobStorageKey key = Inr h\<close> r True Inr by (simp add: Let_def)
          then show ?thesis using \<open>ParseBlobStorageKey key = Inr h\<close> none by blast
        qed
      next
        case False
        then show ?thesis
        proof (cases "rowOfKey v (g_db g) h")
          case (Inl e)
          have "orphanLoop v ctx n (key # keys) g
              = orphanLoop v ctx n keys (addError (CheckBlobFailed (blobRefOf h) e) g)"
            using go Inr Inl False by simp
          then show ?thesis by (intro exI conjI) (assumption, simp_all)
        next
          case (Inr e)
          have "orphanLoop v ctx n (key # keys) g = orphanLoop v ctx n keys g"
            using go \<open>ParseBlobStorageKey key = Inr h\<close> Inr by simp
          then show ?thesis by blast
        qed
      qed
    qed
    then obtain g1 k where g1: "orphanLoop v ctx n (key # keys) g = orphanLoop v ctx k keys g1" "g_db g1 = g_db g"
      "g_hook g1 = g_hook g"
      "g_backend g1 = g_backend g \<or> g_backend g1 = b \<and> (\<exists>h. ParseBlobStorageKey key = Inr h \<and> \<not> hasRow (g_db g) h)"
      by blast
    have "gc_ok g1" using g1 inv dl(1) by (auto simp: gc_ok_def)
    moreover have "content (g_backend g1) x = content (g_backend g) x" if "is_hash x" "hasRow (g_db g) x" for x
      using g1(4) dl(2) [OF that(1)] that ParseBlobStorageKey_key [of x] by (metis sum.inject(2))
    ultimately show ?thesis using Cons.IH [of g1 k] Cons.prems(2) g1 by simp
  qed
qed simp

text \<open>A whole run: what has a row that is referenced after the expiry keeps its row and file.\<close>

lemma runGC_spec:
  assumes ok: "gc_ok g"
    and canonical: "\<forall>h e. blobs (g_db g) h = Some e \<longrightarrow> (\<exists>x. is_hash x \<and> h = blobRefOf x)"
    and run: "runGC v ctx (t0, t1, t2, t3) g = (result, g')"
  shows "\<exists>g1 res. phaseExpireMeta v ctx t1 (g\<lparr>g_result := res\<rparr>) = g1 \<and> gc_ok g1 \<and> gc_ok g'
    \<and> g_backend g1 = g_backend g
    \<and> (\<forall>h. rel_option released (blobs (g_db g) h) (blobs (g_db g1) h))
    \<and> (\<forall>h. blobs (g_db g') h \<noteq> None \<longrightarrow> blobs (g_db g') h = blobs (g_db g1) h)
    \<and> (\<forall>x e. is_hash x \<longrightarrow> blobs (g_db g1) (blobRefOf x) = Some e \<longrightarrow> keepsRow (gv_config v) t2 e \<longrightarrow>
         blobs (g_db g') (blobRefOf x) = Some e \<and> content (g_backend g') x = content (g_backend g) x)"
proof -
  obtain res g1 g2 g3 where steps: "phaseExpireMeta v ctx t1 (g\<lparr>g_result := res\<rparr>) = g1"
    "phaseDeleteUnreferenced v ctx t2 g1 = g2" "phaseDeleteOrphans v ctx g2 = g3"
    "g_db g' = g_db g3" "g_backend g' = g_backend g3"
    using run by (auto simp: runGC_def Let_def)
  have ok0: "gc_ok (g\<lparr>g_result := res\<rparr>)" using ok by (simp add: gc_ok_def)
  have p1: "gc_ok g1" "g_backend g1 = g_backend g" "\<And>h. rel_option released (blobs (g_db g) h) (blobs (g_db g1) h)"
    using expireLoop_spec [OF ok0] ok0 steps(1)
    by (auto simp: phaseExpireMeta_def rel_option_reflI released_refl split: sum.splits)
  let ?ttl = "gc_BlobRetentionTTL (gv_config v)"
  let ?before = "if ?ttl > 0 then t2 - ?ttl else zero_time"
  obtain hs where hs: "g2 = deleteLoop v ctx hs g1 \<and> bo_GetUnreferenced (gv_db v) (g_db g1) ?before (gc_BatchSize (gv_config v)) = Inr hs
      \<or> (\<exists>e. g2 = addError e g1) \<and> hs = []"
    using steps(2) unfolding phaseDeleteUnreferenced_def Let_def
    by (cases "bo_GetUnreferenced (gv_db v) (g_db g1) ?before (gc_BatchSize (gv_config v))") auto
  have unref: "\<exists>e. blobs (g_db g1) h = Some e \<and> be_RefCount e = 0 \<and> (IsZero ?before \<or> lastSeen e \<le> ?before)"
    if "h \<in> set hs" for h
    using hs that db.unreferenced_zero [of "g_db g1" ?before _ hs h] p1(1) by (auto simp: gc_ok_def)
  have "\<exists>x. is_hash x \<and> h = blobRefOf x" if "h \<in> set hs" for h
  proof -
    have "blobs (g_db g1) h \<noteq> None" using unref [OF that] by auto
    then have "blobs (g_db g) h \<noteq> None" using p1(3) [of h] by (cases "blobs (g_db g) h") auto
    then show ?thesis using canonical by auto
  qed
  then have p2: "gc_ok g2" "untouched (set hs) g1 g2"
    using deleteLoop_spec [OF p1(1), of hs ctx] hs p1(1) by auto
  obtain keys n where ks: "g3 = orphanLoop v ctx n keys g2 \<and> bk_List (gv_backend v) (g_backend g2) ''blobs/'' = Inr keys
      \<or> (\<exists>e. g3 = addError e g2)"
    using steps(3) unfolding phaseDeleteOrphans_def by (cases "bk_List (gv_backend v) (g_backend g2) ''blobs/''") auto
  have "\<forall>key \<in> set keys. listed key" if "bk_List (gv_backend v) (g_backend g2) ''blobs/'' = Inr keys"
    using backend.list_data [OF _ _ that] p2(1) by (simp add: gc_ok_def BlobKeyPrefix_def)
  then have p3: "gc_ok g3" "g_db g3 = g_db g2"
    "\<And>x. is_hash x \<Longrightarrow> hasRow (g_db g2) x \<Longrightarrow> content (g_backend g3) x = content (g_backend g2) x"
    using orphanLoop_spec [OF p2(1), of keys ctx n] ks p2(1) by auto
  have kept: "blobRefOf x \<notin> set hs" if "blobs (g_db g1) (blobRefOf x) = Some e" "keepsRow (gv_config v) t2 e" for x e
    using unref [of "blobRefOf x"] that by (auto simp: keepsRow_def Let_def IsZero_def split: if_splits)
  have rows: "blobs (g_db g') h = blobs (g_db g1) h \<or> h \<in> set hs \<and> blobs (g_db g') h = None" for h
    using p2(2) p3(2) steps(4) by (simp add: untouched_def)
  have files: "content (g_backend g') x = content (g_backend g) x"
    if "is_hash x" "blobs (g_db g1) (blobRefOf x) = Some e" "keepsRow (gv_config v) t2 e" for x e
  proof -
    have "hasRow (g_db g2) x"
      using rows [of "blobRefOf x"] kept [OF that(2,3)] that(2) p3(2) steps(4) by (simp add: hasRow_def)
    then show ?thesis
      using p3(3) [OF that(1)] p2(2) kept [OF that(2,3)] that(1) steps(5) p1(2) by (simp add: untouched_def)
  qed
  have a: "gc_ok g'" using p3(1) steps(4,5) by (simp add: gc_ok_def)
  have b: "\<forall>h. blobs (g_db g') h \<noteq> None \<longrightarrow> blobs (g_db g') h = blobs (g_db g1) h" using rows by metis
  have c: "\<forall>x e. is_hash x \<longrightarrow> blobs (g_db g1) (blobRefOf x) = Some e \<longrightarrow> keepsRow (gv_config v) t2 e \<longrightarrow>
      blobs (g_db g') (blobRefOf x) = Some e \<and> content (g_backend g') x = content (g_backend g) x"
    using rows kept files by metis
  have d: "\<forall>h. rel_option released (blobs (g_db g) h) (blobs (g_db g1) h)" using p1(3) by blast
  show ?thesis
    by (intro exI [of _ g1] exI [of _ res] conjI) (rule steps(1) p1(1,2) a b c d)+
qed

text \<open>On a healthy backend, with no cancellation, every listed blob goes and is counted.\<close>

lemma deleteLoop_healthy:
  assumes "gc_ok g" and "\<forall>h \<in> set hs. \<exists>x. is_hash x \<and> h = blobRefOf x" and "healthy (g_backend g)"
    and "\<And>n. \<not> ctx n" and "distinct hs"
  shows "healthy (g_backend (deleteLoop v ctx hs g))
    \<and> (\<forall>x. is_hash x \<longrightarrow> blobRefOf x \<in> set hs \<longrightarrow>
         blobs (g_db (deleteLoop v ctx hs g)) (blobRefOf x) = None \<and> content (g_backend (deleteLoop v ctx hs g)) x = None)
    \<and> g_result (deleteLoop v ctx hs g) = (g_result g)
        \<lparr>gr_UnreferencedBlobsDeleted := gr_UnreferencedBlobsDeleted (g_result g) + int (length hs),
         gr_BytesReclaimed := gr_BytesReclaimed (g_result g)
           + (\<Sum>h \<leftarrow> hs. case blobs (g_db g) h of None \<Rightarrow> 0 | Some e \<Rightarrow> be_Size e)\<rparr>"
  using assms
proof (induction hs arbitrary: g)
  case (Cons h hs)
  obtain x where x: "is_hash x" "h = blobRefOf x" using Cons.prems(2) by auto
  obtain res g1 where run: "deleteBlob v g h = (res, g1)" by fastforce
  note ds = deleteBlob_spec [OF Cons.prems(1) x(1) run [unfolded x(2)]]
  obtain n where n: "res = Inr n" using ds Cons.prems(3) by auto
  have keep: "g_result g1 = g_result g"
    using run by (auto simp: deleteBlob_def Let_def split: sum.splits prod.splits if_splits option.splits)
  let ?g2 = "g1\<lparr>g_result := (g_result g1)
        \<lparr>gr_UnreferencedBlobsDeleted := gr_UnreferencedBlobsDeleted (g_result g1) + 1,
         gr_BytesReclaimed := gr_BytesReclaimed (g_result g1) + n\<rparr>\<rparr>"
  have g2: "deleteLoop v ctx (h # hs) g = deleteLoop v ctx hs ?g2"
    using Cons.prems(4) run n by simp
  have ok2: "gc_ok ?g2" using ds by (simp add: gc_ok_def)
  have rest: "blobs (g_db g1) k = blobs (g_db g) k" if "k \<in> set hs" for k
    using ds that Cons.prems(5) x(2) by (auto simp: untouched_def)
  have sum: "(\<Sum>k \<leftarrow> hs. case blobs (g_db ?g2) k of None \<Rightarrow> 0 | Some e \<Rightarrow> be_Size e)
      = (\<Sum>k \<leftarrow> hs. case blobs (g_db g) k of None \<Rightarrow> 0 | Some e \<Rightarrow> be_Size e)"
    using rest by (intro arg_cong [where f = sum_list] map_cong) simp_all
  have IH: "healthy (g_backend (deleteLoop v ctx hs ?g2))
    \<and> (\<forall>x. is_hash x \<longrightarrow> blobRefOf x \<in> set hs \<longrightarrow>
         blobs (g_db (deleteLoop v ctx hs ?g2)) (blobRefOf x) = None \<and> content (g_backend (deleteLoop v ctx hs ?g2)) x = None)
    \<and> g_result (deleteLoop v ctx hs ?g2) = (g_result ?g2)
        \<lparr>gr_UnreferencedBlobsDeleted := gr_UnreferencedBlobsDeleted (g_result ?g2) + int (length hs),
         gr_BytesReclaimed := gr_BytesReclaimed (g_result ?g2)
           + (\<Sum>h \<leftarrow> hs. case blobs (g_db ?g2) h of None \<Rightarrow> 0 | Some e \<Rightarrow> be_Size e)\<rparr>"
  proof (rule Cons.IH [OF ok2])
    show "healthy (g_backend ?g2)" using ds Cons.prems(3) by simp
  qed (use Cons.prems(2,4,5) in simp_all)
  have un: "untouched (set hs) ?g2 (deleteLoop v ctx hs ?g2)"
    using deleteLoop_spec [OF ok2] Cons.prems(2) by simp
  have "blobs (g_db ?g2) h = None" "content (g_backend ?g2) x = None" "blobRefOf x \<notin> set hs"
    using ds n x Cons.prems(5) by simp_all
  then have here: "blobs (g_db (deleteLoop v ctx hs ?g2)) h = None" "content (g_backend (deleteLoop v ctx hs ?g2)) x = None"
    using untouchedD(1) [OF un] untouchedD(3) [OF un x(1)] by simp_all
  have "n = (case blobs (g_db g) h of None \<Rightarrow> 0 | Some e \<Rightarrow> be_Size e)" using ds n x(2) by simp
  then show ?case
    unfolding g2 using IH here x sum keep by auto
qed simp

text \<open>The run reaches the database only through the two deletes.\<close>

lemma runGC_db:
  assumes P: "P (g_db g)" and "\<And>d x. P d \<Longrightarrow> P (snd (bo_DeleteExpiredMeta (gv_db v) d x))"
    and "\<And>d h. P d \<Longrightarrow> P (snd (bo_DeleteBlob (gv_db v) d h))"
  shows "P (g_db (phaseExpireMeta v ctx t1 (g\<lparr>g_result := res\<rparr>)))" "P (g_db (snd (runGC v ctx clock g)))"
proof -
  have expire: "P (g_db g) \<Longrightarrow> P (g_db (expireLoop v ctx xs g))" for xs g
  proof (induction xs arbitrary: g)
    case (Cons x xs)
    have "P d" if "bo_DeleteExpiredMeta (gv_db v) (g_db g) x = (r, d)" for r d
      using assms(2) [OF Cons.prems, of x] that by simp
    then show ?case using Cons by (auto simp: Let_def split: sum.split prod.split)
  qed simp
  have "P (g_db g') " if "P (g_db g)" "deleteBlob v g h = (r, g')" for g h r g'
    using that assms(3) [OF that(1), of h]
    by (auto simp: deleteBlob_def Let_def split: sum.splits prod.splits if_splits option.splits)
  then have delete: "P (g_db g) \<Longrightarrow> P (g_db (deleteLoop v ctx hs g))" for hs g
    by (induction hs arbitrary: g) (auto split: sum.split prod.split)
  have orphan: "g_db (orphanLoop v ctx n keys g) = g_db g" for keys n g
    by (induction keys arbitrary: n g) (auto simp: Let_def split: sum.split prod.split)
  have phase1: "P (g_db g) \<Longrightarrow> P (g_db (phaseExpireMeta v ctx t g))" for t g
    using expire by (auto simp: phaseExpireMeta_def split: sum.split)
  then show "P (g_db (phaseExpireMeta v ctx t1 (g\<lparr>g_result := res\<rparr>)))" using P by simp
  have "P (g_db g) \<Longrightarrow> P (g_db (phaseDeleteUnreferenced v ctx t g))" for t g
    using delete by (auto simp: phaseDeleteUnreferenced_def Let_def split: sum.split)
  moreover have "g_db (phaseDeleteOrphans v ctx g) = g_db g" for g
    using orphan by (auto simp: phaseDeleteOrphans_def split: sum.split)
  ultimately show "P (g_db (snd (runGC v ctx clock g)))"
    using phase1 P by (auto simp: runGC_def Let_def split: prod.split)
qed

end

section \<open>The server's collector\<close>

definition serverGC ::
  "header_codec \<Rightarrow> gc_config \<Rightarrow> ('n \<Rightarrow> string \<Rightarrow> int \<Rightarrow> 'n) option \<Rightarrow> (string \<Rightarrow> string) \<Rightarrow> (db, fs, 'n) gc_env" where
  "serverGC c cfg hook U =
     \<lparr>gv_db = boltBlobs, gv_backend = filesystem c, gv_config = cfg, gv_hook = hook, gv_unicode = U\<rparr>"

lemma serverGC_simps [simp]:
  "gv_db (serverGC c cfg hook U) = boltBlobs" "gv_backend (serverGC c cfg hook U) = filesystem c"
  "gv_config (serverGC c cfg hook U) = cfg"
  by (simp_all add: serverGC_def)

interpretation gc: collector "serverGC c cfg hook U" blobs_inv blobMap fs_inv fs_healthy fs_content listedKey
  for c cfg hook U
  by (simp add: collector_def gc_bolt.gc_db_axioms filesystem.backend_contract_axioms)

end
