(* ===== verification/StoreProperties.thy ===== *)
theory StoreProperties
  imports CafsSpec GCSpec EvictionProperties DBProperties
begin

text \<open>
  The properties of the content store and of the garbage collector, as the server runs them: over
  the bbolt database and the filesystem backend.
\<close>

section \<open>The content store\<close>

text \<open>C32: a put stores the content under its BLAKE3 hash, leaves every other file alone, and what a get
  of the returned hash delivers has that hash; it is the content itself when the file is new.\<close>

theorem store_put_get:
  fixes s :: "(db, fs, unit, 'n) cafs"
  assumes blake3: "digest_ok blake3" and ok: "storeOk blake3 s"
    and put: "PutWithResult (serverStore c blake3 fmt nt) tf now s r = (Inr p, s')"
  shows "storeOk blake3 s' \<and> (fs_healthy (cs_backend s) \<longrightarrow> fs_healthy (cs_backend s'))
    \<and> pr_Hash p = blake3 (concat (chunks r)) \<and> pr_Size p = int (length (concat (chunks r)))
    \<and> (pr_Exists p \<longleftrightarrow> fs_content (cs_backend s) (pr_Hash p) \<noteq> None)
    \<and> (\<forall>g. is_hash g \<longrightarrow> g \<noteq> pr_Hash p \<longrightarrow> fs_content (cs_backend s') g = fs_content (cs_backend s) g)
    \<and> (fs_healthy (cs_backend s') \<longrightarrow>
        (\<exists>d s''. Get (serverStore c blake3 fmt nt) later s' (pr_Hash p) = (Inr d, s'') \<and> blake3 d = pr_Hash p
          \<and> (\<not> pr_Exists p \<longrightarrow> d = concat (chunks r))))"
proof -
  let ?v = "serverStore c blake3 fmt nt" and ?d = "concat (chunks r)"
  have s: "storeOk blake3 s'" and post: "cafs.put_post c blake3 fmt nt now s ?d p s'"
    and healthy: "fs_healthy (cs_backend s) \<longrightarrow> fs_healthy (cs_backend s')"
    using cafs.PutWithResult_spec [OF _ _ put] blake3 ok by (simp_all add: storeOk_eq [of _ _ c fmt nt])
  note pp = post [unfolded cafs.put_post_def serverStore_simps]
  have h: "is_hash (pr_Hash p)" using pp blake3 by (simp add: digest_ok_def)
  then have stored: "fs_content (cs_backend s') (pr_Hash p)
      = (if pr_Exists p then fs_content (cs_backend s) (pr_Hash p) else Some ?d)"
    using pp by simp
  obtain res s'' where get: "Get ?v later s' (pr_Hash p) = (res, s'')" by fastforce
  have "\<exists>d. res = Inr d \<and> blake3 d = pr_Hash p \<and> (\<not> pr_Exists p \<longrightarrow> d = ?d)" if "fs_healthy (cs_backend s')"
    using cafs.Get_spec [OF _ h get] s that stored pp
    by (cases res) (auto simp: storeOk_eq [of _ _ c fmt nt] split: if_splits)
  then show ?thesis using s pp get healthy by auto
qed

text \<open>A sample digest.\<close>

definition blake3_0 :: "bytes \<Rightarrow> hash" where
  "blake3_0 x = (if x = ''hello'' then hash0 else hash1)"

lemma digest_ok_0 [simp]: "digest_ok blake3_0"
  by (simp add: digest_ok_def blake3_0_def)

definition temp0 :: temp_file where
  "temp0 = \<lparr>tf_create = True, tf_write = True, tf_seek = True, tf_read = True\<rparr>"

definition store0 :: "db \<Rightarrow> (db, fs, unit, unit) cafs" where
  "store0 d = \<lparr>cs_backend = fs0, cs_metaDB = d, cs_metadata = (), cs_notifier = ()\<rparr>"

lemma fs0_content [simp]: "fs_content fs0 h = None"
  by (simp add: fs_content_def fs0_def)

lemma store0_ok: "blobs_inv d \<Longrightarrow> storeOk blake3 (store0 d)"
  by (simp add: storeOk_def store0_def)

abbreviation serverStore0 :: "(db, fs, unit, unit) cafs_env" where
  "serverStore0 \<equiv> serverStore codec0 blake3_0 (\<lambda>_. []) None"

text \<open>The content arrives in two chunks, over a database with a row for its hash.\<close>

definition src1 :: source where
  "src1 = \<lparr>chunks = [''he'', ''llo''], src_fails = False\<rparr>"

lemma sample_put:
  assumes "blobs_inv d"
  shows "\<exists>p s'. PutWithResult serverStore0 temp0 now (store0 d) src1 = (Inr p, s')
    \<and> pr_Hash p = hash0 \<and> \<not> pr_Exists p \<and> fs_healthy (cs_backend s')"
proof -
  obtain res s' where run: "PutWithResult serverStore0 temp0 now (store0 d) src1 = (res, s')" by fastforce
  note spec = cafs.PutWithResult_spec [OF _ _ run, folded storeOk_eq]
  have "\<exists>p. res = Inr p" "fs_healthy (cs_backend s')"
    using spec store0_ok [OF assms] by (simp_all add: store0_def temp_ok_def temp0_def src1_def)
  then obtain p where "res = Inr p" by blast
  moreover have "pr_Hash p = hash0" "\<not> pr_Exists p"
    using spec store0_ok [OF assms] \<open>res = Inr p\<close>
    by (simp_all add: cafs.put_post_def src1_def blake3_0_def store0_def)
  ultimately show ?thesis using run \<open>fs_healthy (cs_backend s')\<close> by blast
qed

theorem store_put_get_witness:
  "\<exists>p s' s''. PutWithResult serverStore0 temp0 5 (store0 createBuckets) src1 = (Inr p, s')
     \<and> Get serverStore0 6 s' hash0 = (Inr ''hello'', s'') \<and> pr_Size p = 5"
proof -
  have "blobs_inv createBuckets"
    using db_reach_good [OF reach_init] by (simp add: blobs_inv_def)
  from sample_put [OF this] obtain p s' where
    p: "PutWithResult serverStore0 temp0 5 (store0 createBuckets) src1 = (Inr p, s')" "pr_Hash p = hash0"
      "\<not> pr_Exists p" "fs_healthy (cs_backend s')" by blast
  show ?thesis
    using store_put_get [OF digest_ok_0 store0_ok p(1), of 6] p \<open>blobs_inv createBuckets\<close>
    by (auto simp: src1_def)
qed

text \<open>What a store goes through: it starts over a backend without blobs; content is put, read and
  deleted, with any calls failing; and the database changes otherwise, but no row of a stored
  file goes or changes its size.\<close>

inductive store_reach :: "(db, fs, unit, 'n) cafs_env \<Rightarrow> (db, fs, unit, 'n) cafs \<Rightarrow> bool" for v where
  store_new: "blobs_inv (cs_metaDB s) \<Longrightarrow> fs_inv (cs_backend s) \<Longrightarrow>
      (\<And>h. is_hash h \<Longrightarrow> fs_content (cs_backend s) h = None) \<Longrightarrow> store_reach v s"
| store_put: "store_reach v s \<Longrightarrow> store_reach v (snd (PutWithResult v tf now s r))"
| store_get: "store_reach v s \<Longrightarrow> is_hash h \<Longrightarrow> store_reach v (snd (Get v now s h))"
| store_delete: "store_reach v s \<Longrightarrow> is_hash h \<Longrightarrow> store_reach v (snd (Delete v s h))"
| store_db: "store_reach v s \<Longrightarrow> blobs_inv d \<Longrightarrow>
      (\<And>h e. is_hash h \<Longrightarrow> fs_content (cs_backend s) h \<noteq> None \<Longrightarrow> GetBlob (cs_metaDB s) (blobRefOf h) = Inr e \<Longrightarrow>
        \<exists>e'. GetBlob d (blobRefOf h) = Inr e' \<and> be_Size e' = be_Size e) \<Longrightarrow>
      store_reach v (s\<lparr>cs_metaDB := d\<rparr>)"

lemma store_reach_ok:
  assumes "store_reach (serverStore c blake3 fmt nt) s" "digest_ok blake3"
  shows "storeOk blake3 s"
  using assms
proof (induction rule: store_reach.induct)
  case (store_new s)
  then show ?case by (simp add: storeOk_def)
next
  case (store_put s tf now r)
  obtain res s' where run: "PutWithResult (serverStore c blake3 fmt nt) tf now s r = (res, s')" by fastforce
  have "storeOk blake3 s" using store_put by blast
  then show ?case
    using cafs.PutWithResult_spec [OF _ _ run] store_put.prems run
    by (simp add: storeOk_eq [of _ _ c fmt nt] serverStore_simps)
next
  case (store_get s h now)
  obtain res s' where run: "Get (serverStore c blake3 fmt nt) now s h = (res, s')" by fastforce
  have "storeOk blake3 s" using store_get by blast
  then show ?case
    using cafs.Get_spec [OF _ store_get.hyps(2) run]  run
    by (simp add: storeOk_eq [of _ _ c fmt nt] serverStore_simps)
next
  case (store_delete s h)
  obtain res s' where run: "Delete (serverStore c blake3 fmt nt) s h = (res, s')" by fastforce
  have "storeOk blake3 s" using store_delete by blast
  then show ?case
    using cafs.Delete_spec [OF _ store_delete.hyps(2) run]  run
    by (simp add: storeOk_eq [of _ _ c fmt nt] serverStore_simps)
next
  case (store_db s d)
  have "\<exists>e'. GetBlob d (blobRefOf h) = Inr e' \<and> be_Size e' = int (length x)"
    if x: "is_hash h" "fs_content (cs_backend s) h = Some x" for h x
  proof -
    obtain e where "GetBlob (cs_metaDB s) (blobRefOf h) = Inr e" "be_Size e = int (length x)"
      using storeOkD [OF store_db.IH [OF store_db.prems] x] by blast
    then show ?thesis using store_db.hyps(3) [OF x(1)] x(2) by fastforce
  qed
  then show ?case using store_db.IH [OF store_db.prems] store_db.hyps(2) by (simp add: storeOk_def)
qed

text \<open>Whatever is put, read and deleted, in any order and with failing calls, a get of a hash
  either fails or delivers content with that hash, and its row has the size of the content; on a
  healthy filesystem it fails only when there is no such file.\<close>

theorem store_content_addressed:
  fixes s :: "(db, fs, unit, 'n) cafs"
  assumes reach: "store_reach (serverStore c blake3 fmt nt) s" and blake3: "digest_ok blake3" and h: "is_hash h"
  shows "case fst (Get (serverStore c blake3 fmt nt) now s h) of
      Inr d \<Rightarrow> blake3 d = h \<and> fs_content (cs_backend s) h = Some d
        \<and> (\<exists>e. GetBlob (cs_metaDB s) (blobRefOf h) = Inr e \<and> be_Size e = int (length d))
    | Inl e \<Rightarrow> (e = ContentNotFound \<or> \<not> fs_healthy (cs_backend s))
        \<and> (e = ContentNotFound \<longrightarrow> fs_content (cs_backend s) h = None)"
proof -
  note ok = store_reach_ok [OF reach blake3]
  obtain res s' where get: "Get (serverStore c blake3 fmt nt) now s h = (res, s')" by fastforce
  show ?thesis
  proof (cases res)
    case (Inl e)
    then show ?thesis using cafs.Get_spec [OF _ h get] ok get by (auto simp: storeOk_eq [of _ _ c fmt nt])
  next
    case (Inr d)
    then have "fs_content (cs_backend s) h = Some d"
      using cafs.Get_spec [OF _ h get] ok by (simp add: storeOk_eq [of _ _ c fmt nt])
    then show ?thesis using storeOkD [OF ok h] Inr get by simp
  qed
qed

theorem store_content_addressed_witness:
  "\<exists>s e. store_reach serverStore0 s \<and> fst (Get serverStore0 6 s hash0) = Inr ''hello''
     \<and> GetBlob (cs_metaDB s) (blobRefOf hash0) = Inr e \<and> be_Size e = 5"
proof -
  have inv: "blobs_inv createBuckets"
    using db_reach_good [OF reach_init] by (simp add: blobs_inv_def)
  from sample_put [OF this] obtain p s' where
    p: "PutWithResult serverStore0 temp0 5 (store0 createBuckets) src1 = (Inr p, s')" "pr_Hash p = hash0"
      "\<not> pr_Exists p" "fs_healthy (cs_backend s')" by blast
  have "store_reach serverStore0 (store0 createBuckets)"
    by (rule store_new) (simp_all add: store0_def inv)
  from store_put [OF this, of temp0 5 src1] have r: "store_reach serverStore0 s'" by (simp add: p(1))
  have "cafs.put_post codec0 blake3_0 (\<lambda>_. []) None 5 (store0 createBuckets) ''hello'' p s'"
    using cafs.PutWithResult_spec [OF _ _ p(1)] store0_ok [OF inv, of blake3_0]
    by (simp add: storeOk_eq [of _ _ codec0 "\<lambda>_. []" None] src1_def)
  then have "fs_content (cs_backend s') hash0 = Some ''hello''" using p by (simp add: cafs.put_post_def)
  then show ?thesis
    using store_content_addressed [OF r digest_ok_0 is_hash_samples(1), of 6] r p(4)
    by (auto split: sum.splits)
qed

lemma blob_frames:
  "d_envs (snd (PutBlob d e)) = d_envs d" "d_envs (snd (DeleteBlob d h)) = d_envs d"
  "d_envs (snd (TouchBlob now d h)) = d_envs d" "d_envs (snd (DeleteExpiredMetaWithRefs d x)) = d_envs d"
proof -
  show "d_envs (snd (DeleteExpiredMetaWithRefs d x)) = d_envs d"
    by (auto simp: DeleteExpiredMetaWithRefs_def deleteMetaWithRefsInTx_def removeMetaExpiryIndex_def batch_def tx_unfold
        updateMetaExpiryIndex_def split: sum.splits option.splits if_splits)
qed (auto simp: PutBlob_def DeleteBlob_def TouchBlob_def modifyBlob_def batch_def tx_unfold split: sum.splits option.splits cell.splits)

lemma put_fresh_row:
  fixes s :: "(db, fs, unit, 'n) cafs"
  assumes blake3: "digest_ok blake3" and ok: "storeOk blake3 s"
    and put: "PutWithResult (serverStore c blake3 fmt nt) tf now s r = (Inr p, s')" and new: "\<not> pr_Exists p"
  shows "storeOk blake3 s'" "is_hash (pr_Hash p)"
    "GetBlob (cs_metaDB s') (blobRefOf (pr_Hash p)) = Inr (newEntry now (pr_Hash p) (pr_Size p))"
    "\<And>h. h \<noteq> blobRefOf (pr_Hash p) \<Longrightarrow> GetBlob (cs_metaDB s') h = GetBlob (cs_metaDB s) h"
    "GetEnvelope (cs_metaDB s') = GetEnvelope (cs_metaDB s)"
    "fs_content (cs_backend s') (pr_Hash p) = Some (concat (chunks r))"
    "fs_healthy (cs_backend s) \<Longrightarrow> fs_healthy (cs_backend s')"
proof -
  show s: "storeOk blake3 s'" and "fs_healthy (cs_backend s) \<Longrightarrow> fs_healthy (cs_backend s')"
    using cafs.PutWithResult_spec [OF _ _ put] blake3 ok by (simp_all add: storeOk_eq [of _ _ c fmt nt])
  have post: "cafs.put_post c blake3 fmt nt now s (concat (chunks r)) p s'"
    using cafs.PutWithResult_spec [OF _ _ put] blake3 ok by (simp add: storeOk_eq [of _ _ c fmt nt])
  have inv: "blobs_inv (cs_metaDB s')" "blobs_inv (cs_metaDB s)" using s ok by (simp_all add: storeOk_def)
  show h: "is_hash (pr_Hash p)" using post blake3 by (simp add: cafs.put_post_def digest_ok_def)
  have row: "GetBlob d h = (case blobMap d h of None \<Rightarrow> Inl ErrNotFound | Some e \<Rightarrow> Inr e)" if "blobs_inv d" for d h
    using bolt_blobs.get_blob [OF that, of h] by (simp add: boltBlobs_def)
  show "GetBlob (cs_metaDB s') (blobRefOf (pr_Hash p)) = Inr (newEntry now (pr_Hash p) (pr_Size p))"
    using post new row [OF inv(1)] by (simp add: cafs.put_post_def)
  show "GetBlob (cs_metaDB s') h = GetBlob (cs_metaDB s) h" if "h \<noteq> blobRefOf (pr_Hash p)" for h
    using post that row [OF inv(1)] row [OF inv(2)] by (simp add: cafs.put_post_def)
  show "fs_content (cs_backend s') (pr_Hash p) = Some (concat (chunks r))"
    using post new h by (simp add: cafs.put_post_def)
  have "d_envs (cs_metaDB s') = d_envs (cs_metaDB s)"
    using cafs.PutWithResult_db [of "\<lambda>d. d_envs d = d_envs (cs_metaDB s)" s now c blake3 fmt nt tf r] put
    by (simp add: boltBlobs_def blob_frames)
  then show "GetEnvelope (cs_metaDB s') = GetEnvelope (cs_metaDB s)"
    by (simp add: GetEnvelope_def fun_eq_iff)
qed

text \<open>C33: a put of content whose file is missing writes a fresh row with the counter 0, also when the
  database has the row and envelopes name it: the collector's query then offers a blob that a
  readable envelope names.\<close>

theorem put_resets_counter:
  fixes s :: "(db, fs, unit, 'n) cafs"
  assumes blake3: "digest_ok blake3" and ok: "storeOk blake3 s"
    and put: "PutWithResult (serverStore c blake3 fmt nt) tf now s r = (Inr p, s')" and new: "\<not> pr_Exists p"
    and env: "GetEnvelope (cs_metaDB s) proto kind k = Inr env" "blobRefOf (pr_Hash p) \<in> set (BlobRefs env)"
  shows "GetBlob (cs_metaDB s') (blobRefOf (pr_Hash p)) = Inr (newEntry now (pr_Hash p) (pr_Size p))
    \<and> blobRefOf (pr_Hash p) \<in> set (GetUnreferencedBlobs (cs_metaDB s') zero_time 0)
    \<and> GetEnvelope (cs_metaDB s') proto kind k = Inr env"
proof -
  let ?h = "blobRefOf (pr_Hash p)"
  note put = put_fresh_row [OF blake3 ok put new]
  have "?h \<in> set (GetUnreferencedBlobs (cs_metaDB s') zero_time 0)"
    using GetUnreferencedBlobs_all [of "cs_metaDB s'" 0 zero_time] put(1,3)
    by (auto simp: GetBlob_Inr storeOk_def blobs_inv_def blobs_good_def unreferenced_def newEntry_def IsZero_def)
  then show ?thesis using put(3,5) env(1) by simp
qed

lemma blobRefOf_hash0: "blobRefOf hash0 = ref0"
  by (simp add: blobRefOf_def ref0_def)

theorem put_resets_counter_witness:
  "\<exists>p s'. PutWithResult serverStore0 temp0 5 (store0 db3) src1 = (Inr p, s')
     \<and> GetBlob db3 ref0 = Inr (blob0 1) \<and> ref0 \<in> set (GetUnreferencedBlobs (cs_metaDB s') zero_time 0)
     \<and> GetEnvelope (cs_metaDB s') ''npm'' ''metadata'' ''left-pad'' = Inr env0 \<and> BlobRefs env0 = [ref0]"
proof -
  from sample_put [OF blobs_db23(4)] obtain p s' where
    p: "PutWithResult serverStore0 temp0 5 (store0 db3) src1 = (Inr p, s')" "pr_Hash p = hash0" "\<not> pr_Exists p" by blast
  have "GetEnvelope (cs_metaDB (store0 db3)) ''npm'' ''metadata'' ''left-pad'' = Inr env0"
    using envelope_db3 by (simp add: store0_def)
  from put_resets_counter [OF digest_ok_0 store0_ok [OF blobs_db23(4)] p(1,3) this] show ?thesis
    using p blob_db3 by (simp add: blobRefOf_hash0)
qed

section \<open>The garbage collector\<close>

text \<open>Rows are filed under the references of the content they describe.\<close>

definition canonicalRows :: "db \<Rightarrow> bool" where
  "canonicalRows d \<longleftrightarrow> (\<forall>h e. GetBlob d h = Inr e \<longrightarrow> (\<exists>x. is_hash x \<and> h = blobRefOf x))"

lemma runGC_runs:
  assumes "db_runs U mar R (g_db g)"
  shows "db_runs U mar R (g_db (phaseExpireMeta (serverGC c cfg hook W) ctx t1 (g\<lparr>g_result := res\<rparr>)))"
    "db_runs U mar R (g_db (snd (runGC (serverGC c cfg hook W) ctx clock g)))"
  using gc.runGC_db [of "db_runs U mar R" g c cfg hook W] assms
    runs_quiet [OF _ step_DeleteExpiredMeta] runs_quiet [OF _ step_DeleteBlob]
  by (simp_all add: boltBlobs_def)

lemma runGC_envs:
  "d_envs (g_db (phaseExpireMeta (serverGC c cfg hook W) ctx t1 (g\<lparr>g_result := res\<rparr>))) = d_envs (g_db g)"
  "d_envs (g_db (snd (runGC (serverGC c cfg hook W) ctx clock g))) = d_envs (g_db g)"
  using gc.runGC_db [of "\<lambda>d. d_envs d = d_envs (g_db g)" g c cfg hook W]
  by (simp_all add: boltBlobs_def blob_frames)

lemma rel_option_Some1: "rel_option R (Some a) y \<Longrightarrow> \<exists>b. y = Some b \<and> R a b"
  by (cases y) auto

text \<open>C29: no run of the collector takes a blob that a readable envelope names while its counter is
  kept (\<open>db_runs\<close>: outside the set \<open>R\<close>) and its row is there: in every such database whose rows
  are filed under references, with any file system calls failing and any cancellation, the
  envelope stays, and the entry and the file of the blob stay with it. What happens outside
  these limits is shown at the end of this theory.\<close>

theorem gc_spares_referenced:
  fixes g :: "(db, fs, 'n) gc"
  assumes runs: "db_runs U mar R (g_db g)" and kept: "blobRefOf x \<notin> R" and fs: "fs_inv (g_backend g)"
    and rows: "canonicalRows (g_db g)"
    and run: "runGC (serverGC c cfg hook W) ctx clock g = (result, g')"
    and env: "GetEnvelope (g_db g) p kd k = Inr env" and x: "is_hash x" "blobRefOf x \<in> set (BlobRefs env)"
    and row: "GetBlob (g_db g) (blobRefOf x) = Inr e"
  shows "GetEnvelope (g_db g') p kd k = Inr env
    \<and> (\<exists>n. GetBlob (g_db g') (blobRefOf x) = Inr (e\<lparr>be_RefCount := n\<rparr>) \<and> 0 < n \<and> n \<le> be_RefCount e)
    \<and> fs_content (g_backend g') x = fs_content (g_backend g) x"
proof -
  let ?v = "serverGC c cfg hook W"
  obtain t0 t1 t2 t3 where clock: "clock = (t0, t1, t2, t3)" by (metis prod_cases4)
  have reach: "db_reach U mar (g_db g)" using runs unfolding db_reach_def by blast
  have good: "blobs_inv d" if "db_reach U mar d" for d
    using db_reach_good [OF that] by (simp add: blobs_inv_def)
  have ok: "gc.gc_ok g" using good [OF reach] fs by (simp add: gc.gc_ok_def)
  have canonical: "\<forall>h a. blobMap (g_db g) h = Some a \<longrightarrow> (\<exists>x. is_hash x \<and> h = blobRefOf x)"
    using rows GetBlob_blobMap [OF good [OF reach]] by (auto simp: canonicalRows_def)
  obtain res :: gc_result and g1 :: "(db, fs, 'n) gc" where g1: "phaseExpireMeta ?v ctx t1 (g\<lparr>g_result := res\<rparr>) = g1"
    "\<And>h. rel_option released (blobMap (g_db g) h) (blobMap (g_db g1) h)"
    "\<And>x e. is_hash x \<Longrightarrow> blobMap (g_db g1) (blobRefOf x) = Some e \<Longrightarrow> keepsRow cfg t2 e \<Longrightarrow>
         blobMap (g_db g') (blobRefOf x) = Some e \<and> fs_content (g_backend g') x = fs_content (g_backend g) x"
    using gc.runGC_spec [OF ok canonical run [unfolded clock]] unfolding serverGC_simps by blast
  have runs1: "db_runs U mar R (g_db g1)" "d_envs (g_db g1) = d_envs (g_db g)"
    using runGC_runs(1) [OF runs] unfolding g1(1) [symmetric] by (blast, simp add: runGC_envs(1))
  have reach1: "db_reach U mar (g_db g1)" using runs1(1) unfolding db_reach_def by blast
  obtain e1 where e1: "blobMap (g_db g1) (blobRefOf x) = Some e1" "released e e1"
    using g1(2) [of "blobRefOf x"] row GetBlob_blobMap [OF good [OF reach]] rel_option_Some1 by metis
  have named: "bget (d_envs (g_db g1)) (makeEnvelopeKey p kd k) = Some (Good env)"
    using env runs1(2) by (simp add: GetEnvelope_Inr)
  have inv1: "db_invR R (g_db g1)" using runs1(1) by (rule db_runs_inv)
  have "0 < refsTo (g_db g1) (blobRefOf x)" using refsTo_env [OF db_inv_structural [OF inv1] named x(2)] .
  then have "0 < be_RefCount e1"
    using inv1 kept e1(1) GetBlob_blobMap [OF good [OF reach1]] by (auto simp: inv_defs counts_ok_def GetBlob_Inr [symmetric])
  moreover have "blobMap (g_db g') (blobRefOf x) = Some e1 \<and> fs_content (g_backend g') x = fs_content (g_backend g) x"
    using g1(3) [OF x(1) e1(1)] \<open>0 < be_RefCount e1\<close> by (simp add: keepsRow_def)
  moreover have "blobs_inv (g_db g')" "d_envs (g_db g') = d_envs (g_db g)"
    using good runGC_runs(2) [OF runs] runGC_envs(2) run unfolding db_reach_def by (metis snd_conv)+
  ultimately show ?thesis
    using env e1(2) GetBlob_blobMap by (auto simp: GetEnvelope_def released_def)
qed

definition gc0 :: "fs \<Rightarrow> (db, fs, unit) gc" where
  "gc0 b = \<lparr>g_db = db3, g_backend = b, g_hook = (),
     g_result = \<lparr>gr_StartedAt = 0, gr_Duration = 0, gr_UnreferencedBlobsDeleted = 0, gr_OrphanBlobsDeleted = 0,
       gr_ExpiredMetaDeleted = 0, gr_BytesReclaimed = 0, gr_Errors = []\<rparr>,
     g_lastRun = None\<rparr>"

abbreviation serverGC0 :: "(db, fs, unit) gc_env" where
  "serverGC0 \<equiv> serverGC codec0 \<lparr>gc_BatchSize = 100, gc_BlobRetentionTTL = 10\<rparr> None id"

lemma gc0_simps [simp]: "g_db (gc0 b) = db3" "g_backend (gc0 b) = b"
  by (simp_all add: gc0_def)

lemma canonical_db3: "canonicalRows db3"
proof -
  have "h = blobRefOf hash0 \<or> h = blobRefOf hash1" if "GetBlob db3 h = Inr e" for h e
  proof -
    have "blobMap db3 h = Some e" using that GetBlob_blobMap [OF blobs_db23(4)] by simp
    then show ?thesis by (auto simp: blobs_db23(2) blobRefOf_def ref0_def ref1_def split: if_splits)
  qed
  then show ?thesis unfolding canonicalRows_def using is_hash_samples by blast
qed

lemma sample_files: "\<exists>b. fs_inv b \<and> fs_healthy b \<and> fs_content b hash0 = Some ''hello''"
proof -
  obtain res b where w: "bk_Write (filesystem codec0) fs0 (BlobStorageKey hash0) src1 = (res, b)"
    by (cases "bk_Write (filesystem codec0) fs0 (BlobStorageKey hash0) src1")
  show ?thesis using filesystem.put_data [OF fs0_ok(1) is_hash_samples(1) w] by (auto simp: src1_def)
qed

theorem gc_spares_referenced_witness:
  "\<exists>b result g' n. runGC serverGC0 (\<lambda>_. False) (100, 101, 102, 103) (gc0 b) = (result, g')
     \<and> GetEnvelope (g_db g') ''npm'' ''metadata'' ''left-pad'' = Inr env0 \<and> BlobRefs env0 = [ref0]
     \<and> GetBlob (g_db g') ref0 = Inr ((blob0 1)\<lparr>be_RefCount := n\<rparr>) \<and> 0 < n
     \<and> fs_content (g_backend g') hash0 = Some ''hello''"
proof -
  obtain b where b: "fs_inv b" "fs_content b hash0 = Some ''hello''" using sample_files by blast
  obtain result g' where run: "runGC serverGC0 (\<lambda>_. False) (100, 101, 102, 103) (gc0 b) = (result, g')"
    by (cases "runGC serverGC0 (\<lambda>_. False) (100, 101, 102, 103) (gc0 b)")
  have "GetBlob (g_db (gc0 b)) (blobRefOf hash0) = Inr (blob0 1)"
    using blob_db3(1) by (simp add: blobRefOf_hash0)
  then show ?thesis
    using gc_spares_referenced [where g = "gc0 b" and R = "{}", OF _ _ _ _ run _ is_hash_samples(1)] runs_db3 [of id] canonical_db3
      b envelope_db3 run blobRefOf_hash0 by fastforce
qed

lemma unreferenced_list:
  assumes wf: "wf_bucket (d_blobs d)"
  shows "distinct (GetUnreferencedBlobs d before limit)"
    "h \<in> set (GetUnreferencedBlobs d before limit) \<Longrightarrow> \<exists>e. GetBlob d h = Inr e \<and> unreferenced before e"
    "limit \<le> 0 \<or> int (length (GetUnreferencedBlobs d before limit)) < limit \<Longrightarrow>
       GetBlob d h = Inr e \<Longrightarrow> unreferenced before e \<Longrightarrow> h \<in> set (GetUnreferencedBlobs d before limit)"
proof -
  let ?xs = "map fst (filter (\<lambda>(k, e). unreferenced before e) (goodEntries (entries (d_blobs d))))"
  have keys: "distinct (map fst (goodEntries xs)) \<and> set (map fst (goodEntries xs)) \<subseteq> set (map fst xs)"
    if "distinct (map fst xs)" for xs :: "(bytes \<times> blob_entry cell) list"
    using that by (induction xs rule: goodEntries.induct) auto
  have "distinct (map fst (entries (d_blobs d)))"
    using wf by (simp add: wf_bucket_def strict_sorted_iff)
  then have "distinct ?xs" using keys distinct_map_filter by blast
  then show "distinct (GetUnreferencedBlobs d before limit)"
    by (simp add: GetUnreferencedBlobs_def limitTo_def)
  show "\<exists>e. GetBlob d h = Inr e \<and> unreferenced before e" if "h \<in> set (GetUnreferencedBlobs d before limit)"
    using GetUnreferencedBlobs_in [OF wf that] by (metis GetBlob_Inr)
  show "h \<in> set (GetUnreferencedBlobs d before limit)"
    if "limit \<le> 0 \<or> int (length (GetUnreferencedBlobs d before limit)) < limit" "GetBlob d h = Inr e" "unreferenced before e"
  proof -
    have "GetUnreferencedBlobs d before limit = GetUnreferencedBlobs d before 0"
      using that(1) by (auto simp: GetUnreferencedBlobs_def limitTo_def min_def split: if_splits)
    then show ?thesis using that(2,3) GetUnreferencedBlobs_all [OF wf, of 0 before] by (auto simp: GetBlob_Inr)
  qed
qed

lemma phase2_collects:
  fixes g :: "(db, fs, 'n) gc" and now :: time and ctx :: "nat \<Rightarrow> bool"
    and c :: header_codec and cfg :: gc_config and hook :: "('n \<Rightarrow> string \<Rightarrow> int \<Rightarrow> 'n) option" and W :: "string \<Rightarrow> string"
  assumes reach: "db_reach U mar (g_db g)" and fs: "fs_inv (g_backend g)" "fs_healthy (g_backend g)"
    and rows: "canonicalRows (g_db g)" and ctx: "\<And>n. \<not> ctx n" and ttl: "0 < gc_BlobRetentionTTL cfg"
  defines "before \<equiv> now - gc_BlobRetentionTTL cfg"
  defines "hs \<equiv> GetUnreferencedBlobs (g_db g) before (gc_BatchSize cfg)"
    and "g' \<equiv> phaseDeleteUnreferenced (serverGC c cfg hook W) ctx now g"
  shows "(\<forall>h. GetBlob (g_db g') h = (if h \<in> set hs then Inl ErrNotFound else GetBlob (g_db g) h))
    \<and> (\<forall>x. is_hash x \<longrightarrow> fs_content (g_backend g') x = (if blobRefOf x \<in> set hs then None else fs_content (g_backend g) x))
    \<and> g_result g' = (g_result g)
        \<lparr>gr_UnreferencedBlobsDeleted := gr_UnreferencedBlobsDeleted (g_result g) + int (length hs),
         gr_BytesReclaimed := gr_BytesReclaimed (g_result g)
           + (\<Sum>h \<leftarrow> hs. case GetBlob (g_db g) h of Inl _ \<Rightarrow> 0 | Inr e \<Rightarrow> be_Size e)\<rparr>
    \<and> (gc_BatchSize cfg \<le> 0 \<or> int (length hs) < gc_BatchSize cfg \<longrightarrow>
        (\<forall>h e. GetBlob (g_db g') h = Inr e \<longrightarrow> \<not> unreferenced before e))"
proof -
  have good: "blobs_inv (g_db g)" using db_reach_good [OF reach] by (simp add: blobs_inv_def)
  have ok: "gc.gc_ok g" using good fs by (simp add: gc.gc_ok_def)
  have g': "g' = deleteLoop (serverGC c cfg hook W) ctx hs g"
    using ttl by (simp add: g'_def hs_def before_def phaseDeleteUnreferenced_def boltBlobs_def)
  have wf: "wf_bucket (d_blobs (g_db g))" using good by (simp add: blobs_inv_def blobs_good_def)
  note hs = unreferenced_list [OF wf, where before = before and limit = "gc_BatchSize cfg", folded hs_def]
  have canonical: "\<forall>h \<in> set hs. \<exists>x. is_hash x \<and> h = blobRefOf x"
    using hs(2) rows unfolding canonicalRows_def by blast
  have spec: "gc.gc_ok g'" "gc.untouched (set hs) g g'"
    using gc.deleteLoop_spec [OF ok canonical] by (simp_all add: g')
  note all = gc.deleteLoop_healthy [where ctx = ctx and c = c and cfg = cfg and hook = hook and U = W, OF ok canonical fs(2) ctx hs(1), folded g']
  have good': "blobs_inv (g_db g')" using spec(1) by (simp add: gc.gc_ok_def)
  have row: "GetBlob d h = (case blobMap d h of None \<Rightarrow> Inl ErrNotFound | Some e \<Rightarrow> Inr e)" if "blobs_inv d" for d h
    using bolt_blobs.get_blob [OF that, of h] by (simp add: boltBlobs_def)
  have gone: "blobMap (g_db g') h = None" if h: "h \<in> set hs" for h
  proof -
    obtain x where "is_hash x" "h = blobRefOf x" using canonical h by blast
    then show ?thesis using all h by simp
  qed
  have kept: "blobMap (g_db g') h = blobMap (g_db g) h" if "h \<notin> set hs" for h
    using gc.untouchedD(2) [OF spec(2) that] .
  have a: "\<forall>h. GetBlob (g_db g') h = (if h \<in> set hs then Inl ErrNotFound else GetBlob (g_db g) h)"
    using gone kept by (simp add: row [OF good] row [OF good'])
  have b: "\<forall>x. is_hash x \<longrightarrow> fs_content (g_backend g') x
      = (if blobRefOf x \<in> set hs then None else fs_content (g_backend g) x)"
    using all gc.untouchedD(3) [OF spec(2)] by auto
  have result: "g_result g' = (g_result g)
        \<lparr>gr_UnreferencedBlobsDeleted := gr_UnreferencedBlobsDeleted (g_result g) + int (length hs),
         gr_BytesReclaimed := gr_BytesReclaimed (g_result g)
           + (\<Sum>h \<leftarrow> hs. case blobMap (g_db g) h of None \<Rightarrow> 0 | Some e \<Rightarrow> be_Size e)\<rparr>"
    using all by simp
  have sum: "(\<Sum>h \<leftarrow> hs. case blobMap (g_db g) h of None \<Rightarrow> 0 | Some e \<Rightarrow> be_Size e)
      = (\<Sum>h \<leftarrow> hs. case GetBlob (g_db g) h of Inl _ \<Rightarrow> 0 | Inr e \<Rightarrow> be_Size e)"
    by (intro arg_cong [where f = sum_list] map_cong) (simp_all add: row [OF good] split: option.split)
  have d: "gc_BatchSize cfg \<le> 0 \<or> int (length hs) < gc_BatchSize cfg \<longrightarrow>
        (\<forall>h e. GetBlob (g_db g') h = Inr e \<longrightarrow> \<not> unreferenced before e)"
    using a hs(3) by (auto split: if_splits)
  show ?thesis by (intro conjI) (rule a b d result [unfolded sum])+
qed

text \<open>C31: without failures and cancellations the second phase deletes the row and the file of every
  blob its query returns and nothing else, counts them and their bytes, and reports no error;
  when the batch was not full no unreferenced row older than the retention time is left.\<close>

theorem gc_collects:
  fixes g :: "(db, fs, 'n) gc" and now :: time and ctx :: "nat \<Rightarrow> bool"
    and c :: header_codec and cfg :: gc_config and hook :: "('n \<Rightarrow> string \<Rightarrow> int \<Rightarrow> 'n) option" and W :: "string \<Rightarrow> string"
  assumes reach: "db_reach U mar (g_db g)" and fs: "fs_inv (g_backend g)" "fs_healthy (g_backend g)"
    and rows: "canonicalRows (g_db g)" and ctx: "\<And>n. \<not> ctx n" and ttl: "0 < gc_BlobRetentionTTL cfg"
  defines "before \<equiv> now - gc_BlobRetentionTTL cfg"
  defines "hs \<equiv> GetUnreferencedBlobs (g_db g) before (gc_BatchSize cfg)"
    and "g' \<equiv> phaseDeleteUnreferenced (serverGC c cfg hook W) ctx now g"
  shows "(\<forall>h. GetBlob (g_db g') h = (if h \<in> set hs then Inl ErrNotFound else GetBlob (g_db g) h))
    \<and> (\<forall>x. is_hash x \<longrightarrow> fs_content (g_backend g') x = (if blobRefOf x \<in> set hs then None else fs_content (g_backend g) x))
    \<and> g_result g' = (g_result g)
        \<lparr>gr_UnreferencedBlobsDeleted := gr_UnreferencedBlobsDeleted (g_result g) + int (length hs),
         gr_BytesReclaimed := gr_BytesReclaimed (g_result g)
           + (\<Sum>h \<leftarrow> hs. case GetBlob (g_db g) h of Inl _ \<Rightarrow> 0 | Inr e \<Rightarrow> be_Size e)\<rparr>
    \<and> (gc_BatchSize cfg \<le> 0 \<or> int (length hs) < gc_BatchSize cfg \<longrightarrow>
        (\<forall>h e. GetBlob (g_db g') h = Inr e \<longrightarrow> \<not> unreferenced before e))"
  unfolding before_def hs_def g'_def
  by (rule phase2_collects [OF reach fs rows ctx ttl])

theorem gc_collects_witness:
  "\<exists>b. fs_content b hash0 = Some ''hello''
     \<and> (let g' = phaseDeleteUnreferenced serverGC0 (\<lambda>_. False) 102 (gc0 b)
        in GetBlob (g_db g') ref1 = Inl ErrNotFound \<and> GetBlob (g_db g') ref0 = Inr (blob0 1)
          \<and> fs_content (g_backend g') hash0 = Some ''hello'' \<and> gr_UnreferencedBlobsDeleted (g_result g') = 1
          \<and> gr_BytesReclaimed (g_result g') = 7 \<and> gr_Errors (g_result g') = [])"
proof -
  obtain b where b: "fs_inv b" "fs_healthy b" "fs_content b hash0 = Some ''hello''" using sample_files by blast
  have refs: "blobRefOf hash0 = ref0" "blobRefOf hash1 = ref1" by (simp_all add: blobRefOf_def ref0_def ref1_def)
  have hs: "GetUnreferencedBlobs db3 92 100 = [ref1]"
  proof -
    have wf: "wf_bucket (d_blobs db3)" using inv_db3 by (simp add: inv_defs)
    note u = unreferenced_list [OF wf, where before = 92 and limit = 100]
    have un: "unreferenced 92 blob1" "\<not> unreferenced 92 (blob0 1)"
      by (simp_all add: unreferenced_def lastSeen_def blob1_def blob0_def)
    have sub: "set (GetUnreferencedBlobs db3 92 100) \<subseteq> {ref1}"
    proof
      fix h assume "h \<in> set (GetUnreferencedBlobs db3 92 100)"
      then obtain e where "GetBlob db3 h = Inr e" "unreferenced 92 e" using u(2) by blast
      then show "h \<in> {ref1}"
        using un GetBlob_blobMap [OF blobs_db23(4)] by (auto simp: blobs_db23(2) split: if_splits)
    qed
    have "length (GetUnreferencedBlobs db3 92 100) \<le> 1"
      using card_mono [OF _ sub] distinct_card [OF u(1)] by simp
    then have "ref1 \<in> set (GetUnreferencedBlobs db3 92 100)"
      using u(3) [OF _ blob_db3(2) un(1)] by simp
    with sub \<open>length _ \<le> 1\<close> show ?thesis by (cases "GetUnreferencedBlobs db3 92 100") auto
  qed
  show ?thesis
    using gc_collects [where g = "gc0 b" and now = 102 and ctx = "\<lambda>_. False" and c = codec0 and hook = None and W = id
        and cfg = "\<lparr>gc_BatchSize = 100, gc_BlobRetentionTTL = 10\<rparr>"] reach_db3 [of id] canonical_db3 b hs blob_db3
    by (intro exI [of _ b]) (simp add: Let_def refs blob1_def, simp add: gc0_def refs)
qed

lemma deleteBlob_envs:
  "deleteBlob (serverGC c cfg hook W) g h = (r, g') \<Longrightarrow> d_envs (g_db g') = d_envs (g_db g)"
  using blob_frames(2) [of "g_db g" h]
  by (auto simp: deleteBlob_def Let_def boltBlobs_def split: sum.splits prod.splits if_splits option.splits)

lemma deleteLoop_envs: "d_envs (g_db (deleteLoop (serverGC c cfg hook W) ctx hs g)) = d_envs (g_db g)"
  by (induction hs arbitrary: g) (auto dest: deleteBlob_envs split: sum.split prod.split)

lemma phase2_envs: "d_envs (g_db (phaseDeleteUnreferenced (serverGC c cfg hook W) ctx t g)) = d_envs (g_db g)"
  by (simp add: phaseDeleteUnreferenced_def Let_def deleteLoop_envs split: sum.split)



end
