(* ===== verification/World.thy ===== *)
theory World
  imports CafsSpec EnvelopeIndex
begin

text \<open>
  What the protocol handlers are built on: HTTP requests and responses, the interface \<open>Store\<close>
  (\<open>store/store.go\<close>) and an envelope index. Both work on one state, the world, because the rows
  of the store and the envelopes are kept in one database. The locale \<open>cache_world\<close> states what
  a handler may assume of them; the server's content store and database provide it.
\<close>

section \<open>HTTP\<close>

text \<open>A request has its path, its query values, its header, a body that is read as a source and the
  host it was sent to; a response is what the handler wrote.\<close>

record http_request =
  rq_Method :: string
  rq_Path :: string
  rq_Query :: "string \<Rightarrow> string"
  rq_Header :: "string \<Rightarrow> string"
  rq_Body :: source
  rq_Host :: string
  rq_TLS :: bool

record http_response =
  rs_Status :: nat
  rs_Header :: "(string \<times> string) list"
  rs_Body :: bytes

definition reply :: "nat \<Rightarrow> (string \<times> string) list \<Rightarrow> bytes \<Rightarrow> http_response" where
  "reply st hs b = \<lparr>rs_Status = st, rs_Header = hs, rs_Body = b\<rparr>"

text \<open>\<open>http.Error\<close>, \<open>http.NotFound\<close> and a bare \<open>WriteHeader\<close>.\<close>

definition http_Error :: "string \<Rightarrow> nat \<Rightarrow> http_response" where
  "http_Error msg code =
     reply code [(''Content-Type'', ''text/plain; charset=utf-8''), (''X-Content-Type-Options'', ''nosniff'')]
       (msg @ [CHR 0x0A])"

definition http_NotFound :: http_response where
  "http_NotFound = http_Error ''404 page not found'' 404"

definition WriteHeader :: "nat \<Rightarrow> http_response" where
  "WriteHeader code = reply code [] []"

lemma error_status [simp]:
  "rs_Status (http_Error m c) = c" "rs_Status (WriteHeader c) = c" "rs_Status http_NotFound = 404"
  "rs_Status (reply c hs b) = c"
  by (simp_all add: http_Error_def WriteHeader_def http_NotFound_def reply_def)

text \<open>\<open>strconv.FormatInt(n, 10)\<close>.\<close>

fun decimal :: "nat \<Rightarrow> string" where
  "decimal n = (if n < 10 then [char_of (48 + n)] else decimal (n div 10) @ [char_of (48 + n mod 10)])"

declare decimal.simps [simp del]

definition FormatInt :: "int \<Rightarrow> string" where
  "FormatInt n = (if n < 0 then CHR ''-'' # decimal (nat (- n)) else decimal (nat n))"

section \<open>The store\<close>

record 'w store_ops =
  st_Put :: "'w \<Rightarrow> source \<Rightarrow> (cafs_error + hash) \<times> 'w"
  st_Get :: "'w \<Rightarrow> hash \<Rightarrow> (cafs_error + bytes) \<times> 'w"
  st_Has :: "'w \<Rightarrow> hash \<Rightarrow> backend_error + bool"
  st_Delete :: "'w \<Rightarrow> hash \<Rightarrow> (backend_error + unit) \<times> 'w"
  st_Size :: "'w \<Rightarrow> hash \<Rightarrow> cafs_error + int"

text \<open>The content store at a time, with what the system answers to an upload's temporary file.\<close>

definition cafsOps ::
  "('d, 'b, 't, 'n) cafs_env \<Rightarrow> temp_file \<Rightarrow> time \<Rightarrow> ('d, 'b, 't, 'n) cafs store_ops" where
  "cafsOps v tf now =
     \<lparr>st_Put = Put v tf now, st_Get = Get v now, st_Has = Has v, st_Delete = Delete v, st_Size = Size v\<rparr>"

text \<open>An envelope store over the database behind a content store.\<close>

definition liftDB :: "('d, 'b, 't, 'n) cafs \<Rightarrow> 'r \<times> 'd \<Rightarrow> 'r \<times> ('d, 'b, 't, 'n) cafs" where
  "liftDB s x = (fst x, s\<lparr>cs_metaDB := snd x\<rparr>)"

definition onMetaDB :: "'d envelope_store \<Rightarrow> ('d, 'b, 't, 'n) cafs envelope_store" where
  "onMetaDB st =
     \<lparr>es_Put = (\<lambda>s p kd k e. liftDB s (es_Put st (cs_metaDB s) p kd k e)),
      es_Get = (\<lambda>s. es_Get st (cs_metaDB s)),
      es_Delete = (\<lambda>s p kd k. liftDB s (es_Delete st (cs_metaDB s) p kd k)),
      es_List = (\<lambda>s. es_List st (cs_metaDB s)),
      es_Refs = (\<lambda>s. es_Refs st (cs_metaDB s)),
      es_Update = (\<lambda>s p kd k f. liftDB s (es_Update st (cs_metaDB s) p kd k f))\<rparr>"

lemma liftDB_eq: "liftDB w x = (r, w') \<Longrightarrow> x = (r, cs_metaDB w') \<and> w' = w\<lparr>cs_metaDB := cs_metaDB w'\<rparr>"
  by (cases x) (auto simp: liftDB_def)

lemma liftDB_simps [simp]:
  "fst (liftDB w x) = fst x" "cs_metaDB (snd (liftDB w x)) = snd x" "cs_backend (snd (liftDB w x)) = cs_backend w"
  by (simp_all add: liftDB_def)

section \<open>Indexes of the protocols\<close>

text \<open>A protocol's index reports a missing entry as its own error. The JSON encoding of its
  entries is a pair of functions.\<close>

datatype index_error = NotCached | IndexFailed mdb_error

definition indexError :: "mdb_error \<Rightarrow> index_error" where
  "indexError e = (if e = ErrNotFound then NotCached else IndexFailed e)"

record 'v json_codec =
  j_enc :: "'v \<Rightarrow> bytes option"
  j_dec :: "bytes \<Rightarrow> 'v option"

text \<open>What is documented of \<open>encoding/json\<close> for values whose strings are valid UTF-8: what was written is
  read back.\<close>

definition json_ok :: "'v json_codec \<Rightarrow> bool" where
  "json_ok j \<longleftrightarrow> (\<forall>v b. j_enc j v = Some b \<longrightarrow> j_dec j b = Some v)"

definition index_ok :: "env_index \<Rightarrow> bool" where
  "index_ok idx \<longleftrightarrow> zstd_ok (ix_codec idx) \<and> c_decoder (ix_codec idx)
     \<and> sep \<notin> set (ix_protocol idx) \<and> sep \<notin> set (ix_kind idx)"

lemma index_ok_id: "index_ok idx \<Longrightarrow> ok_id (ix_protocol idx, ix_kind idx, key)"
  by (simp add: index_ok_def ok_id_def)

section \<open>The contract\<close>

locale cache_world = env: envelope_contract es inv canon
  for es :: "'w envelope_store" and inv canon +
  fixes st :: "'w store_ops" and content :: "'w \<Rightarrow> hash \<Rightarrow> bytes option" and healthy :: "'w \<Rightarrow> bool"
    and blake3 :: "bytes \<Rightarrow> hash"
  assumes es_content: "content (snd (es_Put es w p kd k eo)) = content w"
      "content (snd (es_Delete es w p kd k)) = content w"
      "content (snd (es_Update es w p kd k f)) = content w"
    and es_healthy: "healthy (snd (es_Put es w p kd k eo)) = healthy w"
      "healthy (snd (es_Delete es w p kd k)) = healthy w"
      "healthy (snd (es_Update es w p kd k f)) = healthy w"
    and content_hash: "inv w \<Longrightarrow> is_hash h \<Longrightarrow> content w h = Some d \<Longrightarrow> blake3 d = h"
    and put_blob: "inv w \<Longrightarrow> st_Put st w r = (pres, w') \<Longrightarrow>
        inv w' \<and> (\<forall>p kd k. es_Get es w' p kd k = es_Get es w p kd k) \<and> (healthy w \<longrightarrow> healthy w')
        \<and> (case pres of
             Inl _ \<Rightarrow> (\<forall>g. is_hash g \<longrightarrow> content w' g = content w g)
           | Inr h \<Rightarrow> is_hash h \<and> h = blake3 (concat (chunks r)) \<and> \<not> src_fails r
               \<and> (\<forall>g. is_hash g \<longrightarrow> content w' g =
                    (if g = h \<and> content w h = None then Some (concat (chunks r)) else content w g)))"
    and get_blob: "inv w \<Longrightarrow> is_hash h \<Longrightarrow> st_Get st w h = (gres, w') \<Longrightarrow>
        inv w' \<and> (\<forall>p kd k. es_Get es w' p kd k = es_Get es w p kd k) \<and> content w' = content w
        \<and> (healthy w' \<longleftrightarrow> healthy w)
        \<and> (case gres of Inr d \<Rightarrow> content w h = Some d | Inl _ \<Rightarrow> healthy w \<longrightarrow> content w h = None)"
    and has_blob: "inv w \<Longrightarrow> is_hash h \<Longrightarrow>
        (case st_Has st w h of Inr x \<Rightarrow> x \<longleftrightarrow> content w h \<noteq> None | Inl _ \<Rightarrow> \<not> healthy w)"
    and size_blob: "inv w \<Longrightarrow> is_hash h \<Longrightarrow>
        (case st_Size st w h of
           Inr n \<Rightarrow> \<exists>d. content w h = Some d \<and> n = int (length d)
         | Inl _ \<Rightarrow> healthy w \<longrightarrow> content w h = None)"
begin

text \<open>An index reads only its envelopes.\<close>

lemma EI_Get_cong:
  "(\<And>p kd k. es_Get es w' p kd k = es_Get es w p kd k) \<Longrightarrow> EI_Get es idx w' key = EI_Get es idx w key"
  by (simp add: EI_Get_def)

lemma EI_GetJSON_cong:
  "(\<And>p kd k. es_Get es w' p kd k = es_Get es w p kd k) \<Longrightarrow> EI_GetJSON dec es idx w' key = EI_GetJSON dec es idx w key"
  by (simp add: EI_GetJSON_def EI_Get_def)

text \<open>What storing a value through an index does.\<close>

lemma index_put_options:
  assumes idx: "index_ok idx" and inv: "inv w"
    and put: "EI_PutWithOptions es idx now w key data ct refs opts = (r, w')"
  shows "inv w' \<and> content w' = content w \<and> (healthy w' \<longleftrightarrow> healthy w)
    \<and> (case r of
         Inl _ \<Rightarrow> w' = w
       | Inr _ \<Rightarrow> EI_Get es idx w' key = Inr data
           \<and> (\<forall>idx' key'. (ix_protocol idx', ix_kind idx', key') \<noteq> (ix_protocol idx, ix_kind idx, key) \<longrightarrow>
                ok_id (ix_protocol idx', ix_kind idx', key') \<longrightarrow> EI_Get es idx' w' key' = EI_Get es idx' w key'))"
proof -
  have "w' = w \<or> (\<exists>e. es_Put es w (ix_protocol idx) (ix_kind idx) key (Some e) = (r, w'))"
    using put by (auto simp: EI_PutWithOptions_def Let_def split: sum.splits)
  then have frame: "inv w'" "content w' = content w" "healthy w' \<longleftrightarrow> healthy w" "\<And>e. r = Inl e \<Longrightarrow> w' = w"
    using env.put_inv [OF inv] es_content(1) es_healthy(1) env.put_err inv by (metis snd_conv)+
  show ?thesis
  proof (cases r)
    case (Inl e)
    then show ?thesis using frame by simp
  next
    case (Inr u)
    have put': "EI_PutWithOptions es idx now w key data ct refs opts = (Inr (), w')" using put Inr by simp
    have "EI_Get es idx w' key = Inr data"
      using env.index_put_get [OF _ _ inv index_ok_id [OF idx] put'] idx by (simp add: index_ok_def)
    moreover have "EI_Get es idx' w' key' = EI_Get es idx' w key'"
      if "(ix_protocol idx', ix_kind idx', key') \<noteq> (ix_protocol idx, ix_kind idx, key)"
        "ok_id (ix_protocol idx', ix_kind idx', key')" for idx' key'
      using env.index_put_other [OF inv index_ok_id [OF idx] that(2,1) put'] .
    ultimately show ?thesis using frame Inr by simp
  qed
qed

lemma index_delete:
  assumes idx: "index_ok idx" and inv: "inv w" and del: "EI_Delete es idx w key = (r, w')"
  shows "inv w' \<and> content w' = content w \<and> (healthy w' \<longleftrightarrow> healthy w)
    \<and> (case r of
         Inl _ \<Rightarrow> w' = w
       | Inr _ \<Rightarrow> EI_Get es idx w' key = Inl ErrNotFound
           \<and> (\<forall>idx' key'. (ix_protocol idx', ix_kind idx', key') \<noteq> (ix_protocol idx, ix_kind idx, key) \<longrightarrow>
                ok_id (ix_protocol idx', ix_kind idx', key') \<longrightarrow> EI_Get es idx' w' key' = EI_Get es idx' w key'))"
proof -
  have del': "es_Delete es w (ix_protocol idx) (ix_kind idx) key = (r, w')" using del by (simp add: EI_Delete_def)
  have frame: "inv w'" "content w' = content w" "healthy w' \<longleftrightarrow> healthy w"
    using env.delete_inv [OF inv, of "ix_protocol idx" "ix_kind idx" key] es_content(2) es_healthy(2) del' by (metis snd_conv)+
  show ?thesis
  proof (cases r)
    case (Inl e)
    then show ?thesis using frame env.delete_err del' by simp
  next
    case (Inr u)
    then have run: "es_Delete es w (ix_protocol idx) (ix_kind idx) key = (Inr (), w')" using del' by simp
    note eff = env.delete_get [OF inv index_ok_id [OF idx] run] env.delete_other [OF inv index_ok_id [OF idx] _ _ run]
    then show ?thesis using frame Inr by (simp add: EI_Get_def)
  qed
qed

lemma index_update:
  assumes idx: "index_ok idx" and inv: "inv w" and upd: "EI_Update es idx now w key fn = (r, w')"
  shows "inv w' \<and> content w' = content w \<and> (healthy w' \<longleftrightarrow> healthy w)
    \<and> (case r of
         Inl _ \<Rightarrow> w' = w
       | Inr _ \<Rightarrow> (\<exists>old newData newRefs.
             fn old (existingOf (EI_GetEnvelope es idx w key)) = Inr (newData, newRefs)
             \<and> (case EI_GetEnvelope es idx w key of
                  Inl _ \<Rightarrow> old = None
                | Inr _ \<Rightarrow> (\<exists>data. EI_Get es idx w key = Inr data \<and> old = nilIfEmpty data))
             \<and> EI_Get es idx w' key = (case newData of None \<Rightarrow> Inl ErrNotFound | Some data \<Rightarrow> Inr data))
           \<and> (\<forall>idx' key'. (ix_protocol idx', ix_kind idx', key') \<noteq> (ix_protocol idx, ix_kind idx, key) \<longrightarrow>
                ok_id (ix_protocol idx', ix_kind idx', key') \<longrightarrow> EI_Get es idx' w' key' = EI_Get es idx' w key'))"
proof -
  obtain f where run: "es_Update es w (ix_protocol idx) (ix_kind idx) key f = (r, w')"
    using upd by (auto simp: EI_Update_def)
  have frame: "inv w'" "content w' = content w" "healthy w' \<longleftrightarrow> healthy w"
    using env.update_inv [OF inv, of "ix_protocol idx" "ix_kind idx" key f] es_content(3) es_healthy(3) run by (metis snd_conv)+
  show ?thesis
  proof (cases r)
    case (Inl e)
    then show ?thesis using frame env.update_err run by simp
  next
    case (Inr u)
    then have run': "es_Update es w (ix_protocol idx) (ix_kind idx) key f = (Inr (), w')"
      and upd': "EI_Update es idx now w key fn = (Inr (), w')" using run upd by simp_all
    note eff = env.index_update_get [OF _ _ inv index_ok_id [OF idx] upd'] env.update_other [OF inv index_ok_id [OF idx] _ _ run']
    then show ?thesis using frame Inr idx by (simp add: EI_Get_def index_ok_def)
  qed
qed

lemma index_json_put:
  assumes idx: "index_ok idx" and inv: "inv w" and put: "EI_PutJSON (j_enc j) es idx now w key v refs = (r, w')"
  shows "inv w' \<and> content w' = content w \<and> (healthy w' \<longleftrightarrow> healthy w)
    \<and> (case r of
         Inl _ \<Rightarrow> w' = w
       | Inr _ \<Rightarrow> (json_ok j \<longrightarrow> EI_GetJSON (j_dec j) es idx w' key = Inr v)
           \<and> (\<forall>idx' key'. (ix_protocol idx', ix_kind idx', key') \<noteq> (ix_protocol idx, ix_kind idx, key) \<longrightarrow>
                ok_id (ix_protocol idx', ix_kind idx', key') \<longrightarrow> EI_Get es idx' w' key' = EI_Get es idx' w key'))"
proof (cases "j_enc j v")
  case None
  then show ?thesis using put inv by (auto simp: EI_PutJSON_def)
next
  case (Some data)
  then have "EI_PutWithOptions es idx now w key data CT_JSON refs noOptions = (r, w')"
    using put by (simp add: EI_PutJSON_def EI_Put_def)
  from index_put_options [OF idx inv this] show ?thesis
    using Some by (auto simp: EI_GetJSON_def json_ok_def split: sum.splits)
qed

lemma index_json_put_get:
  assumes idx: "index_ok idx" and j: "json_ok j" and inv: "inv w"
    and put: "EI_PutJSON (j_enc j) es idx now w key v refs = (r, w')"
  shows "inv w' \<and> content w' = content w \<and> (healthy w' \<longleftrightarrow> healthy w)
    \<and> (case r of
         Inl _ \<Rightarrow> w' = w
       | Inr _ \<Rightarrow> EI_GetJSON (j_dec j) es idx w' key = Inr v
           \<and> (\<forall>key'. key' \<noteq> key \<longrightarrow> EI_GetJSON (j_dec j) es idx w' key' = EI_GetJSON (j_dec j) es idx w key'))"
proof (cases r)
  case (Inl e)
  then show ?thesis using index_json_put [OF idx inv put] by auto
next
  case (Inr u)
  note spec = index_json_put [OF idx inv put, unfolded Inr sum.case]
  have "EI_GetJSON (j_dec j) es idx w' key' = EI_GetJSON (j_dec j) es idx w key'" if "key' \<noteq> key" for key'
    using spec that index_ok_id [OF idx, of key'] by (simp add: EI_GetJSON_def)
  then show ?thesis using spec j Inr by simp
qed

text \<open>A step of an index that may change the entries in \<open>S\<close>.\<close>

definition index_step :: "'w \<Rightarrow> 'w \<Rightarrow> (string \<times> string \<times> string) set \<Rightarrow> bool" where
  "index_step w w' S \<longleftrightarrow> inv w' \<and> content w' = content w \<and> (healthy w' \<longleftrightarrow> healthy w)
     \<and> (\<forall>idx key. (ix_protocol idx, ix_kind idx, key) \<notin> S \<longrightarrow> ok_id (ix_protocol idx, ix_kind idx, key) \<longrightarrow>
          EI_Get es idx w' key = EI_Get es idx w key)"

lemma index_step_refl: "inv w \<Longrightarrow> index_step w w S"
  by (simp add: index_step_def)

lemma index_step_trans: "index_step w w1 S \<Longrightarrow> index_step w1 w2 S \<Longrightarrow> index_step w w2 S"
  by (simp add: index_step_def)

lemma index_step_mono: "index_step w w' S \<Longrightarrow> S \<subseteq> T \<Longrightarrow> index_step w w' T"
  unfolding index_step_def by blast

lemma index_step_inv: "index_step w w' S \<Longrightarrow> inv w'"
  by (simp add: index_step_def)

lemma index_step_get:
  "index_step w w' S \<Longrightarrow> index_ok idx \<Longrightarrow> (ix_protocol idx, ix_kind idx, key) \<notin> S \<Longrightarrow>
     EI_Get es idx w' key = EI_Get es idx w key"
  using index_ok_id by (simp add: index_step_def)

lemma index_step_json:
  "index_step w w' S \<Longrightarrow> index_ok idx \<Longrightarrow> (ix_protocol idx, ix_kind idx, key) \<notin> S \<Longrightarrow>
     EI_GetJSON dec es idx w' key = EI_GetJSON dec es idx w key"
  by (simp add: EI_GetJSON_def index_step_get)

lemma step_put:
  assumes "index_ok idx" "inv w" "EI_Put es idx now w key data ct refs = (r, w')"
  shows "index_step w w' {(ix_protocol idx, ix_kind idx, key)}"
    "r = Inr u \<Longrightarrow> EI_Get es idx w' key = Inr data" "r = Inl e \<Longrightarrow> w' = w"
  using index_put_options [OF assms(1,2) assms(3) [unfolded EI_Put_def]] assms(2)
  by (auto simp: index_step_def split: sum.splits)

lemma step_json:
  assumes "index_ok idx" "inv w" "EI_PutJSON (j_enc j) es idx now w key v refs = (r, w')"
  shows "index_step w w' {(ix_protocol idx, ix_kind idx, key)}"
    "json_ok j \<Longrightarrow> r = Inr u \<Longrightarrow> EI_GetJSON (j_dec j) es idx w' key = Inr v" "r = Inl e \<Longrightarrow> w' = w"
  using index_json_put [OF assms] assms(2) by (auto simp: index_step_def split: sum.splits)

lemma step_delete:
  assumes "index_ok idx" "inv w" "EI_Delete es idx w key = (r, w')"
  shows "index_step w w' {(ix_protocol idx, ix_kind idx, key)}"
    "r = Inr u \<Longrightarrow> EI_Get es idx w' key = Inl ErrNotFound" "r = Inl e \<Longrightarrow> w' = w"
  using index_delete [OF assms] assms(2) by (auto simp: index_step_def split: sum.splits)

text \<open>An upload keeps what is stored; its size is that of the content stored under the new hash.\<close>

lemma upload_keeps:
  assumes "inv w" "st_Put st w r = (pres, w1)" "is_hash g" "content w g = Some d"
  shows "content w1 g = Some d"
  using put_blob [OF assms(1,2)] assms(3,4) by (auto split: sum.splits if_splits)

lemma upload_stored:
  assumes inv: "inv w" and put: "st_Put st w r = (Inr x, w1)"
  shows "is_hash x \<and> x = blake3 (concat (chunks r)) \<and> \<not> src_fails r
    \<and> (\<exists>d. content w1 x = Some d \<and> blake3 d = blake3 (concat (chunks r))
         \<and> (content w (blake3 (concat (chunks r))) = None \<longrightarrow> d = concat (chunks r))
         \<and> (\<forall>n. st_Size st w1 x = Inr n \<longrightarrow> n = int (length d)))"
proof -
  note pb = put_blob [OF inv put, simplified]
  then have x: "is_hash x" "inv w1" by blast+
  obtain d where d: "content w1 x = Some d" using pb by (cases "content w x") auto
  have "n = int (length d)" if "st_Size st w1 x = Inr n" for n
    using size_blob [OF x(2,1)] that d by simp
  then show ?thesis using pb d content_hash [OF x(2,1) d] by auto
qed

end

section \<open>The server's world\<close>

definition rowSizes :: "blob_entry cell bucket \<Rightarrow> string \<Rightarrow> int option" where
  "rowSizes b h = (case bget b h of Some (Good e) \<Rightarrow> Some (be_Size e) | _ \<Rightarrow> None)"

text \<open>The envelope operations change counters only.\<close>

lemma rowSizes_map:
  assumes "\<And>h. bget b' h = map_option (map_cell (f h)) (bget b h)" "\<And>h e. be_Size (f h e) = be_Size e"
  shows "rowSizes b' = rowSizes b"
proof
  show "rowSizes b' h = rowSizes b h" for h
    using assms(1) [of h] assms(2)
    by (cases "bget b h") (auto simp: rowSizes_def split: cell.splits option.splits)
qed

lemma funpow_size: "be_Size ((incRef ^^ n) e) = be_Size e" "be_Size ((decRef ^^ n) e) = be_Size e"
  by (induction n) (auto simp: incRef_def decRef_def)

lemma counting_rows:
  "blobs_good b \<Longrightarrow> incrementAll b rs = Inr b' \<Longrightarrow> blobs_good b' \<and> rowSizes b' = rowSizes b"
  "blobs_good b \<Longrightarrow> decrementAll b rs = Inr b' \<Longrightarrow> blobs_good b' \<and> rowSizes b' = rowSizes b"
  "blobs_good b \<Longrightarrow> blobs_good (decrementAllLogged b rs) \<and> rowSizes (decrementAllLogged b rs) = rowSizes b"
  using rowSizes_map [of b' "\<lambda>h. incRef ^^ count_list rs h" b] rowSizes_map [of b' "\<lambda>h. decRef ^^ count_list rs h" b]
    rowSizes_map [of "decrementAllLogged b rs" "\<lambda>h. decRef ^^ count_list rs h" b]
  by (auto simp: funpow_size incrementAll_bget decrementAll_bget decrementAllLogged_bget decrementAllLogged_good
      blobs_good_def [of b] intro: keeps)

definition sameRows :: "blob_entry cell bucket \<Rightarrow> blob_entry cell bucket \<Rightarrow> bool" where
  "sameRows b b' \<longleftrightarrow> blobs_good b' \<and> rowSizes b' = rowSizes b"

lemma sameRows_tx:
  "incrementAll b1 rs = Inr b2 \<Longrightarrow> sameRows b b1 \<Longrightarrow> sameRows b b2"
  "decrementAll b1 rs = Inr b2 \<Longrightarrow> sameRows b b1 \<Longrightarrow> sameRows b b2"
  "sameRows b b1 \<Longrightarrow> sameRows b (decrementAllLogged b1 rs)"
  unfolding sameRows_def using counting_rows by metis+

lemma batch_rows:
  "sameRows b (d_blobs d) \<Longrightarrow> rpost m (\<lambda>rd. sameRows b (d_blobs (snd rd))) \<Longrightarrow> sameRows b (d_blobs (snd (batch d m)))"
  by (rule batch_post)

lemma envelope_rows:
  assumes rows: "sameRows b (d_blobs d)"
  shows "sameRows b (d_blobs (snd (PutEnvelope U mar d p kd k eo)))"
    "sameRows b (d_blobs (snd (DeleteEnvelope d p kd k)))"
    "sameRows b (d_blobs (snd (UpdateEnvelope U mar d p kd k fn)))"
proof -
  show "sameRows b (d_blobs (snd (PutEnvelope U mar d p kd k eo)))"
    unfolding PutEnvelope_def Let_def
    by (auto simp: rows split: sum.splits intro!: batch_rows rpostI)
       (auto simp: tx_unfold dest!: frames, metis sameRows_tx rows)
  show "sameRows b (d_blobs (snd (DeleteEnvelope d p kd k)))"
    unfolding DeleteEnvelope_def
    by (intro batch_rows rpostI rows)
       (auto simp: tx_unfold removeEnvelopeExpiryIndex_def rows intro: sameRows_tx dest!: frames)
  show "sameRows b (d_blobs (snd (UpdateEnvelope U mar d p kd k fn)))"
    unfolding UpdateEnvelope_def Let_def
    by (intro batch_rows rpost_intros rows)
       (auto simp: tx_unfold removeEnvelopeExpiryIndex_def dest!: frames split: option.splits,
        (metis sameRows_tx rows)+)
qed

definition world_ok :: "(bytes \<Rightarrow> hash) \<Rightarrow> (db, fs, unit, 'n) cafs \<Rightarrow> bool" where
  "world_ok blake3 w \<longleftrightarrow> digest_ok blake3 \<and> storeOk blake3 w \<and> envs_good (cs_metaDB w)"

lemma storeOk_rows:
  assumes "storeOk blake3 w" "sameRows (d_blobs (cs_metaDB w)) (d_blobs d)"
  shows "storeOk blake3 (w\<lparr>cs_metaDB := d\<rparr>)"
proof -
  have row: "(\<exists>e. GetBlob d' h = Inr e \<and> be_Size e = n) \<longleftrightarrow> rowSizes (d_blobs d') h = Some n" for d' h n
    by (auto simp: GetBlob_Inr rowSizes_def split: option.splits cell.splits)
  show ?thesis using assms unfolding storeOk_def row by (simp add: sameRows_def blobs_inv_def)
qed

text \<open>What a put, a get or a touch does to the envelopes: nothing.\<close>

lemma blob_ops_envs:
  "d_envs (snd (PutBlob d e)) = d_envs d" "d_envs (snd (DeleteBlob d h)) = d_envs d"
  "d_envs (snd (TouchBlob now d h)) = d_envs d"
  by (auto simp: PutBlob_def DeleteBlob_def TouchBlob_def modifyBlob_def batch_def tx_unfold
      split: sum.splits option.splits cell.splits)

lemma store_envs:
  "d_envs (cs_metaDB (snd (PutWithResult (serverStore c blake3 fmt nt) tf now s r))) = d_envs (cs_metaDB s)"
  "d_envs (cs_metaDB (snd (Get (serverStore c blake3 fmt nt) now s h))) = d_envs (cs_metaDB s)"
  using cafs.PutWithResult_db [of "\<lambda>d. d_envs d = d_envs (cs_metaDB s)" s now c blake3 fmt nt tf r]
  by (auto simp: boltBlobs_def blob_ops_envs Get_def touchContent_def touchRow_def split: sum.split)

lemma GetEnvelope_envs: "d_envs d' = d_envs d \<Longrightarrow> GetEnvelope d' = GetEnvelope d"
  by (simp add: GetEnvelope_def fun_eq_iff)

lemma world_ok_put:
  fixes w :: "(db, fs, unit, 'n) cafs"
  assumes ok: "world_ok blake3 w" and put: "Put (serverStore c blake3 fmt nt) tf now w r = (res, w')"
  shows "world_ok blake3 w' \<and> GetEnvelope (cs_metaDB w') = GetEnvelope (cs_metaDB w)
    \<and> (fs_healthy (cs_backend w) \<longrightarrow> fs_healthy (cs_backend w'))
    \<and> (case res of
         Inl _ \<Rightarrow> (\<forall>g. is_hash g \<longrightarrow> fs_content (cs_backend w') g = fs_content (cs_backend w) g)
       | Inr h \<Rightarrow> is_hash h \<and> h = blake3 (concat (chunks r)) \<and> \<not> src_fails r
           \<and> (\<forall>g. is_hash g \<longrightarrow> fs_content (cs_backend w') g =
                (if g = h \<and> fs_content (cs_backend w) h = None then Some (concat (chunks r))
                 else fs_content (cs_backend w) g)))"
proof -
  obtain res1 where run: "PutWithResult (serverStore c blake3 fmt nt) tf now w r = (res1, w')"
    and res: "res = (case res1 of Inl e \<Rightarrow> Inl e | Inr p \<Rightarrow> Inr (pr_Hash p))"
    using put by (auto simp: Put_def split: prod.splits sum.splits)
  have envs: "d_envs (cs_metaDB w') = d_envs (cs_metaDB w)"
    using store_envs(1) [of c blake3 fmt nt tf now w r] by (simp add: run)
  note spec = cafs.PutWithResult_spec [OF _ _ run, folded storeOk_eq, unfolded serverStore_simps]
  have ok': "world_ok blake3 w'" using spec ok envs by (simp add: world_ok_def envs_good_def)
  have "\<not> src_fails r" if "res1 = Inr p" for p
    using run that receive_Inr [of "serverStore c blake3 fmt nt" tf r]
    by (cases "receive (serverStore c blake3 fmt nt) tf r") (auto simp: PutWithResult_def)
  then show ?thesis
    using ok' spec ok GetEnvelope_envs [OF envs]
    by (cases res1) (auto simp: res world_ok_def cafs.put_post_def digest_ok_def)
qed

lemma world_ok_get:
  fixes w :: "(db, fs, unit, 'n) cafs"
  assumes ok: "world_ok blake3 w" and h: "is_hash h" and get: "Get (serverStore c blake3 fmt nt) now w h = (res, w')"
  shows "world_ok blake3 w' \<and> GetEnvelope (cs_metaDB w') = GetEnvelope (cs_metaDB w) \<and> cs_backend w' = cs_backend w
    \<and> (case res of Inr d \<Rightarrow> fs_content (cs_backend w) h = Some d
       | Inl _ \<Rightarrow> fs_healthy (cs_backend w) \<longrightarrow> fs_content (cs_backend w) h = None)"
proof -
  have envs: "d_envs (cs_metaDB w') = d_envs (cs_metaDB w)"
    using store_envs(2) [of c blake3 fmt nt now w h] by (simp add: get)
  note spec = cafs.Get_spec [OF _ h get, folded storeOk_eq, unfolded serverStore_simps]
  show ?thesis
    using spec ok envs GetEnvelope_envs [OF envs]
    by (cases res) (auto simp: world_ok_def envs_good_def)
qed

lemma onMetaDB_simps [simp]:
  "es_Put (onMetaDB s) w p kd k e = liftDB w (es_Put s (cs_metaDB w) p kd k e)"
  "es_Get (onMetaDB s) w = es_Get s (cs_metaDB w)"
  "es_Delete (onMetaDB s) w p kd k = liftDB w (es_Delete s (cs_metaDB w) p kd k)"
  "es_Update (onMetaDB s) w p kd k f = liftDB w (es_Update s (cs_metaDB w) p kd k f)"
  by (simp_all add: onMetaDB_def)

lemma cafsOps_simps [simp]:
  "st_Put (cafsOps v tf now) = Put v tf now" "st_Get (cafsOps v tf now) = Get v now" "st_Has (cafsOps v tf now) = Has v"
  "st_Size (cafsOps v tf now) = Size v" "st_Delete (cafsOps v tf now) = Delete v"
  by (simp_all add: cafsOps_def)

lemma world_ok_db:
  assumes "world_ok blake3 w" and "sameRows (d_blobs (cs_metaDB w)) (d_blobs d)" and "envs_good d"
  shows "world_ok blake3 (w\<lparr>cs_metaDB := d\<rparr>)"
  using assms storeOk_rows [OF _ assms(2)] by (simp add: world_ok_def)

lemma world_rows: "world_ok blake3 w \<Longrightarrow> sameRows (d_blobs (cs_metaDB w)) (d_blobs (cs_metaDB w))"
  by (simp add: world_ok_def storeOk_def blobs_inv_def sameRows_def)

lemma world_ok_envelopes:
  assumes w: "world_ok blake3 w"
  shows "world_ok blake3 (snd (liftDB w (PutEnvelope U mar (cs_metaDB w) p kd k eo)))"
    "world_ok blake3 (snd (liftDB w (DeleteEnvelope (cs_metaDB w) p kd k)))"
    "world_ok blake3 (snd (liftDB w (UpdateEnvelope U mar (cs_metaDB w) p kd k fn)))"
  using w envelope_rows [OF world_rows [OF w]] unfolding liftDB_def snd_conv
  by (intro world_ok_db [OF w] PutEnvelope_envs_good DeleteEnvelope_envs_good UpdateEnvelope_envs_good;
      simp add: world_ok_def)+

lemma envelope_errors:
  "PutEnvelope U mar d p kd k eo = (Inl err, d') \<Longrightarrow> d' = d" "DeleteEnvelope d p kd k = (Inl err, d') \<Longrightarrow> d' = d"
  "UpdateEnvelope U mar d p kd k fn = (Inl err, d') \<Longrightarrow> d' = d"
  using PutEnvelope_atomic [of U mar d p kd k eo err] DeleteEnvelope_atomic [of d p kd k err]
    UpdateEnvelope_atomic [of U mar d p kd k fn err] by simp_all

lemma liftDB_error: "liftDB w x = (Inl err, w') \<Longrightarrow> (\<And>d. x = (Inl err, d) \<Longrightarrow> d = cs_metaDB w) \<Longrightarrow> w' = w"
  by (cases x) (auto simp: liftDB_def)

lemma server_envelopes:
  "envelope_contract (onMetaDB (boltStore U mar)) (world_ok blake3) (canonEnv U)"
proof -
  have g: "envs_good (cs_metaDB w)" if "world_ok blake3 w" for w :: "(db, fs, unit, 'n) cafs"
    using that by (simp add: world_ok_def)
  note lift = liftDB_eq [THEN conjunct1]
  show ?thesis
  proof (unfold_locales, unfold onMetaDB_simps boltStore_simps)
    fix e show "canonEnv U e = e\<lparr>BlobRefs := BlobRefs (canonEnv U e)\<rparr>" by (simp add: canonEnv_def)
  next
    fix w w' :: "(db, fs, unit, 'n) cafs" and p kd k eo err
    assume "liftDB w (PutEnvelope U mar (cs_metaDB w) p kd k eo) = (Inl err, w')"
    then show "w' = w" by (rule liftDB_error) (rule envelope_errors(1))
  next
    fix w w' :: "(db, fs, unit, 'n) cafs" and p kd k err
    assume "liftDB w (DeleteEnvelope (cs_metaDB w) p kd k) = (Inl err, w')"
    then show "w' = w" by (rule liftDB_error) (rule envelope_errors(2))
  next
    fix w w' :: "(db, fs, unit, 'n) cafs" and p kd k fn err
    assume "liftDB w (UpdateEnvelope U mar (cs_metaDB w) p kd k fn) = (Inl err, w')"
    then show "w' = w" by (rule liftDB_error) (rule envelope_errors(3))
  qed (rule world_ok_envelopes bolt_store.put_get [OF g, unfolded boltStore_simps] bolt_store.put_other [OF g, unfolded boltStore_simps]
        bolt_store.delete_get [OF g, unfolded boltStore_simps] bolt_store.delete_other [OF g, unfolded boltStore_simps]
        bolt_store.update_get [OF g, unfolded boltStore_simps] bolt_store.update_other [OF g, unfolded boltStore_simps];
      (assumption | erule lift))+
qed

interpretation server: cache_world "onMetaDB (boltStore U mar)" "world_ok blake3" "canonEnv U"
    "cafsOps (serverStore c blake3 fmt nt) tf now" "\<lambda>w. fs_content (cs_backend w)" "\<lambda>w. fs_healthy (cs_backend w)" blake3
  for U mar c blake3 fmt and nt :: "'n notifier_ops option" and tf now
proof (rule cache_world.intro [OF server_envelopes], unfold_locales, unfold cafsOps_simps onMetaDB_simps boltStore_simps)
  fix w :: "(db, fs, unit, 'n) cafs" and h d
  assume w: "world_ok blake3 w" and d: "is_hash h" "fs_content (cs_backend w) h = Some d"
  show "blake3 d = h" using storeOkD [OF _ d] w by (simp add: world_ok_def)
next
  fix w w' :: "(db, fs, unit, 'n) cafs" and r pres
  assume w: "world_ok blake3 w" and put: "Put (serverStore c blake3 fmt nt) tf now w r = (pres, w')"
  show "world_ok blake3 w' \<and> (\<forall>p kd k. GetEnvelope (cs_metaDB w') p kd k = GetEnvelope (cs_metaDB w) p kd k)
        \<and> (fs_healthy (cs_backend w) \<longrightarrow> fs_healthy (cs_backend w'))
        \<and> (case pres of
             Inl _ \<Rightarrow> (\<forall>g. is_hash g \<longrightarrow> fs_content (cs_backend w') g = fs_content (cs_backend w) g)
           | Inr h \<Rightarrow> is_hash h \<and> h = blake3 (concat (chunks r)) \<and> \<not> src_fails r
               \<and> (\<forall>g. is_hash g \<longrightarrow> fs_content (cs_backend w') g =
                    (if g = h \<and> fs_content (cs_backend w) h = None then Some (concat (chunks r))
                     else fs_content (cs_backend w) g)))"
    using world_ok_put [OF w put] by auto
next
  fix w w' :: "(db, fs, unit, 'n) cafs" and h gres
  assume w: "world_ok blake3 w" "is_hash h" and get: "Get (serverStore c blake3 fmt nt) now w h = (gres, w')"
  show "world_ok blake3 w' \<and> (\<forall>p kd k. GetEnvelope (cs_metaDB w') p kd k = GetEnvelope (cs_metaDB w) p kd k)
      \<and> fs_content (cs_backend w') = fs_content (cs_backend w) \<and> fs_healthy (cs_backend w') = fs_healthy (cs_backend w)
      \<and> (case gres of Inr d \<Rightarrow> fs_content (cs_backend w) h = Some d
         | Inl _ \<Rightarrow> fs_healthy (cs_backend w) \<longrightarrow> fs_content (cs_backend w) h = None)"
    using world_ok_get [OF w get] by auto
next
  fix w :: "(db, fs, unit, 'n) cafs" and h
  assume w: "world_ok blake3 w" "is_hash h"
  then have ok: "cafs.store_ok c blake3 fmt nt w" by (simp add: world_ok_def storeOk_eq [symmetric])
  show "case Has (serverStore c blake3 fmt nt) w h of
      Inr x \<Rightarrow> x = (fs_content (cs_backend w) h \<noteq> None) | Inl _ \<Rightarrow> \<not> fs_healthy (cs_backend w)"
    using cafs.Has_spec [OF ok w(2)] by (simp split: sum.splits)
  show "case Size (serverStore c blake3 fmt nt) w h of
      Inr n \<Rightarrow> \<exists>d. fs_content (cs_backend w) h = Some d \<and> n = int (length d)
    | Inl _ \<Rightarrow> fs_healthy (cs_backend w) \<longrightarrow> fs_content (cs_backend w) h = None"
    using cafs.Size_content [OF ok w(2)] cafs.Size_healthy [OF ok w(2)] by (fastforce split: sum.splits)
qed simp_all

end
