(* ===== verification/HttpCache.thy ===== *)
theory HttpCache
  imports World
begin

text \<open>
  The HTTP cache of sccache and Gradle (\<open>protocol/httpcache/handler.go\<close>, \<open>index.go\<close>, \<open>types.go\<close>):
  a key names a blob of the store through an entry of an envelope index that pins the blob.
\<close>

section \<open>The index\<close>

record cache_entry =
  ce_BlobHash :: string
  ce_Size :: int

text \<open>The parts of a handler: its index over the envelope store, its store, the limit of a body, the
  clock, and the formatting of times and the escaping of text of the standard library.\<close>

record 'w httpcache =
  hc_es :: "'w envelope_store"
  hc_entries :: env_index
  hc_json :: "cache_entry json_codec"
  hc_store :: "'w store_ops"
  hc_maxBodySize :: int
  hc_now :: time
  hc_unicode :: "string \<Rightarrow> string"
  hc_TimeFormat :: "time \<Rightarrow> string"
  hc_EscapeText :: "string \<Rightarrow> string"

definition HC_Get :: "'w httpcache \<Rightarrow> 'w \<Rightarrow> string \<Rightarrow> index_error + cache_entry" where
  "HC_Get h w key =
     (case EI_GetJSON (j_dec (hc_json h)) (hc_es h) (hc_entries h) w key of
        Inl e \<Rightarrow> Inl (indexError e)
      | Inr entry \<Rightarrow> Inr entry)"

definition HC_Put :: "'w httpcache \<Rightarrow> 'w \<Rightarrow> string \<Rightarrow> cache_entry \<Rightarrow> (mdb_error + unit) \<times> 'w" where
  "HC_Put h w key entry =
     EI_PutJSON (j_enc (hc_json h)) (hc_es h) (hc_entries h) (hc_now h) w key entry [ce_BlobHash entry]"

section \<open>The handler\<close>

definition isValidKey :: "string \<Rightarrow> bool" where
  "isValidKey s \<longleftrightarrow> s \<noteq> [] \<and> ''..'' \<notin> set (SplitOn s (CHR ''/''))"

definition HC_handlePropfind :: "'w httpcache \<Rightarrow> http_request \<Rightarrow> http_response" where
  "HC_handlePropfind h r =
     reply 207 [(''Content-Type'', ''application/xml; charset=utf-8'')]
       (''<?xml version=\"1.0\" encoding=\"utf-8\"?>''
        @ ''<D:multistatus xmlns:D=\"DAV:\">''
        @ ''<D:response><D:href>'' @ hc_EscapeText h (rq_Path r) @ ''</D:href>''
        @ ''<D:propstat><D:prop>''
        @ ''<D:resourcetype><D:collection/></D:resourcetype>''
        @ ''<D:getlastmodified>'' @ hc_TimeFormat h (hc_now h) @ ''</D:getlastmodified>''
        @ ''</D:prop>''
        @ ''<D:status>HTTP/1.1 200 OK</D:status></D:propstat>''
        @ ''</D:response></D:multistatus>'')"

definition HC_handleGet :: "'w httpcache \<Rightarrow> 'w \<Rightarrow> string \<Rightarrow> http_response \<times> 'w" where
  "HC_handleGet h w key =
     (case HC_Get h w key of
        Inl NotCached \<Rightarrow> (http_NotFound, w)
      | Inl (IndexFailed _) \<Rightarrow> (http_Error ''internal error'' 500, w)
      | Inr entry \<Rightarrow>
          (case ParseBlobRef (hc_unicode h) (ce_BlobHash entry) of
             Inl _ \<Rightarrow> (http_NotFound, w)
           | Inr ref \<Rightarrow>
               (case st_Get (hc_store h) w (br_hash ref) of
                  (Inl _, w1) \<Rightarrow> (http_NotFound, w1)
                | (Inr d, w1) \<Rightarrow>
                    (reply 200 [(''Content-Type'', ''application/octet-stream''),
                       (''Content-Length'', FormatInt (ce_Size entry))] d, w1))))"

text \<open>\<open>http.MaxBytesReader\<close>: a source that fails once more than the limit has been read.\<close>

definition MaxBytesReader :: "int \<Rightarrow> source \<Rightarrow> source" where
  "MaxBytesReader n r =
     (if int (length (concat (chunks r))) > n
      then \<lparr>chunks = [take (nat n) (concat (chunks r))], src_fails = True\<rparr>
      else r)"

definition bodyTooLarge :: "int \<Rightarrow> source \<Rightarrow> cafs_error \<Rightarrow> bool" where
  "bodyTooLarge n r e \<longleftrightarrow> e = ReadingContent SourceFailed \<and> int (length (concat (chunks r))) > n"

definition HC_handlePut :: "'w httpcache \<Rightarrow> 'w \<Rightarrow> source \<Rightarrow> string \<Rightarrow> http_response \<times> 'w" where
  "HC_handlePut h w body key =
     (case st_Put (hc_store h) w (MaxBytesReader (hc_maxBodySize h) body) of
        (Inl e, w1) \<Rightarrow>
          (if bodyTooLarge (hc_maxBodySize h) body e then http_Error ''request body too large'' 413
           else http_Error ''storage error'' 500, w1)
      | (Inr hash, w1) \<Rightarrow>
          (case st_Size (hc_store h) w1 hash of
             Inl _ \<Rightarrow> (http_Error ''storage error'' 500, w1)
           | Inr sz \<Rightarrow>
               (case HC_Put h w1 key \<lparr>ce_BlobHash = BlobRef_String (NewBlobRef hash), ce_Size = sz\<rparr> of
                  (Inl _, w2) \<Rightarrow> (http_Error ''index error'' 500, w2)
                | (Inr _, w2) \<Rightarrow> (WriteHeader 204, w2))))"

definition HC_ServeHTTP :: "'w httpcache \<Rightarrow> 'w \<Rightarrow> http_request \<Rightarrow> http_response \<times> 'w" where
  "HC_ServeHTTP h w r =
     (if rq_Method r = ''PROPFIND'' then (HC_handlePropfind h r, w)
      else let key = TrimPrefix (rq_Path r) ''/''
           in if \<not> isValidKey key then (http_Error ''missing or invalid cache key'' 400, w)
              else if rq_Method r = ''GET'' then HC_handleGet h w key
              else if rq_Method r = ''PUT'' then HC_handlePut h w (rq_Body r) key
              else if rq_Method r = ''MKCOL'' then (WriteHeader 201, w)
              else (http_Error ''method not allowed'' 405, w))"

section \<open>Over any store\<close>

lemma HC_Get_time [simp]: "HC_Get (h\<lparr>hc_now := t\<rparr>) w key = HC_Get h w key" "HC_Get (h\<lparr>hc_store := s\<rparr>) w key = HC_Get h w key"
  by (simp_all add: HC_Get_def)

context cache_world
begin

text \<open>What a hit is: an entry with the reference of a stored blob and its size.\<close>

definition hc_holds :: "'w httpcache \<Rightarrow> 'w \<Rightarrow> string \<Rightarrow> bytes \<Rightarrow> bool" where
  "hc_holds h w key d \<longleftrightarrow>
     (\<exists>x. is_hash x \<and> content w x = Some d
        \<and> HC_Get h w key = Inr \<lparr>ce_BlobHash = BlobRef_String (NewBlobRef x), ce_Size = int (length d)\<rparr>)"

definition hc_on :: "'w httpcache \<Rightarrow> bool" where
  "hc_on h \<longleftrightarrow> hc_es h = es \<and> json_ok (hc_json h) \<and> index_ok (hc_entries h)"

lemma HC_Get_cong:
  assumes "hc_on h" "\<And>p kd k. es_Get es w' p kd k = es_Get es w p kd k"
  shows "HC_Get h w' key = HC_Get h w key"
proof -
  have "EI_GetJSON (j_dec (hc_json h)) es (hc_entries h) w' key = EI_GetJSON (j_dec (hc_json h)) es (hc_entries h) w key"
    by (rule EI_GetJSON_cong) (rule assms(2))
  then show ?thesis using assms(1) by (simp add: HC_Get_def hc_on_def)
qed

lemma HC_Put_entry:
  assumes h: "hc_on h" and inv: "inv w" and put: "HC_Put h w key entry = (r, w')"
  shows "inv w' \<and> content w' = content w \<and> (healthy w' \<longleftrightarrow> healthy w)
    \<and> (case r of
         Inl _ \<Rightarrow> w' = w
       | Inr _ \<Rightarrow> HC_Get h w' key = Inr entry \<and> (\<forall>key'. key' \<noteq> key \<longrightarrow> HC_Get h w' key' = HC_Get h w key'))"
proof -
  have on: "hc_es h = es" "json_ok (hc_json h)" "index_ok (hc_entries h)" using h by (simp_all add: hc_on_def)
  show ?thesis
    using index_json_put_get [OF on(3,2) inv put [unfolded HC_Put_def on(1)]] on(1) by (auto simp: HC_Get_def split: sum.splits)
qed

lemma HC_handlePut_spec:
  assumes h: "hc_on h" "hc_store h = st" and inv: "inv w" and put: "HC_handlePut h w body key = (resp, w')"
  shows "inv w' \<and> (healthy w \<longrightarrow> healthy w')
    \<and> (\<forall>key'. key' \<noteq> key \<or> rs_Status resp \<noteq> 204 \<longrightarrow> HC_Get h w' key' = HC_Get h w key')
    \<and> (\<forall>g d. is_hash g \<longrightarrow> content w g = Some d \<longrightarrow> content w' g = Some d)
    \<and> (rs_Status resp = 204 \<longrightarrow>
        int (length (concat (chunks body))) \<le> hc_maxBodySize h
        \<and> (\<exists>d. hc_holds h w' key d \<and> blake3 d = blake3 (concat (chunks body))
             \<and> (content w (blake3 (concat (chunks body))) = None \<longrightarrow> d = concat (chunks body))))"
proof -
  let ?r = "MaxBytesReader (hc_maxBodySize h) body"
  obtain pres w1 where p: "st_Put st w ?r = (pres, w1)" by fastforce
  note pb = put_blob [OF inv p]
  have inv1: "inv w1" "healthy w \<longrightarrow> healthy w1" using pb by simp_all
  have get1: "HC_Get h w1 k = HC_Get h w k" for k
    by (rule HC_Get_cong [OF h(1)]) (use pb in blast)
  have keep1: "\<forall>g d. is_hash g \<longrightarrow> content w g = Some d \<longrightarrow> content w1 g = Some d"
    using upload_keeps [OF inv p] by blast
  show ?thesis
  proof (cases pres)
    case (Inl e)
    then have "w' = w1" "rs_Status resp \<noteq> 204"
      using put p h(2) by (auto simp: HC_handlePut_def http_Error_def reply_def split: if_splits)
    then show ?thesis using inv1 keep1 get1 by simp
  next
    case (Inr x)
    note up = upload_stored [OF inv p [unfolded Inr]]
    then have x: "is_hash x" and r: "?r = body" "int (length (concat (chunks body))) \<le> hc_maxBodySize h"
      by (auto simp: MaxBytesReader_def split: if_splits)
    obtain d where d: "content w1 x = Some d" "blake3 d = blake3 (concat (chunks body))"
      "content w (blake3 (concat (chunks body))) = None \<longrightarrow> d = concat (chunks body)"
      "\<And>n. st_Size st w1 x = Inr n \<Longrightarrow> n = int (length d)"
      using up r(1) by auto
    show ?thesis
    proof (cases "st_Size st w1 x")
      case (Inl e)
      then have "w' = w1" "rs_Status resp \<noteq> 204"
        using put p h(2) Inr by (auto simp: HC_handlePut_def http_Error_def reply_def)
      then show ?thesis using inv1 keep1 get1 by simp
    next
      case sz: (Inr n)
      let ?e = "\<lparr>ce_BlobHash = BlobRef_String (NewBlobRef x), ce_Size = n\<rparr>"
      obtain res w2 where ip: "HC_Put h w1 key ?e = (res, w2)" by fastforce
      show ?thesis
      proof (cases res)
        case (Inl e)
        then have w2: "w2 = w1" using HC_Put_entry [OF h(1) inv1(1) ip] by simp
        have "w' = w2" "rs_Status resp \<noteq> 204"
          using put p h(2) Inr sz ip Inl by (auto simp: HC_handlePut_def http_Error_def reply_def)
        then show ?thesis using inv1 keep1 get1 w2 by simp
      next
        case u: (Inr u)
        have w': "w' = w2" "rs_Status resp = 204"
          using put p h(2) Inr sz ip u by (auto simp: HC_handlePut_def WriteHeader_def reply_def)
        note e = HC_Put_entry [OF h(1) inv1(1) ip, unfolded u, simplified]
        have "hc_holds h w' key d" using e w'(1) x d(1) d(4) [OF sz] by (auto simp: hc_holds_def)
        moreover have "inv w'" "healthy w \<longrightarrow> healthy w'" "content w' = content w1"
          "\<forall>key'. key' \<noteq> key \<longrightarrow> HC_Get h w' key' = HC_Get h w key'"
          using e inv1 w'(1) get1 by simp_all
        ultimately show ?thesis using keep1 r(2) d(2,3) w'(2) by auto
      qed
    qed
  qed
qed

lemma HC_handleGet_spec:
  assumes h: "hc_on h" "hc_store h = st" and inv: "inv w" and get: "HC_handleGet h w key = (resp, w')"
  shows "inv w' \<and> content w' = content w \<and> (healthy w' \<longleftrightarrow> healthy w) \<and> (\<forall>k. HC_Get h w' k = HC_Get h w k)
    \<and> (hc_holds h w key d \<longrightarrow> healthy w \<longrightarrow>
         resp = reply 200 [(''Content-Type'', ''application/octet-stream''), (''Content-Length'', FormatInt (int (length d)))] d)"
proof (cases "HC_Get h w key")
  case (Inl e)
  then have "w' = w" using get by (cases e) (auto simp: HC_handleGet_def)
  then show ?thesis using inv Inl by (auto simp: hc_holds_def)
next
  case entry: (Inr entry)
  show ?thesis
  proof (cases "ParseBlobRef (hc_unicode h) (ce_BlobHash entry)")
    case (Inl e)
    then have "w' = w" using get entry by (auto simp: HC_handleGet_def)
    moreover have "\<not> hc_holds h w key d" using entry Inl by (auto simp: hc_holds_def)
    ultimately show ?thesis using inv by simp
  next
    case (Inr ref)
    have x: "is_hash (br_hash ref)" using ParseBlobRef_is_hash [OF Inr] by simp
    obtain res w1 where g: "st_Get st w (br_hash ref) = (res, w1)" by fastforce
    note gb = get_blob [OF inv x g]
    have w': "w' = w1" using get entry Inr g h(2) by (auto simp: HC_handleGet_def split: sum.splits)
    have same: "HC_Get h w1 k = HC_Get h w k" for k
      by (rule HC_Get_cong [OF h(1)]) (use gb in blast)
    have "resp = reply 200 [(''Content-Type'', ''application/octet-stream''), (''Content-Length'', FormatInt (int (length d)))] d"
      if hit: "hc_holds h w key d" and "healthy w"
    proof -
      obtain y where y: "is_hash y" "content w y = Some d"
        "entry = \<lparr>ce_BlobHash = BlobRef_String (NewBlobRef y), ce_Size = int (length d)\<rparr>"
        using hit entry by (auto simp: hc_holds_def)
      then have "ref = NewBlobRef y" using Inr by simp
      then have "br_hash ref = y" by (simp add: NewBlobRef_def)
      then have "res = Inr d" using gb y(2) \<open>healthy w\<close> by (cases res) auto
      then show ?thesis using get entry Inr g h(2) y(3) by (simp add: HC_handleGet_def)
    qed
    then show ?thesis using gb w' same by simp
  qed
qed

end

end
