(* ===== verification/BuildCache.thy ===== *)
theory BuildCache
  imports World
begin

text \<open>
  The build cache of the Go tool (\<open>protocol/buildcache\<close>): the registry of running uploads
  (\<open>uploads.go\<close>) as a state machine, the index of the actions (\<open>index.go\<close>) and the handler
  (\<open>handler.go\<close>).
\<close>

section \<open>The registry of uploads\<close>

type_synonym upload_key = "string \<times> string"

type_synonym lease = "upload_key \<times> 64 word"

text \<open>The registered uploads with their generations, and the timers that \<open>scheduleExpiry\<close> has
  started and that neither fired nor were stopped.\<close>

record upload_registry =
  ur_entries :: "upload_key \<rightharpoonup> 64 word"
  ur_nextGeneration :: "64 word"
  ur_timers :: "lease list"

definition newUploadRegistry :: upload_registry where
  "newUploadRegistry = \<lparr>ur_entries = Map.empty, ur_nextGeneration = 0, ur_timers = []\<rparr>"

definition acquire :: "upload_registry \<Rightarrow> string \<Rightarrow> string \<Rightarrow> lease option \<times> upload_registry" where
  "acquire r actionID outputID =
     (let key = (actionID, outputID) in
      case ur_entries r key of
        Some _ \<Rightarrow> (None, r)
      | None \<Rightarrow>
          (let generation = ur_nextGeneration r + 1 in
           (Some (key, generation),
            r\<lparr>ur_nextGeneration := generation, ur_entries := (ur_entries r)(key \<mapsto> generation),
              ur_timers := (key, generation) # ur_timers r\<rparr>)))"

definition uploads_remove :: "upload_registry \<Rightarrow> upload_key \<Rightarrow> 64 word \<Rightarrow> bool \<Rightarrow> upload_registry" where
  "uploads_remove r key generation stopExpiry =
     (case ur_entries r key of
        None \<Rightarrow> r
      | Some g \<Rightarrow>
          if g \<noteq> generation then r
          else r\<lparr>ur_entries := (ur_entries r)(key := None),
                 ur_timers := (if stopExpiry then removeAll (key, g) (ur_timers r) else ur_timers r)\<rparr>)"

definition release :: "upload_registry \<Rightarrow> lease \<Rightarrow> upload_registry" where
  "release r l = uploads_remove r (fst l) (snd l) True"

text \<open>A timer that fires is no longer pending and removes its registration.\<close>

definition expire :: "upload_registry \<Rightarrow> lease \<Rightarrow> upload_registry" where
  "expire r l = uploads_remove (r\<lparr>ur_timers := removeAll l (ur_timers r)\<rparr>) (fst l) (snd l) False"

text \<open>The requests of the server run concurrently. \<open>uploads_reach ls r\<close>: the registry \<open>r\<close> is
  reached, after the leases \<open>ls\<close> were given out, by acquiring, by releasing leases that were given
  out (a request may do it twice: on cancellation and when it returns) and by timers that fire.\<close>

inductive uploads_reach :: "lease list \<Rightarrow> upload_registry \<Rightarrow> bool" where
  start: "uploads_reach [] newUploadRegistry"
| lead: "uploads_reach ls r \<Longrightarrow> acquire r a i = (Some l, r') \<Longrightarrow> uploads_reach (l # ls) r'"
| follow: "uploads_reach ls r \<Longrightarrow> acquire r a i = (None, r') \<Longrightarrow> uploads_reach ls r'"
| drop: "uploads_reach ls r \<Longrightarrow> l \<in> set ls \<Longrightarrow> uploads_reach ls (release r l)"
| timeout: "uploads_reach ls r \<Longrightarrow> l \<in> set (ur_timers r) \<Longrightarrow> uploads_reach ls (expire r l)"

inductive_cases acquiredE: "uploads_reach (l # ls) r"

lemma acquire_None: "acquire r a i = (None, r') \<longleftrightarrow> r' = r \<and> ur_entries r (a, i) \<noteq> None"
  by (auto simp: acquire_def Let_def split: option.splits)

lemma acquire_Some:
  "acquire r a i = (Some l, r') \<longleftrightarrow>
     ur_entries r (a, i) = None \<and> l = ((a, i), ur_nextGeneration r + 1)
     \<and> r' = r\<lparr>ur_nextGeneration := ur_nextGeneration r + 1,
               ur_entries := (ur_entries r)((a, i) \<mapsto> ur_nextGeneration r + 1),
               ur_timers := ((a, i), ur_nextGeneration r + 1) # ur_timers r\<rparr>"
  by (auto simp: acquire_def Let_def split: option.splits)

text \<open>Removing touches the registration of that generation only.\<close>

lemma remove_entries:
  "ur_entries (uploads_remove r k g s) =
     (if ur_entries r k = Some g then (ur_entries r)(k := None) else ur_entries r)"
  "ur_nextGeneration (uploads_remove r k g s) = ur_nextGeneration r"
  "ur_timers (uploads_remove r k g s) =
     (if ur_entries r k = Some g \<and> s then removeAll (k, g) (ur_timers r) else ur_timers r)"
  by (auto simp: uploads_remove_def split: option.split)

lemma release_entries [simp]:
  "ur_entries (release r l) =
     (if ur_entries r (fst l) = Some (snd l) then (ur_entries r)(fst l := None) else ur_entries r)"
  "ur_nextGeneration (release r l) = ur_nextGeneration r"
  "ur_timers (release r l) =
     (if ur_entries r (fst l) = Some (snd l) then removeAll l (ur_timers r) else ur_timers r)"
  by (simp_all add: release_def remove_entries)

lemma expire_entries [simp]:
  "ur_entries (expire r l) =
     (if ur_entries r (fst l) = Some (snd l) then (ur_entries r)(fst l := None) else ur_entries r)"
  "ur_nextGeneration (expire r l) = ur_nextGeneration r"
  "ur_timers (expire r l) = removeAll l (ur_timers r)"
  by (simp_all add: expire_def remove_entries)

text \<open>The invariant: the generation counts the leases, no two leases have the same generation, and
  every registration is that of a lease and has its timer pending. The counter has 64 bits.\<close>

definition leases_ok :: "lease list \<Rightarrow> upload_registry \<Rightarrow> bool" where
  "leases_ok ls r \<longleftrightarrow>
     unat (ur_nextGeneration r) = length ls
     \<and> (\<forall>l\<in>set ls. unat (snd l) \<le> length ls) \<and> distinct (map snd ls)
     \<and> (\<forall>k g. ur_entries r k = Some g \<longrightarrow> (k, g) \<in> set ls \<and> (k, g) \<in> set (ur_timers r))
     \<and> set (ur_timers r) \<subseteq> set ls"

lemma leases_ok_start: "leases_ok [] newUploadRegistry"
  by (simp add: leases_ok_def newUploadRegistry_def)

lemma leases_ok_lead:
  assumes ok: "leases_ok ls r" and acq: "acquire r a i = (Some l, r')" and few: "Suc (length ls) < 2 ^ 64"
  shows "leases_ok (l # ls) r'"
proof -
  have g: "unat (ur_nextGeneration r + 1) = Suc (length ls)"
    using ok few by (simp add: leases_ok_def unat_word_ariths)
  have new: "ur_nextGeneration r + 1 \<notin> snd ` set ls"
  proof
    assume "ur_nextGeneration r + 1 \<in> snd ` set ls"
    then obtain x where "x \<in> set ls" "snd x = ur_nextGeneration r + 1" by auto
    then have "unat (ur_nextGeneration r + 1) \<le> length ls" using ok by (metis leases_ok_def)
    then show False using g by simp
  qed
  have "unat (snd x) \<le> Suc (length ls)" if "x \<in> set ls" for x
    using ok that by (simp add: leases_ok_def le_SucI)
  then show ?thesis using ok g new acq [unfolded acquire_Some] by (auto simp: leases_ok_def)
qed

lemma leases_ok_release: "leases_ok ls r \<Longrightarrow> l \<in> set ls \<Longrightarrow> leases_ok ls (release r l)"
  by (cases l) (auto simp: leases_ok_def)

lemma leases_ok_expire: "leases_ok ls r \<Longrightarrow> l \<in> set (ur_timers r) \<Longrightarrow> leases_ok ls (expire r l)"
  by (cases l) (auto simp: leases_ok_def)

lemma uploads_reach_ok: "uploads_reach ls r \<Longrightarrow> length ls < 2 ^ 64 \<Longrightarrow> leases_ok ls r"
proof (induction rule: uploads_reach.induct)
  case start
  show ?case by (rule leases_ok_start)
next
  case (lead ls r a i l r')
  then show ?case using leases_ok_lead [of ls r a i l r'] by simp
next
  case (follow ls r a i r')
  then show ?case by (simp add: acquire_None)
qed (simp_all add: leases_ok_release leases_ok_expire)

text \<open>A lease that is not the registered one changes nothing of the registrations.\<close>

lemma lease_owner:
  assumes "leases_ok ls r" "ur_entries r k = Some g" "l \<in> set ls" "l \<noteq> (k, g)"
  shows "ur_entries (release r l) k = Some g" "ur_entries (expire r l) k = Some g"
  using assms by (cases l; auto)+

text \<open>A request that leads leaves the registrations as they were when it returns, however often its
  lease is released.\<close>

lemma acquire_release:
  "acquire r a i = (Some l, r') \<Longrightarrow> ur_entries (release r' l) = ur_entries r"
  by (auto simp: acquire_Some)

lemma release_again: "release (release r l) l = release r l"
  by (simp add: release_def uploads_remove_def split: option.split)

section \<open>The index\<close>

record action_entry =
  ae_OutputID :: string
  ae_BlobHash :: string
  ae_Size :: int

record 'w buildcache =
  bc_es :: "'w envelope_store"
  bc_entries :: env_index
  bc_json :: "action_entry json_codec"
  bc_store :: "'w store_ops"
  bc_now :: time
  bc_unicode :: "string \<Rightarrow> string"

definition BC_Get :: "'w buildcache \<Rightarrow> 'w \<Rightarrow> string \<Rightarrow> index_error + action_entry" where
  "BC_Get h w actionID =
     (case EI_GetJSON (j_dec (bc_json h)) (bc_es h) (bc_entries h) w actionID of
        Inl e \<Rightarrow> Inl (indexError e)
      | Inr entry \<Rightarrow> Inr entry)"

definition BC_Put :: "'w buildcache \<Rightarrow> 'w \<Rightarrow> string \<Rightarrow> action_entry \<Rightarrow> (mdb_error + unit) \<times> 'w" where
  "BC_Put h w actionID entry = EI_PutJSON (j_enc (bc_json h)) (bc_es h) (bc_entries h) (bc_now h) w actionID entry []"

section \<open>The handler\<close>

definition isValidHex :: "string \<Rightarrow> bool" where
  "isValidHex s \<longleftrightarrow> \<not> (length s = 0 \<or> length s mod 2 \<noteq> 0) \<and> hex_decode s \<noteq> None"

definition BC_handleGet :: "'w buildcache \<Rightarrow> 'w \<Rightarrow> string \<Rightarrow> http_response \<times> 'w" where
  "BC_handleGet h w actionID =
     (case BC_Get h w actionID of
        Inl NotCached \<Rightarrow> (http_NotFound, w)
      | Inl (IndexFailed _) \<Rightarrow> (http_Error ''internal error'' 500, w)
      | Inr entry \<Rightarrow>
          (case ParseBlobRef (bc_unicode h) (ae_BlobHash entry) of
             Inl _ \<Rightarrow> (http_NotFound, w)
           | Inr ref \<Rightarrow>
               (case st_Get (bc_store h) w (br_hash ref) of
                  (Inl _, w1) \<Rightarrow> (http_NotFound, w1)
                | (Inr d, w1) \<Rightarrow>
                    (reply 200 [(''Content-Type'', ''application/octet-stream''), (''X-Output-ID'', ae_OutputID entry),
                       (''Content-Length'', FormatInt (ae_Size entry))] d, w1))))"

text \<open>Whether the output is recorded and stored already, with the response where that cannot be
  decided.\<close>

definition alreadyLoaded :: "'w buildcache \<Rightarrow> 'w \<Rightarrow> string \<Rightarrow> string \<Rightarrow> http_response + bool" where
  "alreadyLoaded h w actionID outputID =
     (case BC_Get h w actionID of
        Inr entry \<Rightarrow>
          (if ae_OutputID entry = outputID then
             (case ParseBlobRef (bc_unicode h) (ae_BlobHash entry) of
                Inl _ \<Rightarrow> Inr False
              | Inr ref \<Rightarrow>
                  (case st_Has (bc_store h) w (br_hash ref) of
                     Inl _ \<Rightarrow> Inl (http_Error ''storage error'' 500)
                   | Inr exists \<Rightarrow> Inr exists))
           else Inr False)
      | Inl NotCached \<Rightarrow> Inr False
      | Inl (IndexFailed _) \<Rightarrow> Inl (http_Error ''index error'' 500))"

text \<open>The upload of the leader; \<open>cancelled\<close> is what \<open>ctx.Err\<close> reports after the body is stored
  and after its size is read.\<close>

definition leaderUpload ::
  "'w buildcache \<Rightarrow> 'w \<Rightarrow> source \<Rightarrow> (nat \<Rightarrow> bool) \<Rightarrow> string \<Rightarrow> string \<Rightarrow> http_response \<times> 'w" where
  "leaderUpload h w body cancelled actionID outputID =
     (case st_Put (bc_store h) w body of
        (Inl _, w1) \<Rightarrow> (http_Error ''storage error'' 500, w1)
      | (Inr hash, w1) \<Rightarrow>
          if cancelled 0 then (http_Error ''upload cancelled'' 500, w1)
          else (case st_Size (bc_store h) w1 hash of
             Inl _ \<Rightarrow> (http_Error ''storage error'' 500, w1)
           | Inr sz \<Rightarrow>
               if cancelled 1 then (http_Error ''upload cancelled'' 500, w1)
               else (case BC_Put h w1 actionID
                        \<lparr>ae_OutputID = outputID, ae_BlobHash = BlobRef_String (NewBlobRef hash), ae_Size = sz\<rparr> of
                  (Inl _, w2) \<Rightarrow> (http_Error ''index error'' 500, w2)
                | (Inr _, w2) \<Rightarrow> (WriteHeader 204, w2))))"

text \<open>The handler's state is the registry and the world. The lease is released when the handler
  returns; a release on cancellation before that leaves nothing for the second one.\<close>

definition BC_handlePut ::
  "'w buildcache \<Rightarrow> upload_registry \<times> 'w \<Rightarrow> http_request \<Rightarrow> (nat \<Rightarrow> bool) \<Rightarrow> string
     \<Rightarrow> http_response \<times> upload_registry \<times> 'w" where
  "BC_handlePut h s r cancelled actionID =
     (let outputID = rq_Query r ''output_id'' in
      if outputID = [] then (http_Error ''missing output_id query parameter'' 400, s)
      else (case acquire (fst s) actionID outputID of
          (None, reg) \<Rightarrow> (WriteHeader 204, reg, snd s)
        | (Some lease, reg) \<Rightarrow>
            (case alreadyLoaded h (snd s) actionID outputID of
               Inl resp \<Rightarrow> (resp, release reg lease, snd s)
             | Inr True \<Rightarrow> (WriteHeader 204, release reg lease, snd s)
             | Inr False \<Rightarrow>
                 (case leaderUpload h (snd s) (rq_Body r) cancelled actionID outputID of
                    (resp, w1) \<Rightarrow> (resp, release reg lease, w1)))))"

definition BC_ServeHTTP ::
  "'w buildcache \<Rightarrow> upload_registry \<times> 'w \<Rightarrow> http_request \<Rightarrow> (nat \<Rightarrow> bool)
     \<Rightarrow> http_response \<times> upload_registry \<times> 'w" where
  "BC_ServeHTTP h s r cancelled =
     (let actionID = TrimPrefix (rq_Path r) ''/'' in
      if actionID = [] then (http_Error ''missing action ID'' 400, s)
      else if \<not> isValidHex actionID then (http_Error ''invalid action ID: must be hex-encoded'' 400, s)
      else if rq_Method r = ''GET'' then
        (case BC_handleGet h (snd s) actionID of (resp, w1) \<Rightarrow> (resp, fst s, w1))
      else if rq_Method r = ''PUT'' then BC_handlePut h s r cancelled actionID
      else (http_Error ''method not allowed'' 405, s))"

section \<open>Over any store\<close>

context cache_world
begin

text \<open>An entry whose blob is stored.\<close>

definition bc_holds :: "'w buildcache \<Rightarrow> 'w \<Rightarrow> string \<Rightarrow> action_entry \<Rightarrow> bytes \<Rightarrow> bool" where
  "bc_holds h w a e d \<longleftrightarrow>
     BC_Get h w a = Inr e
     \<and> (\<exists>ref. ParseBlobRef (bc_unicode h) (ae_BlobHash e) = Inr ref \<and> content w (br_hash ref) = Some d)"

definition bc_on :: "'w buildcache \<Rightarrow> bool" where
  "bc_on h \<longleftrightarrow> bc_es h = es \<and> bc_store h = st \<and> json_ok (bc_json h) \<and> index_ok (bc_entries h)"

lemma BC_Get_cong:
  assumes "bc_on h" "\<And>p kd k. es_Get es w' p kd k = es_Get es w p kd k"
  shows "BC_Get h w' a = BC_Get h w a"
proof -
  have "EI_GetJSON (j_dec (bc_json h)) es (bc_entries h) w' a = EI_GetJSON (j_dec (bc_json h)) es (bc_entries h) w a"
    by (rule EI_GetJSON_cong) (rule assms(2))
  then show ?thesis using assms(1) by (simp add: BC_Get_def bc_on_def)
qed

lemma BC_Put_entry:
  assumes h: "bc_on h" and inv: "inv w" and put: "BC_Put h w a entry = (r, w')"
  shows "inv w' \<and> content w' = content w \<and> (healthy w' \<longleftrightarrow> healthy w)
    \<and> (case r of
         Inl _ \<Rightarrow> w' = w
       | Inr _ \<Rightarrow> BC_Get h w' a = Inr entry \<and> (\<forall>a'. a' \<noteq> a \<longrightarrow> BC_Get h w' a' = BC_Get h w a'))"
proof -
  have on: "bc_es h = es" "json_ok (bc_json h)" "index_ok (bc_entries h)" using h by (simp_all add: bc_on_def)
  show ?thesis
    using index_json_put_get [OF on(3,2) inv put [unfolded BC_Put_def on(1)]] on(1) by (auto simp: BC_Get_def split: sum.splits)
qed

lemma alreadyLoaded_True:
  assumes "bc_on h" "inv w" "alreadyLoaded h w a i = Inr True"
  shows "\<exists>e d. bc_holds h w a e d \<and> ae_OutputID e = i"
proof -
  obtain e ref where e: "BC_Get h w a = Inr e" "ae_OutputID e = i" "ParseBlobRef (bc_unicode h) (ae_BlobHash e) = Inr ref"
    "st_Has st w (br_hash ref) = Inr True"
    using assms(1,3) by (auto simp: alreadyLoaded_def bc_on_def split: sum.splits index_error.splits if_splits)
  have "content w (br_hash ref) \<noteq> None"
    using has_blob [OF assms(2), of "br_hash ref"] ParseBlobRef_is_hash [OF e(3)] e(4) by simp
  then show ?thesis using e by (auto simp: bc_holds_def)
qed

lemma leaderUpload_spec:
  assumes h: "bc_on h" and inv: "inv w" and up: "leaderUpload h w body cancelled a i = (resp, w')"
  shows "inv w' \<and> (healthy w \<longrightarrow> healthy w')
    \<and> (\<forall>a'. a' \<noteq> a \<or> rs_Status resp \<noteq> 204 \<longrightarrow> BC_Get h w' a' = BC_Get h w a')
    \<and> (\<forall>g d. is_hash g \<longrightarrow> content w g = Some d \<longrightarrow> content w' g = Some d)
    \<and> (rs_Status resp = 204 \<longrightarrow>
        (\<exists>e d. bc_holds h w' a e d \<and> ae_OutputID e = i \<and> ae_Size e = int (length d)
           \<and> blake3 d = blake3 (concat (chunks body))))"
proof -
  have st: "bc_store h = st" using h by (simp add: bc_on_def)
  obtain pres w1 where p: "st_Put st w body = (pres, w1)" by fastforce
  note pb = put_blob [OF inv p]
  have inv1: "inv w1" "healthy w \<longrightarrow> healthy w1" using pb by simp_all
  have get1: "BC_Get h w1 a' = BC_Get h w a'" for a'
    by (rule BC_Get_cong [OF h]) (use pb in blast)
  have keep1: "\<forall>g d. is_hash g \<longrightarrow> content w g = Some d \<longrightarrow> content w1 g = Some d"
    using upload_keeps [OF inv p] by blast
  have failed: ?thesis if "w' = w1" "rs_Status resp \<noteq> 204" using that inv1 get1 keep1 by simp
  show ?thesis
  proof (cases "\<exists>x n w2. pres = Inr x \<and> st_Size st w1 x = Inr n \<and> \<not> cancelled 0 \<and> \<not> cancelled 1
      \<and> BC_Put h w1 a \<lparr>ae_OutputID = i, ae_BlobHash = BlobRef_String (NewBlobRef x), ae_Size = n\<rparr> = (Inr (), w2)")
    case False
    then show ?thesis
      using up p st BC_Put_entry [OF h inv1(1)]
      by (intro failed; fastforce simp: leaderUpload_def split: sum.splits if_splits prod.splits)
  next
    case True
    then obtain x n w2 where x: "pres = Inr x" "st_Size st w1 x = Inr n" "\<not> cancelled 0" "\<not> cancelled 1"
      and ip: "BC_Put h w1 a \<lparr>ae_OutputID = i, ae_BlobHash = BlobRef_String (NewBlobRef x), ae_Size = n\<rparr> = (Inr (), w2)"
      by blast
    let ?e = "\<lparr>ae_OutputID = i, ae_BlobHash = BlobRef_String (NewBlobRef x), ae_Size = n\<rparr>"
    have w': "w' = w2" "rs_Status resp = 204" using up p st x ip by (auto simp: leaderUpload_def)
    note e = BC_Put_entry [OF h inv1(1) ip, simplified]
    obtain d where d: "is_hash x" "content w1 x = Some d" "blake3 d = blake3 (concat (chunks body))" "n = int (length d)"
      using upload_stored [OF inv p [unfolded x(1)]] x(2) by auto
    have "bc_holds h w' a ?e d" using e w' d by (simp add: bc_holds_def) (simp add: NewBlobRef_def)
    moreover have "inv w'" "healthy w \<longrightarrow> healthy w'" "content w' = content w1"
      "\<forall>a'. a' \<noteq> a \<longrightarrow> BC_Get h w' a' = BC_Get h w a'"
      using e inv1 w'(1) get1 by simp_all
    ultimately show ?thesis using keep1 d(3,4) w'(2) by fastforce
  qed
qed

lemma BC_handlePut_spec:
  assumes h: "bc_on h" and inv: "inv w" and put: "BC_handlePut h (reg, w) r cancelled a = (resp, reg', w')"
  shows "inv w' \<and> (healthy w \<longrightarrow> healthy w') \<and> ur_entries reg' = ur_entries reg
    \<and> (\<forall>a'. a' \<noteq> a \<or> rs_Status resp \<noteq> 204 \<longrightarrow> BC_Get h w' a' = BC_Get h w a')
    \<and> (\<forall>g d. is_hash g \<longrightarrow> content w g = Some d \<longrightarrow> content w' g = Some d)
    \<and> (rs_Status resp = 204 \<longrightarrow> ur_entries reg (a, rq_Query r ''output_id'') = None \<longrightarrow>
        (\<exists>e d. bc_holds h w' a e d \<and> ae_OutputID e = rq_Query r ''output_id''
           \<and> (bc_holds h w a e d \<or> ae_Size e = int (length d) \<and> blake3 d = blake3 (concat (chunks (rq_Body r))))))"
proof -
  let ?i = "rq_Query r ''output_id''"
  show ?thesis
  proof (cases "?i = [] \<or> ur_entries reg (a, ?i) \<noteq> None")
    case True
    then show ?thesis
      using put inv by (auto simp: BC_handlePut_def acquire_def Let_def split: if_splits)
  next
    case False
    then obtain l reg1 where acq: "acquire reg a ?i = (Some l, reg1)" by (auto simp: acquire_Some)
    note kept = acquire_release [OF acq]
    show ?thesis
    proof (cases "alreadyLoaded h w a ?i = Inr False")
      case True
      obtain resp1 w1 where up: "leaderUpload h w (rq_Body r) cancelled a ?i = (resp1, w1)" by fastforce
      have "resp = resp1" "w' = w1" "reg' = release reg1 l"
        using put False acq True up by (auto simp: BC_handlePut_def)
      then show ?thesis using leaderUpload_spec [OF h inv up] kept False by auto
    next
      case loaded: False
      then have "w' = w" "reg' = release reg1 l" "rs_Status resp = 204 \<longrightarrow> alreadyLoaded h w a ?i = Inr True"
        using put False acq
        by (auto simp: BC_handlePut_def alreadyLoaded_def split: sum.splits index_error.splits if_splits bool.splits)
      then show ?thesis using alreadyLoaded_True [OF h inv, of a ?i] inv kept False by (auto simp del: release_entries)
    qed
  qed
qed

lemma BC_handleGet_spec:
  assumes h: "bc_on h" and inv: "inv w" and get: "BC_handleGet h w a = (resp, w')"
  shows "inv w' \<and> content w' = content w \<and> (healthy w' \<longleftrightarrow> healthy w) \<and> (\<forall>a. BC_Get h w' a = BC_Get h w a)
    \<and> (bc_holds h w a e d \<longrightarrow> healthy w \<longrightarrow>
         resp = reply 200 [(''Content-Type'', ''application/octet-stream''), (''X-Output-ID'', ae_OutputID e),
           (''Content-Length'', FormatInt (ae_Size e))] d)"
proof (cases "\<exists>entry ref. BC_Get h w a = Inr entry \<and> ParseBlobRef (bc_unicode h) (ae_BlobHash entry) = Inr ref")
  case False
  then have "w' = w" using get by (auto simp: BC_handleGet_def split: sum.splits index_error.splits)
  then show ?thesis using False inv by (auto simp: bc_holds_def)
next
  case True
  then obtain entry ref where e: "BC_Get h w a = Inr entry" "ParseBlobRef (bc_unicode h) (ae_BlobHash entry) = Inr ref"
    by blast
  have st: "bc_store h = st" using h by (simp add: bc_on_def)
  obtain res w1 where g: "st_Get st w (br_hash ref) = (res, w1)" by fastforce
  note gb = get_blob [OF inv _ g] and x = ParseBlobRef_is_hash [OF e(2)]
  have w': "w' = w1" using get e g st by (auto simp: BC_handleGet_def split: sum.splits)
  have "BC_Get h w1 a = BC_Get h w a" for a
    by (rule BC_Get_cong [OF h]) (use gb x in blast)
  moreover have "res = Inr d" if "bc_holds h w a c d" "healthy w" for c
    using gb x that e by (auto simp: bc_holds_def split: sum.splits)
  ultimately show ?thesis using gb x w' get e g st by (auto simp: BC_handleGet_def bc_holds_def)
qed

end

end
