(* ===== verification/ProtocolProperties.thy ===== *)
theory ProtocolProperties
  imports HttpCache BuildCache StoreProperties IndexProperties
begin

text \<open>
  The properties of the protocol handlers as the server runs them: over the bbolt database and the
  content store on the filesystem backend.
\<close>

section \<open>The HTTP cache\<close>

text \<open>A PUT that the HTTP cache answers with 204 had a body within the limit, keeps every stored
  blob and every other key's entry, and the next GET of the key delivers content with the hash of
  the body and its length, which is the body itself if no blob with that hash was stored.\<close>

theorem httpcache_put_get:
  fixes w :: "(db, fs, unit, 'n) cafs"
  assumes ok: "world_ok blake3 w" and json: "json_ok (hc_json h)" and idx: "index_ok (hc_entries h)"
    and on: "hc_es h = onMetaDB (boltStore U mar)" "hc_store h = cafsOps (serverStore c blake3 fmt nt) tf now"
    and req: "rq_Method r = ''PUT''" "rq_Path r = CHR ''/'' # key" "isValidKey key"
    and put: "HC_ServeHTTP h w r = (resp, w')" "rs_Status resp = 204"
    and get: "rq_Method r' = ''GET''" "rq_Path r' = rq_Path r" "HC_ServeHTTP h w' r' = (resp', w'')"
    and healthy: "fs_healthy (cs_backend w)"
  shows "\<exists>d. resp' = reply 200 [(''Content-Type'', ''application/octet-stream''), (''Content-Length'', FormatInt (int (length d)))] d
    \<and> blake3 d = blake3 (concat (chunks (rq_Body r)))
    \<and> (fs_content (cs_backend w) (blake3 (concat (chunks (rq_Body r)))) = None \<longrightarrow> d = concat (chunks (rq_Body r)))
    \<and> int (length (concat (chunks (rq_Body r)))) \<le> hc_maxBodySize h
    \<and> (\<forall>key'. key' \<noteq> key \<longrightarrow> HC_Get h w'' key' = HC_Get h w key')
    \<and> (\<forall>g b. is_hash g \<longrightarrow> fs_content (cs_backend w) g = Some b \<longrightarrow> fs_content (cs_backend w'') g = Some b)"
proof -
  have key: "TrimPrefix (CHR ''/'' # key) ''/'' = key" using TrimPrefix_append [of "''/''" key] by simp
  have on': "server.hc_on U mar h" using json idx on by (simp add: server.hc_on_def)
  have p: "HC_handlePut h w (rq_Body r) key = (resp, w')"
    using put(1) req key by (simp add: HC_ServeHTTP_def)
  note ps = server.HC_handlePut_spec [OF on' on(2) ok p]
  then obtain d where d: "server.hc_holds h w' key d" "blake3 d = blake3 (concat (chunks (rq_Body r)))"
    "fs_content (cs_backend w) (blake3 (concat (chunks (rq_Body r)))) = None \<longrightarrow> d = concat (chunks (rq_Body r))"
    using put(2) by auto
  have g: "HC_handleGet h w' key = (resp', w'')"
    using get req key by (simp add: HC_ServeHTTP_def)
  have "world_ok blake3 w'" using ps by simp
  note gs = server.HC_handleGet_spec [OF on' on(2) this g, of d]
  show ?thesis using gs ps d put(2) healthy by auto
qed

text \<open>A server whose index stores the entries of blobs of five bytes, over an empty store.\<close>

definition store1 :: "(db, fs, unit, unit) cafs" where
  "store1 = store0 createBuckets"

lemma store1_ok: "world_ok blake3_0 store1" "fs_healthy (cs_backend store1)" "fs_content (cs_backend store1) g = None"
  using db_reach_good [OF reach_init] db_inv_envs_good [OF db_reach_inv [OF reach_init]]
  by (simp_all add: world_ok_def store1_def store0_ok blobs_inv_def) (simp_all add: store0_def)

definition kindIdx :: "string \<Rightarrow> env_index" where
  "kindIdx k = NewEnvelopeIndex plainCodec ''cache'' k 1000000000 []"

definition protoIdx :: env_index where
  "protoIdx = kindIdx ''entry''"

lemma kindIdx_simps [simp]:
  "ix_codec (kindIdx k) = plainCodec" "ix_protocol (kindIdx k) = ''cache''" "ix_kind (kindIdx k) = k"
  "ix_ttl (kindIdx k) = 1000000000"
  by (simp_all add: kindIdx_def NewEnvelopeIndex_def)

lemma index_ok_kind: "sep \<notin> set k \<Longrightarrow> index_ok (kindIdx k)"
  by (simp add: index_ok_def sep_def)

lemma index_ok_proto: "index_ok protoIdx"
  by (simp add: protoIdx_def index_ok_kind sep_def)

lemma sample_put_options:
  assumes "blobs_good (d_blobs (cs_metaDB w))" "set refs \<subseteq> {ref0, ref1}" "length data < CompressionThreshold"
    "length k + length key < 1000"
  shows "\<exists>w'. EI_Put (onMetaDB (boltStore id (\<lambda>_. True))) (kindIdx k) 0 w key data ct refs = (Inr (), w')
     \<and> blobs_good (d_blobs (cs_metaDB w'))"
proof -
  have put: "\<exists>d'. PutEnvelope id (\<lambda>_. True) (cs_metaDB w) ''cache'' k key (Some env) = (Inr (), d') \<and> blobs_good (d_blobs d')"
    if "Attributes env = []" "set (BlobRefs env) \<subseteq> {ref0, ref1}" for env
  proof (rule PutEnvelope_succeeds [OF assms(1)])
    show "length (makeEnvelopeKey ''cache'' k key) + 8 \<le> maxKeySize"
      using assms(4) by (simp add: makeEnvelopeKey_def maxKeySize_def)
    have "\<forall>r \<in> set (BlobRefs env). ValidateDigestFormat id r = Inr ()" using that(2) by auto
    then show "ValidateEnvelope id (Some env) = Inr ()"
      using that(1) by (simp add: ValidateEnvelope_def attributesSize_def validateRefs_Inr)
  qed simp
  have put': "fst (PutEnvelope id (\<lambda>_. True) (cs_metaDB w) ''cache'' k key (Some env)) = Inr ()"
    "blobs_good (d_blobs (snd (PutEnvelope id (\<lambda>_. True) (cs_metaDB w) ''cache'' k key (Some env))))"
    if "Attributes env = []" "set (BlobRefs env) \<subseteq> {ref0, ref1}" for env
    using put [OF that] by force+
  show ?thesis
    unfolding EI_Put_def EI_PutWithOptions_def encode_small [OF assms(3)]
      kindIdx_simps sum.case prod.case Let_def onMetaDB_simps boltStore_simps liftDB_def
    using assms(2) by (simp add: put')
qed

lemma sample_index:
  assumes "blobs_good (d_blobs (cs_metaDB w))" "set refs \<subseteq> {ref0, ref1}" "j_enc j v = Some data" "length data < CompressionThreshold"
    "length k + length key < 1000"
  shows "\<exists>w'. EI_PutJSON (j_enc j) (onMetaDB (boltStore id (\<lambda>_. True))) (kindIdx k) 0 w key v refs = (Inr (), w')
     \<and> blobs_good (d_blobs (cs_metaDB w'))"
  using sample_put_options [OF assms(1,2,4,5)] assms(3) by (simp add: EI_PutJSON_def)

definition hc0 :: "(db, fs, unit, unit) cafs httpcache" where
  "hc0 = \<lparr>hc_es = onMetaDB (boltStore id (\<lambda>_. True)), hc_entries = protoIdx,
     hc_json = \<lparr>j_enc = (\<lambda>e. if ce_Size e = 5 then Some (ce_BlobHash e) else None),
                j_dec = (\<lambda>b. Some \<lparr>ce_BlobHash = b, ce_Size = 5\<rparr>)\<rparr>,
     hc_store = cafsOps serverStore0 temp0 0, hc_maxBodySize = 10, hc_now = 0, hc_unicode = id,
     hc_TimeFormat = (\<lambda>_. []), hc_EscapeText = id\<rparr>"

lemma FormatInt_5: "FormatInt 5 = ''5''"
  by code_simp

definition request :: "string \<Rightarrow> string \<Rightarrow> source \<Rightarrow> http_request" where
  "request m p b = \<lparr>rq_Method = m, rq_Path = p, rq_Query = (\<lambda>_. ''0f''), rq_Header = (\<lambda>_. []), rq_Body = b,
     rq_Host = ''cache'', rq_TLS = False\<rparr>"

text \<open>An upload into a sound, healthy world succeeds.\<close>

lemma upload_succeeds:
  assumes w: "world_ok blake3_0 w" "fs_healthy (cs_backend w)" and r: "\<not> src_fails r"
  shows "\<exists>w'. Put serverStore0 temp0 0 w r = (Inr (blake3_0 (concat (chunks r))), w')
     \<and> world_ok blake3_0 w' \<and> fs_healthy (cs_backend w') \<and> blobs_good (d_blobs (cs_metaDB w'))
     \<and> fs_content (cs_backend w') (blake3_0 (concat (chunks r))) \<noteq> None
     \<and> (fs_content (cs_backend w) (blake3_0 (concat (chunks r))) = None \<longrightarrow>
          fs_content (cs_backend w') (blake3_0 (concat (chunks r))) = Some (concat (chunks r)))
     \<and> (\<forall>p kd k. GetEnvelope (cs_metaDB w') p kd k = GetEnvelope (cs_metaDB w) p kd k)"
proof -
  obtain res w' where run: "PutWithResult serverStore0 temp0 0 w r = (res, w')" by fastforce
  note spec = cafs.PutWithResult_spec [OF _ _ run, folded storeOk_eq]
  have "\<exists>p. res = Inr p" using spec w r by (simp add: world_ok_def temp_ok_def temp0_def)
  then obtain p where p: "res = Inr p" by blast
  then have put: "Put serverStore0 temp0 0 w r = (Inr (pr_Hash p), w')" using run by (simp add: Put_def)
  note pb = server.put_blob [OF w(1), unfolded cafsOps_simps onMetaDB_simps boltStore_simps, OF put, simplified]
  let ?h = "blake3_0 (concat (chunks r))"
  have h: "pr_Hash p = ?h" and ok: "world_ok blake3_0 w'" "fs_healthy (cs_backend w')" and hash: "is_hash (pr_Hash p)"
    and envs: "\<forall>p kd k. GetEnvelope (cs_metaDB w') p kd k = GetEnvelope (cs_metaDB w) p kd k"
    and all: "\<forall>g. is_hash g \<longrightarrow> fs_content (cs_backend w') g =
      (if g = pr_Hash p \<and> fs_content (cs_backend w) (pr_Hash p) = None then Some (concat (chunks r)) else fs_content (cs_backend w) g)"
    using pb w(2) by blast+
  have c: "fs_content (cs_backend w') ?h =
      (if fs_content (cs_backend w) ?h = None then Some (concat (chunks r)) else fs_content (cs_backend w) ?h)"
    using all [rule_format, OF hash] unfolding h by (simp only: simp_thms)
  have "blobs_good (d_blobs (cs_metaDB w'))" using ok(1) by (simp add: world_ok_def storeOk_def blobs_inv_def)
  then show ?thesis using put [unfolded h] ok envs c by (intro exI [of _ w']) simp
qed

lemma sample_upload:
  "\<exists>w. Put serverStore0 temp0 0 store1 src1 = (Inr hash0, w) \<and> Size serverStore0 w hash0 = Inr 5
     \<and> world_ok blake3_0 w \<and> blobs_good (d_blobs (cs_metaDB w))"
proof -
  obtain w where w: "Put serverStore0 temp0 0 store1 src1 = (Inr hash0, w)" "world_ok blake3_0 w" "fs_healthy (cs_backend w)"
      "blobs_good (d_blobs (cs_metaDB w))" "fs_content (cs_backend w) hash0 = Some ''hello''"
    using upload_succeeds [OF store1_ok(1,2), of src1] store1_ok(3) by (auto simp: src1_def blake3_0_def)
  then have "Size serverStore0 w hash0 = Inr 5"
    using server.size_blob [OF w(2), of hash0 codec0 "\<lambda>_. []" None] by (auto split: sum.splits)
  then show ?thesis using w by blast
qed

theorem httpcache_put_get_witness:
  "\<exists>w w'. HC_ServeHTTP hc0 store1 (request ''PUT'' ''/a/b'' src1) = (WriteHeader 204, w)
     \<and> HC_ServeHTTP hc0 w (request ''GET'' ''/a/b'' src1)
         = (reply 200 [(''Content-Type'', ''application/octet-stream''), (''Content-Length'', ''5'')] ''hello'', w')"
proof -
  obtain w where w: "Put serverStore0 temp0 0 store1 src1 = (Inr hash0, w)" "Size serverStore0 w hash0 = Inr 5"
    "blobs_good (d_blobs (cs_metaDB w))" using sample_upload by blast
  have src: "MaxBytesReader 10 src1 = src1" by (simp add: MaxBytesReader_def src1_def)
  have "\<exists>w'. HC_Put hc0 w ''a/b'' \<lparr>ce_BlobHash = ref0, ce_Size = 5\<rparr> = (Inr (), w')"
    unfolding HC_Put_def using sample_index [OF w(3), of "[ref0]" "hc_json hc0" "\<lparr>ce_BlobHash = ref0, ce_Size = 5\<rparr>" ref0 "''entry''" "''a/b''"]
    by (auto simp add: protoIdx_def hc0_def ref0_def NewBlobRef_def BlobRef_String_def AlgBLAKE3_def CompressionThreshold_def)
  then obtain w' where "HC_Put hc0 w ''a/b'' \<lparr>ce_BlobHash = ref0, ce_Size = 5\<rparr> = (Inr (), w')" by blast
  then have put: "HC_ServeHTTP hc0 store1 (request ''PUT'' ''/a/b'' src1) = (WriteHeader 204, w')"
    using w src
    by (simp add: HC_ServeHTTP_def request_def TrimPrefix_def CutPrefix_def isValidKey_def HC_handlePut_def ref0_def hc0_def)
  obtain resp w'' where get: "HC_ServeHTTP hc0 w' (request ''GET'' ''/a/b'' src1) = (resp, w'')" by fastforce
  have "json_ok (hc_json hc0)" by (auto simp: json_ok_def hc0_def split: if_splits)
  then have "resp = reply 200 [(''Content-Type'', ''application/octet-stream''), (''Content-Length'', ''5'')] ''hello''"
    using httpcache_put_get [OF store1_ok(1) _ _ _ _ _ _ _ put _ _ _ get] index_ok_proto
    by (auto simp: request_def hc0_def isValidKey_def src1_def store1_ok FormatInt_5)
  then show ?thesis using put get by blast
qed

section \<open>The build cache\<close>

text \<open>C2: whatever uploads acquire, release and time out, a registered upload belongs to exactly one of
  the leases given out, its timer is pending so that the registration ends, a second upload of the
  action and output is turned away, and no other lease ends the registration. The generation has
  64 bits, so the leases are fewer than \<open>2 ^ 64\<close>.\<close>

theorem upload_single_leader:
  assumes "uploads_reach ls r" "length ls < 2 ^ 64" "ur_entries r (a, i) = Some g"
  shows "(\<exists>!n. n < length ls \<and> ls ! n = ((a, i), g)) \<and> ((a, i), g) \<in> set (ur_timers r)
    \<and> acquire r a i = (None, r)
    \<and> (\<forall>n < length ls. ls ! n \<noteq> ((a, i), g) \<longrightarrow> ur_entries (release r (ls ! n)) (a, i) = Some g)
    \<and> ur_entries (expire r ((a, i), g)) (a, i) = None"
proof -
  note ok = uploads_reach_ok [OF assms(1,2)]
  have mem: "((a, i), g) \<in> set ls" "((a, i), g) \<in> set (ur_timers r)" using ok assms(3) by (auto simp: leases_ok_def)
  have dist: "distinct ls" using ok by (auto simp: leases_ok_def distinct_map)
  obtain n where n: "n < length ls" "ls ! n = ((a, i), g)" using mem(1) by (meson in_set_conv_nth)
  then have "\<exists>!n. n < length ls \<and> ls ! n = ((a, i), g)"
    by (intro ex1I [of _ n]) (simp_all add: nth_eq_iff_index_eq [OF dist, of _ n, symmetric])
  moreover have "ur_entries (release r (ls ! n)) (a, i) = Some g" if "n < length ls" "ls ! n \<noteq> ((a, i), g)" for n
    using lease_owner(1) [OF ok assms(3) _ that(2)] that(1) by simp
  ultimately show ?thesis using mem assms(3) by (simp add: acquire_None)
qed

text \<open>An upload times out, another request takes it over, and the first one returns.\<close>

theorem upload_single_leader_witness:
  "\<exists>ls r. uploads_reach ls r \<and> length ls = 2 \<and> ur_entries r (''0f'', ''aa'') = Some 2
     \<and> ur_entries (release r ((''0f'', ''aa''), 1)) (''0f'', ''aa'') = Some 2"
proof -
  let ?k = "(''0f'', ''aa'')"
  obtain r1 where r1: "acquire newUploadRegistry ''0f'' ''aa'' = (Some (?k, 1), r1)"
    "ur_timers r1 = [(?k, 1)]" "ur_nextGeneration r1 = 1" "ur_entries r1 ?k = Some 1"
    by (simp add: acquire_def newUploadRegistry_def Let_def)
  let ?r2 = "expire r1 (?k, 1)"
  have r2: "uploads_reach [(?k, 1)] ?r2"
    using timeout [OF lead [OF start r1(1)], of "(?k, 1)"] r1(2) by simp
  obtain r3 where r3: "acquire ?r2 ''0f'' ''aa'' = (Some (?k, 2), r3)" "ur_entries r3 ?k = Some 2"
    using r1 by (simp add: acquire_def Let_def)
  have reach: "uploads_reach [(?k, 2), (?k, 1)] r3" by (rule lead [OF r2 r3(1)])
  have "ur_entries (release r3 (?k, 1)) ?k = Some 2"
    using upload_single_leader [OF reach _ r3(2)] by (auto dest!: spec [of _ 1])
  then show ?thesis using reach r3(2) by (intro exI [of _ "[(?k, 2), (?k, 1)]"] exI [of _ r3]) simp
qed

text \<open>C1: a PUT that the build cache answers with 204, when no upload of the same action and output is
  running, leaves the registry as it was, keeps every stored blob and every other action's entry,
  and makes the next GET of the action deliver the output: the one recorded before under the same
  output identifier, or content with the hash of the body and its length.\<close>

theorem buildcache_put_get:
  fixes w :: "(db, fs, unit, 'n) cafs"
  assumes ok: "world_ok blake3 w" and json: "json_ok (bc_json h)" and idx: "index_ok (bc_entries h)"
    and on: "bc_es h = onMetaDB (boltStore U mar)" "bc_store h = cafsOps (serverStore c blake3 fmt nt) tf now"
    and req: "rq_Method r = ''PUT''" "rq_Path r = CHR ''/'' # a" "isValidHex a"
      "ur_entries reg (a, rq_Query r ''output_id'') = None"
    and put: "BC_ServeHTTP h (reg, w) r cancelled = (resp, reg', w')" "rs_Status resp = 204"
    and get: "rq_Method r' = ''GET''" "rq_Path r' = rq_Path r" "BC_ServeHTTP h (reg', w') r' cancelled' = (resp', reg'', w'')"
    and healthy: "fs_healthy (cs_backend w)"
  shows "ur_entries reg'' = ur_entries reg
    \<and> (\<exists>n d. resp' = reply 200 [(''Content-Type'', ''application/octet-stream''),
             (''X-Output-ID'', rq_Query r ''output_id''), (''Content-Length'', FormatInt n)] d
        \<and> ((\<exists>e. BC_Get h w a = Inr e \<and> ae_OutputID e = rq_Query r ''output_id'')
            \<or> n = int (length d) \<and> blake3 d = blake3 (concat (chunks (rq_Body r)))))
    \<and> (\<forall>a'. a' \<noteq> a \<longrightarrow> BC_Get h w'' a' = BC_Get h w a')
    \<and> (\<forall>g b. is_hash g \<longrightarrow> fs_content (cs_backend w) g = Some b \<longrightarrow> fs_content (cs_backend w'') g = Some b)"
proof -
  let ?i = "rq_Query r ''output_id''"
  have key: "TrimPrefix (CHR ''/'' # a) ''/'' = a" "a \<noteq> []"
    using TrimPrefix_append [of "''/''" a] req(3) by (auto simp: isValidHex_def)
  have on': "server.bc_on U mar c blake3 fmt nt tf now h" using json idx on by (simp add: server.bc_on_def)
  have p: "BC_handlePut h (reg, w) r cancelled a = (resp, reg', w')"
    using put(1) req key by (simp add: BC_ServeHTTP_def)
  note ps = server.BC_handlePut_spec [OF on' ok p]
  then obtain e d where d: "server.bc_holds h w' a e d" "ae_OutputID e = ?i"
    "server.bc_holds h w a e d \<or> ae_Size e = int (length d) \<and> blake3 d = blake3 (concat (chunks (rq_Body r)))"
    using put(2) req(4) by auto
  have g: "BC_handleGet h w' a = (resp', w'')" "reg'' = reg'"
    using get req key by (auto simp: BC_ServeHTTP_def split: prod.splits)
  have "world_ok blake3 w'" using ps by simp
  note gs = server.BC_handleGet_spec [OF on' this g(1), of e d]
  have "resp' = reply 200 [(''Content-Type'', ''application/octet-stream''), (''X-Output-ID'', ?i),
      (''Content-Length'', FormatInt (ae_Size e))] d"
    using gs ps d(1,2) healthy by simp
  moreover have "(\<exists>e. BC_Get h w a = Inr e \<and> ae_OutputID e = ?i)
      \<or> ae_Size e = int (length d) \<and> blake3 d = blake3 (concat (chunks (rq_Body r)))"
    using d(2,3) by (auto simp: server.bc_holds_def)
  moreover have "BC_Get h w'' a' = BC_Get h w a'" if "a' \<noteq> a" for a' using gs ps that by simp
  ultimately show ?thesis using gs ps g(2) by auto
qed

definition bc0 :: "(db, fs, unit, unit) cafs buildcache" where
  "bc0 = \<lparr>bc_es = onMetaDB (boltStore id (\<lambda>_. True)), bc_entries = protoIdx,
     bc_json = \<lparr>j_enc = (\<lambda>e. if ae_Size e = 5 \<and> ae_OutputID e = ''0f'' then Some (ae_BlobHash e) else None),
                j_dec = (\<lambda>b. Some \<lparr>ae_OutputID = ''0f'', ae_BlobHash = b, ae_Size = 5\<rparr>)\<rparr>,
     bc_store = cafsOps serverStore0 temp0 0, bc_now = 0, bc_unicode = id\<rparr>"

theorem buildcache_put_get_witness:
  "\<exists>w reg. BC_ServeHTTP bc0 (newUploadRegistry, store1) (request ''PUT'' ''/ab'' src1) (\<lambda>_. False) = (WriteHeader 204, reg, w)
     \<and> fst (BC_ServeHTTP bc0 (reg, w) (request ''GET'' ''/ab'' src1) (\<lambda>_. False))
         = reply 200 [(''Content-Type'', ''application/octet-stream''), (''X-Output-ID'', ''0f''), (''Content-Length'', ''5'')] ''hello''"
proof -
  obtain w where w: "Put serverStore0 temp0 0 store1 src1 = (Inr hash0, w)" "Size serverStore0 w hash0 = Inr 5"
    "blobs_good (d_blobs (cs_metaDB w))" using sample_upload by blast
  let ?e = "\<lparr>ae_OutputID = ''0f'', ae_BlobHash = ref0, ae_Size = 5\<rparr>"
  have "\<exists>w'. BC_Put bc0 w ''ab'' ?e = (Inr (), w')"
    unfolding BC_Put_def using sample_index [OF w(3), of "[]" "bc_json bc0" ?e ref0 "''entry''" "''ab''"]
    by (auto simp add: protoIdx_def bc0_def ref0_def NewBlobRef_def BlobRef_String_def AlgBLAKE3_def CompressionThreshold_def)
  then obtain w' where w': "BC_Put bc0 w ''ab'' ?e = (Inr (), w')" by blast
  have miss: "BC_Get bc0 store1 ''ab'' = Inl NotCached"
    by (simp add: BC_Get_def EI_GetJSON_def EI_Get_def bc0_def store1_def store0_def indexError_def GetEnvelope_def createBuckets_def)
  have hex: "isValidHex ''ab''" by code_simp
  have put: "BC_ServeHTTP bc0 (newUploadRegistry, store1) (request ''PUT'' ''/ab'' src1) (\<lambda>_. False)
      = (WriteHeader 204, release (snd (acquire newUploadRegistry ''ab'' ''0f'')) ((''ab'', ''0f''), 1), w')"
    using w w' hex miss
    by (simp add: BC_ServeHTTP_def request_def TrimPrefix_def CutPrefix_def BC_handlePut_def acquire_def
        Let_def newUploadRegistry_def alreadyLoaded_def leaderUpload_def bc0_def ref0_def)
  obtain resp reg2 w2 where get: "BC_ServeHTTP bc0 (release (snd (acquire newUploadRegistry ''ab'' ''0f'')) ((''ab'', ''0f''), 1), w')
      (request ''GET'' ''/ab'' src1) (\<lambda>_. False) = (resp, reg2, w2)" by (rule prod_cases3)
  have "json_ok (bc_json bc0)" by (auto simp: json_ok_def bc0_def split: if_splits)
  then have "resp = reply 200 [(''Content-Type'', ''application/octet-stream''), (''X-Output-ID'', ''0f''), (''Content-Length'', ''5'')] ''hello''"
    using buildcache_put_get [OF store1_ok(1) _ _ _ _ _ _ _ _ put _ _ _ get, of id "\<lambda>_. True" codec0 "\<lambda>_. []" None temp0 0] index_ok_proto hex miss
    by (auto simp: request_def bc0_def store1_ok newUploadRegistry_def src1_def blake3_0_def FormatInt_5 split: if_splits)
  then show ?thesis using put get by (metis fst_conv)
qed

end
