(* ===== verification/Download.thy ===== *)
theory Download
  imports World
begin

text \<open>
  Downloads on behalf of the protocol handlers (\<open>download/\<close>): what a caller of the shared
  downloader sees, how a result becomes a response, and streaming an upstream body to the client
  and to a temporary file at once.
\<close>

section \<open>The network\<close>

text \<open>What the code tells apart in the errors of a download: the caller's context ended, the upstream
  does not have it, its host is not allowed, or anything else. A reply of an upstream is read as a source.\<close>

datatype dl_error = Canceled | DeadlineExceeded | UpstreamNotFound | HostNotAllowed | DownloadFailed

record http_reply =
  rp_Status :: nat
  rp_Header :: "string \<Rightarrow> string"
  rp_ContentLength :: int
  rp_Body :: source
  rp_ReadError :: dl_error

text \<open>An HTTP client: what sending a request with some header fields leads to.\<close>

type_synonym http_client = "string \<Rightarrow> string \<Rightarrow> (string \<times> string) list \<Rightarrow> dl_error + http_reply"

text \<open>\<open>io.ReadAll\<close> of a body, and through \<open>io.LimitReader\<close>.\<close>

definition ReadAll :: "http_reply \<Rightarrow> dl_error + bytes" where
  "ReadAll r = (if src_fails (rp_Body r) then Inl (rp_ReadError r) else Inr (concat (chunks (rp_Body r))))"

definition LimitReader :: "nat \<Rightarrow> source \<Rightarrow> source" where
  "LimitReader n r =
     (if n \<le> length (concat (chunks r)) then \<lparr>chunks = [take n (concat (chunks r))], src_fails = False\<rparr> else r)"

text \<open>Setting a field of a header, and \<open>http.Error\<close> after fields were set.\<close>

definition hset :: "(string \<times> string) list \<Rightarrow> string \<Rightarrow> string \<Rightarrow> (string \<times> string) list" where
  "hset hs k v = filter (\<lambda>x. fst x \<noteq> k) hs @ [(k, v)]"

definition http_Error_over :: "(string \<times> string) list \<Rightarrow> string \<Rightarrow> nat \<Rightarrow> http_response" where
  "http_Error_over hs msg code =
     reply code
       (hset (hset (filter (\<lambda>x. fst x \<noteq> ''Content-Length'') hs) ''Content-Type'' ''text/plain; charset=utf-8'')
          ''X-Content-Type-Options'' ''nosniff'')
       (msg @ [CHR 0x0A])"

lemma http_Error_over_Nil [simp]: "http_Error_over [] m c = http_Error m c"
  by (simp add: http_Error_over_def http_Error_def hset_def)

lemma http_Error_over_Status [simp]: "rs_Status (http_Error_over hs m c) = c"
  by (simp add: http_Error_over_def reply_def)

text \<open>Spooling a body to a temporary file, as the handlers do before they store it: the file cannot
  be created, or the copy to it fails. Reading the file back is a source again.\<close>

datatype spool_error = SpoolCreate | SpoolCopy dl_error

definition spool :: "temp_file \<Rightarrow> http_reply \<Rightarrow> spool_error + bytes" where
  "spool tf r =
     (if \<not> tf_create tf then Inl SpoolCreate
      else if \<not> tf_write tf then Inl (SpoolCopy DownloadFailed)
      else if src_fails (rp_Body r) then Inl (SpoolCopy (rp_ReadError r))
      else Inr (concat (chunks (rp_Body r))))"

definition spooled :: "temp_file \<Rightarrow> bytes \<Rightarrow> source" where
  "spooled tf data = \<lparr>chunks = [data], src_fails = \<not> tf_read tf\<rparr>"

definition spoolError :: "spool_error \<Rightarrow> dl_error" where
  "spoolError e = (case e of SpoolCreate \<Rightarrow> DownloadFailed | SpoolCopy d \<Rightarrow> d)"

lemma spool_Inr: "spool tf r = Inr data \<Longrightarrow> data = concat (chunks (rp_Body r)) \<and> \<not> src_fails (rp_Body r)"
  by (auto simp: spool_def split: if_splits)

lemma spooled_simps [simp]: "concat (chunks (spooled tf data)) = data" "src_fails (spooled tf data) = (\<not> tf_read tf)"
  by (simp_all add: spooled_def)

section \<open>The downloader\<close>

record dl_result =
  dr_Hash :: hash
  dr_Size :: int

text \<open>How the call of a caller ends: the group lets it run the function or join a run that another
  caller started and that ends with the given result; or the caller's context ends before.\<close>

datatype flight = Executes | Joins "dl_error + dl_result"

datatype role = Origin | Coalesced

datatype outcome = Success | Timeout | WasCanceled | Errored

definition spoolOutcome :: "dl_error option \<Rightarrow> outcome" where
  "spoolOutcome e =
     (case e of
        None \<Rightarrow> Success
      | Some DeadlineExceeded \<Rightarrow> Timeout
      | Some Canceled \<Rightarrow> WasCanceled
      | Some _ \<Rightarrow> Errored)"

text \<open>\<open>Downloader.Do\<close>: the result, what is recorded (role, outcome and bytes saved) and the world.
  The function runs with a context that does not end with the caller's, so it changes the world
  also when the caller has stopped waiting.\<close>

definition Do ::
  "('w \<Rightarrow> (dl_error + dl_result) \<times> 'w) \<Rightarrow> flight \<Rightarrow> dl_error option \<Rightarrow> 'w
     \<Rightarrow> (dl_error + dl_result) \<times> (role \<times> outcome \<times> int) \<times> 'w" where
  "Do fn fl ctxErr w =
     (case (case fl of Executes \<Rightarrow> fn w | Joins r \<Rightarrow> (r, w)) of
        (res, w1) \<Rightarrow>
          (let role = (case fl of Executes \<Rightarrow> Origin | Joins _ \<Rightarrow> Coalesced) in
           case ctxErr of
             None \<Rightarrow>
               (res,
                (case res of
                   Inl e \<Rightarrow> (role, spoolOutcome (Some e), 0)
                 | Inr r \<Rightarrow> (role, spoolOutcome None, if role = Coalesced then dr_Size r else 0)), w1)
           | Some e \<Rightarrow> (Inl e, (role, spoolOutcome (Some e), 0), w1)))"

section \<open>Serving a result\<close>

record serve_options =
  so_ContentType :: string
  so_ExtraHeaders :: "(string \<times> string) list"

definition ServeFromStore ::
  "'w store_ops \<Rightarrow> 'w \<Rightarrow> http_request \<Rightarrow> dl_result \<Rightarrow> serve_options \<Rightarrow> http_response \<times> 'w" where
  "ServeFromStore st w r result opts =
     (case st_Get st w (dr_Hash result) of
        (Inl _, w1) \<Rightarrow> (http_Error ''internal error'' 500, w1)
      | (Inr d, w1) \<Rightarrow>
          (reply 200
             (fold (\<lambda>(k, v) hs. hset hs k v) (so_ExtraHeaders opts)
                ((''Content-Type'', so_ContentType opts)
                 # (if dr_Size result > 0 then [(''Content-Length'', FormatInt (dr_Size result))] else [])))
             (if rq_Method r \<noteq> ''HEAD'' then d else []), w1))"

definition handleDownloadError :: "dl_error \<Rightarrow> http_response" where
  "handleDownloadError e =
     (if e = Canceled \<or> e = DeadlineExceeded then http_Error ''request timeout'' 504
      else http_Error ''upstream error'' 502)"

text \<open>Whether the key is forgotten, so that the next request tries again.\<close>

definition forgetOnDownloadError :: "dl_error \<Rightarrow> bool" where
  "forgetOnDownloadError e \<longleftrightarrow> \<not> (e = Canceled \<or> e = DeadlineExceeded)"

definition HandleResult ::
  "(dl_error \<Rightarrow> bool) \<Rightarrow> http_response option \<Rightarrow> serve_options \<Rightarrow> 'w store_ops \<Rightarrow> http_request
     \<Rightarrow> dl_error + dl_result \<Rightarrow> 'w \<Rightarrow> http_response \<times> bool \<times> 'w" where
  "HandleResult isNotFound notFoundHandler opts st r res w =
     (case res of
        Inl e \<Rightarrow>
          if isNotFound e
          then (case notFoundHandler of Some resp \<Rightarrow> resp | None \<Rightarrow> http_Error ''not found'' 404, True, w)
          else (handleDownloadError e, forgetOnDownloadError e, w)
      | Inr result \<Rightarrow> (case ServeFromStore st w r result opts of (resp, w1) \<Rightarrow> (resp, False, w1)))"

section \<open>Streaming\<close>

record stream_options =
  sto_ContentType :: string
  sto_ExtraHeaders :: "(string \<times> string) list"
  sto_ContentLength :: int

text \<open>How the system answers: whether the temporary file is created, and at which chunk a write to
  it or to the client fails after how many bytes.\<close>

record stream_sys =
  ss_create :: bool
  ss_tmp :: "nat \<Rightarrow> nat option"
  ss_client :: "nat \<Rightarrow> nat option"

text \<open>\<open>io.Copy\<close> from the tee: each chunk that is read is hashed, written to the temporary file (and to
  the hashers of the protocol, which never fail) and then to the client. When the write to the
  file fails, what it took is still written to the client. The result has what was hashed, is in
  the file and was sent, and whether the copy failed.\<close>

fun stream_copy ::
  "stream_sys \<Rightarrow> nat \<Rightarrow> bytes list \<Rightarrow> bool \<Rightarrow> bytes \<times> bytes \<times> bytes \<Rightarrow> (bytes \<times> bytes \<times> bytes) \<times> bool" where
  "stream_copy sys i [] fails acc = (acc, fails)"
| "stream_copy sys i (x # xs) fails (hashed, tmp, sent) =
     (let toClient = (\<lambda>p. case ss_client sys i of None \<Rightarrow> p | Some c \<Rightarrow> take c p) in
      case ss_tmp sys i of
        Some m \<Rightarrow> ((hashed @ x, tmp @ take m x, sent @ toClient (take m x)), True)
      | None \<Rightarrow>
          (case ss_client sys i of
             Some c \<Rightarrow> ((hashed @ x, tmp @ x, sent @ toClient x), True)
           | None \<Rightarrow> stream_copy sys (Suc i) xs fails (hashed @ x, tmp @ x, sent @ x)))"

datatype stream_error = NoTempFile | Streaming | LengthMismatch int int

text \<open>The result: the response, the error, what the temporary file holds if it is left to the caller,
  and the caller's state after \<open>onComplete\<close>.\<close>

definition StreamThrough ::
  "(bytes \<Rightarrow> hash) \<Rightarrow> stream_sys \<Rightarrow> http_request \<Rightarrow> source \<Rightarrow> stream_options
     \<Rightarrow> (dl_result \<Rightarrow> bytes \<Rightarrow> 's \<Rightarrow> bool \<times> 's) \<Rightarrow> 's
     \<Rightarrow> http_response \<times> (stream_error + unit) \<times> bytes option \<times> 's" where
  "StreamThrough blake3 sys r upstream opts onComplete s =
     (if \<not> ss_create sys then (http_Error ''internal error'' 500, Inl NoTempFile, None, s)
      else
        let hs = fold (\<lambda>(k, v) hs. hset hs k v) (sto_ExtraHeaders opts)
               ((''Content-Type'', sto_ContentType opts)
                # (if sto_ContentLength opts > 0 then [(''Content-Length'', FormatInt (sto_ContentLength opts))] else []))
        in if rq_Method r = ''HEAD'' then (reply 200 hs [], Inr (), None, s)
           else (case stream_copy sys 0 (chunks upstream) (src_fails upstream) ([], [], []) of
               ((hashed, tmp, sent), True) \<Rightarrow>
                 (if sent = [] then http_Error_over hs ''upstream error'' 502 else reply 200 hs sent,
                  Inl Streaming, None, s)
             | ((hashed, tmp, sent), False) \<Rightarrow>
                 if sto_ContentLength opts > 0 \<and> int (length sent) \<noteq> sto_ContentLength opts
                 then (reply 200 hs sent, Inl (LengthMismatch (sto_ContentLength opts) (int (length sent))), None, s)
                 else (case onComplete \<lparr>dr_Hash = blake3 hashed, dr_Size = int (length sent)\<rparr> tmp s of
                     (False, s1) \<Rightarrow> (reply 200 hs sent, Inr (), None, s1)
                   | (True, s1) \<Rightarrow> (reply 200 hs sent, Inr (), Some tmp, s1))))"

section \<open>What they guarantee\<close>

text \<open>What is sent is a beginning of the body, and all of it, hashed and kept, when the copy does not
  fail.\<close>

lemma stream_copy_prefix:
  "stream_copy sys i xs fails (h, t, o1) = ((h', t', o'), e) \<Longrightarrow> \<exists>c z. o' = o1 @ c \<and> concat xs = c @ z"
proof (induction xs arbitrary: i h t o1)
  case Nil
  then show ?case by simp
next
  case (Cons x xs)
  have cut: "\<exists>z. x @ concat xs = take n x @ z" "\<exists>z. x @ concat xs = take n (take m x) @ z" for n m
    by (metis append.assoc append_take_drop_id) (metis append.assoc append_take_drop_id take_take)
  show ?case
  proof (cases "ss_tmp sys i = None \<and> ss_client sys i = None")
    case True
    then have "stream_copy sys (Suc i) xs fails (h @ x, t @ x, o1 @ x) = ((h', t', o'), e)"
      using Cons.prems by simp
    from Cons.IH [OF this] show ?thesis by auto
  next
    case False
    then show ?thesis using Cons.prems cut by (auto split: option.splits)
  qed
qed

lemma stream_copy_complete:
  "stream_copy sys i xs fails (h, t, o1) = ((h', t', o'), False) \<Longrightarrow>
     \<not> fails \<and> h' = h @ concat xs \<and> t' = t @ concat xs \<and> o' = o1 @ concat xs"
proof (induction xs arbitrary: i h t o1)
  case Nil
  then show ?case by simp
next
  case (Cons x xs)
  then have "stream_copy sys (Suc i) xs fails (h @ x, t @ x, o1 @ x) = ((h', t', o'), False)"
    by (simp add: Let_def split: option.splits)
  from Cons.IH [OF this] show ?case by simp
qed

lemma stream_copy_calm:
  "(\<And>i. ss_tmp sys i = None) \<Longrightarrow> (\<And>i. ss_client sys i = None) \<Longrightarrow>
     stream_copy sys i xs fails (h, t, o1) = ((h @ concat xs, t @ concat xs, o1 @ concat xs), fails)"
  by (induction xs arbitrary: i h t o1) auto

text \<open>A result whose content is stored is served.\<close>

text \<open>The caller's state changes only by its callback, which sees the whole body.\<close>

lemma StreamThrough_state:
  assumes "StreamThrough blake3 sys r up opts f s = (resp, err, tmp, s')"
  shows "s' = s \<or> \<not> src_fails up \<and> s' = snd (f \<lparr>dr_Hash = blake3 (concat (chunks up)), dr_Size = int (length (concat (chunks up)))\<rparr>
    (concat (chunks up)) s)"
proof (rule disjCI)
  assume neq: "\<not> (\<not> src_fails up \<and> s' = snd (f \<lparr>dr_Hash = blake3 (concat (chunks up)), dr_Size = int (length (concat (chunks up)))\<rparr>
    (concat (chunks up)) s))"
  obtain h t o1 e where c: "stream_copy sys 0 (chunks up) (src_fails up) ([], [], []) = ((h, t, o1), e)" by (metis prod.exhaust)
  show "s' = s"
  proof (cases e)
    case True
    then show ?thesis using assms c by (auto simp: StreamThrough_def Let_def split: if_splits)
  next
    case False
    then have c': "stream_copy sys 0 (chunks up) (src_fails up) ([], [], []) = ((h, t, o1), False)" using c by simp
    show ?thesis
      using assms c' neq stream_copy_complete [OF c']
      by (auto simp: StreamThrough_def Let_def split: if_splits prod.splits bool.splits)
  qed
qed

context cache_world
begin

lemma ServeFromStore_spec:
  assumes inv: "inv w" "is_hash (dr_Hash result)" and serve: "ServeFromStore st w r result opts = (resp, w')"
  shows "inv w' \<and> content w' = content w \<and> (healthy w' \<longleftrightarrow> healthy w)
    \<and> (\<forall>p kd k. es_Get es w' p kd k = es_Get es w p kd k)
    \<and> (healthy w \<longrightarrow> (\<forall>d. content w (dr_Hash result) = Some d \<longrightarrow>
          rs_Status resp = 200 \<and> (rq_Method r \<noteq> ''HEAD'' \<longrightarrow> rs_Body resp = d)))"
proof -
  obtain res w1 where g: "st_Get st w (dr_Hash result) = (res, w1)" by fastforce
  note gb = get_blob [OF inv g]
  have "w' = w1" using serve g by (auto simp: ServeFromStore_def split: sum.splits)
  moreover have "rs_Status resp = 200 \<and> (rq_Method r \<noteq> ''HEAD'' \<longrightarrow> rs_Body resp = d)"
    if "healthy w" "content w (dr_Hash result) = Some d" for d
  proof -
    have "res = Inr d" using gb that by (cases res) auto
    then show ?thesis using serve g by (auto simp: ServeFromStore_def reply_def)
  qed
  ultimately show ?thesis using gb by simp
qed

end

end
