(* ===== verification/Urls.thy ===== *)
theory Urls
  imports Encoding
begin

text \<open>
  What the protocol handlers use of Go's \<open>strings\<close> and \<open>net/url\<close>: searching, cutting and replacing,
  white space, lines, and the percent encoding of path segments.
\<close>

section \<open>Strings\<close>

text \<open>\<open>strings.Index\<close> and \<open>strings.Cut\<close> with a string separator.\<close>

fun IndexSub :: "string \<Rightarrow> string \<Rightarrow> nat option" where
  "IndexSub [] p = (if p = [] then Some 0 else None)"
| "IndexSub (c # s) p = (if HasPrefix (c # s) p then Some 0 else map_option Suc (IndexSub s p))"

definition CutSub :: "string \<Rightarrow> string \<Rightarrow> (string \<times> string) option" where
  "CutSub s p = map_option (\<lambda>i. (take i s, drop (i + length p) s)) (IndexSub s p)"

lemma IndexSub_Some: "IndexSub s p = Some i \<Longrightarrow> \<exists>b. s = take i s @ p @ b \<and> i \<le> length s"
proof (induction s arbitrary: i)
  case Nil
  then show ?case by (simp split: if_splits)
next
  case (Cons c s)
  show ?case
  proof (cases "HasPrefix (c # s) p")
    case True
    then show ?thesis using Cons.prems by (auto simp: HasPrefix_iff)
  next
    case False
    then obtain j where "IndexSub s p = Some j" "i = Suc j" using Cons.prems by auto
    then show ?thesis using Cons.IH [of j] by auto
  qed
qed

lemma IndexSub_None: "IndexSub s p = None \<longleftrightarrow> (\<forall>a b. s \<noteq> a @ p @ b)"
proof (induction s)
  case Nil
  then show ?case by auto
next
  case (Cons c s)
  have "HasPrefix (c # s) p \<longleftrightarrow> (\<exists>b. c # s = p @ b)" by (rule HasPrefix_iff)
  moreover have "(\<exists>a b. c # s = a @ p @ b) \<longleftrightarrow> (\<exists>b. c # s = p @ b) \<or> (\<exists>a b. s = a @ p @ b)"
    by (metis append_Cons append_Nil list.exhaust list.inject)
  ultimately show ?case using Cons.IH by auto
qed

lemma CutSub_Some: "CutSub s p = Some (a, b) \<Longrightarrow> s = a @ p @ b"
proof -
  assume cut: "CutSub s p = Some (a, b)"
  then obtain i where i: "IndexSub s p = Some i" "a = take i s" "b = drop (i + length p) s"
    by (auto simp: CutSub_def)
  then obtain r where r: "s = take i s @ p @ r" "i \<le> length s" using IndexSub_Some by blast
  have "drop (i + length p) s = r"
    by (subst r(1)) (simp add: r(2))
  then show ?thesis using r i by simp
qed

text \<open>\<open>strings.Replace(s, c, with, 1)\<close>, \<open>strings.ReplaceAll\<close> with a character, \<open>strings.Join\<close>,
  \<open>strings.Fields\<close>-like lines are per user.\<close>

fun ReplaceFirst :: "string \<Rightarrow> char \<Rightarrow> string \<Rightarrow> string" where
  "ReplaceFirst [] c w = []"
| "ReplaceFirst (x # s) c w = (if x = c then w @ s else x # ReplaceFirst s c w)"

definition ReplaceChar :: "string \<Rightarrow> char \<Rightarrow> string \<Rightarrow> string" where
  "ReplaceChar s c w = concat (map (\<lambda>x. if x = c then w else [x]) s)"

fun Join :: "string list \<Rightarrow> string \<Rightarrow> string" where
  "Join [] d = []"
| "Join [x] d = x"
| "Join (x # y # xs) d = x @ d @ Join (y # xs) d"

lemma SplitOn_Join: "xs \<noteq> [] \<Longrightarrow> (\<And>x. x \<in> set xs \<Longrightarrow> c \<notin> set x) \<Longrightarrow> SplitOn (Join xs [c]) c = xs"
  by (induction xs "[c]" rule: Join.induct) auto

text \<open>\<open>strings.TrimSpace\<close>: ASCII white space; on other strings Go's Unicode tables, the parameter.\<close>

definition is_space :: "char \<Rightarrow> bool" where
  "is_space c \<longleftrightarrow> c \<in> {CHR '' '', CHR 0x09, CHR 0x0A, CHR 0x0B, CHR 0x0C, CHR 0x0D}"

definition TrimSpace :: "(string \<Rightarrow> string) \<Rightarrow> string \<Rightarrow> string" where
  "TrimSpace U s =
     (if is_ascii s then rev (dropWhile is_space (rev (dropWhile is_space s))) else U s)"

text \<open>\<open>strings.EqualFold\<close>.\<close>

definition EqualFold :: "(string \<Rightarrow> string \<Rightarrow> bool) \<Rightarrow> string \<Rightarrow> string \<Rightarrow> bool" where
  "EqualFold U s t = (if is_ascii s \<and> is_ascii t then map ascii_lower s = map ascii_lower t else U s t)"

section \<open>Path segments\<close>

definition upperhex :: "nat \<Rightarrow> char" where
  "upperhex n = (if n < 10 then char_of (48 + n) else char_of (55 + n))"

text \<open>The ASCII digits, capitals and small letters, by their codes.\<close>

definition is_alnum :: "char \<Rightarrow> bool" where
  "is_alnum c =
     (let n = of_char c :: nat in 48 \<le> n \<and> n < 58 \<or> 65 \<le> n \<and> n < 91 \<or> 97 \<le> n \<and> n < 123)"

text \<open>\<open>url.PathEscape\<close>: letters, digits and the punctuation that a path segment may hold stay.\<close>

definition shouldEscape :: "char \<Rightarrow> bool" where
  "shouldEscape c \<longleftrightarrow>
     \<not> (is_alnum c \<or> c \<in> set ''-_.~$&+:=@'')"

fun PathEscape :: "string \<Rightarrow> string" where
  "PathEscape [] = []"
| "PathEscape (c # s) =
     (if shouldEscape c
      then CHR ''%'' # upperhex (of_char c div 16) # upperhex (of_char c mod 16) # PathEscape s
      else c # PathEscape s)"

text \<open>\<open>url.PathUnescape\<close>.\<close>

fun PathUnescape :: "string \<Rightarrow> string option" where
  "PathUnescape [] = Some []"
| "PathUnescape (c # s) =
     (if c \<noteq> CHR ''%'' then map_option ((#) c) (PathUnescape s)
      else case s of
          a # b # s' \<Rightarrow>
            (case (fromHexChar a, fromHexChar b) of
               (Some x, Some y) \<Rightarrow> map_option ((#) (char_of (x * 16 + y))) (PathUnescape s')
             | _ \<Rightarrow> None)
        | _ \<Rightarrow> None)"

lemma fromHexChar_upperhex [simp]: "n < 16 \<Longrightarrow> fromHexChar (upperhex n) = Some n"
  by (auto simp: fromHexChar_def upperhex_def less_eq_char_def)

lemma percent_escaped [simp]: "shouldEscape (CHR ''%'')"
  by (simp add: shouldEscape_def is_alnum_def)

lemma PathUnescape_Escape [simp]: "PathUnescape (PathEscape s) = Some s"
proof (induction s)
  case (Cons c s)
  have "of_char c < (256::nat)" by simp
  then have "(of_char c div 16 :: nat) < 16" by linarith
  then show ?case using Cons by auto
qed simp

lemma PathEscape_inject [simp]: "PathEscape s = PathEscape t \<longleftrightarrow> s = t"
  by (metis PathUnescape_Escape option.inject)

lemma PathEscape_plain: "(\<And>c. c \<in> set s \<Longrightarrow> \<not> shouldEscape c) \<Longrightarrow> PathEscape s = s"
  by (induction s) auto

lemma PathUnescape_plain: "CHR ''%'' \<notin> set s \<Longrightarrow> PathUnescape s = Some s"
  by (induction s) auto

lemma upperhex_plain: "n < 16 \<Longrightarrow> \<not> shouldEscape (upperhex n)"
  by (auto simp: shouldEscape_def is_alnum_def upperhex_def)

lemma PathEscape_safe: "c \<in> set (PathEscape s) \<Longrightarrow> c = CHR ''%'' \<or> \<not> shouldEscape c"
proof (induction s)
  case (Cons x s)
  have "of_char x < (256::nat)" by simp
  then have "(of_char x div 16 :: nat) < 16" by linarith
  then show ?case using Cons upperhex_plain by (auto split: if_splits)
qed simp

end
