(* ===== verification/Npm.thy ===== *)
theory Npm
  imports Download Urls "HOL-Library.AList"
begin

text \<open>
  The npm registry protocol (\<open>protocol/npm\<close>): package names, routing by scope (\<open>router.go\<close>), the
  index of cached packages (\<open>index.go\<close>), the upstream registry (\<open>upstream.go\<close>) and the handler
  with its rewriting of tarball links (\<open>handler.go\<close>).
\<close>

section \<open>Package names\<close>

definition encodePackageName :: "string \<Rightarrow> string" where
  "encodePackageName name =
     (if HasPrefix name ''@'' then ReplaceFirst name (CHR ''/'') ''%2f'' else PathEscape name)"

definition decodePackageName :: "string \<Rightarrow> string option" where
  "decodePackageName encoded = PathUnescape encoded"

lemma slash_code: "PathUnescape (''%2f'' @ s) = map_option ((#) (CHR ''/'')) (PathUnescape s)"
proof -
  have "char_of (47 :: nat) = CHR ''/''" by code_simp
  then show ?thesis by (simp add: fromHexChar_def less_eq_char_def)
qed

lemma unescape_replaced:
  "CHR ''%'' \<notin> set s \<Longrightarrow> PathUnescape (ReplaceFirst s (CHR ''/'') ''%2f'') = Some s"
  by (induction s) (auto simp: slash_code [simplified] PathUnescape_plain)

lemma decode_encodePackageName:
  "HasPrefix name ''@'' \<longrightarrow> CHR ''%'' \<notin> set name \<Longrightarrow> decodePackageName (encodePackageName name) = Some name"
  by (simp add: decodePackageName_def encodePackageName_def unescape_replaced)

section \<open>The router\<close>

record 'u npm_route =
  nr_Scope :: string
  nr_Any :: bool
  nr_Upstream :: 'u

record 'u npm_router =
  nrt_routes :: "'u npm_route list"
  nrt_fallback :: "'u option"

datatype npm_route_error =
    NoFallback
  | AnyNotLast nat
  | ScopeRequired nat
  | ScopeNoAt nat string
  | DuplicateScope nat string
  | NoCatchAll

fun npm_checkRoutes :: "nat \<Rightarrow> string set \<Rightarrow> 'u npm_route list \<Rightarrow> npm_route_error + unit" where
  "npm_checkRoutes i seen [] = Inr ()"
| "npm_checkRoutes i seen (r # rs) =
     (if nr_Any r then (if rs \<noteq> [] then Inl (AnyNotLast i) else npm_checkRoutes (Suc i) seen rs)
      else if nr_Scope r = [] then Inl (ScopeRequired i)
      else if \<not> HasPrefix (nr_Scope r) ''@'' then Inl (ScopeNoAt i (nr_Scope r))
      else if nr_Scope r \<in> seen then Inl (DuplicateScope i (nr_Scope r))
      else npm_checkRoutes (Suc i) (insert (nr_Scope r) seen) rs)"

definition npm_NewRouter :: "'u npm_route list \<Rightarrow> 'u option \<Rightarrow> npm_route_error + 'u npm_router" where
  "npm_NewRouter routes fallback =
     (if routes = [] then
        (if fallback = None then Inl NoFallback else Inr \<lparr>nrt_routes = [], nrt_fallback = fallback\<rparr>)
      else rbind (npm_checkRoutes 0 {} routes)
        (\<lambda>_. if \<not> nr_Any (last routes) then Inl NoCatchAll
             else Inr \<lparr>nrt_routes = routes, nrt_fallback = fallback\<rparr>))"

definition extractScope :: "string \<Rightarrow> string" where
  "extractScope name =
     (if \<not> HasPrefix name ''@'' then []
      else case IndexOf name (CHR ''/'') of
          Some i \<Rightarrow> if i > 0 then take i name else []
        | None \<Rightarrow> [])"

text \<open>The first route that matches; without one the last route, and without routes the fallback
  (which may be missing).\<close>

definition npm_Match :: "'u npm_router \<Rightarrow> string \<Rightarrow> 'u option" where
  "npm_Match r packageName =
     (if nrt_routes r = [] then nrt_fallback r
      else let scope = extractScope packageName in
        case List.find (\<lambda>route. nr_Any route \<or> scope \<noteq> [] \<and> nr_Scope route = scope) (nrt_routes r) of
          Some route \<Rightarrow> Some (nr_Upstream route)
        | None \<Rightarrow> Some (nr_Upstream (last (nrt_routes r))))"

lemma npm_checkRoutes_ok:
  "npm_checkRoutes i seen rs = Inr () \<Longrightarrow> r \<in> set rs \<Longrightarrow> \<not> nr_Any r \<Longrightarrow>
     HasPrefix (nr_Scope r) ''@'' \<and> nr_Scope r \<notin> seen"
  by (induction rs arbitrary: i seen) (auto split: if_splits)

lemma npm_checkRoutes_any:
  "npm_checkRoutes i seen rs = Inr () \<Longrightarrow> r \<in> set (butlast rs) \<Longrightarrow> \<not> nr_Any r"
  by (induction rs arbitrary: i seen) (auto split: if_splits)

lemma npm_checkRoutes_distinct:
  "npm_checkRoutes i seen rs = Inr () \<Longrightarrow> distinct (map nr_Scope (filter (\<lambda>r. \<not> nr_Any r) rs))"
proof (induction rs arbitrary: i seen)
  case (Cons r rs)
  show ?case
  proof (cases "nr_Any r")
    case False
    then have ok: "npm_checkRoutes (Suc i) (insert (nr_Scope r) seen) rs = Inr ()"
      using Cons.prems by (simp split: if_splits)
    have "nr_Scope x \<noteq> nr_Scope r" if "x \<in> set rs" "\<not> nr_Any x" for x
      using npm_checkRoutes_ok [OF ok that] by auto
    then show ?thesis using Cons.IH [OF ok] False by force
  qed (use Cons in \<open>simp split: if_splits\<close>)
qed simp

text \<open>A valid router sends a scoped package to the route of its scope, and any other package to the
  last route.\<close>

lemma npm_NewRouter_Inr:
  "npm_NewRouter routes fallback = Inr r \<Longrightarrow> routes \<noteq> [] \<Longrightarrow>
     nrt_routes r = routes \<and> npm_checkRoutes 0 {} routes = Inr () \<and> nr_Any (last routes)"
  by (auto simp: npm_NewRouter_def rbind_eq_Inr split: if_splits)

lemma find_unique:
  "x \<in> set xs \<Longrightarrow> P x \<Longrightarrow> (\<And>y. y \<in> set xs \<Longrightarrow> P y \<Longrightarrow> y = x) \<Longrightarrow> List.find P (xs @ ys) = Some x"
proof (induction xs)
  case (Cons a xs)
  show ?case
  proof (cases "P a")
    case True
    then have "a = x" using Cons.prems(3) [of a] by simp
    then show ?thesis using True by simp
  next
    case False
    then have "x \<in> set xs" using Cons.prems(1,2) by auto
    then have "List.find P (xs @ ys) = Some x"
      by (rule Cons.IH [OF _ Cons.prems(2)]) (meson Cons.prems(3) list.set_intros(2))
    then show ?thesis using False by simp
  qed
qed simp

lemma find_append_none: "(\<And>y. y \<in> set xs \<Longrightarrow> \<not> P y) \<Longrightarrow> List.find P (xs @ ys) = List.find P ys"
  by (induction xs) auto

lemma npm_Match_route:
  assumes "npm_NewRouter routes fallback = Inr r" "routes \<noteq> []"
  shows "route \<in> set routes \<Longrightarrow> \<not> nr_Any route \<Longrightarrow> nr_Scope route = extractScope name \<Longrightarrow>
      npm_Match r name = Some (nr_Upstream route)"
    "(\<And>route. route \<in> set routes \<Longrightarrow> \<not> nr_Any route \<Longrightarrow> nr_Scope route \<noteq> extractScope name) \<Longrightarrow>
      npm_Match r name = Some (nr_Upstream (last routes))"
proof -
  let ?P = "\<lambda>x. nr_Any x \<or> extractScope name \<noteq> [] \<and> nr_Scope x = extractScope name"
  have ok: "nrt_routes r = routes" "npm_checkRoutes 0 {} routes = Inr ()" "nr_Any (last routes)"
    using npm_NewRouter_Inr [OF assms] by simp_all
  have split: "routes = butlast routes @ [last routes]" using assms(2) by simp
  have first: "\<not> nr_Any x" if "x \<in> set (butlast routes)" for x
    using npm_checkRoutes_any [OF ok(2) that] .
  show "npm_Match r name = Some (nr_Upstream route)"
    if route: "route \<in> set routes" "\<not> nr_Any route" "nr_Scope route = extractScope name"
  proof -
    have mem: "route \<in> set (butlast routes)"
      using route(1,2) ok(3) by (subst (asm) split) (auto simp del: append_butlast_last_id)
    have P: "?P route" using route npm_checkRoutes_ok [OF ok(2) route(1,2)] by auto
    have uniq: "y = route" if y: "y \<in> set (butlast routes)" "?P y" for y
    proof -
      have "y \<in> set routes" "\<not> nr_Any y" "nr_Scope y = nr_Scope route"
        using y first route(3) by (auto dest: in_set_butlastD)
      moreover have "inj_on nr_Scope {x \<in> set routes. \<not> nr_Any x}"
        using npm_checkRoutes_distinct [OF ok(2)] by (simp add: distinct_map)
      ultimately show ?thesis using route(1,2) by (simp add: inj_on_def)
    qed
    have "List.find ?P (butlast routes @ [last routes]) = Some route"
      by (rule find_unique) (use mem P uniq in blast)+
    then have "List.find ?P routes = Some route" using split by simp
    then show ?thesis using ok(1) assms(2) by (simp add: npm_Match_def Let_def)
  qed
  show "npm_Match r name = Some (nr_Upstream (last routes))"
    if "\<And>route. route \<in> set routes \<Longrightarrow> \<not> nr_Any route \<Longrightarrow> nr_Scope route \<noteq> extractScope name"
  proof -
    have "List.find ?P (butlast routes @ [last routes]) = Some (last routes)"
      using that first ok(3) by (subst find_append_none) (auto dest: in_set_butlastD)
    then show ?thesis using ok(1) assms(2) split by (simp add: npm_Match_def Let_def)
  qed
qed

section \<open>The index\<close>

record cached_version =
  cv_Version :: string
  cv_TarballHash :: hash
  cv_TarballSize :: int
  cv_Shasum :: string
  cv_Integrity :: string
  cv_CachedAt :: time

text \<open>A map with string keys is an association list; the order of its iteration is not fixed by Go.\<close>

record cached_package =
  cp_Name :: string
  cp_Versions :: "(string \<times> cached_version) list"
  cp_Metadata :: bytes
  cp_CachedAt :: time
  cp_UpdatedAt :: time

definition noPackage :: cached_package where
  "noPackage = \<lparr>cp_Name = [], cp_Versions = [], cp_Metadata = [], cp_CachedAt = zero_time, cp_UpdatedAt = zero_time\<rparr>"

record 'w npm_index =
  ni_es :: "'w envelope_store"
  ni_metadata :: env_index
  ni_cache :: env_index
  ni_json :: "cached_package json_codec"
  ni_partial :: "bytes \<Rightarrow> cached_package"
  ni_now :: time

definition npm_GetPackageMetadata :: "'w npm_index \<Rightarrow> 'w \<Rightarrow> string \<Rightarrow> index_error + bytes" where
  "npm_GetPackageMetadata x w name =
     (case EI_Get (ni_es x) (ni_metadata x) w (encodePackageName name) of
        Inl e \<Rightarrow> Inl (indexError e)
      | Inr data \<Rightarrow> Inr data)"

definition npm_PutPackageMetadata :: "'w npm_index \<Rightarrow> 'w \<Rightarrow> string \<Rightarrow> bytes \<Rightarrow> (mdb_error + unit) \<times> 'w" where
  "npm_PutPackageMetadata x w name data =
     EI_Put (ni_es x) (ni_metadata x) (ni_now x) w (encodePackageName name) data CT_JSON []"

definition npm_GetCachedPackage :: "'w npm_index \<Rightarrow> 'w \<Rightarrow> string \<Rightarrow> index_error + cached_package" where
  "npm_GetCachedPackage x w name =
     (case EI_GetJSON (j_dec (ni_json x)) (ni_es x) (ni_cache x) w (encodePackageName name) of
        Inl e \<Rightarrow> Inl (indexError e)
      | Inr pkg \<Rightarrow> Inr pkg)"

definition npm_collectBlobRefs :: "cached_package \<Rightarrow> string list" where
  "npm_collectBlobRefs pkg =
     map (\<lambda>(_, ver). BlobRef_String (NewBlobRef (cv_TarballHash ver)))
       (filter (\<lambda>(_, ver). \<not> hash_IsZero (cv_TarballHash ver)) (cp_Versions pkg))"

definition npm_PutCachedPackage :: "'w npm_index \<Rightarrow> 'w \<Rightarrow> cached_package \<Rightarrow> (mdb_error + unit) \<times> 'w" where
  "npm_PutCachedPackage x w pkg0 =
     (let pkg1 = pkg0\<lparr>cp_UpdatedAt := ni_now x\<rparr>;
          pkg = (if IsZero (cp_CachedAt pkg1) then pkg1\<lparr>cp_CachedAt := cp_UpdatedAt pkg1\<rparr> else pkg1)
      in EI_PutJSON (j_enc (ni_json x)) (ni_es x) (ni_cache x) (ni_now x) w (encodePackageName (cp_Name pkg)) pkg
           (npm_collectBlobRefs pkg))"

definition GetVersionTarballHash :: "'w npm_index \<Rightarrow> 'w \<Rightarrow> string \<Rightarrow> string \<Rightarrow> index_error + hash" where
  "GetVersionTarballHash x w name version =
     rbind (npm_GetCachedPackage x w name)
       (\<lambda>pkg. case map_of (cp_Versions pkg) version of
          None \<Rightarrow> Inl NotCached
        | Some ver \<Rightarrow> Inr (cv_TarballHash ver))"

text \<open>The error of reading the package is ignored, whatever it is; \<open>ni_partial\<close> is what a failing
  \<open>json.Unmarshal\<close> leaves of a package.\<close>

definition npm_packageBefore :: "'w npm_index \<Rightarrow> 'w \<Rightarrow> string \<Rightarrow> cached_package" where
  "npm_packageBefore x w name =
     EI_GetJSON_into (j_dec (ni_json x)) (ni_partial x) noPackage (ni_es x) (ni_cache x) w (encodePackageName name)"

definition withVersion ::
  "time \<Rightarrow> string \<Rightarrow> string \<Rightarrow> hash \<Rightarrow> int \<Rightarrow> string \<Rightarrow> string \<Rightarrow> cached_package \<Rightarrow> cached_package" where
  "withVersion now name version h sz shasum integrity pkg0 =
     (let pkg1 = (if cp_Name pkg0 = [] then pkg0\<lparr>cp_Name := name, cp_CachedAt := now\<rparr> else pkg0)
      in pkg1\<lparr>cp_Versions := AList.update version
             \<lparr>cv_Version = version, cv_TarballHash = h, cv_TarballSize = sz, cv_Shasum = shasum,
              cv_Integrity = integrity, cv_CachedAt = now\<rparr> (cp_Versions pkg1),
           cp_UpdatedAt := now\<rparr>)"

definition SetVersionTarballHash ::
  "'w npm_index \<Rightarrow> 'w \<Rightarrow> string \<Rightarrow> string \<Rightarrow> hash \<Rightarrow> int \<Rightarrow> string \<Rightarrow> string \<Rightarrow> (mdb_error + unit) \<times> 'w" where
  "SetVersionTarballHash x w name version h sz shasum integrity =
     (let key = encodePackageName name;
          pkg = withVersion (ni_now x) name version h sz shasum integrity (npm_packageBefore x w name)
      in EI_PutJSON (j_enc (ni_json x)) (ni_es x) (ni_cache x) (ni_now x) w key pkg (npm_collectBlobRefs pkg))"

definition npm_DeletePackage :: "'w npm_index \<Rightarrow> 'w \<Rightarrow> string \<Rightarrow> (mdb_error + unit) \<times> 'w" where
  "npm_DeletePackage x w name =
     (let key = encodePackageName name in
      case EI_Delete (ni_es x) (ni_metadata x) w key of
        (r1, w1) \<Rightarrow>
          if (case r1 of Inl e \<Rightarrow> e \<noteq> ErrNotFound | Inr _ \<Rightarrow> False) then (r1, w1)
          else (case EI_Delete (ni_es x) (ni_cache x) w1 key of
              (r2, w2) \<Rightarrow>
                if (case r2 of Inl e \<Rightarrow> e \<noteq> ErrNotFound | Inr _ \<Rightarrow> False) then (r2, w2) else (Inr (), w2)))"

definition ListPackages :: "'w npm_index \<Rightarrow> 'w \<Rightarrow> string list" where
  "ListPackages x w = List.map_filter decodePackageName (EI_List (ni_es x) (ni_cache x) w)"

section \<open>The upstream registry\<close>

record npm_upstream =
  nu_baseURL :: string
  nu_host :: string
  nu_token :: string

definition npm_DefaultRegistryURL :: string where
  "npm_DefaultRegistryURL = ''https://registry.npmjs.org''"

definition npm_maxMetadataSize :: nat where
  "npm_maxMetadataSize = 100 * 1024 * 1024"

definition npm_WithRegistryURL :: "string \<Rightarrow> npm_upstream \<Rightarrow> npm_upstream" where
  "npm_WithRegistryURL url u = u\<lparr>nu_baseURL := TrimSuffix url ''/''\<rparr>"

definition npm_WithBearerToken :: "string \<Rightarrow> npm_upstream \<Rightarrow> npm_upstream" where
  "npm_WithBearerToken tok u = u\<lparr>nu_token := tok\<rparr>"

text \<open>\<open>hostname\<close> is the host name of a URL that \<open>url.Parse\<close> accepts.\<close>

definition npm_NewUpstream ::
  "(string \<Rightarrow> string option) \<Rightarrow> (npm_upstream \<Rightarrow> npm_upstream) list \<Rightarrow> npm_upstream" where
  "npm_NewUpstream hostname opts =
     (let u = fold (\<lambda>opt u. opt u) opts \<lparr>nu_baseURL = npm_DefaultRegistryURL, nu_host = [], nu_token = []\<rparr>
      in case hostname (nu_baseURL u) of Some h \<Rightarrow> u\<lparr>nu_host := h\<rparr> | None \<Rightarrow> u)"

definition npm_shouldAttachAuth ::
  "(string \<Rightarrow> string option) \<Rightarrow> (string \<Rightarrow> string \<Rightarrow> bool) \<Rightarrow> npm_upstream \<Rightarrow> string \<Rightarrow> bool" where
  "npm_shouldAttachAuth hostname U u targetURL =
     (if nu_token u = [] then False
      else case hostname targetURL of None \<Rightarrow> False | Some h \<Rightarrow> EqualFold U h (nu_host u))"

definition npm_setAuth :: "npm_upstream \<Rightarrow> (string \<times> string) list" where
  "npm_setAuth u = (if nu_token u \<noteq> [] then [(''Authorization'', ''Bearer '' @ nu_token u)] else [])"

text \<open>What decoding the documents of a registry yields: of the metadata of a package the
  distributions of its versions, of any document its value, each from the bytes of a reply.\<close>

record npm_dist =
  nd_Integrity :: string
  nd_Shasum :: string

type_synonym package_metadata = "(string \<times> npm_dist option) list"

datatype json =
    JNull
  | JBool bool
  | JNumber string
  | JString string
  | JArray "json list"
  | JObject "(string \<times> json) list"

record npm_json =
  nj_metadata :: "http_reply \<Rightarrow> dl_error + package_metadata"
  nj_decode :: "http_reply \<Rightarrow> dl_error + json"
  nj_unmarshal :: "bytes \<Rightarrow> json option"
  nj_marshal :: "json \<Rightarrow> bytes option"

definition npm_fetch ::
  "http_client \<Rightarrow> string \<Rightarrow> (string \<times> string) list \<Rightarrow> dl_error + http_reply" where
  "npm_fetch client url hs =
     rbind (client ''GET'' url hs)
       (\<lambda>resp. if rp_Status resp = 404 then Inl UpstreamNotFound
               else if rp_Status resp \<noteq> 200 then Inl DownloadFailed
               else Inr resp)"

definition npm_metadataURL :: "npm_upstream \<Rightarrow> string \<Rightarrow> string" where
  "npm_metadataURL u name = nu_baseURL u @ ''/'' @ encodePackageName name"

definition npm_FetchPackageMetadata ::
  "http_client \<Rightarrow> npm_json \<Rightarrow> npm_upstream \<Rightarrow> string \<Rightarrow> dl_error + package_metadata" where
  "npm_FetchPackageMetadata client j u name =
     rbind (npm_fetch client (npm_metadataURL u name) ((''Accept'', ''application/json'') # npm_setAuth u))
       (nj_metadata j)"

definition npm_limited :: "http_reply \<Rightarrow> http_reply" where
  "npm_limited resp = resp\<lparr>rp_Body := LimitReader npm_maxMetadataSize (rp_Body resp)\<rparr>"

definition npm_FetchPackageMetadataRaw :: "http_client \<Rightarrow> npm_upstream \<Rightarrow> string \<Rightarrow> dl_error + bytes" where
  "npm_FetchPackageMetadataRaw client u name =
     rbind (npm_fetch client (npm_metadataURL u name) ((''Accept'', ''application/json'') # npm_setAuth u))
       (\<lambda>resp. ReadAll (npm_limited resp))"

text \<open>A map is decoded from an object or from null.\<close>

definition asMap :: "json \<Rightarrow> bool" where
  "asMap j = (case j of JObject _ \<Rightarrow> True | JNull \<Rightarrow> True | _ \<Rightarrow> False)"

definition npm_FetchPackageMetadataDecoded ::
  "http_client \<Rightarrow> npm_json \<Rightarrow> npm_upstream \<Rightarrow> string \<Rightarrow> dl_error + json" where
  "npm_FetchPackageMetadataDecoded client j u name =
     rbind (npm_fetch client (npm_metadataURL u name) ((''Accept'', ''application/json'') # npm_setAuth u))
       (\<lambda>resp. rbind (nj_decode j (npm_limited resp)) (\<lambda>v. if asMap v then Inr v else Inl DownloadFailed))"

definition npm_TarballURL :: "npm_upstream \<Rightarrow> string \<Rightarrow> string \<Rightarrow> string" where
  "npm_TarballURL u name version =
     (case (HasPrefix name ''@'', SplitN2 name (CHR ''/'')) of
        (True, [_, simple]) \<Rightarrow>
          nu_baseURL u @ ''/'' @ encodePackageName name @ ''/-/'' @ simple @ ''-'' @ version @ ''.tgz''
      | _ \<Rightarrow> nu_baseURL u @ ''/'' @ name @ ''/-/'' @ name @ ''-'' @ version @ ''.tgz'')"

definition npm_FetchTarball ::
  "http_client \<Rightarrow> (string \<Rightarrow> string option) \<Rightarrow> (string \<Rightarrow> string \<Rightarrow> bool) \<Rightarrow> npm_upstream \<Rightarrow> string
     \<Rightarrow> dl_error + http_reply" where
  "npm_FetchTarball client hostname U u tarballURL =
     npm_fetch client tarballURL (if npm_shouldAttachAuth hostname U u tarballURL then npm_setAuth u else [])"

section \<open>Tarball links\<close>

definition jget :: "json \<Rightarrow> string \<Rightarrow> json option" where
  "jget j k = (case j of JObject m \<Rightarrow> map_of m k | _ \<Rightarrow> None)"

text \<open>One version of the document: its link is rewritten from the first \<open>/-/\<close> on. \<open>None\<close> is the panic
  of the type assertion on the package's name.\<close>

definition rewriteLink :: "string \<Rightarrow> string \<Rightarrow> string \<Rightarrow> string" where
  "rewriteLink baseURL name tarballPath = baseURL @ ''/npm/'' @ encodePackageName name @ tarballPath"

definition rewriteVersion :: "string \<Rightarrow> json option \<Rightarrow> json \<Rightarrow> json option" where
  "rewriteVersion baseURL name v =
     (case v of
        JObject version \<Rightarrow>
          (case map_of version ''dist'' of
             Some (JObject dist) \<Rightarrow>
               (case map_of dist ''tarball'' of
                  Some (JString tarball) \<Rightarrow>
                    (case IndexSub tarball ''/-/'' of
                       Some idx \<Rightarrow>
                         if idx > 0
                         then (case name of
                             Some (JString n) \<Rightarrow>
                               Some (JObject (AList.update ''dist''
                                 (JObject (AList.update ''tarball'' (JString (rewriteLink baseURL n (drop idx tarball))) dist))
                                 version))
                           | _ \<Rightarrow> None)
                         else Some v
                     | None \<Rightarrow> Some v)
                | _ \<Rightarrow> Some v)
           | _ \<Rightarrow> Some v)
      | _ \<Rightarrow> Some v)"

fun rewriteVersions :: "string \<Rightarrow> json option \<Rightarrow> (string \<times> json) list \<Rightarrow> (string \<times> json) list option" where
  "rewriteVersions baseURL name [] = Some []"
| "rewriteVersions baseURL name ((k, v) # vs) =
     (case (rewriteVersion baseURL name v, rewriteVersions baseURL name vs) of
        (Some v', Some vs') \<Rightarrow> Some ((k, v') # vs')
      | _ \<Rightarrow> None)"

definition requestBaseURL :: "string \<Rightarrow> http_request \<Rightarrow> string" where
  "requestBaseURL publicBaseURL r =
     (if publicBaseURL \<noteq> [] then publicBaseURL
      else (if rq_TLS r then ''https'' else ''http'') @ ''://'' @ rq_Host r)"

definition rewriteTarballURLs :: "string \<Rightarrow> http_request \<Rightarrow> json \<Rightarrow> json option" where
  "rewriteTarballURLs publicBaseURL r meta =
     (case (meta, jget meta ''versions'') of
        (JObject m, Some (JObject versions)) \<Rightarrow>
          map_option (\<lambda>vs. JObject (AList.update ''versions'' (JObject vs) m))
            (rewriteVersions (requestBaseURL publicBaseURL r) (jget meta ''name'') versions)
      | _ \<Rightarrow> Some meta)"

text \<open>Rewriting a document again, for the same base, changes nothing: the link keeps its path from
  the first \<open>/-/\<close> on. The base and the name must not bring another one.\<close>

lemma AList_update_again: "AList.update k v (AList.update k v m) = AList.update k v m"
  by (induction m) auto

lemma rewriteVersion_again:
  assumes first: "\<And>n. name = Some (JString n) \<Longrightarrow>
      IndexSub (rewriteLink baseURL n ''/-/'') ''/-/'' = Some (length (rewriteLink baseURL n []))"
    and rw: "rewriteVersion baseURL name v = Some v'"
  shows "rewriteVersion baseURL name v' = Some v'"
proof (cases "v' = v")
  case True
  then show ?thesis using rw by simp
next
  case False
  then obtain version dist tarball idx n where
    v: "v = JObject version" "map_of version ''dist'' = Some (JObject dist)" "map_of dist ''tarball'' = Some (JString tarball)"
      "IndexSub tarball ''/-/'' = Some idx" "name = Some (JString n)"
    and v': "v' = JObject (AList.update ''dist''
      (JObject (AList.update ''tarball'' (JString (rewriteLink baseURL n (drop idx tarball))) dist)) version)"
    using rw by (auto simp: rewriteVersion_def split: json.splits option.splits if_splits)
  obtain b where "tarball = take idx tarball @ ''/-/'' @ b" using IndexSub_Some [OF v(4)] by blast
  then have tail: "drop idx tarball = ''/-/'' @ b"
    by (metis IndexSub_Some [OF v(4)] append_eq_conv_conj length_take min.absorb2)
  have cut: "IndexSub (p @ q) s = Some i" if "IndexSub p s = Some i" for p q s i
    using that
  proof (induction p arbitrary: i)
    case Nil
    then show ?case by (cases q) (auto split: if_splits)
  next
    case (Cons c p)
    show ?case
    proof (cases "HasPrefix (c # p) s")
      case True
      then have "HasPrefix (c # p @ q) s" by (metis HasPrefix_iff append.assoc append_Cons)
      then show ?thesis using True Cons.prems by simp
    next
      case False
      then obtain j where j: "IndexSub p s = Some j" "i = Suc j" using Cons.prems by auto
      have "\<not> HasPrefix (c # p @ q) s"
      proof
        assume pre: "HasPrefix (c # p @ q) s"
        obtain b where "p = take j p @ s @ b" using IndexSub_Some [OF j(1)] by blast
        then have "length s \<le> length p" by (metis length_append le_add1 le_add2 order_trans)
        then have "HasPrefix (c # p) s" using pre by (auto simp: HasPrefix_iff append_eq_append_conv2 Cons_eq_append_conv)
        then show False using False by simp
      qed
      then show ?thesis using Cons.IH [OF j(1)] j(2) by simp
    qed
  qed
  have link: "rewriteLink baseURL n (drop idx tarball) = rewriteLink baseURL n ''/-/'' @ b"
    by (simp add: rewriteLink_def tail)
  then have idx': "IndexSub (rewriteLink baseURL n (drop idx tarball)) ''/-/'' = Some (length (rewriteLink baseURL n []))"
    using cut [OF first [OF v(5)]] by simp
  have "rewriteLink baseURL n (drop idx tarball) = rewriteLink baseURL n [] @ drop idx tarball"
    by (simp add: rewriteLink_def)
  then have "drop (length (rewriteLink baseURL n [])) (rewriteLink baseURL n (drop idx tarball)) = drop idx tarball"
    by simp
  moreover have "length (rewriteLink baseURL n []) > 0" by (simp add: rewriteLink_def)
  ultimately show ?thesis using idx' v(5) by (simp add: v' rewriteVersion_def update_conv' AList_update_again)
qed

lemma rewriteVersions_again:
  assumes "\<And>n. name = Some (JString n) \<Longrightarrow>
      IndexSub (rewriteLink baseURL n ''/-/'') ''/-/'' = Some (length (rewriteLink baseURL n []))"
  shows "rewriteVersions baseURL name vs = Some vs' \<Longrightarrow> rewriteVersions baseURL name vs' = Some vs'"
proof (induction vs arbitrary: vs')
  case (Cons x vs)
  then obtain k v v1 vs1 where x: "x = (k, v)" "rewriteVersion baseURL name v = Some v1"
    "rewriteVersions baseURL name vs = Some vs1" "vs' = (k, v1) # vs1"
    by (cases x) (auto split: option.splits)
  then show ?case using rewriteVersion_again [OF assms x(2)] Cons.IH [OF x(3)] by simp
qed simp

definition nullIfMissing :: "json option \<Rightarrow> json" where
  "nullIfMissing x = (case x of None \<Rightarrow> JNull | Some v \<Rightarrow> v)"

definition abbreviatedFields :: "string list" where
  "abbreviatedFields =
     [''bin'', ''dependencies'', ''devDependencies'', ''peerDependencies'', ''optionalDependencies'', ''engines'', ''dist'', ''_hasShrinkwrap'']"

definition abbreviateVersion :: "json \<Rightarrow> json option" where
  "abbreviateVersion v =
     (case v of
        JObject _ \<Rightarrow>
          Some (JObject ([(''name'', nullIfMissing (jget v ''name'')), (''version'', nullIfMissing (jget v ''version''))]
            @ List.map_filter (\<lambda>f. map_option (Pair f) (jget v f)) abbreviatedFields))
      | _ \<Rightarrow> None)"

definition abbreviateMetadata :: "json \<Rightarrow> json" where
  "abbreviateMetadata meta =
     JObject ([(''name'', nullIfMissing (jget meta ''name''))]
       @ (case jget meta ''dist-tags'' of None \<Rightarrow> [] | Some tags \<Rightarrow> [(''dist-tags'', tags)])
       @ (case Option.bind (jget meta ''time'') (\<lambda>t. jget t ''modified'') of
            None \<Rightarrow> [] | Some modified \<Rightarrow> [(''modified'', modified)])
       @ (case jget meta ''versions'' of
            Some (JObject versions) \<Rightarrow>
              [(''versions'', JObject (List.map_filter (\<lambda>(ver, v). map_option (Pair ver) (abbreviateVersion v)) versions))]
          | _ \<Rightarrow> []))"

section \<open>The handler\<close>

record 'w npm =
  np_index :: "'w npm_index"
  np_store :: "'w store_ops"
  np_router :: "npm_upstream npm_router"
  np_publicBaseURL :: string
  np_downloader :: bool
  np_client :: http_client
  np_js :: npm_json
  np_blake3 :: "bytes \<Rightarrow> hash"
  np_sha1 :: "bytes \<Rightarrow> bytes"
  np_hostname :: "string \<Rightarrow> string option"
  np_fold :: "string \<Rightarrow> string \<Rightarrow> bool"

definition npm_WithPublicBaseURL :: "string \<Rightarrow> 'w npm \<Rightarrow> 'w npm" where
  "npm_WithPublicBaseURL baseURL h = h\<lparr>np_publicBaseURL := TrimSuffix baseURL ''/''\<rparr>"

text \<open>\<open>tarballPathRegex\<close>: the shortest package part for which the rest of the path matches.\<close>

definition tarballPath :: "string \<Rightarrow> (string \<times> string) option" where
  "tarballPath path =
     (case path of
        c # r \<Rightarrow>
          if c = CHR ''/'' \<and> CHR 0x0A \<notin> set r
          then map_option (\<lambda>k. (take k r, TrimSuffix (drop (k + 3) r) ''.tgz''))
                 (List.find (\<lambda>k. HasPrefix (drop k r) ''/-/'' \<and> HasSuffix (drop (k + 3) r) ''.tgz''
                    \<and> length (drop (k + 3) r) > 4) [1..<length r])
          else None
      | [] \<Rightarrow> None)"

definition extractVersionFromTarball :: "string \<Rightarrow> string \<Rightarrow> string" where
  "extractVersionFromTarball packageName tarballName =
     (let simpleName = (case (HasPrefix packageName ''@'', SplitN2 packageName (CHR ''/'')) of
            (True, [_, s]) \<Rightarrow> s
          | _ \<Rightarrow> packageName)
      in case CutPrefix tarballName (simpleName @ ''-'') of Some after \<Rightarrow> after | None \<Rightarrow> [])"

text \<open>A response is \<open>None\<close> when the handler panics. The metadata is cached after the response, by a
  goroutine that has run when the handler's step ends.\<close>

definition jsonHeader :: "(string \<times> string) list" where
  "jsonHeader = [(''Content-Type'', ''application/json'')]"

definition writeMetadataResponse :: "'w npm \<Rightarrow> http_request \<Rightarrow> bytes \<Rightarrow> bool \<Rightarrow> http_response option" where
  "writeMetadataResponse h r metadata abbreviated =
     (case nj_unmarshal (np_js h) metadata of
        Some meta \<Rightarrow>
          if \<not> asMap meta then Some (reply 200 jsonHeader metadata)
          else map_option
                 (\<lambda>meta. case nj_marshal (np_js h) (if abbreviated then abbreviateMetadata meta else meta) of
                    Some b \<Rightarrow> reply 200 jsonHeader (b @ [CHR 0x0A])
                  | None \<Rightarrow> reply 200 jsonHeader [])
                 (rewriteTarballURLs (np_publicBaseURL h) r meta)
      | None \<Rightarrow> Some (reply 200 jsonHeader metadata))"

definition npm_handleMetadata :: "'w npm \<Rightarrow> 'w \<Rightarrow> http_request \<Rightarrow> string \<Rightarrow> http_response option \<times> 'w" where
  "npm_handleMetadata h w r name =
     (let abbreviated = Contains (rq_Header r ''Accept'') ''application/vnd.npm.install-v1+json'' in
      case npm_GetPackageMetadata (np_index h) w name of
        Inr cached \<Rightarrow> (writeMetadataResponse h r cached abbreviated, w)
      | Inl _ \<Rightarrow>
          (case npm_Match (np_router h) name of
             None \<Rightarrow> (None, w)
           | Some upstream \<Rightarrow>
               (case npm_FetchPackageMetadataDecoded (np_client h) (np_js h) upstream name of
                  Inl e \<Rightarrow>
                    (Some (if e = UpstreamNotFound then http_Error ''not found'' 404 else http_Error ''upstream error'' 502), w)
                | Inr meta0 \<Rightarrow>
                    (case rewriteTarballURLs (np_publicBaseURL h) r meta0 of
                       None \<Rightarrow> (None, w)
                     | Some meta \<Rightarrow>
                         (case nj_marshal (np_js h) meta of
                            None \<Rightarrow> (Some (http_Error ''internal error'' 500), w)
                          | Some encoded \<Rightarrow>
                              (case (if abbreviated then nj_marshal (np_js h) (abbreviateMetadata meta) else Some encoded) of
                                 None \<Rightarrow> (Some (http_Error ''internal error'' 500),
                                   snd (npm_PutPackageMetadata (np_index h) w name encoded))
                               | Some response \<Rightarrow> (Some (reply 200 jsonHeader response),
                                   snd (npm_PutPackageMetadata (np_index h) w name encoded))))))))"

text \<open>The digests that the registry publishes for a version; a registry that cannot be read gives
  none.\<close>

definition expectedDist :: "'w npm \<Rightarrow> npm_upstream \<Rightarrow> string \<Rightarrow> string \<Rightarrow> string \<times> string" where
  "expectedDist h upstream packageName version =
     (if version = [] then ([], [])
      else case npm_FetchPackageMetadata (np_client h) (np_js h) upstream packageName of
          Inl _ \<Rightarrow> ([], [])
        | Inr meta \<Rightarrow>
            (case map_of meta version of
               Some (Some dist) \<Rightarrow> (nd_Shasum dist, nd_Integrity dist)
             | _ \<Rightarrow> ([], [])))"

definition npm_FetchTarballOf :: "'w npm \<Rightarrow> npm_upstream \<Rightarrow> string \<Rightarrow> string \<Rightarrow> dl_error + http_reply" where
  "npm_FetchTarballOf h upstream packageName version =
     npm_FetchTarball (np_client h) (np_hostname h) (np_fold h) upstream (npm_TarballURL upstream packageName version)"

definition fetchAndStoreTarball ::
  "'w npm \<Rightarrow> temp_file \<Rightarrow> npm_upstream \<Rightarrow> string \<Rightarrow> string \<Rightarrow> 'w \<Rightarrow> (dl_error + dl_result) \<times> 'w" where
  "fetchAndStoreTarball h tf upstream packageName version w =
     (let (expectedShasum, expectedIntegrity) = expectedDist h upstream packageName version in
      case npm_FetchTarballOf h upstream packageName version of
        Inl e \<Rightarrow> (Inl e, w)
      | Inr resp \<Rightarrow>
          (case spool tf resp of
             Inl e \<Rightarrow> (Inl (spoolError e), w)
           | Inr data \<Rightarrow>
               (let hash = np_blake3 h data;
                    computedShasum = hex_encode (np_sha1 h data)
                in if expectedShasum \<noteq> [] \<and> computedShasum \<noteq> expectedShasum then (Inl DownloadFailed, w)
                   else if \<not> tf_seek tf then (Inl DownloadFailed, w)
                   else (case st_Put (np_store h) w (spooled tf data) of
                       (Inl _, w1) \<Rightarrow> (Inl DownloadFailed, w1)
                     | (Inr _, w1) \<Rightarrow>
                         (Inr \<lparr>dr_Hash = hash, dr_Size = int (length data)\<rparr>,
                          snd (SetVersionTarballHash (np_index h) w1 packageName version hash (int (length data))
                                 computedShasum expectedIntegrity))))))"

text \<open>Without a downloader the tarball is sent before it is cached. The cache job opens the
  temporary file again, which the handler removes when it returns: \<open>opened\<close> says whether the job
  was in time.\<close>

definition npm_handleTarballDirect ::
  "'w npm \<Rightarrow> temp_file \<Rightarrow> bool \<Rightarrow> npm_upstream \<Rightarrow> string \<Rightarrow> string \<Rightarrow> 'w \<Rightarrow> http_response \<times> 'w" where
  "npm_handleTarballDirect h tf opened upstream packageName version w =
     (let (expectedShasum, expectedIntegrity) = expectedDist h upstream packageName version in
      case npm_FetchTarballOf h upstream packageName version of
        Inl e \<Rightarrow> (if e = UpstreamNotFound then http_Error ''not found'' 404 else http_Error ''upstream error'' 502, w)
      | Inr resp \<Rightarrow>
          (case spool tf resp of
             Inl SpoolCreate \<Rightarrow> (http_Error ''internal error'' 500, w)
           | Inl (SpoolCopy _) \<Rightarrow> (http_Error ''upstream error'' 502, w)
           | Inr data \<Rightarrow>
               (let hash = np_blake3 h data;
                    computedShasum = hex_encode (np_sha1 h data)
                in if expectedShasum \<noteq> [] \<and> computedShasum \<noteq> expectedShasum
                   then (http_Error ''integrity check failed'' 502, w)
                   else if \<not> tf_seek tf then (http_Error ''internal error'' 500, w)
                   else
                     (reply 200 [(''Content-Type'', ''application/octet-stream'')] data,
                      if \<not> opened then w
                      else (case st_Put (np_store h) w (spooled tf data) of
                          (Inl _, w1) \<Rightarrow> w1
                        | (Inr _, w1) \<Rightarrow>
                            snd (SetVersionTarballHash (np_index h) w1 packageName version hash (int (length data))
                                   computedShasum expectedIntegrity))))))"

definition npm_handleTarballWithDownloader ::
  "'w npm \<Rightarrow> temp_file \<Rightarrow> flight \<Rightarrow> dl_error option \<Rightarrow> http_request \<Rightarrow> npm_upstream \<Rightarrow> string \<Rightarrow> string \<Rightarrow> 'w
     \<Rightarrow> http_response \<times> 'w" where
  "npm_handleTarballWithDownloader h tf fl ctxErr r upstream packageName version w =
     (case Do (fetchAndStoreTarball h tf upstream packageName version) fl ctxErr w of
        (res, _, w1) \<Rightarrow>
          (case HandleResult (\<lambda>e. e = UpstreamNotFound) None
                  \<lparr>so_ContentType = ''application/octet-stream'', so_ExtraHeaders = []\<rparr> (np_store h) r res w1 of
             (resp, _, w2) \<Rightarrow> (resp, w2)))"

text \<open>How the system and the shared downloader answer one request.\<close>

record npm_run =
  nn_temp :: temp_file
  nn_opened :: bool
  nn_flight :: flight
  nn_ctx :: "dl_error option"

definition npm_handleTarball ::
  "'w npm \<Rightarrow> npm_run \<Rightarrow> 'w \<Rightarrow> http_request \<Rightarrow> string \<Rightarrow> string \<Rightarrow> http_response option \<times> 'w" where
  "npm_handleTarball h env w r packageName tarballName =
     (let version = extractVersionFromTarball packageName tarballName;
          miss = (\<lambda>w.
            case npm_Match (np_router h) packageName of
              None \<Rightarrow> (None, w)
            | Some upstream \<Rightarrow>
                (case (if np_downloader h
                       then npm_handleTarballWithDownloader h (nn_temp env) (nn_flight env) (nn_ctx env) r upstream packageName version w
                       else npm_handleTarballDirect h (nn_temp env) (nn_opened env) upstream packageName version w) of
                   (resp, w') \<Rightarrow> (Some resp, w')))
      in if version = [] then miss w
         else case GetVersionTarballHash (np_index h) w packageName version of
             Inl _ \<Rightarrow> miss w
           | Inr hash \<Rightarrow>
               if hash_IsZero hash then miss w
               else (case st_Get (np_store h) w hash of
                   (Inr d, w1) \<Rightarrow> (Some (reply 200 [(''Content-Type'', ''application/octet-stream'')] d), w1)
                 | (Inl _, w1) \<Rightarrow> miss w1))"

definition npm_ServeHTTP :: "'w npm \<Rightarrow> npm_run \<Rightarrow> 'w \<Rightarrow> http_request \<Rightarrow> http_response option \<times> 'w" where
  "npm_ServeHTTP h env w r =
     (if rq_Method r \<noteq> ''GET'' \<and> rq_Method r \<noteq> ''HEAD'' then (Some (http_Error ''method not allowed'' 405), w)
      else case tarballPath (rq_Path r) of
          Some (package, tarballName) \<Rightarrow>
            (case decodePackageName package of
               None \<Rightarrow> (Some (http_Error ''invalid package name'' 400), w)
             | Some packageName \<Rightarrow> npm_handleTarball h env w r packageName tarballName)
        | None \<Rightarrow>
            (case decodePackageName (TrimPrefix (rq_Path r) ''/'') of
               None \<Rightarrow> (Some (http_Error ''invalid package name'' 400), w)
             | Some packageName \<Rightarrow> npm_handleMetadata h w r packageName))"

section \<open>Over any store\<close>

context cache_world
begin

definition npm_on :: "'w npm \<Rightarrow> bool" where
  "npm_on h \<longleftrightarrow> ni_es (np_index h) = es \<and> np_store h = st \<and> np_blake3 h = blake3
     \<and> json_ok (ni_json (np_index h)) \<and> index_ok (ni_cache (np_index h))"

lemma GetVersion_cong:
  assumes "ni_es x = es" "\<And>p kd k. es_Get es w' p kd k = es_Get es w p kd k"
  shows "npm_GetCachedPackage x w' name = npm_GetCachedPackage x w name"
    "GetVersionTarballHash x w' name version = GetVersionTarballHash x w name version"
proof -
  have "EI_GetJSON (j_dec (ni_json x)) es (ni_cache x) w' key = EI_GetJSON (j_dec (ni_json x)) es (ni_cache x) w key" for key
    by (rule EI_GetJSON_cong) (rule assms(2))
  then show "npm_GetCachedPackage x w' name = npm_GetCachedPackage x w name"
    "GetVersionTarballHash x w' name version = GetVersionTarballHash x w name version"
    using assms(1) by (simp_all add: npm_GetCachedPackage_def GetVersionTarballHash_def)
qed

text \<open>Recording a version: it is found from then on; of the other versions of the package those stay
  that were read, all of them if the package could be read; other packages stay.\<close>

lemma SetVersion_spec:
  assumes x: "ni_es x = es" "json_ok (ni_json x)" "index_ok (ni_cache x)" and inv: "inv w"
    and set: "SetVersionTarballHash x w name version h sz shasum integrity = (r, w')"
  shows "inv w' \<and> content w' = content w \<and> (healthy w' \<longleftrightarrow> healthy w)
    \<and> (case r of
         Inl _ \<Rightarrow> w' = w
       | Inr _ \<Rightarrow>
           npm_GetCachedPackage x w' name = Inr (withVersion (ni_now x) name version h sz shasum integrity
             (npm_packageBefore x w name))
           \<and> (\<forall>name'. encodePackageName name' \<noteq> encodePackageName name \<longrightarrow>
                npm_GetCachedPackage x w' name' = npm_GetCachedPackage x w name'))"
proof -
  show ?thesis
    using index_json_put_get [OF x(3,2) inv set [unfolded SetVersionTarballHash_def Let_def x(1)]] x(1)
    by (auto simp: npm_GetCachedPackage_def split: sum.splits)
qed

lemma withVersion_lookup:
  "map_of (cp_Versions (withVersion now name version h sz shasum integrity pkg)) v =
     (if v = version then Some \<lparr>cv_Version = version, cv_TarballHash = h, cv_TarballSize = sz, cv_Shasum = shasum,
        cv_Integrity = integrity, cv_CachedAt = now\<rparr> else map_of (cp_Versions pkg) v)"
  by (simp add: withVersion_def Let_def update_conv')

lemma SetVersion_found:
  assumes x: "ni_es x = es" "json_ok (ni_json x)" "index_ok (ni_cache x)" and inv: "inv w"
    and set: "SetVersionTarballHash x w name version h sz shasum integrity = (Inr u, w')"
  shows "GetVersionTarballHash x w' name version = Inr h"
    "version' \<noteq> version \<Longrightarrow> GetVersionTarballHash x w' name version' =
       (case map_of (cp_Versions (npm_packageBefore x w name)) version' of
          None \<Rightarrow> Inl NotCached
        | Some ver \<Rightarrow> Inr (cv_TarballHash ver))"
  using SetVersion_spec [OF assms] by (simp_all add: GetVersionTarballHash_def withVersion_lookup)

lemma npm_packageBefore_read:
  "npm_GetCachedPackage x w name = Inr pkg \<Longrightarrow> npm_packageBefore x w name = pkg"
  "EI_Get (ni_es x) (ni_cache x) w (encodePackageName name) = Inl e \<Longrightarrow> npm_packageBefore x w name = noPackage"
  by (auto simp: npm_GetCachedPackage_def npm_packageBefore_def EI_GetJSON_def EI_GetJSON_into_def split: sum.splits option.splits)

text \<open>A download that succeeds has verified the published digest, and its content is stored; the
  index either names it or is as it was.\<close>

lemma fetchAndStoreTarball_spec:
  assumes h: "npm_on h" and inv: "inv w"
    and fetch: "fetchAndStoreTarball h tf upstream name version w = (res, w')"
  shows "inv w' \<and> (healthy w \<longrightarrow> healthy w')
    \<and> (\<forall>g d. is_hash g \<longrightarrow> content w g = Some d \<longrightarrow> content w' g = Some d)
    \<and> (case res of
         Inl _ \<Rightarrow> (\<forall>name v. GetVersionTarballHash (np_index h) w' name v = GetVersionTarballHash (np_index h) w name v)
       | Inr result \<Rightarrow> \<exists>resp.
           npm_FetchTarballOf h upstream name version = Inr resp \<and> \<not> src_fails (rp_Body resp)
           \<and> (let data = concat (chunks (rp_Body resp)); expected = fst (expectedDist h upstream name version) in
               is_hash (dr_Hash result) \<and> dr_Hash result = blake3 data \<and> dr_Size result = int (length data)
               \<and> (expected \<noteq> [] \<longrightarrow> hex_encode (np_sha1 h data) = expected)
               \<and> (\<exists>d. content w' (blake3 data) = Some d \<and> blake3 d = blake3 data
                    \<and> (content w (blake3 data) = None \<longrightarrow> d = data))
               \<and> ((\<forall>name v. GetVersionTarballHash (np_index h) w' name v = GetVersionTarballHash (np_index h) w name v)
                  \<or> GetVersionTarballHash (np_index h) w' name version = Inr (blake3 data))))"
proof (cases "\<exists>resp data. npm_FetchTarballOf h upstream name version = Inr resp \<and> spool tf resp = Inr data
    \<and> tf_seek tf \<and> \<not> (fst (expectedDist h upstream name version) \<noteq> []
        \<and> hex_encode (np_sha1 h data) \<noteq> fst (expectedDist h upstream name version))")
  case False
  then have "w' = w \<and> (\<exists>e. res = Inl e)"
    using fetch by (auto simp: fetchAndStoreTarball_def Let_def split: prod.splits sum.splits if_splits)
  then show ?thesis using inv by auto
next
  case True
  then obtain resp data where get: "npm_FetchTarballOf h upstream name version = Inr resp" "spool tf resp = Inr data"
    "tf_seek tf" "fst (expectedDist h upstream name version) \<noteq> [] \<longrightarrow>
       hex_encode (np_sha1 h data) = fst (expectedDist h upstream name version)" by blast
  note data = spool_Inr [OF get(2)]
  have on: "ni_es (np_index h) = es" "np_store h = st" "np_blake3 h = blake3" "json_ok (ni_json (np_index h))"
    "index_ok (ni_cache (np_index h))" using h by (simp_all add: npm_on_def)
  obtain pres w1 where p: "st_Put st w (spooled tf data) = (pres, w1)" by fastforce
  note pb = put_blob [OF inv p]
  have same1: "GetVersionTarballHash (np_index h) w1 n v = GetVersionTarballHash (np_index h) w n v" for n v
    by (rule GetVersion_cong [OF on(1)]) (use pb in blast)
  have inv1: "inv w1" "healthy w \<longrightarrow> healthy w1" using pb by simp_all
  have keep1: "\<forall>g d. is_hash g \<longrightarrow> content w g = Some d \<longrightarrow> content w1 g = Some d"
    using upload_keeps [OF inv p] by blast
  obtain exps integ where e: "expectedDist h upstream name version = (exps, integ)" by fastforce
  show ?thesis
  proof (cases pres)
    case (Inl err)
    then have "res = Inl DownloadFailed" "w' = w1"
      using fetch get e p on(2,3) by (auto simp: fetchAndStoreTarball_def Let_def)
    then show ?thesis using inv1 same1 keep1 by simp
  next
    case (Inr y)
    note up = upload_stored [OF inv p [unfolded Inr]]
    obtain r2 w2 where set: "SetVersionTarballHash (np_index h) w1 name version (blake3 data) (int (length data))
        (hex_encode (np_sha1 h data)) integ = (r2, w2)" by fastforce
    have run: "res = Inr \<lparr>dr_Hash = blake3 data, dr_Size = int (length data)\<rparr>" "w' = w2"
      using fetch get e p on(2,3) Inr set by (auto simp: fetchAndStoreTarball_def Let_def)
    note ss = SetVersion_spec [OF on(1,4,5) inv1(1) set]
    have "(\<forall>n v. GetVersionTarballHash (np_index h) w2 n v = GetVersionTarballHash (np_index h) w n v)
        \<or> GetVersionTarballHash (np_index h) w2 name version = Inr (blake3 data)"
    proof (cases r2)
      case (Inl err)
      then show ?thesis using ss same1 by simp
    next
      case u: (Inr u)
      then show ?thesis using SetVersion_found(1) [OF on(1,4,5) inv1(1) set [unfolded u]] by simp
    qed
    then show ?thesis using run get data e up ss inv1 keep1 by (auto simp: Let_def)
  qed
qed

text \<open>A version that the index names is served from the store, whatever the network does.\<close>

lemma npm_handleTarball_hit:
  assumes h: "npm_on h" and inv: "inv w" "healthy w"
    and hit: "GetVersionTarballHash (np_index h) w name version = Inr x" "is_hash x" "\<not> hash_IsZero x" "content w x = Some d"
    and v: "extractVersionFromTarball name tarball = version" "version \<noteq> []"
  shows "\<exists>w'. npm_handleTarball h env w r name tarball
      = (Some (reply 200 [(''Content-Type'', ''application/octet-stream'')] d), w') \<and> inv w'"
proof -
  obtain res w1 where g: "st_Get st w x = (res, w1)" by fastforce
  note gb = get_blob [OF inv(1) hit(2) g]
  then have "res = Inr d" using inv(2) hit(4) by (cases res) auto
  then show ?thesis using h hit v g gb by (simp add: npm_handleTarball_def npm_on_def Let_def)
qed

end

end
