(* ===== verification/Oci.thy ===== *)
theory Oci
  imports Download Urls "HOL-Library.AList"
begin

text \<open>
  The OCI registry protocol (\<open>protocol/oci\<close>): digests (\<open>digest.go\<close>), routing by prefix
  (\<open>router.go\<close>), the indexes of tags, manifests and blobs (\<open>index.go\<close>), tokens (\<open>auth.go\<close>), the
  upstream registry (\<open>upstream.go\<close>) and the handler (\<open>handler.go\<close>).
\<close>

section \<open>Digests\<close>

record digest =
  dg_Algorithm :: string
  dg_Hex :: string

datatype digest_error =
    MissingAlgorithm
  | DigestLength string
  | UnsupportedAlgo string
  | DigestHex
  | DigestMismatch string string
  | DigestRead

text \<open>SHA-256 and SHA-512 are functions on bytes.\<close>

record sha_funs =
  sha_256 :: "bytes \<Rightarrow> bytes"
  sha_512 :: "bytes \<Rightarrow> bytes"

definition ParseDigest :: "(string \<Rightarrow> string) \<Rightarrow> string \<Rightarrow> digest_error + digest" where
  "ParseDigest U s =
     (case SplitN2 s (CHR '':'') of
        [algo, hexStr] \<Rightarrow>
          (if algo = ''sha256'' \<and> length hexStr \<noteq> 64 \<or> algo = ''sha512'' \<and> length hexStr \<noteq> 128 then Inl (DigestLength algo)
           else if algo \<noteq> ''sha256'' \<and> algo \<noteq> ''sha512'' then Inl (UnsupportedAlgo algo)
           else if hex_decode hexStr = None then Inl DigestHex
           else Inr \<lparr>dg_Algorithm = algo, dg_Hex = ToLower U hexStr\<rparr>)
      | _ \<Rightarrow> Inl MissingAlgorithm)"

definition Digest_String :: "digest \<Rightarrow> string" where
  "Digest_String d = dg_Algorithm d @ '':'' @ dg_Hex d"

definition Digest_IsZero :: "digest \<Rightarrow> bool" where
  "Digest_IsZero d \<longleftrightarrow> dg_Algorithm d = [] \<and> dg_Hex d = []"

definition Digest_NewHasher :: "sha_funs \<Rightarrow> digest \<Rightarrow> digest_error + (bytes \<Rightarrow> bytes)" where
  "Digest_NewHasher f d =
     (if dg_Algorithm d = ''sha256'' then Inr (sha_256 f)
      else if dg_Algorithm d = ''sha512'' then Inr (sha_512 f)
      else Inl (UnsupportedAlgo (dg_Algorithm d)))"

definition Digest_compute :: "sha_funs \<Rightarrow> digest \<Rightarrow> bytes \<Rightarrow> digest_error + string" where
  "Digest_compute f d content =
     (if dg_Algorithm d = ''sha256'' then Inr (hex_encode (sha_256 f content))
      else if dg_Algorithm d = ''sha512'' then Inr (hex_encode (sha_512 f content))
      else Inl (UnsupportedAlgo (dg_Algorithm d)))"

definition Digest_Verify :: "sha_funs \<Rightarrow> digest \<Rightarrow> bytes \<Rightarrow> digest_error + unit" where
  "Digest_Verify f d content =
     rbind (Digest_compute f d content)
       (\<lambda>computed. if computed \<noteq> dg_Hex d then Inl (DigestMismatch (dg_Hex d) computed) else Inr ())"

definition Digest_VerifyReader :: "sha_funs \<Rightarrow> digest \<Rightarrow> source \<Rightarrow> digest_error + bytes" where
  "Digest_VerifyReader f d r =
     rbind (Digest_NewHasher f d)
       (\<lambda>h. if src_fails r then Inl DigestRead
            else let content = concat (chunks r); computed = hex_encode (h content)
                 in if computed \<noteq> dg_Hex d then Inl (DigestMismatch (dg_Hex d) computed) else Inr content)"

definition ComputeSHA256 :: "sha_funs \<Rightarrow> bytes \<Rightarrow> string" where
  "ComputeSHA256 f content = ''sha256:'' @ hex_encode (sha_256 f content)"

definition ComputeSHA256Reader :: "sha_funs \<Rightarrow> source \<Rightarrow> string option" where
  "ComputeSHA256Reader f r =
     (if src_fails r then None else Some (''sha256:'' @ hex_encode (sha_256 f (concat (chunks r)))))"

definition IsDigestReference :: "string \<Rightarrow> bool" where
  "IsDigestReference reference \<longleftrightarrow> Contains reference ''sha256:'' \<or> Contains reference ''sha512:''"

lemma ParseDigest_Inr:
  "ParseDigest U s = Inr d \<longleftrightarrow>
     (\<exists>hexStr. s = dg_Algorithm d @ '':'' @ hexStr \<and> dg_Hex d = map ascii_lower hexStr \<and> hex_decode hexStr \<noteq> None
        \<and> (dg_Algorithm d = ''sha256'' \<and> length hexStr = 64 \<or> dg_Algorithm d = ''sha512'' \<and> length hexStr = 128))"
  (is "?l \<longleftrightarrow> ?r")
proof
  assume l: ?l
  then obtain algo hexStr where c: "Cut s (CHR '':'') = Some (algo, hexStr)"
    by (auto simp: ParseDigest_def SplitN2_def split: option.splits)
  have lower: "ToLower U hexStr = map ascii_lower hexStr" if "hex_decode hexStr \<noteq> None"
    using that hex_decode_ascii by (auto simp: ToLower_def)
  show ?r using l c lower
    by (auto simp: ParseDigest_def SplitN2_def Cut_Some split: if_splits)
next
  assume ?r
  then obtain hexStr where s: "s = dg_Algorithm d @ '':'' @ hexStr" "dg_Hex d = map ascii_lower hexStr" "hex_decode hexStr \<noteq> None"
    "dg_Algorithm d = ''sha256'' \<and> length hexStr = 64 \<or> dg_Algorithm d = ''sha512'' \<and> length hexStr = 128" by blast
  have "Cut s (CHR '':'') = Some (dg_Algorithm d, hexStr)" using s(1,4) by (auto simp: Cut_Some)
  moreover have "ToLower U hexStr = map ascii_lower hexStr" using s(3) hex_decode_ascii by (auto simp: ToLower_def)
  ultimately show ?l using s by (auto simp: ParseDigest_def SplitN2_def)
qed

text \<open>A digest that was parsed prints to the text in lower case, which parses to it again.\<close>

lemma hex_decode_lower: "hex_decode s = Some b \<Longrightarrow> hex_decode (map ascii_lower s) = Some b"
  by (metis hex_decode_encode hex_encode_decode)

lemma ParseDigest_String: "ParseDigest U s = Inr d \<Longrightarrow> ParseDigest U (Digest_String d) = Inr d"
proof -
  assume "ParseDigest U s = Inr d"
  then obtain hexStr b where h: "dg_Hex d = map ascii_lower hexStr" "hex_decode hexStr = Some b"
    "dg_Algorithm d = ''sha256'' \<and> length hexStr = 64 \<or> dg_Algorithm d = ''sha512'' \<and> length hexStr = 128"
    by (auto simp: ParseDigest_Inr)
  then show ?thesis
    unfolding ParseDigest_Inr Digest_String_def
    by (intro exI [of _ "dg_Hex d"]) (auto simp: hex_decode_lower [OF h(2)] comp_def)
qed

lemma Digest_Verify_Inr:
  "Digest_Verify f d content = Inr () \<longleftrightarrow>
     (dg_Algorithm d = ''sha256'' \<and> dg_Hex d = hex_encode (sha_256 f content)
      \<or> dg_Algorithm d = ''sha512'' \<and> dg_Hex d = hex_encode (sha_512 f content))"
  by (auto simp: Digest_Verify_def Digest_compute_def)

section \<open>The router\<close>

record 'u registry =
  rg_Prefix :: string
  rg_Upstream :: 'u
  rg_TagTTL :: int

datatype oci_router_error =
    NoRegistries
  | EmptyPrefix
  | PrefixNotLower string
  | PrefixSlash string
  | DuplicatePrefix string
  | OverlappingPrefixes string string

fun oci_checkPrefixes :: "(string \<Rightarrow> string) \<Rightarrow> string set \<Rightarrow> 'u registry list \<Rightarrow> oci_router_error + unit" where
  "oci_checkPrefixes U seen [] = Inr ()"
| "oci_checkPrefixes U seen (r # rs) =
     (let p = rg_Prefix r in
      if p = [] then Inl EmptyPrefix
      else if p \<noteq> ToLower U p then Inl (PrefixNotLower p)
      else if CHR ''/'' \<in> set p then Inl (PrefixSlash p)
      else if p \<in> seen then Inl (DuplicatePrefix p)
      else oci_checkPrefixes U (insert p seen) rs)"

fun oci_checkOverlap :: "string list \<Rightarrow> oci_router_error + unit" where
  "oci_checkOverlap (p # q # ps) =
     (if HasPrefix q p then Inl (OverlappingPrefixes p q) else oci_checkOverlap (q # ps))"
| "oci_checkOverlap _ = Inr ()"

text \<open>The registries sorted by the length of their prefixes, longest first.\<close>

definition oci_NewRouter :: "(string \<Rightarrow> string) \<Rightarrow> 'u registry list \<Rightarrow> oci_router_error + 'u registry list" where
  "oci_NewRouter U registries =
     (if registries = [] then Inl NoRegistries
      else rbind (oci_checkPrefixes U {} registries)
        (\<lambda>_. rbind (oci_checkOverlap (sort (map rg_Prefix registries)))
          (\<lambda>_. Inr (sort_key (\<lambda>r. - int (length (rg_Prefix r))) registries))))"

text \<open>\<open>None\<close> is \<open>ErrNoMatchingRegistry\<close>.\<close>

definition oci_Route :: "'u registry list \<Rightarrow> string \<Rightarrow> ('u registry \<times> string) option" where
  "oci_Route registries path =
     (let remainder = TrimPrefix path ''/v2/'' in
      case List.find (\<lambda>r. HasPrefix remainder (rg_Prefix r @ ''/'')) registries of
        None \<Rightarrow> None
      | Some r \<Rightarrow> map_option (Pair r) (CutPrefix remainder (rg_Prefix r @ ''/'')))"

lemma oci_checkPrefixes_ok:
  "oci_checkPrefixes U seen rs = Inr () \<Longrightarrow>
     distinct (map rg_Prefix rs) \<and> (\<forall>r\<in>set rs. rg_Prefix r \<notin> seen \<and> rg_Prefix r \<noteq> [] \<and> CHR ''/'' \<notin> set (rg_Prefix r))"
proof (induction rs arbitrary: seen)
  case (Cons r rs)
  then have "oci_checkPrefixes U (insert (rg_Prefix r) seen) rs = Inr ()" "rg_Prefix r \<notin> seen" "rg_Prefix r \<noteq> []"
    "CHR ''/'' \<notin> set (rg_Prefix r)" by (auto simp: Let_def split: if_splits)
  then show ?case using Cons.IH by fastforce
qed simp

text \<open>In byte order, what lies between a string and one of its extensions extends it.\<close>

lemma prefix_between:
  fixes p q :: string
  shows "p \<le> q \<Longrightarrow> q \<le> p @ x \<Longrightarrow> HasPrefix q p"
proof (induction p arbitrary: q)
  case (Cons c p)
  then obtain d q' where q: "q = d # q'" by (cases q) auto
  have "c \<le> d" "d \<le> c" using Cons.prems q by (auto simp: less_le)
  then show ?case using Cons q by auto
qed (simp add: HasPrefix_iff)

text \<open>Comparing neighbours of the sorted prefixes finds every overlap.\<close>

lemma oci_checkOverlap_all:
  assumes "sorted ps" "distinct ps" "oci_checkOverlap ps = Inr ()"
  shows "i < j \<Longrightarrow> j < length ps \<Longrightarrow> \<not> HasPrefix (ps ! j) (ps ! i)"
  using assms
proof (induction ps arbitrary: i j rule: oci_checkOverlap.induct)
  case (1 p q ps)
  then have next1: "\<not> HasPrefix q p" "oci_checkOverlap (q # ps) = Inr ()" by (auto split: if_splits)
  show ?case
  proof (cases i)
    case (Suc i')
    then show ?thesis using 1 next1 by (cases j) auto
  next
    case 0
    show ?thesis
    proof
      assume "HasPrefix ((p # q # ps) ! j) ((p # q # ps) ! i)"
      then obtain x where x: "(p # q # ps) ! j = p @ x" using 0 by (auto simp: HasPrefix_iff)
      have "q \<le> (p # q # ps) ! j" using 1(2,3,4) 0 by (cases j; cases "j - 1") auto
      moreover have "p \<le> q" using 1(4) by simp
      ultimately show False using prefix_between [of p q x] x next1(1) by simp
    qed
  qed
qed auto

lemma oci_NewRouter_Inr:
  assumes "oci_NewRouter U registries = Inr rt"
  shows "set rt = set registries" "distinct (map rg_Prefix registries)"
    "r \<in> set registries \<Longrightarrow> rg_Prefix r \<noteq> [] \<and> CHR ''/'' \<notin> set (rg_Prefix r)"
    "r \<in> set registries \<Longrightarrow> s \<in> set registries \<Longrightarrow> HasPrefix (rg_Prefix s) (rg_Prefix r) \<Longrightarrow> r = s"
proof -
  have ok: "oci_checkPrefixes U {} registries = Inr ()" "oci_checkOverlap (sort (map rg_Prefix registries)) = Inr ()"
    "rt = sort_key (\<lambda>r. - int (length (rg_Prefix r))) registries"
    using assms by (auto simp: oci_NewRouter_def rbind_eq_Inr split: if_splits)
  show set: "set rt = set registries" and dist: "distinct (map rg_Prefix registries)"
    using ok(3) oci_checkPrefixes_ok [OF ok(1)] by simp_all
  show "rg_Prefix r \<noteq> [] \<and> CHR ''/'' \<notin> set (rg_Prefix r)" if "r \<in> set registries"
    using that oci_checkPrefixes_ok [OF ok(1)] by simp
  show "r = s" if rs: "r \<in> set registries" "s \<in> set registries" "HasPrefix (rg_Prefix s) (rg_Prefix r)"
  proof (rule ccontr)
    assume neq: "r \<noteq> s"
    let ?ps = "sort (map rg_Prefix registries)"
    have "rg_Prefix r \<in> set ?ps" "rg_Prefix s \<in> set ?ps" using rs(1,2) by simp_all
    then obtain i j where ij: "i < length ?ps" "?ps ! i = rg_Prefix r" "j < length ?ps" "?ps ! j = rg_Prefix s"
      unfolding in_set_conv_nth by blast
    have "rg_Prefix r \<noteq> rg_Prefix s" using dist neq rs(1,2) by (auto simp: distinct_map inj_on_def)
    moreover have "i < j \<Longrightarrow> False"
      using oci_checkOverlap_all [OF _ _ ok(2), of i j] ij dist rs(3) by simp
    moreover have "j < i \<Longrightarrow> False"
    proof -
      assume "j < i"
      then have "rg_Prefix s \<le> rg_Prefix r" using ij by (metis less_imp_le_nat sorted_nth_mono sorted_sort)
      moreover obtain x where "rg_Prefix s = rg_Prefix r @ x" using rs(3) by (auto simp: HasPrefix_iff)
      moreover have "(p::string) \<le> p @ x" for p by (induction p) (auto simp: less_le)
      ultimately show False using \<open>rg_Prefix r \<noteq> rg_Prefix s\<close> by (metis order_antisym)
    qed
    ultimately show False using ij by (metis linorder_neqE_nat)
  qed
qed

lemma oci_Route_iff:
  assumes "oci_NewRouter U registries = Inr rt"
  shows "oci_Route rt path = Some (r, rest) \<longleftrightarrow>
    r \<in> set registries \<and> TrimPrefix path ''/v2/'' = rg_Prefix r @ ''/'' @ rest"
proof -
  note ok = oci_NewRouter_Inr [OF assms]
  let ?m = "TrimPrefix path ''/v2/''" and ?P = "\<lambda>r. HasPrefix (TrimPrefix path ''/v2/'') (rg_Prefix r @ ''/'')"
  have uniq: "x = y" if xy: "x \<in> set registries" "y \<in> set registries" "?P x" "?P y" for x y
  proof -
    obtain a b where ab: "?m = rg_Prefix x @ ''/'' @ a" "?m = rg_Prefix y @ ''/'' @ b"
      using xy(3,4) by (auto simp: HasPrefix_iff)
    have "Cut ?m (CHR ''/'') = Some (rg_Prefix x, a)" using ab(1) ok(3) [OF xy(1)] by (simp add: Cut_Some)
    moreover have "Cut ?m (CHR ''/'') = Some (rg_Prefix y, b)" using ab(2) ok(3) [OF xy(2)] by (simp add: Cut_Some)
    ultimately have "rg_Prefix x = rg_Prefix y" by simp
    then show ?thesis using ok(2) xy(1,2) by (auto simp: distinct_map inj_on_def)
  qed
  show ?thesis
  proof
    assume "oci_Route rt path = Some (r, rest)"
    then have "List.find ?P rt = Some r" "CutPrefix ?m (rg_Prefix r @ ''/'') = Some rest"
      by (auto simp: oci_Route_def Let_def split: option.splits)
    then show "r \<in> set registries \<and> ?m = rg_Prefix r @ ''/'' @ rest"
      using ok(1) by (auto simp: find_Some_iff CutPrefix_Some)
  next
    assume r: "r \<in> set registries \<and> ?m = rg_Prefix r @ ''/'' @ rest"
    then have P: "?P r" "CutPrefix ?m (rg_Prefix r @ ''/'') = Some rest" by (simp_all add: CutPrefix_Some HasPrefix_iff)
    obtain x where x: "List.find ?P rt = Some x"
      using P(1) r ok(1) by (cases "List.find ?P rt") (auto simp: find_None_iff)
    then have "x \<in> set rt" "?P x" unfolding find_Some_iff by auto
    then have "x = r" using uniq [of x r] r P(1) ok(1) by simp
    then show "oci_Route rt path = Some (r, rest)" using x P(2) by (simp add: oci_Route_def Let_def)
  qed
qed

section \<open>The indexes\<close>

record cached_tag =
  ct_Tag :: string
  ct_Digest :: string
  ct_CachedAt :: time
  ct_RefreshedAt :: time

record cached_image =
  ci_Name :: string
  ci_Tags :: "(string \<times> cached_tag) list"
  ci_CachedAt :: time
  ci_UpdatedAt :: time

record cached_manifest =
  cm_Digest :: string
  cm_MediaType :: string
  cm_ContentHash :: hash
  cm_Size :: int
  cm_CachedAt :: time

record cached_blob =
  cb_Digest :: string
  cb_ContentHash :: hash
  cb_Size :: int
  cb_CachedAt :: time

record 'w oci_index =
  oi_es :: "'w envelope_store"
  oi_images :: env_index
  oi_manifests :: env_index
  oi_blobs :: env_index
  oi_imageJSON :: "cached_image json_codec"
  oi_manifestJSON :: "cached_manifest json_codec"
  oi_blobJSON :: "cached_blob json_codec"
  oi_now :: time
  oi_unicode :: "string \<Rightarrow> string"

definition encodeImageName :: "string \<Rightarrow> string" where
  "encodeImageName name = PathEscape name"

definition decodeImageName :: "string \<Rightarrow> string option" where
  "decodeImageName encoded = PathUnescape encoded"

definition encodeDigest :: "(string \<Rightarrow> string) \<Rightarrow> string \<Rightarrow> string" where
  "encodeDigest U d =
     (case ParseDigest U d of
        Inl _ \<Rightarrow> PathEscape d
      | Inr p \<Rightarrow> dg_Algorithm p @ ''_'' @ dg_Hex p)"

definition collectImageBlobRefs :: "cached_image \<Rightarrow> string list" where
  "collectImageBlobRefs img = []"

definition GetTagDigest :: "'w oci_index \<Rightarrow> 'w \<Rightarrow> string \<Rightarrow> string \<Rightarrow> index_error + (string \<times> time)" where
  "GetTagDigest x w name tag =
     (case EI_GetJSON (j_dec (oi_imageJSON x)) (oi_es x) (oi_images x) w (encodeImageName name) of
        Inl e \<Rightarrow> Inl (indexError e)
      | Inr img \<Rightarrow>
          (case map_of (ci_Tags img) tag of
             None \<Rightarrow> Inl NotCached
           | Some t \<Rightarrow> Inr (ct_Digest t, ct_RefreshedAt t)))"

definition SetTagDigest :: "'w oci_index \<Rightarrow> 'w \<Rightarrow> string \<Rightarrow> string \<Rightarrow> string \<Rightarrow> (mdb_error + unit) \<times> 'w" where
  "SetTagDigest x w name tag d =
     (let key = encodeImageName name; now = oi_now x;
          put = (\<lambda>img0.
            let img = img0\<lparr>ci_Tags := AList.update tag
                    \<lparr>ct_Tag = tag, ct_Digest = d, ct_CachedAt = now, ct_RefreshedAt = now\<rparr> (ci_Tags img0),
                  ci_UpdatedAt := now\<rparr>
            in EI_PutJSON (j_enc (oi_imageJSON x)) (oi_es x) (oi_images x) now w key img (collectImageBlobRefs img))
      in case EI_GetJSON (j_dec (oi_imageJSON x)) (oi_es x) (oi_images x) w key of
           Inl e \<Rightarrow>
             if e = ErrNotFound then put \<lparr>ci_Name = name, ci_Tags = [], ci_CachedAt = now, ci_UpdatedAt = now\<rparr>
             else (Inl e, w)
         | Inr img \<Rightarrow> put img)"

definition RefreshTag :: "'w oci_index \<Rightarrow> 'w \<Rightarrow> string \<Rightarrow> string \<Rightarrow> (index_error + unit) \<times> 'w" where
  "RefreshTag x w name tag =
     (let key = encodeImageName name in
      case EI_GetJSON (j_dec (oi_imageJSON x)) (oi_es x) (oi_images x) w key of
        Inl e \<Rightarrow> (Inl (indexError e), w)
      | Inr img \<Rightarrow>
          (case map_of (ci_Tags img) tag of
             None \<Rightarrow> (Inl NotCached, w)
           | Some t \<Rightarrow>
               (let img' = img\<lparr>ci_Tags := AList.update tag (t\<lparr>ct_RefreshedAt := oi_now x\<rparr>) (ci_Tags img),
                      ci_UpdatedAt := oi_now x\<rparr>
                in case EI_PutJSON (j_enc (oi_imageJSON x)) (oi_es x) (oi_images x) (oi_now x) w key img'
                     (collectImageBlobRefs img') of
                     (Inl e, w') \<Rightarrow> (Inl (IndexFailed e), w')
                   | (Inr _, w') \<Rightarrow> (Inr (), w'))))"

definition GetManifest :: "'w oci_index \<Rightarrow> 'w \<Rightarrow> string \<Rightarrow> index_error + cached_manifest" where
  "GetManifest x w d =
     (case EI_GetJSON (j_dec (oi_manifestJSON x)) (oi_es x) (oi_manifests x) w (encodeDigest (oi_unicode x) d) of
        Inl e \<Rightarrow> Inl (indexError e)
      | Inr m \<Rightarrow> Inr m)"

definition PutManifest :: "'w oci_index \<Rightarrow> 'w \<Rightarrow> string \<Rightarrow> string \<Rightarrow> hash \<Rightarrow> int \<Rightarrow> (mdb_error + unit) \<times> 'w" where
  "PutManifest x w d mediaType h sz =
     EI_PutJSON (j_enc (oi_manifestJSON x)) (oi_es x) (oi_manifests x) (oi_now x) w (encodeDigest (oi_unicode x) d)
       \<lparr>cm_Digest = d, cm_MediaType = mediaType, cm_ContentHash = h, cm_Size = sz, cm_CachedAt = oi_now x\<rparr>
       [BlobRef_String (NewBlobRef h)]"

definition oci_GetBlob :: "'w oci_index \<Rightarrow> 'w \<Rightarrow> string \<Rightarrow> index_error + cached_blob" where
  "oci_GetBlob x w d =
     (case EI_GetJSON (j_dec (oi_blobJSON x)) (oi_es x) (oi_blobs x) w (encodeDigest (oi_unicode x) d) of
        Inl e \<Rightarrow> Inl (indexError e)
      | Inr b \<Rightarrow> Inr b)"

definition oci_PutBlob :: "'w oci_index \<Rightarrow> 'w \<Rightarrow> string \<Rightarrow> hash \<Rightarrow> int \<Rightarrow> (mdb_error + unit) \<times> 'w" where
  "oci_PutBlob x w d h sz =
     EI_PutJSON (j_enc (oi_blobJSON x)) (oi_es x) (oi_blobs x) (oi_now x) w (encodeDigest (oi_unicode x) d)
       \<lparr>cb_Digest = d, cb_ContentHash = h, cb_Size = sz, cb_CachedAt = oi_now x\<rparr> [BlobRef_String (NewBlobRef h)]"

definition ListImages :: "'w oci_index \<Rightarrow> 'w \<Rightarrow> string list" where
  "ListImages x w = List.map_filter decodeImageName (EI_List (oi_es x) (oi_images x) w)"

section \<open>Tokens\<close>

type_synonym auth_cache = "(string \<times> string \<times> time) list"

definition second :: int where
  "second = 1000000000"

text \<open>A token counts until 30 seconds before it expires.\<close>

definition GetToken :: "time \<Rightarrow> auth_cache \<Rightarrow> string \<Rightarrow> string" where
  "GetToken now ac scope =
     (case map_of ac scope of
        Some (token, expiresAt) \<Rightarrow> if now + 30 * second < expiresAt then token else []
      | None \<Rightarrow> [])"

definition SetToken :: "time \<Rightarrow> string \<Rightarrow> string \<Rightarrow> int \<Rightarrow> auth_cache \<Rightarrow> auth_cache" where
  "SetToken now scope token expiresIn ac = AList.update scope (token, now + expiresIn * second) ac"

record auth_challenge =
  ac_Realm :: string
  ac_Service :: string
  ac_Scope :: string

text \<open>Splitting at the commas outside of quotes; \<open>cur\<close> is the part under construction. The code goes by
  runes, the model by bytes, which splits valid UTF-8 at the same places.\<close>

fun splitParams_loop :: "(string \<Rightarrow> string) \<Rightarrow> bool \<Rightarrow> string \<Rightarrow> string \<Rightarrow> string list" where
  "splitParams_loop U q cur [] = (if cur \<noteq> [] then [TrimSpace U cur] else [])"
| "splitParams_loop U q cur (c # s) =
     (if c = CHR 0x22 then splitParams_loop U (\<not> q) (cur @ [c]) s
      else if c = CHR '','' \<and> \<not> q then TrimSpace U cur # splitParams_loop U q [] s
      else splitParams_loop U q (cur @ [c]) s)"

definition splitParams :: "(string \<Rightarrow> string) \<Rightarrow> string \<Rightarrow> string list" where
  "splitParams U s = splitParams_loop U False [] s"

definition parseParam :: "(string \<Rightarrow> string) \<Rightarrow> string \<Rightarrow> (string \<times> string) option" where
  "parseParam U s =
     (case Cut s (CHR ''='') of
        None \<Rightarrow> None
      | Some (before, after) \<Rightarrow>
          (let value = TrimSpace U after in
           Some (TrimSpace U before,
             if 2 \<le> length value \<and> hd value = CHR 0x22 \<and> last value = CHR 0x22 then butlast (tl value) else value)))"

definition applyParam :: "(string \<Rightarrow> string) \<Rightarrow> string \<Rightarrow> auth_challenge \<Rightarrow> auth_challenge" where
  "applyParam U part c =
     (case parseParam U part of
        None \<Rightarrow> c
      | Some (key, value) \<Rightarrow>
          if key = ''realm'' then c\<lparr>ac_Realm := value\<rparr>
          else if key = ''service'' then c\<lparr>ac_Service := value\<rparr>
          else if key = ''scope'' then c\<lparr>ac_Scope := value\<rparr>
          else c)"

definition ParseWWWAuthenticate :: "(string \<Rightarrow> string) \<Rightarrow> string \<Rightarrow> auth_challenge option" where
  "ParseWWWAuthenticate U header =
     (if \<not> HasPrefix header ''Bearer '' then None
      else let c = fold (applyParam U) (splitParams U (drop 7 header)) \<lparr>ac_Realm = [], ac_Service = [], ac_Scope = []\<rparr>
           in if ac_Realm c = [] then None else Some c)"

record token_response =
  tr_Token :: string
  tr_AccessToken :: string
  tr_ExpiresIn :: int

text \<open>What the upstream client uses of the libraries: setting query values of a URL, the header of
  basic authentication, and decoding a token response.\<close>

record oci_libs =
  ol_withQuery :: "string \<Rightarrow> (string \<times> string) list \<Rightarrow> string option"
  ol_basicAuth :: "string \<Rightarrow> string \<Rightarrow> string"
  ol_token :: "http_reply \<Rightarrow> dl_error + token_response"

definition FetchToken ::
  "oci_libs \<Rightarrow> http_client \<Rightarrow> auth_challenge \<Rightarrow> string \<Rightarrow> string \<Rightarrow> dl_error + token_response" where
  "FetchToken L client c username password =
     (case ol_withQuery L (ac_Realm c)
             ((if ac_Service c \<noteq> [] then [(''service'', ac_Service c)] else [])
              @ (if ac_Scope c \<noteq> [] then [(''scope'', ac_Scope c)] else [])) of
        None \<Rightarrow> Inl DownloadFailed
      | Some url \<Rightarrow>
          rbind (client ''GET'' url
              (if username \<noteq> [] \<and> password \<noteq> [] then [(''Authorization'', ol_basicAuth L username password)] else []))
            (\<lambda>resp. if rp_Status resp \<noteq> 200 then Inl DownloadFailed
              else rbind (ol_token L resp)
                (\<lambda>t0. let t1 = (if tr_Token t0 = [] \<and> tr_AccessToken t0 \<noteq> [] then t0\<lparr>tr_Token := tr_AccessToken t0\<rparr> else t0)
                  in Inr (if tr_ExpiresIn t1 = 0 then t1\<lparr>tr_ExpiresIn := 300\<rparr> else t1))))"

definition BuildScope :: "string \<Rightarrow> string \<Rightarrow> string" where
  "BuildScope imageName action = ''repository:'' @ imageName @ '':'' @ action"

section \<open>The upstream registry\<close>

record oci_upstream =
  ou_baseURL :: string
  ou_username :: string
  ou_password :: string

definition oci_WithRegistryURL :: "string \<Rightarrow> oci_upstream \<Rightarrow> oci_upstream" where
  "oci_WithRegistryURL url u = u\<lparr>ou_baseURL := TrimSuffix url ''/''\<rparr>"

definition oci_NewUpstream :: "(oci_upstream \<Rightarrow> oci_upstream) list \<Rightarrow> oci_upstream" where
  "oci_NewUpstream opts =
     fold (\<lambda>opt u. opt u) opts \<lparr>ou_baseURL = ''https://registry-1.docker.io'', ou_username = [], ou_password = []\<rparr>"

definition maxManifestSize :: nat where
  "maxManifestSize = 32 * 1024 * 1024"

definition DefaultAcceptHeader :: "string list" where
  "DefaultAcceptHeader =
     [''application/vnd.docker.distribution.manifest.v2+json'', ''application/vnd.docker.distribution.manifest.list.v2+json'',
      ''application/vnd.oci.image.manifest.v1+json'', ''application/vnd.oci.image.index.v1+json'']"

text \<open>What a request needs: the libraries, the client, the clock, Go's Unicode tables.\<close>

record oci_env =
  oe_libs :: oci_libs
  oe_client :: http_client
  oe_now :: time
  oe_unicode :: "string \<Rightarrow> string"

datatype oci_error = Unauthorized | RequestFailed dl_error

text \<open>A request with the cached token of its scope, and once more with a new token when the
  registry answers 401.\<close>

definition doWithAuth ::
  "oci_env \<Rightarrow> oci_upstream \<Rightarrow> auth_cache \<Rightarrow> string \<Rightarrow> string \<Rightarrow> (string \<times> string) list \<Rightarrow> string
     \<Rightarrow> (oci_error + http_reply) \<times> auth_cache" where
  "doWithAuth E u ac meth url hs0 scope0 =
     (let token = (if scope0 \<noteq> [] then GetToken (oe_now E) ac scope0 else []);
          hs = (if token \<noteq> [] then hset hs0 ''Authorization'' (''Bearer '' @ token) else hs0)
      in case oe_client E meth url hs of
           Inl e \<Rightarrow> (Inl (RequestFailed e), ac)
         | Inr resp \<Rightarrow>
             if rp_Status resp \<noteq> 401 then (Inr resp, ac)
             else let wwwAuth = rp_Header resp ''WWW-Authenticate'' in
               if wwwAuth = [] then (Inl Unauthorized, ac)
               else (case ParseWWWAuthenticate (oe_unicode E) wwwAuth of
                   None \<Rightarrow> (Inl (RequestFailed DownloadFailed), ac)
                 | Some c \<Rightarrow>
                     (let scope = (if ac_Scope c \<noteq> [] then ac_Scope c else scope0) in
                      case FetchToken (oe_libs E) (oe_client E) c (ou_username u) (ou_password u) of
                        Inl e \<Rightarrow> (Inl (RequestFailed e), ac)
                      | Inr t \<Rightarrow>
                          (case oe_client E meth url (hset hs ''Authorization'' (''Bearer '' @ tr_Token t)) of
                             Inl e \<Rightarrow> Inl (RequestFailed e)
                           | Inr resp' \<Rightarrow> Inr resp',
                           SetToken (oe_now E) scope (tr_Token t) (tr_ExpiresIn t) ac))))"

definition CheckVersion :: "oci_env \<Rightarrow> oci_upstream \<Rightarrow> auth_cache \<Rightarrow> bool \<times> auth_cache" where
  "CheckVersion E u ac =
     (case doWithAuth E u ac ''GET'' (ou_baseURL u @ ''/v2/'') [] [] of
        (Inl e, ac') \<Rightarrow> (e = Unauthorized, ac')
      | (Inr resp, ac') \<Rightarrow> (rp_Status resp = 200 \<or> rp_Status resp = 401, ac'))"

text \<open>The status of a reply: 404 is the registry's not found, anything else but 200 a failure.\<close>

definition checked :: "oci_error + http_reply \<Rightarrow> dl_error + http_reply" where
  "checked r =
     (case r of
        Inl Unauthorized \<Rightarrow> Inl DownloadFailed
      | Inl (RequestFailed e) \<Rightarrow> Inl e
      | Inr resp \<Rightarrow>
          if rp_Status resp = 404 then Inl UpstreamNotFound
          else if rp_Status resp \<noteq> 200 then Inl DownloadFailed
          else Inr resp)"

definition manifestURL :: "oci_upstream \<Rightarrow> string \<Rightarrow> string \<Rightarrow> string" where
  "manifestURL u name reference = ou_baseURL u @ ''/v2/'' @ name @ ''/manifests/'' @ reference"

definition blobURL :: "oci_upstream \<Rightarrow> string \<Rightarrow> string \<Rightarrow> string" where
  "blobURL u name d = ou_baseURL u @ ''/v2/'' @ name @ ''/blobs/'' @ d"

definition FetchManifest ::
  "oci_env \<Rightarrow> oci_upstream \<Rightarrow> auth_cache \<Rightarrow> string \<Rightarrow> string \<Rightarrow> (dl_error + (bytes \<times> string \<times> string)) \<times> auth_cache" where
  "FetchManifest E u ac name reference =
     (case doWithAuth E u ac ''GET'' (manifestURL u name reference) [(''Accept'', Join DefaultAcceptHeader '', '')]
             (BuildScope name ''pull'') of
        (r, ac') \<Rightarrow>
          (rbind (checked r)
             (\<lambda>resp. rbind (ReadAll (resp\<lparr>rp_Body := LimitReader maxManifestSize (rp_Body resp)\<rparr>))
               (\<lambda>content. Inr (content, rp_Header resp ''Content-Type'', rp_Header resp ''Docker-Content-Digest''))), ac'))"

definition HeadManifest ::
  "oci_env \<Rightarrow> oci_upstream \<Rightarrow> auth_cache \<Rightarrow> string \<Rightarrow> string \<Rightarrow> (dl_error + (string \<times> int \<times> string)) \<times> auth_cache" where
  "HeadManifest E u ac name reference =
     (case doWithAuth E u ac ''HEAD'' (manifestURL u name reference) [(''Accept'', Join DefaultAcceptHeader '', '')]
             (BuildScope name ''pull'') of
        (r, ac') \<Rightarrow>
          (rbind (checked r)
             (\<lambda>resp. Inr (rp_Header resp ''Docker-Content-Digest'', rp_ContentLength resp, rp_Header resp ''Content-Type'')), ac'))"

definition FetchBlob ::
  "oci_env \<Rightarrow> oci_upstream \<Rightarrow> auth_cache \<Rightarrow> string \<Rightarrow> string \<Rightarrow> (dl_error + http_reply) \<times> auth_cache" where
  "FetchBlob E u ac name d =
     (case doWithAuth E u ac ''GET'' (blobURL u name d) [] (BuildScope name ''pull'') of
        (r, ac') \<Rightarrow> (checked r, ac'))"

definition HeadBlob ::
  "oci_env \<Rightarrow> oci_upstream \<Rightarrow> auth_cache \<Rightarrow> string \<Rightarrow> string \<Rightarrow> (dl_error + int) \<times> auth_cache" where
  "HeadBlob E u ac name d =
     (case doWithAuth E u ac ''HEAD'' (blobURL u name d) [] (BuildScope name ''pull'') of
        (r, ac') \<Rightarrow> (rbind (checked r) (\<lambda>resp. Inr (rp_ContentLength resp)), ac'))"

end
