(* ===== verification/OciHandler.thy ===== *)
theory OciHandler
  imports Oci
begin

text \<open>
  The handler of the OCI registry protocol (\<open>protocol/oci/handler.go\<close>). Its state is the world and
  the tokens of each registry's upstream client. What it caches after the response is cached when
  its step ends.
\<close>

section \<open>Paths\<close>

text \<open>\<open>manifestRemainderRegex\<close> and \<open>blobRemainderRegex\<close>: the name is as long as possible.\<close>

definition manifestRemainder :: "string \<Rightarrow> (string \<times> string) option" where
  "manifestRemainder s =
     (if CHR 0x0A \<in> set s then None
      else map_option (\<lambda>k. (take k s, drop (k + 11) s))
        (List.find (\<lambda>k. HasPrefix (drop k s) ''/manifests/'' \<and> k + 11 < length s) (rev [1..<length s])))"

definition lowerHex :: "string \<Rightarrow> bool" where
  "lowerHex s \<longleftrightarrow> (\<forall>c\<in>set s. CHR ''0'' \<le> c \<and> c \<le> CHR ''9'' \<or> CHR ''a'' \<le> c \<and> c \<le> CHR ''f'')"

definition isBlobDigest :: "string \<Rightarrow> bool" where
  "isBlobDigest s \<longleftrightarrow>
     (HasPrefix s ''sha256:'' \<and> length s = 71 \<or> HasPrefix s ''sha512:'' \<and> length s = 135) \<and> lowerHex (drop 7 s)"

definition blobRemainder :: "string \<Rightarrow> (string \<times> string) option" where
  "blobRemainder s =
     (if CHR 0x0A \<in> set s then None
      else map_option (\<lambda>k. (take k s, drop (k + 7) s))
        (List.find (\<lambda>k. HasPrefix (drop k s) ''/blobs/'' \<and> isBlobDigest (drop (k + 7) s)) (rev [1..<length s])))"

section \<open>The handler\<close>

record route_result =
  rr_Registry :: "oci_upstream registry"
  rr_Name :: string
  rr_IndexName :: string
  rr_Reference :: string
  rr_Digest :: string
  rr_TagTTL :: int

record 'w oci =
  oc_index :: "'w oci_index"
  oc_store :: "'w store_ops"
  oc_router :: "oci_upstream registry list option"
  oc_tagTTL :: int
  oc_downloader :: bool
  oc_env :: oci_env
  oc_sha :: sha_funs
  oc_blake3 :: "bytes \<Rightarrow> hash"

text \<open>How the system, the client and the shared downloader answer one request.\<close>

record oci_run =
  or_temp :: temp_file
  or_opened :: bool
  or_written :: bool
  or_stream :: stream_sys
  or_flight :: flight
  or_ctx :: "dl_error option"

type_synonym 'w oci_state = "'w \<times> (string \<Rightarrow> auth_cache)"

definition contentDigest :: string where
  "contentDigest = ''Docker-Content-Digest''"

definition setTokens :: "'w oci_state \<Rightarrow> oci_upstream registry \<Rightarrow> auth_cache \<Rightarrow> 'w oci_state" where
  "setTokens s reg ac = (fst s, (snd s)(rg_Prefix reg := ac))"

definition upstreamError :: "dl_error \<Rightarrow> http_response" where
  "upstreamError e = (if e = UpstreamNotFound then http_Error ''not found'' 404 else http_Error ''upstream error'' 502)"

definition cacheManifest ::
  "'w oci \<Rightarrow> string \<Rightarrow> string \<Rightarrow> string \<Rightarrow> string \<Rightarrow> bytes \<Rightarrow> 'w \<Rightarrow> 'w" where
  "cacheManifest h name reference d mediaType manifest w =
     (case st_Put (oc_store h) w \<lparr>chunks = [manifest], src_fails = False\<rparr> of
        (Inl _, w1) \<Rightarrow> w1
      | (Inr hash, w1) \<Rightarrow>
          (case PutManifest (oc_index h) w1 d mediaType hash (int (length manifest)) of
             (Inl _, w2) \<Rightarrow> w2
           | (Inr _, w2) \<Rightarrow>
               if \<not> IsDigestReference reference then snd (SetTagDigest (oc_index h) w2 name reference d) else w2))"

definition cacheBlob :: "'w oci \<Rightarrow> oci_run \<Rightarrow> string \<Rightarrow> hash \<Rightarrow> int \<Rightarrow> bytes \<Rightarrow> 'w \<Rightarrow> 'w" where
  "cacheBlob h env d hash sz data w =
     (if \<not> or_opened env then w
      else case st_Put (oc_store h) w (spooled (or_temp env) data) of
          (Inl _, w1) \<Rightarrow> w1
        | (Inr _, w1) \<Rightarrow> snd (oci_PutBlob (oc_index h) w1 d hash sz))"

text \<open>The manifest that the index has for a reference: of a digest, or of a tag that was looked up
  upstream within its time to live.\<close>

definition lookupManifest :: "'w oci \<Rightarrow> 'w \<Rightarrow> route_result \<Rightarrow> cached_manifest option" where
  "lookupManifest h w rr =
     (let found = (\<lambda>d. case GetManifest (oc_index h) w d of Inl _ \<Rightarrow> None | Inr m \<Rightarrow> Some m) in
      if IsDigestReference (rr_Reference rr) then found (rr_Reference rr)
      else case GetTagDigest (oc_index h) w (rr_IndexName rr) (rr_Reference rr) of
          Inl _ \<Rightarrow> None
        | Inr (d, refreshedAt) \<Rightarrow> if oe_now (oc_env h) - refreshedAt < rr_TagTTL rr then found d else None)"

definition fetchManifestFor ::
  "'w oci \<Rightarrow> oci_run \<Rightarrow> 'w oci_state \<Rightarrow> route_result \<Rightarrow> http_response \<times> 'w oci_state" where
  "fetchManifestFor h env s rr =
     (case FetchManifest (oc_env h) (rg_Upstream (rr_Registry rr)) (snd s (rg_Prefix (rr_Registry rr))) (rr_Name rr)
             (rr_Reference rr) of
        (Inl e, ac) \<Rightarrow> (upstreamError e, setTokens s (rr_Registry rr) ac)
      | (Inr (manifest, mediaType, upstreamDigest), ac) \<Rightarrow>
          (let s1 = setTokens s (rr_Registry rr) ac;
               mismatch = (IsDigestReference (rr_Reference rr)
                 \<and> (case ParseDigest (oe_unicode (oc_env h)) (rr_Reference rr) of
                      Inl _ \<Rightarrow> False
                    | Inr d \<Rightarrow> Digest_Verify (oc_sha h) d manifest \<noteq> Inr ()))
           in if mismatch then (http_Error ''digest mismatch'' 502, s1)
              else (reply 200 [(''Content-Type'', mediaType), (contentDigest, upstreamDigest)] manifest,
                    if or_written env
                    then (cacheManifest h (rr_IndexName rr) (rr_Reference rr) upstreamDigest mediaType manifest (fst s1), snd s1)
                    else s1)))"

definition handleGetManifest ::
  "'w oci \<Rightarrow> oci_run \<Rightarrow> 'w oci_state \<Rightarrow> route_result \<Rightarrow> http_response \<times> 'w oci_state" where
  "handleGetManifest h env s rr =
     (case lookupManifest h (fst s) rr of
        None \<Rightarrow> fetchManifestFor h env s rr
      | Some m \<Rightarrow>
          (case st_Get (oc_store h) (fst s) (cm_ContentHash m) of
             (Inr d, w1) \<Rightarrow> (reply 200 [(''Content-Type'', cm_MediaType m), (contentDigest, cm_Digest m)] d, w1, snd s)
           | (Inl _, w1) \<Rightarrow> fetchManifestFor h env (w1, snd s) rr))"

definition handleHeadManifest :: "'w oci \<Rightarrow> 'w oci_state \<Rightarrow> route_result \<Rightarrow> http_response \<times> 'w oci_state" where
  "handleHeadManifest h s rr =
     (case lookupManifest h (fst s) rr of
        Some m \<Rightarrow>
          (reply 200 [(''Content-Type'', cm_MediaType m), (contentDigest, cm_Digest m),
             (''Content-Length'', FormatInt (cm_Size m))] [], s)
      | None \<Rightarrow>
          (case HeadManifest (oc_env h) (rg_Upstream (rr_Registry rr)) (snd s (rg_Prefix (rr_Registry rr))) (rr_Name rr)
                  (rr_Reference rr) of
             (Inl e, ac) \<Rightarrow> (upstreamError e, setTokens s (rr_Registry rr) ac)
           | (Inr (d, sz, mediaType), ac) \<Rightarrow>
               (reply 200
                  ((if mediaType \<noteq> [] then [(''Content-Type'', mediaType)] else [])
                   @ [(contentDigest, d)] @ (if sz > 0 then [(''Content-Length'', FormatInt sz)] else [])) [],
                setTokens s (rr_Registry rr) ac)))"

definition fetchAndStoreBlob ::
  "'w oci \<Rightarrow> oci_run \<Rightarrow> oci_upstream registry \<Rightarrow> string \<Rightarrow> string \<Rightarrow> 'w oci_state
     \<Rightarrow> (dl_error + dl_result) \<times> 'w oci_state" where
  "fetchAndStoreBlob h env reg name digestStr s =
     (case FetchBlob (oc_env h) (rg_Upstream reg) (snd s (rg_Prefix reg)) name digestStr of
        (Inl e, ac) \<Rightarrow> (Inl e, setTokens s reg ac)
      | (Inr resp, ac) \<Rightarrow>
          (let s1 = setTokens s reg ac in
           case ParseDigest (oe_unicode (oc_env h)) digestStr of
             Inl _ \<Rightarrow> (Inl DownloadFailed, s1)
           | Inr expected \<Rightarrow>
               if \<not> tf_create (or_temp env) then (Inl DownloadFailed, s1)
               else (case Digest_NewHasher (oc_sha h) expected of
                   Inl _ \<Rightarrow> (Inl DownloadFailed, s1)
                 | Inr hasher \<Rightarrow>
                     (case spool (or_temp env) resp of
                        Inl e \<Rightarrow> (Inl (spoolError e), s1)
                      | Inr data \<Rightarrow>
                          if hex_encode (hasher data) \<noteq> dg_Hex expected then (Inl DownloadFailed, s1)
                          else (Inr \<lparr>dr_Hash = oc_blake3 h data, dr_Size = int (length data)\<rparr>,
                                cacheBlob h env digestStr (oc_blake3 h data) (int (length data)) data (fst s1), snd s1)))))"

definition liftStore :: "'w store_ops \<Rightarrow> ('w \<times> 't) store_ops" where
  "liftStore st =
     \<lparr>st_Put = (\<lambda>s r. case st_Put st (fst s) r of (x, w) \<Rightarrow> (x, w, snd s)),
      st_Get = (\<lambda>s h. case st_Get st (fst s) h of (x, w) \<Rightarrow> (x, w, snd s)),
      st_Has = (\<lambda>s h. st_Has st (fst s) h),
      st_Delete = (\<lambda>s h. case st_Delete st (fst s) h of (x, w) \<Rightarrow> (x, w, snd s)),
      st_Size = (\<lambda>s h. st_Size st (fst s) h)\<rparr>"

definition handleGetBlobWithDownloader ::
  "'w oci \<Rightarrow> oci_run \<Rightarrow> 'w oci_state \<Rightarrow> http_request \<Rightarrow> route_result \<Rightarrow> http_response \<times> 'w oci_state" where
  "handleGetBlobWithDownloader h env s r rr =
     (case Do (fetchAndStoreBlob h env (rr_Registry rr) (rr_Name rr) (rr_Digest rr)) (or_flight env) (or_ctx env) s of
        (res, _, s1) \<Rightarrow>
          (case HandleResult (\<lambda>e. e = UpstreamNotFound) None
                  \<lparr>so_ContentType = ''application/octet-stream'', so_ExtraHeaders = [(contentDigest, rr_Digest rr)]\<rparr>
                  (liftStore (oc_store h)) r res s1 of
             (resp, _, s2) \<Rightarrow> (resp, s2)))"

definition handleGetBlobDirect ::
  "'w oci \<Rightarrow> oci_run \<Rightarrow> 'w oci_state \<Rightarrow> http_request \<Rightarrow> route_result \<Rightarrow> http_response \<times> 'w oci_state" where
  "handleGetBlobDirect h env s r rr =
     (case FetchBlob (oc_env h) (rg_Upstream (rr_Registry rr)) (snd s (rg_Prefix (rr_Registry rr))) (rr_Name rr) (rr_Digest rr) of
        (Inl e, ac) \<Rightarrow> (upstreamError e, setTokens s (rr_Registry rr) ac)
      | (Inr resp, ac) \<Rightarrow>
          (let s1 = setTokens s (rr_Registry rr) ac in
           case ParseDigest (oe_unicode (oc_env h)) (rr_Digest rr) of
             Inl _ \<Rightarrow> (http_Error ''invalid digest'' 400, s1)
           | Inr expected \<Rightarrow>
               (case Digest_NewHasher (oc_sha h) expected of
                  Inl _ \<Rightarrow> (http_Error ''unsupported digest'' 400, s1)
                | Inr hasher \<Rightarrow>
                    (case StreamThrough (oc_blake3 h) (or_stream env) r (rp_Body resp)
                            \<lparr>sto_ContentType = ''application/octet-stream'', sto_ExtraHeaders = [(contentDigest, rr_Digest rr)],
                             sto_ContentLength = rp_ContentLength resp\<rparr>
                            (\<lambda>result tmp w.
                               if hex_encode (hasher tmp) \<noteq> dg_Hex expected then (False, w)
                               else (True, cacheBlob h env (rr_Digest rr) (dr_Hash result) (dr_Size result) tmp w))
                            (fst s1) of
                       (response, _, _, w1) \<Rightarrow> (response, w1, snd s1)))))"

definition handleGetBlob ::
  "'w oci \<Rightarrow> oci_run \<Rightarrow> 'w oci_state \<Rightarrow> http_request \<Rightarrow> route_result \<Rightarrow> http_response \<times> 'w oci_state" where
  "handleGetBlob h env s r rr =
     (let miss = (\<lambda>s. if oc_downloader h then handleGetBlobWithDownloader h env s r rr else handleGetBlobDirect h env s r rr) in
      case oci_GetBlob (oc_index h) (fst s) (rr_Digest rr) of
        Inl _ \<Rightarrow> miss s
      | Inr cached \<Rightarrow>
          (case st_Get (oc_store h) (fst s) (cb_ContentHash cached) of
             (Inr d, w1) \<Rightarrow>
               (reply 200
                  ([(''Content-Type'', ''application/octet-stream''), (contentDigest, rr_Digest rr)]
                   @ (if cb_Size cached > 0 then [(''Content-Length'', FormatInt (cb_Size cached))] else [])) d, w1, snd s)
           | (Inl _, w1) \<Rightarrow> miss (w1, snd s)))"

definition handleHeadBlob :: "'w oci \<Rightarrow> 'w oci_state \<Rightarrow> route_result \<Rightarrow> http_response \<times> 'w oci_state" where
  "handleHeadBlob h s rr =
     (case oci_GetBlob (oc_index h) (fst s) (rr_Digest rr) of
        Inr cached \<Rightarrow>
          (reply 200 [(''Content-Type'', ''application/octet-stream''), (contentDigest, rr_Digest rr),
             (''Content-Length'', FormatInt (cb_Size cached))] [], s)
      | Inl _ \<Rightarrow>
          (case HeadBlob (oc_env h) (rg_Upstream (rr_Registry rr)) (snd s (rg_Prefix (rr_Registry rr))) (rr_Name rr) (rr_Digest rr) of
             (Inl e, ac) \<Rightarrow> (upstreamError e, setTokens s (rr_Registry rr) ac)
           | (Inr sz, ac) \<Rightarrow>
               (reply 200
                  ([(''Content-Type'', ''application/octet-stream''), (contentDigest, rr_Digest rr)]
                   @ (if sz > 0 then [(''Content-Length'', FormatInt sz)] else [])) [],
                setTokens s (rr_Registry rr) ac)))"

definition handleVersionCheck :: http_response where
  "handleVersionCheck =
     reply 200 [(''Content-Type'', ''application/json''), (''Docker-Distribution-API-Version'', ''registry/2.0'')] ''{}''"

definition oci_ServeHTTP :: "'w oci \<Rightarrow> oci_run \<Rightarrow> 'w oci_state \<Rightarrow> http_request \<Rightarrow> http_response \<times> 'w oci_state" where
  "oci_ServeHTTP h env s r =
     (if rq_Method r \<noteq> ''GET'' \<and> rq_Method r \<noteq> ''HEAD'' then (http_Error ''method not allowed'' 405, s)
      else if rq_Path r = ''/v2/'' \<or> rq_Path r = ''/v2'' then (handleVersionCheck, s)
      else case oc_router h of
          None \<Rightarrow> (http_Error ''no registry configured'' 500, s)
        | Some router \<Rightarrow>
            (case oci_Route router (rq_Path r) of
               None \<Rightarrow> (http_Error ''not found'' 404, s)
             | Some (reg, remainder) \<Rightarrow>
                 (let tagTTL = (if rg_TagTTL reg > 0 then rg_TagTTL reg else oc_tagTTL h) in
                  case manifestRemainder remainder of
                    Some (name, reference) \<Rightarrow>
                      (let rr = \<lparr>rr_Registry = reg, rr_Name = name, rr_IndexName = rg_Prefix reg @ ''/'' @ name,
                                 rr_Reference = reference, rr_Digest = [], rr_TagTTL = tagTTL\<rparr>
                       in if rq_Method r = ''HEAD'' then handleHeadManifest h s rr else handleGetManifest h env s rr)
                  | None \<Rightarrow>
                      (case blobRemainder remainder of
                         Some (name, d) \<Rightarrow>
                           (let rr = \<lparr>rr_Registry = reg, rr_Name = name, rr_IndexName = rg_Prefix reg @ ''/'' @ name,
                                      rr_Reference = [], rr_Digest = d, rr_TagTTL = tagTTL\<rparr>
                            in if rq_Method r = ''HEAD'' then handleHeadBlob h s rr else handleGetBlob h env s r rr)
                       | None \<Rightarrow> (http_Error ''not found'' 404, s)))))"

section \<open>Over any store\<close>

context cache_world
begin

text \<open>A handler over this world. A Go hash has 32 bytes, so what decodes as one is a hash.\<close>

definition oci_on :: "'w oci \<Rightarrow> bool" where
  "oci_on h \<longleftrightarrow> oi_es (oc_index h) = es \<and> oc_store h = st \<and> oc_blake3 h = blake3
     \<and> json_ok (oi_manifestJSON (oc_index h)) \<and> json_ok (oi_blobJSON (oc_index h)) \<and> json_ok (oi_imageJSON (oc_index h))
     \<and> (\<forall>b m. j_dec (oi_manifestJSON (oc_index h)) b = Some m \<longrightarrow> is_hash (cm_ContentHash m))
     \<and> (\<forall>b m. j_dec (oi_blobJSON (oc_index h)) b = Some m \<longrightarrow> is_hash (cb_ContentHash m))
     \<and> index_ok (oi_manifests (oc_index h)) \<and> index_ok (oi_blobs (oc_index h)) \<and> index_ok (oi_images (oc_index h))"

lemma oci_index_cong:
  assumes "oi_es x = es" "\<And>p kd k. es_Get es w' p kd k = es_Get es w p kd k"
  shows "GetManifest x w' d = GetManifest x w d" "oci_GetBlob x w' d = oci_GetBlob x w d"
    "GetTagDigest x w' n t = GetTagDigest x w n t"
  using assms(1)
  by (simp_all add: GetManifest_def oci_GetBlob_def GetTagDigest_def EI_GetJSON_cong [of w' w, OF assms(2)])

text \<open>Caching a manifest: it is found under the digest that the registry named, whatever its content
  is, if the database takes the entry.\<close>

lemma PutManifest_spec:
  assumes x: "oi_es x = es" "json_ok (oi_manifestJSON x)" "index_ok (oi_manifests x)" and inv: "inv w"
    and put: "PutManifest x w d mt h sz = (r, w')"
  shows "inv w' \<and> content w' = content w \<and> (healthy w' \<longleftrightarrow> healthy w)
    \<and> (case r of
         Inl _ \<Rightarrow> w' = w
       | Inr _ \<Rightarrow> GetManifest x w' d = Inr \<lparr>cm_Digest = d, cm_MediaType = mt, cm_ContentHash = h, cm_Size = sz, cm_CachedAt = oi_now x\<rparr>
           \<and> (\<forall>d'. encodeDigest (oi_unicode x) d' \<noteq> encodeDigest (oi_unicode x) d \<longrightarrow> GetManifest x w' d' = GetManifest x w d'))"
  using index_json_put_get [OF x(3,2) inv put [unfolded PutManifest_def x(1)]] x(1)
  by (auto simp: GetManifest_def split: sum.splits)

lemma oci_PutBlob_spec:
  assumes x: "oi_es x = es" "json_ok (oi_blobJSON x)" "index_ok (oi_blobs x)" and inv: "inv w"
    and put: "oci_PutBlob x w d h sz = (r, w')"
  shows "inv w' \<and> content w' = content w \<and> (healthy w' \<longleftrightarrow> healthy w)
    \<and> (case r of
         Inl _ \<Rightarrow> w' = w
       | Inr _ \<Rightarrow> oci_GetBlob x w' d = Inr \<lparr>cb_Digest = d, cb_ContentHash = h, cb_Size = sz, cb_CachedAt = oi_now x\<rparr>
           \<and> (\<forall>d'. encodeDigest (oi_unicode x) d' \<noteq> encodeDigest (oi_unicode x) d \<longrightarrow> oci_GetBlob x w' d' = oci_GetBlob x w d'))"
  using index_json_put_get [OF x(3,2) inv put [unfolded oci_PutBlob_def x(1)]] x(1)
  by (auto simp: oci_GetBlob_def split: sum.splits)

text \<open>Storing in one index leaves the others alone.\<close>

definition oci_apart :: "'w oci_index \<Rightarrow> bool" where
  "oci_apart x \<longleftrightarrow> distinct (map (\<lambda>i. (ix_protocol i, ix_kind i)) [oi_images x, oi_manifests x, oi_blobs x])"

lemma GetBlob_frame:
  fixes j :: "'v json_codec"
  assumes x: "oi_es x = es" "index_ok (oi_blobs x)" "oci_apart x" and inv: "inv w"
    and put: "EI_PutJSON (j_enc j) es i now w key v refs = (r, w')" "index_ok i" "i = oi_images x \<or> i = oi_manifests x"
  shows "oci_GetBlob x w' d = oci_GetBlob x w d"
proof -
  have "EI_Get es (oi_blobs x) w' k = EI_Get es (oi_blobs x) w k" for k
    using index_json_put [OF put(2) inv put(1)] index_ok_id [OF x(2), of k] x(3) put(3)
    by (cases r) (auto simp: oci_apart_def)
  then show ?thesis using x(1) by (simp add: oci_GetBlob_def EI_GetJSON_def)
qed

text \<open>Every blob that the index has under a digest is content with that digest.\<close>

definition blobsVerified :: "'w oci \<Rightarrow> 'w \<Rightarrow> bool" where
  "blobsVerified h w \<longleftrightarrow>
     (\<forall>d p b. ParseDigest (oi_unicode (oc_index h)) d = Inr p \<longrightarrow> oci_GetBlob (oc_index h) w d = Inr b \<longrightarrow>
        (\<exists>data. Digest_Verify (oc_sha h) p data = Inr () \<and> cb_ContentHash b = blake3 data))"

lemma blobsVerified_cong: "(\<And>d. oci_GetBlob (oc_index h) w' d = oci_GetBlob (oc_index h) w d) \<Longrightarrow> blobsVerified h w \<Longrightarrow> blobsVerified h w'"
  by (simp add: blobsVerified_def)

lemma encodeDigest_inject:
  assumes "ParseDigest U d = Inr p" "ParseDigest U d' = Inr p'" "encodeDigest U d = encodeDigest U d'"
  shows "p = p'"
proof -
  have "dg_Algorithm p \<in> {''sha256'', ''sha512''}" "dg_Algorithm p' \<in> {''sha256'', ''sha512''}"
    using assms(1,2) by (auto simp: ParseDigest_Inr)
  then show ?thesis using assms by (auto simp: encodeDigest_def intro: digest.equality)
qed

lemma cacheBlob_spec:
  assumes h: "oci_on h" and inv: "inv w" "blobsVerified h w"
    and d: "ParseDigest (oi_unicode (oc_index h)) d = Inr p" "Digest_Verify (oc_sha h) p data = Inr ()"
  shows "inv (cacheBlob h env d (blake3 data) sz data w) \<and> blobsVerified h (cacheBlob h env d (blake3 data) sz data w)"
proof (cases "or_opened env")
  case False
  then show ?thesis using inv by (simp add: cacheBlob_def)
next
  case True
  have on: "oi_es (oc_index h) = es" "oc_store h = st" "json_ok (oi_blobJSON (oc_index h))" "index_ok (oi_blobs (oc_index h))"
    using h by (simp_all add: oci_on_def)
  obtain pres w1 where p: "st_Put st w (spooled (or_temp env) data) = (pres, w1)" by fastforce
  note pb = put_blob [OF inv(1) p]
  have "oci_GetBlob (oc_index h) w1 d' = oci_GetBlob (oc_index h) w d'" for d'
    by (rule oci_index_cong [OF on(1)]) (use pb in blast)
  then have 1: "inv w1" "blobsVerified h w1" using pb inv(2) blobsVerified_cong by simp_all
  show ?thesis
  proof (cases pres)
    case (Inl e)
    then show ?thesis using True p on(2) 1 by (simp add: cacheBlob_def)
  next
    case (Inr y)
    obtain r w2 where q: "oci_PutBlob (oc_index h) w1 d (blake3 data) sz = (r, w2)" by fastforce
    note ps = oci_PutBlob_spec [OF on(1,3,4) 1(1) q]
    have "blobsVerified h w2"
    proof (cases r)
      case (Inl e)
      then show ?thesis using ps 1(2) by simp
    next
      case u: (Inr u)
      show ?thesis unfolding blobsVerified_def
      proof (intro allI impI)
        fix d' p' b
        assume d': "ParseDigest (oi_unicode (oc_index h)) d' = Inr p'" "oci_GetBlob (oc_index h) w2 d' = Inr b"
        show "\<exists>data. Digest_Verify (oc_sha h) p' data = Inr () \<and> cb_ContentHash b = blake3 data"
        proof (cases "encodeDigest (oi_unicode (oc_index h)) d' = encodeDigest (oi_unicode (oc_index h)) d")
          case True
          then have "p' = p" using encodeDigest_inject [OF d'(1) d(1)] by simp
          moreover have "oci_GetBlob (oc_index h) w2 d' = oci_GetBlob (oc_index h) w2 d" using True by (simp add: oci_GetBlob_def)
          ultimately show ?thesis using ps u d' d(2) by (intro exI [of _ data]) simp
        next
          case False
          then show ?thesis using ps u d' 1(2) by (simp add: blobsVerified_def)
        qed
      qed
    qed
    then show ?thesis using True p on(2) Inr q ps by (simp add: cacheBlob_def)
  qed
qed

lemma cacheManifest_spec:
  assumes h: "oci_on h" "oci_apart (oc_index h)" and inv: "inv w" "blobsVerified h w"
  shows "inv (cacheManifest h n ref d mt m w) \<and> blobsVerified h (cacheManifest h n ref d mt m w)"
proof -
  let ?x = "oc_index h"
  have on: "oi_es ?x = es" "oc_store h = st" "index_ok (oi_blobs ?x)" "index_ok (oi_manifests ?x)" "index_ok (oi_images ?x)"
    "json_ok (oi_manifestJSON ?x)" "json_ok (oi_imageJSON ?x)"
    using h(1) by (simp_all add: oci_on_def)
  obtain pres w1 where p: "st_Put st w \<lparr>chunks = [m], src_fails = False\<rparr> = (pres, w1)" by fastforce
  note pb = put_blob [OF inv(1) p]
  have "oci_GetBlob ?x w1 d' = oci_GetBlob ?x w d'" for d'
    by (rule oci_index_cong [OF on(1)]) (use pb in blast)
  then have 1: "inv w1" "blobsVerified h w1" using pb inv(2) blobsVerified_cong by simp_all
  obtain r w2 where q: "PutManifest ?x w1 d mt (case pres of Inr y \<Rightarrow> y | Inl _ \<Rightarrow> undefined) (int (length m)) = (r, w2)" by fastforce
  have 2: "inv w2" "blobsVerified h w2"
    using PutManifest_spec [OF on(1,6,4) 1(1) q] 1(2)
      blobsVerified_cong [OF GetBlob_frame [OF on(1,3) h(2) 1(1) q [unfolded PutManifest_def on(1)] on(4)]] by auto
  have 3: "inv (snd (SetTagDigest ?x w2 n ref d)) \<and> blobsVerified h (snd (SetTagDigest ?x w2 n ref d))"
  proof (cases "\<exists>v. SetTagDigest ?x w2 n ref d
      = EI_PutJSON (j_enc (oi_imageJSON ?x)) es (oi_images ?x) (oi_now ?x) w2 (encodeImageName n) v []")
    case False
    then show ?thesis
      using 2 on(1) by (auto simp: SetTagDigest_def Let_def collectImageBlobRefs_def split: sum.splits)
  next
    case True
    then obtain v r3 w3 where q3: "SetTagDigest ?x w2 n ref d = (r3, w3)"
      "EI_PutJSON (j_enc (oi_imageJSON ?x)) es (oi_images ?x) (oi_now ?x) w2 (encodeImageName n) v [] = (r3, w3)"
      by (metis prod.exhaust)
    show ?thesis
      using index_json_put [OF on(5) 2(1) q3(2)] q3(1)
        blobsVerified_cong [OF GetBlob_frame [OF on(1,3) h(2) 2(1) q3(2) on(5)] 2(2)] by simp
  qed
  show ?thesis
    using p q on(2) 1 2 3 by (auto simp: cacheManifest_def split: sum.splits prod.splits)
qed

text \<open>What a handler keeps: the world and the verified blobs, whatever the registry, the system and
  other downloads do.\<close>

definition oci_safe :: "'w oci \<Rightarrow> 'w oci_state \<Rightarrow> bool" where
  "oci_safe h s \<longleftrightarrow> inv (fst s) \<and> blobsVerified h (fst s)"

lemma oci_safe_simps [simp]:
  "oci_safe h (setTokens s reg ac) = oci_safe h s" "fst (setTokens s reg ac) = fst s"
  by (simp_all add: oci_safe_def setTokens_def)

definition oci_run_ok :: "oci_run \<Rightarrow> bool" where
  "oci_run_ok env \<longleftrightarrow> (\<forall>r. or_flight env = Joins (Inr r) \<longrightarrow> is_hash (dr_Hash r))"

lemma st_Get_safe:
  assumes h: "oci_on h" and s: "oci_safe h s" and x: "is_hash x" and g: "st_Get (oc_store h) (fst s) x = (r, w1)"
  shows "oci_safe h (w1, t)"
proof -
  have on: "oi_es (oc_index h) = es" "oc_store h = st" using h by (simp_all add: oci_on_def)
  note gb = get_blob [OF _ x g [unfolded on(2)]]
  have "oci_GetBlob (oc_index h) w1 d = oci_GetBlob (oc_index h) (fst s) d" for d
    by (rule oci_index_cong [OF on(1)]) (use gb s in \<open>simp add: oci_safe_def\<close>)
  then show ?thesis using gb s blobsVerified_cong by (simp add: oci_safe_def)
qed

lemma found_hash:
  "oci_on h \<Longrightarrow> GetManifest (oc_index h) w d = Inr m \<Longrightarrow> is_hash (cm_ContentHash m)"
  "oci_on h \<Longrightarrow> oci_GetBlob (oc_index h) w d = Inr b \<Longrightarrow> is_hash (cb_ContentHash b)"
  by (auto simp: GetManifest_def oci_GetBlob_def oci_on_def EI_GetJSON_def rbind_eq_Inr split: sum.splits option.splits)

lemma lookupManifest_hash: "oci_on h \<Longrightarrow> lookupManifest h w rr = Some m \<Longrightarrow> is_hash (cm_ContentHash m)"
  by (auto simp: lookupManifest_def Let_def split: sum.splits if_splits dest: found_hash)

lemma fetchManifestFor_safe:
  assumes h: "oci_on h" "oci_apart (oc_index h)" and s: "oci_safe h s"
  shows "oci_safe h (snd (fetchManifestFor h env s rr))"
  using s cacheManifest_spec [OF h, of "fst s"]
  by (auto simp: fetchManifestFor_def Let_def split: sum.splits prod.splits) (simp_all add: oci_safe_def)

lemma handleGetManifest_safe:
  assumes h: "oci_on h" "oci_apart (oc_index h)" and s: "oci_safe h s"
  shows "oci_safe h (snd (handleGetManifest h env s rr))"
  using s fetchManifestFor_safe [OF h] st_Get_safe [OF h(1) s lookupManifest_hash [OF h(1)]]
  by (auto simp: handleGetManifest_def split: option.splits sum.splits prod.splits)

lemma fetchAndStoreBlob_safe:
  assumes h: "oci_on h" "oi_unicode (oc_index h) = oe_unicode (oc_env h)" "digest_ok blake3" and s: "oci_safe h s"
    and run: "fetchAndStoreBlob h env reg n d s = (res, s')"
  shows "oci_safe h s' \<and> (\<forall>r. res = Inr r \<longrightarrow> is_hash (dr_Hash r))"
proof (cases "\<exists>resp ac p hasher data. FetchBlob (oc_env h) (rg_Upstream reg) (snd s (rg_Prefix reg)) n d = (Inr resp, ac)
    \<and> ParseDigest (oe_unicode (oc_env h)) d = Inr p \<and> tf_create (or_temp env) \<and> Digest_NewHasher (oc_sha h) p = Inr hasher
    \<and> spool (or_temp env) resp = Inr data \<and> hex_encode (hasher data) = dg_Hex p")
  case False
  then show ?thesis
    using s run by (auto simp: fetchAndStoreBlob_def Let_def split: sum.splits prod.splits if_splits)
next
  case True
  then obtain resp ac p hasher data where
    g: "FetchBlob (oc_env h) (rg_Upstream reg) (snd s (rg_Prefix reg)) n d = (Inr resp, ac)"
      "ParseDigest (oe_unicode (oc_env h)) d = Inr p" "tf_create (or_temp env)" "Digest_NewHasher (oc_sha h) p = Inr hasher"
      "spool (or_temp env) resp = Inr data" "hex_encode (hasher data) = dg_Hex p" by blast
  have v: "Digest_Verify (oc_sha h) p data = Inr ()"
    using g(4,6) by (auto simp: Digest_Verify_Inr Digest_NewHasher_def split: if_splits)
  have b: "oc_blake3 h = blake3" using h(1) by (simp add: oci_on_def)
  show ?thesis
    using run g b h(3) s cacheBlob_spec [OF h(1) _ _ _ v, of "fst s" d env "int (length data)"] h(2)
    by (auto simp: fetchAndStoreBlob_def Let_def oci_safe_def digest_ok_def)
qed

lemma ServeFromStore_lift:
  "ServeFromStore (liftStore S) s r result opts =
     (case ServeFromStore S (fst s) r result opts of (resp, w) \<Rightarrow> (resp, w, snd s))"
  by (auto simp: ServeFromStore_def liftStore_def split: prod.splits sum.splits)

lemma handleGetBlobWithDownloader_safe:
  assumes h: "oci_on h" "oi_unicode (oc_index h) = oe_unicode (oc_env h)" "digest_ok blake3" and s: "oci_safe h s"
    and env: "oci_run_ok env"
  shows "oci_safe h (snd (handleGetBlobWithDownloader h env s r rr))"
proof -
  obtain res rec s1 where do: "Do (fetchAndStoreBlob h env (rr_Registry rr) (rr_Name rr) (rr_Digest rr)) (or_flight env) (or_ctx env) s
      = (res, rec, s1)" by (metis prod.exhaust)
  obtain fres s0 where f: "fetchAndStoreBlob h env (rr_Registry rr) (rr_Name rr) (rr_Digest rr) s = (fres, s0)" by (metis prod.exhaust)
  note fs = fetchAndStoreBlob_safe [OF h s f]
  have 1: "oci_safe h s1" "\<And>x. res = Inr x \<Longrightarrow> is_hash (dr_Hash x)"
    using do f fs s env by (auto simp: Do_def Let_def oci_run_ok_def split: flight.splits option.splits)
  have st: "oc_store h = st" using h(1) by (simp add: oci_on_def)
  show ?thesis
  proof (cases res)
    case (Inl e)
    then show ?thesis using do 1 by (auto simp: handleGetBlobWithDownloader_def HandleResult_def)
  next
    case (Inr x)
    obtain resp w2 where srv: "ServeFromStore (oc_store h) (fst s1) r x
        \<lparr>so_ContentType = ''application/octet-stream'', so_ExtraHeaders = [(contentDigest, rr_Digest rr)]\<rparr> = (resp, w2)"
      by fastforce
    have "inv (fst s1)" using 1 by (simp add: oci_safe_def)
    note ss = ServeFromStore_spec [OF this 1(2) [OF Inr] srv [unfolded st]]
    have "oci_GetBlob (oc_index h) w2 d = oci_GetBlob (oc_index h) (fst s1) d" for d
      by (rule oci_index_cong) (use ss h(1) in \<open>auto simp: oci_on_def\<close>)
    then have "oci_safe h (w2, snd s1)" using ss 1(1) blobsVerified_cong by (simp add: oci_safe_def)
    then show ?thesis
      using do Inr srv by (simp add: handleGetBlobWithDownloader_def HandleResult_def ServeFromStore_lift)
  qed
qed

lemma handleGetBlobDirect_safe:
  assumes h: "oci_on h" "oi_unicode (oc_index h) = oe_unicode (oc_env h)" and s: "oci_safe h s"
  shows "oci_safe h (snd (handleGetBlobDirect h env s r rr))"
proof (cases "\<exists>resp ac p hasher. FetchBlob (oc_env h) (rg_Upstream (rr_Registry rr)) (snd s (rg_Prefix (rr_Registry rr))) (rr_Name rr) (rr_Digest rr)
    = (Inr resp, ac) \<and> ParseDigest (oe_unicode (oc_env h)) (rr_Digest rr) = Inr p \<and> Digest_NewHasher (oc_sha h) p = Inr hasher")
  case False
  then show ?thesis using s by (auto simp: handleGetBlobDirect_def Let_def split: sum.splits prod.splits)
next
  case True
  then obtain resp ac p hasher where
    g: "FetchBlob (oc_env h) (rg_Upstream (rr_Registry rr)) (snd s (rg_Prefix (rr_Registry rr))) (rr_Name rr) (rr_Digest rr) = (Inr resp, ac)"
      "ParseDigest (oe_unicode (oc_env h)) (rr_Digest rr) = Inr p" "Digest_NewHasher (oc_sha h) p = Inr hasher" by blast
  have b: "oc_blake3 h = blake3" using h(1) by (simp add: oci_on_def)
  let ?data = "concat (chunks (rp_Body resp))"
  let ?f = "\<lambda>result tmp w. if hex_encode (hasher tmp) \<noteq> dg_Hex p then (False, w)
      else (True, cacheBlob h env (rr_Digest rr) (dr_Hash result) (dr_Size result) tmp w)"
  obtain response err tmp w1 where sth: "StreamThrough (oc_blake3 h) (or_stream env) r (rp_Body resp)
      \<lparr>sto_ContentType = ''application/octet-stream'', sto_ExtraHeaders = [(contentDigest, rr_Digest rr)],
       sto_ContentLength = rp_ContentLength resp\<rparr> ?f (fst s) = (response, err, tmp, w1)" by (rule prod_cases4)
  have "inv w1 \<and> blobsVerified h w1"
  proof (cases "w1 = fst s \<or> hex_encode (hasher ?data) \<noteq> dg_Hex p")
    case True
    then show ?thesis using StreamThrough_state [OF sth] s by (auto simp: oci_safe_def)
  next
    case False
    then have v: "Digest_Verify (oc_sha h) p ?data = Inr ()"
      using g(3) by (auto simp: Digest_Verify_Inr Digest_NewHasher_def split: if_splits)
    have "w1 = cacheBlob h env (rr_Digest rr) (blake3 ?data) (int (length ?data)) ?data (fst s)"
      using StreamThrough_state [OF sth] False b by auto
    then show ?thesis using cacheBlob_spec [OF h(1) _ _ _ v] g(2) h(2) s by (simp add: oci_safe_def)
  qed
  then show ?thesis using g sth by (simp add: handleGetBlobDirect_def Let_def oci_safe_def setTokens_def)
qed

lemma oci_ServeHTTP_safe:
  assumes h: "oci_on h" "oci_apart (oc_index h)" "oi_unicode (oc_index h) = oe_unicode (oc_env h)" "digest_ok blake3"
    and s: "oci_safe h s" and env: "oci_run_ok env"
  shows "oci_safe h (snd (oci_ServeHTTP h env s r))"
proof -
  have blob: "oci_safe h (snd (handleGetBlob h env s r rr))" for rr
    using s handleGetBlobWithDownloader_safe [OF h(1,3,4) _ env] handleGetBlobDirect_safe [OF h(1,3)]
      st_Get_safe [OF h(1) s found_hash(2) [OF h(1)]]
    by (auto simp: handleGetBlob_def Let_def split: sum.splits prod.splits)
  have head: "oci_safe h (snd (handleHeadManifest h s rr))" "oci_safe h (snd (handleHeadBlob h s rr))" for rr
    using s by (auto simp: handleHeadManifest_def handleHeadBlob_def split: option.splits sum.splits prod.splits)
  show ?thesis
    using s blob head handleGetManifest_safe [OF h(1,2) s]
    by (auto simp: oci_ServeHTTP_def Let_def split: option.splits)
qed

text \<open>A manifest that is fetched for a tag is cached under the digest that the registry names, without
  comparing it, and from then on served for that digest, to every name and registry.\<close>

lemma cacheManifest_found:
  assumes h: "oci_on h" "oci_apart (oc_index h)" and inv: "inv w"
    and took: "GetManifest (oc_index h) (cacheManifest h n ref d mt m w) d \<noteq> GetManifest (oc_index h) w d"
  shows "inv (cacheManifest h n ref d mt m w) \<and> (healthy w \<longrightarrow> healthy (cacheManifest h n ref d mt m w))
    \<and> is_hash (blake3 m)
    \<and> (\<exists>t. GetManifest (oc_index h) (cacheManifest h n ref d mt m w) d = Inr \<lparr>cm_Digest = d, cm_MediaType = mt,
          cm_ContentHash = blake3 m, cm_Size = int (length m), cm_CachedAt = t\<rparr>)
    \<and> (\<exists>c. content (cacheManifest h n ref d mt m w) (blake3 m) = Some c \<and> blake3 c = blake3 m
          \<and> (content w (blake3 m) = None \<longrightarrow> c = m))"
proof -
  let ?x = "oc_index h"
  have on: "oi_es ?x = es" "oc_store h = st" "index_ok (oi_manifests ?x)" "index_ok (oi_images ?x)"
    "json_ok (oi_manifestJSON ?x)" "json_ok (oi_imageJSON ?x)"
    using h(1) by (simp_all add: oci_on_def)
  obtain pres w1 where p: "st_Put st w \<lparr>chunks = [m], src_fails = False\<rparr> = (pres, w1)" by fastforce
  note pb = put_blob [OF inv p]
  have 1: "GetManifest ?x w1 d' = GetManifest ?x w d'" for d'
    by (rule oci_index_cong [OF on(1)]) (use pb in blast)
  have inv1: "inv w1" "healthy w \<longrightarrow> healthy w1" using pb by simp_all
  obtain y where y: "pres = Inr y" using took p on(2) 1 by (cases pres) (auto simp: cacheManifest_def)
  note up = upload_stored [OF inv p [unfolded y]]
  obtain r w2 where q: "PutManifest ?x w1 d mt y (int (length m)) = (r, w2)" by fastforce
  note pm = PutManifest_spec [OF on(1,5,3) inv1(1) q]
  obtain u where u: "r = Inr u" using took p q on(2) 1 y pm by (cases r) (auto simp: cacheManifest_def)
  let ?w3 = "cacheManifest h n ref d mt m w"
  have w3: "?w3 = (if \<not> IsDigestReference ref then snd (SetTagDigest ?x w2 n ref d) else w2)"
    using p q on(2) y u by (simp add: cacheManifest_def)
  have "inv ?w3 \<and> content ?w3 = content w2 \<and> (healthy ?w3 \<longleftrightarrow> healthy w2) \<and> (\<forall>d. GetManifest ?x ?w3 d = GetManifest ?x w2 d)"
  proof (cases "\<exists>v. SetTagDigest ?x w2 n ref d
      = EI_PutJSON (j_enc (oi_imageJSON ?x)) es (oi_images ?x) (oi_now ?x) w2 (encodeImageName n) v []")
    case False
    then have "snd (SetTagDigest ?x w2 n ref d) = w2"
      using on(1) by (auto simp: SetTagDigest_def Let_def collectImageBlobRefs_def split: sum.splits)
    then show ?thesis using w3 pm by simp
  next
    case True
    then obtain v r3 w3' where q3: "SetTagDigest ?x w2 n ref d = (r3, w3')"
      "EI_PutJSON (j_enc (oi_imageJSON ?x)) es (oi_images ?x) (oi_now ?x) w2 (encodeImageName n) v [] = (r3, w3')"
      by (metis prod.exhaust)
    have "inv w2" using pm by simp
    note pj = index_json_put [OF on(4) this q3(2)]
    have "EI_Get es (oi_manifests ?x) w3' k = EI_Get es (oi_manifests ?x) w2 k" for k
      using pj index_ok_id [OF on(3), of k] h(2) by (cases r3) (auto simp: oci_apart_def)
    then show ?thesis using pj w3 q3(1) pm on(1) by (simp add: GetManifest_def EI_GetJSON_def)
  qed
  then show ?thesis using pm u up inv1 by auto
qed

end

end
