(* ===== verification/Goproxy.thy ===== *)
theory Goproxy
  imports Download Urls
begin

text \<open>
  The Go module proxy protocol (\<open>protocol/goproxy\<close>): the escaping of module paths (\<open>module.go\<close>), the
  index with its version lists (\<open>index.go\<close>), the upstream proxy (\<open>upstream.go\<close>), the handler
  (\<open>handler.go\<close>) and the proxy of the checksum database (\<open>sumdb.go\<close>).
\<close>

section \<open>Module paths\<close>

text \<open>Paths are valid UTF-8, where the bytes of a letter beyond ASCII are copied one by one.\<close>

definition is_upper :: "char \<Rightarrow> bool" where
  "is_upper c \<longleftrightarrow> CHR ''A'' \<le> c \<and> c \<le> CHR ''Z''"

definition to_upper :: "char \<Rightarrow> char" where
  "to_upper c = char_of (of_char c - 32 :: nat)"

fun encodePath :: "string \<Rightarrow> string" where
  "encodePath [] = []"
| "encodePath (c # s) = (if is_upper c then CHR ''!'' # ascii_lower c # encodePath s else c # encodePath s)"

datatype path_error = InvalidEscape char | TrailingEscape

fun decodePath_loop :: "bool \<Rightarrow> string \<Rightarrow> path_error + string" where
  "decodePath_loop escape [] = (if escape then Inl TrailingEscape else Inr [])"
| "decodePath_loop escape (c # s) =
     (if c = CHR ''!'' then decodePath_loop True s
      else if escape then
        (if CHR ''a'' \<le> c \<and> c \<le> CHR ''z'' then rbind (decodePath_loop False s) (\<lambda>r. Inr (to_upper c # r))
         else Inl (InvalidEscape c))
      else rbind (decodePath_loop False s) (\<lambda>r. Inr (c # r)))"

definition decodePath :: "string \<Rightarrow> path_error + string" where
  "decodePath encoded = decodePath_loop False encoded"

lemma upper_lower:
  "is_upper c \<Longrightarrow> CHR ''a'' \<le> ascii_lower c \<and> ascii_lower c \<le> CHR ''z'' \<and> ascii_lower c \<noteq> CHR ''!''
     \<and> to_upper (ascii_lower c) = c \<and> \<not> is_upper (ascii_lower c)"
proof -
  assume "is_upper c"
  then have "of_char c \<in> {65..90 :: nat}" by (auto simp: is_upper_def less_eq_char_def)
  then have b: "of_char (ascii_lower c) = (of_char c + 32 :: nat)" "of_char c + 32 \<in> {97..122 :: nat}"
    by (auto simp: ascii_lower_def less_eq_char_def)
  then have "ascii_lower c \<noteq> CHR ''!''" by auto
  then show ?thesis using b by (auto simp: is_upper_def to_upper_def less_eq_char_def)
qed

lemma decode_encodePath:
  "CHR ''!'' \<notin> set s \<Longrightarrow> decodePath (encodePath s) = Inr s"
  unfolding decodePath_def
proof (induction s)
  case (Cons c s)
  then show ?case using upper_lower [of c] by auto
qed simp

text \<open>An encoded path has no upper case letter, so encoding it again changes nothing.\<close>

lemma encodePath_lower: "c \<in> set (encodePath s) \<Longrightarrow> \<not> is_upper c"
proof (induction s)
  case (Cons x s)
  then show ?case using upper_lower [of x] by (auto simp: is_upper_def less_eq_char_def split: if_splits)
qed simp

lemma encodePath_plain: "(\<And>c. c \<in> set s \<Longrightarrow> \<not> is_upper c) \<Longrightarrow> encodePath s = s"
  by (induction s) auto

lemma encodePath_again: "encodePath (encodePath s) = encodePath s"
  using encodePath_lower encodePath_plain by blast

section \<open>The index\<close>

record version_info =
  vi_Version :: string
  vi_Time :: time

record module_version =
  mv_Info :: version_info
  mv_ModHash :: hash
  mv_ZipHash :: hash

record 'w go_index =
  gi_es :: "'w envelope_store"
  gi_mod :: env_index
  gi_info :: env_index
  gi_list :: env_index
  gi_json :: "module_version json_codec"
  gi_now :: time
  gi_unicode :: "string \<Rightarrow> string"

definition newline :: char where
  "newline = CHR 0x0A"

definition encodeModuleKey :: "string \<Rightarrow> string" where
  "encodeModuleKey modulePath = encodePath modulePath"

definition encodeVersionKey :: "string \<Rightarrow> string \<Rightarrow> string" where
  "encodeVersionKey modulePath version = encodePath modulePath @ ''@'' @ version"

definition go_collectBlobRefs :: "module_version \<Rightarrow> string list" where
  "go_collectBlobRefs mv =
     (if hash_IsZero (mv_ZipHash mv) then [] else [BlobRef_String (NewBlobRef (mv_ZipHash mv))])"

definition splitVersions :: "(string \<Rightarrow> string) \<Rightarrow> bytes \<Rightarrow> string list" where
  "splitVersions U data = (if data = [] then [] else SplitOn (TrimSpace U data) newline)"

definition listVersionsInternal :: "'w go_index \<Rightarrow> 'w \<Rightarrow> string \<Rightarrow> mdb_error + string list" where
  "listVersionsInternal x w modulePath =
     (case EI_Get (gi_es x) (gi_list x) w (encodeModuleKey modulePath) of
        Inl e \<Rightarrow> if e = ErrNotFound then Inr [] else Inl e
      | Inr data \<Rightarrow> Inr (splitVersions (gi_unicode x) data))"

definition ListVersions :: "'w go_index \<Rightarrow> 'w \<Rightarrow> string \<Rightarrow> mdb_error + string list" where
  "ListVersions x w modulePath =
     (case EI_Get (gi_es x) (gi_list x) w (encodeModuleKey modulePath) of
        Inl e \<Rightarrow> if e = ErrNotFound then Inr [] else Inl e
      | Inr data \<Rightarrow> Inr (if data = [] then [] else SplitOn (TrimSpace (gi_unicode x) data) newline))"

definition GetModuleVersion :: "'w go_index \<Rightarrow> 'w \<Rightarrow> string \<Rightarrow> string \<Rightarrow> index_error + module_version" where
  "GetModuleVersion x w modulePath version =
     (case EI_GetJSON (j_dec (gi_json x)) (gi_es x) (gi_info x) w (encodeVersionKey modulePath version) of
        Inl e \<Rightarrow> Inl (indexError e)
      | Inr mv \<Rightarrow> Inr mv)"

definition GetVersionInfo :: "'w go_index \<Rightarrow> 'w \<Rightarrow> string \<Rightarrow> string \<Rightarrow> index_error + version_info" where
  "GetVersionInfo x w modulePath version = rbind (GetModuleVersion x w modulePath version) (\<lambda>mv. Inr (mv_Info mv))"

definition GetMod :: "'w go_index \<Rightarrow> 'w \<Rightarrow> string \<Rightarrow> string \<Rightarrow> index_error + bytes" where
  "GetMod x w modulePath version =
     (case EI_Get (gi_es x) (gi_mod x) w (encodeVersionKey modulePath version) of
        Inl e \<Rightarrow> Inl (indexError e)
      | Inr data \<Rightarrow> Inr data)"

definition writeVersionList :: "'w go_index \<Rightarrow> 'w \<Rightarrow> string \<Rightarrow> string list \<Rightarrow> (mdb_error + unit) \<times> 'w" where
  "writeVersionList x w modulePath versions =
     EI_Put (gi_es x) (gi_list x) (gi_now x) w (encodeModuleKey modulePath) (Join versions [newline] @ [newline]) CT_TEXT []"

definition addVersion :: "'w go_index \<Rightarrow> 'w \<Rightarrow> string \<Rightarrow> string \<Rightarrow> (mdb_error + unit) \<times> 'w" where
  "addVersion x w modulePath version =
     (case listVersionsInternal x w modulePath of
        Inl e \<Rightarrow> (Inl e, w)
      | Inr versions \<Rightarrow>
          if version \<in> set versions then (Inr (), w)
          else writeVersionList x w modulePath (sort (versions @ [version])))"

definition removeVersion :: "'w go_index \<Rightarrow> 'w \<Rightarrow> string \<Rightarrow> string \<Rightarrow> (mdb_error + unit) \<times> 'w" where
  "removeVersion x w modulePath version =
     (case listVersionsInternal x w modulePath of
        Inl e \<Rightarrow> (Inl e, w)
      | Inr versions \<Rightarrow>
          (let filtered = filter (\<lambda>v. v \<noteq> version) versions in
           if filtered = [] then EI_Delete (gi_es x) (gi_list x) w (encodeModuleKey modulePath)
           else writeVersionList x w modulePath filtered))"

definition PutModuleVersion ::
  "'w go_index \<Rightarrow> 'w \<Rightarrow> string \<Rightarrow> string \<Rightarrow> module_version \<Rightarrow> bytes \<Rightarrow> (mdb_error + unit) \<times> 'w" where
  "PutModuleVersion x w modulePath version mv modFile =
     (let key = encodeVersionKey modulePath version in
      case EI_PutJSON (j_enc (gi_json x)) (gi_es x) (gi_info x) (gi_now x) w key mv (go_collectBlobRefs mv) of
        (Inl e, w1) \<Rightarrow> (Inl e, w1)
      | (Inr _, w1) \<Rightarrow>
          (case EI_Put (gi_es x) (gi_mod x) (gi_now x) w1 key modFile CT_TEXT [] of
             (Inl e, w2) \<Rightarrow> (Inl e, w2)
           | (Inr _, w2) \<Rightarrow> addVersion x w2 modulePath version))"

definition ignoreMissing :: "(mdb_error + unit) \<times> 'w \<Rightarrow> ('w \<Rightarrow> (mdb_error + unit) \<times> 'w) \<Rightarrow> (mdb_error + unit) \<times> 'w" where
  "ignoreMissing r next =
     (case r of
        (Inl e, w) \<Rightarrow> if e \<noteq> ErrNotFound then (Inl e, w) else next w
      | (Inr _, w) \<Rightarrow> next w)"

definition DeleteModuleVersion :: "'w go_index \<Rightarrow> 'w \<Rightarrow> string \<Rightarrow> string \<Rightarrow> (mdb_error + unit) \<times> 'w" where
  "DeleteModuleVersion x w modulePath version =
     (let key = encodeVersionKey modulePath version in
      ignoreMissing (EI_Delete (gi_es x) (gi_info x) w key)
        (\<lambda>w1. ignoreMissing (EI_Delete (gi_es x) (gi_mod x) w1 key) (\<lambda>w2. removeVersion x w2 modulePath version)))"

section \<open>The upstream proxy\<close>

text \<open>\<open>splitLines\<close>: \<open>line\<close> is the line under construction.\<close>

fun splitLines_loop :: "string \<Rightarrow> string \<Rightarrow> string list" where
  "splitLines_loop line [] = (if line \<noteq> [] then [line] else [])"
| "splitLines_loop line (c # s) =
     (if c = newline
      then (if line \<noteq> [] \<and> last line = CHR 0x0D then butlast line else line) # splitLines_loop [] s
      else splitLines_loop (line @ [c]) s)"

definition splitLines :: "string \<Rightarrow> string list" where
  "splitLines s = splitLines_loop [] s"

text \<open>A client, the base URL of the proxy and the decoding of its JSON.\<close>

record go_upstream =
  go_client :: http_client
  go_baseURL :: string
  go_info :: "http_reply \<Rightarrow> dl_error + version_info"

definition go_fetch :: "go_upstream \<Rightarrow> string \<Rightarrow> dl_error + http_reply" where
  "go_fetch u url =
     rbind (go_client u ''GET'' url [])
       (\<lambda>resp. if rp_Status resp = 404 \<or> rp_Status resp = 410 then Inl UpstreamNotFound
               else if rp_Status resp \<noteq> 200 then Inl DownloadFailed
               else Inr resp)"

definition FetchVersionList :: "go_upstream \<Rightarrow> string \<Rightarrow> dl_error + string list" where
  "FetchVersionList u modulePath =
     rbind (go_fetch u (go_baseURL u @ ''/'' @ encodePath modulePath @ ''/@v/list''))
       (\<lambda>resp. rbind (ReadAll resp)
         (\<lambda>data. if data = [] then Inr [] else Inr (filter (\<lambda>line. line \<noteq> []) (splitLines data))))"

definition FetchInfo :: "go_upstream \<Rightarrow> string \<Rightarrow> string \<Rightarrow> dl_error + version_info" where
  "FetchInfo u modulePath version =
     rbind (go_fetch u (go_baseURL u @ ''/'' @ encodePath modulePath @ ''/@v/'' @ version @ ''.info'')) (go_info u)"

definition FetchMod :: "go_upstream \<Rightarrow> string \<Rightarrow> string \<Rightarrow> dl_error + bytes" where
  "FetchMod u modulePath version =
     rbind (go_fetch u (go_baseURL u @ ''/'' @ encodePath modulePath @ ''/@v/'' @ version @ ''.mod'')) ReadAll"

definition FetchZip :: "go_upstream \<Rightarrow> string \<Rightarrow> string \<Rightarrow> dl_error + http_reply" where
  "FetchZip u modulePath version =
     go_fetch u (go_baseURL u @ ''/'' @ encodePath modulePath @ ''/@v/'' @ version @ ''.zip'')"

definition FetchLatest :: "go_upstream \<Rightarrow> string \<Rightarrow> dl_error + version_info" where
  "FetchLatest u modulePath =
     rbind (go_fetch u (go_baseURL u @ ''/'' @ encodePath modulePath @ ''/@latest'')) (go_info u)"

section \<open>The handler\<close>

record 'w goproxy =
  gp_index :: "'w go_index"
  gp_store :: "'w store_ops"
  gp_upstream :: go_upstream
  gp_downloader :: bool
  gp_blake3 :: "bytes \<Rightarrow> hash"
  gp_encode :: "version_info \<Rightarrow> bytes"

text \<open>How the system, the client and the shared downloader answer one request; the goroutine that
  caches a version has run when the handler's step ends.\<close>

record go_run =
  gr_temp :: temp_file
  gr_client :: "nat \<Rightarrow> nat option"
  gr_flight :: flight
  gr_ctx :: "dl_error option"

definition go_upstreamError :: "dl_error \<Rightarrow> http_response" where
  "go_upstreamError e = (if e = UpstreamNotFound then http_Error ''not found'' 404 else http_Error ''upstream error'' 502)"

definition go_writeJSON :: "'w goproxy \<Rightarrow> version_info \<Rightarrow> http_response" where
  "go_writeJSON h v = reply 200 [(''Content-Type'', ''application/json'')] (gp_encode h v @ [newline])"

definition go_writeList :: "string list \<Rightarrow> http_response" where
  "go_writeList versions =
     reply 200 [(''Content-Type'', ''text/plain; charset=utf-8'')] (concat (map (\<lambda>v. v @ [newline]) versions))"

definition go_handleList :: "'w goproxy \<Rightarrow> 'w \<Rightarrow> string \<Rightarrow> http_response" where
  "go_handleList h w modulePath =
     (let versions = (case ListVersions (gp_index h) w modulePath of Inl _ \<Rightarrow> [] | Inr vs \<Rightarrow> vs) in
      if versions \<noteq> [] then go_writeList versions
      else case FetchVersionList (gp_upstream h) modulePath of
          Inl e \<Rightarrow> go_upstreamError e
        | Inr vs \<Rightarrow> go_writeList vs)"

definition cacheModuleVersion :: "'w goproxy \<Rightarrow> string \<Rightarrow> string \<Rightarrow> 'w \<Rightarrow> 'w" where
  "cacheModuleVersion h modulePath version w =
     (case GetModuleVersion (gp_index h) w modulePath version of
        Inr _ \<Rightarrow> w
      | Inl _ \<Rightarrow>
          (case FetchInfo (gp_upstream h) modulePath version of
             Inl _ \<Rightarrow> w
           | Inr info \<Rightarrow>
               (case FetchMod (gp_upstream h) modulePath version of
                  Inl _ \<Rightarrow> w
                | Inr modFile \<Rightarrow>
                    (case FetchZip (gp_upstream h) modulePath version of
                       Inl _ \<Rightarrow> w
                     | Inr zipResp \<Rightarrow>
                         (case st_Put (gp_store h) w (rp_Body zipResp) of
                            (Inl _, w1) \<Rightarrow> w1
                          | (Inr zipHash, w1) \<Rightarrow>
                              snd (PutModuleVersion (gp_index h) w1 modulePath version
                                     \<lparr>mv_Info = info, mv_ModHash = zero_hash, mv_ZipHash = zipHash\<rparr> modFile))))))"

definition go_handleInfo :: "'w goproxy \<Rightarrow> 'w \<Rightarrow> string \<Rightarrow> string \<Rightarrow> http_response \<times> 'w" where
  "go_handleInfo h w modulePath version =
     (case GetVersionInfo (gp_index h) w modulePath version of
        Inr info \<Rightarrow> (go_writeJSON h info, w)
      | Inl _ \<Rightarrow>
          (case FetchInfo (gp_upstream h) modulePath version of
             Inl e \<Rightarrow> (go_upstreamError e, w)
           | Inr info \<Rightarrow> (go_writeJSON h info, cacheModuleVersion h modulePath version w)))"

definition go_handleMod :: "'w goproxy \<Rightarrow> 'w \<Rightarrow> string \<Rightarrow> string \<Rightarrow> http_response \<times> 'w" where
  "go_handleMod h w modulePath version =
     (let text = (\<lambda>b. reply 200 [(''Content-Type'', ''text/plain; charset=utf-8'')] b) in
      case GetMod (gp_index h) w modulePath version of
        Inr modFile \<Rightarrow> (text modFile, w)
      | Inl _ \<Rightarrow>
          (case FetchMod (gp_upstream h) modulePath version of
             Inl e \<Rightarrow> (go_upstreamError e, w)
           | Inr modFile \<Rightarrow> (text modFile, cacheModuleVersion h modulePath version w)))"

definition fetchAndStoreZip ::
  "'w goproxy \<Rightarrow> temp_file \<Rightarrow> string \<Rightarrow> string \<Rightarrow> 'w \<Rightarrow> (dl_error + dl_result) \<times> 'w" where
  "fetchAndStoreZip h tf modulePath version w =
     (case FetchInfo (gp_upstream h) modulePath version of
        Inl e \<Rightarrow> (Inl e, w)
      | Inr info \<Rightarrow>
          (case FetchMod (gp_upstream h) modulePath version of
             Inl e \<Rightarrow> (Inl e, w)
           | Inr modFile \<Rightarrow>
               (case FetchZip (gp_upstream h) modulePath version of
                  Inl e \<Rightarrow> (Inl e, w)
                | Inr zipResp \<Rightarrow>
                    (case spool tf zipResp of
                       Inl e \<Rightarrow> (Inl (spoolError e), w)
                     | Inr data \<Rightarrow>
                         if \<not> tf_seek tf then (Inl DownloadFailed, w)
                         else (case st_Put (gp_store h) w (spooled tf data) of
                             (Inl _, w1) \<Rightarrow> (Inl DownloadFailed, w1)
                           | (Inr _, w1) \<Rightarrow>
                               (Inr \<lparr>dr_Hash = gp_blake3 h data, dr_Size = int (length data)\<rparr>,
                                snd (PutModuleVersion (gp_index h) w1 modulePath version
                                       \<lparr>mv_Info = info, mv_ModHash = zero_hash, mv_ZipHash = gp_blake3 h data\<rparr> modFile)))))))"

definition go_handleZipWithDownloader ::
  "'w goproxy \<Rightarrow> go_run \<Rightarrow> 'w \<Rightarrow> http_request \<Rightarrow> string \<Rightarrow> string \<Rightarrow> http_response \<times> 'w" where
  "go_handleZipWithDownloader h env w r modulePath version =
     (case Do (fetchAndStoreZip h (gr_temp env) modulePath version) (gr_flight env) (gr_ctx env) w of
        (res, _, w1) \<Rightarrow>
          (case HandleResult (\<lambda>e. e = UpstreamNotFound) None
                  \<lparr>so_ContentType = ''application/zip'', so_ExtraHeaders = []\<rparr> (gp_store h) r res w1 of
             (resp, _, w2) \<Rightarrow> (resp, w2)))"

text \<open>Copying to the client: \<open>gr_client\<close> says at which chunk a write fails after how many bytes.\<close>

fun client_copy :: "(nat \<Rightarrow> nat option) \<Rightarrow> nat \<Rightarrow> bytes list \<Rightarrow> bool \<Rightarrow> bytes \<times> bool" where
  "client_copy f i [] fails = ([], fails)"
| "client_copy f i (x # xs) fails =
     (case f i of
        Some c \<Rightarrow> (take c x, True)
      | None \<Rightarrow> (case client_copy f (Suc i) xs fails of (sent, e) \<Rightarrow> (x @ sent, e)))"

definition go_handleZipDirect ::
  "'w goproxy \<Rightarrow> go_run \<Rightarrow> 'w \<Rightarrow> string \<Rightarrow> string \<Rightarrow> http_response \<times> 'w" where
  "go_handleZipDirect h env w modulePath version =
     (case FetchZip (gp_upstream h) modulePath version of
        Inl e \<Rightarrow> (go_upstreamError e, w)
      | Inr zipResp \<Rightarrow>
          (case client_copy (gr_client env) 0 (chunks (rp_Body zipResp)) (src_fails (rp_Body zipResp)) of
             (sent, failed) \<Rightarrow>
               (reply 200 [(''Content-Type'', ''application/zip'')] sent,
                if failed then w else cacheModuleVersion h modulePath version w)))"

definition go_handleZip ::
  "'w goproxy \<Rightarrow> go_run \<Rightarrow> 'w \<Rightarrow> http_request \<Rightarrow> string \<Rightarrow> string \<Rightarrow> http_response \<times> 'w" where
  "go_handleZip h env w r modulePath version =
     (let miss = (\<lambda>w. if gp_downloader h then go_handleZipWithDownloader h env w r modulePath version
                      else go_handleZipDirect h env w modulePath version) in
      case GetModuleVersion (gp_index h) w modulePath version of
        Inl _ \<Rightarrow> miss w
      | Inr mv \<Rightarrow>
          if hash_IsZero (mv_ZipHash mv) then miss w
          else (case st_Get (gp_store h) w (mv_ZipHash mv) of
              (Inr d, w1) \<Rightarrow> (reply 200 [(''Content-Type'', ''application/zip'')] d, w1)
            | (Inl _, w1) \<Rightarrow> miss w1))"

definition go_handleLatest :: "'w goproxy \<Rightarrow> string \<Rightarrow> http_response" where
  "go_handleLatest h modulePath =
     (case FetchLatest (gp_upstream h) modulePath of
        Inl e \<Rightarrow> go_upstreamError e
      | Inr info \<Rightarrow> go_writeJSON h info)"

text \<open>The message of an invalid module path is a parameter of the response's text.\<close>

definition pathErrorText :: "path_error \<Rightarrow> string" where
  "pathErrorText e =
     (case e of InvalidEscape c \<Rightarrow> ''invalid escape sequence: !'' @ [c] | TrailingEscape \<Rightarrow> ''trailing escape character'')"

definition go_ServeHTTP :: "'w goproxy \<Rightarrow> go_run \<Rightarrow> 'w \<Rightarrow> http_request \<Rightarrow> http_response \<times> 'w" where
  "go_ServeHTTP h env w r =
     (if rq_Method r \<noteq> ''GET'' then (http_Error ''method not allowed'' 405, w)
      else let path = TrimPrefix (rq_Path r) ''/'' in
        case CutSuffix path ''/@latest'' of
          Some before \<Rightarrow> (go_handleLatest h before, w)
        | None \<Rightarrow>
            (case CutSub path ''/@v/'' of
               None \<Rightarrow> (http_Error ''invalid path'' 400, w)
             | Some (encodedModule, remainder) \<Rightarrow>
                 (case decodePath encodedModule of
                    Inl e \<Rightarrow> (http_Error (''invalid module path: '' @ pathErrorText e) 400, w)
                  | Inr modulePath \<Rightarrow>
                      if remainder = ''list'' then (go_handleList h w modulePath, w)
                      else if HasSuffix remainder ''.info'' then go_handleInfo h w modulePath (TrimSuffix remainder ''.info'')
                      else if HasSuffix remainder ''.mod'' then go_handleMod h w modulePath (TrimSuffix remainder ''.mod'')
                      else if HasSuffix remainder ''.zip'' then go_handleZip h env w r modulePath (TrimSuffix remainder ''.zip'')
                      else (http_Error ''invalid path'' 400, w))))"

section \<open>The checksum database\<close>

record 'w sumdb =
  su_es :: "'w envelope_store"
  su_index :: env_index
  su_name :: string
  su_client :: http_client
  su_baseURL :: string
  su_now :: time

definition maxSumdbResponseSize :: nat where
  "maxSumdbResponseSize = 5 * 2 ^ 20"

definition sumdb_Fetch :: "'w sumdb \<Rightarrow> string \<Rightarrow> dl_error + (bytes \<times> string \<times> nat)" where
  "sumdb_Fetch h endpoint =
     rbind (su_client h ''GET'' (su_baseURL h @ ''/'' @ endpoint) [])
       (\<lambda>resp. rbind (ReadAll (resp\<lparr>rp_Body := LimitReader maxSumdbResponseSize (rp_Body resp)\<rparr>))
         (\<lambda>data. Inr (data,
            (let ct = rp_Header resp ''Content-Type'' in if ct = [] then ''text/plain; charset=utf-8'' else ct),
            rp_Status resp)))"

definition sumdb_Get :: "'w sumdb \<Rightarrow> 'w \<Rightarrow> string \<Rightarrow> mdb_error + bytes" where
  "sumdb_Get h w endpoint = EI_Get (su_es h) (su_index h) w endpoint"

definition sumdb_Put :: "'w sumdb \<Rightarrow> 'w \<Rightarrow> string \<Rightarrow> bytes \<Rightarrow> (mdb_error + unit) \<times> 'w" where
  "sumdb_Put h w endpoint data = EI_Put (su_es h) (su_index h) (su_now h) w endpoint data CT_OCTET_STREAM []"

definition sumdb_writeResponse :: "bytes \<Rightarrow> string \<Rightarrow> nat \<Rightarrow> http_response" where
  "sumdb_writeResponse data contentType status =
     reply status (if contentType \<noteq> [] then [(''Content-Type'', contentType)] else []) data"

definition sumdb_handleLatest :: "'w sumdb \<Rightarrow> http_response" where
  "sumdb_handleLatest h =
     (case sumdb_Fetch h ''latest'' of
        Inl _ \<Rightarrow> http_Error ''upstream error'' 502
      | Inr (data, contentType, status) \<Rightarrow> sumdb_writeResponse data contentType status)"

text \<open>Lookups and tiles are cached the same way and differ in the type of a cached response.\<close>

definition sumdb_cached :: "'w sumdb \<Rightarrow> string \<Rightarrow> 'w \<Rightarrow> string \<Rightarrow> http_response \<times> 'w" where
  "sumdb_cached h cachedType w endpoint =
     (case sumdb_Get h w endpoint of
        Inr data \<Rightarrow> (sumdb_writeResponse data cachedType 200, w)
      | Inl _ \<Rightarrow>
          (case sumdb_Fetch h endpoint of
             Inl _ \<Rightarrow> (http_Error ''upstream error'' 502, w)
           | Inr (data, contentType, status) \<Rightarrow>
               (sumdb_writeResponse data contentType status,
                if status = 200 then snd (sumdb_Put h w endpoint data) else w)))"

definition sumdb_handleLookup :: "'w sumdb \<Rightarrow> 'w \<Rightarrow> string \<Rightarrow> http_response \<times> 'w" where
  "sumdb_handleLookup h = sumdb_cached h ''text/plain; charset=utf-8''"

definition sumdb_handleTile :: "'w sumdb \<Rightarrow> 'w \<Rightarrow> string \<Rightarrow> http_response \<times> 'w" where
  "sumdb_handleTile h = sumdb_cached h ''application/octet-stream''"

definition sumdb_ServeHTTP :: "'w sumdb \<Rightarrow> 'w \<Rightarrow> http_request \<Rightarrow> http_response \<times> 'w" where
  "sumdb_ServeHTTP h w r =
     (if rq_Method r \<noteq> ''GET'' then (http_Error ''method not allowed'' 405, w)
      else let path = TrimPrefix (rq_Path r) ''/sumdb/'' in
        if path = rq_Path r then (http_Error ''invalid path'' 400, w)
        else (case SplitN2 path (CHR ''/'') of
            name # rest \<Rightarrow>
              if name = [] then (http_Error ''missing sumdb name'' 400, w)
              else let endpoint = (case rest of [] \<Rightarrow> [] | e # _ \<Rightarrow> e) in
                if name \<noteq> su_name h then (http_NotFound, w)
                else if endpoint = ''supported'' then (WriteHeader 200, w)
                else if endpoint = ''latest'' then (sumdb_handleLatest h, w)
                else if HasPrefix endpoint ''lookup/'' then sumdb_handleLookup h w endpoint
                else if HasPrefix endpoint ''tile/'' then sumdb_handleTile h w endpoint
                else (http_Error ''invalid endpoint'' 400, w)
          | [] \<Rightarrow> (http_Error ''missing sumdb name'' 400, w)))"

section \<open>Over any store\<close>

text \<open>A version list is stored as lines; it is read back as long as no version has white space.\<close>

definition version_text :: "string \<Rightarrow> bool" where
  "version_text v \<longleftrightarrow> v \<noteq> [] \<and> is_ascii v \<and> (\<forall>c \<in> set v. \<not> is_space c)"

lemma newline_space [simp]: "is_space newline"
  by (simp add: is_space_def newline_def)

lemma version_text_newline: "version_text v \<Longrightarrow> newline \<notin> set v"
  unfolding version_text_def using newline_space by blast

lemma Join_ascii: "(\<And>v. v \<in> set vs \<Longrightarrow> is_ascii v) \<Longrightarrow> is_ascii d \<Longrightarrow> is_ascii (Join vs d)"
  by (induction vs d rule: Join.induct) (auto simp: is_ascii_def)

lemma Join_ends:
  "vs \<noteq> [] \<Longrightarrow> (\<And>v. v \<in> set vs \<Longrightarrow> v \<noteq> []) \<Longrightarrow>
     Join vs d \<noteq> [] \<and> hd (Join vs d) = hd (hd vs) \<and> last (Join vs d) = last (last vs)"
  by (induction vs d rule: Join.induct) (auto simp: last_append)

lemma TrimSpace_line:
  assumes "is_ascii s" "s \<noteq> []" "\<not> is_space (hd s)" "\<not> is_space (last s)"
  shows "TrimSpace U (s @ [newline]) = s"
proof -
  have "is_ascii (s @ [newline])" using assms(1) by (auto simp: is_ascii_def newline_def)
  moreover have "dropWhile is_space (s @ [newline]) = s @ [newline]"
    using assms(2,3) by (cases s) auto
  moreover have "dropWhile is_space (rev s) = rev s"
    using assms(2,4) by (cases "rev s") (auto simp: last_rev hd_rev [symmetric])
  ultimately show ?thesis by (simp add: TrimSpace_def)
qed

lemma splitVersions_Join:
  assumes vs: "vs \<noteq> []" "\<forall>v \<in> set vs. version_text v"
  shows "splitVersions U (Join vs [newline] @ [newline]) = vs"
proof -
  have "is_ascii (Join vs [newline])"
    using vs(2) by (intro Join_ascii) (auto simp: version_text_def is_ascii_def newline_def)
  moreover have "hd (hd vs) \<in> set (hd vs)" "last (last vs) \<in> set (last vs)" "hd vs \<in> set vs" "last vs \<in> set vs"
    using vs by (auto simp: version_text_def intro!: hd_in_set last_in_set)
  moreover have "\<And>v. v \<in> set vs \<Longrightarrow> v \<noteq> []" using vs(2) by (simp add: version_text_def)
  ultimately have "TrimSpace U (Join vs [newline] @ [newline]) = Join vs [newline]"
    using Join_ends [OF vs(1)] vs(2) by (intro TrimSpace_line) (auto simp: version_text_def)
  moreover have "SplitOn (Join vs [newline]) newline = vs"
    using vs version_text_newline by (intro SplitOn_Join) auto
  ultimately show ?thesis by (simp add: splitVersions_def)
qed

text \<open>Versions of different modules have different keys, because paths have no \<open>@\<close>.\<close>

lemma encodePath_at: "CHR ''@'' \<notin> set m \<Longrightarrow> CHR ''@'' \<notin> set (encodePath m)"
proof (induction m)
  case (Cons c m)
  have "ascii_lower c \<noteq> CHR ''@''" if "is_upper c"
  proof -
    have "97 \<le> (of_char (ascii_lower c) :: nat)" using upper_lower [OF that] by (simp add: less_eq_char_def)
    then show ?thesis by auto
  qed
  then show ?case using Cons by auto
qed simp

lemma append_mark_inject:
  "c \<notin> set a \<Longrightarrow> c \<notin> set b \<Longrightarrow> a @ c # v = b @ c # v' \<longleftrightarrow> a = b \<and> v = v'"
proof (induction a arbitrary: b)
  case Nil
  then show ?case by (cases b) auto
next
  case (Cons x a)
  then show ?case by (cases b) auto
qed

lemma encodePath_inject:
  "CHR ''!'' \<notin> set m \<Longrightarrow> CHR ''!'' \<notin> set m' \<Longrightarrow> encodePath m = encodePath m' \<longleftrightarrow> m = m'"
  using decode_encodePath by (metis sum.inject(2))

definition module_path :: "string \<Rightarrow> bool" where
  "module_path m \<longleftrightarrow> CHR ''@'' \<notin> set m \<and> CHR ''!'' \<notin> set m"

lemma encodeVersionKey_inject:
  assumes "module_path m" "module_path m'"
  shows "encodeVersionKey m v = encodeVersionKey m' v' \<longleftrightarrow> m = m' \<and> v = v'"
  using assms encodePath_at encodePath_inject by (simp add: encodeVersionKey_def module_path_def append_mark_inject)

context cache_world
begin

definition go_index_on :: "'w go_index \<Rightarrow> bool" where
  "go_index_on x \<longleftrightarrow> gi_es x = es \<and> json_ok (gi_json x)
     \<and> index_ok (gi_mod x) \<and> index_ok (gi_info x) \<and> index_ok (gi_list x)
     \<and> distinct [(ix_protocol (gi_mod x), ix_kind (gi_mod x)), (ix_protocol (gi_info x), ix_kind (gi_info x)),
          (ix_protocol (gi_list x), ix_kind (gi_list x))]"

definition go_ids :: "'w go_index \<Rightarrow> string \<Rightarrow> string \<Rightarrow> (string \<times> string \<times> string) set" where
  "go_ids x m v =
     {(ix_protocol (gi_info x), ix_kind (gi_info x), encodeVersionKey m v),
      (ix_protocol (gi_mod x), ix_kind (gi_mod x), encodeVersionKey m v),
      (ix_protocol (gi_list x), ix_kind (gi_list x), encodeModuleKey m)}"

lemma ListVersions_internal: "ListVersions x w m = listVersionsInternal x w m"
  by (simp add: ListVersions_def listVersionsInternal_def splitVersions_def split: sum.split)

text \<open>The list of a module changes only in the entry of its key.\<close>

lemma ListVersions_step:
  assumes "go_index_on x" "index_step w w' S" "(ix_protocol (gi_list x), ix_kind (gi_list x), encodeModuleKey m) \<notin> S"
  shows "ListVersions x w' m = ListVersions x w m"
  using assms index_step_get by (simp add: ListVersions_def go_index_on_def)

lemma writeVersionList_spec:
  assumes x: "go_index_on x" and inv: "inv w" and vs: "vs \<noteq> []" "\<forall>v \<in> set vs. version_text v"
    and run: "writeVersionList x w m vs = (r, w')"
  shows "index_step w w' {(ix_protocol (gi_list x), ix_kind (gi_list x), encodeModuleKey m)}"
    "r = Inr u \<Longrightarrow> ListVersions x w' m = Inr vs"
proof -
  have on: "gi_es x = es" "index_ok (gi_list x)" using x by (simp_all add: go_index_on_def)
  note p = step_put [OF on(2) inv run [unfolded writeVersionList_def on(1)]]
  show "index_step w w' {(ix_protocol (gi_list x), ix_kind (gi_list x), encodeModuleKey m)}" by (rule p)
  show "r = Inr u \<Longrightarrow> ListVersions x w' m = Inr vs"
    using p(2) splitVersions_Join [OF vs] on by (simp add: ListVersions_internal listVersionsInternal_def)
qed

lemma addVersion_spec:
  assumes x: "go_index_on x" and inv: "inv w"
    and vs: "ListVersions x w m = Inr vs" "\<forall>v \<in> set vs. version_text v" "version_text v"
    and run: "addVersion x w m v = (r, w')"
  shows "index_step w w' {(ix_protocol (gi_list x), ix_kind (gi_list x), encodeModuleKey m)}"
    "r = Inr u \<Longrightarrow> ListVersions x w' m = Inr (if v \<in> set vs then vs else sort (vs @ [v]))"
proof -
  have "index_step w w' {(ix_protocol (gi_list x), ix_kind (gi_list x), encodeModuleKey m)}
      \<and> (\<forall>u. r = Inr u \<longrightarrow> ListVersions x w' m = Inr (if v \<in> set vs then vs else sort (vs @ [v])))"
  proof (cases "v \<in> set vs")
    case True
    then have "r = Inr () \<and> w' = w" using run vs(1) by (simp add: addVersion_def ListVersions_internal)
    then show ?thesis using True vs(1) index_step_refl [OF inv] by simp
  next
    case False
    then have "writeVersionList x w m (sort (vs @ [v])) = (r, w')"
      using run vs(1) by (simp add: addVersion_def ListVersions_internal)
    moreover have "length (sort (vs @ [v])) \<noteq> 0" by (simp only: length_sort) simp
    then have "sort (vs @ [v]) \<noteq> []" by fastforce
    moreover have "\<forall>y \<in> set (sort (vs @ [v])). version_text y" using vs by simp
    ultimately show ?thesis using writeVersionList_spec [OF x inv, of "sort (vs @ [v])" m r w'] False by simp
  qed
  then show "index_step w w' {(ix_protocol (gi_list x), ix_kind (gi_list x), encodeModuleKey m)}"
    "r = Inr u \<Longrightarrow> ListVersions x w' m = Inr (if v \<in> set vs then vs else sort (vs @ [v]))" by simp_all
qed

lemma removeVersion_spec:
  assumes x: "go_index_on x" and inv: "inv w"
    and vs: "ListVersions x w m = Inr vs" "\<forall>v \<in> set vs. version_text v"
    and run: "removeVersion x w m v = (r, w')"
  shows "index_step w w' {(ix_protocol (gi_list x), ix_kind (gi_list x), encodeModuleKey m)}"
    "r = Inr u \<Longrightarrow> ListVersions x w' m = Inr (filter (\<lambda>y. y \<noteq> v) vs)"
proof -
  have on: "gi_es x = es" "index_ok (gi_list x)" using x by (simp_all add: go_index_on_def)
  let ?f = "filter (\<lambda>y. y \<noteq> v) vs"
  have "index_step w w' {(ix_protocol (gi_list x), ix_kind (gi_list x), encodeModuleKey m)}
      \<and> (\<forall>u. r = Inr u \<longrightarrow> ListVersions x w' m = Inr ?f)"
  proof (cases "?f = []")
    case True
    then have "EI_Delete es (gi_list x) w (encodeModuleKey m) = (r, w')"
      using run vs(1) on by (simp add: removeVersion_def ListVersions_internal Let_def)
    then show ?thesis using step_delete [OF on(2) inv] True on by (simp add: ListVersions_def)
  next
    case False
    then show ?thesis
      using writeVersionList_spec [OF x inv, of ?f m r w'] run vs by (simp add: removeVersion_def ListVersions_internal Let_def)
  qed
  then show "index_step w w' {(ix_protocol (gi_list x), ix_kind (gi_list x), encodeModuleKey m)}"
    "r = Inr u \<Longrightarrow> ListVersions x w' m = Inr ?f" by simp_all
qed

text \<open>Storing a version: its information and its \<open>go.mod\<close> are read back and it is listed; the entries of
  every other version and module stay.\<close>

lemma PutModuleVersion_spec:
  assumes x: "go_index_on x" and inv: "inv w"
    and vs: "ListVersions x w m = Inr vs" "\<forall>v \<in> set vs. version_text v" "version_text v"
    and run: "PutModuleVersion x w m v mv modFile = (r, w')"
  shows "index_step w w' (go_ids x m v)"
    "r = Inr u \<Longrightarrow> GetModuleVersion x w' m v = Inr mv \<and> GetMod x w' m v = Inr modFile
       \<and> ListVersions x w' m = Inr (if v \<in> set vs then vs else sort (vs @ [v]))"
proof -
  let ?k = "encodeVersionKey m v"
  have on: "gi_es x = es" "json_ok (gi_json x)" "index_ok (gi_info x)" "index_ok (gi_mod x)" "index_ok (gi_list x)"
    and kinds: "(ix_protocol (gi_info x), ix_kind (gi_info x)) \<noteq> (ix_protocol (gi_mod x), ix_kind (gi_mod x))"
      "(ix_protocol (gi_info x), ix_kind (gi_info x)) \<noteq> (ix_protocol (gi_list x), ix_kind (gi_list x))"
      "(ix_protocol (gi_mod x), ix_kind (gi_mod x)) \<noteq> (ix_protocol (gi_list x), ix_kind (gi_list x))"
    using x by (auto simp: go_index_on_def)
  obtain r1 w1 where e1: "EI_PutJSON (j_enc (gi_json x)) es (gi_info x) (gi_now x) w ?k mv (go_collectBlobRefs mv) = (r1, w1)"
    by (metis prod.exhaust)
  note s1 = step_json [OF on(3) inv e1]
  have inv1: "inv w1" by (rule index_step_inv [OF s1(1)])
  have st1: "index_step w w1 (go_ids x m v)" by (rule index_step_mono [OF s1(1)]) (simp add: go_ids_def)
  obtain r2 w2 where e2: "EI_Put es (gi_mod x) (gi_now x) w1 ?k modFile CT_TEXT [] = (r2, w2)"
    by (metis prod.exhaust)
  note s2 = step_put [OF on(4) inv1 e2]
  have inv2: "inv w2" by (rule index_step_inv [OF s2(1)])
  have st2: "index_step w w2 (go_ids x m v)"
    by (rule index_step_trans [OF st1 index_step_mono [OF s2(1)]]) (simp add: go_ids_def)
  have list2: "ListVersions x w2 m = Inr vs"
    using ListVersions_step [OF x s2(1), of m] ListVersions_step [OF x s1(1), of m] kinds vs(1) by auto
  obtain r3 w3 where e3: "addVersion x w2 m v = (r3, w3)" by (metis prod.exhaust)
  note s3 = addVersion_spec [OF x inv2 list2 vs(2,3) e3]
  have st3: "index_step w w3 (go_ids x m v)"
    by (rule index_step_trans [OF st2 index_step_mono [OF s3(1)]]) (simp_all add: go_ids_def)
  have shape: "(case r1 of Inl e \<Rightarrow> r = Inl e \<and> w' = w1
      | Inr _ \<Rightarrow> (case r2 of Inl e \<Rightarrow> r = Inl e \<and> w' = w2 | Inr _ \<Rightarrow> r = r3 \<and> w' = w3))"
    using run e1 e2 e3 on by (auto simp: PutModuleVersion_def Let_def split: sum.splits)
  then show "index_step w w' (go_ids x m v)" using st1 st2 st3 by (auto split: sum.splits)
  assume ok: "r = Inr u"
  then have oks: "r1 = Inr ()" "r2 = Inr ()" "r3 = Inr ()" "w' = w3" using shape by (auto split: sum.splits)
  have "EI_GetJSON (j_dec (gi_json x)) es (gi_info x) w3 ?k = Inr mv"
    using s1(2) [OF on(2) oks(1)] index_step_json [where dec = "j_dec (gi_json x)", OF s2(1) on(3), of ?k]
      index_step_json [where dec = "j_dec (gi_json x)", OF s3(1) on(3), of ?k] kinds by auto
  moreover have "EI_Get es (gi_mod x) w3 ?k = Inr modFile"
    using s2(2) [OF oks(2)] index_step_get [OF s3(1) on(4), of ?k] kinds by auto
  ultimately show "GetModuleVersion x w' m v = Inr mv \<and> GetMod x w' m v = Inr modFile
       \<and> ListVersions x w' m = Inr (if v \<in> set vs then vs else sort (vs @ [v]))"
    using s3(2) oks on by (simp add: GetModuleVersion_def GetMod_def)
qed

end

end
