(* ===== verification/RegistryProperties.thy ===== *)
theory RegistryProperties
  imports ProtocolProperties Npm OciHandler Goproxy
begin

text \<open>
  The properties of the package registries as the server runs them: the OCI registry, npm and the Go
  module proxy over the bbolt database and the content store on the filesystem backend.
\<close>

section \<open>OCI\<close>

text \<open>A handler of the server. What its indexes decode names blobs by hashes of 32 bytes.\<close>

definition oci_server ::
  "(string \<Rightarrow> string) \<Rightarrow> (envelope \<Rightarrow> bool) \<Rightarrow> header_codec \<Rightarrow> (bytes \<Rightarrow> hash) \<Rightarrow> (int \<Rightarrow> string) \<Rightarrow> 'n notifier_ops option
     \<Rightarrow> (db, fs, unit, 'n) cafs oci \<Rightarrow> bool" where
  "oci_server U mar c blake3 fmt nt h \<longleftrightarrow>
     oi_es (oc_index h) = onMetaDB (boltStore U mar)
     \<and> (\<exists>tf now. oc_store h = cafsOps (serverStore c blake3 fmt nt) tf now) \<and> oc_blake3 h = blake3
     \<and> oi_unicode (oc_index h) = oe_unicode (oc_env h)
     \<and> json_ok (oi_manifestJSON (oc_index h)) \<and> json_ok (oi_blobJSON (oc_index h)) \<and> json_ok (oi_imageJSON (oc_index h))
     \<and> (\<forall>b m. j_dec (oi_manifestJSON (oc_index h)) b = Some m \<longrightarrow> is_hash (cm_ContentHash m))
     \<and> (\<forall>b m. j_dec (oi_blobJSON (oc_index h)) b = Some m \<longrightarrow> is_hash (cb_ContentHash m))
     \<and> index_ok (oi_manifests (oc_index h)) \<and> index_ok (oi_blobs (oc_index h)) \<and> index_ok (oi_images (oc_index h))
     \<and> distinct (map (\<lambda>i. (ix_protocol i, ix_kind i)) [oi_images (oc_index h), oi_manifests (oc_index h), oi_blobs (oc_index h)])"

text \<open>The handler at another time, with another network, system and configuration of registries: it
  keeps its index of blobs.\<close>

definition same_blobs :: "'w oci \<Rightarrow> 'w oci \<Rightarrow> bool" where
  "same_blobs h h' \<longleftrightarrow> oc_sha h' = oc_sha h \<and> oi_es (oc_index h') = oi_es (oc_index h)
     \<and> oi_blobs (oc_index h') = oi_blobs (oc_index h) \<and> oi_blobJSON (oc_index h') = oi_blobJSON (oc_index h)
     \<and> oi_unicode (oc_index h') = oi_unicode (oc_index h)"

definition oci_step :: "'w oci \<times> oci_run \<times> http_request \<Rightarrow> 'w oci_state \<Rightarrow> 'w oci_state" where
  "oci_step x s = (case x of (h, env, r) \<Rightarrow> snd (oci_ServeHTTP h env s r))"

lemma oci_serverD:
  assumes "oci_server U mar c blake3 fmt nt h"
  obtains tf now where "server.oci_on U mar c blake3 fmt nt tf now h" "server.oci_apart (oc_index h)"
    "oc_store h = cafsOps (serverStore c blake3 fmt nt) tf now"
  using assms by (auto simp: oci_server_def server.oci_on_def server.oci_apart_def)

lemma same_blobs_safe:
  "same_blobs h h' \<Longrightarrow> server.oci_safe blake3 h' s \<longleftrightarrow> server.oci_safe blake3 h s"
  by (simp add: server.oci_safe_def server.blobsVerified_def oci_GetBlob_def same_blobs_def)

lemma oci_steps_safe:
  assumes "\<forall>(h', env, r) \<in> set steps. oci_server U mar c blake3 fmt nt h' \<and> same_blobs h h' \<and> server.oci_run_ok env"
    and "digest_ok blake3" and "server.oci_safe blake3 h s"
  shows "server.oci_safe blake3 h (fold oci_step steps s)"
  using assms(1,3)
proof (induction steps arbitrary: s)
  case (Cons x steps)
  obtain h' env r where x: "x = (h', env, r)" by (rule prod_cases3)
  then have h': "oci_server U mar c blake3 fmt nt h'" "same_blobs h h'" "server.oci_run_ok env" using Cons.prems(1) by auto
  have u: "oi_unicode (oc_index h') = oe_unicode (oc_env h')" using h'(1) by (simp add: oci_server_def)
  have "server.oci_safe blake3 h' s" using Cons.prems(2) same_blobs_safe [OF h'(2)] by simp
  moreover obtain tf now where on: "server.oci_on U mar c blake3 fmt nt tf now h'" "server.oci_apart (oc_index h')"
    by (rule oci_serverD [OF h'(1)])
  ultimately have "server.oci_safe blake3 h' (oci_step x s)"
    using server.oci_ServeHTTP_safe [OF on u assms(2) _ h'(3), of s r] by (simp add: x oci_step_def)
  then have "server.oci_safe blake3 h (oci_step x s)" by (simp add: same_blobs_safe [OF h'(2)])
  then show ?case using Cons.IH [of "oci_step x s"] Cons.prems(1) by simp
qed simp

text \<open>C3: whatever requests the OCI handler serves, over any sequence of networks, registries, failures
  and joined downloads, a blob that its index names under a digest has content with that digest, or
  at least with the BLAKE3 hash of such content.\<close>

theorem oci_blobs_verified:
  fixes w :: "(db, fs, unit, 'n) cafs"
  assumes handlers: "\<forall>(h', env, r) \<in> set steps. oci_server U mar c blake3 fmt nt h' \<and> same_blobs h h'
      \<and> (\<forall>res. or_flight env = Joins (Inr res) \<longrightarrow> is_hash (dr_Hash res))"
    and h: "oci_server U mar c blake3 fmt nt h"
    and start: "world_ok blake3 w" "\<And>d. oci_GetBlob (oc_index h) w d = Inl NotCached"
    and run: "fold oci_step steps (w, tokens) = (w', tokens')"
    and hit: "oci_GetBlob (oc_index h) w' d = Inr b" "ParseDigest (oi_unicode (oc_index h)) d = Inr p"
      "fs_content (cs_backend w') (cb_ContentHash b) = Some data"
  shows "\<exists>orig. Digest_Verify (oc_sha h) p orig = Inr () \<and> blake3 orig = blake3 data"
proof -
  have "server.oci_safe blake3 h (w, tokens)"
    using start by (simp add: server.oci_safe_def server.blobsVerified_def)
  moreover have "digest_ok blake3" using start(1) by (simp add: world_ok_def)
  ultimately have safe: "server.oci_safe blake3 h (w', tokens')"
    using oci_steps_safe [of steps U mar c blake3 fmt nt h "(w, tokens)"] handlers run
    by (fastforce simp: server.oci_run_ok_def)
  then have "server.blobsVerified blake3 h w'" by (simp add: server.oci_safe_def)
  then obtain orig where orig: "Digest_Verify (oc_sha h) p orig = Inr ()" "cb_ContentHash b = blake3 orig"
    using hit(1,2) unfolding server.blobsVerified_def by blast
  have "is_hash (cb_ContentHash b)" using \<open>digest_ok blake3\<close> orig(2) by (simp add: digest_ok_def)
  then have "blake3 data = cb_ContentHash b"
    using server.content_hash [OF _ _ hit(3)] safe by (simp add: server.oci_safe_def)
  then show ?thesis using orig by auto
qed

text \<open>A sample registry that answers every request with the same five bytes and names them by the
  digest \<open>digest1\<close>, which is not theirs.\<close>

definition sampleJSON :: "(hash \<Rightarrow> 'v) \<Rightarrow> ('v \<Rightarrow> hash) \<Rightarrow> 'v json_codec" where
  "sampleJSON mk f =
     \<lparr>j_enc = (\<lambda>v. if v = mk (f v) \<and> is_hash (f v) then Some (f v) else None),
      j_dec = (\<lambda>b. if is_hash b then Some (mk b) else None)\<rparr>"

lemma json_ok_sample: "json_ok (sampleJSON mk f)"
  by (auto simp: json_ok_def sampleJSON_def split: if_splits)

lemma sampleJSON_dec: "j_dec (sampleJSON mk f) b = Some v \<longleftrightarrow> is_hash b \<and> v = mk b"
  by (auto simp: sampleJSON_def)

lemma sampleJSON_enc: "f (mk x) = x \<Longrightarrow> is_hash x \<Longrightarrow> j_enc (sampleJSON mk f) (mk x) = Some x"
  by (simp add: sampleJSON_def)

definition digest0 :: string where
  "digest0 = ''sha256:'' @ replicate 64 (CHR ''0'')"

definition digest1 :: string where
  "digest1 = ''sha256:'' @ replicate 64 (CHR ''1'')"

definition sha0 :: sha_funs where
  "sha0 = \<lparr>sha_256 = (\<lambda>x. if x = ''hello'' then replicate 32 (CHR 0x00) else replicate 32 (CHR 0x11)), sha_512 = id\<rparr>"

definition reply0 :: http_reply where
  "reply0 = \<lparr>rp_Status = 200, rp_Header = (\<lambda>k. if k = contentDigest then digest1 else []), rp_ContentLength = 5,
     rp_Body = src1, rp_ReadError = DownloadFailed\<rparr>"

definition ociEnv0 :: oci_env where
  "ociEnv0 = \<lparr>oe_libs = \<lparr>ol_withQuery = (\<lambda>_ _. None), ol_basicAuth = (\<lambda>u _. u), ol_token = (\<lambda>_. Inl DownloadFailed)\<rparr>,
     oe_client = (\<lambda>_ _ _. Inr reply0), oe_now = 0, oe_unicode = id\<rparr>"

definition registry0 :: "oci_upstream registry" where
  "registry0 = \<lparr>rg_Prefix = ''hub'', rg_Upstream = \<lparr>ou_baseURL = ''https://hub'', ou_username = [], ou_password = []\<rparr>,
     rg_TagTTL = 60\<rparr>"

definition oci0 :: "(db, fs, unit, unit) cafs oci" where
  "oci0 = \<lparr>oc_index = \<lparr>oi_es = onMetaDB (boltStore id (\<lambda>_. True)), oi_images = kindIdx ''image'',
       oi_manifests = kindIdx ''manifest'', oi_blobs = kindIdx ''blob'',
       oi_imageJSON = \<lparr>j_enc = (\<lambda>_. None), j_dec = (\<lambda>_. None)\<rparr>,
       oi_manifestJSON = sampleJSON (\<lambda>x. \<lparr>cm_Digest = digest1, cm_MediaType = [], cm_ContentHash = x, cm_Size = 5,
         cm_CachedAt = 0\<rparr>) cm_ContentHash,
       oi_blobJSON = sampleJSON (\<lambda>x. \<lparr>cb_Digest = digest0, cb_ContentHash = x, cb_Size = 5, cb_CachedAt = 0\<rparr>) cb_ContentHash,
       oi_now = 0, oi_unicode = id\<rparr>,
     oc_store = cafsOps serverStore0 temp0 0, oc_router = Some [registry0], oc_tagTTL = 60, oc_downloader = True,
     oc_env = ociEnv0, oc_sha = sha0, oc_blake3 = blake3_0\<rparr>"

definition oci_run0 :: oci_run where
  "oci_run0 = \<lparr>or_temp = temp0, or_opened = True, or_written = True,
     or_stream = \<lparr>ss_create = True, ss_tmp = (\<lambda>_. None), ss_client = (\<lambda>_. None)\<rparr>, or_flight = Executes, or_ctx = None\<rparr>"

lemma oci0_server: "oci_server id (\<lambda>_. True) codec0 blake3_0 (\<lambda>_. []) None oci0"
proof -
  have "json_ok \<lparr>j_enc = \<lambda>_. None, j_dec = \<lambda>_. None\<rparr>" by (simp add: json_ok_def)
  then show ?thesis
    unfolding oci_server_def oci0_def
    by (simp add: json_ok_sample index_ok_kind sep_def sampleJSON_dec ociEnv0_def) blast
qed

lemma oci0_parse:
  "ParseDigest id digest0 = Inr \<lparr>dg_Algorithm = ''sha256'', dg_Hex = replicate 64 (CHR ''0'')\<rparr>"
  "ParseDigest id digest1 = Inr \<lparr>dg_Algorithm = ''sha256'', dg_Hex = replicate 64 (CHR ''1'')\<rparr>"
  "encodeDigest id digest0 = ''sha256_'' @ replicate 64 (CHR ''0'')"
  "encodeDigest id digest1 = ''sha256_'' @ replicate 64 (CHR ''1'')"
  by code_simp+

lemma oci0_fetch: "doWithAuth ociEnv0 u [] m url hs scope = (Inr reply0, [])"
  by (auto simp: doWithAuth_def GetToken_def ociEnv0_def reply0_def Let_def)

definition ociPath0 :: string where
  "ociPath0 = ''/v2/hub/x/blobs/'' @ digest0"

definition ociRest0 :: string where
  "ociRest0 = ''x/blobs/'' @ digest0"

lemma oci0_routes:
  "oci_Route [registry0] ociPath0 = Some (registry0, ociRest0)" "ociPath0 \<noteq> ''/v2/''" "ociPath0 \<noteq> ''/v2''"
  "manifestRemainder ociRest0 = None" "blobRemainder ociRest0 = Some (''x'', digest0)"
  by code_simp+

lemma store1_miss: "EI_Get (onMetaDB (boltStore U mar)) idx store1 key = Inl ErrNotFound"
  by (simp add: EI_Get_def store1_def store0_def GetEnvelope_def createBuckets_def)

lemma src1_simps: "concat (chunks src1) = ''hello''" "\<not> src_fails src1"
  by (simp_all add: src1_def)

lemma oci0_simps:
  "oi_es (oc_index oci0) = onMetaDB (boltStore id (\<lambda>_. True))" "oi_manifests (oc_index oci0) = kindIdx ''manifest''"
  "oi_blobs (oc_index oci0) = kindIdx ''blob''" "oi_now (oc_index oci0) = 0" "oi_unicode (oc_index oci0) = id"
  "oc_store oci0 = cafsOps serverStore0 temp0 0" "oc_router oci0 = Some [registry0]" "oc_downloader oci0"
  "oc_env oci0 = ociEnv0" "oc_sha oci0 = sha0" "oc_blake3 oci0 = blake3_0"
  "oe_unicode ociEnv0 = id" "oe_now ociEnv0 = 0"
  by (simp_all add: oci0_def ociEnv0_def)

lemma oci0_store:
  "\<exists>w1 w2. Put serverStore0 temp0 0 store1 (spooled temp0 ''hello'') = (Inr hash0, w1) \<and> fs_healthy (cs_backend w2)
     \<and> oci_PutBlob (oc_index oci0) w1 digest0 hash0 5 = (Inr (), w2) \<and> world_ok blake3_0 w2
     \<and> fs_content (cs_backend w2) hash0 = Some ''hello''
     \<and> oci_GetBlob (oc_index oci0) w2 digest0 = Inr \<lparr>cb_Digest = digest0, cb_ContentHash = hash0, cb_Size = 5, cb_CachedAt = 0\<rparr>"
proof -
  obtain w1 where w1: "Put serverStore0 temp0 0 store1 (spooled temp0 ''hello'') = (Inr hash0, w1)" "world_ok blake3_0 w1"
    "fs_healthy (cs_backend w1)" "blobs_good (d_blobs (cs_metaDB w1))" "fs_content (cs_backend w1) hash0 = Some ''hello''"
    using upload_succeeds [OF store1_ok(1,2), of "spooled temp0 ''hello''"] store1_ok(3)
    by (auto simp: blake3_0_def temp0_def)
  let ?b = "\<lparr>cb_Digest = digest0, cb_ContentHash = hash0, cb_Size = 5, cb_CachedAt = 0\<rparr>"
  have enc: "j_enc (oi_blobJSON (oc_index oci0)) ?b = Some hash0"
    by (simp add: oci0_def sampleJSON_def)
  have "\<exists>w2. oci_PutBlob (oc_index oci0) w1 digest0 hash0 5 = (Inr (), w2)"
    unfolding oci_PutBlob_def
    using sample_index [OF w1(4), of "[ref0]" "oi_blobJSON (oc_index oci0)" ?b hash0 "''blob''" "encodeDigest id digest0"] enc
    unfolding oci0_simps oci0_parse ref0_def by (auto simp: hash0_def zero_hash_def HashSize_def CompressionThreshold_def)
  then obtain w2 where w2: "oci_PutBlob (oc_index oci0) w1 digest0 hash0 5 = (Inr (), w2)" by blast
  have x: "oi_es (oc_index oci0) = onMetaDB (boltStore id (\<lambda>_. True))" "json_ok (oi_blobJSON (oc_index oci0))"
    "index_ok (oi_blobs (oc_index oci0))" "oi_now (oc_index oci0) = 0" using oci0_server by (simp_all add: oci_server_def oci0_def)
  show ?thesis
    using server.oci_PutBlob_spec [OF x(1-3) w1(2) w2] w1 w2 x(4) by auto
qed

lemma oci0_fetchBlob:
  "\<exists>w. fetchAndStoreBlob oci0 oci_run0 registry0 ''x'' digest0 (store1, \<lambda>_. []) = (Inr \<lparr>dr_Hash = hash0, dr_Size = 5\<rparr>, w, \<lambda>_. [])
     \<and> world_ok blake3_0 w \<and> fs_healthy (cs_backend w) \<and> fs_content (cs_backend w) hash0 = Some ''hello''
     \<and> oci_GetBlob (oc_index oci0) w digest0 = Inr \<lparr>cb_Digest = digest0, cb_ContentHash = hash0, cb_Size = 5, cb_CachedAt = 0\<rparr>"
proof -
  have hex: "hex_encode (sha_256 sha0 ''hello'') = replicate 64 (CHR ''0'')" by code_simp
  show ?thesis
    using oci0_store hex
    by (auto simp: fetchAndStoreBlob_def FetchBlob_def oci0_simps oci0_fetch checked_def reply0_def oci0_parse
        Digest_NewHasher_def spool_def src1_simps blake3_0_def cacheBlob_def oci_run0_def temp0_def Let_def setTokens_def)
qed

theorem oci_blobs_verified_witness:
  "\<exists>w b orig. fold oci_step [(oci0, oci_run0, request ''GET'' ociPath0 src1)] (store1, \<lambda>_. [])
       = (w, \<lambda>_. [])
     \<and> oci_GetBlob (oc_index oci0) w digest0 = Inr b \<and> fs_content (cs_backend w) (cb_ContentHash b) = Some ''hello''
     \<and> Digest_Verify sha0 \<lparr>dg_Algorithm = ''sha256'', dg_Hex = replicate 64 (CHR ''0'')\<rparr> orig = Inr ()
     \<and> blake3_0 orig = blake3_0 ''hello''"
proof -
  let ?r = "request ''GET'' ociPath0 src1"
  let ?b = "\<lparr>cb_Digest = digest0, cb_ContentHash = hash0, cb_Size = 5, cb_CachedAt = 0\<rparr>"
  obtain w where f: "fetchAndStoreBlob oci0 oci_run0 registry0 ''x'' digest0 (store1, \<lambda>_. []) = (Inr \<lparr>dr_Hash = hash0, dr_Size = 5\<rparr>, w, \<lambda>_. [])"
    "world_ok blake3_0 w" "fs_content (cs_backend w) hash0 = Some ''hello''" "oci_GetBlob (oc_index oci0) w digest0 = Inr ?b"
    using oci0_fetchBlob by blast
  obtain resp w' where srv: "ServeFromStore (cafsOps serverStore0 temp0 0) w ?r \<lparr>dr_Hash = hash0, dr_Size = 5\<rparr>
      \<lparr>so_ContentType = ''application/octet-stream'', so_ExtraHeaders = [(contentDigest, digest0)]\<rparr> = (resp, w')" by fastforce
  have hash: "is_hash (dr_Hash \<lparr>dr_Hash = hash0, dr_Size = 5\<rparr>)" by simp
  note ss = server.ServeFromStore_spec [OF f(2) hash srv]
  have miss: "oci_GetBlob (oc_index oci0) store1 d = Inl NotCached" for d
    by (simp add: oci_GetBlob_def EI_GetJSON_def oci0_simps store1_miss indexError_def)
  have "oci_GetBlob (oc_index oci0) w' digest0 = oci_GetBlob (oc_index oci0) w digest0"
    by (rule server.oci_index_cong(2) [OF oci0_simps(1)]) (use ss in simp)
  then have w': "oci_GetBlob (oc_index oci0) w' digest0 = Inr ?b" "fs_content (cs_backend w') hash0 = Some ''hello''"
    using f(3,4) ss by simp_all
  have step: "oci_step (oci0, oci_run0, ?r) (store1, \<lambda>_. []) = (w', \<lambda>_. [])"
    using srv f(1) miss
    by (simp add: oci_step_def oci_ServeHTTP_def request_def oci0_simps oci0_routes handleGetBlob_def
        handleGetBlobWithDownloader_def Do_def oci_run0_def HandleResult_def server.ServeFromStore_lift)
  show ?thesis
    using oci_blobs_verified [of "[(oci0, oci_run0, ?r)]" id "\<lambda>_. True" codec0 blake3_0 "\<lambda>_. []" None oci0 store1 "\<lambda>_. []" w'
        "\<lambda>_. []" digest0] oci0_server w' step miss store1_ok(1) oci0_parse(1)
    by (simp add: same_blobs_def oci_run0_def oci0_simps)
qed

text \<open>C6: a manifest that is fetched for a tag is stored under the digest of the registry's
  \<open>Docker-Content-Digest\<close> header without comparing it to the content; from then on a request for
  that digest, under any name of any registry, is answered with it, whatever digest it has.\<close>

theorem oci_digest_unverified:
  fixes s :: "(db, fs, unit, 'n) cafs oci_state"
  assumes h: "oci_server U mar c blake3 fmt nt h" and ok: "world_ok blake3 (fst s)" "fs_healthy (cs_backend (fst s))"
    and tag: "\<not> IsDigestReference (rr_Reference rr)" "lookupManifest h (fst s) rr = None"
    and fetch: "FetchManifest (oc_env h) (rg_Upstream (rr_Registry rr)) (snd s (rg_Prefix (rr_Registry rr))) (rr_Name rr)
      (rr_Reference rr) = (Inr (m, mt, d), ac)" "or_written env"
    and run: "handleGetManifest h env s rr = (resp, s')"
    and stored: "GetManifest (oc_index h) (fst s') d \<noteq> GetManifest (oc_index h) (fst s) d"
    and later: "oc_index h' = oc_index h" "oc_store h' = oc_store h" "IsDigestReference d" "rr_Reference rr' = d"
  shows "\<exists>body s''. handleGetManifest h' env' s' rr' = (reply 200 [(''Content-Type'', mt), (contentDigest, d)] body, s'')
    \<and> blake3 body = blake3 m \<and> (fs_content (cs_backend (fst s)) (blake3 m) = None \<longrightarrow> body = m)"
proof -
  obtain tf now where on: "server.oci_on U mar c blake3 fmt nt tf now h" "server.oci_apart (oc_index h)"
    and st: "oc_store h = cafsOps (serverStore c blake3 fmt nt) tf now" by (rule oci_serverD [OF h])
  let ?w = "cacheManifest h (rr_IndexName rr) (rr_Reference rr) d mt m (fst s)"
  have s': "fst s' = ?w"
  proof -
    have "snd (handleGetManifest h env s rr) = (?w, snd (setTokens s (rr_Registry rr) ac))"
      unfolding handleGetManifest_def fetchManifestFor_def tag(2) fetch(1) by (simp add: tag(1) fetch(2) setTokens_def)
    then show ?thesis using run by simp
  qed
  note found = server.cacheManifest_found [OF on ok(1) stored [unfolded s']]
  obtain t where t: "GetManifest (oc_index h) ?w d = Inr \<lparr>cm_Digest = d, cm_MediaType = mt, cm_ContentHash = blake3 m,
      cm_Size = int (length m), cm_CachedAt = t\<rparr>" using found [THEN conjunct2, THEN conjunct2, THEN conjunct2, THEN conjunct1] by (elim exE) (rule that)
  obtain body where body: "fs_content (cs_backend ?w) (blake3 m) = Some body" "blake3 body = blake3 m"
    "fs_content (cs_backend (fst s)) (blake3 m) = None \<longrightarrow> body = m"
    using found [THEN conjunct2, THEN conjunct2, THEN conjunct2, THEN conjunct2] by (elim exE conjE) (rule that)
  have hash: "is_hash (blake3 m)" and inv: "world_ok blake3 ?w" and healthy: "fs_healthy (cs_backend ?w)"
    using found [THEN conjunct1] found [THEN conjunct2, THEN conjunct1] found [THEN conjunct2, THEN conjunct2, THEN conjunct1] ok(2)
    by iprover+
  obtain g w3 where g: "st_Get (cafsOps (serverStore c blake3 fmt nt) tf now) ?w (blake3 m) = (g, w3)" by fastforce
  have "g = Inr body"
    using server.get_blob [OF inv hash g] body(1) healthy by (cases g) auto
  moreover have "lookupManifest h' (fst s') rr' = Some \<lparr>cm_Digest = d, cm_MediaType = mt, cm_ContentHash = blake3 m,
      cm_Size = int (length m), cm_CachedAt = t\<rparr>"
    using later t s' by (simp add: lookupManifest_def Let_def)
  ultimately show ?thesis
    using g later st s' body(2,3) by (auto simp: handleGetManifest_def)
qed

text \<open>The registry's manifest for the tag is served for \<open>digest1\<close>, which is not its digest.\<close>

theorem oci_digest_unverified_witness:
  "\<exists>s s'. handleGetManifest oci0 oci_run0 (store1, \<lambda>_. [])
        \<lparr>rr_Registry = registry0, rr_Name = ''x'', rr_IndexName = ''hub/x'', rr_Reference = ''latest'', rr_Digest = [], rr_TagTTL = 60\<rparr>
        = (reply 200 [(''Content-Type'', []), (contentDigest, digest1)] ''hello'', s)
     \<and> handleGetManifest oci0 oci_run0 s
        \<lparr>rr_Registry = registry0, rr_Name = ''y'', rr_IndexName = ''hub/y'', rr_Reference = digest1, rr_Digest = [], rr_TagTTL = 60\<rparr>
        = (reply 200 [(''Content-Type'', []), (contentDigest, digest1)] ''hello'', s')
     \<and> Digest_Verify sha0 \<lparr>dg_Algorithm = ''sha256'', dg_Hex = replicate 64 (CHR ''1'')\<rparr> ''hello'' \<noteq> Inr ()"
proof -
  let ?rr = "\<lparr>rr_Registry = registry0, rr_Name = ''x'', rr_IndexName = ''hub/x'', rr_Reference = ''latest'', rr_Digest = [], rr_TagTTL = 60\<rparr>"
  let ?rr' = "\<lparr>rr_Registry = registry0, rr_Name = ''y'', rr_IndexName = ''hub/y'', rr_Reference = digest1, rr_Digest = [], rr_TagTTL = 60\<rparr>"
  have refs: "\<not> IsDigestReference ''latest''" "IsDigestReference digest1" by code_simp+
  have bad: "Digest_Verify sha0 \<lparr>dg_Algorithm = ''sha256'', dg_Hex = replicate 64 (CHR ''1'')\<rparr> ''hello'' \<noteq> Inr ()" by code_simp
  have limit: "LimitReader maxManifestSize src1 = src1" by (simp add: LimitReader_def maxManifestSize_def src1_def)
  have fetch: "FetchManifest ociEnv0 u [] n ref = (Inr (''hello'', [], digest1), [])" for u n ref
    using limit by (simp add: FetchManifest_def oci0_fetch checked_def reply0_def ReadAll_def src1_simps contentDigest_def)
  obtain w1 where w1: "Put serverStore0 temp0 0 store1 \<lparr>chunks = [''hello''], src_fails = False\<rparr> = (Inr hash0, w1)"
    "world_ok blake3_0 w1" "blobs_good (d_blobs (cs_metaDB w1))"
    using upload_succeeds [OF store1_ok(1,2), of "\<lparr>chunks = [''hello''], src_fails = False\<rparr>"] by (auto simp: blake3_0_def)
  let ?m = "\<lparr>cm_Digest = digest1, cm_MediaType = [], cm_ContentHash = hash0, cm_Size = 5, cm_CachedAt = 0\<rparr>"
  have enc: "j_enc (oi_manifestJSON (oc_index oci0)) ?m = Some hash0" by (simp add: oci0_def sampleJSON_def)
  have "\<exists>w2. PutManifest (oc_index oci0) w1 digest1 [] hash0 5 = (Inr (), w2)"
    using sample_index [OF w1(3), of "[ref0]" "oi_manifestJSON (oc_index oci0)" ?m hash0 "''manifest''" "encodeDigest id digest1"] enc
    unfolding PutManifest_def oci0_simps oci0_parse ref0_def by (auto simp: hash0_def zero_hash_def HashSize_def CompressionThreshold_def)
  then obtain w2 where w2: "PutManifest (oc_index oci0) w1 digest1 [] hash0 5 = (Inr (), w2)" by blast
  let ?w = "cacheManifest oci0 ''hub/x'' ''latest'' digest1 [] ''hello'' store1"
  have miss: "lookupManifest oci0 store1 ?rr = None"
    using refs store1_miss by (simp add: lookupManifest_def GetTagDigest_def EI_GetJSON_def oci0_simps indexError_def)
  have run: "handleGetManifest oci0 oci_run0 (store1, \<lambda>_. []) ?rr
      = (reply 200 [(''Content-Type'', []), (contentDigest, digest1)] ''hello'', ?w, \<lambda>_. [])"
    using miss refs fetch
    by (simp add: handleGetManifest_def fetchManifestFor_def oci0_simps Let_def setTokens_def oci_run0_def fun_upd_idem)
  have x: "oi_es (oc_index oci0) = onMetaDB (boltStore id (\<lambda>_. True))" "json_ok (oi_manifestJSON (oc_index oci0))"
    "index_ok (oi_manifests (oc_index oci0))" "oi_now (oc_index oci0) = 0" using oci0_server by (simp_all add: oci_server_def oci0_def)
  have "snd (SetTagDigest (oc_index oci0) w2 n t d) = w2" for n t d
    by (simp add: SetTagDigest_def EI_PutJSON_def oci0_def split: sum.split)
  then have "?w = w2"
    using w1(1) w2 refs by (simp add: cacheManifest_def oci0_simps)
  then have "GetManifest (oc_index oci0) ?w digest1 = Inr ?m"
    using server.PutManifest_spec [OF x(1-3) w1(2) w2] x(4) by simp
  then have stored: "GetManifest (oc_index oci0) ?w digest1 \<noteq> GetManifest (oc_index oci0) store1 digest1"
    using store1_miss by (simp add: GetManifest_def EI_GetJSON_def oci0_simps indexError_def)
  show ?thesis
    using oci_digest_unverified [OF oci0_server _ _ _ _ _ _ run, of "''hello''" "[]" digest1 "[]" oci0 ?rr' oci_run0] store1_ok miss refs fetch stored run bad
    by (fastforce simp: oci0_simps oci_run0_def)
qed

text \<open>C8: when the prefixes of the registries are accepted, a path is routed to a registry exactly when it
  continues \<open>/v2/\<close> with the registry's prefix and a slash, and then to no other.\<close>

theorem oci_routes_unique:
  assumes "oci_NewRouter U registries = Inr router"
  shows "(oci_Route router path = Some (r, rest) \<longleftrightarrow>
      r \<in> set registries \<and> TrimPrefix path ''/v2/'' = rg_Prefix r @ ''/'' @ rest)
    \<and> (r \<in> set registries \<longrightarrow> r' \<in> set registries \<longrightarrow> HasPrefix (rg_Prefix r') (rg_Prefix r) \<longrightarrow> r = r')"
  using oci_Route_iff [OF assms] oci_NewRouter_Inr(4) [OF assms] by blast

theorem oci_routes_unique_witness:
  "oci_Route [registry0] (''/v2/hub/x/manifests/latest'') = Some (registry0, ''x/manifests/latest'')"
proof -
  have "oci_NewRouter id [registry0] = Inr [registry0]" by code_simp
  from oci_routes_unique [OF this, of "''/v2/hub/x/manifests/latest''" registry0 "''x/manifests/latest''"]
  show ?thesis by (simp add: registry0_def TrimPrefix_def CutPrefix_def)
qed

section \<open>npm\<close>

text \<open>A scoped package goes to the route of its scope, every other package to the last route; a list
  of routes that ends with the catch-all leaves no package without an upstream.\<close>

theorem npm_routes:
  assumes "npm_NewRouter routes fallback = Inr router" "routes \<noteq> []"
  shows "npm_Match router name = Some (nr_Upstream
      (case List.find (\<lambda>r. \<not> nr_Any r \<and> nr_Scope r = extractScope name) routes of
         Some r \<Rightarrow> r | None \<Rightarrow> last routes))"
proof (cases "List.find (\<lambda>r. \<not> nr_Any r \<and> nr_Scope r = extractScope name) routes")
  case None
  then have "\<And>r. r \<in> set routes \<Longrightarrow> \<not> nr_Any r \<Longrightarrow> nr_Scope r \<noteq> extractScope name" by (auto simp: find_None_iff)
  then show ?thesis using None npm_Match_route(2) [OF assms] by simp
next
  case (Some r)
  then have "r \<in> set routes \<and> \<not> nr_Any r \<and> nr_Scope r = extractScope name" unfolding find_Some_iff by auto
  then show ?thesis using Some npm_Match_route(1) [OF assms] by simp
qed

theorem npm_routes_witness:
  "\<exists>router. npm_NewRouter [\<lparr>nr_Scope = ''@a'', nr_Any = False, nr_Upstream = 1\<rparr>, \<lparr>nr_Scope = [], nr_Any = True, nr_Upstream = 2\<rparr>] None
       = Inr router
     \<and> npm_Match router ''@a/x'' = Some (1::nat) \<and> npm_Match router ''@b/x'' = Some 2"
proof -
  let ?routes = "[\<lparr>nr_Scope = ''@a'', nr_Any = False, nr_Upstream = 1\<rparr>, \<lparr>nr_Scope = [], nr_Any = True, nr_Upstream = 2 :: nat\<rparr>]"
  have "\<exists>router. npm_NewRouter ?routes None = Inr router" by (simp add: npm_NewRouter_def)
  then obtain router where r: "npm_NewRouter ?routes None = Inr router" by blast
  have "extractScope ''@a/x'' = ''@a''" "extractScope ''@b/x'' = ''@b''" by code_simp+
  then show ?thesis using r npm_routes [OF r, of "''@a/x''"] npm_routes [OF r, of "''@b/x''"] by simp
qed

definition npm_server ::
  "(string \<Rightarrow> string) \<Rightarrow> (envelope \<Rightarrow> bool) \<Rightarrow> header_codec \<Rightarrow> (bytes \<Rightarrow> hash) \<Rightarrow> (int \<Rightarrow> string) \<Rightarrow> 'n notifier_ops option
     \<Rightarrow> (db, fs, unit, 'n) cafs npm \<Rightarrow> bool" where
  "npm_server U mar c blake3 fmt nt h \<longleftrightarrow>
     ni_es (np_index h) = onMetaDB (boltStore U mar)
     \<and> (\<exists>tf now. np_store h = cafsOps (serverStore c blake3 fmt nt) tf now) \<and> np_blake3 h = blake3
     \<and> json_ok (ni_json (np_index h)) \<and> index_ok (ni_cache (np_index h))"

text \<open>C4: when a request for a tarball that the index did not have makes the index name it, the tarball
  was fetched from the package's upstream and has the SHA-1 digest that the upstream publishes for
  the version, if it publishes one; every later request for it, whatever the network does, is
  answered with it.\<close>

theorem npm_tarball_served:
  fixes w :: "(db, fs, unit, 'n) cafs"
  assumes h: "npm_server U mar c blake3 fmt nt h" and ok: "world_ok blake3 w" "fs_healthy (cs_backend w)"
    and v: "extractVersionFromTarball name tarball = version" "version \<noteq> []"
    and run: "npm_handleTarball h env w r name tarball = (resp, w')" "np_downloader h" "nn_flight env = Executes" "nn_ctx env = None"
    and cached: "GetVersionTarballHash (np_index h) w name version = Inl e"
      "GetVersionTarballHash (np_index h) w' name version = Inr x" "\<not> hash_IsZero x"
    and later: "np_index h' = np_index h" "np_store h' = np_store h" "np_blake3 h' = np_blake3 h"
  shows "\<exists>upstream reply' body w''. npm_Match (np_router h) name = Some upstream
    \<and> npm_FetchTarballOf h upstream name version = Inr reply' \<and> \<not> src_fails (rp_Body reply')
    \<and> (fst (expectedDist h upstream name version) \<noteq> [] \<longrightarrow>
         hex_encode (np_sha1 h (concat (chunks (rp_Body reply')))) = fst (expectedDist h upstream name version))
    \<and> npm_handleTarball h' env' w' r' name tarball
        = (Some (reply 200 [(''Content-Type'', ''application/octet-stream'')] body), w'')
    \<and> blake3 body = blake3 (concat (chunks (rp_Body reply')))
    \<and> (fs_content (cs_backend w) (blake3 (concat (chunks (rp_Body reply')))) = None \<longrightarrow> body = concat (chunks (rp_Body reply')))"
proof -
  obtain tf now where st: "np_store h = cafsOps (serverStore c blake3 fmt nt) tf now"
    and on: "server.npm_on U mar c blake3 fmt nt tf now h" "ni_es (np_index h) = onMetaDB (boltStore U mar)"
    using h by (auto simp: npm_server_def server.npm_on_def)
  have on': "server.npm_on U mar c blake3 fmt nt tf now h'" using on(1) later by (simp add: server.npm_on_def)
  obtain upstream where up: "npm_Match (np_router h) name = Some upstream"
    using run(1) v cached by (cases "npm_Match (np_router h) name") (auto simp: npm_handleTarball_def Let_def)
  obtain res w1 where fetch: "fetchAndStoreTarball h (nn_temp env) upstream name version w = (res, w1)" by fastforce
  note fs = server.fetchAndStoreTarball_spec [OF on(1) ok(1) fetch]
  show ?thesis
  proof (cases res)
    case (Inl e')
    then have "w' = w1"
      using run fetch v cached(1) up
      by (simp add: npm_handleTarball_def Let_def npm_handleTarballWithDownloader_def Do_def HandleResult_def split: if_splits)
    then show ?thesis using fs Inl cached by simp
  next
    case (Inr result)
    obtain reply' where get: "npm_FetchTarballOf h upstream name version = Inr reply'" "\<not> src_fails (rp_Body reply')"
      and data: "(let data = concat (chunks (rp_Body reply')); expected = fst (expectedDist h upstream name version) in
               is_hash (dr_Hash result) \<and> dr_Hash result = blake3 data \<and> dr_Size result = int (length data)
               \<and> (expected \<noteq> [] \<longrightarrow> hex_encode (np_sha1 h data) = expected)
               \<and> (\<exists>d. fs_content (cs_backend w1) (blake3 data) = Some d \<and> blake3 d = blake3 data
                    \<and> (fs_content (cs_backend w) (blake3 data) = None \<longrightarrow> d = data))
               \<and> ((\<forall>name v. GetVersionTarballHash (np_index h) w1 name v = GetVersionTarballHash (np_index h) w name v)
                  \<or> GetVersionTarballHash (np_index h) w1 name version = Inr (blake3 data)))"
      using fs Inr by (simp only: sum.case) blast
    let ?data = "concat (chunks (rp_Body reply'))"
    obtain body where body: "fs_content (cs_backend w1) (blake3 ?data) = Some body" "blake3 body = blake3 ?data"
      "fs_content (cs_backend w) (blake3 ?data) = None \<longrightarrow> body = ?data"
      using data unfolding Let_def by (elim conjE exE) (rule that)
    have hash: "is_hash (dr_Hash result)" "dr_Hash result = blake3 ?data" using data unfolding Let_def by iprover+
    obtain resp2 w2 where srv: "ServeFromStore (cafsOps (serverStore c blake3 fmt nt) tf now) w1 r result
        \<lparr>so_ContentType = ''application/octet-stream'', so_ExtraHeaders = []\<rparr> = (resp2, w2)" by fastforce
    have inv1: "world_ok blake3 w1" "fs_healthy (cs_backend w1)" using fs ok(2) by blast+
    note ss = server.ServeFromStore_spec [OF inv1(1) hash(1) srv]
    have w': "w' = w2"
      using run fetch v cached(1) up Inr srv st
      by (simp add: npm_handleTarball_def Let_def npm_handleTarballWithDownloader_def Do_def HandleResult_def)
    have same: "GetVersionTarballHash (np_index h) w2 n v = GetVersionTarballHash (np_index h) w1 n v" for n v
      by (rule server.GetVersion_cong(2) [OF on(2)]) (use ss in simp)
    have x: "x = blake3 ?data"
      using data same cached(1,2) w' unfolding Let_def by auto
    have hit: "GetVersionTarballHash (np_index h') w2 name version = Inr x" "is_hash x"
      "fs_content (cs_backend w2) x = Some body" "world_ok blake3 w2" "fs_healthy (cs_backend w2)"
      using cached(2) w' later(1) x hash body(1) ss inv1 by simp_all
    obtain w'' where "npm_handleTarball h' env' w2 r' name tarball
        = (Some (reply 200 [(''Content-Type'', ''application/octet-stream'')] body), w'')"
      using server.npm_handleTarball_hit [OF on' hit(4,5,1,2) cached(3) hit(3) v] by blast
    moreover have "fst (expectedDist h upstream name version) \<noteq> [] \<longrightarrow> hex_encode (np_sha1 h ?data) = fst (expectedDist h upstream name version)"
      using data unfolding Let_def by iprover
    ultimately show ?thesis
      using up get body(2,3) unfolding w'
      by (intro exI [of _ upstream] exI [of _ reply'] exI [of _ body] exI [of _ w''] conjI) (assumption | iprover)+
  qed
qed

text \<open>A registry with one package, whose tarball has the published digest.\<close>

definition npmPackage0 :: "hash \<Rightarrow> cached_package" where
  "npmPackage0 x = withVersion 0 ''left-pad'' ''1.0.0'' x 6 (replicate 40 (CHR ''0'')) [] noPackage"

definition npmReply0 :: http_reply where
  "npmReply0 = \<lparr>rp_Status = 200, rp_Header = (\<lambda>_. []), rp_ContentLength = 6,
     rp_Body = \<lparr>chunks = [''wor'', ''ld!''], src_fails = False\<rparr>, rp_ReadError = DownloadFailed\<rparr>"

definition npm0 :: "(db, fs, unit, unit) cafs npm" where
  "npm0 = \<lparr>np_index = \<lparr>ni_es = onMetaDB (boltStore id (\<lambda>_. True)), ni_metadata = kindIdx ''metadata'',
       ni_cache = kindIdx ''cache'',
       ni_json = sampleJSON npmPackage0 (\<lambda>pkg. cv_TarballHash (snd (hd (cp_Versions pkg)))),
       ni_partial = (\<lambda>_. noPackage), ni_now = 0\<rparr>,
     np_store = cafsOps serverStore0 temp0 0,
     np_router = \<lparr>nrt_routes = [], nrt_fallback = Some \<lparr>nu_baseURL = ''https://npm'', nu_host = ''npm'', nu_token = []\<rparr>\<rparr>,
     np_publicBaseURL = [], np_downloader = True, np_client = (\<lambda>_ _ _. Inr npmReply0),
     np_js = \<lparr>nj_metadata = (\<lambda>_. Inr [(''1.0.0'', Some \<lparr>nd_Integrity = [], nd_Shasum = replicate 40 (CHR ''0'')\<rparr>)]),
       nj_decode = (\<lambda>_. Inr JNull), nj_unmarshal = (\<lambda>_. None), nj_marshal = (\<lambda>_. None)\<rparr>,
     np_blake3 = blake3_0, np_sha1 = (\<lambda>_. replicate 20 (CHR 0x00)), np_hostname = Some, np_fold = (=)\<rparr>"

definition npm_run0 :: npm_run where
  "npm_run0 = \<lparr>nn_temp = temp0, nn_opened = True, nn_flight = Executes, nn_ctx = None\<rparr>"

lemma npm0_server: "npm_server id (\<lambda>_. True) codec0 blake3_0 (\<lambda>_. []) None npm0"
  by (auto simp: npm_server_def npm0_def json_ok_sample index_ok_kind sep_def)

lemma npm0_simps:
  "ni_es (np_index npm0) = onMetaDB (boltStore id (\<lambda>_. True))" "ni_cache (np_index npm0) = kindIdx ''cache''"
  "ni_now (np_index npm0) = 0" "np_store npm0 = cafsOps serverStore0 temp0 0" "np_downloader npm0" "np_blake3 npm0 = blake3_0"
  by (simp_all add: npm0_def)

lemma npm0_store:
  "\<exists>w1 w2. Put serverStore0 temp0 0 store1 (spooled temp0 ''world!'') = (Inr hash1, w1)
     \<and> SetVersionTarballHash (np_index npm0) w1 ''left-pad'' ''1.0.0'' hash1 6 (replicate 40 (CHR ''0'')) [] = (Inr (), w2)
     \<and> world_ok blake3_0 w2 \<and> GetVersionTarballHash (np_index npm0) w2 ''left-pad'' ''1.0.0'' = Inr hash1"
proof -
  obtain w1 where w1: "Put serverStore0 temp0 0 store1 (spooled temp0 ''world!'') = (Inr hash1, w1)" "world_ok blake3_0 w1"
    "blobs_good (d_blobs (cs_metaDB w1))"
    "\<forall>p kd k. GetEnvelope (cs_metaDB w1) p kd k = GetEnvelope (cs_metaDB store1) p kd k"
    using upload_succeeds [OF store1_ok(1,2), of "spooled temp0 ''world!''"] by (auto simp: blake3_0_def temp0_def)
  have none: "EI_Get (onMetaDB (boltStore id (\<lambda>_. True))) idx w1 key = Inl ErrNotFound" for idx key
  proof -
    have "EI_Get (onMetaDB (boltStore id (\<lambda>_. True))) idx w1 key = EI_Get (onMetaDB (boltStore id (\<lambda>_. True))) idx store1 key"
      by (rule server.EI_Get_cong) (use w1(4) in simp)
    then show ?thesis by (simp add: store1_miss)
  qed
  have refs: "npm_collectBlobRefs (npmPackage0 hash1) = [ref1]"
    by (simp add: npm_collectBlobRefs_def npmPackage0_def withVersion_def noPackage_def Let_def hash_IsZero_def hash0_def [symmetric] ref1_def)
  have "j_enc (ni_json (np_index npm0)) (npmPackage0 hash1) = Some hash1"
    by (simp add: npm0_def sampleJSON_def npmPackage0_def withVersion_def noPackage_def Let_def)
  moreover have "length (encodePackageName ''left-pad'') = 8" "length hash1 < CompressionThreshold" by code_simp+
  ultimately have "\<exists>w2. SetVersionTarballHash (np_index npm0) w1 ''left-pad'' ''1.0.0'' hash1 6 (replicate 40 (CHR ''0'')) [] = (Inr (), w2)"
    using sample_index [OF w1(3), of "[ref1]" "ni_json (np_index npm0)" "npmPackage0 hash1" hash1 "''cache''" "encodePackageName ''left-pad''"]
    unfolding SetVersionTarballHash_def npm_packageBefore_def npm0_simps none EI_GetJSON_into_def Let_def sum.case
    by (auto simp: npmPackage0_def [symmetric] refs)
  then obtain w2 where w2: "SetVersionTarballHash (np_index npm0) w1 ''left-pad'' ''1.0.0'' hash1 6 (replicate 40 (CHR ''0'')) [] = (Inr (), w2)"
    by blast
  have x: "ni_es (np_index npm0) = onMetaDB (boltStore id (\<lambda>_. True))" "json_ok (ni_json (np_index npm0))" "index_ok (ni_cache (np_index npm0))"
    using npm0_server by (simp_all add: npm_server_def npm0_def)
  show ?thesis
    using w1(1) w2 server.SetVersion_spec [OF x w1(2) w2] server.SetVersion_found(1) [OF x w1(2) w2] by auto
qed

theorem npm_tarball_served_witness:
  "\<exists>resp w w'. npm_handleTarball npm0 npm_run0 store1 (request ''GET'' [] src1) ''left-pad'' ''left-pad-1.0.0'' = (resp, w)
     \<and> npm_handleTarball npm0 npm_run0 w (request ''GET'' [] src1) ''left-pad'' ''left-pad-1.0.0''
         = (Some (reply 200 [(''Content-Type'', ''application/octet-stream'')] ''world!''), w')"
proof -
  let ?r = "request ''GET'' [] src1" and ?up = "\<lparr>nu_baseURL = ''https://npm'', nu_host = ''npm'', nu_token = []\<rparr>"
  have v: "extractVersionFromTarball ''left-pad'' ''left-pad-1.0.0'' = ''1.0.0''" by code_simp
  have up: "npm_Match (np_router npm0) ''left-pad'' = Some ?up" by (simp add: npm_Match_def npm0_def)
  have dist: "expectedDist npm0 ?up ''left-pad'' ''1.0.0'' = (replicate 40 (CHR ''0''), [])"
    by (simp add: expectedDist_def npm_FetchPackageMetadata_def npm_fetch_def npm0_def npmReply0_def)
  have get: "npm_FetchTarballOf npm0 ?up ''left-pad'' ''1.0.0'' = Inr npmReply0"
    by (simp add: npm_FetchTarballOf_def npm_FetchTarball_def npm_fetch_def npm0_def npmReply0_def)
  have sha: "hex_encode (np_sha1 npm0 d) = replicate 40 (CHR ''0'')" for d
  proof -
    have "hex_encode (replicate 20 (CHR 0x00)) = replicate 40 (CHR ''0'')" by code_simp
    then show ?thesis by (simp add: npm0_def)
  qed
  obtain w1 w2 where w: "Put serverStore0 temp0 0 store1 (spooled temp0 ''world!'') = (Inr hash1, w1)"
    "SetVersionTarballHash (np_index npm0) w1 ''left-pad'' ''1.0.0'' hash1 6 (replicate 40 (CHR ''0'')) [] = (Inr (), w2)"
    "world_ok blake3_0 w2" "GetVersionTarballHash (np_index npm0) w2 ''left-pad'' ''1.0.0'' = Inr hash1" using npm0_store by blast
  have fetch: "fetchAndStoreTarball npm0 temp0 ?up ''left-pad'' ''1.0.0'' store1 = (Inr \<lparr>dr_Hash = hash1, dr_Size = 6\<rparr>, w2)"
    using w(1,2) by (simp add: fetchAndStoreTarball_def dist get sha spool_def npmReply0_def npm0_simps temp0_def blake3_0_def Let_def)
  have miss: "GetVersionTarballHash (np_index npm0) store1 n v = Inl NotCached" for n v
    by (simp add: GetVersionTarballHash_def npm_GetCachedPackage_def EI_GetJSON_def npm0_simps store1_miss indexError_def)
  obtain resp w3 where srv: "ServeFromStore (cafsOps serverStore0 temp0 0) w2 ?r \<lparr>dr_Hash = hash1, dr_Size = 6\<rparr>
      \<lparr>so_ContentType = ''application/octet-stream'', so_ExtraHeaders = []\<rparr> = (resp, w3)" by fastforce
  have run: "npm_handleTarball npm0 npm_run0 store1 ?r ''left-pad'' ''left-pad-1.0.0'' = (Some resp, w3)"
    using v miss up fetch srv
    by (simp add: npm_handleTarball_def npm_handleTarballWithDownloader_def Do_def npm_run0_def npm0_simps HandleResult_def Let_def)
  have hash: "is_hash (dr_Hash \<lparr>dr_Hash = hash1, dr_Size = 6\<rparr>)" by simp
  note ss = server.ServeFromStore_spec [OF w(3) hash srv]
  have found: "GetVersionTarballHash (np_index npm0) w3 ''left-pad'' ''1.0.0'' = Inr hash1"
    using server.GetVersion_cong(2) [OF npm0_simps(1), of w3 w2 "''left-pad''" "''1.0.0''"] ss w(4) by simp
  have ne: "''1.0.0'' \<noteq> []" by simp
  have go: "nn_flight npm_run0 = Executes" "nn_ctx npm_run0 = None" by (simp_all add: npm_run0_def)
  have nz: "\<not> hash_IsZero hash1" by (simp add: hash_IsZero_def hash0_def [symmetric])
  obtain upstream reply' body w'' where out: "npm_Match (np_router npm0) ''left-pad'' = Some upstream"
    "npm_FetchTarballOf npm0 upstream ''left-pad'' ''1.0.0'' = Inr reply'"
    "npm_handleTarball npm0 npm_run0 w3 ?r ''left-pad'' ''left-pad-1.0.0''
        = (Some (reply 200 [(''Content-Type'', ''application/octet-stream'')] body), w'')"
    "fs_content (cs_backend store1) (blake3_0 (concat (chunks (rp_Body reply')))) = None \<longrightarrow> body = concat (chunks (rp_Body reply'))"
    using npm_tarball_served [OF npm0_server store1_ok(1,2) v ne run npm0_simps(5) go miss found nz refl refl refl, of npm_run0 ?r]
    by (elim exE conjE) (rule that)
  then have "body = ''world!''" using up get store1_ok(3) by (simp add: npmReply0_def)
  then show ?thesis using run out(3) by blast
qed

text \<open>C9: recording the tarball of a version makes the index name it and leaves other packages alone. The
  package's other versions stay when the package could be read. The error of a failed read is
  ignored: when the stored bytes cannot be had, for whatever reason, the other versions are lost,
  and when they do not decode, those stay that \<open>json.Unmarshal\<close> had filled in.\<close>

theorem npm_version_recorded:
  fixes w :: "(db, fs, unit, 'n) cafs"
  assumes h: "npm_server U mar c blake3 fmt nt h" and ok: "world_ok blake3 w"
    and set: "SetVersionTarballHash (np_index h) w name version x sz shasum integrity = (Inr u, w')"
  shows "GetVersionTarballHash (np_index h) w' name version = Inr x
    \<and> (\<forall>version'. version' \<noteq> version \<longrightarrow> GetVersionTarballHash (np_index h) w' name version' =
         (case EI_Get (ni_es (np_index h)) (ni_cache (np_index h)) w (encodePackageName name) of
            Inl _ \<Rightarrow> Inl NotCached
          | Inr data \<Rightarrow>
              (case j_dec (ni_json (np_index h)) data of
                 Some _ \<Rightarrow> GetVersionTarballHash (np_index h) w name version'
               | None \<Rightarrow>
                   (case map_of (cp_Versions (ni_partial (np_index h) data)) version' of
                      None \<Rightarrow> Inl NotCached
                    | Some ver \<Rightarrow> Inr (cv_TarballHash ver)))))
    \<and> (\<forall>name' version'. encodePackageName name' \<noteq> encodePackageName name \<longrightarrow>
         GetVersionTarballHash (np_index h) w' name' version' = GetVersionTarballHash (np_index h) w name' version')"
proof -
  let ?x = "np_index h"
  have on: "ni_es ?x = onMetaDB (boltStore U mar)" "json_ok (ni_json ?x)" "index_ok (ni_cache ?x)"
    using h by (simp_all add: npm_server_def)
  note sv = server.SetVersion_found [OF on ok set]
  have "GetVersionTarballHash ?x w' name version' =
      (case EI_Get (ni_es ?x) (ni_cache ?x) w (encodePackageName name) of
         Inl _ \<Rightarrow> Inl NotCached
       | Inr data \<Rightarrow>
           (case j_dec (ni_json ?x) data of
              Some _ \<Rightarrow> GetVersionTarballHash ?x w name version'
            | None \<Rightarrow>
                (case map_of (cp_Versions (ni_partial ?x data)) version' of
                   None \<Rightarrow> Inl NotCached
                 | Some ver \<Rightarrow> Inr (cv_TarballHash ver))))" if "version' \<noteq> version" for version'
    using sv(2) [OF that]
    by (simp add: GetVersionTarballHash_def npm_GetCachedPackage_def npm_packageBefore_def EI_GetJSON_def EI_GetJSON_into_def
        noPackage_def split: sum.split option.split)
  moreover have "GetVersionTarballHash ?x w' name' version' = GetVersionTarballHash ?x w name' version'"
    if "encodePackageName name' \<noteq> encodePackageName name" for name' version'
    using server.SetVersion_spec [OF on ok set] that by (simp add: GetVersionTarballHash_def)
  ultimately show ?thesis using sv(1) by simp
qed

theorem npm_version_recorded_witness:
  "\<exists>w w'. SetVersionTarballHash (np_index npm0) w ''left-pad'' ''1.0.0'' hash1 6 (replicate 40 (CHR ''0'')) [] = (Inr (), w')
     \<and> GetVersionTarballHash (np_index npm0) w' ''left-pad'' ''1.0.0'' = Inr hash1
     \<and> GetVersionTarballHash (np_index npm0) w' ''right-pad'' ''1.0.0'' = GetVersionTarballHash (np_index npm0) w ''right-pad'' ''1.0.0''"
proof -
  have neq: "encodePackageName ''right-pad'' \<noteq> encodePackageName ''left-pad''" by code_simp
  obtain w w' where w: "SetVersionTarballHash (np_index npm0) w ''left-pad'' ''1.0.0'' hash1 6 (replicate 40 (CHR ''0'')) [] = (Inr (), w')"
    "world_ok blake3_0 w"
    using npm0_store upload_succeeds [OF store1_ok(1,2), of "spooled temp0 ''world!''"] by (auto simp: temp0_def)
  show ?thesis using w(1) npm_version_recorded [OF npm0_server w(2,1)] neq by blast
qed

section \<open>Go modules\<close>

text \<open>C7: storing a version of a module stores its information and its \<open>go.mod\<close> and lists it in order,
  once; every other version's entry, every other module's list and every blob stay.\<close>

theorem go_version_stored:
  fixes w :: "(db, fs, unit, 'n) cafs"
  assumes x: "gi_es x = onMetaDB (boltStore U mar)" "json_ok (gi_json x)" "index_ok (gi_mod x)" "index_ok (gi_info x)" "index_ok (gi_list x)"
      "distinct (map (\<lambda>i. (ix_protocol i, ix_kind i)) [gi_mod x, gi_info x, gi_list x])"
    and ok: "world_ok blake3 w"
    and list: "ListVersions x w m = Inr vs" "\<forall>v \<in> set vs. version_text v" "version_text v" "sorted vs" "module_path m"
    and put: "PutModuleVersion x w m v mv modFile = (Inr u, w')"
  shows "GetModuleVersion x w' m v = Inr mv \<and> GetMod x w' m v = Inr modFile
    \<and> ListVersions x w' m = Inr (if v \<in> set vs then vs else sort (vs @ [v]))
    \<and> (\<forall>m' v'. module_path m' \<longrightarrow> (m', v') \<noteq> (m, v) \<longrightarrow>
         GetModuleVersion x w' m' v' = GetModuleVersion x w m' v' \<and> GetMod x w' m' v' = GetMod x w m' v')
    \<and> (\<forall>m'. module_path m' \<longrightarrow> m' \<noteq> m \<longrightarrow> ListVersions x w' m' = ListVersions x w m')
    \<and> fs_content (cs_backend w') = fs_content (cs_backend w) \<and> world_ok blake3 w'"
proof -
  have on: "server.go_index_on U mar x" using x by (simp add: server.go_index_on_def)
  note spec = server.PutModuleVersion_spec [OF on ok list(1-3) put]
  have kinds: "(ix_protocol (gi_info x), ix_kind (gi_info x)) \<noteq> (ix_protocol (gi_mod x), ix_kind (gi_mod x))"
      "(ix_protocol (gi_info x), ix_kind (gi_info x)) \<noteq> (ix_protocol (gi_list x), ix_kind (gi_list x))"
      "(ix_protocol (gi_mod x), ix_kind (gi_mod x)) \<noteq> (ix_protocol (gi_list x), ix_kind (gi_list x))"
    using x(6) by auto
  have "GetModuleVersion x w' m' v' = GetModuleVersion x w m' v' \<and> GetMod x w' m' v' = GetMod x w m' v'"
    if "module_path m'" "(m', v') \<noteq> (m, v)" for m' v'
  proof -
    have "encodeVersionKey m' v' \<noteq> encodeVersionKey m v"
      using encodeVersionKey_inject [OF that(1) list(5)] that(2) by simp
    then show ?thesis
      using server.index_step_json [where dec = "j_dec (gi_json x)", OF spec(1) x(4), of "encodeVersionKey m' v'"]
        server.index_step_get [OF spec(1) x(3), of "encodeVersionKey m' v'"] kinds x(1)
      by (auto simp: GetModuleVersion_def GetMod_def server.go_ids_def)
  qed
  moreover have "ListVersions x w' m' = ListVersions x w m'" if "module_path m'" "m' \<noteq> m" for m'
  proof -
    have "encodeModuleKey m' \<noteq> encodeModuleKey m"
      using encodePath_inject that list(5) by (simp add: encodeModuleKey_def module_path_def)
    then show ?thesis
      using server.ListVersions_step [OF on spec(1), of m'] kinds by (auto simp: server.go_ids_def)
  qed
  ultimately show ?thesis using spec(2) [OF refl] spec(1) by (simp add: server.index_step_def)
qed

definition goVersion0 :: "hash \<Rightarrow> module_version" where
  "goVersion0 x = \<lparr>mv_Info = \<lparr>vi_Version = ''v1.0.0'', vi_Time = 0\<rparr>, mv_ModHash = zero_hash, mv_ZipHash = x\<rparr>"

definition goIndex0 :: "(db, fs, unit, unit) cafs go_index" where
  "goIndex0 = \<lparr>gi_es = onMetaDB (boltStore id (\<lambda>_. True)), gi_mod = kindIdx ''mod'', gi_info = kindIdx ''info'',
     gi_list = kindIdx ''list'', gi_json = sampleJSON goVersion0 mv_ZipHash, gi_now = 0, gi_unicode = id\<rparr>"

theorem go_version_stored_witness:
  "\<exists>w. PutModuleVersion goIndex0 store1 ''example.com/M'' ''v1.0.0'' (goVersion0 hash1) ''module example.com/M'' = (Inr (), w)
     \<and> ListVersions goIndex0 w ''example.com/M'' = Inr [''v1.0.0'']
     \<and> GetMod goIndex0 w ''example.com/M'' ''v1.0.0'' = Inr ''module example.com/M''"
proof -
  let ?m = "''example.com/M''" and ?v = "''v1.0.0''"
  let ?k = "encodeVersionKey ?m ?v" and ?es = "onMetaDB (boltStore id (\<lambda>_. True)) :: (db, fs, unit, unit) cafs envelope_store"
  have len: "length ?k = 21" "length (encodeModuleKey ?m) = 14" by code_simp+
  have texts: "version_text ?v" "module_path ?m" by code_simp+
  have nz: "\<not> hash_IsZero hash1" by (simp add: hash_IsZero_def hash0_def [symmetric])
  have good1: "blobs_good (d_blobs (cs_metaDB store1))"
    using store1_ok(1) by (simp add: world_ok_def storeOk_def blobs_inv_def)
  have enc: "j_enc (gi_json goIndex0) (goVersion0 hash1) = Some hash1"
    by (simp add: goIndex0_def sampleJSON_def goVersion0_def)
  have small: "length hash1 < CompressionThreshold" by code_simp
  obtain w1 where w1: "EI_PutJSON (j_enc (gi_json goIndex0)) ?es (kindIdx ''info'') 0 store1 ?k (goVersion0 hash1) [ref1] = (Inr (), w1)"
    "blobs_good (d_blobs (cs_metaDB w1))"
    using sample_index [OF good1 _ enc small, of "[ref1]" "''info''" ?k] len by auto
  obtain w2 where w2: "EI_Put ?es (kindIdx ''mod'') 0 w1 ?k ''module example.com/M'' CT_TEXT [] = (Inr (), w2)"
    "blobs_good (d_blobs (cs_metaDB w2))"
    using sample_put_options [OF w1(2), of "[]" "''module example.com/M''" "''mod''" ?k CT_TEXT] len
    by (auto simp: CompressionThreshold_def)
  obtain w3 where w3: "EI_Put ?es (kindIdx ''list'') 0 w2 (encodeModuleKey ?m) (?v @ [newline]) CT_TEXT [] = (Inr (), w3)"
    using sample_put_options [OF w2(2), of "[]" "?v @ [newline]" "''list''" "encodeModuleKey ?m" CT_TEXT] len
    by (auto simp: CompressionThreshold_def)
  have on: "gi_es goIndex0 = ?es" "gi_list goIndex0 = kindIdx ''list''" "gi_info goIndex0 = kindIdx ''info''"
    "gi_mod goIndex0 = kindIdx ''mod''" "gi_now goIndex0 = 0" "json_ok (gi_json goIndex0)"
    by (simp_all add: goIndex0_def json_ok_sample)
  have idx: "index_ok (kindIdx ''info'')" "index_ok (kindIdx ''mod'')" "index_ok (kindIdx ''list'')"
    by (simp_all add: index_ok_kind sep_def)
  have st1: "server.index_step id (\<lambda>_. True) blake3_0 store1 w1 {(''cache'', ''info'', ?k)}"
    using server.step_json(1) [OF idx(1) store1_ok(1) w1(1)] by simp
  have st2: "server.index_step id (\<lambda>_. True) blake3_0 w1 w2 {(''cache'', ''mod'', ?k)}"
    using server.step_put(1) [OF idx(2) server.index_step_inv [OF st1] w2(1)] by simp
  have "EI_Get ?es (kindIdx ''list'') w2 (encodeModuleKey ?m) = Inl ErrNotFound"
    using server.index_step_get [OF st1 idx(3), of "encodeModuleKey ?m"] server.index_step_get [OF st2 idx(3), of "encodeModuleKey ?m"]
    by (simp add: store1_miss)
  then have list2: "listVersionsInternal goIndex0 w2 ?m = Inr []" by (simp add: listVersionsInternal_def on)
  have list1: "ListVersions goIndex0 store1 ?m = Inr []" by (simp add: ListVersions_def on store1_miss)
  have refs: "go_collectBlobRefs (goVersion0 hash1) = [ref1]"
    using nz by (simp add: go_collectBlobRefs_def goVersion0_def ref1_def)
  have put: "PutModuleVersion goIndex0 store1 ?m ?v (goVersion0 hash1) ''module example.com/M'' = (Inr (), w3)"
    unfolding PutModuleVersion_def Let_def on refs w1(1) prod.case sum.case w2(1) addVersion_def list2
    using w3 by (simp add: writeVersionList_def on)
  show ?thesis
    using go_version_stored [OF on(1) on(6) _ _ _ _ store1_ok(1) list1 _ texts(1) _ texts(2) put] put idx
    by (simp add: on)
qed

section \<open>Streaming\<close>

text \<open>C5: what the client receives while a body is streamed is a beginning of that body; the callback
  that caches it runs only after the whole body has been sent and written, with its hash and its
  length, and then sees exactly the body; in every other case nothing is cached and no file is left.\<close>

theorem stream_integrity:
  assumes run: "StreamThrough blake3 sys r up opts f s = (resp, res, tmp, s')" and sent: "rs_Status resp = 200"
  shows "(\<exists>rest. concat (chunks up) = rs_Body resp @ rest)
    \<and> (s' = s \<and> tmp = None
       \<or> rs_Body resp = concat (chunks up) \<and> \<not> src_fails up \<and> res = Inr ()
         \<and> (sto_ContentLength opts > 0 \<longrightarrow> int (length (rs_Body resp)) = sto_ContentLength opts)
         \<and> (\<exists>keep. f \<lparr>dr_Hash = blake3 (rs_Body resp), dr_Size = int (length (rs_Body resp))\<rparr> (rs_Body resp) s = (keep, s')
              \<and> tmp = (if keep then Some (rs_Body resp) else None)))"
proof (cases "ss_create sys \<and> rq_Method r \<noteq> ''HEAD''")
  case False
  then show ?thesis using run sent by (auto simp: StreamThrough_def Let_def reply_def split: if_splits)
next
  case True
  obtain h t o1 e where c: "stream_copy sys 0 (chunks up) (src_fails up) ([], [], []) = ((h, t, o1), e)" by (metis prod.exhaust)
  note prefix = stream_copy_prefix [OF c]
  show ?thesis
  proof (cases e)
    case e: True
    then show ?thesis using run sent True c prefix
      by (auto simp: StreamThrough_def Let_def reply_def split: if_splits)
  next
    case False
    then have c': "stream_copy sys 0 (chunks up) (src_fails up) ([], [], []) = ((h, t, o1), False)" using c by simp
    note whole = stream_copy_complete [OF c']
    show ?thesis
    proof (cases "sto_ContentLength opts > 0 \<and> int (length o1) \<noteq> sto_ContentLength opts")
      case bad: True
      then show ?thesis using run True c' whole by (auto simp: StreamThrough_def Let_def reply_def)
    next
      case fine: False
      let ?b = "concat (chunks up)"
      have all: "h = ?b" "t = ?b" "o1 = ?b" "\<not> src_fails up" using whole by simp_all
      define hs where "hs = fold (\<lambda>(k, v) hs. hset hs k v) (sto_ExtraHeaders opts)
        ((''Content-Type'', sto_ContentType opts)
         # (if sto_ContentLength opts > 0 then [(''Content-Length'', FormatInt (sto_ContentLength opts))] else []))"
      have "StreamThrough blake3 sys r up opts f s = (case f \<lparr>dr_Hash = blake3 ?b, dr_Size = int (length ?b)\<rparr> ?b s of
          (False, s1) \<Rightarrow> (reply 200 hs ?b, Inr (), None, s1) | (True, s1) \<Rightarrow> (reply 200 hs ?b, Inr (), Some ?b, s1))"
        unfolding StreamThrough_def Let_def hs_def [symmetric] c' [unfolded all]
        using True fine all(3) by (cases "0 < sto_ContentLength opts") simp_all
      moreover obtain keep s1 where f: "f \<lparr>dr_Hash = blake3 ?b, dr_Size = int (length ?b)\<rparr> ?b s = (keep, s1)" by fastforce
      ultimately have "resp = reply 200 hs ?b" "res = Inr ()" "s' = s1" "tmp = (if keep then Some ?b else None)"
        using run by (cases keep; simp)+
      then show ?thesis using f fine all by (auto simp: reply_def)
    qed
  qed
qed

text \<open>A client that goes away after three bytes: nothing is cached.\<close>

theorem stream_integrity_witness:
  "\<exists>resp res. StreamThrough blake3_0 \<lparr>ss_create = True, ss_tmp = (\<lambda>_. None), ss_client = (\<lambda>i. if i = 1 then Some 1 else None)\<rparr>
       (request ''GET'' [] src1) src1 \<lparr>sto_ContentType = ''application/zip'', sto_ExtraHeaders = [], sto_ContentLength = 5\<rparr>
       (\<lambda>_ _ n. (True, Suc n)) 0 = (resp, res, None, 0 :: nat)
     \<and> rs_Body resp = ''hel'' \<and> (\<exists>rest. ''hello'' = rs_Body resp @ rest)"
proof -
  let ?sys = "\<lparr>ss_create = True, ss_tmp = (\<lambda>_. None), ss_client = (\<lambda>i. if i = 1 then Some 1 else None)\<rparr>"
  let ?opts = "\<lparr>sto_ContentType = ''application/zip'', sto_ExtraHeaders = [], sto_ContentLength = 5\<rparr>"
  obtain resp res tmp n where run: "StreamThrough blake3_0 ?sys (request ''GET'' [] src1) src1 ?opts (\<lambda>_ _ n. (True, Suc n)) (0::nat)
      = (resp, res, tmp, n)" by (rule prod_cases4)
  then have out: "rs_Status resp = 200" "rs_Body resp = ''hel''" "tmp = None" "n = 0"
    by (auto simp: StreamThrough_def request_def src1_def reply_def Let_def)
  show ?thesis using stream_integrity [OF run out(1)] run out by (auto simp: src1_def)
qed

end
