(* ===== verification/Maven.thy ===== *)
theory Maven
  imports Download Urls
begin

text \<open>
  The Maven repository protocol (\<open>protocol/maven\<close>): coordinates (\<open>types.go\<close>), the index (\<open>index.go\<close>),
  the upstream repositories (\<open>upstream.go\<close>) with their negative cache (\<open>negcache.go\<close>), paths and
  file names, and the handler (\<open>handler.go\<close>).
\<close>

section \<open>Coordinates\<close>

record checksums =
  ck_MD5 :: string
  ck_SHA1 :: string
  ck_SHA256 :: string
  ck_SHA512 :: string

record cached_metadata =
  md_GroupID :: string
  md_ArtifactID :: string
  md_Metadata :: bytes
  md_CachedAt :: time
  md_UpdatedAt :: time

record cached_artifact =
  ca_GroupID :: string
  ca_ArtifactID :: string
  ca_Version :: string
  ca_Classifier :: string
  ca_Extension :: string
  ca_Hash :: hash
  ca_Size :: int
  ca_Checksums :: checksums
  ca_CachedAt :: time

record coordinate =
  co_GroupID :: string
  co_ArtifactID :: string
  co_Version :: string
  co_Classifier :: string
  co_Extension :: string

definition groupIDToPath :: "string \<Rightarrow> string" where
  "groupIDToPath groupID = ReplaceChar groupID (CHR ''.'') ''/''"

definition pathToGroupID :: "string \<Rightarrow> string" where
  "pathToGroupID path = ReplaceChar path (CHR ''/'') ''.''"

definition coord_Filename :: "coordinate \<Rightarrow> string" where
  "coord_Filename c =
     co_ArtifactID c @ ''-'' @ co_Version c
     @ (if co_Classifier c \<noteq> [] then ''-'' @ co_Classifier c else []) @ ''.'' @ co_Extension c"

definition coord_FullPath :: "coordinate \<Rightarrow> string" where
  "coord_FullPath c =
     groupIDToPath (co_GroupID c) @ ''/'' @ co_ArtifactID c @ ''/'' @ co_Version c @ ''/'' @ coord_Filename c"

section \<open>The index\<close>

record 'w maven_index =
  mi_es :: "'w envelope_store"
  mi_metadata :: env_index
  mi_artifact :: env_index
  mi_metaJSON :: "cached_metadata json_codec"
  mi_artJSON :: "cached_artifact json_codec"
  mi_now :: time

definition metadataKey :: "string \<Rightarrow> string \<Rightarrow> string" where
  "metadataKey groupID artifactID = groupIDToPath groupID @ ''/'' @ artifactID"

definition artifactKey :: "coordinate \<Rightarrow> string" where
  "artifactKey c =
     (let classifier = (if co_Classifier c = [] then ''_default'' else co_Classifier c) in
      groupIDToPath (co_GroupID c) @ ''/'' @ co_ArtifactID c @ ''/'' @ co_Version c @ ''/'' @ classifier @ ''/''
      @ co_Extension c)"

definition maven_collectBlobRefs :: "cached_artifact \<Rightarrow> string list" where
  "maven_collectBlobRefs a = (if hash_IsZero (ca_Hash a) then [] else [BlobRef_String (NewBlobRef (ca_Hash a))])"

definition GetCachedMetadata :: "'w maven_index \<Rightarrow> 'w \<Rightarrow> string \<Rightarrow> string \<Rightarrow> index_error + cached_metadata" where
  "GetCachedMetadata x w groupID artifactID =
     (case EI_GetJSON (j_dec (mi_metaJSON x)) (mi_es x) (mi_metadata x) w (metadataKey groupID artifactID) of
        Inl e \<Rightarrow> Inl (indexError e)
      | Inr m \<Rightarrow> Inr m)"

definition PutCachedMetadata :: "'w maven_index \<Rightarrow> 'w \<Rightarrow> cached_metadata \<Rightarrow> (mdb_error + unit) \<times> 'w" where
  "PutCachedMetadata x w m0 =
     (let m1 = m0\<lparr>md_UpdatedAt := mi_now x\<rparr>;
          m = (if IsZero (md_CachedAt m1) then m1\<lparr>md_CachedAt := md_UpdatedAt m1\<rparr> else m1)
      in EI_PutJSON (j_enc (mi_metaJSON x)) (mi_es x) (mi_metadata x) (mi_now x) w
           (metadataKey (md_GroupID m) (md_ArtifactID m)) m [])"

definition GetCachedArtifact :: "'w maven_index \<Rightarrow> 'w \<Rightarrow> coordinate \<Rightarrow> index_error + cached_artifact" where
  "GetCachedArtifact x w c =
     (case EI_GetJSON (j_dec (mi_artJSON x)) (mi_es x) (mi_artifact x) w (artifactKey c) of
        Inl e \<Rightarrow> Inl (indexError e)
      | Inr a \<Rightarrow> Inr a)"

definition PutCachedArtifact :: "'w maven_index \<Rightarrow> 'w \<Rightarrow> cached_artifact \<Rightarrow> (mdb_error + unit) \<times> 'w" where
  "PutCachedArtifact x w a0 =
     (let a = a0\<lparr>ca_CachedAt := mi_now x\<rparr>;
          c = \<lparr>co_GroupID = ca_GroupID a, co_ArtifactID = ca_ArtifactID a, co_Version = ca_Version a,
               co_Classifier = ca_Classifier a, co_Extension = ca_Extension a\<rparr>
      in EI_PutJSON (j_enc (mi_artJSON x)) (mi_es x) (mi_artifact x) (mi_now x) w (artifactKey c) a
           (maven_collectBlobRefs a))"

definition GetArtifactHash :: "'w maven_index \<Rightarrow> 'w \<Rightarrow> coordinate \<Rightarrow> index_error + hash" where
  "GetArtifactHash x w c = rbind (GetCachedArtifact x w c) (\<lambda>a. Inr (ca_Hash a))"

definition ignoreNotFound :: "(mdb_error + unit) \<times> 'w \<Rightarrow> (mdb_error + unit) \<times> 'w" where
  "ignoreNotFound r =
     (case r of
        (Inl e, w) \<Rightarrow> if e \<noteq> ErrNotFound then (Inl e, w) else (Inr (), w)
      | (Inr _, w) \<Rightarrow> (Inr (), w))"

definition maven_DeleteMetadata :: "'w maven_index \<Rightarrow> 'w \<Rightarrow> string \<Rightarrow> string \<Rightarrow> (mdb_error + unit) \<times> 'w" where
  "maven_DeleteMetadata x w groupID artifactID =
     ignoreNotFound (EI_Delete (mi_es x) (mi_metadata x) w (metadataKey groupID artifactID))"

definition DeleteArtifact :: "'w maven_index \<Rightarrow> 'w \<Rightarrow> coordinate \<Rightarrow> (mdb_error + unit) \<times> 'w" where
  "DeleteArtifact x w c = ignoreNotFound (EI_Delete (mi_es x) (mi_artifact x) w (artifactKey c))"

definition IsMetadataExpired :: "'w maven_index \<Rightarrow> cached_metadata \<Rightarrow> int \<Rightarrow> bool" where
  "IsMetadataExpired x m ttl = (if ttl \<le> 0 then False else mi_now x - md_UpdatedAt m > ttl)"

definition ListArtifacts :: "'w maven_index \<Rightarrow> 'w \<Rightarrow> string \<Rightarrow> string \<Rightarrow> string list" where
  "ListArtifacts x w groupID artifactID =
     filter (\<lambda>key. HasPrefix key (groupIDToPath groupID @ ''/'' @ artifactID @ ''/'')) (EI_List (mi_es x) (mi_artifact x) w)"

section \<open>The upstream repositories\<close>

datatype path_kind = PathArtifact | PathMetadata

text \<open>The network answers within the timeouts or with an error; the negative cache is an envelope
  index of the same database, if there is one.\<close>

record 'w maven_upstream =
  mu_baseURLs :: "string list"
  mu_client :: http_client
  mu_userAgent :: string
  mu_artifactNegTTL :: int
  mu_metadataNegTTL :: int
  mu_neg :: "('w envelope_store \<times> env_index) option"
  mu_now :: time
  mu_unicode :: "string \<Rightarrow> string"

definition normalizeUpstreamURL :: "(string \<Rightarrow> string) \<Rightarrow> string \<Rightarrow> string" where
  "normalizeUpstreamURL U raw = TrimSuffix (TrimSpace U raw) ''/''"

definition WithRepositoryURL :: "string \<Rightarrow> 'w maven_upstream \<Rightarrow> 'w maven_upstream" where
  "WithRepositoryURL url u = u\<lparr>mu_baseURLs := [normalizeUpstreamURL (mu_unicode u) url]\<rparr>"

definition WithRepositoryURLs :: "string list \<Rightarrow> 'w maven_upstream \<Rightarrow> 'w maven_upstream" where
  "WithRepositoryURLs urls u = u\<lparr>mu_baseURLs := map (normalizeUpstreamURL (mu_unicode u)) urls\<rparr>"

definition ttlFor :: "'w maven_upstream \<Rightarrow> path_kind \<Rightarrow> int" where
  "ttlFor u kind = (if kind = PathMetadata then mu_metadataNegTTL u else mu_artifactNegTTL u)"

definition negCacheKey :: "string \<Rightarrow> string \<Rightarrow> string" where
  "negCacheKey baseURL key = baseURL @ CHR 0x00 # key"

definition isNegativelyCached :: "'w maven_upstream \<Rightarrow> 'w \<Rightarrow> string \<Rightarrow> string \<Rightarrow> bool" where
  "isNegativelyCached u w baseURL key =
     (case mu_neg u of
        None \<Rightarrow> False
      | Some (es, idx) \<Rightarrow>
          (case EI_GetEnvelope es idx w (negCacheKey baseURL key) of
             Inl _ \<Rightarrow> False
           | Inr env \<Rightarrow> if IsExpired (mu_now u) env then False else IsNegativeCache env))"

definition markNegative :: "'w maven_upstream \<Rightarrow> path_kind \<Rightarrow> 'w \<Rightarrow> string \<Rightarrow> string \<Rightarrow> 'w" where
  "markNegative u kind w baseURL key =
     (case mu_neg u of
        None \<Rightarrow> w
      | Some (es, idx) \<Rightarrow>
          (let ttl = ttlFor u kind in
           if ttl \<le> 0 then w else snd (EI_PutNegativeCache es idx (mu_now u) w (negCacheKey baseURL key) 404 ttl)))"

fun tryEach_loop ::
  "'w maven_upstream \<Rightarrow> path_kind \<Rightarrow> string \<Rightarrow> (string \<Rightarrow> dl_error + 'a) \<Rightarrow> string list \<Rightarrow> 'w \<Rightarrow> (dl_error + 'a) \<times> 'w" where
  "tryEach_loop u kind cacheKey fn [] w = (Inl UpstreamNotFound, w)"
| "tryEach_loop u kind cacheKey fn (baseURL # rest) w =
     (if isNegativelyCached u w baseURL cacheKey then tryEach_loop u kind cacheKey fn rest w
      else case fn baseURL of
          Inr x \<Rightarrow> (Inr x, w)
        | Inl e \<Rightarrow>
            if e = UpstreamNotFound
            then tryEach_loop u kind cacheKey fn rest (markNegative u kind w baseURL cacheKey)
            else (Inl e, w))"

definition tryEach ::
  "'w maven_upstream \<Rightarrow> path_kind \<Rightarrow> string \<Rightarrow> (string \<Rightarrow> dl_error + 'a) \<Rightarrow> 'w \<Rightarrow> (dl_error + 'a) \<times> 'w" where
  "tryEach u kind cacheKey fn w = tryEach_loop u kind cacheKey fn (mu_baseURLs u) w"

definition newRequest :: "'w maven_upstream \<Rightarrow> string \<Rightarrow> string \<Rightarrow> dl_error + http_reply" where
  "newRequest u meth url =
     mu_client u meth url (if mu_userAgent u \<noteq> [] then [(''User-Agent'', mu_userAgent u)] else [])"

definition okReply :: "http_reply \<Rightarrow> dl_error + http_reply" where
  "okReply resp =
     (if rp_Status resp = 404 then Inl UpstreamNotFound
      else if rp_Status resp \<noteq> 200 then Inl DownloadFailed
      else Inr resp)"

definition getBody :: "'w maven_upstream \<Rightarrow> string \<Rightarrow> dl_error + bytes" where
  "getBody u url = rbind (newRequest u ''GET'' url) (\<lambda>resp. rbind (okReply resp) ReadAll)"

definition FetchMetadataRaw :: "'w maven_upstream \<Rightarrow> string \<Rightarrow> string \<Rightarrow> 'w \<Rightarrow> (dl_error + bytes) \<times> 'w" where
  "FetchMetadataRaw u groupID artifactID =
     (let path = groupIDToPath groupID @ ''/'' @ artifactID @ ''/maven-metadata.xml'' in
      tryEach u PathMetadata (''GET:'' @ path) (\<lambda>baseURL. getBody u (baseURL @ ''/'' @ path)))"

definition FetchArtifact :: "'w maven_upstream \<Rightarrow> coordinate \<Rightarrow> 'w \<Rightarrow> (dl_error + http_reply) \<times> 'w" where
  "FetchArtifact u c =
     (let path = coord_FullPath c in
      tryEach u PathArtifact (''GET:'' @ path)
        (\<lambda>baseURL. rbind (newRequest u ''GET'' (baseURL @ ''/'' @ path)) okReply))"

definition checksumText :: "(string \<Rightarrow> string) \<Rightarrow> bytes \<Rightarrow> string" where
  "checksumText U data =
     (let s = TrimSpace U data in
      case IndexOf s (CHR '' '') of
        Some i \<Rightarrow> if i > 0 then take i s else s
      | None \<Rightarrow> s)"

definition FetchChecksum :: "'w maven_upstream \<Rightarrow> coordinate \<Rightarrow> string \<Rightarrow> 'w \<Rightarrow> (dl_error + string) \<times> 'w" where
  "FetchChecksum u c checksumType =
     (let path = coord_FullPath c @ ''.'' @ checksumType in
      tryEach u PathArtifact (''GET:'' @ path)
        (\<lambda>baseURL. rbind (getBody u (baseURL @ ''/'' @ path)) (\<lambda>data. Inr (checksumText (mu_unicode u) data))))"

definition HeadArtifact :: "'w maven_upstream \<Rightarrow> coordinate \<Rightarrow> 'w \<Rightarrow> (dl_error + int) \<times> 'w" where
  "HeadArtifact u c =
     (let path = coord_FullPath c in
      tryEach u PathArtifact (''HEAD:'' @ path)
        (\<lambda>baseURL. rbind (newRequest u ''HEAD'' (baseURL @ ''/'' @ path))
           (\<lambda>resp. rbind (okReply resp) (\<lambda>resp. Inr (rp_ContentLength resp)))))"

definition FetchRootFile :: "'w maven_upstream \<Rightarrow> string \<Rightarrow> 'w \<Rightarrow> (dl_error + bytes) \<times> 'w" where
  "FetchRootFile u filename =
     tryEach u PathMetadata (''GET:'' @ filename) (\<lambda>baseURL. getBody u (baseURL @ ''/'' @ filename))"

definition primaryBaseURL :: "'w maven_upstream \<Rightarrow> string" where
  "primaryBaseURL u = (case mu_baseURLs u of [] \<Rightarrow> [] | b # _ \<Rightarrow> b)"

definition ArtifactURL :: "'w maven_upstream \<Rightarrow> coordinate \<Rightarrow> string" where
  "ArtifactURL u c = primaryBaseURL u @ ''/'' @ coord_FullPath c"

definition MetadataURL :: "'w maven_upstream \<Rightarrow> string \<Rightarrow> string \<Rightarrow> string" where
  "MetadataURL u groupID artifactID =
     primaryBaseURL u @ ''/'' @ groupIDToPath groupID @ ''/'' @ artifactID @ ''/maven-metadata.xml''"

section \<open>Paths and file names\<close>

text \<open>The last segment of a path and what is before it.\<close>

definition splitLast :: "string \<Rightarrow> (string \<times> string) option" where
  "splitLast s = map_option (\<lambda>i. (take i s, drop (Suc i) s)) (LastIndexOf s (CHR ''/''))"

text \<open>\<open>metadataRegex\<close>, \<open>metadataChecksumRegex\<close> and \<open>artifactRegex\<close>: only the group may have slashes, and
  it has no line break.\<close>

definition groupAnd :: "string \<Rightarrow> (string \<times> string) option" where
  "groupAnd path =
     (case path of
        c # q \<Rightarrow>
          (case splitLast q of
             Some (g, a) \<Rightarrow> if c = CHR ''/'' \<and> g \<noteq> [] \<and> a \<noteq> [] \<and> CHR 0x0A \<notin> set g then Some (g, a) else None
           | None \<Rightarrow> None)
      | [] \<Rightarrow> None)"

definition matchMetadata :: "string \<Rightarrow> (string \<times> string) option" where
  "matchMetadata path =
     (case CutSuffix path ''/maven-metadata.xml'' of Some before \<Rightarrow> groupAnd before | None \<Rightarrow> None)"

definition checksumTypes :: "string list" where
  "checksumTypes = [''md5'', ''sha1'', ''sha256'', ''sha512'']"

definition matchMetadataChecksum :: "string \<Rightarrow> (string \<times> string \<times> string) option" where
  "matchMetadataChecksum path =
     (case List.find (\<lambda>ct. HasSuffix path (''/maven-metadata.xml.'' @ ct)) checksumTypes of
        None \<Rightarrow> None
      | Some ct \<Rightarrow>
          map_option (\<lambda>(g, a). (g, a, ct)) (matchMetadata (TrimSuffix path (''.'' @ ct))))"

definition matchArtifact :: "string \<Rightarrow> (string \<times> string \<times> string \<times> string) option" where
  "matchArtifact path =
     (case splitLast path of
        Some (p1, filename) \<Rightarrow>
          (case splitLast p1 of
             Some (p2, version) \<Rightarrow>
               (case groupAnd p2 of
                  Some (g, a) \<Rightarrow> if filename \<noteq> [] \<and> version \<noteq> [] then Some (g, a, version, filename) else None
                | None \<Rightarrow> None)
           | None \<Rightarrow> None)
      | None \<Rightarrow> None)"

text \<open>\<open>findSnapshotExtensionIndex\<close>: \<open>pos\<close> is where the part starts.\<close>

fun snapshotLoop :: "nat \<Rightarrow> string list \<Rightarrow> nat option" where
  "snapshotLoop pos [] = None"
| "snapshotLoop pos (p # ps) =
     (case IndexOf p (CHR ''.'') of
        Some d \<Rightarrow> if d > 0 then Some (pos + d) else snapshotLoop (pos + length p + 1) ps
      | None \<Rightarrow> snapshotLoop (pos + length p + 1) ps)"

definition findSnapshotExtensionIndex :: "string \<Rightarrow> nat option" where
  "findSnapshotExtensionIndex s =
     (case SplitOn s (CHR ''-'') of
        p # ps \<Rightarrow> snapshotLoop (length p + 1) ps
      | [] \<Rightarrow> None)"

definition snapshotRemainder :: "string \<Rightarrow> string \<Rightarrow> string \<Rightarrow> string" where
  "snapshotRemainder artifactID version filename =
     (case CutSuffix version ''-SNAPSHOT'' of
        None \<Rightarrow> []
      | Some base \<Rightarrow>
          (case CutPrefix filename (artifactID @ ''-'' @ base @ ''-'') of
             None \<Rightarrow> []
           | Some rest \<Rightarrow>
               (case findSnapshotExtensionIndex rest of Some i \<Rightarrow> drop i rest | None \<Rightarrow> [])))"

definition classifierAndExtension :: "string \<Rightarrow> (string \<times> string) option" where
  "classifierAndExtension remainder =
     (if HasPrefix remainder ''-'' then
        (let rest = TrimPrefix remainder ''-'' in
         case LastIndexOf rest (CHR ''.'') of
           None \<Rightarrow> None
         | Some i \<Rightarrow> if i = 0 \<or> drop (i + 1) rest = [] then None else Some (take i rest, drop (i + 1) rest))
      else if HasPrefix remainder ''.'' then
        (let ext = TrimPrefix remainder ''.'' in if ext = [] then None else Some ([], ext))
      else None)"

text \<open>Every error of the parser is answered alike. The group is filled in by the caller.\<close>

definition parseArtifactFilename :: "string \<Rightarrow> string \<Rightarrow> string \<Rightarrow> (coordinate \<times> string) option" where
  "parseArtifactFilename artifactID version filename0 =
     (let (checksumType, filename) =
            (case List.find (\<lambda>ct. HasSuffix filename0 (''.'' @ ct)) checksumTypes of
               Some ct \<Rightarrow> (ct, TrimSuffix filename0 (''.'' @ ct))
             | None \<Rightarrow> ([], filename0));
          remainder =
            (case CutPrefix filename (artifactID @ ''-'' @ version) of
               Some after \<Rightarrow> after
             | None \<Rightarrow> snapshotRemainder artifactID version filename)
      in if remainder = [] then None
         else map_option
                (\<lambda>(classifier, ext).
                   (\<lparr>co_GroupID = [], co_ArtifactID = artifactID, co_Version = version, co_Classifier = classifier,
                     co_Extension = ext\<rparr>, checksumType))
                (classifierAndExtension remainder))"

definition contentTypeForExtension :: "string \<Rightarrow> string" where
  "contentTypeForExtension ext =
     (if ext \<in> {''jar'', ''war'', ''ear'', ''aar''} then ''application/java-archive''
      else if ext = ''pom'' then ''application/xml''
      else if ext = ''zip'' then ''application/zip''
      else ''application/octet-stream'')"

section \<open>The handler\<close>

text \<open>The standard library's digests.\<close>

record digests =
  dg_MD5 :: "bytes \<Rightarrow> bytes"
  dg_SHA1 :: "bytes \<Rightarrow> bytes"
  dg_SHA256 :: "bytes \<Rightarrow> bytes"
  dg_SHA512 :: "bytes \<Rightarrow> bytes"

definition computeChecksum :: "digests \<Rightarrow> bytes \<Rightarrow> string \<Rightarrow> string" where
  "computeChecksum H data checksumType =
     (if checksumType = ''md5'' then hex_encode (dg_MD5 H data)
      else if checksumType = ''sha1'' then hex_encode (dg_SHA1 H data)
      else if checksumType = ''sha256'' then hex_encode (dg_SHA256 H data)
      else if checksumType = ''sha512'' then hex_encode (dg_SHA512 H data)
      else [])"

record 'w maven =
  mv_index :: "'w maven_index"
  mv_store :: "'w store_ops"
  mv_upstream :: "'w maven_upstream"
  mv_downloader :: bool
  mv_metadataTTL :: int
  mv_blake3 :: "bytes \<Rightarrow> hash"
  mv_digests :: digests

text \<open>How the system answers one request: temporary files, whether the cache job can open one again,
  the shared downloader, and how much of a body the client takes. Goroutines that cache have run
  when the step ends.\<close>

record maven_run =
  mr_temp :: temp_file
  mr_opened :: bool
  mr_flight :: flight
  mr_ctx :: "dl_error option"
  mr_sent :: "nat option"

definition bodyFor :: "http_request \<Rightarrow> bytes \<Rightarrow> bytes" where
  "bodyFor r data = (if rq_Method r \<noteq> ''HEAD'' then data else [])"

definition xmlHeader :: "(string \<times> string) list" where
  "xmlHeader = [(''Content-Type'', ''application/xml'')]"

definition textHeader :: "(string \<times> string) list" where
  "textHeader = [(''Content-Type'', ''text/plain'')]"

definition upstreamError :: "dl_error \<Rightarrow> http_response" where
  "upstreamError e = (if e = UpstreamNotFound then http_Error ''not found'' 404 else http_Error ''upstream error'' 502)"

definition handleRootFile :: "'w maven \<Rightarrow> 'w \<Rightarrow> http_request \<Rightarrow> string \<Rightarrow> http_response \<times> 'w" where
  "handleRootFile h w r filename =
     (case FetchRootFile (mv_upstream h) filename w of
        (Inl e, w1) \<Rightarrow> (upstreamError e, w1)
      | (Inr data, w1) \<Rightarrow> (reply 200 xmlHeader (bodyFor r data), w1))"

definition handleRootFileChecksum :: "'w maven \<Rightarrow> 'w \<Rightarrow> http_request \<Rightarrow> string \<Rightarrow> string \<Rightarrow> http_response \<times> 'w" where
  "handleRootFileChecksum h w r filename checksumType =
     (case FetchRootFile (mv_upstream h) (filename @ ''.'' @ checksumType) w of
        (Inr data, w1) \<Rightarrow> (reply 200 textHeader (bodyFor r data), w1)
      | (Inl e, w1) \<Rightarrow>
          if e = UpstreamNotFound
          then (case FetchRootFile (mv_upstream h) filename w1 of
              (Inl e, w2) \<Rightarrow> (upstreamError e, w2)
            | (Inr content, w2) \<Rightarrow>
                (reply 200 textHeader (bodyFor r (computeChecksum (mv_digests h) content checksumType)), w2))
          else (http_Error ''upstream error'' 502, w1))"

text \<open>The metadata that is cached and not expired.\<close>

definition freshMetadata :: "'w maven \<Rightarrow> 'w \<Rightarrow> string \<Rightarrow> string \<Rightarrow> bytes option" where
  "freshMetadata h w groupID artifactID =
     (case GetCachedMetadata (mv_index h) w groupID artifactID of
        Inr cached \<Rightarrow> if IsMetadataExpired (mv_index h) cached (mv_metadataTTL h) then None else Some (md_Metadata cached)
      | Inl _ \<Rightarrow> None)"

definition newMetadata :: "string \<Rightarrow> string \<Rightarrow> bytes \<Rightarrow> cached_metadata" where
  "newMetadata groupID artifactID raw =
     \<lparr>md_GroupID = groupID, md_ArtifactID = artifactID, md_Metadata = raw, md_CachedAt = zero_time,
      md_UpdatedAt = zero_time\<rparr>"

definition maven_handleMetadata :: "'w maven \<Rightarrow> 'w \<Rightarrow> http_request \<Rightarrow> string \<Rightarrow> string \<Rightarrow> http_response \<times> 'w" where
  "maven_handleMetadata h w r groupID artifactID =
     (case freshMetadata h w groupID artifactID of
        Some data \<Rightarrow> (reply 200 xmlHeader (bodyFor r data), w)
      | None \<Rightarrow>
          (case FetchMetadataRaw (mv_upstream h) groupID artifactID w of
             (Inl e, w1) \<Rightarrow> (upstreamError e, w1)
           | (Inr rawMeta, w1) \<Rightarrow>
               (reply 200 xmlHeader (bodyFor r rawMeta),
                snd (PutCachedMetadata (mv_index h) w1 (newMetadata groupID artifactID rawMeta)))))"

definition handleMetadataChecksum ::
  "'w maven \<Rightarrow> 'w \<Rightarrow> http_request \<Rightarrow> string \<Rightarrow> string \<Rightarrow> string \<Rightarrow> http_response \<times> 'w" where
  "handleMetadataChecksum h w r groupID artifactID checksumType =
     (let answer = (\<lambda>data. reply 200 textHeader (bodyFor r (computeChecksum (mv_digests h) data checksumType))) in
      case freshMetadata h w groupID artifactID of
        Some data \<Rightarrow> (answer data, w)
      | None \<Rightarrow>
          (case FetchMetadataRaw (mv_upstream h) groupID artifactID w of
             (Inl e, w1) \<Rightarrow> (upstreamError e, w1)
           | (Inr rawMeta, w1) \<Rightarrow> (answer rawMeta, w1)))"

definition artifactOf :: "'w maven \<Rightarrow> coordinate \<Rightarrow> bytes \<Rightarrow> cached_artifact" where
  "artifactOf h c data =
     \<lparr>ca_GroupID = co_GroupID c, ca_ArtifactID = co_ArtifactID c, ca_Version = co_Version c,
      ca_Classifier = co_Classifier c, ca_Extension = co_Extension c, ca_Hash = mv_blake3 h data,
      ca_Size = int (length data),
      ca_Checksums =
        \<lparr>ck_MD5 = hex_encode (dg_MD5 (mv_digests h) data), ck_SHA1 = hex_encode (dg_SHA1 (mv_digests h) data),
         ck_SHA256 = hex_encode (dg_SHA256 (mv_digests h) data), ck_SHA512 = hex_encode (dg_SHA512 (mv_digests h) data)\<rparr>,
      ca_CachedAt = zero_time\<rparr>"

text \<open>The published SHA-1, empty if the upstream gives none.\<close>

definition publishedSHA1 :: "'w maven \<Rightarrow> coordinate \<Rightarrow> 'w \<Rightarrow> string \<times> 'w" where
  "publishedSHA1 h c w =
     (case FetchChecksum (mv_upstream h) c ''sha1'' w of (Inl _, w1) \<Rightarrow> ([], w1) | (Inr s, w1) \<Rightarrow> (s, w1))"

definition sha1Mismatch :: "'w maven \<Rightarrow> string \<Rightarrow> bytes \<Rightarrow> bool" where
  "sha1Mismatch h published data \<longleftrightarrow> published \<noteq> [] \<and> hex_encode (dg_SHA1 (mv_digests h) data) \<noteq> published"

definition fetchAndStoreArtifact ::
  "'w maven \<Rightarrow> temp_file \<Rightarrow> coordinate \<Rightarrow> 'w \<Rightarrow> (dl_error + dl_result) \<times> 'w" where
  "fetchAndStoreArtifact h tf c w =
     (case publishedSHA1 h c w of
        (published, w1) \<Rightarrow>
          (case FetchArtifact (mv_upstream h) c w1 of
             (Inl e, w2) \<Rightarrow> (Inl e, w2)
           | (Inr resp, w2) \<Rightarrow>
               (case spool tf resp of
                  Inl e \<Rightarrow> (Inl (spoolError e), w2)
                | Inr data \<Rightarrow>
                    if sha1Mismatch h published data then (Inl DownloadFailed, w2)
                    else if \<not> tf_seek tf then (Inl DownloadFailed, w2)
                    else (case st_Put (mv_store h) w2 (spooled tf data) of
                        (Inl _, w3) \<Rightarrow> (Inl DownloadFailed, w3)
                      | (Inr _, w3) \<Rightarrow>
                          (Inr \<lparr>dr_Hash = mv_blake3 h data, dr_Size = int (length data)\<rparr>,
                           snd (PutCachedArtifact (mv_index h) w3 (artifactOf h c data)))))))"

definition cacheArtifact :: "'w maven \<Rightarrow> temp_file \<Rightarrow> bool \<Rightarrow> coordinate \<Rightarrow> bytes \<Rightarrow> 'w \<Rightarrow> 'w" where
  "cacheArtifact h tf opened c data w =
     (if \<not> opened then w
      else case st_Put (mv_store h) w (spooled tf data) of
          (Inl _, w1) \<Rightarrow> w1
        | (Inr _, w1) \<Rightarrow> snd (PutCachedArtifact (mv_index h) w1 (artifactOf h c data)))"

definition takeSent :: "nat option \<Rightarrow> bytes \<Rightarrow> bytes" where
  "takeSent n data = (case n of None \<Rightarrow> data | Some k \<Rightarrow> take k data)"

definition sizedHeader :: "string \<Rightarrow> int \<Rightarrow> (string \<times> string) list" where
  "sizedHeader ext sz =
     (''Content-Type'', contentTypeForExtension ext)
     # (if sz > 0 then [(''Content-Length'', FormatInt sz)] else [])"

definition handleArtifactDirect ::
  "'w maven \<Rightarrow> maven_run \<Rightarrow> 'w \<Rightarrow> http_request \<Rightarrow> coordinate \<Rightarrow> http_response \<times> 'w" where
  "handleArtifactDirect h run w r c =
     (case publishedSHA1 h c w of
        (published, w1) \<Rightarrow>
          (case FetchArtifact (mv_upstream h) c w1 of
             (Inl e, w2) \<Rightarrow> (upstreamError e, w2)
           | (Inr resp, w2) \<Rightarrow>
               (case spool (mr_temp run) resp of
                  Inl SpoolCreate \<Rightarrow> (http_Error ''internal error'' 500, w2)
                | Inl (SpoolCopy _) \<Rightarrow> (http_Error ''upstream error'' 502, w2)
                | Inr data \<Rightarrow>
                    if sha1Mismatch h published data then (http_Error ''integrity check failed'' 502, w2)
                    else if \<not> tf_seek (mr_temp run) then (http_Error ''internal error'' 500, w2)
                    else
                      (reply 200 (sizedHeader (co_Extension c) (int (length data)))
                         (bodyFor r (takeSent (mr_sent run) data)),
                       cacheArtifact h (mr_temp run) (mr_opened run) c data w2))))"

definition handleArtifactWithDownloader ::
  "'w maven \<Rightarrow> maven_run \<Rightarrow> 'w \<Rightarrow> http_request \<Rightarrow> coordinate \<Rightarrow> http_response \<times> 'w" where
  "handleArtifactWithDownloader h run w r c =
     (case Do (fetchAndStoreArtifact h (mr_temp run) c) (mr_flight run) (mr_ctx run) w of
        (res, _, w1) \<Rightarrow>
          (case HandleResult (\<lambda>e. e = UpstreamNotFound) None
                  \<lparr>so_ContentType = contentTypeForExtension (co_Extension c), so_ExtraHeaders = []\<rparr>
                  (mv_store h) r res w1 of
             (resp, _, w2) \<Rightarrow> (resp, w2)))"

definition handleArtifact ::
  "'w maven \<Rightarrow> maven_run \<Rightarrow> 'w \<Rightarrow> http_request \<Rightarrow> coordinate \<Rightarrow> http_response \<times> 'w" where
  "handleArtifact h run w r c =
     (let miss = (\<lambda>w. if mv_downloader h then handleArtifactWithDownloader h run w r c else handleArtifactDirect h run w r c) in
      case GetCachedArtifact (mv_index h) w c of
        Inl _ \<Rightarrow> miss w
      | Inr cached \<Rightarrow>
          if hash_IsZero (ca_Hash cached) then miss w
          else (case st_Get (mv_store h) w (ca_Hash cached) of
              (Inr d, w1) \<Rightarrow> (reply 200 (sizedHeader (co_Extension c) (ca_Size cached)) (bodyFor r d), w1)
            | (Inl _, w1) \<Rightarrow> miss w1))"

definition checksumOf :: "checksums \<Rightarrow> string \<Rightarrow> string" where
  "checksumOf cs checksumType =
     (if checksumType = ''md5'' then ck_MD5 cs
      else if checksumType = ''sha1'' then ck_SHA1 cs
      else if checksumType = ''sha256'' then ck_SHA256 cs
      else if checksumType = ''sha512'' then ck_SHA512 cs
      else [])"

definition handleArtifactChecksum ::
  "'w maven \<Rightarrow> 'w \<Rightarrow> http_request \<Rightarrow> coordinate \<Rightarrow> string \<Rightarrow> http_response \<times> 'w" where
  "handleArtifactChecksum h w r c checksumType =
     (let known = (case GetCachedArtifact (mv_index h) w c of
            Inl _ \<Rightarrow> [] | Inr cached \<Rightarrow> checksumOf (ca_Checksums cached) checksumType) in
      if known \<noteq> [] then (reply 200 textHeader (bodyFor r known), w)
      else case FetchChecksum (mv_upstream h) c checksumType w of
          (Inl e, w1) \<Rightarrow> (upstreamError e, w1)
        | (Inr checksum, w1) \<Rightarrow> (reply 200 textHeader (bodyFor r checksum), w1))"

definition archetypeCatalog :: string where
  "archetypeCatalog = ''archetype-catalog.xml''"

definition maven_ServeHTTP :: "'w maven \<Rightarrow> maven_run \<Rightarrow> 'w \<Rightarrow> http_request \<Rightarrow> http_response \<times> 'w" where
  "maven_ServeHTTP h run w r =
     (let path = rq_Path r in
      if rq_Method r \<noteq> ''GET'' \<and> rq_Method r \<noteq> ''HEAD'' then (http_Error ''method not allowed'' 405, w)
      else if path = ''/'' @ archetypeCatalog then handleRootFile h w r archetypeCatalog
      else case List.find (\<lambda>ct. path = ''/'' @ archetypeCatalog @ ''.'' @ ct) checksumTypes of
          Some ct \<Rightarrow> handleRootFileChecksum h w r archetypeCatalog ct
        | None \<Rightarrow>
            (case matchMetadataChecksum path of
               Some (groupPath, artifactID, checksumType) \<Rightarrow>
                 handleMetadataChecksum h w r (pathToGroupID groupPath) artifactID checksumType
             | None \<Rightarrow>
                 (case matchMetadata path of
                    Some (groupPath, artifactID) \<Rightarrow> maven_handleMetadata h w r (pathToGroupID groupPath) artifactID
                  | None \<Rightarrow>
                      (case matchArtifact path of
                         Some (groupPath, artifactID, version, filename) \<Rightarrow>
                           (case parseArtifactFilename artifactID version filename of
                              None \<Rightarrow> (http_Error ''not found'' 404, w)
                            | Some (c0, checksumType) \<Rightarrow>
                                (let c = c0\<lparr>co_GroupID := pathToGroupID groupPath\<rparr> in
                                 if checksumType \<noteq> [] then handleArtifactChecksum h w r c checksumType
                                 else handleArtifact h run w r c))
                       | None \<Rightarrow> (http_Error ''not found'' 404, w)))))"

text \<open>The coordinate of a recorded artifact is that of its request.\<close>

lemma PutCachedArtifact_of:
  "PutCachedArtifact x w (artifactOf h c data) =
     (let a = (artifactOf h c data)\<lparr>ca_CachedAt := mi_now x\<rparr> in
      EI_PutJSON (j_enc (mi_artJSON x)) (mi_es x) (mi_artifact x) (mi_now x) w (artifactKey c) a (maven_collectBlobRefs a))"
  by (cases c) (simp add: PutCachedArtifact_def artifactOf_def Let_def)

section \<open>The chain of repositories\<close>

text \<open>A repository is passed over when it is known not to have the path or answers so; the marks of
  the others do not matter, and a mark is read back only for the same repository and path.\<close>

lemma negCacheKey_inj:
  "CHR 0x00 \<notin> set b \<Longrightarrow> CHR 0x00 \<notin> set b' \<Longrightarrow> negCacheKey b k = negCacheKey b' k' \<longleftrightarrow> b = b' \<and> k = k'"
proof (induction b arbitrary: b')
  case Nil
  then show ?case by (cases b') (auto simp: negCacheKey_def)
next
  case (Cons c b)
  then show ?case by (cases b') (auto simp: negCacheKey_def)
qed

lemma isNegativelyCached_eq:
  "isNegativelyCached u w b k =
     (case mu_neg u of
        None \<Rightarrow> False
      | Some (es, idx) \<Rightarrow>
          (case es_Get es w (ix_protocol idx) (ix_kind idx) (negCacheKey b k) of
             Inr env \<Rightarrow> \<not> IsExpired (mu_now u) env \<and> IsNegativeCache env
           | Inl _ \<Rightarrow> False))"
  by (auto simp: isNegativelyCached_def EI_GetEnvelope_def split: option.splits sum.splits prod.splits)

context cache_world
begin

definition neg_on :: "'w maven_upstream \<Rightarrow> bool" where
  "neg_on u \<longleftrightarrow> (\<forall>es' idx. mu_neg u = Some (es', idx) \<longrightarrow> es' = es \<and> index_ok idx)"

definition neg_entries :: "'w maven_upstream \<Rightarrow> (string \<times> string \<times> string) set" where
  "neg_entries u = {(ix_protocol idx, ix_kind idx, k) |es' idx k. mu_neg u = Some (es', idx)}"

lemma markNegative_spec:
  assumes u: "neg_on u" and inv: "inv w"
  shows "index_step w (markNegative u kind w b k) (neg_entries u)
    \<and> (CHR 0x00 \<notin> set b \<longrightarrow> CHR 0x00 \<notin> set b' \<longrightarrow> (b', k') \<noteq> (b, k) \<longrightarrow>
         isNegativelyCached (u\<lparr>mu_now := t\<rparr>) (markNegative u kind w b k) b' k' = isNegativelyCached (u\<lparr>mu_now := t\<rparr>) w b' k')"
proof (cases "mu_neg u")
  case None
  then show ?thesis using inv by (simp add: markNegative_def index_step_refl isNegativelyCached_def)
next
  case (Some x)
  then obtain idx where x: "mu_neg u = Some (es, idx)" "index_ok idx" using u by (cases x) (auto simp: neg_on_def)
  show ?thesis
  proof (cases "ttlFor u kind \<le> 0")
    case True
    then show ?thesis using inv x(1) by (simp add: markNegative_def index_step_refl)
  next
    case False
    obtain e r w' where put: "es_Put es w (ix_protocol idx) (ix_kind idx) (negCacheKey b k) (Some e) = (r, w')"
      and mark: "markNegative u kind w b k = w'"
      using x(1) False by (simp add: markNegative_def EI_PutNegativeCache_def Let_def) (metis prod.collapse)
    have frame: "inv w'" "content w' = content w" "healthy w' \<longleftrightarrow> healthy w" "\<And>e. r = Inl e \<Longrightarrow> w' = w"
      using env.put_inv [OF inv] es_content(1) es_healthy(1) env.put_err inv put by (metis snd_conv)+
    have other: "es_Get es w' p kd key = es_Get es w p kd key"
      if "(p, kd, key) \<noteq> (ix_protocol idx, ix_kind idx, negCacheKey b k)" "ok_id (p, kd, key)" for p kd key
    proof (cases r)
      case (Inl e)
      then show ?thesis using frame(4) by simp
    next
      case (Inr y)
      then have "es_Put es w (ix_protocol idx) (ix_kind idx) (negCacheKey b k) (Some e) = (Inr (), w')" using put by simp
      from env.put_other [OF inv index_ok_id [OF x(2)] that(2) that(1) this] show ?thesis .
    qed
    have "(ix_protocol idx, ix_kind idx, negCacheKey b k) \<in> neg_entries u" using x(1) by (auto simp: neg_entries_def)
    then have "EI_Get es idx' w' key = EI_Get es idx' w key"
      if "(ix_protocol idx', ix_kind idx', key) \<notin> neg_entries u" "ok_id (ix_protocol idx', ix_kind idx', key)" for idx' key
      using other [OF _ that(2)] that(1) by (metis EI_Get_def)
    then have "index_step w w' (neg_entries u)" using frame(1-3) unfolding index_step_def by blast
    moreover have "isNegativelyCached (u\<lparr>mu_now := t\<rparr>) w' b' k' = isNegativelyCached (u\<lparr>mu_now := t\<rparr>) w b' k'"
      if "CHR 0x00 \<notin> set b" "CHR 0x00 \<notin> set b'" "(b', k') \<noteq> (b, k)"
      using other [of "ix_protocol idx" "ix_kind idx" "negCacheKey b' k'"] index_ok_id [OF x(2)] that
        negCacheKey_inj [OF that(1,2), of k k'] x(1) by (auto simp: isNegativelyCached_eq)
    ultimately show ?thesis using mark by simp
  qed
qed

lemma tryEach_loop_spec:
  assumes u: "neg_on u"
  shows "inv w \<Longrightarrow> (\<forall>b \<in> set bs. CHR 0x00 \<notin> set b) \<Longrightarrow> tryEach_loop u kind k fn bs w = (res, w') \<Longrightarrow>
    index_step w w' (neg_entries u)
    \<and> res = (case List.find (\<lambda>b. \<not> isNegativelyCached u w b k \<and> fn b \<noteq> Inl UpstreamNotFound) bs of
               None \<Rightarrow> Inl UpstreamNotFound | Some b \<Rightarrow> fn b)
    \<and> (\<forall>t b' k'. CHR 0x00 \<notin> set b' \<longrightarrow> isNegativelyCached (u\<lparr>mu_now := t\<rparr>) w' b' k' \<longrightarrow>
         isNegativelyCached (u\<lparr>mu_now := t\<rparr>) w b' k'
         \<or> k' = k \<and> b' \<in> set bs \<and> fn b' = Inl UpstreamNotFound)"
proof (induction bs arbitrary: w)
  case Nil
  then show ?case by (simp add: index_step_refl)
next
  case (Cons b bs)
  show ?case
  proof (cases "isNegativelyCached u w b k \<or> fn b \<noteq> Inl UpstreamNotFound")
    case True
    show ?thesis
    proof (cases "isNegativelyCached u w b k")
      case skip: True
      then have run: "tryEach_loop u kind k fn bs w = (res, w')" using Cons.prems(3) by simp
      have "\<forall>b \<in> set bs. CHR 0x00 \<notin> set b" using Cons.prems(2) by simp
      from Cons.IH [OF Cons.prems(1) this run] show ?thesis using skip by auto
    next
      case False
      then have "res = fn b \<and> w' = w" using True Cons.prems(3) by (auto split: sum.splits if_splits)
      then show ?thesis using True False Cons.prems(1) by (simp add: index_step_refl)
    qed
  next
    case False
    let ?w1 = "markNegative u kind w b k"
    have run: "tryEach_loop u kind k fn bs ?w1 = (res, w')" using False Cons.prems(3) by simp
    have b0: "CHR 0x00 \<notin> set b" "\<forall>b \<in> set bs. CHR 0x00 \<notin> set b" using Cons.prems(2) by simp_all
    have m1: "index_step w ?w1 (neg_entries u)" using markNegative_spec [OF u Cons.prems(1)] by blast
    have m2: "isNegativelyCached (u\<lparr>mu_now := t\<rparr>) ?w1 b' k' = isNegativelyCached (u\<lparr>mu_now := t\<rparr>) w b' k'"
      if "CHR 0x00 \<notin> set b'" "(b', k') \<noteq> (b, k)" for t b' k'
      using markNegative_spec [OF u Cons.prems(1), of kind b k b' k' t] b0(1) that by blast
    have now: "isNegativelyCached u ?w1 b' k = isNegativelyCached u w b' k" if "b' \<in> set bs" "b' \<noteq> b" for b'
      using m2 [of b' k "mu_now u"] b0(2) that by simp
    note ih = Cons.IH [OF index_step_inv [OF m1] b0(2) run]
    have "List.find (\<lambda>x. \<not> isNegativelyCached u ?w1 x k \<and> fn x \<noteq> Inl UpstreamNotFound) bs
        = List.find (\<lambda>x. \<not> isNegativelyCached u w x k \<and> fn x \<noteq> Inl UpstreamNotFound) (b # bs)"
      using False now by (auto intro!: find_cong)
    moreover have "isNegativelyCached (u\<lparr>mu_now := t\<rparr>) w b' k' \<or> k' = k \<and> b' \<in> set (b # bs) \<and> fn b' = Inl UpstreamNotFound"
      if "CHR 0x00 \<notin> set b'" "isNegativelyCached (u\<lparr>mu_now := t\<rparr>) w' b' k'" for t b' k'
      using ih that m2 [OF that(1), of k' t] False by (cases "(b', k') = (b, k)") auto
    ultimately show ?thesis using ih index_step_trans [OF m1] by simp
  qed
qed

definition urls_ok :: "'w maven_upstream \<Rightarrow> bool" where
  "urls_ok u \<longleftrightarrow> neg_on u \<and> (\<forall>b \<in> set (mu_baseURLs u). CHR 0x00 \<notin> set b)"

lemma tryEach_step:
  "urls_ok u \<Longrightarrow> inv w \<Longrightarrow> tryEach u kind k fn w = (res, w') \<Longrightarrow> index_step w w' (neg_entries u)"
  using tryEach_loop_spec unfolding tryEach_def urls_ok_def by blast

text \<open>The store and the index of the server.\<close>

definition maven_on :: "'w maven \<Rightarrow> bool" where
  "maven_on h \<longleftrightarrow> mi_es (mv_index h) = es \<and> mv_store h = st \<and> mv_blake3 h = blake3
     \<and> json_ok (mi_artJSON (mv_index h)) \<and> index_ok (mi_artifact (mv_index h)) \<and> urls_ok (mv_upstream h)
     \<and> (\<forall>k. (ix_protocol (mi_artifact (mv_index h)), ix_kind (mi_artifact (mv_index h)), k) \<notin> neg_entries (mv_upstream h))"

lemma GetArtifact_cong:
  "mi_es x = es \<Longrightarrow> (\<And>p kd k. es_Get es w' p kd k = es_Get es w p kd k) \<Longrightarrow>
     GetCachedArtifact x w' c = GetCachedArtifact x w c"
  by (simp add: GetCachedArtifact_def EI_GetJSON_def EI_Get_def)

lemma GetArtifact_step:
  "maven_on h \<Longrightarrow> index_step w w' (neg_entries (mv_upstream h)) \<Longrightarrow>
     GetCachedArtifact (mv_index h) w' c = GetCachedArtifact (mv_index h) w c"
  by (simp add: GetCachedArtifact_def maven_on_def index_step_json)

lemma fetches_step:
  assumes h: "maven_on h" and inv: "inv w" and sum: "publishedSHA1 h c w = (published, w1)"
    and get: "FetchArtifact (mv_upstream h) c w1 = (res, w2)"
  shows "index_step w w1 (neg_entries (mv_upstream h)) \<and> index_step w w2 (neg_entries (mv_upstream h))"
proof -
  have u: "urls_ok (mv_upstream h)" using h by (simp add: maven_on_def)
  obtain r where "FetchChecksum (mv_upstream h) c ''sha1'' w = (r, w1)"
    using sum by (auto simp: publishedSHA1_def split: prod.splits sum.splits)
  then have s1: "index_step w w1 (neg_entries (mv_upstream h))"
    using tryEach_step [OF u inv] by (auto simp: FetchChecksum_def Let_def)
  moreover have "index_step w1 w2 (neg_entries (mv_upstream h))"
    using get tryEach_step [OF u index_step_inv [OF s1]] by (auto simp: FetchArtifact_def Let_def)
  ultimately show ?thesis using index_step_trans by blast
qed

text \<open>Storing an artifact's data and recording it: what the index then has is of this data, and the
  data is in the store.\<close>

definition stored_artifact :: "'w maven \<Rightarrow> coordinate \<Rightarrow> bytes \<Rightarrow> 'w \<Rightarrow> 'w \<Rightarrow> bool" where
  "stored_artifact h c data w w' \<longleftrightarrow>
     inv w' \<and> (healthy w \<longrightarrow> healthy w') \<and> is_hash (blake3 data)
     \<and> (\<exists>d. content w' (blake3 data) = Some d \<and> blake3 d = blake3 data
          \<and> (content w (blake3 data) = None \<longrightarrow> d = data))
     \<and> (GetCachedArtifact (mv_index h) w' c = GetCachedArtifact (mv_index h) w c
        \<or> (\<exists>t. GetCachedArtifact (mv_index h) w' c = Inr ((artifactOf h c data)\<lparr>ca_CachedAt := t\<rparr>)))"

lemma put_artifact:
  assumes h: "maven_on h" and inv: "inv w" and put: "st_Put st w (spooled tf data) = (Inr y, w1)"
    and rec: "w2 = snd (PutCachedArtifact (mv_index h) w1 (artifactOf h c data))"
  shows "stored_artifact h c data w w2"
proof -
  have on: "mi_es (mv_index h) = es" "mv_blake3 h = blake3" "json_ok (mi_artJSON (mv_index h))"
    "index_ok (mi_artifact (mv_index h))" using h by (simp_all add: maven_on_def)
  note pb = put_blob [OF inv put]
  note up = upload_stored [OF inv put]
  have same: "GetCachedArtifact (mv_index h) w1 c = GetCachedArtifact (mv_index h) w c"
    by (rule GetArtifact_cong [OF on(1)]) (use pb in blast)
  let ?a = "(artifactOf h c data)\<lparr>ca_CachedAt := mi_now (mv_index h)\<rparr>"
  obtain r where run: "EI_PutJSON (j_enc (mi_artJSON (mv_index h))) es (mi_artifact (mv_index h)) (mi_now (mv_index h)) w1
      (artifactKey c) ?a (maven_collectBlobRefs ?a) = (r, w2)"
    using rec on(1) by (cases "EI_PutJSON (j_enc (mi_artJSON (mv_index h))) es (mi_artifact (mv_index h))
        (mi_now (mv_index h)) w1 (artifactKey c) ?a (maven_collectBlobRefs ?a)") (simp add: PutCachedArtifact_of Let_def)
  have inv1: "inv w1" using pb by blast
  note js = index_json_put_get [OF on(4,3) inv1 run]
  have rec2: "GetCachedArtifact (mv_index h) w2 c = GetCachedArtifact (mv_index h) w c \<or> GetCachedArtifact (mv_index h) w2 c = Inr ?a"
    unfolding same [symmetric] using js on(1) by (cases r) (simp_all add: GetCachedArtifact_def)
  have w2: "inv w2" "content w2 = content w1" "healthy w \<longrightarrow> healthy w2" using js pb by blast+
  obtain d where d: "content w1 y = Some d" "blake3 d = blake3 data" "content w (blake3 data) = None \<longrightarrow> d = data"
    and y: "is_hash y" "y = blake3 data"
    using up by (simp only: spooled_simps) (elim conjE exE, rule that)
  have "content w2 (blake3 data) = Some d" using d(1) y(2) w2(2) by simp
  with d(2,3) have "\<exists>d. content w2 (blake3 data) = Some d \<and> blake3 d = blake3 data \<and> (content w (blake3 data) = None \<longrightarrow> d = data)"
    by (intro exI conjI)
  with w2(1,3) y rec2 show ?thesis unfolding stored_artifact_def by blast
qed

text \<open>A step that leaves the artifact's entry, or stores an artifact that was fetched and verified.\<close>

definition fetched_artifact :: "'w maven \<Rightarrow> coordinate \<Rightarrow> 'w \<Rightarrow> 'w \<Rightarrow> bool" where
  "fetched_artifact h c w w' \<longleftrightarrow> (\<exists>published w1 resp w2.
     publishedSHA1 h c w = (published, w1) \<and> FetchArtifact (mv_upstream h) c w1 = (Inr resp, w2)
     \<and> \<not> src_fails (rp_Body resp) \<and> \<not> sha1Mismatch h published (concat (chunks (rp_Body resp)))
     \<and> stored_artifact h c (concat (chunks (rp_Body resp))) w w')"

definition same_artifact :: "'w maven \<Rightarrow> coordinate \<Rightarrow> 'w \<Rightarrow> 'w \<Rightarrow> bool" where
  "same_artifact h c w w' \<longleftrightarrow> inv w' \<and> (healthy w \<longrightarrow> healthy w')
     \<and> GetCachedArtifact (mv_index h) w' c = GetCachedArtifact (mv_index h) w c"

lemma same_artifact_step:
  "maven_on h \<Longrightarrow> index_step w w' (neg_entries (mv_upstream h)) \<Longrightarrow> same_artifact h c w w'"
  using GetArtifact_step by (simp add: same_artifact_def index_step_def)

lemma same_artifact_put:
  "maven_on h \<Longrightarrow> inv w \<Longrightarrow> st_Put st w r = (pres, w') \<Longrightarrow> same_artifact h c w w'"
  using put_blob GetArtifact_cong unfolding same_artifact_def maven_on_def by metis

lemma same_artifact_trans: "same_artifact h c w w1 \<Longrightarrow> same_artifact h c w1 w2 \<Longrightarrow> same_artifact h c w w2"
  by (simp add: same_artifact_def)

lemma stored_after:
  assumes "index_step w w2 (neg_entries (mv_upstream h))" "maven_on h" "stored_artifact h c data w2 w'"
  shows "stored_artifact h c data w w'"
proof -
  have eqs: "content w2 = content w" "healthy w2 = healthy w" using assms(1) by (simp_all add: index_step_def)
  have same: "GetCachedArtifact (mv_index h) w2 c = GetCachedArtifact (mv_index h) w c"
    by (rule GetArtifact_step [OF assms(2,1)])
  have "stored_artifact h c data w w' = stored_artifact h c data w2 w'"
    unfolding stored_artifact_def eqs same by (rule refl)
  then show ?thesis using assms(3) by simp
qed

lemma fetched_cases:
  assumes h: "maven_on h" and inv: "inv w" and sum: "publishedSHA1 h c w = (published, w1)"
    and get: "FetchArtifact (mv_upstream h) c w1 = (Inr resp, w2)" and sp: "spool tf resp = Inr data"
    and ok: "\<not> sha1Mismatch h published data" and put: "st_Put (mv_store h) w2 (spooled tf data) = (Inr y, w3)"
  shows "fetched_artifact h c w (snd (PutCachedArtifact (mv_index h) w3 (artifactOf h c data)))"
proof -
  note step = fetches_step [OF h inv sum get]
  then have "stored_artifact h c data w2 (snd (PutCachedArtifact (mv_index h) w3 (artifactOf h c data)))"
    by (intro put_artifact [OF h _ _ refl]) (use put h index_step_inv in \<open>auto simp: maven_on_def\<close>)
  then have "stored_artifact h c data w (snd (PutCachedArtifact (mv_index h) w3 (artifactOf h c data)))"
    using stored_after step h by blast
  then show ?thesis using sum get ok spool_Inr [OF sp] unfolding fetched_artifact_def by blast
qed

lemma fetchAndStoreArtifact_spec:
  assumes h: "maven_on h" and inv: "inv w" and run: "fetchAndStoreArtifact h tf c w = (res, w')"
  shows "(same_artifact h c w w' \<and> (\<exists>e. res = Inl e))
    \<or> fetched_artifact h c w w' \<and> (\<exists>data. is_hash (blake3 data) \<and> res = Inr \<lparr>dr_Hash = blake3 data, dr_Size = int (length data)\<rparr>)"
proof -
  obtain published w1 where sum: "publishedSHA1 h c w = (published, w1)" by fastforce
  obtain fres w2 where get: "FetchArtifact (mv_upstream h) c w1 = (fres, w2)" by fastforce
  have step: "same_artifact h c w w2" "inv w2"
    using fetches_step [OF h inv sum get] same_artifact_step [OF h] index_step_inv by blast+
  show ?thesis
  proof (cases "\<exists>resp data. fres = Inr resp \<and> spool tf resp = Inr data \<and> \<not> sha1Mismatch h published data \<and> tf_seek tf")
    case False
    then have "w' = w2 \<and> (\<exists>e. res = Inl e)"
      using run sum get by (auto simp: fetchAndStoreArtifact_def split: sum.splits if_splits)
    then show ?thesis using step by blast
  next
    case True
    then obtain resp data where ok: "fres = Inr resp" "spool tf resp = Inr data" "\<not> sha1Mismatch h published data" "tf_seek tf"
      by blast
    obtain pres w3 where p: "st_Put (mv_store h) w2 (spooled tf data) = (pres, w3)" by fastforce
    have p': "st_Put st w2 (spooled tf data) = (pres, w3)" using p h by (simp add: maven_on_def)
    show ?thesis
    proof (cases pres)
      case (Inl e)
      then have "w' = w3 \<and> (\<exists>e. res = Inl e)"
        using run sum get ok p by (auto simp: fetchAndStoreArtifact_def)
      then show ?thesis using same_artifact_put [OF h step(2) p'] same_artifact_trans step(1) by blast
    next
      case (Inr y)
      have "w' = snd (PutCachedArtifact (mv_index h) w3 (artifactOf h c data))"
        "res = Inr \<lparr>dr_Hash = mv_blake3 h data, dr_Size = int (length data)\<rparr>"
        using run sum get ok p Inr by (auto simp: fetchAndStoreArtifact_def)
      moreover have "fetched_artifact h c w (snd (PutCachedArtifact (mv_index h) w3 (artifactOf h c data)))"
        by (rule fetched_cases [OF h inv sum get [unfolded ok(1)] ok(2,3) p [unfolded Inr]])
      moreover have "mv_blake3 h = blake3" using h by (simp add: maven_on_def)
      moreover have "is_hash (blake3 data)" using upload_stored [OF step(2) p' [unfolded Inr]] by (simp only: spooled_simps) blast
      ultimately show ?thesis by (simp only:) blast
    qed
  qed
qed

lemma handleArtifactDirect_spec:
  assumes h: "maven_on h" and inv: "inv w" and run: "handleArtifactDirect h e w r c = (resp, w')"
  shows "same_artifact h c w w' \<or> fetched_artifact h c w w'"
proof -
  obtain published w1 where sum: "publishedSHA1 h c w = (published, w1)" by fastforce
  obtain fres w2 where get: "FetchArtifact (mv_upstream h) c w1 = (fres, w2)" by fastforce
  have step: "same_artifact h c w w2" "inv w2"
    using fetches_step [OF h inv sum get] same_artifact_step [OF h] index_step_inv by blast+
  show ?thesis
  proof (cases "\<exists>up data. fres = Inr up \<and> spool (mr_temp e) up = Inr data \<and> \<not> sha1Mismatch h published data \<and> tf_seek (mr_temp e)")
    case False
    then have "w' = w2"
      using run sum get by (auto simp: handleArtifactDirect_def split: sum.splits spool_error.splits if_splits)
    then show ?thesis using step by blast
  next
    case True
    then obtain up data where ok: "fres = Inr up" "spool (mr_temp e) up = Inr data" "\<not> sha1Mismatch h published data"
      "tf_seek (mr_temp e)" by blast
    have w': "w' = cacheArtifact h (mr_temp e) (mr_opened e) c data w2"
      using run sum get ok by (simp add: handleArtifactDirect_def)
    obtain pres w3 where p: "st_Put (mv_store h) w2 (spooled (mr_temp e) data) = (pres, w3)" by fastforce
    have p': "st_Put st w2 (spooled (mr_temp e) data) = (pres, w3)" using p h by (simp add: maven_on_def)
    show ?thesis
    proof (cases pres)
      case (Inl x)
      then have "w' = w2 \<or> w' = w3" using w' p by (simp add: cacheArtifact_def)
      then show ?thesis using same_artifact_put [OF h step(2) p'] same_artifact_trans step(1) by blast
    next
      case (Inr y)
      then have "w' = w2 \<or> w' = snd (PutCachedArtifact (mv_index h) w3 (artifactOf h c data))"
        using w' p by (simp add: cacheArtifact_def)
      then show ?thesis using step(1) fetched_cases [OF h inv sum get [unfolded ok(1)] ok(2,3) p [unfolded Inr]] by blast
    qed
  qed
qed

lemma stored_served:
  assumes "stored_artifact h c data w w1" "maven_on h" "inv w2" "content w2 = content w1" "healthy w2 = healthy w1"
    "\<And>p kd k. es_Get es w2 p kd k = es_Get es w1 p kd k"
  shows "stored_artifact h c data w w2"
proof -
  have same: "GetCachedArtifact (mv_index h) w2 c = GetCachedArtifact (mv_index h) w1 c"
    by (rule GetArtifact_cong) (use assms(2,6) in \<open>simp_all add: maven_on_def\<close>)
  have "inv w1" using assms(1) by (simp add: stored_artifact_def)
  then have "stored_artifact h c data w w2 = stored_artifact h c data w w1"
    unfolding stored_artifact_def assms(4,5) same using assms(3) by blast
  then show ?thesis using assms(1) by simp
qed

lemma handleArtifact_spec:
  assumes h: "maven_on h" and inv: "inv w" and new: "GetCachedArtifact (mv_index h) w c = Inl e"
    and run: "handleArtifact h env w r c = (resp, w')" "mr_flight env = Executes"
  shows "same_artifact h c w w' \<or> fetched_artifact h c w w'"
proof (cases "mv_downloader h")
  case False
  then have "handleArtifactDirect h env w r c = (resp, w')" using run(1) new by (simp add: handleArtifact_def Let_def)
  then show ?thesis by (rule handleArtifactDirect_spec [OF h inv])
next
  case True
  obtain res w1 where fetch: "fetchAndStoreArtifact h (mr_temp env) c w = (res, w1)" by fastforce
  have go: "handleArtifactWithDownloader h env w r c = (resp, w')" using run(1) new True by (simp add: handleArtifact_def Let_def)
  show ?thesis
  proof (cases "mr_ctx env = None \<and> (\<exists>x. res = Inr x)")
    case False
    then have "w' = w1"
      using go run(2) fetch by (auto simp: handleArtifactWithDownloader_def Do_def HandleResult_def split: sum.splits option.splits if_splits)
    then show ?thesis using fetchAndStoreArtifact_spec [OF h inv fetch] by blast
  next
    case True
    then obtain data where f: "fetched_artifact h c w w1" "is_hash (blake3 data)"
      "res = Inr \<lparr>dr_Hash = blake3 data, dr_Size = int (length data)\<rparr>"
      using fetchAndStoreArtifact_spec [OF h inv fetch] by blast
    let ?opts = "\<lparr>so_ContentType = contentTypeForExtension (co_Extension c), so_ExtraHeaders = []\<rparr>"
    have srv: "ServeFromStore st w1 r \<lparr>dr_Hash = blake3 data, dr_Size = int (length data)\<rparr> ?opts = (resp, w')"
      using go run(2) fetch f(3) True h
      by (auto simp: handleArtifactWithDownloader_def Do_def HandleResult_def maven_on_def split: prod.splits)
    have hash: "is_hash (dr_Hash \<lparr>dr_Hash = blake3 data, dr_Size = int (length data)\<rparr>)" using f(2) by simp
    obtain published w2 up w3 where up: "publishedSHA1 h c w = (published, w2)" "FetchArtifact (mv_upstream h) c w2 = (Inr up, w3)"
      "\<not> src_fails (rp_Body up)" "\<not> sha1Mismatch h published (concat (chunks (rp_Body up)))"
      and st1: "stored_artifact h c (concat (chunks (rp_Body up))) w w1"
      using f(1) unfolding fetched_artifact_def by blast
    have "inv w1" using st1 by (simp add: stored_artifact_def)
    note ss = ServeFromStore_spec [OF this hash srv]
    have "stored_artifact h c (concat (chunks (rp_Body up))) w w'"
      by (rule stored_served [OF st1 h]) (use ss in blast)+
    then show ?thesis using up unfolding fetched_artifact_def by blast
  qed
qed

text \<open>What is recorded is served: the artifact from the store, and its checksums.\<close>

lemma handleArtifact_hit:
  assumes h: "mv_store h = st" and inv: "inv w" "healthy w"
    and hit: "GetCachedArtifact (mv_index h) w c = Inr a" "is_hash (ca_Hash a)" "\<not> hash_IsZero (ca_Hash a)"
      "content w (ca_Hash a) = Some d"
  shows "\<exists>w'. handleArtifact h env w r c = (reply 200 (sizedHeader (co_Extension c) (ca_Size a)) (bodyFor r d), w') \<and> inv w'"
proof -
  obtain res w1 where g: "st_Get st w (ca_Hash a) = (res, w1)" by fastforce
  note gb = get_blob [OF inv(1) hit(2) g]
  then have "res = Inr d" using inv(2) hit(4) by (cases res) auto
  then show ?thesis using h hit g gb by (simp add: handleArtifact_def Let_def)
qed

lemma checksum_recorded:
  "checksumOf (ca_Checksums (artifactOf h c data)) ct = computeChecksum (mv_digests h) data ct"
  by (simp add: checksumOf_def computeChecksum_def artifactOf_def)

lemma handleArtifactChecksum_hit:
  assumes "GetCachedArtifact (mv_index h') w c = Inr ((artifactOf h c data)\<lparr>ca_CachedAt := t\<rparr>)"
    "computeChecksum (mv_digests h) data ct \<noteq> []"
  shows "handleArtifactChecksum h' w r c ct = (reply 200 textHeader (bodyFor r (computeChecksum (mv_digests h) data ct)), w)"
  using assms by (simp add: handleArtifactChecksum_def checksum_recorded Let_def)

end

section \<open>Time-stamped snapshots\<close>

text \<open>A file of a snapshot version that carries a time stamp: what stands between the base version
  and the extension is dropped, the classifier included.\<close>

definition dashed :: "string list \<Rightarrow> string" where
  "dashed ps = concat (map (\<lambda>p. CHR ''-'' # p) ps)"

lemma SplitOn_dash: "CHR ''-'' \<notin> set p \<Longrightarrow> SplitOn (p @ CHR ''.'' # s) (CHR ''-'') \<noteq> []
    \<and> (\<exists>q. hd (SplitOn (p @ CHR ''.'' # s) (CHR ''-'')) = p @ CHR ''.'' # q)"
  by (induction p) (auto split: list.split)

lemma IndexOf_append: "c \<notin> set p \<Longrightarrow> IndexOf (p @ c # q) c = Some (length p)"
  by (induction p) auto

lemma IndexOf_none: "c \<notin> set p \<Longrightarrow> IndexOf p c = None"
  by (induction p) auto

text \<open>The parts up to the one with the first dot.\<close>

lemma snapshotLoop_dot:
  assumes "CHR ''-'' \<notin> set l" "CHR ''.'' \<notin> set l" "l \<noteq> []"
  shows "CHR ''-'' \<notin> set x \<Longrightarrow> (\<forall>p \<in> set ps. CHR ''-'' \<notin> set p \<and> CHR ''.'' \<notin> set p) \<Longrightarrow>
    snapshotLoop pos (tl (SplitOn (x @ dashed (ps @ [l]) @ CHR ''.'' # ext) (CHR ''-''))) =
      Some (pos + length (dashed (ps @ [l])) - 1)"
proof (induction ps arbitrary: pos x)
  case Nil
  obtain q qs where s: "SplitOn (l @ CHR ''.'' # ext) (CHR ''-'') = (l @ CHR ''.'' # q) # qs"
    using SplitOn_dash [OF assms(1), of ext] by (cases "SplitOn (l @ CHR ''.'' # ext) (CHR ''-'')") auto
  then show ?case using Nil assms by (simp add: dashed_def IndexOf_append)
next
  case (Cons p ps)
  have "SplitOn (p @ dashed (ps @ [l]) @ CHR ''.'' # ext) (CHR ''-'') = p # tl (SplitOn (p @ dashed (ps @ [l]) @ CHR ''.'' # ext) (CHR ''-''))"
    using Cons.prems by (cases ps) (simp_all add: dashed_def)
  then obtain rest where s: "SplitOn (p @ dashed (ps @ [l]) @ CHR ''.'' # ext) (CHR ''-'') = p # rest"
    "rest = tl (SplitOn (p @ dashed (ps @ [l]) @ CHR ''.'' # ext) (CHR ''-''))" by blast
  have "snapshotLoop (pos + length p + 1) rest = Some (pos + length p + 1 + length (dashed (ps @ [l])) - 1)"
    unfolding s(2) by (rule Cons.IH) (use Cons.prems in simp_all)
  then show ?case using s(1) Cons.prems by (simp add: dashed_def IndexOf_none)
qed

lemma findSnapshotExtensionIndex_dot:
  assumes "CHR ''-'' \<notin> set ts" "\<forall>p \<in> set (ps @ [l]). CHR ''-'' \<notin> set p \<and> CHR ''.'' \<notin> set p" "l \<noteq> []"
  shows "findSnapshotExtensionIndex (ts @ dashed (ps @ [l]) @ CHR ''.'' # ext) = Some (length (ts @ dashed (ps @ [l])))"
proof -
  have "SplitOn (ts @ dashed (ps @ [l]) @ CHR ''.'' # ext) (CHR ''-'') = ts # tl (SplitOn (ts @ dashed (ps @ [l]) @ CHR ''.'' # ext) (CHR ''-''))"
    using assms(1) by (cases ps) (simp_all add: dashed_def)
  moreover have "snapshotLoop (length ts + 1) (tl (SplitOn (ts @ dashed (ps @ [l]) @ CHR ''.'' # ext) (CHR ''-'')))
      = Some (length ts + 1 + length (dashed (ps @ [l])) - 1)"
    by (rule snapshotLoop_dot) (use assms in simp_all)
  ultimately show ?thesis by (simp add: findSnapshotExtensionIndex_def split: list.split) (metis list.sel(1,3))
qed

lemma parse_snapshot:
  assumes stamp: "CHR ''-'' \<notin> set ts" "ts \<noteq> []" "hd ts \<noteq> CHR ''S''"
    and parts: "\<forall>p \<in> set (ps @ [l]). CHR ''-'' \<notin> set p \<and> CHR ''.'' \<notin> set p" "l \<noteq> []"
    and ext: "ext \<noteq> []" "CHR ''.'' \<notin> set ext" "ext \<notin> set checksumTypes"
  shows "parseArtifactFilename a (b @ ''-SNAPSHOT'') (a @ ''-'' @ b @ ''-'' @ ts @ dashed (ps @ [l]) @ ''.'' @ ext)
    = Some (\<lparr>co_GroupID = [], co_ArtifactID = a, co_Version = b @ ''-SNAPSHOT'', co_Classifier = [], co_Extension = ext\<rparr>, [])"
proof -
  let ?rest = "ts @ dashed (ps @ [l]) @ ''.'' @ ext"
  let ?f = "a @ ''-'' @ b @ ''-'' @ ?rest"
  have suffix: "\<not> HasSuffix ?f (''.'' @ ct)" if "ct \<in> set checksumTypes" for ct
  proof
    assume "HasSuffix ?f (''.'' @ ct)"
    then obtain r where r: "(a @ ''-'' @ b @ ''-'' @ ts @ dashed (ps @ [l])) @ CHR ''.'' # ext = r @ CHR ''.'' # ct"
      by (auto simp: HasSuffix_iff)
    have "CHR ''.'' \<notin> set ct" using that by (auto simp: checksumTypes_def)
    then have "LastIndexOf (r @ CHR ''.'' # ct) (CHR ''.'') = Some (length r)" by (rule LastIndexOf_append)
    moreover have "LastIndexOf ((a @ ''-'' @ b @ ''-'' @ ts @ dashed (ps @ [l])) @ CHR ''.'' # ext) (CHR ''.'')
        = Some (length (a @ ''-'' @ b @ ''-'' @ ts @ dashed (ps @ [l])))" by (rule LastIndexOf_append [OF ext(2)])
    ultimately have "ct = ext" using r by (metis append_eq_append_conv list.inject option.inject)
    then show False using that ext(3) by simp
  qed
  then have find: "List.find (\<lambda>ct. HasSuffix ?f (''.'' @ ct)) checksumTypes = None"
    by (simp add: find_None_iff)
  have pre: "CutPrefix ?f (a @ ''-'' @ b @ ''-SNAPSHOT'') = None"
    using stamp(2,3) by (cases ts) (auto simp: CutPrefix_def HasPrefix_iff)
  have "snapshotRemainder a (b @ ''-SNAPSHOT'') ?f = ''.'' @ ext"
  proof -
    have "CutSuffix (b @ ''-SNAPSHOT'') ''-SNAPSHOT'' = Some b" by (simp add: CutSuffix_Some)
    moreover have "CutPrefix ?f (a @ ''-'' @ b @ ''-'') = Some ?rest" by (simp add: CutPrefix_Some)
    moreover have "findSnapshotExtensionIndex ?rest = Some (length (ts @ dashed (ps @ [l])))"
      using findSnapshotExtensionIndex_dot [OF stamp(1) parts, of ext] by simp
    ultimately show ?thesis by (simp add: snapshotRemainder_def)
  qed
  then show ?thesis
    using find pre ext(1) by (simp add: parseArtifactFilename_def classifierAndExtension_def TrimPrefix_def CutPrefix_def)
qed

end
