(* ===== verification/MavenProperties.thy ===== *)
theory MavenProperties
  imports RegistryProperties Maven
begin

text \<open>
  The properties of the Maven proxy as the server runs it: the chain of repositories with its
  negative cache, artifacts with their checksums, and time-stamped snapshots.
\<close>

section \<open>The chain of repositories\<close>

definition neg_server ::
  "(string \<Rightarrow> string) \<Rightarrow> (envelope \<Rightarrow> bool) \<Rightarrow> (db, fs, unit, 'n) cafs maven_upstream \<Rightarrow> bool" where
  "neg_server U mar u \<longleftrightarrow>
     (\<forall>es idx. mu_neg u = Some (es, idx) \<longrightarrow> es = onMetaDB (boltStore U mar) \<and> index_ok idx)
     \<and> (\<forall>b \<in> set (mu_baseURLs u). CHR 0x00 \<notin> set b)"

lemma neg_server: "neg_server U mar u \<Longrightarrow> server.urls_ok U mar u"
  by (simp add: neg_server_def server.urls_ok_def server.neg_on_def)

text \<open>C11: the answer is that of the first repository that is not known to lack the path and does not
  answer so, an error included, and not found if there is none; a repository that is held to lack a
  path was held so before, or has just answered so for this path. No blob changes.\<close>

theorem maven_repository_chain:
  fixes w :: "(db, fs, unit, 'n) cafs"
  assumes u: "neg_server U mar u" and ok: "world_ok blake3 w" and run: "tryEach u kind k fn w = (res, w')"
  shows "res = (case List.find (\<lambda>b. \<not> isNegativelyCached u w b k \<and> fn b \<noteq> Inl UpstreamNotFound) (mu_baseURLs u) of
           None \<Rightarrow> Inl UpstreamNotFound | Some b \<Rightarrow> fn b)
    \<and> (\<forall>t b' k'. CHR 0x00 \<notin> set b' \<longrightarrow> isNegativelyCached (u\<lparr>mu_now := t\<rparr>) w' b' k' \<longrightarrow>
         isNegativelyCached (u\<lparr>mu_now := t\<rparr>) w b' k'
         \<or> k' = k \<and> b' \<in> set (mu_baseURLs u) \<and> fn b' = Inl UpstreamNotFound)
    \<and> world_ok blake3 w' \<and> fs_content (cs_backend w') = fs_content (cs_backend w)"
proof -
  have on: "server.neg_on U mar u" "\<forall>b \<in> set (mu_baseURLs u). CHR 0x00 \<notin> set b"
    using neg_server [OF u] by (simp_all add: server.urls_ok_def)
  note spec = server.tryEach_loop_spec [OF on(1) ok on(2) run [unfolded tryEach_def]]
  then have "server.index_step U mar blake3 w w' (server.neg_entries u)" by blast
  then have "world_ok blake3 w' \<and> fs_content (cs_backend w') = fs_content (cs_backend w)"
    by (simp add: server.index_step_def)
  then show ?thesis using spec by blast
qed

text \<open>Two repositories of which the first answers that it does not have the path.\<close>

definition twoRepos :: "(db, fs, unit, unit) cafs maven_upstream" where
  "twoRepos = \<lparr>mu_baseURLs = [''https://a'', ''https://b''], mu_client = (\<lambda>_ _ _. Inl DownloadFailed), mu_userAgent = [],
     mu_artifactNegTTL = 60000000000, mu_metadataNegTTL = 0,
     mu_neg = Some (onMetaDB (boltStore id (\<lambda>_. True)), kindIdx ''negcache''), mu_now = 0, mu_unicode = id\<rparr>"

lemma store1_no_envelope: "EI_GetEnvelope (onMetaDB (boltStore U mar)) idx store1 key = Inl ErrNotFound"
  by (simp add: EI_GetEnvelope_def store1_def store0_def GetEnvelope_def createBuckets_def)

theorem maven_repository_chain_witness:
  "fst (tryEach twoRepos PathArtifact ''k'' (\<lambda>b. if b = ''https://a'' then Inl UpstreamNotFound else Inr b) store1)
     = Inr ''https://b''"
proof -
  let ?fn = "\<lambda>b. if b = ''https://a'' then Inl UpstreamNotFound else Inr b"
  have u: "neg_server id (\<lambda>_. True) twoRepos"
    by (simp add: neg_server_def twoRepos_def index_ok_kind sep_def)
  have none: "\<not> isNegativelyCached twoRepos store1 b k" for b k
    by (simp add: isNegativelyCached_def twoRepos_def store1_no_envelope)
  obtain res w' where run: "tryEach twoRepos PathArtifact ''k'' ?fn store1 = (res, w')" by fastforce
  have "res = Inr ''https://b''"
    using maven_repository_chain [OF u store1_ok(1) run] none by (simp add: twoRepos_def)
  then show ?thesis using run by simp
qed

section \<open>Artifacts\<close>

definition maven_server ::
  "(string \<Rightarrow> string) \<Rightarrow> (envelope \<Rightarrow> bool) \<Rightarrow> header_codec \<Rightarrow> (bytes \<Rightarrow> hash) \<Rightarrow> (int \<Rightarrow> string) \<Rightarrow> 'n notifier_ops option
     \<Rightarrow> (db, fs, unit, 'n) cafs maven \<Rightarrow> bool" where
  "maven_server U mar c blake3 fmt nt h \<longleftrightarrow>
     mi_es (mv_index h) = onMetaDB (boltStore U mar)
     \<and> (\<exists>tf now. mv_store h = cafsOps (serverStore c blake3 fmt nt) tf now) \<and> mv_blake3 h = blake3
     \<and> json_ok (mi_artJSON (mv_index h)) \<and> index_ok (mi_artifact (mv_index h)) \<and> neg_server U mar (mv_upstream h)
     \<and> (\<forall>es idx. mu_neg (mv_upstream h) = Some (es, idx) \<longrightarrow>
          (ix_protocol idx, ix_kind idx) \<noteq> (ix_protocol (mi_artifact (mv_index h)), ix_kind (mi_artifact (mv_index h))))"

lemma maven_serverD:
  assumes "maven_server U mar c blake3 fmt nt h"
  obtains tf now where "server.maven_on U mar c blake3 fmt nt tf now h" "mv_store h = cafsOps (serverStore c blake3 fmt nt) tf now"
  using assms neg_server [of U mar "mv_upstream h"]
  by (fastforce simp: maven_server_def server.maven_on_def server.neg_entries_def)

text \<open>C10: when a request for an artifact makes the index name it, the data was fetched from the
  upstream and has the SHA-1 that the upstream publishes, if it publishes one. From then on, whatever
  the network does, the artifact is answered from the store and each of its checksum files with the
  digest of the data that was fetched.\<close>

theorem maven_artifact_served:
  fixes w :: "(db, fs, unit, 'n) cafs"
  assumes h: "maven_server U mar c blake3 fmt nt h" and ok: "world_ok blake3 w" "fs_healthy (cs_backend w)"
    and run: "handleArtifact h env w r co = (resp, w')" "mr_flight env = Executes"
    and cached: "GetCachedArtifact (mv_index h) w co = Inl e" "GetCachedArtifact (mv_index h) w' co = Inr a"
      "\<not> hash_IsZero (ca_Hash a)"
    and later: "mv_index h' = (mv_index h)\<lparr>mi_now := t\<rparr>" "mv_store h' = mv_store h"
  shows "\<exists>published w1 up w2 body w3. publishedSHA1 h co w = (published, w1)
    \<and> FetchArtifact (mv_upstream h) co w1 = (Inr up, w2) \<and> \<not> src_fails (rp_Body up)
    \<and> (published \<noteq> [] \<longrightarrow> hex_encode (dg_SHA1 (mv_digests h) (concat (chunks (rp_Body up)))) = published)
    \<and> handleArtifact h' env' w' r' co
        = (reply 200 (sizedHeader (co_Extension co) (int (length (concat (chunks (rp_Body up)))))) (bodyFor r' body), w3)
    \<and> blake3 body = blake3 (concat (chunks (rp_Body up)))
    \<and> (fs_content (cs_backend w) (blake3 (concat (chunks (rp_Body up)))) = None \<longrightarrow> body = concat (chunks (rp_Body up)))
    \<and> (\<forall>ct. computeChecksum (mv_digests h) (concat (chunks (rp_Body up))) ct \<noteq> [] \<longrightarrow>
         handleArtifactChecksum h' w' r' co ct
           = (reply 200 textHeader (bodyFor r' (computeChecksum (mv_digests h) (concat (chunks (rp_Body up))) ct)), w'))"
proof -
  obtain tf now where on: "server.maven_on U mar c blake3 fmt nt tf now h"
    and st: "mv_store h = cafsOps (serverStore c blake3 fmt nt) tf now" by (rule maven_serverD [OF h])
  have b3: "mv_blake3 h = blake3" using h by (simp add: maven_server_def)
  have "server.fetched_artifact blake3 h co w w'"
    using server.handleArtifact_spec [OF on ok(1) cached(1) run] cached(1,2) by (auto simp: server.same_artifact_def)
  then obtain published w1 up w2 where up: "publishedSHA1 h co w = (published, w1)" "FetchArtifact (mv_upstream h) co w1 = (Inr up, w2)"
      "\<not> src_fails (rp_Body up)" "\<not> sha1Mismatch h published (concat (chunks (rp_Body up)))"
    and stored: "server.stored_artifact blake3 h co (concat (chunks (rp_Body up))) w w'"
    unfolding server.fetched_artifact_def by blast
  let ?data = "concat (chunks (rp_Body up))"
  obtain t0 where a: "a = (artifactOf h co ?data)\<lparr>ca_CachedAt := t0\<rparr>"
    using stored cached(1,2) unfolding server.stored_artifact_def by auto
  obtain body where body: "fs_content (cs_backend w') (blake3 ?data) = Some body" "blake3 body = blake3 ?data"
      "fs_content (cs_backend w) (blake3 ?data) = None \<longrightarrow> body = ?data"
    and ok': "world_ok blake3 w'" "fs_healthy (cs_backend w')" "is_hash (blake3 ?data)"
    using stored ok(2) unfolding server.stored_artifact_def by iprover
  have hash: "ca_Hash a = blake3 ?data" "ca_Size a = int (length ?data)" by (simp_all add: a artifactOf_def b3)
  have now: "GetCachedArtifact (mv_index h') w' co = Inr a" using cached(2) later(1) by (simp add: GetCachedArtifact_def)
  obtain w3 where hit: "handleArtifact h' env' w' r' co = (reply 200 (sizedHeader (co_Extension co) (ca_Size a)) (bodyFor r' body), w3)"
    using server.handleArtifact_hit [of h' c blake3 fmt nt tf now w' co a body env' r'] st later(2) ok' now hash(1) cached(3) body(1) by auto
  have sums: "handleArtifactChecksum h' w' r' co ct = (reply 200 textHeader (bodyFor r' (computeChecksum (mv_digests h) ?data ct)), w')"
    if "computeChecksum (mv_digests h) ?data ct \<noteq> []" for ct
    using server.handleArtifactChecksum_hit [OF now [unfolded a] that] .
  have "published \<noteq> [] \<longrightarrow> hex_encode (dg_SHA1 (mv_digests h) ?data) = published" using up(4) unfolding sha1Mismatch_def by blast
  then show ?thesis
    using up(1-3) hit [unfolded hash(2)] body(2,3) sums
    by (intro exI [of _ published] exI [of _ w1] exI [of _ up] exI [of _ w2] exI [of _ body] exI [of _ w3] conjI) (assumption | iprover)+
qed

text \<open>A repository with one artifact and its checksum file.\<close>

definition coord0 :: coordinate where
  "coord0 = \<lparr>co_GroupID = ''g'', co_ArtifactID = ''a'', co_Version = ''1'', co_Classifier = [], co_Extension = ''jar''\<rparr>"

definition zeros :: string where
  "zeros = replicate 40 (CHR ''0'')"

definition digests0 :: digests where
  "digests0 = \<lparr>dg_MD5 = (\<lambda>_. [CHR 0x00]), dg_SHA1 = (\<lambda>_. replicate 20 (CHR 0x00)), dg_SHA256 = (\<lambda>_. [CHR 0x00]),
     dg_SHA512 = (\<lambda>_. [CHR 0x00])\<rparr>"

definition mavenArtifact0 :: "hash \<Rightarrow> cached_artifact" where
  "mavenArtifact0 x = \<lparr>ca_GroupID = ''g'', ca_ArtifactID = ''a'', ca_Version = ''1'', ca_Classifier = [],
     ca_Extension = ''jar'', ca_Hash = x, ca_Size = 6,
     ca_Checksums = \<lparr>ck_MD5 = ''00'', ck_SHA1 = zeros, ck_SHA256 = ''00'', ck_SHA512 = ''00''\<rparr>, ca_CachedAt = 0\<rparr>"

definition mavenReply0 :: "bytes \<Rightarrow> http_reply" where
  "mavenReply0 b = \<lparr>rp_Status = 200, rp_Header = (\<lambda>_. []), rp_ContentLength = -1,
     rp_Body = \<lparr>chunks = [b], src_fails = False\<rparr>, rp_ReadError = DownloadFailed\<rparr>"

definition maven0 :: "(db, fs, unit, unit) cafs maven" where
  "maven0 = \<lparr>mv_index = \<lparr>mi_es = onMetaDB (boltStore id (\<lambda>_. True)), mi_metadata = kindIdx ''metadata'',
       mi_artifact = kindIdx ''artifact'', mi_metaJSON = \<lparr>j_enc = (\<lambda>_. None), j_dec = (\<lambda>_. None)\<rparr>,
       mi_artJSON = sampleJSON mavenArtifact0 ca_Hash, mi_now = 0\<rparr>,
     mv_store = cafsOps serverStore0 temp0 0,
     mv_upstream = twoRepos\<lparr>mu_baseURLs := [''https://b''],
       mu_client := (\<lambda>_ url _. Inr (mavenReply0 (if HasSuffix url ''.sha1'' then zeros else ''world!'')))\<rparr>,
     mv_downloader = False, mv_metadataTTL = 0, mv_blake3 = blake3_0, mv_digests = digests0\<rparr>"

definition maven_run0 :: maven_run where
  "maven_run0 = \<lparr>mr_temp = temp0, mr_opened = True, mr_flight = Executes, mr_ctx = None, mr_sent = None\<rparr>"

lemma maven0_server: "maven_server id (\<lambda>_. True) codec0 blake3_0 (\<lambda>_. []) None maven0"
  by (auto simp: maven_server_def maven0_def json_ok_sample index_ok_kind sep_def neg_server_def twoRepos_def)

lemma maven0_simps:
  "mi_es (mv_index maven0) = onMetaDB (boltStore id (\<lambda>_. True))" "mi_artifact (mv_index maven0) = kindIdx ''artifact''"
  "mi_now (mv_index maven0) = 0" "mv_store maven0 = cafsOps serverStore0 temp0 0" "\<not> mv_downloader maven0"
  "mi_artJSON (mv_index maven0) = sampleJSON mavenArtifact0 ca_Hash"
  by (simp_all add: maven0_def)

lemma maven0_upstream:
  "publishedSHA1 maven0 coord0 store1 = (zeros, store1)"
  "FetchArtifact (mv_upstream maven0) coord0 store1 = (Inr (mavenReply0 ''world!''), store1)"
proof -
  have trim: "checksumText id zeros = zeros" by code_simp
  have path: "coord_FullPath coord0 = ''g/a/1/a-1.jar''" by code_simp
  have suffix: "HasSuffix (''https://b/g/a/1/a-1.jar.sha1'') ''.sha1''" "\<not> HasSuffix (''https://b/g/a/1/a-1.jar'') ''.sha1''" by code_simp+
  show "publishedSHA1 maven0 coord0 store1 = (zeros, store1)"
    using trim suffix path
    by (simp add: publishedSHA1_def FetchChecksum_def tryEach_def maven0_def twoRepos_def isNegativelyCached_def
      store1_no_envelope getBody_def newRequest_def okReply_def ReadAll_def mavenReply0_def Let_def)
  show "FetchArtifact (mv_upstream maven0) coord0 store1 = (Inr (mavenReply0 ''world!''), store1)"
    using suffix path
    by (simp add: FetchArtifact_def tryEach_def maven0_def twoRepos_def isNegativelyCached_def
      store1_no_envelope newRequest_def okReply_def mavenReply0_def Let_def)
qed

lemma zeros_hex: "hex_encode (replicate 20 (CHR 0x00)) = zeros"
  by code_simp

lemma artifactOf_maven0: "(artifactOf maven0 coord0 ''world!'')\<lparr>ca_CachedAt := 0\<rparr> = mavenArtifact0 hash1"
proof -
  have "hex_encode [CHR 0x00] = ''00''" by code_simp
  then show ?thesis by (simp add: zeros_hex artifactOf_def coord0_def maven0_def mavenArtifact0_def digests0_def blake3_0_def)
qed

lemma maven0_run:
  "\<exists>resp w. handleArtifact maven0 maven_run0 store1 r coord0 = (resp, w)
     \<and> GetCachedArtifact (mv_index maven0) w coord0 = Inr (mavenArtifact0 hash1)"
proof -
  obtain w1 where w1: "Put serverStore0 temp0 0 store1 (spooled temp0 ''world!'') = (Inr hash1, w1)" "world_ok blake3_0 w1"
    "blobs_good (d_blobs (cs_metaDB w1))"
    using upload_succeeds [OF store1_ok(1,2), of "spooled temp0 ''world!''"] by (auto simp: blake3_0_def temp0_def)
  have refs: "maven_collectBlobRefs (mavenArtifact0 hash1) = [ref1]"
    by (simp add: maven_collectBlobRefs_def mavenArtifact0_def hash_IsZero_def hash0_def [symmetric] ref1_def)
  have "j_enc (mi_artJSON (mv_index maven0)) (mavenArtifact0 hash1) = Some hash1"
    by (simp add: maven0_simps sampleJSON_def mavenArtifact0_def)
  moreover have "length (artifactKey coord0) = 18" "length hash1 < CompressionThreshold" by code_simp+
  ultimately obtain w2 where w2: "EI_PutJSON (j_enc (mi_artJSON (mv_index maven0))) (onMetaDB (boltStore id (\<lambda>_. True)))
      (kindIdx ''artifact'') 0 w1 (artifactKey coord0) (mavenArtifact0 hash1) [ref1] = (Inr (), w2)"
    using sample_index [OF w1(3), of "[ref1]" "mi_artJSON (mv_index maven0)" "mavenArtifact0 hash1" hash1 "''artifact''" "artifactKey coord0"]
    by auto
  have ix: "index_ok (kindIdx ''artifact'')" "json_ok (mi_artJSON (mv_index maven0))"
    by (simp_all add: index_ok_kind sep_def maven0_simps json_ok_sample)
  have put: "PutCachedArtifact (mv_index maven0) w1 (artifactOf maven0 coord0 ''world!'') = (Inr (), w2)"
    using w2 by (simp add: PutCachedArtifact_of artifactOf_maven0 maven0_simps refs)
  have "GetCachedArtifact (mv_index maven0) w2 coord0 = Inr (mavenArtifact0 hash1)"
    using server.index_json_put_get [OF ix w1(2) w2] by (simp add: GetCachedArtifact_def maven0_simps)
  moreover have "GetCachedArtifact (mv_index maven0) store1 coord0 = Inl NotCached"
    by (simp add: GetCachedArtifact_def EI_GetJSON_def maven0_simps store1_miss indexError_def)
  moreover have "\<not> sha1Mismatch maven0 zeros ''world!''"
    by (simp add: sha1Mismatch_def maven0_def digests0_def zeros_hex)
  ultimately show ?thesis
    using w1(1) put
    by (simp add: handleArtifact_def handleArtifactDirect_def maven0_upstream maven_run0_def spool_def mavenReply0_def temp0_def
      cacheArtifact_def maven0_simps)
qed

theorem maven_artifact_served_witness:
  "\<exists>resp w w3. handleArtifact maven0 maven_run0 store1 (request ''GET'' [] src1) coord0 = (resp, w)
     \<and> handleArtifact maven0 maven_run0 w (request ''GET'' [] src1) coord0
         = (reply 200 (sizedHeader ''jar'' 6) ''world!'', w3)
     \<and> handleArtifactChecksum maven0 w (request ''GET'' [] src1) coord0 ''sha1'' = (reply 200 textHeader zeros, w)"
proof -
  let ?r = "request ''GET'' [] src1"
  obtain resp w where run: "handleArtifact maven0 maven_run0 store1 ?r coord0 = (resp, w)"
    and got: "GetCachedArtifact (mv_index maven0) w coord0 = Inr (mavenArtifact0 hash1)" using maven0_run by blast
  have miss: "GetCachedArtifact (mv_index maven0) store1 coord0 = Inl NotCached"
    by (simp add: GetCachedArtifact_def EI_GetJSON_def maven0_simps store1_miss indexError_def)
  have side: "mr_flight maven_run0 = Executes" "\<not> hash_IsZero (ca_Hash (mavenArtifact0 hash1))" "mv_index maven0 = (mv_index maven0)\<lparr>mi_now := 0\<rparr>"
    by (simp_all add: maven_run0_def mavenArtifact0_def hash_IsZero_def hash0_def [symmetric] maven0_def)
  have sha: "computeChecksum (mv_digests maven0) ''world!'' ''sha1'' = zeros"
    by (simp add: computeChecksum_def maven0_def digests0_def zeros_hex)
  have nz: "zeros \<noteq> []" by code_simp
  have up0: "concat (chunks (rp_Body (mavenReply0 ''world!''))) = ''world!''" by (simp add: mavenReply0_def)
  obtain published w1 up w2 body w3 where out: "publishedSHA1 maven0 coord0 store1 = (published, w1)"
      "FetchArtifact (mv_upstream maven0) coord0 w1 = (Inr up, w2)"
    and hit: "handleArtifact maven0 maven_run0 w ?r coord0
        = (reply 200 (sizedHeader (co_Extension coord0) (int (length (concat (chunks (rp_Body up)))))) (bodyFor ?r body), w3)"
      "fs_content (cs_backend store1) (blake3_0 (concat (chunks (rp_Body up)))) = None \<longrightarrow> body = concat (chunks (rp_Body up))"
      "\<forall>ct. computeChecksum (mv_digests maven0) (concat (chunks (rp_Body up))) ct \<noteq> [] \<longrightarrow>
         handleArtifactChecksum maven0 w ?r coord0 ct
           = (reply 200 textHeader (bodyFor ?r (computeChecksum (mv_digests maven0) (concat (chunks (rp_Body up))) ct)), w)"
    using maven_artifact_served [OF maven0_server store1_ok(1,2) run side(1) miss got side(2,3) refl, of maven_run0 ?r]
    by (elim exE conjE) (rule that)
  have "up = mavenReply0 ''world!''" using out by (simp add: maven0_upstream)
  then have data: "concat (chunks (rp_Body up)) = ''world!''" by (simp add: up0)
  have body: "body = ''world!''" using hit(2) store1_ok(3) data by simp
  have jar: "co_Extension coord0 = ''jar''" "bodyFor ?r x = x" for x by (simp_all add: coord0_def bodyFor_def request_def)
  have "handleArtifact maven0 maven_run0 w ?r coord0 = (reply 200 (sizedHeader ''jar'' 6) ''world!'', w3)"
    using hit(1) by (simp add: data body jar)
  moreover have "handleArtifactChecksum maven0 w ?r coord0 ''sha1'' = (reply 200 textHeader zeros, w)"
    using hit(3) [rule_format, of "''sha1''"] nz by (simp add: data sha jar)
  ultimately show ?thesis using run by blast
qed

section \<open>Time-stamped snapshots\<close>

text \<open>C12: the file names of a snapshot that carry a time stamp are all taken for one file, whatever
  their time stamp, build number and classifier; the file that is asked of the upstream for it is
  none of them.\<close>

theorem maven_snapshot_collision:
  assumes stamps: "\<forall>ts \<in> {ts1, ts2}. ts \<noteq> [] \<and> hd ts \<noteq> CHR ''S'' \<and> CHR ''-'' \<notin> set ts"
    and parts: "\<forall>ps \<in> {ps1, ps2}. ps \<noteq> [] \<and> last ps \<noteq> [] \<and> (\<forall>p \<in> set ps. CHR ''-'' \<notin> set p \<and> CHR ''.'' \<notin> set p)"
    and ext: "ext \<noteq> []" "CHR ''.'' \<notin> set ext" "ext \<notin> set checksumTypes"
    and name: "file = (\<lambda>ts ps. a @ ''-'' @ base @ ''-'' @ ts @ dashed ps @ ''.'' @ ext)"
  shows "\<exists>co. parseArtifactFilename a (base @ ''-SNAPSHOT'') (file ts1 ps1) = Some (co, [])
    \<and> parseArtifactFilename a (base @ ''-SNAPSHOT'') (file ts2 ps2) = Some (co, [])
    \<and> co_Classifier co = [] \<and> coord_Filename co \<notin> {file ts1 ps1, file ts2 ps2}"
proof -
  let ?co = "\<lparr>co_GroupID = [], co_ArtifactID = a, co_Version = base @ ''-SNAPSHOT'', co_Classifier = [], co_Extension = ext\<rparr>"
  have "parseArtifactFilename a (base @ ''-SNAPSHOT'') (file ts ps) = Some (?co, []) \<and> coord_Filename ?co \<noteq> file ts ps"
    if ts: "ts \<in> {ts1, ts2}" and ps: "ps \<in> {ps1, ps2}" for ts ps
  proof -
    obtain qs l where l: "ps = qs @ [l]" "l \<noteq> []" using parts ps by (metis append_butlast_last_id)
    have ok: "ts \<noteq> []" "hd ts \<noteq> CHR ''S''" "CHR ''-'' \<notin> set ts" using stamps ts by blast+
    have "coord_Filename ?co \<noteq> file ts ps" using ok(1,2) by (cases ts) (auto simp: coord_Filename_def name)
    moreover have "\<forall>p \<in> set (qs @ [l]). CHR ''-'' \<notin> set p \<and> CHR ''.'' \<notin> set p" using parts ps unfolding l(1) by blast
    ultimately show ?thesis using parse_snapshot [OF ok(3,1,2) _ l(2) ext] by (simp add: name l(1))
  qed
  then show ?thesis by (intro exI [of _ ?co]) simp
qed

theorem maven_snapshot_collision_witness:
  "\<exists>co. parseArtifactFilename ''lib'' ''1.0-SNAPSHOT'' ''lib-1.0-20240118.123456-1.jar'' = Some (co, [])
     \<and> parseArtifactFilename ''lib'' ''1.0-SNAPSHOT'' ''lib-1.0-20240207.101500-2-sources.jar'' = Some (co, [])"
  using maven_snapshot_collision [of "''20240118.123456''" "''20240207.101500''" "[''1'']" "[''2'', ''sources'']" "''jar''" _ "''lib''" "''1.0''", OF _ _ _ _ _ refl]
  by (auto simp: dashed_def checksumTypes_def)

end
