(* ===== verification/Git.thy ===== *)
theory Git
  imports Download Urls
begin

text \<open>
  The Git smart HTTP proxy (\<open>protocol/git\<close>): repositories (\<open>types.go\<close>), routing by prefix
  (\<open>router.go\<close>), the index of packs (\<open>index.go\<close>), credentials and requests to the upstream
  (\<open>upstream.go\<close>, \<open>github_app.go\<close>), and the handler with its scan of the packet lines
  (\<open>handler.go\<close>).
\<close>

section \<open>Repositories\<close>

record repo_ref =
  re_Host :: string
  re_RepoPath :: string

definition repo_String :: "repo_ref \<Rightarrow> string" where
  "repo_String r = re_Host r @ ''/'' @ re_RepoPath r"

definition UpstreamURL :: "repo_ref \<Rightarrow> string" where
  "UpstreamURL r = ''https://'' @ re_Host r @ ''/'' @ re_RepoPath r @ ''.git''"

record cached_pack =
  pk_RequestHash :: hash
  pk_ResponseHash :: hash
  pk_ResponseSize :: int
  pk_Repo :: string
  pk_GitProtocol :: string
  pk_CachedAt :: time

section \<open>The router\<close>

record 'u git_route =
  gr_RepoPrefix :: string
  gr_Any :: bool
  gr_Upstream :: 'u

record 'u git_router =
  grt_routes :: "'u git_route list"
  grt_fallback :: "'u option"

datatype git_route_error =
    GitNoFallback
  | GitAnyNotLast nat
  | PrefixRequired nat
  | PrefixNoSlash nat string
  | DuplicatePrefix nat string
  | GitNoCatchAll

fun git_normalizeRoutes ::
  "(string \<Rightarrow> string) \<Rightarrow> nat \<Rightarrow> string set \<Rightarrow> 'u git_route list \<Rightarrow> git_route_error + 'u git_route list" where
  "git_normalizeRoutes U i seen [] = Inr []"
| "git_normalizeRoutes U i seen (r # rs) =
     (if gr_Any r
      then (if rs \<noteq> [] then Inl (GitAnyNotLast i)
            else rbind (git_normalizeRoutes U (Suc i) seen rs) (\<lambda>rs'. Inr (r # rs')))
      else if gr_RepoPrefix r = [] then Inl (PrefixRequired i)
      else if \<not> HasSuffix (gr_RepoPrefix r) ''/'' then Inl (PrefixNoSlash i (gr_RepoPrefix r))
      else let lowerPrefix = ToLower U (gr_RepoPrefix r) in
        if lowerPrefix \<in> seen then Inl (DuplicatePrefix i (gr_RepoPrefix r))
        else rbind (git_normalizeRoutes U (Suc i) (insert lowerPrefix seen) rs)
               (\<lambda>rs'. Inr (\<lparr>gr_RepoPrefix = lowerPrefix, gr_Any = False, gr_Upstream = gr_Upstream r\<rparr> # rs')))"

definition git_NewRouter ::
  "(string \<Rightarrow> string) \<Rightarrow> 'u git_route list \<Rightarrow> 'u option \<Rightarrow> git_route_error + 'u git_router" where
  "git_NewRouter U routes fallback =
     (if routes = [] then
        (if fallback = None then Inl GitNoFallback else Inr \<lparr>grt_routes = [], grt_fallback = fallback\<rparr>)
      else rbind (git_normalizeRoutes U 0 {} routes)
        (\<lambda>normalized. if \<not> gr_Any (last routes) then Inl GitNoCatchAll
                     else Inr \<lparr>grt_routes = normalized, grt_fallback = fallback\<rparr>))"

definition git_Match :: "(string \<Rightarrow> string) \<Rightarrow> 'u git_router \<Rightarrow> repo_ref \<Rightarrow> 'u option" where
  "git_Match U r repo =
     (if grt_routes r = [] then grt_fallback r
      else let repoKey = ToLower U (repo_String repo) in
        case List.find (\<lambda>route. gr_Any route \<or> HasPrefix repoKey (gr_RepoPrefix route)) (grt_routes r) of
          Some route \<Rightarrow> Some (gr_Upstream route)
        | None \<Rightarrow> Some (gr_Upstream (last (grt_routes r))))"

section \<open>The index\<close>

record 'w git_index =
  gx_es :: "'w envelope_store"
  gx_pack :: env_index
  gx_json :: "cached_pack json_codec"
  gx_now :: time

definition GetCachedPack :: "'w git_index \<Rightarrow> 'w \<Rightarrow> string \<Rightarrow> index_error + cached_pack" where
  "GetCachedPack x w cacheKey =
     (case EI_GetJSON (j_dec (gx_json x)) (gx_es x) (gx_pack x) w cacheKey of
        Inl e \<Rightarrow> Inl (indexError e)
      | Inr pack \<Rightarrow> Inr pack)"

definition DeleteCachedPack :: "'w git_index \<Rightarrow> 'w \<Rightarrow> string \<Rightarrow> (mdb_error + unit) \<times> 'w" where
  "DeleteCachedPack x w cacheKey = EI_Delete (gx_es x) (gx_pack x) w cacheKey"

definition PutCachedPack :: "'w git_index \<Rightarrow> 'w \<Rightarrow> string \<Rightarrow> cached_pack \<Rightarrow> (mdb_error + unit) \<times> 'w" where
  "PutCachedPack x w cacheKey pack =
     EI_PutJSON (j_enc (gx_json x)) (gx_es x) (gx_pack x) (gx_now x) w cacheKey pack
       (if hash_IsZero (pk_ResponseHash pack) then [] else [BlobRef_String (NewBlobRef (pk_ResponseHash pack))])"

section \<open>GitHub App tokens\<close>

record app_token =
  at_token :: string
  at_expiresAt :: time

record github_app =
  ga_id :: nat
  ga_appID :: string
  ga_installationID :: string
  ga_apiURL :: string

text \<open>The caches of tokens of all the provider instances (\<open>ga_id\<close>), by repository.\<close>

type_synonym app_tokens = "nat \<times> string \<Rightarrow> app_token option"

datatype auth_error = NotGitHub | NotOwnerRepo | AuthDone dl_error | MintFailed

text \<open>Seconds and minutes of the clock, which counts nanoseconds.\<close>

definition refreshSkew :: int where
  "refreshSkew = 5 * 60 * 1000000000"

record app_config =
  gc_AppID :: string
  gc_InstallationID :: string
  gc_PrivateKey :: string
  gc_TokenScope :: string

datatype app_config_error = NoAppID | NoInstallationID | NoPrivateKey | WrongScope | BadPrivateKey | NoAPIURL

text \<open>\<open>validKey\<close> says whether an RSA private key is parsed from the text, \<open>apiURL\<close> is the option, if
  it is given.\<close>

definition gitHubAPIURL :: string where
  "gitHubAPIURL = ''https://api.github.com''"

definition NewGitHubAppAuth ::
  "(string \<Rightarrow> bool) \<Rightarrow> nat \<Rightarrow> app_config \<Rightarrow> string option \<Rightarrow> app_config_error + github_app" where
  "NewGitHubAppAuth validKey i cfg apiURL =
     (let url = (case apiURL of None \<Rightarrow> gitHubAPIURL | Some u \<Rightarrow> rev (dropWhile (\<lambda>c. c = CHR ''/'') (rev u))) in
      if gc_AppID cfg = [] then Inl NoAppID
      else if gc_InstallationID cfg = [] then Inl NoInstallationID
      else if gc_PrivateKey cfg = [] then Inl NoPrivateKey
      else if gc_TokenScope cfg \<noteq> ''requested_repo'' then Inl WrongScope
      else if \<not> validKey (gc_PrivateKey cfg) then Inl BadPrivateKey
      else if url = [] then Inl NoAPIURL
      else Inr \<lparr>ga_id = i, ga_appID = gc_AppID cfg, ga_installationID = gc_InstallationID cfg, ga_apiURL = url\<rparr>)"

definition canonicalGitHubRepo ::
  "(string \<Rightarrow> string \<Rightarrow> bool) \<Rightarrow> (string \<Rightarrow> string) \<Rightarrow> repo_ref \<Rightarrow> auth_error + string \<times> string \<times> string" where
  "canonicalGitHubRepo F U repo =
     (if \<not> EqualFold F (re_Host repo) ''github.com'' then Inl NotGitHub
      else case Cut (re_RepoPath repo) (CHR ''/'') of
          None \<Rightarrow> Inl NotOwnerRepo
        | Some (owner, name) \<Rightarrow>
            if owner = [] \<or> name = [] \<or> CHR ''/'' \<in> set name then Inl NotOwnerRepo
            else Inr (owner, name, ToLower U (owner @ ''/'' @ name)))"

text \<open>What the provider asks of the network: a request that carries a signed claim and names the
  repositories and permissions of the token. Signing, encoding and decoding are parameters.\<close>

record token_request =
  tr_URL :: string
  tr_Issuer :: string
  tr_IssuedAt :: time
  tr_ExpiresAt :: time
  tr_Repositories :: "string list"
  tr_Permissions :: "(string \<times> string) list"

record token_reply =
  ty_Status :: nat
  ty_Decoded :: "(string \<times> time) option"

definition requestInstallationToken ::
  "(token_request \<Rightarrow> token_reply option) \<Rightarrow> github_app \<Rightarrow> string \<Rightarrow> time \<Rightarrow> (string \<times> time) option" where
  "requestInstallationToken api a repoName now =
     (case api \<lparr>tr_URL = ga_apiURL a @ ''/app/installations/'' @ PathEscape (ga_installationID a) @ ''/access_tokens'',
                tr_Issuer = ga_appID a, tr_IssuedAt = now - 60 * 1000000000, tr_ExpiresAt = now + 10 * 60 * 1000000000,
                tr_Repositories = [repoName], tr_Permissions = [(''contents'', ''read'')]\<rparr> of
        None \<Rightarrow> None
      | Some resp \<Rightarrow>
          if ty_Status resp \<noteq> 201 \<and> ty_Status resp \<noteq> 200 then None
          else case ty_Decoded resp of
              None \<Rightarrow> None
            | Some (token, expiresAt) \<Rightarrow> if token = [] \<or> IsZero expiresAt then None else Some (token, expiresAt))"

text \<open>How the call goes: the times that the clock shows at its steps, whether the context has ended
  before or while waiting, and a run of another caller that it joins.\<close>

record auth_run =
  au_now :: time
  au_nowMint :: time
  au_nowStale :: time
  au_ctx :: "dl_error option"
  au_ctxWait :: "dl_error option"
  au_joins :: "(auth_error + string) option"

definition freshToken :: "app_tokens \<Rightarrow> nat \<times> string \<Rightarrow> time \<Rightarrow> string option" where
  "freshToken tokens k now =
     (case tokens k of
        Some cached \<Rightarrow> if now < at_expiresAt cached - refreshSkew then Some (at_token cached) else None
      | None \<Rightarrow> None)"

definition mintToken ::
  "(token_request \<Rightarrow> token_reply option) \<Rightarrow> auth_run \<Rightarrow> github_app \<Rightarrow> string \<Rightarrow> string \<Rightarrow> app_tokens
     \<Rightarrow> (auth_error + string) \<times> app_tokens" where
  "mintToken api run a repoName cacheKey tokens =
     (case freshToken tokens (ga_id a, cacheKey) (au_nowMint run) of
        Some token \<Rightarrow> (Inr token, tokens)
      | None \<Rightarrow>
          (case requestInstallationToken api a repoName (au_nowMint run) of
             Some (token, expiresAt) \<Rightarrow>
               (Inr token, tokens((ga_id a, cacheKey) \<mapsto> \<lparr>at_token = token, at_expiresAt = expiresAt\<rparr>))
           | None \<Rightarrow>
               (case tokens (ga_id a, cacheKey) of
                  Some cached \<Rightarrow> (if au_nowStale run < at_expiresAt cached then Inr (at_token cached) else Inl MintFailed, tokens)
                | None \<Rightarrow> (Inl MintFailed, tokens))))"

definition installationToken ::
  "(string \<Rightarrow> string \<Rightarrow> bool) \<Rightarrow> (string \<Rightarrow> string) \<Rightarrow> (token_request \<Rightarrow> token_reply option) \<Rightarrow> auth_run \<Rightarrow> github_app
     \<Rightarrow> repo_ref \<Rightarrow> app_tokens \<Rightarrow> (auth_error + string) \<times> app_tokens" where
  "installationToken F U api run a repo tokens =
     (case canonicalGitHubRepo F U repo of
        Inl e \<Rightarrow> (Inl e, tokens)
      | Inr (_, repoName, cacheKey) \<Rightarrow>
          (case au_ctx run of
             Some e \<Rightarrow> (Inl (AuthDone e), tokens)
           | None \<Rightarrow>
               (case freshToken tokens (ga_id a, cacheKey) (au_now run) of
                  Some token \<Rightarrow> (Inr token, tokens)
                | None \<Rightarrow>
                    (case (case au_joins run of
                             Some r \<Rightarrow> (r, tokens)
                           | None \<Rightarrow> mintToken api run a repoName cacheKey tokens) of
                       (r, tokens') \<Rightarrow> (case au_ctxWait run of Some e \<Rightarrow> Inl (AuthDone e) | None \<Rightarrow> r, tokens')))))"

section \<open>The upstream\<close>

datatype basic_auth = NoAuth | StaticAuth string string | AppAuth github_app

record git_upstream =
  gu_auth :: basic_auth

text \<open>The client sends a method, a URL, header fields and a body.\<close>

type_synonym git_client = "string \<Rightarrow> string \<Rightarrow> (string \<times> string) list \<Rightarrow> bytes \<Rightarrow> dl_error + http_reply"

record git_env =
  ge_client :: git_client
  ge_api :: "token_request \<Rightarrow> token_reply option"
  ge_unicode :: "string \<Rightarrow> string"
  ge_fold :: "string \<Rightarrow> string \<Rightarrow> bool"

definition resolveBasicAuth ::
  "git_env \<Rightarrow> auth_run \<Rightarrow> git_upstream \<Rightarrow> repo_ref \<Rightarrow> app_tokens \<Rightarrow> (auth_error + string \<times> string) \<times> app_tokens" where
  "resolveBasicAuth v run u repo tokens =
     (case gu_auth u of
        NoAuth \<Rightarrow> (Inr ([], []), tokens)
      | StaticAuth username password \<Rightarrow> (Inr (username, password), tokens)
      | AppAuth a \<Rightarrow>
          (case installationToken (ge_fold v) (ge_unicode v) (ge_api v) run a repo tokens of
             (Inl e, tokens') \<Rightarrow> (Inl e, tokens')
           | (Inr token, tokens') \<Rightarrow> (Inr (''x-access-token'', token), tokens')))"

definition checkAuth ::
  "git_env \<Rightarrow> auth_run \<Rightarrow> git_upstream \<Rightarrow> repo_ref \<Rightarrow> app_tokens \<Rightarrow> (auth_error + unit) \<times> app_tokens" where
  "checkAuth v run u repo tokens =
     (case resolveBasicAuth v run u repo tokens of
        (Inl e, tokens') \<Rightarrow> (Inl e, tokens')
      | (Inr _, tokens') \<Rightarrow> (Inr (), tokens'))"

text \<open>\<open>base64.StdEncoding\<close> and \<open>Request.SetBasicAuth\<close>.\<close>

definition base64_char :: "nat \<Rightarrow> char" where
  "base64_char n =
     (if n < 26 then char_of (65 + n)
      else if n < 52 then char_of (71 + n)
      else if n < 62 then char_of (n - 4)
      else if n = 62 then CHR ''+'' else CHR ''/'')"

fun base64_encode :: "bytes \<Rightarrow> string" where
  "base64_encode [] = []"
| "base64_encode [a] =
     (let n = of_char a :: nat in [base64_char (n div 4), base64_char (n mod 4 * 16)] @ ''=='')"
| "base64_encode [a, b] =
     (let n = of_char a * 256 + of_char b :: nat in
      [base64_char (n div 1024), base64_char (n div 16 mod 64), base64_char (n mod 16 * 4)] @ ''='')"
| "base64_encode (a # b # c # s) =
     (let n = of_char a * 65536 + of_char b * 256 + of_char c :: nat in
      [base64_char (n div 262144), base64_char (n div 4096 mod 64), base64_char (n div 64 mod 64), base64_char (n mod 64)]
      @ base64_encode s)"

definition git_setAuth ::
  "git_env \<Rightarrow> auth_run \<Rightarrow> git_upstream \<Rightarrow> repo_ref \<Rightarrow> app_tokens
     \<Rightarrow> (auth_error + (string \<times> string) list) \<times> app_tokens" where
  "git_setAuth v run u repo tokens =
     (case resolveBasicAuth v run u repo tokens of
        (Inl e, tokens') \<Rightarrow> (Inl e, tokens')
      | (Inr (username, password), tokens') \<Rightarrow>
          (Inr (if username \<noteq> []
                then [(''Authorization'', ''Basic '' @ base64_encode (username @ '':'' @ password))] else []), tokens'))"

definition git_checkStatus :: "http_reply \<Rightarrow> dl_error + http_reply" where
  "git_checkStatus resp =
     (if rp_Status resp = 404 then Inl UpstreamNotFound
      else if rp_Status resp \<noteq> 200 then Inl DownloadFailed
      else Inr resp)"

definition authError :: "auth_error \<Rightarrow> dl_error" where
  "authError e = (case e of AuthDone d \<Rightarrow> d | _ \<Rightarrow> DownloadFailed)"

definition FetchInfoRefs ::
  "git_env \<Rightarrow> auth_run \<Rightarrow> git_upstream \<Rightarrow> repo_ref \<Rightarrow> string \<Rightarrow> app_tokens \<Rightarrow> (dl_error + http_reply) \<times> app_tokens" where
  "FetchInfoRefs v run u repo gitProtocol tokens =
     (case git_setAuth v run u repo tokens of
        (Inl e, tokens') \<Rightarrow> (Inl (authError e), tokens')
      | (Inr auth, tokens') \<Rightarrow>
          (rbind (ge_client v ''GET'' (UpstreamURL repo @ ''/info/refs?service=git-upload-pack'')
                    ((if gitProtocol \<noteq> [] then [(''Git-Protocol'', gitProtocol)] else []) @ auth) [])
             git_checkStatus, tokens'))"

definition FetchUploadPack ::
  "git_env \<Rightarrow> auth_run \<Rightarrow> git_upstream \<Rightarrow> repo_ref \<Rightarrow> string \<Rightarrow> bytes \<Rightarrow> app_tokens
     \<Rightarrow> (dl_error + http_reply) \<times> app_tokens" where
  "FetchUploadPack v run u repo gitProtocol body tokens =
     (case git_setAuth v run u repo tokens of
        (Inl e, tokens') \<Rightarrow> (Inl (authError e), tokens')
      | (Inr auth, tokens') \<Rightarrow>
          (rbind (ge_client v ''POST'' (UpstreamURL repo @ ''/git-upload-pack'')
                    ((''Content-Type'', ''application/x-git-upload-pack-request'')
                     # (if gitProtocol \<noteq> [] then [(''Git-Protocol'', gitProtocol)] else []) @ auth) body)
             git_checkStatus, tokens'))"

section \<open>Packet lines\<close>

text \<open>\<open>strconv.ParseUint\<close> in base 16 of a few digits.\<close>

fun hexNumber :: "nat \<Rightarrow> string \<Rightarrow> nat option" where
  "hexNumber n [] = Some n"
| "hexNumber n (c # s) = (case fromHexChar c of None \<Rightarrow> None | Some d \<Rightarrow> hexNumber (16 * n + d) s)"

definition parseHexLen :: "string \<Rightarrow> nat option" where
  "parseHexLen s = (if s = [] then None else hexNumber 0 s)"

definition TrimNewlines :: "string \<Rightarrow> string" where
  "TrimNewlines s = rev (dropWhile (\<lambda>c. c = CHR 0x0A) (rev s))"

datatype pkt_error = BadHexLength | MalformedSize | BodyUnreadable

function lsRefs_scan :: "bytes \<Rightarrow> pkt_error + bool" where
  "lsRefs_scan body =
     (if length body < 4 then Inr False
      else case parseHexLen (take 4 body) of
          None \<Rightarrow> Inl BadHexLength
        | Some n \<Rightarrow>
            if n = 0 \<or> n = 1 then lsRefs_scan (drop 4 body)
            else if n < 4 then Inl MalformedSize
            else if n > length body then Inr False
            else case CutPrefix (TrimNewlines (drop 4 (take n body))) ''command='' of
                None \<Rightarrow> lsRefs_scan (drop n body)
              | Some cmd \<Rightarrow> Inr (cmd = ''ls-refs''))"
  by pat_completeness auto

termination
  by (relation "measure length") auto

declare lsRefs_scan.simps [simp del]

definition maxLsRefsScanSize :: nat where
  "maxLsRefsScanSize = 64 * 1024"

text \<open>The body is read from its temporary file.\<close>

definition isLsRefs :: "temp_file \<Rightarrow> bytes \<Rightarrow> pkt_error + bool" where
  "isLsRefs tf body =
     (if \<not> tf_seek tf \<or> \<not> tf_read tf then Inl BodyUnreadable else lsRefs_scan (take maxLsRefsScanSize body))"

text \<open>The summary that is logged for debugging.\<close>

record pkt_summary =
  ps_command :: string
  ps_wants :: nat
  ps_haves :: nat
  ps_shallows :: nat
  ps_done :: bool
  ps_filter :: bool
  ps_lines :: nat
  ps_first :: "string list"

definition noSummary :: pkt_summary where
  "noSummary = \<lparr>ps_command = [], ps_wants = 0, ps_haves = 0, ps_shallows = 0, ps_done = False, ps_filter = False,
     ps_lines = 0, ps_first = []\<rparr>"

definition addLine :: "string \<Rightarrow> pkt_summary \<Rightarrow> pkt_summary" where
  "addLine content s =
     s\<lparr>ps_first := (if ps_lines s < 10 then ps_first s @ [content] else ps_first s), ps_lines := ps_lines s + 1\<rparr>"

definition countLine :: "string \<Rightarrow> pkt_summary \<Rightarrow> pkt_summary" where
  "countLine content s =
     (if HasPrefix content ''command='' then s\<lparr>ps_command := TrimPrefix content ''command=''\<rparr>
      else if HasPrefix content ''want '' then s\<lparr>ps_wants := ps_wants s + 1\<rparr>
      else if HasPrefix content ''have '' then s\<lparr>ps_haves := ps_haves s + 1\<rparr>
      else if HasPrefix content ''shallow '' then s\<lparr>ps_shallows := ps_shallows s + 1\<rparr>
      else if content = ''done'' then s\<lparr>ps_done := True\<rparr>
      else if HasPrefix content ''filter '' then s\<lparr>ps_filter := True\<rparr>
      else s)"

function pktSummary :: "bytes \<Rightarrow> pkt_summary \<Rightarrow> pkt_summary" where
  "pktSummary body s =
     (if length body < 4 then s
      else if take 4 body = ''0000'' \<or> take 4 body = ''0001'' then pktSummary (drop 4 body) (addLine (take 4 body) s)
      else case parseHexLen (take 4 body) of
          None \<Rightarrow> s
        | Some n \<Rightarrow>
            if n < 4 then s
            else if n > length body then s
            else let content = TrimNewlines (drop 4 (take n body)) in
              pktSummary (drop n body) (countLine content (addLine content s)))"
  by pat_completeness auto

termination
  by (relation "measure (\<lambda>(body, _). length body)") auto

declare pktSummary.simps [simp del]

definition logPktLineSummary :: "bytes \<Rightarrow> pkt_summary" where
  "logPktLineSummary body = pktSummary body noSummary"

section \<open>The handler\<close>

record 'w git =
  gh_index :: "'w git_index"
  gh_store :: "'w store_ops"
  gh_router :: "git_upstream git_router"
  gh_allowedHosts :: "string list"
  gh_maxRequestBodySize :: int
  gh_maxDecompressedBodySize :: int
  gh_env :: git_env
  gh_gunzip :: "bytes \<Rightarrow> source option"
  gh_blake3 :: "bytes \<Rightarrow> hash"

text \<open>Decompression (\<open>gh_gunzip\<close>) finds no gzip header, or gives a source that may fail.\<close>

datatype git_action = InfoRefs | UploadPack | ReceivePack

definition parseGitPath :: "string \<Rightarrow> (repo_ref \<times> git_action) option" where
  "parseGitPath path0 =
     (let path = TrimPrefix path0 ''/'' in
      if path = [] then None
      else if list_ex (\<lambda>seg. seg = ''..'' \<or> seg = []) (SplitOn path (CHR ''/'')) then None
      else case (if HasSuffix path ''/info/refs'' then Some (InfoRefs, TrimSuffix path ''/info/refs'')
                 else if HasSuffix path ''/git-upload-pack'' then Some (UploadPack, TrimSuffix path ''/git-upload-pack'')
                 else if HasSuffix path ''/git-receive-pack'' then Some (ReceivePack, TrimSuffix path ''/git-receive-pack'')
                 else None) of
          None \<Rightarrow> None
        | Some (action, repoSection) \<Rightarrow>
            (case Cut (TrimSuffix repoSection ''.git'') (CHR ''/'') of
               None \<Rightarrow> None
             | Some (host, repoPath) \<Rightarrow>
                 if host = [] \<or> repoPath = [] then None
                 else Some (\<lparr>re_Host = host, re_RepoPath = repoPath\<rparr>, action)))"

text \<open>How the system, the clock and the shared downloader answer one request: the temporary files of
  the body as sent, decompressed, and of the pack.\<close>

record git_run =
  gn_raw :: temp_file
  gn_decomp :: temp_file
  gn_pack :: temp_file
  gn_auth :: auth_run
  gn_flight :: flight
  gn_ctx :: "dl_error option"

type_synonym 'w git_state = "'w \<times> app_tokens"

text \<open>A response is \<open>None\<close> when the handler panics, which takes a router without an upstream.\<close>

definition repoError :: "dl_error \<Rightarrow> http_response" where
  "repoError e =
     (if e = UpstreamNotFound then http_Error ''repository not found'' 404 else http_Error ''upstream error'' 502)"

definition handleInfoRefs ::
  "'w git \<Rightarrow> git_run \<Rightarrow> 'w git_state \<Rightarrow> http_request \<Rightarrow> repo_ref \<Rightarrow> http_response option \<times> 'w git_state" where
  "handleInfoRefs h run s r repo =
     (if rq_Query r ''service'' = ''git-receive-pack'' then (Some (http_Error ''push not allowed'' 403), s)
      else case git_Match (ge_unicode (gh_env h)) (gh_router h) repo of
          None \<Rightarrow> (None, s)
        | Some u \<Rightarrow>
            (case FetchInfoRefs (gh_env h) (gn_auth run) u repo (rq_Header r ''Git-Protocol'') (snd s) of
               (Inl e, t) \<Rightarrow> (Some (repoError e), (fst s, t))
             | (Inr resp, t) \<Rightarrow>
                 (Some (reply 200 [(''Content-Type'', rp_Header resp ''Content-Type'')] (concat (chunks (rp_Body resp)))),
                  (fst s, t))))"

text \<open>Copying the request's body to a temporary file, through \<open>http.MaxBytesReader\<close>.\<close>

definition copyRequest :: "temp_file \<Rightarrow> int \<Rightarrow> source \<Rightarrow> http_response + bytes" where
  "copyRequest tf limit body =
     (if \<not> tf_create tf then Inl (http_Error ''internal error'' 500)
      else if \<not> tf_write tf then Inl (http_Error ''bad request'' 400)
      else if int (length (concat (chunks body))) > limit then Inl (http_Error ''request body too large'' 413)
      else if src_fails body then Inl (http_Error ''bad request'' 400)
      else if \<not> tf_seek tf then Inl (http_Error ''internal error'' 500)
      else Inr (concat (chunks body)))"

definition decompressRequest :: "'w git \<Rightarrow> temp_file \<Rightarrow> source \<Rightarrow> http_response + bytes" where
  "decompressRequest h tf gz0 =
     (let gz = LimitReader (nat (gh_maxDecompressedBodySize h)) gz0;
          data = concat (chunks gz)
      in if \<not> tf_create tf then Inl (http_Error ''internal error'' 500)
         else if \<not> tf_write tf \<or> src_fails gz then Inl (http_Error ''bad request'' 400)
         else if int (length data) \<ge> gh_maxDecompressedBodySize h
         then Inl (http_Error ''decompressed request body too large'' 413)
         else if \<not> tf_seek tf then Inl (http_Error ''internal error'' 500)
         else Inr data)"

text \<open>The body that goes upstream, and the file it is in.\<close>

definition requestBody :: "'w git \<Rightarrow> git_run \<Rightarrow> http_request \<Rightarrow> http_response + bytes \<times> temp_file" where
  "requestBody h run r =
     (case copyRequest (gn_raw run) (gh_maxRequestBodySize h) (rq_Body r) of
        Inl resp \<Rightarrow> Inl resp
      | Inr raw \<Rightarrow>
          if rq_Header r ''Content-Encoding'' = ''gzip''
          then (case (if tf_read (gn_raw run) then gh_gunzip h raw else None) of
              None \<Rightarrow> Inl (http_Error ''bad request'' 400)
            | Some gz \<Rightarrow> rbind (decompressRequest h (gn_decomp run) gz) (\<lambda>body. Inr (body, gn_decomp run)))
          else Inr (raw, gn_raw run))"

definition packKey :: "repo_ref \<Rightarrow> string \<Rightarrow> hash \<Rightarrow> string" where
  "packKey repo gitProtocol bodyHash = repo_String repo @ '':'' @ gitProtocol @ '':'' @ hash_String bodyHash"

text \<open>A body whose file cannot be read cannot be sent.\<close>

definition sendPack ::
  "'w git \<Rightarrow> git_run \<Rightarrow> git_upstream \<Rightarrow> repo_ref \<Rightarrow> string \<Rightarrow> bytes \<times> temp_file \<Rightarrow> app_tokens
     \<Rightarrow> (dl_error + http_reply) \<times> app_tokens" where
  "sendPack h run u repo gitProtocol body tokens =
     (case FetchUploadPack (gh_env h) (gn_auth run) u repo gitProtocol (fst body) tokens of
        (res, t) \<Rightarrow> (if tf_read (snd body) then res else Inl DownloadFailed, t))"

definition fetchAndStorePack ::
  "'w git \<Rightarrow> git_run \<Rightarrow> git_upstream \<Rightarrow> repo_ref \<Rightarrow> string \<Rightarrow> bytes \<times> temp_file \<Rightarrow> string \<Rightarrow> 'w git_state
     \<Rightarrow> (dl_error + dl_result) \<times> 'w git_state" where
  "fetchAndStorePack h run u repo gitProtocol body cacheKey s =
     (case sendPack h run u repo gitProtocol body (snd s) of
        (Inl e, t) \<Rightarrow> (Inl e, (fst s, t))
      | (Inr resp, t) \<Rightarrow>
          (case spool (gn_pack run) resp of
             Inl e \<Rightarrow> (Inl (spoolError e), (fst s, t))
           | Inr data \<Rightarrow>
               if \<not> tf_seek (gn_pack run) then (Inl DownloadFailed, (fst s, t))
               else (case st_Put (gh_store h) (fst s) (spooled (gn_pack run) data) of
                   (Inl _, w1) \<Rightarrow> (Inl DownloadFailed, (w1, t))
                 | (Inr _, w1) \<Rightarrow>
                     (Inr \<lparr>dr_Hash = gh_blake3 h data, dr_Size = int (length data)\<rparr>,
                      (snd (PutCachedPack (gh_index h) w1 cacheKey
                              \<lparr>pk_RequestHash = gh_blake3 h (fst body), pk_ResponseHash = gh_blake3 h data,
                               pk_ResponseSize = int (length data), pk_Repo = repo_String repo,
                               pk_GitProtocol = gitProtocol, pk_CachedAt = gx_now (gh_index h)\<rparr>), t)))))"

definition packOptions :: serve_options where
  "packOptions = \<lparr>so_ContentType = ''application/x-git-upload-pack-result'', so_ExtraHeaders = []\<rparr>"

definition fetchMiss ::
  "'w git \<Rightarrow> git_run \<Rightarrow> http_request \<Rightarrow> repo_ref \<Rightarrow> string \<Rightarrow> bytes \<times> temp_file \<Rightarrow> string \<Rightarrow> 'w git_state
     \<Rightarrow> http_response option \<times> 'w git_state" where
  "fetchMiss h run r repo gitProtocol body cacheKey s =
     (case (git_Match (ge_unicode (gh_env h)) (gh_router h) repo, gn_flight run) of
        (None, Executes) \<Rightarrow> (None, s)
      | (up, _) \<Rightarrow>
          (case Do (\<lambda>s. case up of
                     Some u \<Rightarrow> fetchAndStorePack h run u repo gitProtocol body cacheKey s
                   | None \<Rightarrow> (Inl DownloadFailed, s)) (gn_flight run) (gn_ctx run) s of
             (res, _, (w1, t1)) \<Rightarrow>
               (case HandleResult (\<lambda>e. e = UpstreamNotFound) None packOptions (gh_store h) r res w1 of
                  (resp, _, w2) \<Rightarrow> (Some resp, (w2, t1)))))"

definition serveLsRefs ::
  "'w git \<Rightarrow> git_run \<Rightarrow> repo_ref \<Rightarrow> string \<Rightarrow> bytes \<times> temp_file \<Rightarrow> 'w git_state
     \<Rightarrow> http_response option \<times> 'w git_state" where
  "serveLsRefs h run repo gitProtocol body s =
     (case git_Match (ge_unicode (gh_env h)) (gh_router h) repo of
        None \<Rightarrow> (None, s)
      | Some u \<Rightarrow>
          (case sendPack h run u repo gitProtocol body (snd s) of
             (Inl e, t) \<Rightarrow> (Some (repoError e), (fst s, t))
           | (Inr resp, t) \<Rightarrow>
               (Some (reply 200 [(''Content-Type'', so_ContentType packOptions)] (concat (chunks (rp_Body resp)))),
                (fst s, t))))"

text \<open>An entry whose blob is there is served if the upstream's credentials can be had; without the
  blob the entry is removed. A failure to look for the blob counts as its absence.\<close>

definition handleUploadPack ::
  "'w git \<Rightarrow> git_run \<Rightarrow> 'w git_state \<Rightarrow> http_request \<Rightarrow> repo_ref \<Rightarrow> http_response option \<times> 'w git_state" where
  "handleUploadPack h run s r repo =
     (case requestBody h run r of
        Inl resp \<Rightarrow> (Some resp, s)
      | Inr body \<Rightarrow>
          (let gitProtocol = rq_Header r ''Git-Protocol'';
               cacheKey = packKey repo gitProtocol (gh_blake3 h (fst body))
           in if isLsRefs (snd body) (fst body) = Inr True then serveLsRefs h run repo gitProtocol body s
              else case GetCachedPack (gh_index h) (fst s) cacheKey of
                  Inl _ \<Rightarrow> fetchMiss h run r repo gitProtocol body cacheKey s
                | Inr cached \<Rightarrow>
                    if st_Has (gh_store h) (fst s) (pk_ResponseHash cached) = Inr True
                    then (case git_Match (ge_unicode (gh_env h)) (gh_router h) repo of
                        None \<Rightarrow> (None, s)
                      | Some u \<Rightarrow>
                          (case checkAuth (gh_env h) (gn_auth run) u repo (snd s) of
                             (Inl _, t) \<Rightarrow> (Some (http_Error ''upstream error'' 502), (fst s, t))
                           | (Inr _, t) \<Rightarrow>
                               (case ServeFromStore (gh_store h) (fst s) r
                                       \<lparr>dr_Hash = pk_ResponseHash cached, dr_Size = pk_ResponseSize cached\<rparr> packOptions of
                                  (resp, w1) \<Rightarrow> (Some resp, (w1, t)))))
                    else fetchMiss h run r repo gitProtocol body cacheKey
                           (snd (DeleteCachedPack (gh_index h) (fst s) cacheKey), snd s)))"

definition git_ServeHTTP ::
  "'w git \<Rightarrow> git_run \<Rightarrow> 'w git_state \<Rightarrow> http_request \<Rightarrow> http_response option \<times> 'w git_state" where
  "git_ServeHTTP h run s r =
     (case parseGitPath (rq_Path r) of
        None \<Rightarrow> (Some http_NotFound, s)
      | Some (repo, action) \<Rightarrow>
          if re_Host repo \<notin> set (gh_allowedHosts h) then (Some (http_Error ''host not allowed'' 403), s)
          else case action of
              InfoRefs \<Rightarrow>
                if rq_Method r \<noteq> ''GET'' then (Some (http_Error ''method not allowed'' 405), s)
                else handleInfoRefs h run s r repo
            | UploadPack \<Rightarrow>
                if rq_Method r \<noteq> ''POST'' then (Some (http_Error ''method not allowed'' 405), s)
                else handleUploadPack h run s r repo
            | ReceivePack \<Rightarrow> (Some (http_Error ''push not allowed'' 403), s))"

section \<open>Packet lines are read as they are written\<close>

definition hex4 :: "nat \<Rightarrow> string" where
  "hex4 n = map hexdig [n div 4096, n div 256 mod 16, n div 16 mod 16, n mod 16]"

definition pktLine :: "string \<Rightarrow> bytes" where
  "pktLine s = hex4 (length s + 4) @ s"

lemma parse_hex4:
  assumes "n < 65536"
  shows "parseHexLen (hex4 n) = Some n"
proof -
  have d: "n div 4096 < 16" using assms by (simp add: less_mult_imp_div_less)
  have a: "16 * (n div 4096) + n div 256 mod 16 = n div 256" using div_mod_decomp [of "n div 256" 16] by (simp add: div_mult2_eq [symmetric])
  have b: "16 * (n div 256) + n div 16 mod 16 = n div 16" using div_mod_decomp [of "n div 16" 16] by (simp add: div_mult2_eq [symmetric])
  have c: "16 * (n div 16) + n mod 16 = n" by simp
  show ?thesis using d by (simp add: parseHexLen_def hex4_def a b c)
qed

lemma hex4_length [simp]: "length (hex4 n) = 4"
  by (simp add: hex4_def)

text \<open>The packets that the scan passes over: flush and delimiter packets, and lines that are no
  command.\<close>

datatype pkt = Flush | Delim | Line string

fun pktBytes :: "pkt \<Rightarrow> bytes" where
  "pktBytes Flush = ''0000''"
| "pktBytes Delim = ''0001''"
| "pktBytes (Line s) = pktLine s"

definition passed :: "pkt \<Rightarrow> bool" where
  "passed p \<longleftrightarrow> (\<forall>s. p = Line s \<longrightarrow> length s < 65532 \<and> \<not> HasPrefix (TrimNewlines s) ''command='')"

lemma lsRefs_scan_line:
  assumes "length s < 65532"
  shows "lsRefs_scan (pktLine s @ rest) =
    (case CutPrefix (TrimNewlines s) ''command='' of None \<Rightarrow> lsRefs_scan rest | Some cmd \<Rightarrow> Inr (cmd = ''ls-refs''))"
proof -
  have step: "lsRefs_scan x = (case CutPrefix (TrimNewlines s) ''command='' of None \<Rightarrow> lsRefs_scan rest | Some cmd \<Rightarrow> Inr (cmd = ''ls-refs''))"
    if "parseHexLen (take 4 x) = Some n" "drop 4 (take n x) = s" "drop n x = rest" "n \<le> length x" "4 \<le> n" for x n
    using that(1,2,4,5) unfolding that(3) [symmetric] by (subst lsRefs_scan.simps) simp
  show ?thesis
    by (rule step [of _ "length s + 4"]) (use parse_hex4 [of "length s + 4"] assms in \<open>simp_all add: pktLine_def\<close>)
qed

lemma lsRefs_scan_control:
  "lsRefs_scan (''0000'' @ rest) = lsRefs_scan rest" "lsRefs_scan (''0001'' @ rest) = lsRefs_scan rest"
proof -
  have "parseHexLen ''0000'' = Some 0" "parseHexLen ''0001'' = Some 1" by code_simp+
  then show "lsRefs_scan (''0000'' @ rest) = lsRefs_scan rest" "lsRefs_scan (''0001'' @ rest) = lsRefs_scan rest"
    by (subst lsRefs_scan.simps, simp)+
qed

lemma lsRefs_scan_passed: "passed p \<Longrightarrow> lsRefs_scan (pktBytes p @ rest) = lsRefs_scan rest"
  using lsRefs_scan_control by (cases p) (auto simp: passed_def lsRefs_scan_line CutPrefix_def)

lemma lsRefs_scan_packets:
  "list_all passed ps \<Longrightarrow> lsRefs_scan (concat (map pktBytes ps) @ rest) = lsRefs_scan rest"
  by (induction ps) (simp_all add: lsRefs_scan_passed)

lemma lsRefs_command:
  assumes "list_all passed ps" "length (c @ nl) < 65000" "set nl \<subseteq> {CHR 0x0A}" "CHR 0x0A \<notin> set c"
  shows "lsRefs_scan (concat (map pktBytes ps) @ pktLine (''command='' @ c @ nl) @ rest) = Inr (c = ''ls-refs'')"
proof -
  have "dropWhile (\<lambda>x. x = CHR 0x0A) (rev (''command='' @ c @ nl)) = rev (''command='' @ c)"
  proof -
    have nl: "dropWhile (\<lambda>x. x = CHR 0x0A) (rev nl @ ys) = dropWhile (\<lambda>x. x = CHR 0x0A) ys" for ys
      using assms(3) by (intro dropWhile_append2) auto
    show ?thesis using assms(4) by (cases "rev c") (auto simp: nl dest: arg_cong [of _ _ set])
  qed
  then have "TrimNewlines (''command='' @ c @ nl) = ''command='' @ c" by (simp add: TrimNewlines_def)
  then show ?thesis
    using assms(2) lsRefs_scan_packets [OF assms(1)] lsRefs_scan_line [of "''command='' @ c @ nl" rest]
    by (simp add: CutPrefix_def)
qed

text \<open>The key of an entry.\<close>

lemma packKey_inj:
  assumes "is_hash b" "is_hash b'" "CHR '':'' \<notin> set p" "CHR '':'' \<notin> set p'"
  shows "packKey r p b = packKey r' p' b' \<longleftrightarrow> repo_String r = repo_String r' \<and> p = p' \<and> b = b'"
proof
  assume eq: "packKey r p b = packKey r' p' b'"
  have len: "length (hash_String b) = length (hash_String b')" using assms(1,2) by (simp add: hash_String_def is_hash_def)
  have "(repo_String r @ CHR '':'' # p @ '':'') @ hash_String b = (repo_String r' @ CHR '':'' # p' @ '':'') @ hash_String b'"
    using eq by (simp add: packKey_def)
  then have parts: "repo_String r @ CHR '':'' # p = repo_String r' @ CHR '':'' # p'" "hash_String b = hash_String b'"
    using iffD1 [OF append_eq_append_conv [OF disjI2 [OF len]]] by fastforce+
  have "LastIndexOf (repo_String r @ CHR '':'' # p) (CHR '':'') = Some (length (repo_String r))"
    "LastIndexOf (repo_String r' @ CHR '':'' # p') (CHR '':'') = Some (length (repo_String r'))"
    using LastIndexOf_append [OF assms(3)] LastIndexOf_append [OF assms(4)] by simp_all
  then have "length (repo_String r) = length (repo_String r')" using parts(1) by simp
  then have "repo_String r = repo_String r' \<and> p = p'" using parts(1) by simp
  moreover have "b = b'" using parts(2) by (simp add: hash_String_def)
  ultimately show "repo_String r = repo_String r' \<and> p = p' \<and> b = b'" by simp
qed (simp add: packKey_def)

section \<open>Over any store\<close>

context cache_world
begin

definition git_on :: "'w git \<Rightarrow> bool" where
  "git_on h \<longleftrightarrow> gx_es (gh_index h) = es \<and> gh_store h = st \<and> gh_blake3 h = blake3
     \<and> json_ok (gx_json (gh_index h)) \<and> index_ok (gx_pack (gh_index h))"

lemma GetPack_cong:
  "gx_es x = es \<Longrightarrow> (\<And>p kd k. es_Get es w' p kd k = es_Get es w p kd k) \<Longrightarrow> GetCachedPack x w' key = GetCachedPack x w key"
  by (simp add: GetCachedPack_def EI_GetJSON_def EI_Get_def)

text \<open>A pack that is fetched for a key: it is what the upstream answered to this body, and stored; the
  other entries stay.\<close>

definition stored_pack :: "'w git \<Rightarrow> string \<Rightarrow> bytes \<Rightarrow> 'w \<Rightarrow> 'w \<Rightarrow> bool" where
  "stored_pack h key data w w' \<longleftrightarrow>
     inv w' \<and> (healthy w \<longrightarrow> healthy w') \<and> is_hash (blake3 data)
     \<and> (\<exists>d. content w' (blake3 data) = Some d \<and> blake3 d = blake3 data
          \<and> (content w (blake3 data) = None \<longrightarrow> d = data))
     \<and> (GetCachedPack (gh_index h) w' key = GetCachedPack (gh_index h) w key
        \<or> (\<exists>p. GetCachedPack (gh_index h) w' key = Inr p \<and> pk_ResponseHash p = blake3 data \<and> pk_ResponseSize p = int (length data)))
     \<and> (\<forall>key'. key' \<noteq> key \<longrightarrow> GetCachedPack (gh_index h) w' key' = GetCachedPack (gh_index h) w key')"

definition same_packs :: "'w git \<Rightarrow> 'w \<Rightarrow> 'w \<Rightarrow> bool" where
  "same_packs h w w' \<longleftrightarrow> inv w' \<and> (healthy w \<longrightarrow> healthy w')
     \<and> (\<forall>key. GetCachedPack (gh_index h) w' key = GetCachedPack (gh_index h) w key)"

lemma put_pack:
  assumes h: "git_on h" and inv: "inv w" and put: "st_Put st w (spooled tf data) = (Inr y, w1)"
    and p: "pk_ResponseHash p = blake3 data" "pk_ResponseSize p = int (length data)"
    and rec: "w2 = snd (PutCachedPack (gh_index h) w1 key p)"
  shows "stored_pack h key data w w2"
proof -
  have on: "gx_es (gh_index h) = es" "json_ok (gx_json (gh_index h))" "index_ok (gx_pack (gh_index h))"
    using h by (simp_all add: git_on_def)
  note pb = put_blob [OF inv put]
  note up = upload_stored [OF inv put]
  have same: "GetCachedPack (gh_index h) w1 k = GetCachedPack (gh_index h) w k" for k
    by (rule GetPack_cong [OF on(1)]) (use pb in blast)
  obtain r refs where run: "EI_PutJSON (j_enc (gx_json (gh_index h))) es (gx_pack (gh_index h)) (gx_now (gh_index h)) w1
      key p refs = (r, w2)"
    using rec on(1) unfolding PutCachedPack_def by (metis prod.collapse)
  have inv1: "inv w1" using pb by blast
  note js = index_json_put_get [OF on(3,2) inv1 run]
  have rec2: "GetCachedPack (gh_index h) w2 key = GetCachedPack (gh_index h) w key \<or> GetCachedPack (gh_index h) w2 key = Inr p"
    unfolding same [symmetric] using js on(1) by (cases r) (simp_all add: GetCachedPack_def)
  have others: "GetCachedPack (gh_index h) w2 k = GetCachedPack (gh_index h) w k" if "k \<noteq> key" for k
    unfolding same [symmetric] using js on(1) that by (cases r) (simp_all add: GetCachedPack_def)
  have w2: "inv w2" "content w2 = content w1" "healthy w \<longrightarrow> healthy w2" using js pb by blast+
  obtain d where d: "content w1 y = Some d" "blake3 d = blake3 data" "content w (blake3 data) = None \<longrightarrow> d = data"
    and y: "is_hash y" "y = blake3 data"
    using up by (simp only: spooled_simps) (elim conjE exE, rule that)
  have "content w2 (blake3 data) = Some d" using d(1) y(2) w2(2) by simp
  with d(2,3) have "\<exists>d. content w2 (blake3 data) = Some d \<and> blake3 d = blake3 data \<and> (content w (blake3 data) = None \<longrightarrow> d = data)"
    by (intro exI conjI)
  with w2(1,3) y rec2 p others show ?thesis unfolding stored_pack_def by blast
qed

lemma fetchAndStorePack_spec:
  assumes h: "git_on h" and inv: "inv w"
    and run: "fetchAndStorePack h env u repo proto body key (w, t) = (res, (w', t'))"
  shows "same_packs h w w' \<and> (\<exists>e. res = Inl e)
    \<or> (\<exists>resp. fst (sendPack h env u repo proto body t) = Inr resp \<and> \<not> src_fails (rp_Body resp)
        \<and> stored_pack h key (concat (chunks (rp_Body resp))) w w'
        \<and> res = Inr \<lparr>dr_Hash = blake3 (concat (chunks (rp_Body resp))), dr_Size = int (length (concat (chunks (rp_Body resp))))\<rparr>)"
proof -
  obtain sres t1 where send: "sendPack h env u repo proto body t = (sres, t1)" by fastforce
  have stay: "same_packs h w w" using inv by (simp add: same_packs_def)
  show ?thesis
  proof (cases "\<exists>resp data. sres = Inr resp \<and> spool (gn_pack env) resp = Inr data \<and> tf_seek (gn_pack env)")
    case False
    then have "w' = w \<and> (\<exists>e. res = Inl e)"
      using run send by (auto simp: fetchAndStorePack_def split: sum.splits if_splits)
    then show ?thesis using stay by blast
  next
    case True
    then obtain resp data where ok: "sres = Inr resp" "spool (gn_pack env) resp = Inr data" "tf_seek (gn_pack env)" by blast
    have st: "gh_store h = st" "gh_blake3 h = blake3" "gx_es (gh_index h) = es" using h by (simp_all add: git_on_def)
    obtain pres w1 where p: "st_Put st w (spooled (gn_pack env) data) = (pres, w1)" by fastforce
    show ?thesis
    proof (cases pres)
      case (Inl e)
      then have "w' = w1 \<and> (\<exists>e. res = Inl e)"
        using run send ok p st by (auto simp: fetchAndStorePack_def)
      moreover have "same_packs h w w1"
        using put_blob [OF inv p] GetPack_cong [OF st(3), of w1 w] by (simp add: same_packs_def)
      ultimately show ?thesis by blast
    next
      case (Inr y)
      let ?p = "\<lparr>pk_RequestHash = blake3 (fst body), pk_ResponseHash = blake3 data, pk_ResponseSize = int (length data),
         pk_Repo = repo_String repo, pk_GitProtocol = proto, pk_CachedAt = gx_now (gh_index h)\<rparr>"
      have run': "res = Inr \<lparr>dr_Hash = blake3 data, dr_Size = int (length data)\<rparr>" "w' = snd (PutCachedPack (gh_index h) w1 key ?p)"
        using run send ok p st Inr by (auto simp: fetchAndStorePack_def)
      have "stored_pack h key data w w'"
        by (rule put_pack [OF h inv p [unfolded Inr] _ _ run'(2)]) simp_all
      then show ?thesis using spool_Inr [OF ok(2)] ok(1) send run'(1) by auto
    qed
  qed
qed

text \<open>An entry is served from the store, if the credentials can be had.\<close>

lemma handleUploadPack_hit:
  assumes h: "gh_store h = st" and inv: "inv w" "healthy w"
    and req: "requestBody h env r = Inr body" "isLsRefs (snd body) (fst body) \<noteq> Inr True"
      "packKey repo (rq_Header r ''Git-Protocol'') (gh_blake3 h (fst body)) = key"
    and hit: "GetCachedPack (gh_index h) w key = Inr p" "is_hash (pk_ResponseHash p)" "content w (pk_ResponseHash p) = Some d"
    and auth: "git_Match (ge_unicode (gh_env h)) (gh_router h) repo = Some u" "fst (checkAuth (gh_env h) (gn_auth env) u repo t) = Inr x"
  shows "\<exists>resp w' t'. handleUploadPack h env (w, t) r repo = (Some resp, (w', t')) \<and> rs_Status resp = 200
    \<and> (rq_Method r \<noteq> ''HEAD'' \<longrightarrow> rs_Body resp = d)"
proof -
  have has: "st_Has st w (pk_ResponseHash p) = Inr True"
    using has_blob [OF inv(1) hit(2)] inv(2) hit(3) by (cases "st_Has st w (pk_ResponseHash p)") auto
  obtain t1 where t1: "checkAuth (gh_env h) (gn_auth env) u repo t = (Inr x, t1)" using auth(2) by (cases "checkAuth (gh_env h) (gn_auth env) u repo t") auto
  obtain resp w1 where srv: "ServeFromStore st w r \<lparr>dr_Hash = pk_ResponseHash p, dr_Size = pk_ResponseSize p\<rparr> packOptions = (resp, w1)"
    by fastforce
  have hash: "is_hash (dr_Hash \<lparr>dr_Hash = pk_ResponseHash p, dr_Size = pk_ResponseSize p\<rparr>)" using hit(2) by simp
  note ss = ServeFromStore_spec [OF inv(1) hash srv]
  have "handleUploadPack h env (w, t) r repo = (Some resp, (w1, t1))"
    using req hit(1) has auth(1) t1 srv h by (simp add: handleUploadPack_def Let_def)
  then show ?thesis using ss inv(2) hit(3) by auto
qed

text \<open>A request whose entry is missing either leaves the entries or fetches and stores the pack.\<close>

lemma fetchMiss_spec:
  assumes h: "git_on h" and inv: "inv w"
    and run: "fetchMiss h env r repo proto body key (w, t) = (resp, (w', t'))" "gn_flight env = Executes"
  shows "same_packs h w w'
    \<or> (\<exists>u reply'. git_Match (ge_unicode (gh_env h)) (gh_router h) repo = Some u
        \<and> fst (sendPack h env u repo proto body t) = Inr reply' \<and> \<not> src_fails (rp_Body reply')
        \<and> stored_pack h key (concat (chunks (rp_Body reply'))) w w')"
proof (cases "git_Match (ge_unicode (gh_env h)) (gh_router h) repo")
  case None
  then have "w' = w" using run by (simp add: fetchMiss_def)
  then show ?thesis using inv by (simp add: same_packs_def)
next
  case (Some u)
  obtain res w1 t1 where fetch: "fetchAndStorePack h env u repo proto body key (w, t) = (res, (w1, t1))" by (metis surj_pair)
  note spec = fetchAndStorePack_spec [OF h inv fetch]
  show ?thesis
  proof (cases "gn_ctx env = None \<and> (\<exists>x. res = Inr x)")
    case False
    then have "w' = w1"
      using run Some fetch by (auto simp: fetchMiss_def Do_def HandleResult_def split: sum.splits option.splits if_splits)
    then show ?thesis using spec Some by blast
  next
    case True
    then obtain reply' where up: "fst (sendPack h env u repo proto body t) = Inr reply'" "\<not> src_fails (rp_Body reply')"
      "stored_pack h key (concat (chunks (rp_Body reply'))) w w1"
      "res = Inr \<lparr>dr_Hash = blake3 (concat (chunks (rp_Body reply'))), dr_Size = int (length (concat (chunks (rp_Body reply'))))\<rparr>"
      using spec by blast
    let ?data = "concat (chunks (rp_Body reply'))"
    have st: "gh_store h = st" "gx_es (gh_index h) = es" using h by (simp_all add: git_on_def)
    obtain resp1 where srv: "ServeFromStore st w1 r \<lparr>dr_Hash = blake3 ?data, dr_Size = int (length ?data)\<rparr> packOptions = (resp1, w')"
      using run Some fetch True up(4) st(1)
      by (auto simp: fetchMiss_def Do_def HandleResult_def split: prod.splits)
    have w1: "inv w1" "is_hash (dr_Hash \<lparr>dr_Hash = blake3 ?data, dr_Size = int (length ?data)\<rparr>)"
      using up(3) by (simp_all add: stored_pack_def)
    note ss = ServeFromStore_spec [OF w1 srv]
    have eqs: "content w' = content w1" "healthy w' = healthy w1" "inv w'" using ss by blast+
    have same: "GetCachedPack (gh_index h) w' k = GetCachedPack (gh_index h) w1 k" for k
      by (rule GetPack_cong [OF st(2)]) (use ss in blast)
    have "stored_pack h key ?data w w' = stored_pack h key ?data w w1"
      unfolding stored_pack_def eqs(1,2) same using eqs(3) w1(1) by blast
    then show ?thesis using up Some by blast
  qed
qed

end

end
