(* ===== verification/GitProperties.thy ===== *)
theory GitProperties
  imports RegistryProperties Git
begin

text \<open>
  The properties of the Git proxy as the server runs it: packs that are fetched once and served from
  the store, requests for references that are never cached, and the keys of the entries.
\<close>

section \<open>Packs\<close>

definition git_server ::
  "(string \<Rightarrow> string) \<Rightarrow> (envelope \<Rightarrow> bool) \<Rightarrow> header_codec \<Rightarrow> (bytes \<Rightarrow> hash) \<Rightarrow> (int \<Rightarrow> string) \<Rightarrow> 'n notifier_ops option
     \<Rightarrow> (db, fs, unit, 'n) cafs git \<Rightarrow> bool" where
  "git_server U mar c blake3 fmt nt h \<longleftrightarrow>
     gx_es (gh_index h) = onMetaDB (boltStore U mar)
     \<and> (\<exists>tf now. gh_store h = cafsOps (serverStore c blake3 fmt nt) tf now) \<and> gh_blake3 h = blake3
     \<and> json_ok (gx_json (gh_index h)) \<and> index_ok (gx_pack (gh_index h))"

lemma git_serverD:
  assumes "git_server U mar c blake3 fmt nt h"
  obtains tf now where "server.git_on U mar c blake3 fmt nt tf now h" "gh_store h = cafsOps (serverStore c blake3 fmt nt) tf now"
  using assms by (auto simp: git_server_def server.git_on_def)

text \<open>C13: when a request for a pack makes the index name a pack under its key, the upstream of the
  repository answered with this pack to this body. A later request with the same key, that is no
  request for references and for which the credentials can be had, gets this pack from the store; the
  entries of other keys stay.\<close>

theorem git_pack_served:
  fixes w :: "(db, fs, unit, 'n) cafs"
  assumes h: "git_server U mar c blake3 fmt nt h" and ok: "world_ok blake3 w" "fs_healthy (cs_backend w)"
    and req: "requestBody h env r = Inr body" "isLsRefs (snd body) (fst body) \<noteq> Inr True"
      "packKey repo (rq_Header r ''Git-Protocol'') (blake3 (fst body)) = key"
    and run: "handleUploadPack h env (w, t) r repo = (resp, (w', t'))" "gn_flight env = Executes"
    and cached: "GetCachedPack (gh_index h) w key = Inl e" "GetCachedPack (gh_index h) w' key = Inr p"
    and later: "gh_index h' = gh_index h" "gh_store h' = gh_store h" "gh_blake3 h' = blake3"
      "requestBody h' env' r' = Inr body'" "isLsRefs (snd body') (fst body') \<noteq> Inr True" "rq_Method r' \<noteq> ''HEAD''"
      "packKey repo' (rq_Header r' ''Git-Protocol'') (blake3 (fst body')) = key"
      "git_Match (ge_unicode (gh_env h')) (gh_router h') repo' = Some u'"
      "fst (checkAuth (gh_env h') (gn_auth env') u' repo' t2) = Inr x"
  shows "\<exists>u reply' pack resp' s'. git_Match (ge_unicode (gh_env h)) (gh_router h) repo = Some u
    \<and> fst (sendPack h env u repo (rq_Header r ''Git-Protocol'') body t) = Inr reply' \<and> \<not> src_fails (rp_Body reply')
    \<and> handleUploadPack h' env' (w', t2) r' repo' = (Some resp', s') \<and> rs_Status resp' = 200 \<and> rs_Body resp' = pack
    \<and> blake3 pack = blake3 (concat (chunks (rp_Body reply')))
    \<and> (fs_content (cs_backend w) (blake3 (concat (chunks (rp_Body reply')))) = None \<longrightarrow> pack = concat (chunks (rp_Body reply')))
    \<and> (\<forall>key'. key' \<noteq> key \<longrightarrow> GetCachedPack (gh_index h) w' key' = GetCachedPack (gh_index h) w key')"
proof -
  obtain tf now where on: "server.git_on U mar c blake3 fmt nt tf now h"
    and st: "gh_store h = cafsOps (serverStore c blake3 fmt nt) tf now" by (rule git_serverD [OF h])
  have b3: "gh_blake3 h = blake3" using h by (simp add: git_server_def)
  have miss: "fetchMiss h env r repo (rq_Header r ''Git-Protocol'') body key (w, t) = (resp, (w', t'))"
    using run(1) req cached(1) b3 by (simp add: handleUploadPack_def Let_def)
  obtain u reply' where up: "git_Match (ge_unicode (gh_env h)) (gh_router h) repo = Some u"
      "fst (sendPack h env u repo (rq_Header r ''Git-Protocol'') body t) = Inr reply'" "\<not> src_fails (rp_Body reply')"
    and stored: "server.stored_pack blake3 h key (concat (chunks (rp_Body reply'))) w w'"
    using server.fetchMiss_spec [OF on ok(1) miss run(2)] cached by (auto simp: server.same_packs_def)
  let ?data = "concat (chunks (rp_Body reply'))"
  have p: "pk_ResponseHash p = blake3 ?data" using stored cached unfolding server.stored_pack_def by auto
  obtain pack where pack: "fs_content (cs_backend w') (blake3 ?data) = Some pack" "blake3 pack = blake3 ?data"
      "fs_content (cs_backend w) (blake3 ?data) = None \<longrightarrow> pack = ?data"
    and ok': "world_ok blake3 w'" "fs_healthy (cs_backend w')" "is_hash (blake3 ?data)"
    and others: "\<forall>key'. key' \<noteq> key \<longrightarrow> GetCachedPack (gh_index h) w' key' = GetCachedPack (gh_index h) w key'"
    using stored ok(2) unfolding server.stored_pack_def by iprover
  have store: "gh_store h' = cafsOps (serverStore c blake3 fmt nt) tf now" using later(2) st by simp
  have key: "packKey repo' (rq_Header r' ''Git-Protocol'') (gh_blake3 h' (fst body')) = key" using later(3,7) by simp
  have hit: "GetCachedPack (gh_index h') w' key = Inr p" "is_hash (pk_ResponseHash p)" "fs_content (cs_backend w') (pk_ResponseHash p) = Some pack"
    using later(1) cached(2) ok'(3) pack(1) unfolding p by simp_all
  obtain resp' s' where again: "handleUploadPack h' env' (w', t2) r' repo' = (Some resp', s')" "rs_Status resp' = 200" "rs_Body resp' = pack"
    using server.handleUploadPack_hit [OF store ok'(1,2) later(4,5) key hit later(8,9)] later(6) by blast
  show ?thesis
    using up again pack(2,3) others
    by (intro exI [of _ u] exI [of _ reply'] exI [of _ pack] exI [of _ resp'] exI [of _ s'] conjI) (assumption | iprover)+
qed

text \<open>C14: the scan of a body finds its command after any number of flush and delimiter packets and of
  other lines; a request for references is always answered by the upstream and changes neither the
  index nor the store.\<close>

theorem git_ls_refs_fresh:
  assumes body: "requestBody h env r = Inr (concat (map pktBytes ps) @ pktLine (''command='' @ c @ nl) @ rest, tf)"
    and packets: "list_all passed ps" "nl \<in> {[], [CHR 0x0A]}" "CHR 0x0A \<notin> set c" "length c < 60000"
      "length (concat (map pktBytes ps) @ pktLine (''command='' @ c @ nl)) \<le> maxLsRefsScanSize"
    and tf: "tf_seek tf" "tf_read tf"
    and run: "handleUploadPack h env (w, t) r repo = (resp, (w', t'))"
  shows "isLsRefs tf (concat (map pktBytes ps) @ pktLine (''command='' @ c @ nl) @ rest) = Inr (c = ''ls-refs'')
    \<and> (c = ''ls-refs'' \<longrightarrow> w' = w \<and> resp = map_option
      (\<lambda>u. case fst (sendPack h env u repo (rq_Header r ''Git-Protocol'')
                  (concat (map pktBytes ps) @ pktLine (''command='' @ c @ nl) @ rest, tf) t) of
             Inl e \<Rightarrow> repoError e
           | Inr reply' \<Rightarrow> reply 200 [(''Content-Type'', ''application/x-git-upload-pack-result'')] (concat (chunks (rp_Body reply'))))
      (git_Match (ge_unicode (gh_env h)) (gh_router h) repo))"
proof -
  let ?body = "concat (map pktBytes ps) @ pktLine (''command='' @ c @ nl) @ rest"
  let ?n = "length (concat (map pktBytes ps) @ pktLine (''command='' @ c @ nl))"
  have cut: "take m (xs @ ys) = xs @ take (m - length xs) ys" if "length xs \<le> m" for xs ys and m :: nat
    using that by simp
  have taken: "take maxLsRefsScanSize ?body = concat (map pktBytes ps) @ pktLine (''command='' @ c @ nl) @ take (maxLsRefsScanSize - ?n) rest"
    using cut [OF packets(5), of rest] by (simp only: append_assoc)
  have "length (c @ nl) < 65000" "set nl \<subseteq> {CHR 0x0A}" using packets(2,4) by auto
  then have "lsRefs_scan (take maxLsRefsScanSize ?body) = Inr (c = ''ls-refs'')"
    unfolding taken by (rule lsRefs_command [OF packets(1) _ _ packets(3)])
  then have scan: "isLsRefs tf ?body = Inr (c = ''ls-refs'')" using tf by (simp only: isLsRefs_def) simp
  have "w' = w \<and> resp = map_option
      (\<lambda>u. case fst (sendPack h env u repo (rq_Header r ''Git-Protocol'') (?body, tf) t) of
             Inl e \<Rightarrow> repoError e
           | Inr reply' \<Rightarrow> reply 200 [(''Content-Type'', ''application/x-git-upload-pack-result'')] (concat (chunks (rp_Body reply'))))
      (git_Match (ge_unicode (gh_env h)) (gh_router h) repo)" if "c = ''ls-refs''"
  proof -
    have "isLsRefs tf ?body = Inr True" using scan that by simp
    then have "handleUploadPack h env (w, t) r repo = serveLsRefs h env repo (rq_Header r ''Git-Protocol'') (?body, tf) (w, t)"
      using body by (simp add: handleUploadPack_def Let_def)
    then show ?thesis
      using run by (auto simp: serveLsRefs_def packOptions_def split: option.splits prod.splits sum.splits)
  qed
  then show ?thesis using scan by blast
qed

text \<open>A proxy of one upstream, which answers every request with the same pack.\<close>

definition gitPack0 :: "hash \<Rightarrow> cached_pack" where
  "gitPack0 x = \<lparr>pk_RequestHash = hash0, pk_ResponseHash = x, pk_ResponseSize = 6, pk_Repo = ''github.com/a/b'',
     pk_GitProtocol = [], pk_CachedAt = 0\<rparr>"

definition gitReply0 :: http_reply where
  "gitReply0 = \<lparr>rp_Status = 200, rp_Header = (\<lambda>_. []), rp_ContentLength = -1,
     rp_Body = \<lparr>chunks = [''world!''], src_fails = False\<rparr>, rp_ReadError = DownloadFailed\<rparr>"

definition git0 :: "(db, fs, unit, unit) cafs git" where
  "git0 = \<lparr>gh_index = \<lparr>gx_es = onMetaDB (boltStore id (\<lambda>_. True)), gx_pack = kindIdx ''pack'',
       gx_json = sampleJSON gitPack0 pk_ResponseHash, gx_now = 0\<rparr>,
     gh_store = cafsOps serverStore0 temp0 0,
     gh_router = \<lparr>grt_routes = [], grt_fallback = Some \<lparr>gu_auth = NoAuth\<rparr>\<rparr>, gh_allowedHosts = [''github.com''],
     gh_maxRequestBodySize = 1000, gh_maxDecompressedBodySize = 1000,
     gh_env = \<lparr>ge_client = (\<lambda>_ _ _ _. Inr gitReply0), ge_api = (\<lambda>_. None), ge_unicode = id, ge_fold = (=)\<rparr>,
     gh_gunzip = (\<lambda>_. None), gh_blake3 = blake3_0\<rparr>"

definition git_run0 :: git_run where
  "git_run0 = \<lparr>gn_raw = temp0, gn_decomp = temp0, gn_pack = temp0,
     gn_auth = \<lparr>au_now = 0, au_nowMint = 0, au_nowStale = 0, au_ctx = None, au_ctxWait = None, au_joins = None\<rparr>,
     gn_flight = Executes, gn_ctx = None\<rparr>"

definition repo0 :: repo_ref where
  "repo0 = \<lparr>re_Host = ''github.com'', re_RepoPath = ''a/b''\<rparr>"

definition packKey0 :: string where
  "packKey0 = packKey repo0 [] hash0"

lemma git0_server: "git_server id (\<lambda>_. True) codec0 blake3_0 (\<lambda>_. []) None git0"
  by (auto simp: git_server_def git0_def json_ok_sample index_ok_kind sep_def)

lemma git0_simps:
  "gx_es (gh_index git0) = onMetaDB (boltStore id (\<lambda>_. True))" "gx_pack (gh_index git0) = kindIdx ''pack''"
  "gx_now (gh_index git0) = 0" "gh_store git0 = cafsOps serverStore0 temp0 0" "gh_blake3 git0 = blake3_0"
  "gx_json (gh_index git0) = sampleJSON gitPack0 pk_ResponseHash"
  "git_Match (ge_unicode (gh_env git0)) (gh_router git0) repo = Some \<lparr>gu_auth = NoAuth\<rparr>"
  by (simp_all add: git0_def git_Match_def)

lemma git_run0_simps [simp]:
  "gn_raw git_run0 = temp0" "gn_pack git_run0 = temp0" "gn_flight git_run0 = Executes" "gn_ctx git_run0 = None"
  by (simp_all add: git_run0_def)

lemma temp0_simps [simp]: "tf_create temp0" "tf_write temp0" "tf_seek temp0" "tf_read temp0"
  by (simp_all add: temp0_def)

lemma git0_scan: "isLsRefs temp0 ''hello'' \<noteq> Inr True"
proof -
  have "take maxLsRefsScanSize ''hello'' = ''hello''" by (simp add: maxLsRefsScanSize_def)
  moreover have "parseHexLen ''hell'' = None" by code_simp
  then have "lsRefs_scan ''hello'' = Inl BadHexLength" by (subst lsRefs_scan.simps) simp
  ultimately show ?thesis by (simp add: isLsRefs_def)
qed

lemma git0_body:
  "concat (chunks b) = data \<Longrightarrow> \<not> src_fails b \<Longrightarrow> length data \<le> 1000 \<Longrightarrow>
     requestBody git0 git_run0 (request ''POST'' [] b) = Inr (data, temp0)"
  by (simp add: requestBody_def copyRequest_def git0_def request_def)

lemma git0_auth: "checkAuth (gh_env git0) run \<lparr>gu_auth = NoAuth\<rparr> repo t = (Inr (), t)"
  by (simp add: checkAuth_def resolveBasicAuth_def)

lemma git0_send: "sendPack git0 run \<lparr>gu_auth = NoAuth\<rparr> repo p (b, temp0) t = (Inr gitReply0, t)"
proof -
  have "ge_client (gh_env git0) m url hs x = Inr gitReply0" for m url hs x by (simp add: git0_def)
  moreover have "git_checkStatus gitReply0 = Inr gitReply0" by (simp add: git_checkStatus_def gitReply0_def)
  ultimately show ?thesis by (simp add: sendPack_def FetchUploadPack_def git_setAuth_def resolveBasicAuth_def)
qed

lemma git0_reply: "concat (chunks (rp_Body gitReply0)) = ''world!''" "spool temp0 gitReply0 = Inr ''world!''"
  by (simp_all add: gitReply0_def spool_def)

lemma git0_hello: "requestBody git0 git_run0 (request ''POST'' [] src1) = Inr (''hello'', temp0)"
  by (rule git0_body) (simp_all add: src1_def)

lemma git0_run:
  "\<exists>resp w t. handleUploadPack git0 git_run0 (store1, Map.empty) (request ''POST'' [] src1) repo0 = (resp, (w, t))
     \<and> GetCachedPack (gh_index git0) w packKey0 = Inr (gitPack0 hash1)"
proof -
  let ?r = "request ''POST'' [] src1"
  obtain w1 where w1: "Put serverStore0 temp0 0 store1 (spooled temp0 ''world!'') = (Inr hash1, w1)" "world_ok blake3_0 w1"
    "blobs_good (d_blobs (cs_metaDB w1))"
    using upload_succeeds [OF store1_ok(1,2), of "spooled temp0 ''world!''"] by (auto simp: blake3_0_def temp0_def)
  have "j_enc (gx_json (gh_index git0)) (gitPack0 hash1) = Some hash1"
    by (simp add: git0_simps sampleJSON_def gitPack0_def)
  moreover have "length packKey0 = 80" "length hash1 < CompressionThreshold" by code_simp+
  ultimately obtain w2 where w2: "EI_PutJSON (j_enc (gx_json (gh_index git0))) (onMetaDB (boltStore id (\<lambda>_. True)))
      (kindIdx ''pack'') 0 w1 packKey0 (gitPack0 hash1) [ref1] = (Inr (), w2)"
    using sample_index [OF w1(3), of "[ref1]" "gx_json (gh_index git0)" "gitPack0 hash1" hash1 "''pack''" packKey0] by auto
  have ix: "index_ok (kindIdx ''pack'')" "json_ok (gx_json (gh_index git0))"
    by (simp_all add: index_ok_kind sep_def git0_simps json_ok_sample)
  have put: "PutCachedPack (gh_index git0) w1 packKey0 (gitPack0 hash1) = (Inr (), w2)"
  proof -
    have "\<not> hash_IsZero hash1" by (simp add: hash_IsZero_def hash0_def [symmetric])
    then show ?thesis using w2 by (simp add: PutCachedPack_def git0_simps gitPack0_def ref1_def)
  qed
  have w2': "world_ok blake3_0 w2" "GetCachedPack (gh_index git0) w2 packKey0 = Inr (gitPack0 hash1)"
    using server.index_json_put_get [OF ix w1(2) w2] by (simp_all add: GetCachedPack_def git0_simps)
  have repo: "repo_String repo0 = ''github.com/a/b''" by (simp add: repo0_def repo_String_def)
  have fetch: "fetchAndStorePack git0 git_run0 \<lparr>gu_auth = NoAuth\<rparr> repo0 [] (''hello'', temp0) packKey0 (store1, Map.empty)
      = (Inr \<lparr>dr_Hash = hash1, dr_Size = 6\<rparr>, (w2, Map.empty))"
    using w1(1) put unfolding gitPack0_def
    by (simp add: fetchAndStorePack_def git0_send git0_simps git0_reply blake3_0_def repo)
  have miss: "GetCachedPack (gh_index git0) store1 k = Inl NotCached" for k
    by (simp add: GetCachedPack_def EI_GetJSON_def git0_simps store1_miss indexError_def)
  obtain resp w3 where srv: "ServeFromStore (cafsOps serverStore0 temp0 0) w2 ?r \<lparr>dr_Hash = hash1, dr_Size = 6\<rparr> packOptions = (resp, w3)"
    by fastforce
  have hash: "is_hash (dr_Hash \<lparr>dr_Hash = hash1, dr_Size = 6\<rparr>)" by simp
  note ss = server.ServeFromStore_spec [OF w2'(1) hash srv]
  have key: "packKey repo0 [] (blake3_0 ''hello'') = packKey0" by (simp add: packKey0_def blake3_0_def)
  have proto: "rq_Header ?r k = []" for k by (simp add: request_def)
  have "handleUploadPack git0 git_run0 (store1, Map.empty) ?r repo0 = (Some resp, (w3, Map.empty))"
    using fetch miss srv git0_scan
    by (simp add: handleUploadPack_def git0_hello proto git0_simps key fetchMiss_def Do_def HandleResult_def)
  moreover have "GetCachedPack (gh_index git0) w3 packKey0 = Inr (gitPack0 hash1)"
    using server.GetPack_cong [OF git0_simps(1), of w3 w2 packKey0] ss w2'(2) by simp
  ultimately show ?thesis by blast
qed

theorem git_pack_served_witness:
  "\<exists>resp w t resp' s'. handleUploadPack git0 git_run0 (store1, Map.empty) (request ''POST'' [] src1) repo0 = (resp, (w, t))
     \<and> handleUploadPack git0 git_run0 (w, t) (request ''POST'' [] src1) repo0 = (Some resp', s')
     \<and> rs_Status resp' = 200 \<and> rs_Body resp' = ''world!''"
proof -
  let ?r = "request ''POST'' [] src1"
  obtain resp w t where run: "handleUploadPack git0 git_run0 (store1, Map.empty) ?r repo0 = (resp, (w, t))"
    and got: "GetCachedPack (gh_index git0) w packKey0 = Inr (gitPack0 hash1)" using git0_run by blast
  have miss: "GetCachedPack (gh_index git0) store1 packKey0 = Inl NotCached"
    by (simp add: GetCachedPack_def EI_GetJSON_def git0_simps store1_miss indexError_def)
  have scan: "isLsRefs (snd (''hello'', temp0)) (fst (''hello'', temp0)) \<noteq> Inr True" using git0_scan by simp
  have key: "packKey repo0 (rq_Header ?r ''Git-Protocol'') (blake3_0 (fst (''hello'', temp0))) = packKey0"
    by (simp add: packKey0_def blake3_0_def request_def)
  have auth: "fst (checkAuth (gh_env git0) (gn_auth git_run0) \<lparr>gu_auth = NoAuth\<rparr> repo0 t) = Inr ()" by (simp add: git0_auth)
  have go: "gn_flight git_run0 = Executes" "rq_Method ?r \<noteq> ''HEAD''" by (simp_all add: request_def)
  obtain u reply' pack resp' s' where out: "git_Match (ge_unicode (gh_env git0)) (gh_router git0) repo0 = Some u"
      "fst (sendPack git0 git_run0 u repo0 (rq_Header ?r ''Git-Protocol'') (''hello'', temp0) Map.empty) = Inr reply'"
      "handleUploadPack git0 git_run0 (w, t) ?r repo0 = (Some resp', s')" "rs_Status resp' = 200" "rs_Body resp' = pack"
      "fs_content (cs_backend store1) (blake3_0 (concat (chunks (rp_Body reply')))) = None \<longrightarrow> pack = concat (chunks (rp_Body reply'))"
    using git_pack_served [OF git0_server store1_ok(1,2) git0_hello scan key run go(1) miss got refl refl git0_simps(5)
        git0_hello scan go(2) key git0_simps(7) auth]
    by (elim exE conjE) (rule that)
  have u: "u = \<lparr>gu_auth = NoAuth\<rparr>" using out(1) by (simp add: git0_simps)
  have "reply' = gitReply0" using out(2) by (simp add: u git0_send)
  then have "pack = ''world!''" using out(6) store1_ok(3) by (simp add: git0_reply)
  then show ?thesis using run out(3-5) by blast
qed

theorem git_ls_refs_fresh_witness:
  "\<exists>resp t. handleUploadPack git0 git_run0 (store1, Map.empty)
       (request ''POST'' [] \<lparr>chunks = [''0014command=ls-refs'', [CHR 0x0A], ''0000''], src_fails = False\<rparr>) repo0
     = (Some resp, (store1, t)) \<and> rs_Body resp = ''world!''"
proof -
  let ?r = "request ''POST'' [] \<lparr>chunks = [''0014command=ls-refs'', [CHR 0x0A], ''0000''], src_fails = False\<rparr>"
  have line: "pktLine (''command='' @ ''ls-refs'' @ [CHR 0x0A]) = ''0014command=ls-refs'' @ [CHR 0x0A]" by code_simp
  have body: "requestBody git0 git_run0 ?r
      = Inr (concat (map pktBytes []) @ pktLine (''command='' @ ''ls-refs'' @ [CHR 0x0A]) @ ''0000'', temp0)"
    unfolding line by (rule git0_body) simp_all
  have tf: "tf_seek temp0" "tf_read temp0" by (simp_all add: temp0_def)
  have len: "length (concat (map pktBytes []) @ pktLine (''command='' @ ''ls-refs'' @ [CHR 0x0A])) \<le> maxLsRefsScanSize"
    unfolding line by (simp add: maxLsRefsScanSize_def)
  obtain resp w t where run: "handleUploadPack git0 git_run0 (store1, Map.empty) ?r repo0 = (resp, (w, t))" by (metis surj_pair)
  have c: "CHR 0x0A \<notin> set ''ls-refs''" "[CHR 0x0A] \<in> {[], [CHR 0x0A]}" "length ''ls-refs'' < 60000" "list_all passed []" by simp_all
  note fresh = git_ls_refs_fresh [OF body c(4,2,1,3) len tf run]
  have "w = store1" "resp = Some (reply 200 [(''Content-Type'', ''application/x-git-upload-pack-result'')] ''world!'')"
    using fresh by (simp_all add: git0_simps git0_send git0_reply)
  then show ?thesis using run by (auto simp: reply_def)
qed

section \<open>Keys\<close>

text \<open>C15: two requests have one key exactly when they are for one repository, protocol and body, if
  their \<open>Git-Protocol\<close> headers have no colon; with a colon, which the client may send, the entry of
  a repository can get the key of another repository.\<close>

theorem git_keys:
  assumes "is_hash b" "is_hash b'"
  shows "(CHR '':'' \<notin> set p \<longrightarrow> CHR '':'' \<notin> set p' \<longrightarrow>
      (packKey r p b = packKey r' p' b' \<longleftrightarrow> repo_String r = repo_String r' \<and> p = p' \<and> b = b'))
    \<and> packKey \<lparr>re_Host = host, re_RepoPath = path @ '':'' @ x\<rparr> p b
        = packKey \<lparr>re_Host = host, re_RepoPath = path\<rparr> (x @ '':'' @ p) b"
  using packKey_inj [OF assms] by (simp add: packKey_def repo_String_def)

theorem git_keys_witness:
  "packKey \<lparr>re_Host = ''github.com'', re_RepoPath = ''a/b:x''\<rparr> ''version=2'' hash1
     = packKey \<lparr>re_Host = ''github.com'', re_RepoPath = ''a/b''\<rparr> ''x:version=2'' hash1
   \<and> parseGitPath ''/github.com/a/b:x/git-upload-pack'' = Some (\<lparr>re_Host = ''github.com'', re_RepoPath = ''a/b:x''\<rparr>, UploadPack)"
proof -
  have "is_hash hash1" by simp
  then have "packKey \<lparr>re_Host = ''github.com'', re_RepoPath = ''a/b'' @ '':'' @ ''x''\<rparr> ''version=2'' hash1
     = packKey \<lparr>re_Host = ''github.com'', re_RepoPath = ''a/b''\<rparr> (''x'' @ '':'' @ ''version=2'') hash1"
    using git_keys by blast
  moreover have "parseGitPath ''/github.com/a/b:x/git-upload-pack'' = Some (\<lparr>re_Host = ''github.com'', re_RepoPath = ''a/b:x''\<rparr>, UploadPack)"
    by code_simp
  ultimately show ?thesis by simp
qed

end
