(* ===== verification/Pypi.thy ===== *)
theory Pypi
  imports Download Urls Git "HOL-Library.AList" "HOL-Library.Char_ord" "HOL-Library.List_Lexorder"
begin

text \<open>
  The PyPI simple repository (\<open>protocol/pypi\<close>): project names, the upstream (\<open>upstream.go\<close>) with
  the scan of project pages, the index of projects (\<open>index.go\<close>) and the handler (\<open>handler.go\<close>).
\<close>

section \<open>Names\<close>

definition is_separator :: "char \<Rightarrow> bool" where
  "is_separator c \<longleftrightarrow> c = CHR ''-'' \<or> c = CHR ''_'' \<or> c = CHR ''.''"

text \<open>Every run of separators becomes one hyphen; \<open>inRun\<close> says that one was just written.\<close>

fun squeeze :: "bool \<Rightarrow> string \<Rightarrow> string" where
  "squeeze inRun [] = []"
| "squeeze inRun (c # s) =
     (if is_separator c then (if inRun then squeeze True s else CHR ''-'' # squeeze True s)
      else c # squeeze False s)"

definition TrimHyphens :: "string \<Rightarrow> string" where
  "TrimHyphens s = rev (dropWhile (\<lambda>c. c = CHR ''-'') (rev (dropWhile (\<lambda>c. c = CHR ''-'') s)))"

definition NormalizeProjectName :: "(string \<Rightarrow> string) \<Rightarrow> string \<Rightarrow> string" where
  "NormalizeProjectName U name = (if name = [] then [] else TrimHyphens (ToLower U (squeeze False name)))"

section \<open>Files and projects\<close>

type_synonym hashes = "(string \<times> string) list"

record cached_file =
  cf_Filename :: string
  cf_ContentHash :: hash
  cf_Size :: int
  cf_Hashes :: hashes
  cf_RequiresPython :: string
  cf_UpstreamURL :: string
  cf_CachedAt :: time

record cached_project =
  cj_Name :: string
  cj_Files :: "(string \<times> cached_file) list"
  cj_CachedAt :: time
  cj_UpdatedAt :: time

definition noProject :: cached_project where
  "noProject = \<lparr>cj_Name = [], cj_Files = [], cj_CachedAt = zero_time, cj_UpdatedAt = zero_time\<rparr>"

record project_file =
  pf_Filename :: string
  pf_URL :: string
  pf_Hashes :: hashes
  pf_RequiresPython :: string

record parsed_file =
  pa_Filename :: string
  pa_URL :: string
  pa_Hashes :: hashes
  pa_RequiresPython :: string

section \<open>The index\<close>

record 'w pypi_index =
  yi_es :: "'w envelope_store"
  yi_project :: env_index
  yi_json :: "cached_project json_codec"
  yi_partial :: "bytes \<Rightarrow> cached_project"
  yi_now :: time
  yi_unicode :: "string \<Rightarrow> string"

definition GetCachedProject :: "'w pypi_index \<Rightarrow> 'w \<Rightarrow> string \<Rightarrow> index_error + cached_project" where
  "GetCachedProject x w name =
     (case EI_GetJSON (j_dec (yi_json x)) (yi_es x) (yi_project x) w (NormalizeProjectName (yi_unicode x) name) of
        Inl e \<Rightarrow> Inl (indexError e)
      | Inr p \<Rightarrow> Inr p)"

definition pypi_collectBlobRefs :: "cached_project \<Rightarrow> string list" where
  "pypi_collectBlobRefs p =
     map (\<lambda>(_, f). BlobRef_String (NewBlobRef (cf_ContentHash f)))
       (filter (\<lambda>(_, f). \<not> hash_IsZero (cf_ContentHash f)) (cj_Files p))"

definition PutCachedProject :: "'w pypi_index \<Rightarrow> 'w \<Rightarrow> cached_project \<Rightarrow> (mdb_error + unit) \<times> 'w" where
  "PutCachedProject x w p0 =
     (let p1 = p0\<lparr>cj_UpdatedAt := yi_now x\<rparr>;
          p = (if IsZero (cj_CachedAt p1) then p1\<lparr>cj_CachedAt := cj_UpdatedAt p1\<rparr> else p1)
      in EI_PutJSON (j_enc (yi_json x)) (yi_es x) (yi_project x) (yi_now x) w
           (NormalizeProjectName (yi_unicode x) (cj_Name p)) p (pypi_collectBlobRefs p))"

definition GetCachedFile :: "'w pypi_index \<Rightarrow> 'w \<Rightarrow> string \<Rightarrow> string \<Rightarrow> index_error + cached_file" where
  "GetCachedFile x w project filename =
     rbind (GetCachedProject x w project)
       (\<lambda>p. case map_of (cj_Files p) filename of None \<Rightarrow> Inl NotCached | Some f \<Rightarrow> Inr f)"

definition GetFileHash :: "'w pypi_index \<Rightarrow> 'w \<Rightarrow> string \<Rightarrow> string \<Rightarrow> index_error + hash" where
  "GetFileHash x w project filename = rbind (GetCachedFile x w project filename) (\<lambda>f. Inr (cf_ContentHash f))"

text \<open>Any failure to read the project counts as not found.\<close>

definition withFile ::
  "time \<Rightarrow> string \<Rightarrow> string \<Rightarrow> hash \<Rightarrow> int \<Rightarrow> hashes \<Rightarrow> string \<Rightarrow> string \<Rightarrow> cached_project \<Rightarrow> cached_project" where
  "withFile now project filename h sz hs upstreamURL requiresPython p0 =
     (let p1 = (if cj_Name p0 = [] then p0\<lparr>cj_Name := project, cj_CachedAt := now\<rparr> else p0)
      in p1\<lparr>cj_Files := AList.update filename
             \<lparr>cf_Filename = filename, cf_ContentHash = h, cf_Size = sz, cf_Hashes = hs, cf_RequiresPython = requiresPython,
              cf_UpstreamURL = upstreamURL, cf_CachedAt = now\<rparr> (cj_Files p1),
           cj_UpdatedAt := now\<rparr>)"

text \<open>The error of reading the project is ignored; \<open>yi_partial\<close> is what a failing \<open>json.Unmarshal\<close> leaves
  of a project.\<close>

definition pypi_projectBefore :: "'w pypi_index \<Rightarrow> 'w \<Rightarrow> string \<Rightarrow> cached_project" where
  "pypi_projectBefore x w project =
     EI_GetJSON_into (j_dec (yi_json x)) (yi_partial x) noProject (yi_es x) (yi_project x) w
       (NormalizeProjectName (yi_unicode x) project)"

definition SetFileHash ::
  "'w pypi_index \<Rightarrow> 'w \<Rightarrow> string \<Rightarrow> string \<Rightarrow> hash \<Rightarrow> int \<Rightarrow> hashes \<Rightarrow> string \<Rightarrow> string \<Rightarrow> (mdb_error + unit) \<times> 'w" where
  "SetFileHash x w project filename h sz hs upstreamURL requiresPython =
     (let key = NormalizeProjectName (yi_unicode x) project;
          p = withFile (yi_now x) project filename h sz hs upstreamURL requiresPython (pypi_projectBefore x w project)
      in EI_PutJSON (j_enc (yi_json x)) (yi_es x) (yi_project x) (yi_now x) w key p (pypi_collectBlobRefs p))"

definition pypi_DeleteProject :: "'w pypi_index \<Rightarrow> 'w \<Rightarrow> string \<Rightarrow> (mdb_error + unit) \<times> 'w" where
  "pypi_DeleteProject x w name =
     (case EI_Delete (yi_es x) (yi_project x) w (NormalizeProjectName (yi_unicode x) name) of
        (r, w1) \<Rightarrow> (if r = Inl ErrNotFound then Inr () else r, w1))"

definition ListProjects :: "'w pypi_index \<Rightarrow> 'w \<Rightarrow> string list" where
  "ListProjects x w = EI_List (yi_es x) (yi_project x) w"

definition pypi_IsExpired :: "'w pypi_index \<Rightarrow> cached_project \<Rightarrow> int \<Rightarrow> bool" where
  "pypi_IsExpired x p ttl = (if ttl \<le> 0 then False else yi_now x - cj_UpdatedAt p > ttl)"

section \<open>The upstream\<close>

text \<open>A URL as the code looks at it. Parsing, printing and resolving are parameters.\<close>

record purl =
  pu_Scheme :: string
  pu_User :: "(string \<times> string) option"
  pu_Hostname :: string
  pu_Port :: string
  pu_Path :: string
  pu_Fragment :: string
  pu_Rest :: string

record url_lib =
  ul_Parse :: "string \<Rightarrow> purl option"
  ul_String :: "purl \<Rightarrow> string"
  ul_Resolve :: "purl \<Rightarrow> purl \<Rightarrow> purl"
  ul_JoinHostPort :: "string \<Rightarrow> string \<Rightarrow> string"
  ul_unicode :: "string \<Rightarrow> string"
  ul_fold :: "string \<Rightarrow> string \<Rightarrow> bool"

record pypi_upstream =
  yu_baseURL :: string
  yu_scheme :: string
  yu_host :: string
  yu_username :: string
  yu_password :: string

definition defaultPort :: "string \<Rightarrow> string" where
  "defaultPort scheme = (if scheme = ''http'' then ''80'' else if scheme = ''https'' then ''443'' else [])"

definition canonicalAuthority :: "url_lib \<Rightarrow> purl \<Rightarrow> string" where
  "canonicalAuthority L u =
     (let hostname = ToLower (ul_unicode L) (pu_Hostname u);
          port = (if pu_Port u = [] then defaultPort (ToLower (ul_unicode L) (pu_Scheme u)) else pu_Port u)
      in if port = [] then hostname else ul_JoinHostPort L hostname port)"

definition WithSimpleURL :: "url_lib \<Rightarrow> string \<Rightarrow> pypi_upstream \<Rightarrow> pypi_upstream" where
  "WithSimpleURL L rawURL u =
     (let trimmed0 = TrimSuffix rawURL ''/'' @ ''/'';
          (u1, trimmed) =
            (case ul_Parse L trimmed0 of
               Some parsed \<Rightarrow>
                 (case pu_User parsed of
                    Some (name, pass) \<Rightarrow> (u\<lparr>yu_username := name, yu_password := pass\<rparr>, ul_String L (parsed\<lparr>pu_User := None\<rparr>))
                  | None \<Rightarrow> (u, trimmed0))
             | None \<Rightarrow> (u, trimmed0));
          u2 = (case ul_Parse L trimmed of
                  Some parsed \<Rightarrow> u1\<lparr>yu_scheme := ToLower (ul_unicode L) (pu_Scheme parsed), yu_host := canonicalAuthority L parsed\<rparr>
                | None \<Rightarrow> u1)
      in u2\<lparr>yu_baseURL := trimmed\<rparr>)"

definition pypi_NewUpstream :: "(pypi_upstream \<Rightarrow> pypi_upstream) list \<Rightarrow> pypi_upstream" where
  "pypi_NewUpstream opts =
     fold (\<lambda>opt u. opt u) opts
       \<lparr>yu_baseURL = ''https://pypi.org/simple/'', yu_scheme = ''https'', yu_host = ''pypi.org:443'', yu_username = [],
        yu_password = []\<rparr>"

definition sameOrigin :: "url_lib \<Rightarrow> pypi_upstream \<Rightarrow> purl \<Rightarrow> bool" where
  "sameOrigin L u reqURL \<longleftrightarrow>
     \<not> (yu_scheme u \<noteq> [] \<and> \<not> EqualFold (ul_fold L) (pu_Scheme reqURL) (yu_scheme u))
     \<and> \<not> (yu_host u \<noteq> [] \<and> \<not> EqualFold (ul_fold L) (canonicalAuthority L reqURL) (yu_host u))"

definition pypi_setAuth :: "url_lib \<Rightarrow> pypi_upstream \<Rightarrow> purl \<Rightarrow> (string \<times> string) list" where
  "pypi_setAuth L u reqURL =
     (if (yu_username u \<noteq> [] \<or> yu_password u \<noteq> []) \<and> sameOrigin L u reqURL
      then [(''Authorization'', ''Basic '' @ base64_encode (yu_username u @ '':'' @ yu_password u))] else [])"

text \<open>Sending a request: one exchange gives a reply or a redirect. Each next request keeps the fields
  that the client forwards, without the credentials where the origin is another. The policy replaces
  the client's own and sets no limit: \<open>budget\<close> is the number of requests until the client's timeout.\<close>

datatype hop = HopReply http_reply | HopRedirect purl "(string \<times> string) list"

type_synonym exchange = "purl \<Rightarrow> (string \<times> string) list \<Rightarrow> dl_error + hop"

record pypi_net =
  yn_exchange :: exchange
  yn_budget :: nat

fun follow ::
  "url_lib \<Rightarrow> pypi_upstream \<Rightarrow> exchange \<Rightarrow> nat \<Rightarrow> purl \<Rightarrow> (string \<times> string) list \<Rightarrow> dl_error + http_reply" where
  "follow L u net 0 url hs = Inl DeadlineExceeded"
| "follow L u net (Suc n) url hs =
     (case net url hs of
        Inl e \<Rightarrow> Inl e
      | Inr (HopReply resp) \<Rightarrow> Inr resp
      | Inr (HopRedirect next hs') \<Rightarrow>
          follow L u net n next
            (if sameOrigin L u next then hs' else filter (\<lambda>x. fst x \<noteq> ''Authorization'') hs'))"

definition pypi_fetch ::
  "url_lib \<Rightarrow> pypi_net \<Rightarrow> pypi_upstream \<Rightarrow> string \<Rightarrow> (string \<times> string) list \<Rightarrow> dl_error + http_reply" where
  "pypi_fetch L net u url hs =
     (case ul_Parse L url of
        None \<Rightarrow> Inl DownloadFailed
      | Some parsed \<Rightarrow>
          rbind (follow L u (yn_exchange net) (yn_budget net) parsed (hs @ pypi_setAuth L u parsed))
            (\<lambda>resp. if rp_Status resp = 404 then Inl UpstreamNotFound
                    else if rp_Status resp \<noteq> 200 then Inl DownloadFailed
                    else Inr resp))"

definition ContentTypeJSON :: string where
  "ContentTypeJSON = ''application/vnd.pypi.simple.v1+json''"

definition FetchProjectPage ::
  "url_lib \<Rightarrow> pypi_net \<Rightarrow> pypi_upstream \<Rightarrow> string \<Rightarrow> dl_error + bytes \<times> string" where
  "FetchProjectPage L net u project =
     rbind (pypi_fetch L net u (yu_baseURL u @ NormalizeProjectName (ul_unicode L) project @ ''/'')
              [(''Accept'', ContentTypeJSON @ '', '' @ ''text/html'' @ '';q=0.9'')])
       (\<lambda>resp. rbind (ReadAll resp) (\<lambda>body. Inr (body, rp_Header resp ''Content-Type'')))"

definition FetchFile :: "url_lib \<Rightarrow> pypi_net \<Rightarrow> pypi_upstream \<Rightarrow> string \<Rightarrow> dl_error + http_reply" where
  "FetchFile L net u fileURL = pypi_fetch L net u fileURL []"

section \<open>Project pages\<close>

text \<open>The tree of a parsed page: the parser is a parameter.\<close>

datatype html_node = HtmlNode (hn_name: "string option") (hn_attrs: "(string \<times> string) list") (hn_children: "html_node list")

text \<open>\<open>[a-z0-9]+=[a-f0-9]+\<close>.\<close>

definition parseHashFragment :: "string \<Rightarrow> hashes" where
  "parseHashFragment fragment =
     (case Cut fragment (CHR ''='') of
        None \<Rightarrow> []
      | Some (name, digest) \<Rightarrow>
          if name \<noteq> [] \<and> digest \<noteq> []
             \<and> (\<forall>c\<in>set name. c \<in> set ''abcdefghijklmnopqrstuvwxyz'' \<or> c \<in> set ''0123456789'')
             \<and> (\<forall>c\<in>set digest. c \<in> set ''abcdef0123456789'')
          then [(name, digest)] else [])"

definition extractFilename :: "string \<Rightarrow> string" where
  "extractFilename path = (case LastIndexOf path (CHR ''/'') of Some i \<Rightarrow> drop (i + 1) path | None \<Rightarrow> path)"

text \<open>Attributes in the order of the page, a later one of the same name taking over.\<close>

definition lastAttr :: "(string \<times> string) list \<Rightarrow> string \<Rightarrow> string" where
  "lastAttr as k = (case map_of (rev as) k of None \<Rightarrow> [] | Some v \<Rightarrow> v)"

definition parseAnchor ::
  "url_lib \<Rightarrow> (string \<Rightarrow> string) \<Rightarrow> string \<Rightarrow> (string \<times> string) list \<Rightarrow> parsed_file" where
  "parseAnchor L unescape baseURL as =
     (let href = lastAttr as ''href'';
          requires = (if list_ex (\<lambda>a. fst a = ''data-requires-python'') as then unescape (lastAttr as ''data-requires-python'') else []);
          none = \<lparr>pa_Filename = [], pa_URL = [], pa_Hashes = [], pa_RequiresPython = requires\<rparr>
      in if href = [] then none
         else case ul_Parse L href of
             None \<Rightarrow> none
           | Some parsed0 \<Rightarrow>
               (let parsed =
                      (if pu_Scheme parsed0 = []
                       then (case ul_Parse L baseURL of Some base \<Rightarrow> ul_Resolve L base parsed0 | None \<Rightarrow> parsed0)
                       else parsed0)
                in \<lparr>pa_Filename = extractFilename (pu_Path parsed), pa_URL = ul_String L (parsed\<lparr>pu_Fragment := []\<rparr>),
                    pa_Hashes = (if pu_Fragment parsed \<noteq> [] then parseHashFragment (pu_Fragment parsed) else []),
                    pa_RequiresPython = requires\<rparr>))"

fun walkPage :: "url_lib \<Rightarrow> (string \<Rightarrow> string) \<Rightarrow> string \<Rightarrow> html_node \<Rightarrow> parsed_file list" where
  "walkPage L unescape baseURL (HtmlNode name as children) =
     (if name = Some ''a'' \<and> pa_Filename (parseAnchor L unescape baseURL as) \<noteq> []
      then [parseAnchor L unescape baseURL as] else [])
     @ concat (map (walkPage L unescape baseURL) children)"

definition ParseProjectPageHTML ::
  "url_lib \<Rightarrow> (string \<Rightarrow> string) \<Rightarrow> (bytes \<Rightarrow> html_node option) \<Rightarrow> bytes \<Rightarrow> string \<Rightarrow> parsed_file list option" where
  "ParseProjectPageHTML L unescape parse body baseURL = map_option (walkPage L unescape baseURL) (parse body)"

section \<open>The handler\<close>

text \<open>What the handler takes from libraries: decoding and encoding of JSON, the HTML parser and the
  escaping of the page template for links, attributes and text, and \<open>http.Redirect\<close>.\<close>

record pypi_lib =
  yl_url :: url_lib
  yl_page :: "bytes \<Rightarrow> parsed_file list option"
  yl_html :: "bytes \<Rightarrow> html_node option"
  yl_unescape :: "string \<Rightarrow> string"
  yl_rootJSON :: "string list \<Rightarrow> bytes"
  yl_pageJSON :: "string \<Rightarrow> project_file list \<Rightarrow> bytes"
  yl_escURL :: "string \<Rightarrow> string"
  yl_escAttr :: "string \<Rightarrow> string"
  yl_escText :: "string \<Rightarrow> string"
  yl_Redirect :: "http_request \<Rightarrow> string \<Rightarrow> nat \<Rightarrow> http_response"

record 'w pypi =
  yp_index :: "'w pypi_index"
  yp_store :: "'w store_ops"
  yp_upstream :: pypi_upstream
  yp_net :: pypi_net
  yp_downloader :: bool
  yp_metadataTTL :: int
  yp_publicBaseURL :: string
  yp_lib :: pypi_lib
  yp_blake3 :: "bytes \<Rightarrow> hash"
  yp_sha256 :: "bytes \<Rightarrow> bytes"

definition pypi_WithPublicBaseURL :: "string \<Rightarrow> 'w pypi \<Rightarrow> 'w pypi" where
  "pypi_WithPublicBaseURL url h = h\<lparr>yp_publicBaseURL := TrimSuffix url ''/''\<rparr>"

record pypi_run =
  yr_temp :: temp_file
  yr_opened :: bool
  yr_flight :: flight
  yr_ctx :: "dl_error option"
  yr_sent :: "nat option"
  yr_Fragment :: string

definition newline_str :: string where
  "newline_str = [CHR 0x0A]"

definition wantsJSON :: "http_request \<Rightarrow> bool" where
  "wantsJSON r = Contains (rq_Header r ''Accept'') ContentTypeJSON"

definition typed :: "string \<Rightarrow> bytes \<Rightarrow> http_response" where
  "typed contentType body = reply 200 [(''Content-Type'', contentType)] body"

definition writeRootHTML :: "string list \<Rightarrow> http_response" where
  "writeRootHTML projects =
     typed ''text/html''
       (''<!DOCTYPE html>'' @ newline_str @ ''<html>'' @ newline_str @ ''<head><title>Simple Index</title></head>''
        @ newline_str @ ''<body>'' @ newline_str
        @ concat (map (\<lambda>p. ''<a href='' @ [CHR 0x22] @ ''/simple/'' @ p @ ''/'' @ [CHR 0x22] @ ''>'' @ p @ ''</a><br/>'' @ newline_str) projects)
        @ ''</body>'' @ newline_str @ ''</html>'')"

definition writeRootJSON :: "pypi_lib \<Rightarrow> string list \<Rightarrow> http_response" where
  "writeRootJSON L projects = typed ContentTypeJSON (yl_rootJSON L projects)"

definition handleRoot :: "'w pypi \<Rightarrow> 'w \<Rightarrow> http_request \<Rightarrow> http_response" where
  "handleRoot h w r =
     (let projects = sort (ListProjects (yp_index h) w) in
      if wantsJSON r then writeRootJSON (yp_lib h) projects else writeRootHTML projects)"

definition pypi_baseURL :: "'w pypi \<Rightarrow> http_request \<Rightarrow> string" where
  "pypi_baseURL h r =
     (if yp_publicBaseURL h \<noteq> [] then yp_publicBaseURL h
      else (if rq_TLS r then ''https'' else ''http'') @ ''://'' @ rq_Host r)"

definition fileLine :: "pypi_lib \<Rightarrow> project_file \<Rightarrow> string" where
  "fileLine L f =
     ''<a href='' @ [CHR 0x22]
     @ yl_escURL L (pf_URL f)
     @ (case map_of (pf_Hashes f) ''sha256'' of Some d \<Rightarrow> ''#'' @ yl_escURL L (''sha256='' @ d) | None \<Rightarrow> [])
     @ [CHR 0x22]
     @ (if pf_RequiresPython f \<noteq> []
        then '' data-requires-python='' @ [CHR 0x22] @ yl_escAttr L (pf_RequiresPython f) @ [CHR 0x22] else [])
     @ ''>'' @ yl_escText L (pf_Filename f) @ ''</a><br/>'' @ newline_str"

definition writeProjectHTML :: "pypi_lib \<Rightarrow> string \<Rightarrow> project_file list \<Rightarrow> http_response" where
  "writeProjectHTML L project files =
     typed ''text/html''
       (''<!DOCTYPE html>'' @ newline_str @ ''<html>'' @ newline_str
        @ ''<head><title>Links for '' @ yl_escText L project @ ''</title></head>'' @ newline_str @ ''<body>'' @ newline_str
        @ ''<h1>Links for '' @ yl_escText L project @ ''</h1>'' @ newline_str
        @ concat (map (fileLine L) files) @ ''</body>'' @ newline_str @ ''</html>'')"

definition writeProjectJSON :: "pypi_lib \<Rightarrow> string \<Rightarrow> project_file list \<Rightarrow> http_response" where
  "writeProjectJSON L project files = typed ContentTypeJSON (yl_pageJSON L project files)"

text \<open>The files of a project are a map; they are sorted by name for the page.\<close>

definition projectFiles :: "'w pypi \<Rightarrow> http_request \<Rightarrow> cached_project \<Rightarrow> string \<Rightarrow> project_file list" where
  "projectFiles h r cached normalized =
     sort_key pf_Filename
       (map (\<lambda>(_, f). \<lparr>pf_Filename = cf_Filename f,
              pf_URL = pypi_baseURL h r @ ''/pypi/packages/'' @ normalized @ ''/'' @ cf_Filename f,
              pf_Hashes = cf_Hashes f, pf_RequiresPython = cf_RequiresPython f\<rparr>) (cj_Files cached))"

definition writeProjectResponse :: "'w pypi \<Rightarrow> http_request \<Rightarrow> cached_project \<Rightarrow> string \<Rightarrow> http_response" where
  "writeProjectResponse h r cached normalized =
     (if rq_Method r = ''HEAD'' then typed (if wantsJSON r then ContentTypeJSON else ''text/html'') []
      else if wantsJSON r then writeProjectJSON (yp_lib h) normalized (projectFiles h r cached normalized)
      else writeProjectHTML (yp_lib h) normalized (projectFiles h r cached normalized))"

definition parseProject :: "'w pypi \<Rightarrow> string \<Rightarrow> bytes \<Rightarrow> string \<Rightarrow> parsed_file list option" where
  "parseProject h normalized body contentType =
     (if Contains contentType ''json'' then yl_page (yp_lib h) body
      else ParseProjectPageHTML (yl_url (yp_lib h)) (yl_unescape (yp_lib h)) (yl_html (yp_lib h)) body
             (yu_baseURL (yp_upstream h) @ normalized @ ''/''))"

definition newProject :: "string \<Rightarrow> parsed_file list \<Rightarrow> cached_project" where
  "newProject normalized files =
     noProject\<lparr>cj_Name := normalized,
       cj_Files := fold (\<lambda>f. AList.update (pa_Filename f)
           \<lparr>cf_Filename = pa_Filename f, cf_ContentHash = zero_hash, cf_Size = 0, cf_Hashes = pa_Hashes f,
            cf_RequiresPython = pa_RequiresPython f, cf_UpstreamURL = pa_URL f, cf_CachedAt = zero_time\<rparr>) files []\<rparr>"

definition freshProject :: "'w pypi \<Rightarrow> 'w \<Rightarrow> string \<Rightarrow> cached_project option" where
  "freshProject h w normalized =
     (case GetCachedProject (yp_index h) w normalized of
        Inr cached \<Rightarrow> if pypi_IsExpired (yp_index h) cached (yp_metadataTTL h) then None else Some cached
      | Inl _ \<Rightarrow> None)"

definition handleProject :: "'w pypi \<Rightarrow> 'w \<Rightarrow> http_request \<Rightarrow> string \<Rightarrow> http_response \<times> 'w" where
  "handleProject h w r project =
     (let normalized = NormalizeProjectName (yi_unicode (yp_index h)) project in
      case freshProject h w normalized of
        Some cached \<Rightarrow> (writeProjectResponse h r cached normalized, w)
      | None \<Rightarrow>
          (case FetchProjectPage (yl_url (yp_lib h)) (yp_net h) (yp_upstream h) normalized of
             Inl e \<Rightarrow> (if e = UpstreamNotFound then http_Error ''not found'' 404 else http_Error ''upstream error'' 502, w)
           | Inr (body, contentType) \<Rightarrow>
               (case parseProject h normalized body contentType of
                  None \<Rightarrow> (http_Error ''upstream error'' 502, w)
                | Some files \<Rightarrow>
                    (writeProjectResponse h r (newProject normalized files) normalized,
                     snd (PutCachedProject (yp_index h) w (newProject normalized files))))))"

text \<open>What the index and the URL say of a file: its address upstream, the hashes and the Python that it
  requires, and the digest that is expected.\<close>

record file_source =
  fs_URL :: string
  fs_Hashes :: hashes
  fs_Requires :: string
  fs_Expected :: string

definition sourceOf :: "'w pypi \<Rightarrow> 'w \<Rightarrow> string \<Rightarrow> string \<Rightarrow> string \<Rightarrow> file_source" where
  "sourceOf h w fragment project filename =
     (let (url, hs, requires) =
            (case GetCachedFile (yp_index h) w project filename of
               Inr f \<Rightarrow> (cf_UpstreamURL f, cf_Hashes f, cf_RequiresPython f)
             | Inl _ \<Rightarrow> ([], [], []));
          inURL = (case map_of (parseHashFragment fragment) ''sha256'' of Some d \<Rightarrow> d | None \<Rightarrow> []);
          expected = (if inURL \<noteq> [] then inURL else case map_of hs ''sha256'' of Some d \<Rightarrow> d | None \<Rightarrow> [])
      in \<lparr>fs_URL = url, fs_Hashes = hs, fs_Requires = requires, fs_Expected = expected\<rparr>)"

definition sha256Mismatch :: "'w pypi \<Rightarrow> file_source \<Rightarrow> bytes \<Rightarrow> bool" where
  "sha256Mismatch h src data \<longleftrightarrow> fs_Expected src \<noteq> [] \<and> hex_encode (yp_sha256 h data) \<noteq> fs_Expected src"

definition recordFile :: "'w pypi \<Rightarrow> 'w \<Rightarrow> string \<Rightarrow> string \<Rightarrow> file_source \<Rightarrow> bytes \<Rightarrow> (mdb_error + unit) \<times> 'w" where
  "recordFile h w project filename src data =
     SetFileHash (yp_index h) w project filename (yp_blake3 h data) (int (length data))
       (AList.update ''sha256'' (hex_encode (yp_sha256 h data)) (fs_Hashes src)) (fs_URL src) (fs_Requires src)"

definition fetchAndStoreFile ::
  "'w pypi \<Rightarrow> temp_file \<Rightarrow> string \<Rightarrow> string \<Rightarrow> file_source \<Rightarrow> 'w \<Rightarrow> (dl_error + dl_result) \<times> 'w" where
  "fetchAndStoreFile h tf project filename src w =
     (case FetchFile (yl_url (yp_lib h)) (yp_net h) (yp_upstream h) (fs_URL src) of
        Inl e \<Rightarrow> (Inl e, w)
      | Inr resp \<Rightarrow>
          (case spool tf resp of
             Inl e \<Rightarrow> (Inl (spoolError e), w)
           | Inr data \<Rightarrow>
               if sha256Mismatch h src data then (Inl DownloadFailed, w)
               else if \<not> tf_seek tf then (Inl DownloadFailed, w)
               else (case st_Put (yp_store h) w (spooled tf data) of
                   (Inl _, w1) \<Rightarrow> (Inl DownloadFailed, w1)
                 | (Inr _, w1) \<Rightarrow>
                     (Inr \<lparr>dr_Hash = yp_blake3 h data, dr_Size = int (length data)\<rparr>,
                      snd (recordFile h w1 project filename src data)))))"

definition cacheFile :: "'w pypi \<Rightarrow> temp_file \<Rightarrow> bool \<Rightarrow> string \<Rightarrow> string \<Rightarrow> file_source \<Rightarrow> bytes \<Rightarrow> 'w \<Rightarrow> 'w" where
  "cacheFile h tf opened project filename src data w =
     (if \<not> opened then w
      else case st_Put (yp_store h) w (spooled tf data) of
          (Inl _, w1) \<Rightarrow> w1
        | (Inr _, w1) \<Rightarrow> snd (recordFile h w1 project filename src data))"

definition octets :: string where
  "octets = ''application/octet-stream''"

definition pypi_takeSent :: "nat option \<Rightarrow> bytes \<Rightarrow> bytes" where
  "pypi_takeSent n data = (case n of None \<Rightarrow> data | Some k \<Rightarrow> take k data)"

definition handleFileDirect ::
  "'w pypi \<Rightarrow> pypi_run \<Rightarrow> 'w \<Rightarrow> http_request \<Rightarrow> string \<Rightarrow> string \<Rightarrow> file_source \<Rightarrow> http_response \<times> 'w" where
  "handleFileDirect h run w r project filename src =
     (case FetchFile (yl_url (yp_lib h)) (yp_net h) (yp_upstream h) (fs_URL src) of
        Inl e \<Rightarrow> (if e = UpstreamNotFound then http_NotFound else http_Error ''upstream error'' 502, w)
      | Inr resp \<Rightarrow>
          (case spool (yr_temp run) resp of
             Inl SpoolCreate \<Rightarrow> (http_Error ''internal error'' 500, w)
           | Inl (SpoolCopy _) \<Rightarrow> (http_Error ''upstream error'' 502, w)
           | Inr data \<Rightarrow>
               if sha256Mismatch h src data then (http_Error ''integrity check failed'' 502, w)
               else if \<not> tf_seek (yr_temp run) then (http_Error ''internal error'' 500, w)
               else
                 (reply 200 [(''Content-Type'', octets), (''Content-Length'', FormatInt (int (length data)))]
                    (if rq_Method r \<noteq> ''HEAD'' then pypi_takeSent (yr_sent run) data else []),
                  cacheFile h (yr_temp run) (yr_opened run) project filename src data w)))"

text \<open>The key of the shared download is the file name alone.\<close>

definition fileKey :: "string \<Rightarrow> string" where
  "fileKey filename = ''pypi:file:'' @ filename"

definition handleFileWithDownloader ::
  "'w pypi \<Rightarrow> pypi_run \<Rightarrow> 'w \<Rightarrow> http_request \<Rightarrow> string \<Rightarrow> string \<Rightarrow> file_source \<Rightarrow> http_response \<times> 'w" where
  "handleFileWithDownloader h run w r project filename src =
     (case Do (fetchAndStoreFile h (yr_temp run) project filename src) (yr_flight run) (yr_ctx run) w of
        (res, _, w1) \<Rightarrow>
          (case HandleResult (\<lambda>e. e = UpstreamNotFound) (Some http_NotFound)
                  \<lparr>so_ContentType = octets, so_ExtraHeaders = []\<rparr> (yp_store h) r res w1 of
             (resp, _, w2) \<Rightarrow> (resp, w2)))"

definition handleFile :: "'w pypi \<Rightarrow> pypi_run \<Rightarrow> 'w \<Rightarrow> http_request \<Rightarrow> string \<Rightarrow> string \<Rightarrow> http_response \<times> 'w" where
  "handleFile h run w r project filename =
     (let src = sourceOf h w (yr_Fragment run) project filename;
          miss = (\<lambda>w.
            if fs_URL src = [] then (http_NotFound, w)
            else if yp_downloader h then handleFileWithDownloader h run w r project filename src
            else handleFileDirect h run w r project filename src)
      in case GetFileHash (yp_index h) w project filename of
           Inl _ \<Rightarrow> miss w
         | Inr x \<Rightarrow>
             if hash_IsZero x then miss w
             else (case st_Get (yp_store h) w x of
                 (Inr d, w1) \<Rightarrow>
                   (reply 200
                      ((''Content-Type'', octets)
                       # (case GetCachedFile (yp_index h) w project filename of
                            Inr f \<Rightarrow> if cf_Size f > 0 then [(''Content-Length'', FormatInt (cf_Size f))] else []
                          | Inl _ \<Rightarrow> []))
                      (if rq_Method r = ''HEAD'' then [] else d), w1)
               | (Inl _, w1) \<Rightarrow> miss w1))"

definition pypi_ServeHTTP :: "'w pypi \<Rightarrow> pypi_run \<Rightarrow> 'w \<Rightarrow> http_request \<Rightarrow> http_response \<times> 'w" where
  "pypi_ServeHTTP h run w r =
     (let path = rq_Path r in
      if rq_Method r \<noteq> ''GET'' \<and> rq_Method r \<noteq> ''HEAD'' then (http_Error ''method not allowed'' 405, w)
      else if path = ''/simple'' then (yl_Redirect (yp_lib h) r ''/simple/'' 301, w)
      else if path = ''/simple/'' then (handleRoot h w r, w)
      else case CutPrefix path ''/simple/'' of
          Some after \<Rightarrow>
            if \<not> HasSuffix path ''/'' then (yl_Redirect (yp_lib h) r (path @ ''/'') 301, w)
            else handleProject h w r (TrimSuffix after ''/'')
        | None \<Rightarrow>
            if HasPrefix path ''/packages/''
            then (case SplitN2 (TrimPrefix path ''/packages/'') (CHR ''/'') of
                [project, filename] \<Rightarrow> handleFile h run w r project filename
              | _ \<Rightarrow> (http_NotFound, w))
            else (http_NotFound, w))"

section \<open>Normal names\<close>

text \<open>Normalizing is idempotent on ASCII names: a normal name is in lower case and has single hyphens
  only between other characters.\<close>

fun singleHyphens :: "bool \<Rightarrow> string \<Rightarrow> bool" where
  "singleHyphens inRun [] = True"
| "singleHyphens inRun (c # s) =
     (if c = CHR ''-'' then \<not> inRun \<and> singleHyphens True s else \<not> is_separator c \<and> singleHyphens False s)"

lemma squeeze_single: "singleHyphens b (squeeze b s)"
  by (induction b s rule: squeeze.induct) (auto simp: is_separator_def)

lemma single_squeeze: "singleHyphens b s \<Longrightarrow> squeeze b s = s"
  by (induction b s rule: singleHyphens.induct) (auto simp: is_separator_def split: if_splits)

lemma single_mono: "singleHyphens True s \<Longrightarrow> singleHyphens False s"
  by (cases s) auto

lemma ascii_lower_hyphen: "is_separator (ascii_lower c) = is_separator c" "ascii_lower c = CHR ''-'' \<longleftrightarrow> c = CHR ''-''"
proof -
  have "ascii_lower c \<notin> {CHR ''-'', CHR ''_'', CHR ''.''} \<and> c \<notin> {CHR ''-'', CHR ''_'', CHR ''.''}"
    if up: "CHR ''A'' \<le> c" "c \<le> CHR ''Z''"
  proof -
    have "of_char (ascii_lower c) = (of_char c + 32 :: nat)" by (rule ascii_lower_upper_range [OF up])
    moreover have "65 \<le> (of_char c :: nat)" "(of_char c :: nat) \<le> 90" using up by (simp_all add: less_eq_char_def)
    ultimately show ?thesis by auto
  qed
  then have *: "ascii_lower c = c \<or> ascii_lower c \<notin> {CHR ''-'', CHR ''_'', CHR ''.''} \<and> c \<notin> {CHR ''-'', CHR ''_'', CHR ''.''}"
    by (cases "CHR ''A'' \<le> c \<and> c \<le> CHR ''Z''") (blast, simp only: ascii_lower_def if_False simp_thms)
  show "is_separator (ascii_lower c) = is_separator c" using * by (auto simp only: is_separator_def insert_iff empty_iff)
  show "ascii_lower c = CHR ''-'' \<longleftrightarrow> c = CHR ''-''" using * by (auto simp only: insert_iff empty_iff)
qed

lemma single_lower: "singleHyphens b (map ascii_lower s) = singleHyphens b s"
  by (induction b s rule: singleHyphens.induct) (auto simp: ascii_lower_hyphen)

lemma single_suffix: "singleHyphens b (x @ y) \<Longrightarrow> singleHyphens False y"
proof (induction x arbitrary: b)
  case Nil
  then show ?case using single_mono by (cases b) auto
qed (auto split: if_splits)

lemma single_prefix: "singleHyphens b (x @ y) \<Longrightarrow> singleHyphens b x"
  by (induction x arbitrary: b) (auto split: if_splits)

lemma TrimHyphens_parts: "\<exists>a b. s = a @ TrimHyphens s @ b"
proof -
  let ?P = "\<lambda>c. c = CHR ''-''"
  let ?d = "dropWhile ?P s"
  have "?d = TrimHyphens s @ rev (takeWhile ?P (rev ?d))"
    unfolding TrimHyphens_def by (metis rev_append rev_rev_ident takeWhile_dropWhile_id)
  moreover have "s = takeWhile ?P s @ ?d" by simp
  ultimately show ?thesis by (metis append.assoc)
qed

lemma TrimHyphens_id:
  assumes "x = [] \<or> hd x \<noteq> CHR ''-''" "x = [] \<or> last x \<noteq> CHR ''-''"
  shows "TrimHyphens x = x"
proof -
  have "dropWhile (\<lambda>c. c = CHR ''-'') x = x" using assms(1) by (cases x) auto
  moreover have "dropWhile (\<lambda>c. c = CHR ''-'') (rev x) = rev x" using assms(2) by (cases x rule: rev_cases) auto
  ultimately show ?thesis by (simp add: TrimHyphens_def)
qed

lemma TrimHyphens_ends:
  "TrimHyphens s = [] \<or> hd (TrimHyphens s) \<noteq> CHR ''-''" "TrimHyphens s = [] \<or> last (TrimHyphens s) \<noteq> CHR ''-''"
proof -
  let ?P = "\<lambda>c. c = CHR ''-''"
  define d where "d = dropWhile ?P s"
  define e where "e = dropWhile ?P (rev d)"
  have t: "TrimHyphens s = rev e" by (simp add: TrimHyphens_def d_def e_def)
  have d: "d = [] \<or> hd d \<noteq> CHR ''-''" using hd_dropWhile [of ?P s] by (auto simp: d_def)
  have e: "e = [] \<or> hd e \<noteq> CHR ''-''" using hd_dropWhile [of ?P "rev d"] by (auto simp: e_def)
  have "rev d = takeWhile ?P (rev d) @ e" by (simp add: e_def)
  then have split: "d = rev e @ rev (takeWhile ?P (rev d))" by (metis rev_append rev_rev_ident)
  show "TrimHyphens s = [] \<or> last (TrimHyphens s) \<noteq> CHR ''-''" using e by (cases e) (simp_all add: t)
  show "TrimHyphens s = [] \<or> hd (TrimHyphens s) \<noteq> CHR ''-''"
  proof (cases "rev e")
    case (Cons c x)
    then have "d = c # x @ rev (takeWhile ?P (rev d))" using split by (metis append_Cons)
    then have "d \<noteq> []" "hd d = c" by (metis list.distinct(1), metis list.sel(1))
    then show ?thesis using d Cons by (simp add: t)
  qed (simp add: t)
qed

lemma TrimHyphens_again: "TrimHyphens (TrimHyphens s) = TrimHyphens s"
  by (rule TrimHyphens_id [OF TrimHyphens_ends])

lemma squeeze_ascii: "is_ascii s \<Longrightarrow> is_ascii (squeeze b s)"
  by (induction b s rule: squeeze.induct) (auto simp: is_ascii_def)

lemma Normalize_again:
  assumes "is_ascii name"
  shows "NormalizeProjectName U (NormalizeProjectName U name) = NormalizeProjectName U name"
proof (cases "name = [] \<or> NormalizeProjectName U name = []")
  case True
  then show ?thesis by (auto simp: NormalizeProjectName_def)
next
  case False
  let ?low = "map ascii_lower (squeeze False name)"
  have n: "NormalizeProjectName U name = TrimHyphens ?low"
    using False assms squeeze_ascii by (simp add: NormalizeProjectName_def ToLower_def)
  obtain a b where parts: "?low = a @ TrimHyphens ?low @ b" using TrimHyphens_parts by blast
  have "singleHyphens False ?low" by (simp add: single_lower squeeze_single)
  then have single: "singleHyphens False (TrimHyphens ?low)" using parts single_suffix single_prefix by metis
  have asc: "is_ascii ?low" by (rule is_ascii_map_lower [OF squeeze_ascii [OF assms]])
  then have asc': "is_ascii (TrimHyphens ?low)" using parts by (metis is_ascii_simps(3))
  have "map ascii_lower ?low = ?low" by simp
  then have "\<forall>c \<in> set ?low. ascii_lower c = c" by (metis map_eq_conv map_ident)
  then have "map ascii_lower (TrimHyphens ?low) = TrimHyphens ?low"
    using parts by (metis Un_iff map_idI set_append)
  then show ?thesis
    using False n single_squeeze [OF single] asc' TrimHyphens_again by (simp add: NormalizeProjectName_def ToLower_def)
qed

section \<open>Credentials\<close>

text \<open>No request that carries credentials goes to another origin: what such an exchange would answer
  does not matter.\<close>

definition mayCarry :: "url_lib \<Rightarrow> pypi_upstream \<Rightarrow> purl \<Rightarrow> (string \<times> string) list \<Rightarrow> bool" where
  "mayCarry L u url hs \<longleftrightarrow> sameOrigin L u url \<or> ''Authorization'' \<notin> fst ` set hs"

lemma follow_same:
  assumes "\<And>url hs. mayCarry L u url hs \<Longrightarrow> net url hs = net' url hs"
  shows "mayCarry L u url hs \<Longrightarrow> follow L u net n url hs = follow L u net' n url hs"
proof (induction n arbitrary: url hs)
  case (Suc n)
  have "net url hs = net' url hs" by (rule assms [OF Suc.prems])
  moreover have "follow L u net n next (if sameOrigin L u next then hs' else filter (\<lambda>x. fst x \<noteq> ''Authorization'') hs')
      = follow L u net' n next (if sameOrigin L u next then hs' else filter (\<lambda>x. fst x \<noteq> ''Authorization'') hs')" for "next" hs'
    by (rule Suc.IH) (auto simp: mayCarry_def)
  ultimately show ?case by (simp split: sum.split hop.split)
qed simp

lemma pypi_fetch_same:
  assumes "\<And>url hs. mayCarry L u url hs \<Longrightarrow> yn_exchange net url hs = yn_exchange net' url hs" "yn_budget net = yn_budget net'"
    "''Authorization'' \<notin> fst ` set hs"
  shows "pypi_fetch L net u url hs = pypi_fetch L net' u url hs"
proof (cases "ul_Parse L url")
  case (Some parsed)
  have "mayCarry L u parsed (hs @ pypi_setAuth L u parsed)"
    using assms(3) by (auto simp: mayCarry_def pypi_setAuth_def)
  from follow_same [OF assms(1) this] show ?thesis using Some assms(2) by (simp add: pypi_fetch_def)
qed (simp add: pypi_fetch_def)

end
