(* ===== verification/PypiProperties.thy ===== *)
theory PypiProperties
  imports GitProperties Pypi
begin

text \<open>
  The properties of the PyPI proxy as the server runs it: the files that the index names under every
  spelling of a project, what a refreshed page forgets, and where credentials go.
\<close>

definition pypi_server :: "(string \<Rightarrow> string) \<Rightarrow> (envelope \<Rightarrow> bool) \<Rightarrow> (db, fs, unit, 'n) cafs pypi_index \<Rightarrow> bool" where
  "pypi_server U mar x \<longleftrightarrow> yi_es x = onMetaDB (boltStore U mar) \<and> json_ok (yi_json x) \<and> index_ok (yi_project x)"

section \<open>The index\<close>

lemma GetFileHash_of:
  "EI_GetJSON (j_dec (yi_json x)) (yi_es x) (yi_project x) w (NormalizeProjectName (yi_unicode x) name) = Inr p \<Longrightarrow>
     GetFileHash x w name filename =
       (case map_of (cj_Files p) filename of None \<Rightarrow> Inl NotCached | Some f \<Rightarrow> Inr (cf_ContentHash f))"
  by (simp add: GetFileHash_def GetCachedFile_def GetCachedProject_def split: option.split)

lemma withFile_files:
  "map_of (cj_Files (withFile now project filename h sz hs up req p)) fn =
     (if fn = filename then Some \<lparr>cf_Filename = filename, cf_ContentHash = h, cf_Size = sz, cf_Hashes = hs,
        cf_RequiresPython = req, cf_UpstreamURL = up, cf_CachedAt = now\<rparr> else map_of (cj_Files p) fn)"
  by (simp add: withFile_def Let_def AList.update_conv)

text \<open>C18: a file that is recorded for a project is found under every spelling of its name that
  normalizes alike, the normal name itself among them; the other files of the project keep their
  contents. Where the stored project cannot be decoded, those files are found that \<open>json.Unmarshal\<close>
  had filled in before it failed.\<close>

theorem pypi_file_recorded:
  fixes w :: "(db, fs, unit, 'n) cafs"
  assumes x: "pypi_server U mar x" and ok: "world_ok blake3 w"
    and run: "SetFileHash x w project filename h sz hs up req = (Inr (), w')"
    and spelling: "NormalizeProjectName (yi_unicode x) other = NormalizeProjectName (yi_unicode x) project
      \<or> is_ascii project \<and> other = NormalizeProjectName (yi_unicode x) project"
  shows "GetFileHash x w' other fn =
    (if fn = filename then Inr h
     else case GetFileHash x w project fn of
         Inr y \<Rightarrow> Inr y
       | Inl _ \<Rightarrow>
           (case EI_Get (yi_es x) (yi_project x) w (NormalizeProjectName (yi_unicode x) project) of
              Inl _ \<Rightarrow> Inl NotCached
            | Inr data \<Rightarrow>
                if j_dec (yi_json x) data \<noteq> None then Inl NotCached
                else (case map_of (cj_Files (yi_partial x data)) fn of
                        None \<Rightarrow> Inl NotCached
                      | Some f \<Rightarrow> Inr (cf_ContentHash f))))"
proof -
  let ?key = "NormalizeProjectName (yi_unicode x) project"
  let ?get = "\<lambda>w key. EI_GetJSON (j_dec (yi_json x)) (yi_es x) (yi_project x) w key"
  let ?p0 = "pypi_projectBefore x w project"
  have same: "NormalizeProjectName (yi_unicode x) other = ?key"
    using spelling Normalize_again by auto
  have es: "yi_es x = onMetaDB (boltStore U mar)" and js: "json_ok (yi_json x)" "index_ok (yi_project x)"
    using x by (simp_all add: pypi_server_def)
  have "?get w' ?key = Inr (withFile (yi_now x) project filename h sz hs up req ?p0)"
    using server.index_json_put_get [OF js(2,1) ok run [unfolded SetFileHash_def Let_def es]] by (simp add: es)
  then have "?get w' (NormalizeProjectName (yi_unicode x) other)
      = Inr (withFile (yi_now x) project filename h sz hs up req ?p0)" by (simp only: same)
  from GetFileHash_of [OF this, of fn]
  have new: "GetFileHash x w' other fn =
      (if fn = filename then Inr h else case map_of (cj_Files ?p0) fn of None \<Rightarrow> Inl NotCached | Some f \<Rightarrow> Inr (cf_ContentHash f))"
    unfolding withFile_files by simp
  show ?thesis
  proof (cases "?get w ?key")
    case (Inl e)
    then have "GetFileHash x w project fn = Inl (indexError e)"
      by (simp add: GetFileHash_def GetCachedFile_def GetCachedProject_def)
    then show ?thesis
      using new Inl
      by (auto simp: pypi_projectBefore_def EI_GetJSON_into_def EI_GetJSON_def noProject_def split: sum.splits option.splits)
  next
    case (Inr p)
    then have "?p0 = p" by (simp add: pypi_projectBefore_def EI_GetJSON_into_Inr)
    moreover obtain data where "EI_Get (yi_es x) (yi_project x) w ?key = Inr data" "j_dec (yi_json x) data = Some p"
      using Inr by (cases "EI_Get (yi_es x) (yi_project x) w ?key") (auto simp: EI_GetJSON_def split: option.splits)
    ultimately show ?thesis unfolding new GetFileHash_of [OF Inr] by (simp split: option.split)
  qed
qed

section \<open>Refreshing a project\<close>

lemma newProject_files:
  assumes "f \<in> snd ` set (cj_Files (newProject n files))"
  shows "cf_ContentHash f = zero_hash"
proof -
  have "\<forall>f \<in> snd ` set (fold (\<lambda>f. AList.update (pa_Filename f)
       \<lparr>cf_Filename = pa_Filename f, cf_ContentHash = zero_hash, cf_Size = 0, cf_Hashes = pa_Hashes f,
        cf_RequiresPython = pa_RequiresPython f, cf_UpstreamURL = pa_URL f, cf_CachedAt = zero_time\<rparr>) files xs).
       cf_ContentHash f = zero_hash" if "\<forall>f \<in> snd ` set xs. cf_ContentHash f = zero_hash" for xs
    using that
  proof (induction files arbitrary: xs)
    case (Cons a files)
    have "snd ` set (AList.update k v xs) \<subseteq> insert v (snd ` set xs)" for k and v :: cached_file
      by (induction xs) auto
    then have "\<forall>f \<in> snd ` set (AList.update k \<lparr>cf_Filename = n', cf_ContentHash = zero_hash, cf_Size = 0, cf_Hashes = x,
        cf_RequiresPython = y, cf_UpstreamURL = z, cf_CachedAt = zero_time\<rparr> xs). cf_ContentHash f = zero_hash" for k n' x y z
      using Cons.prems by fastforce
    then show ?case unfolding fold_Cons o_apply by (rule Cons.IH)
  qed simp
  from this [of "[]"] show ?thesis using assms by (auto simp: newProject_def)
qed

lemma newProject_named:
  "map_of (cj_Files (newProject n files)) fn = None \<longleftrightarrow> fn \<notin> pa_Filename ` set files"
proof -
  have "fst ` set (fold (\<lambda>f. AList.update (pa_Filename f) (mk f)) files xs) = fst ` set xs \<union> pa_Filename ` set files"
    for mk :: "parsed_file \<Rightarrow> cached_file" and xs
    by (induction files arbitrary: xs) (auto simp: AList.dom_update)
  then show ?thesis by (simp add: newProject_def map_of_eq_None_iff)
qed

text \<open>C16: when the page of a project is fetched again and its entry is written, the index knows no
  content of any of its files, whatever was stored before: the entry refers to no blob, and the next
  request for any of the files is one that asks upstream.\<close>

theorem pypi_refresh_forgets:
  fixes w :: "(db, fs, unit, 'n) cafs"
  assumes x: "pypi_server U mar (yp_index h)" and ok: "world_ok blake3 w" and name: "is_ascii project"
    and normal: "n = NormalizeProjectName (yi_unicode (yp_index h)) project"
    and stale: "freshProject h w n = None"
      "FetchProjectPage (yl_url (yp_lib h)) (yp_net h) (yp_upstream h) n = Inr (body, contentType)"
      "parseProject h n body contentType = Some files"
    and run: "handleProject h w r project = (resp, w')"
    and put: "fst (PutCachedProject (yp_index h) w (newProject n files)) = Inr ()"
  shows "pypi_collectBlobRefs (newProject n files) = []
    \<and> GetFileHash (yp_index h) w' project fn = (if fn \<in> pa_Filename ` set files then Inr zero_hash else Inl NotCached)
    \<and> (let src = sourceOf h w' (yr_Fragment run') project fn in
       handleFile h run' w' r' project fn =
         (if fs_URL src = [] then (http_NotFound, w')
          else if yp_downloader h then handleFileWithDownloader h run' w' r' project fn src
          else handleFileDirect h run' w' r' project fn src))"
proof -
  let ?x = "yp_index h" and ?p = "newProject n files"
  have refs: "pypi_collectBlobRefs ?p = []"
    using newProject_files [of _ n files] by (force simp: pypi_collectBlobRefs_def filter_empty_conv hash_IsZero_def)
  obtain w1 where w1: "PutCachedProject ?x w ?p = (Inr (), w1)" using put by (metis prod.collapse)
  have w': "w' = w1" using run stale w1 by (simp add: handleProject_def Let_def normal)
  have n: "NormalizeProjectName (yi_unicode ?x) n = n" unfolding normal by (rule Normalize_again [OF name])
  have es: "yi_es ?x = onMetaDB (boltStore U mar)" and js: "json_ok (yi_json ?x)" "index_ok (yi_project ?x)"
    using x by (simp_all add: pypi_server_def)
  have pn: "cj_Name ?p = n" by (simp add: newProject_def)
  have "\<exists>q. cj_Files q = cj_Files ?p \<and> cj_Name q = n
      \<and> EI_PutJSON (j_enc (yi_json ?x)) (yi_es ?x) (yi_project ?x) (yi_now ?x) w n q (pypi_collectBlobRefs q) = (Inr (), w1)"
  proof (cases "IsZero (cj_CachedAt ?p)")
    case True
    then show ?thesis using w1
      by (intro exI [of _ "?p\<lparr>cj_UpdatedAt := yi_now ?x, cj_CachedAt := yi_now ?x\<rparr>"]) (simp add: PutCachedProject_def Let_def pn n)
  next
    case False
    then show ?thesis using w1
      by (intro exI [of _ "?p\<lparr>cj_UpdatedAt := yi_now ?x\<rparr>"]) (simp add: PutCachedProject_def Let_def pn n)
  qed
  then obtain q where q: "cj_Files q = cj_Files ?p" "cj_Name q = n"
      "EI_PutJSON (j_enc (yi_json ?x)) (yi_es ?x) (yi_project ?x) (yi_now ?x) w n q (pypi_collectBlobRefs q) = (Inr (), w1)"
    by blast
  have "EI_GetJSON (j_dec (yi_json ?x)) (yi_es ?x) (yi_project ?x) w1 n = Inr q"
    using server.index_json_put_get [OF js(2,1) ok q(3) [unfolded es]] by (simp add: es)
  from GetFileHash_of [OF this [unfolded normal], of fn]
  have get: "GetFileHash ?x w' project fn = (if fn \<in> pa_Filename ` set files then Inr zero_hash else Inl NotCached)"
    using newProject_named [of n files fn] newProject_files [of _ n files] unfolding w' q(1)
    by (force split: option.split dest: map_of_SomeD)
  then have "handleFile h run' w' r' project fn =
      (if fs_URL (sourceOf h w' (yr_Fragment run') project fn) = [] then (http_NotFound, w')
       else if yp_downloader h then handleFileWithDownloader h run' w' r' project fn (sourceOf h w' (yr_Fragment run') project fn)
       else handleFileDirect h run' w' r' project fn (sourceOf h w' (yr_Fragment run') project fn))"
    by (simp add: handleFile_def Let_def hash_IsZero_def)
  then show ?thesis using refs get by (simp only: Let_def simp_thms)
qed

section \<open>Credentials\<close>

lemma FetchProjectPage_same:
  assumes "\<forall>url hs. mayCarry L u url hs \<longrightarrow> yn_exchange net url hs = yn_exchange net' url hs" "yn_budget net = yn_budget net'"
  shows "FetchProjectPage L net u project = FetchProjectPage L net' u project"
  unfolding FetchProjectPage_def using pypi_fetch_same [of L u net net'] assms by (simp only:) simp

lemma FetchFile_same:
  assumes "\<forall>url hs. mayCarry L u url hs \<longrightarrow> yn_exchange net url hs = yn_exchange net' url hs" "yn_budget net = yn_budget net'"
  shows "FetchFile L net u url = FetchFile L net' u url"
  unfolding FetchFile_def using pypi_fetch_same [of L u net net'] assms by simp

text \<open>C17: the answers and effects of the proxy do not depend on what a host other than the configured
  one would answer to a request with credentials: no request sends it any, the first one of a download
  as little as one that follows a redirect.\<close>

theorem pypi_credentials_stay:
  assumes "\<forall>url hs. mayCarry (yl_url (yp_lib h)) (yp_upstream h) url hs \<longrightarrow> yn_exchange (yp_net h) url hs = yn_exchange net url hs"
    and "yn_budget (yp_net h) = yn_budget net"
  shows "pypi_ServeHTTP (h\<lparr>yp_net := net\<rparr>) run w r = pypi_ServeHTTP h run w r"
proof -
  let ?L = "yl_url (yp_lib h)" and ?u = "yp_upstream h"
  note page = FetchProjectPage_same [OF assms, symmetric] and download = FetchFile_same [OF assms, symmetric]
  have fields: "yp_index (h\<lparr>yp_net := net\<rparr>) = yp_index h" "yp_store (h\<lparr>yp_net := net\<rparr>) = yp_store h"
      "yp_upstream (h\<lparr>yp_net := net\<rparr>) = yp_upstream h" "yp_net (h\<lparr>yp_net := net\<rparr>) = net"
      "yp_downloader (h\<lparr>yp_net := net\<rparr>) = yp_downloader h" "yp_lib (h\<lparr>yp_net := net\<rparr>) = yp_lib h"
      "yp_blake3 (h\<lparr>yp_net := net\<rparr>) = yp_blake3 h"
    by simp_all
  have parts: "sha256Mismatch (h\<lparr>yp_net := net\<rparr>) = sha256Mismatch h" "recordFile (h\<lparr>yp_net := net\<rparr>) = recordFile h"
    by (intro ext, simp add: sha256Mismatch_def recordFile_def)+
  then have cache: "cacheFile (h\<lparr>yp_net := net\<rparr>) = cacheFile h" by (intro ext) (simp only: cacheFile_def fields)
  have fetch: "fetchAndStoreFile (h\<lparr>yp_net := net\<rparr>) tf project fn src = fetchAndStoreFile h tf project fn src" for tf project fn src
    unfolding fetchAndStoreFile_def parts fields download ..
  have direct: "handleFileDirect (h\<lparr>yp_net := net\<rparr>) run w r project fn src = handleFileDirect h run w r project fn src"
    for w project fn src
    unfolding handleFileDirect_def parts cache fields download ..
  have shared: "handleFileWithDownloader (h\<lparr>yp_net := net\<rparr>) run w r project fn src = handleFileWithDownloader h run w r project fn src"
    for w project fn src
    unfolding handleFileWithDownloader_def fetch by simp
  have source: "sourceOf (h\<lparr>yp_net := net\<rparr>) w fragment project fn = sourceOf h w fragment project fn" for w fragment project fn
    by (simp add: sourceOf_def)
  have "handleFile (h\<lparr>yp_net := net\<rparr>) run w r project fn = handleFile h run w r project fn" for project fn
    unfolding handleFile_def Let_def direct shared source fields ..
  moreover have "handleProject (h\<lparr>yp_net := net\<rparr>) w r project = handleProject h w r project" for project
  proof -
    have "freshProject (h\<lparr>yp_net := net\<rparr>) w n = freshProject h w n" "parseProject (h\<lparr>yp_net := net\<rparr>) n = parseProject h n"
      "writeProjectResponse (h\<lparr>yp_net := net\<rparr>) r p n = writeProjectResponse h r p n" for n p
      by (simp_all add: freshProject_def parseProject_def fun_eq_iff writeProjectResponse_def projectFiles_def pypi_baseURL_def
        split: sum.split)
    then show ?thesis unfolding handleProject_def Let_def fields page by (simp only:)
  qed
  ultimately show ?thesis
    unfolding pypi_ServeHTTP_def Let_def handleRoot_def by (simp only: fields)
qed

section \<open>Examples\<close>

text \<open>An index whose codec knows one project.\<close>

definition pypiIndex0 :: "cached_project \<Rightarrow> (db, fs, unit, unit) cafs pypi_index" where
  "pypiIndex0 p = \<lparr>yi_es = onMetaDB (boltStore id (\<lambda>_. True)), yi_project = kindIdx ''project'',
     yi_json = \<lparr>j_enc = (\<lambda>q. if q = p then Some ''p'' else None), j_dec = (\<lambda>b. if b = ''p'' then Some p else None)\<rparr>,
     yi_partial = (\<lambda>_. noProject), yi_now = 0, yi_unicode = id\<rparr>"

lemma pypiIndex0_server: "pypi_server id (\<lambda>_. True) (pypiIndex0 p)"
  by (auto simp: pypi_server_def pypiIndex0_def json_ok_def index_ok_kind sep_def split: if_splits)

lemma pypiIndex0_simps [simp]:
  "yi_now (pypiIndex0 p) = 0" "yi_unicode (pypiIndex0 p) = id"
  by (simp_all add: pypiIndex0_def)

lemma pypiIndex0_put:
  assumes "set refs \<subseteq> {ref0, ref1}" "length key < 900"
  shows "\<exists>w. EI_PutJSON (j_enc (yi_json (pypiIndex0 p))) (yi_es (pypiIndex0 p)) (yi_project (pypiIndex0 p)) 0 store1 key p refs = (Inr (), w)"
proof -
  have "blobs_good (d_blobs (cs_metaDB store1))" using db_reach_good [OF reach_init] by (simp add: store1_def store0_def)
  moreover have "j_enc (yi_json (pypiIndex0 p)) p = Some ''p''" by (simp add: pypiIndex0_def)
  ultimately show ?thesis
    using sample_index [of store1 refs "yi_json (pypiIndex0 p)" p "''p''" "''project''" key] assms
    by (auto simp: pypiIndex0_def CompressionThreshold_def)
qed

lemma pypiIndex0_empty:
  "EI_GetJSON (j_dec (yi_json (pypiIndex0 p))) (yi_es (pypiIndex0 p)) (yi_project (pypiIndex0 p)) store1 key = Inl ErrNotFound"
  by (simp add: EI_GetJSON_def pypiIndex0_def store1_miss)

lemma pypiIndex0_before: "pypi_projectBefore (pypiIndex0 p) store1 project = noProject"
  by (simp add: pypi_projectBefore_def EI_GetJSON_into_def pypiIndex0_def store1_miss)

lemma Foo_normal: "NormalizeProjectName id ''Foo'' = ''foo''" "NormalizeProjectName id ''fOO'' = ''foo''"
  by code_simp+

definition wheel0 :: cached_project where
  "wheel0 = withFile 0 ''Foo'' ''f.whl'' hash1 5 [] ''u'' [] noProject"

theorem pypi_file_recorded_witness:
  "GetFileHash (pypiIndex0 wheel0) (snd (SetFileHash (pypiIndex0 wheel0) store1 ''Foo'' ''f.whl'' hash1 5 [] ''u'' [])) ''fOO'' ''f.whl''
     = Inr hash1"
proof -
  have "pypi_collectBlobRefs wheel0 = [ref1]"
    by (simp add: pypi_collectBlobRefs_def wheel0_def withFile_def noProject_def hash_IsZero_def hash0_def [symmetric] ref1_def)
  then obtain w where "SetFileHash (pypiIndex0 wheel0) store1 ''Foo'' ''f.whl'' hash1 5 [] ''u'' [] = (Inr (), w)"
    using pypiIndex0_put [of "[ref1]" "''foo''" wheel0]
    by (auto simp: SetFileHash_def Let_def Foo_normal pypiIndex0_before wheel0_def [symmetric])
  then show ?thesis
    using pypi_file_recorded [OF pypiIndex0_server store1_ok(1), of wheel0 "''Foo''" "''f.whl''" hash1 5 "[]" "''u''" "[]" _ "''fOO''" "''f.whl''"]
    by (simp add: Foo_normal)
qed

definition url0 :: "string \<Rightarrow> purl" where
  "url0 host = \<lparr>pu_Scheme = ''https'', pu_User = None, pu_Hostname = host, pu_Port = [], pu_Path = ''/'', pu_Fragment = [], pu_Rest = []\<rparr>"

definition urls0 :: url_lib where
  "urls0 = \<lparr>ul_Parse = (\<lambda>_. Some (url0 ''pypi.org'')), ul_String = (\<lambda>_. ''u''), ul_Resolve = (\<lambda>_ u. u),
     ul_JoinHostPort = (\<lambda>h p. h @ '':'' @ p), ul_unicode = id, ul_fold = (=)\<rparr>"

text \<open>The project page is on another host, to which the registry redirects.\<close>

definition mirror0 :: "hop \<Rightarrow> pypi_net" where
  "mirror0 leak = \<lparr>yn_exchange = (\<lambda>url hs.
       if pu_Hostname url \<noteq> ''mirror'' then Inr (HopRedirect (url0 ''mirror'') hs)
       else if ''Authorization'' \<in> fst ` set hs then Inr leak
       else Inr (HopReply \<lparr>rp_Status = 200, rp_Header = (\<lambda>_. ''json''), rp_ContentLength = -1,
          rp_Body = \<lparr>chunks = [''page''], src_fails = False\<rparr>, rp_ReadError = DownloadFailed\<rparr>)),
     yn_budget = 5\<rparr>"

definition pypiFiles0 :: "parsed_file list" where
  "pypiFiles0 = [\<lparr>pa_Filename = ''f.whl'', pa_URL = ''u'', pa_Hashes = [], pa_RequiresPython = []\<rparr>]"

definition pypi0 :: "cached_project \<Rightarrow> hop \<Rightarrow> (db, fs, unit, unit) cafs pypi" where
  "pypi0 p leak = \<lparr>yp_index = pypiIndex0 p, yp_store = cafsOps serverStore0 temp0 0,
     yp_upstream = (pypi_NewUpstream [])\<lparr>yu_username := ''me'', yu_password := ''secret''\<rparr>, yp_net = mirror0 leak, yp_downloader = True,
     yp_metadataTTL = 1, yp_publicBaseURL = [],
     yp_lib = \<lparr>yl_url = urls0, yl_page = (\<lambda>_. Some pypiFiles0), yl_html = (\<lambda>_. None), yl_unescape = id,
       yl_rootJSON = (\<lambda>_. []), yl_pageJSON = (\<lambda>n _. n), yl_escURL = id, yl_escAttr = id, yl_escText = id,
       yl_Redirect = (\<lambda>_ _ s. reply s [] [])\<rparr>,
     yp_blake3 = blake3_0, yp_sha256 = (\<lambda>_. [])\<rparr>"

lemma pypi0_simps [simp]:
  "yp_index (pypi0 p leak) = pypiIndex0 p" "yp_net (pypi0 p leak) = mirror0 leak" "yl_url (yp_lib (pypi0 p leak)) = urls0"
  "(pypi0 p leak)\<lparr>yp_net := mirror0 leak'\<rparr> = pypi0 p leak'" "yn_budget (mirror0 leak) = 5"
  by (simp_all add: pypi0_def mirror0_def)

lemma mirror0_foreign:
  assumes "pu_Hostname url = ''mirror''"
  shows "\<not> sameOrigin urls0 (yp_upstream (pypi0 p leak)) url"
proof -
  have "ToLower id ''mirror'' = ''mirror''" "map ascii_lower ''pypi.org:443'' = ''pypi.org:443''" "is_ascii ''pypi.org:443''" by code_simp+
  moreover have "\<not> EqualFold (ul_fold urls0) (''mirror'' @ x) ''pypi.org:443''" for x
  proof -
    have "ascii_lower (CHR ''m'') = CHR ''m''" "ascii_lower (CHR ''p'') = CHR ''p''" by code_simp+
    then have "map ascii_lower (''mirror'' @ x) \<noteq> map ascii_lower ''pypi.org:443''" by simp
    moreover have "ul_fold urls0 (''mirror'' @ x) ''pypi.org:443'' = False" by (simp add: urls0_def)
    ultimately show ?thesis by (simp only: EqualFold_def) simp
  qed
  moreover have "yu_host (yp_upstream (pypi0 p leak)) = ''pypi.org:443''" by (simp add: pypi0_def pypi_NewUpstream_def)
  moreover have "\<exists>x. canonicalAuthority urls0 url = ''mirror'' @ x"
    using assms calculation(1) by (simp add: canonicalAuthority_def urls0_def Let_def)
  ultimately show ?thesis unfolding sameOrigin_def by (elim exE) (simp only: simp_thms list.distinct)
qed

lemma foo_again: "NormalizeProjectName id ''foo'' = ''foo''" "is_ascii ''Foo''"
  by code_simp+

definition refreshed0 :: cached_project where
  "refreshed0 = (newProject ''foo'' pypiFiles0)\<lparr>cj_UpdatedAt := 0, cj_CachedAt := 0\<rparr>"

lemma pypi0_refresh:
  "\<exists>w. PutCachedProject (pypiIndex0 refreshed0) store1 (newProject ''foo'' pypiFiles0) = (Inr (), w)"
proof -
  have "cj_CachedAt (newProject ''foo'' pypiFiles0) = zero_time" "cj_Name (newProject ''foo'' pypiFiles0) = ''foo''"
    "cj_Name refreshed0 = ''foo''"
    by (simp_all add: refreshed0_def newProject_def noProject_def)
  moreover have "pypi_collectBlobRefs refreshed0 = []"
    by (simp add: pypi_collectBlobRefs_def refreshed0_def newProject_def pypiFiles0_def hash_IsZero_def)
  ultimately show ?thesis
    using pypiIndex0_put [of "[]" "''foo''" refreshed0]
    by (simp add: PutCachedProject_def Let_def foo_again IsZero_def refreshed0_def [symmetric])
qed

lemma pypi0_fetch:
  "FetchProjectPage urls0 (mirror0 leak) (yp_upstream (pypi0 p leak)) ''foo'' = Inr (''page'', ''json'')"
proof -
  note foreign = mirror0_foreign [of "url0 ''mirror''" p leak]
  have m: "sameOrigin urls0 (yp_upstream (pypi0 p leak)) (url0 ''mirror'') = False" using foreign by (simp add: url0_def)
  let ?ex = "yn_exchange (mirror0 leak)"
  have first: "?ex (url0 ''pypi.org'') hs = Inr (HopRedirect (url0 ''mirror'') hs)" for hs by (simp add: mirror0_def url0_def)
  have second: "?ex (url0 ''mirror'') (filter (\<lambda>x. fst x \<noteq> ''Authorization'') hs) = Inr (HopReply \<lparr>rp_Status = 200, rp_Header = (\<lambda>_. ''json''),
      rp_ContentLength = -1, rp_Body = \<lparr>chunks = [''page''], src_fails = False\<rparr>, rp_ReadError = DownloadFailed\<rparr>)" for hs
    by (auto simp: mirror0_def url0_def)
  have "ul_Parse urls0 s = Some (url0 ''pypi.org'')" for s by (simp add: urls0_def)
  moreover have "follow L u ex 5 url hs = (case ex url hs of Inl e \<Rightarrow> Inl e | Inr (HopReply resp) \<Rightarrow> Inr resp
      | Inr (HopRedirect next hs') \<Rightarrow>
          follow L u ex 4 next (if sameOrigin L u next then hs' else filter (\<lambda>x. fst x \<noteq> ''Authorization'') hs'))" for L u ex url hs
    using follow.simps(2) [of L u ex 4 url hs] by simp
  moreover have "follow L u ex 4 url hs = (case ex url hs of Inl e \<Rightarrow> Inl e | Inr (HopReply resp) \<Rightarrow> Inr resp
      | Inr (HopRedirect next hs') \<Rightarrow>
          follow L u ex 3 next (if sameOrigin L u next then hs' else filter (\<lambda>x. fst x \<noteq> ''Authorization'') hs'))" for L u ex url hs
    using follow.simps(2) [of L u ex 3 url hs] by simp
  ultimately show ?thesis by (simp only: FetchProjectPage_def pypi_fetch_def first m second ReadAll_def option.case pypi0_simps
      sum.case hop.case if_False) simp
qed

theorem pypi_refresh_forgets_witness:
  "GetFileHash (pypiIndex0 refreshed0)
     (snd (handleProject (pypi0 refreshed0 (HopRedirect (url0 ''a'') [])) store1 (request ''GET'' ''/simple/Foo/'' src1) ''Foo''))
     ''Foo'' ''f.whl'' = Inr zero_hash"
proof -
  let ?h = "pypi0 refreshed0 (HopRedirect (url0 ''a'') [])" and ?r = "request ''GET'' ''/simple/Foo/'' src1"
  obtain w where "PutCachedProject (pypiIndex0 refreshed0) store1 (newProject ''foo'' pypiFiles0) = (Inr (), w)"
    using pypi0_refresh by blast
  then have put: "fst (PutCachedProject (yp_index ?h) store1 (newProject ''foo'' pypiFiles0)) = Inr ()" by simp
  have n: "''foo'' = NormalizeProjectName (yi_unicode (yp_index ?h)) ''Foo''" by (simp add: Foo_normal)
  have stale: "freshProject ?h store1 ''foo'' = None"
    by (simp add: freshProject_def GetCachedProject_def pypiIndex0_empty foo_again)
  have page: "FetchProjectPage (yl_url (yp_lib ?h)) (yp_net ?h) (yp_upstream ?h) ''foo'' = Inr (''page'', ''json'')"
    by (simp add: pypi0_fetch)
  have parse: "parseProject ?h ''foo'' ''page'' ''json'' = Some pypiFiles0"
  proof -
    have "Contains ''json'' ''json''" by code_simp
    then show ?thesis by (simp add: parseProject_def pypi0_def)
  qed
  obtain resp w' where run: "handleProject ?h store1 ?r ''Foo'' = (resp, w')" by fastforce
  have "pypi_server id (\<lambda>_. True) (yp_index ?h)" by (simp add: pypiIndex0_server)
  from pypi_refresh_forgets [OF this store1_ok(1) foo_again(2) n stale page parse run put, of "''f.whl''"]
  show ?thesis using run by (simp add: pypiFiles0_def)
qed

definition pypi_run0 :: pypi_run where
  "pypi_run0 = \<lparr>yr_temp = temp0, yr_opened = True, yr_flight = Executes, yr_ctx = None, yr_sent = None, yr_Fragment = []\<rparr>"

theorem pypi_credentials_stay_witness:
  "pypi_ServeHTTP (pypi0 wheel0 (HopRedirect (url0 ''b'') [])) pypi_run0 store1 (request ''GET'' ''/simple/foo/'' src1)
     = pypi_ServeHTTP (pypi0 wheel0 (HopRedirect (url0 ''a'') [])) pypi_run0 store1 (request ''GET'' ''/simple/foo/'' src1)"
proof -
  let ?a = "HopRedirect (url0 ''a'') []" and ?b = "HopRedirect (url0 ''b'') []"
  have "yn_exchange (mirror0 ?a) url hs = yn_exchange (mirror0 ?b) url hs"
    if "mayCarry urls0 (yp_upstream (pypi0 wheel0 ?a)) url hs" for url hs
    using that mirror0_foreign [of url wheel0 ?a] by (auto simp: mayCarry_def mirror0_def)
  then show ?thesis
    using pypi_credentials_stay [of "pypi0 wheel0 ?a" "mirror0 ?b" pypi_run0 store1 "request ''GET'' ''/simple/foo/'' src1"] by simp
qed

end
