(* ===== verification/Fetch.thy ===== *)
theory Fetch
  imports Download Urls
begin

text \<open>
  Direct downloads over HTTPS (\<open>protocol/fetch\<close>): the allowlist of hosts, requests whose redirects
  stay on it, and the handler of the generic and of the GitHub release route (\<open>handler.go\<close>) over
  the index of resources (\<open>index.go\<close>).
\<close>

section \<open>URLs\<close>

text \<open>A URL as the code builds it and as a redirect names it. What the code takes from libraries:
  \<open>url.Parse\<close> of \<open>https://\<close> and a host, as its host name and port, joining them again, printing a URL
  and reading it back when the request is made, the host name of a URL, and HTTP dates.\<close>

record fetch_url =
  fu_Scheme :: string
  fu_Host :: string
  fu_Path :: string
  fu_RawQuery :: string

record fetch_lib =
  fl_ParseHost :: "string \<Rightarrow> (string \<times> string) option"
  fl_JoinHostPort :: "string \<Rightarrow> string \<Rightarrow> string"
  fl_String :: "fetch_url \<Rightarrow> string"
  fl_Parse :: "string \<Rightarrow> fetch_url option"
  fl_Hostname :: "fetch_url \<Rightarrow> string"
  fl_ParseTime :: "string \<Rightarrow> time option"
  fl_unicode :: "string \<Rightarrow> string"
  fl_space :: "string \<Rightarrow> string"

section \<open>The allowlist\<close>

definition normalizeHost :: "fetch_lib \<Rightarrow> string \<Rightarrow> string \<times> string \<times> string" where
  "normalizeHost L host =
     (if host = [] then ([], [], [])
      else case fl_ParseHost L host of
          Some (name, port) \<Rightarrow>
            (let hostname = ToLower (fl_unicode L) name in
             if hostname = [] then ([], [], [])
             else if port \<noteq> [] then (hostname, ToLower (fl_unicode L) (fl_JoinHostPort L hostname port), port)
             else (hostname, hostname, []))
        | None \<Rightarrow> (let hostname = ToLower (fl_unicode L) host in (hostname, hostname, [])))"

record host_set =
  hs_hosts :: "string set"
  hs_authorities :: "string set"

definition noHosts :: host_set where
  "noHosts = \<lparr>hs_hosts = {}, hs_authorities = {}\<rparr>"

definition hostSet_Add :: "fetch_lib \<Rightarrow> string \<Rightarrow> host_set \<Rightarrow> host_set" where
  "hostSet_Add L host s =
     (case normalizeHost L host of
        (hostname, authority, port) \<Rightarrow>
          if hostname = [] then s
          else if port = [] \<or> port = ''443'' then s\<lparr>hs_hosts := insert hostname (hs_hosts s)\<rparr>
          else s\<lparr>hs_authorities := insert authority (hs_authorities s)\<rparr>)"

definition newHostSet :: "fetch_lib \<Rightarrow> string list \<Rightarrow> host_set" where
  "newHostSet L hosts = fold (hostSet_Add L) hosts noHosts"

definition hostSet_Contains :: "fetch_lib \<Rightarrow> host_set \<Rightarrow> string \<Rightarrow> bool" where
  "hostSet_Contains L s host =
     (case normalizeHost L host of
        (hostname, authority, port) \<Rightarrow>
          if hostname = [] then False
          else if port = [] \<or> port = ''443'' then hostname \<in> hs_hosts s
          else authority \<in> hs_authorities s)"

definition hostSet_Merge :: "host_set \<Rightarrow> host_set \<Rightarrow> host_set" where
  "hostSet_Merge s other =
     \<lparr>hs_hosts = hs_hosts s \<union> hs_hosts other, hs_authorities = hs_authorities s \<union> hs_authorities other\<rparr>"

definition canonicalHTTPSAuthority :: "fetch_lib \<Rightarrow> string \<Rightarrow> string" where
  "canonicalHTTPSAuthority L host =
     (case normalizeHost L host of
        (hostname, authority, port) \<Rightarrow>
          if hostname = [] then host else if port = [] \<or> port = ''443'' then hostname else authority)"

section \<open>Resources\<close>

record cached_resource =
  cr_UpstreamURL :: string
  cr_BlobHash :: string
  cr_Size :: int
  cr_ContentType :: string
  cr_ContentEncoding :: string
  cr_ContentDisposition :: string
  cr_ETag :: string
  cr_LastModified :: string
  cr_CachedAt :: time

record 'w fetch_index =
  fi_es :: "'w envelope_store"
  fi_resources :: env_index
  fi_json :: "cached_resource json_codec"
  fi_now :: time

definition fetch_Get :: "'w fetch_index \<Rightarrow> 'w \<Rightarrow> string \<Rightarrow> index_error + cached_resource" where
  "fetch_Get x w url =
     (case EI_GetJSON (j_dec (fi_json x)) (fi_es x) (fi_resources x) w url of
        Inl e \<Rightarrow> Inl (indexError e)
      | Inr entry \<Rightarrow> Inr entry)"

definition fetch_Put :: "'w fetch_index \<Rightarrow> 'w \<Rightarrow> string \<Rightarrow> cached_resource \<Rightarrow> put_options \<Rightarrow> (mdb_error + unit) \<times> 'w" where
  "fetch_Put x w url entry opts =
     EI_PutJSONWithOptions (j_enc (fi_json x)) (fi_es x) (fi_resources x) (fi_now x) w url entry [cr_BlobHash entry] opts"

definition fetch_Delete :: "'w fetch_index \<Rightarrow> 'w \<Rightarrow> string \<Rightarrow> (mdb_error + unit) \<times> 'w" where
  "fetch_Delete x w url = EI_Delete (fi_es x) (fi_resources x) w url"

section \<open>Requests\<close>

text \<open>One exchange with a host gives a reply, or a redirect to another URL with the header fields that
  the client forwards.\<close>

datatype fetch_hop = FetchReply http_reply | FetchRedirect fetch_url "(string \<times> string) list"

type_synonym fetch_net = "string \<Rightarrow> fetch_url \<Rightarrow> (string \<times> string) list \<Rightarrow> dl_error + fetch_hop"

record 'w fetch =
  fe_index :: "'w fetch_index"
  fe_store :: "'w store_ops"
  fe_net :: fetch_net
  fe_baseRedirect :: "fetch_url \<Rightarrow> dl_error option"
  fe_allowedHosts :: host_set
  fe_githubReleaseHost :: string
  fe_githubReleaseRedirectHosts :: host_set
  fe_lib :: fetch_lib

definition defaultGitHubReleaseRedirectHosts :: "string list" where
  "defaultGitHubReleaseRedirectHosts =
     [''objects.githubusercontent.com'', ''release-assets.githubusercontent.com'', ''github-releases.githubusercontent.com'']"

definition fetch_NewHandler ::
  "fetch_lib \<Rightarrow> fetch_net \<Rightarrow> 'w fetch_index \<Rightarrow> 'w store_ops \<Rightarrow> ('w fetch \<Rightarrow> 'w fetch) list \<Rightarrow> 'w fetch" where
  "fetch_NewHandler L net x st opts =
     fold (\<lambda>opt h. opt h) opts
       \<lparr>fe_index = x, fe_store = st, fe_net = net, fe_baseRedirect = (\<lambda>_. None), fe_allowedHosts = newHostSet L [],
        fe_githubReleaseHost = ''github.com'',
        fe_githubReleaseRedirectHosts = newHostSet L defaultGitHubReleaseRedirectHosts, fe_lib = L\<rparr>"

definition WithAllowedHosts :: "string list \<Rightarrow> 'w fetch \<Rightarrow> 'w fetch" where
  "WithAllowedHosts hosts h = h\<lparr>fe_allowedHosts := newHostSet (fe_lib h) hosts\<rparr>"

definition WithGitHubReleaseHost :: "string \<Rightarrow> 'w fetch \<Rightarrow> 'w fetch" where
  "WithGitHubReleaseHost host h = h\<lparr>fe_githubReleaseHost := host\<rparr>"

definition WithGitHubReleaseRedirectHosts :: "string list \<Rightarrow> 'w fetch \<Rightarrow> 'w fetch" where
  "WithGitHubReleaseRedirectHosts hosts h = h\<lparr>fe_githubReleaseRedirectHosts := newHostSet (fe_lib h) hosts\<rparr>"

text \<open>What a run meets: the raw query of the request, the temporary file, the download that the group
  lets the caller run or join, the end of its context, and after how many bytes the client is gone.\<close>

record fetch_run =
  fr_RawQuery :: string
  fr_temp :: temp_file
  fr_flight :: flight
  fr_ctx :: "dl_error option"
  fr_sent :: "nat option"

text \<open>The policy for redirects: \<open>via\<close> requests were made.\<close>

definition redirectPolicy :: "'w fetch \<Rightarrow> host_set \<Rightarrow> fetch_url \<Rightarrow> nat \<Rightarrow> dl_error option" where
  "redirectPolicy h allowed url via =
     (if via \<ge> 10 then Some DownloadFailed
      else if fu_Scheme url \<noteq> ''https'' then Some HostNotAllowed
      else if \<not> hostSet_Contains (fe_lib h) allowed (fu_Host url) then Some HostNotAllowed
      else fe_baseRedirect h url)"

text \<open>\<open>client.Do\<close>: the reply and the URL of the request that got it. \<open>n\<close> requests are left of the ten
  that the policy allows.\<close>

fun fetch_follow ::
  "'w fetch \<Rightarrow> host_set \<Rightarrow> nat \<Rightarrow> string \<Rightarrow> fetch_url \<Rightarrow> (string \<times> string) list \<Rightarrow> dl_error + http_reply \<times> fetch_url" where
  "fetch_follow h allowed 0 m url hs = Inl DownloadFailed"
| "fetch_follow h allowed (Suc n) m url hs =
     (case fe_net h m url hs of
        Inl e \<Rightarrow> Inl e
      | Inr (FetchReply resp) \<Rightarrow> Inr (resp, url)
      | Inr (FetchRedirect next hs') \<Rightarrow>
          (case redirectPolicy h allowed next (10 - n) of
             Some e \<Rightarrow> Inl e
           | None \<Rightarrow> fetch_follow h allowed n m next hs'))"

definition conditionalHeaders :: "http_request option \<Rightarrow> (string \<times> string) list" where
  "conditionalHeaders src =
     (case src of
        None \<Rightarrow> []
      | Some r \<Rightarrow>
          (if rq_Header r ''If-None-Match'' \<noteq> [] then [(''If-None-Match'', rq_Header r ''If-None-Match'')] else [])
          @ (if rq_Header r ''If-Modified-Since'' \<noteq> [] then [(''If-Modified-Since'', rq_Header r ''If-Modified-Since'')] else []))"

definition fetch_doRequest ::
  "'w fetch \<Rightarrow> host_set \<Rightarrow> string \<Rightarrow> string \<Rightarrow> http_request option \<Rightarrow> dl_error + http_reply \<times> fetch_url" where
  "fetch_doRequest h allowed m upstreamURL src =
     (case fl_Parse (fe_lib h) upstreamURL of
        None \<Rightarrow> Inl DownloadFailed
      | Some url \<Rightarrow>
          rbind (fetch_follow h allowed 10 m url ((''Accept-Encoding'', ''identity'') # conditionalHeaders src))
            (\<lambda>(resp, final).
               if rp_Status resp = 304 then Inr (resp, final)
               else if rp_Status resp = 404 then Inl UpstreamNotFound
               else if rp_Status resp < 200 \<or> rp_Status resp \<ge> 300 then Inl DownloadFailed
               else Inr (resp, final)))"

section \<open>Storing\<close>

definition contentTypeOrDefault :: "string \<Rightarrow> string" where
  "contentTypeOrDefault ct = (if ct = [] then ''application/octet-stream'' else ct)"

definition resourceOf :: "'w fetch \<Rightarrow> string \<Rightarrow> http_reply \<Rightarrow> hash \<Rightarrow> int \<Rightarrow> cached_resource" where
  "resourceOf h upstreamURL resp x sz =
     \<lparr>cr_UpstreamURL = upstreamURL, cr_BlobHash = BlobRef_String (NewBlobRef x), cr_Size = sz,
      cr_ContentType = contentTypeOrDefault (rp_Header resp ''Content-Type''),
      cr_ContentEncoding = rp_Header resp ''Content-Encoding'', cr_ContentDisposition = rp_Header resp ''Content-Disposition'',
      cr_ETag = rp_Header resp ''ETag'', cr_LastModified = rp_Header resp ''Last-Modified'', cr_CachedAt = fi_now (fe_index h)\<rparr>"

definition resourceOptions :: "'w fetch \<Rightarrow> cached_resource \<Rightarrow> fetch_url \<Rightarrow> put_options" where
  "resourceOptions h entry final =
     noOptions\<lparr>po_Etag := cr_ETag entry, po_Upstream := fl_Hostname (fe_lib h) final,
       po_LastModified :=
         (if cr_LastModified entry \<noteq> []
          then (case fl_ParseTime (fe_lib h) (cr_LastModified entry) of Some t \<Rightarrow> t | None \<Rightarrow> zero_time)
          else zero_time)\<rparr>"

definition cacheResponse ::
  "'w fetch \<Rightarrow> temp_file \<Rightarrow> string \<Rightarrow> http_reply \<times> fetch_url \<Rightarrow> 'w \<Rightarrow> (dl_error + dl_result) \<times> 'w" where
  "cacheResponse h tf upstreamURL got w =
     (case spool tf (fst got) of
        Inl e \<Rightarrow> (Inl (spoolError e), w)
      | Inr data \<Rightarrow>
          if \<not> tf_seek tf then (Inl DownloadFailed, w)
          else (case st_Put (fe_store h) w (spooled tf data) of
              (Inl _, w1) \<Rightarrow> (Inl DownloadFailed, w1)
            | (Inr x, w1) \<Rightarrow>
                (let sz = int (length data);
                     entry = resourceOf h upstreamURL (fst got) x sz
                 in case fetch_Put (fe_index h) w1 upstreamURL entry (resourceOptions h entry (snd got)) of
                     (Inl _, w2) \<Rightarrow> (Inl DownloadFailed, w2)
                   | (Inr _, w2) \<Rightarrow> (Inr \<lparr>dr_Hash = x, dr_Size = sz\<rparr>, w2))))"

definition downloadAndCache ::
  "'w fetch \<Rightarrow> temp_file \<Rightarrow> string \<Rightarrow> host_set \<Rightarrow> 'w \<Rightarrow> (dl_error + dl_result) \<times> 'w" where
  "downloadAndCache h tf upstreamURL allowed w =
     (case fetch_doRequest h allowed ''GET'' upstreamURL None of
        Inl e \<Rightarrow> (Inl e, w)
      | Inr got \<Rightarrow> cacheResponse h tf upstreamURL got w)"

text \<open>The error, and whether the key is forgotten.\<close>

definition ensureCached ::
  "'w fetch \<Rightarrow> fetch_run \<Rightarrow> string \<Rightarrow> host_set \<Rightarrow> 'w \<Rightarrow> (dl_error option \<times> bool) \<times> 'w" where
  "ensureCached h run upstreamURL allowed w =
     (case Do (downloadAndCache h (fr_temp run) upstreamURL allowed) (fr_flight run) (fr_ctx run) w of
        (Inl e, _, w1) \<Rightarrow> ((Some e, forgetOnDownloadError e), w1)
      | (Inr _, _, w1) \<Rightarrow> ((None, False), w1))"

section \<open>Serving\<close>

definition weakETag :: "fetch_lib \<Rightarrow> string \<Rightarrow> string" where
  "weakETag L etag = TrimPrefix (TrimPrefix (TrimSpace (fl_space L) etag) ''W/'') ''w/''"

definition matchesIfNoneMatch :: "fetch_lib \<Rightarrow> string \<Rightarrow> string \<Rightarrow> bool" where
  "matchesIfNoneMatch L header etag =
     list_ex (\<lambda>c. let candidate = TrimSpace (fl_space L) c in
        candidate = ''*'' \<or> (etag \<noteq> [] \<and> weakETag L candidate = weakETag L etag)) (SplitOn header (CHR '',''))"

definition isNotModified :: "fetch_lib \<Rightarrow> http_request \<Rightarrow> cached_resource \<Rightarrow> bool" where
  "isNotModified L r entry =
     (if rq_Header r ''If-None-Match'' \<noteq> [] then matchesIfNoneMatch L (rq_Header r ''If-None-Match'') (cr_ETag entry)
      else if rq_Header r ''If-Modified-Since'' \<noteq> [] \<and> cr_LastModified entry \<noteq> []
      then (case fl_ParseTime L (rq_Header r ''If-Modified-Since'') of
              None \<Rightarrow> False
            | Some since \<Rightarrow> (case fl_ParseTime L (cr_LastModified entry) of None \<Rightarrow> False | Some t \<Rightarrow> t \<le> since))
      else False)"

definition isConditionalRequest :: "http_request \<Rightarrow> bool" where
  "isConditionalRequest r \<longleftrightarrow> rq_Header r ''If-None-Match'' \<noteq> [] \<or> rq_Header r ''If-Modified-Since'' \<noteq> []"

text \<open>Fields that are set when they are not empty, over those that are there.\<close>

definition http_field :: "string \<Rightarrow> string \<Rightarrow> (string \<times> string) list \<Rightarrow> (string \<times> string) list" where
  "http_field k v hs = (if v \<noteq> [] then hset hs k v else hs)"

definition writeNotModified :: "(string \<times> string) list \<Rightarrow> string \<Rightarrow> string \<Rightarrow> http_response" where
  "writeNotModified hs etag lastModified = reply 304 (http_field ''Last-Modified'' lastModified (http_field ''ETag'' etag hs)) []"

definition writeRangeNotSupported :: http_response where
  "writeRangeNotSupported = http_Error_over [(''Accept-Ranges'', ''none'')] ''range requests are not supported'' 501"

definition cachedHeaders :: "cached_resource \<Rightarrow> (string \<times> string) list" where
  "cachedHeaders e =
     (let hs = http_field ''Last-Modified'' (cr_LastModified e) (http_field ''ETag'' (cr_ETag e)
                 (http_field ''Content-Disposition'' (cr_ContentDisposition e) (http_field ''Content-Encoding'' (cr_ContentEncoding e)
                   (http_field ''Content-Type'' (cr_ContentType e) []))))
      in if cr_Size e > 0 then hset hs ''Content-Length'' (FormatInt (cr_Size e)) else hs)"

definition copyHeaders :: "(string \<Rightarrow> string) \<Rightarrow> int \<Rightarrow> (string \<times> string) list" where
  "copyHeaders src sz =
     (let hs = http_field ''Last-Modified'' (src ''Last-Modified'') (http_field ''ETag'' (src ''ETag'')
                 (http_field ''Content-Disposition'' (src ''Content-Disposition'') (http_field ''Content-Encoding'' (src ''Content-Encoding'')
                   [(''Content-Type'', contentTypeOrDefault (src ''Content-Type''))])))
      in if sz > 0 then hset hs ''Content-Length'' (FormatInt sz) else http_field ''Content-Length'' (src ''Content-Length'') hs)"

definition writeFetchError :: "dl_error \<Rightarrow> http_response" where
  "writeFetchError e =
     (if e = UpstreamNotFound then http_NotFound
      else if e = HostNotAllowed then http_Error ''host not allowed'' 403
      else if e = Canceled \<or> e = DeadlineExceeded then http_Error ''request timeout'' 504
      else http_Error ''upstream error'' 502)"

text \<open>Serving an entry: it was served, it was not because its reference or its blob is bad, or the
  client was gone, when the error response comes too late to change what was sent.\<close>

datatype served = Served http_response | NotServed | ServeFailed http_response

definition serveCached :: "'w fetch \<Rightarrow> fetch_run \<Rightarrow> 'w \<Rightarrow> http_request \<Rightarrow> cached_resource \<Rightarrow> served \<times> 'w" where
  "serveCached h run w r entry =
     (if isNotModified (fe_lib h) r entry then (Served (writeNotModified [] (cr_ETag entry) (cr_LastModified entry)), w)
      else case ParseBlobRef (fl_unicode (fe_lib h)) (cr_BlobHash entry) of
          Inl _ \<Rightarrow> (NotServed, snd (fetch_Delete (fe_index h) w (cr_UpstreamURL entry)))
        | Inr ref \<Rightarrow>
            (case st_Get (fe_store h) w (br_hash ref) of
               (Inl _, w1) \<Rightarrow> (NotServed, snd (fetch_Delete (fe_index h) w1 (cr_UpstreamURL entry)))
             | (Inr d, w1) \<Rightarrow>
                 if rq_Method r = ''HEAD'' then (Served (reply 200 (cachedHeaders entry) []), w1)
                 else (case fr_sent run of
                     None \<Rightarrow> (Served (reply 200 (cachedHeaders entry) d), w1)
                   | Some k \<Rightarrow> (ServeFailed (reply 200 (cachedHeaders entry) (take k d)), w1))))"

text \<open>After a download the outcome is not looked at: where nothing was served, the response is empty.\<close>

definition serveFresh :: "'w fetch \<Rightarrow> fetch_run \<Rightarrow> 'w \<Rightarrow> http_request \<Rightarrow> string \<Rightarrow> http_response \<times> 'w" where
  "serveFresh h run w r cacheKey =
     (case fetch_Get (fe_index h) w cacheKey of
        Inl _ \<Rightarrow> (http_Error ''internal error'' 500, w)
      | Inr entry \<Rightarrow>
          (case serveCached h run w r entry of
             (Served resp, w1) \<Rightarrow> (resp, w1)
           | (NotServed, w1) \<Rightarrow> (reply 200 [] [], w1)
           | (ServeFailed resp, w1) \<Rightarrow> (resp, w1)))"

definition proxyConditionalMiss ::
  "'w fetch \<Rightarrow> fetch_run \<Rightarrow> 'w \<Rightarrow> http_request \<Rightarrow> string \<Rightarrow> host_set \<Rightarrow> http_response \<times> 'w" where
  "proxyConditionalMiss h run w r cacheKey allowed =
     (case fetch_doRequest h allowed (rq_Method r) cacheKey (Some r) of
        Inl e \<Rightarrow> (writeFetchError e, w)
      | Inr (resp, final) \<Rightarrow>
          if rp_Status resp = 304 then (writeNotModified [] (rp_Header resp ''ETag'') (rp_Header resp ''Last-Modified''), w)
          else if rq_Method r = ''HEAD'' then (reply 200 (copyHeaders (rp_Header resp) 0) [], w)
          else (case cacheResponse h (fr_temp run) cacheKey (resp, final) w of
              (Inl _, w1) \<Rightarrow> (http_Error ''internal error'' 500, w1)
            | (Inr _, w1) \<Rightarrow> serveFresh h run w1 r cacheKey))"

definition handleHeadMiss :: "'w fetch \<Rightarrow> 'w \<Rightarrow> http_request \<Rightarrow> string \<Rightarrow> host_set \<Rightarrow> http_response \<times> 'w" where
  "handleHeadMiss h w r cacheKey allowed =
     (case fetch_doRequest h allowed ''HEAD'' cacheKey (Some r) of
        Inl e \<Rightarrow> (writeFetchError e, w)
      | Inr (resp, _) \<Rightarrow>
          (if rp_Status resp = 304
           then writeNotModified (copyHeaders (rp_Header resp) 0) (rp_Header resp ''ETag'') (rp_Header resp ''Last-Modified'')
           else reply 200 (copyHeaders (rp_Header resp) 0) [], w))"

definition fetchMissing :: "'w fetch \<Rightarrow> fetch_run \<Rightarrow> 'w \<Rightarrow> http_request \<Rightarrow> string \<Rightarrow> host_set \<Rightarrow> http_response \<times> 'w" where
  "fetchMissing h run w r cacheKey allowed =
     (if isConditionalRequest r then proxyConditionalMiss h run w r cacheKey allowed
      else if rq_Method r = ''HEAD'' then handleHeadMiss h w r cacheKey allowed
      else (case ensureCached h run cacheKey allowed w of
          ((Some e, _), w1) \<Rightarrow> (writeFetchError e, w1)
        | ((None, _), w1) \<Rightarrow> serveFresh h run w1 r cacheKey))"

definition serveUpstream :: "'w fetch \<Rightarrow> fetch_run \<Rightarrow> 'w \<Rightarrow> http_request \<Rightarrow> fetch_url \<Rightarrow> host_set \<Rightarrow> http_response \<times> 'w" where
  "serveUpstream h run w r upstream allowed =
     (let cacheKey = fl_String (fe_lib h) upstream in
      if rq_Header r ''Range'' \<noteq> [] then (writeRangeNotSupported, w)
      else case fetch_Get (fe_index h) w cacheKey of
          Inl _ \<Rightarrow> fetchMissing h run w r cacheKey allowed
        | Inr entry \<Rightarrow>
            (case serveCached h run w r entry of
               (Served resp, w1) \<Rightarrow> (resp, w1)
             | (ServeFailed resp, w1) \<Rightarrow> (resp, w1)
             | (NotServed, w1) \<Rightarrow> fetchMissing h run w1 r cacheKey allowed))"

section \<open>Routes\<close>

definition parseFetchPath :: "string \<Rightarrow> (string \<times> string) option" where
  "parseFetchPath requestPath =
     (case Cut (TrimPrefix requestPath ''/'') (CHR ''/'') of
        None \<Rightarrow> None
      | Some (host, rest) \<Rightarrow> if host = [] \<or> rest = [] then None else Some (host, ''/'' @ rest))"

definition parseGitHubReleasePath :: "string \<Rightarrow> string option" where
  "parseGitHubReleasePath requestPath =
     (let trimmed = TrimPrefix requestPath ''/'';
          parts = SplitOn trimmed (CHR ''/'')
      in if length parts < 6 \<or> parts ! 2 \<noteq> ''releases'' \<or> parts ! 3 \<noteq> ''download'' then None else Some (''/'' @ trimmed))"

definition httpsURL :: "fetch_lib \<Rightarrow> string \<Rightarrow> string \<Rightarrow> string \<Rightarrow> fetch_url" where
  "httpsURL L host path query =
     \<lparr>fu_Scheme = ''https'', fu_Host = canonicalHTTPSAuthority L host, fu_Path = path, fu_RawQuery = query\<rparr>"

definition fetch_ServeHTTP :: "'w fetch \<Rightarrow> fetch_run \<Rightarrow> 'w \<Rightarrow> http_request \<Rightarrow> http_response \<times> 'w" where
  "fetch_ServeHTTP h run w r =
     (if rq_Method r \<noteq> ''GET'' \<and> rq_Method r \<noteq> ''HEAD'' then (http_Error ''method not allowed'' 405, w)
      else case parseFetchPath (rq_Path r) of
          None \<Rightarrow> (http_Error ''invalid fetch path'' 400, w)
        | Some (host, path) \<Rightarrow>
            if \<not> hostSet_Contains (fe_lib h) (fe_allowedHosts h) host then (http_Error ''host not allowed'' 403, w)
            else serveUpstream h run w r (httpsURL (fe_lib h) host path (fr_RawQuery run)) (fe_allowedHosts h))"

definition releaseHosts :: "'w fetch \<Rightarrow> host_set" where
  "releaseHosts h = hostSet_Merge (hostSet_Add (fe_lib h) (fe_githubReleaseHost h) noHosts) (fe_githubReleaseRedirectHosts h)"

definition ServeGitHubRelease :: "'w fetch \<Rightarrow> fetch_run \<Rightarrow> 'w \<Rightarrow> http_request \<Rightarrow> http_response \<times> 'w" where
  "ServeGitHubRelease h run w r =
     (if rq_Method r \<noteq> ''GET'' \<and> rq_Method r \<noteq> ''HEAD'' then (http_Error ''method not allowed'' 405, w)
      else case parseGitHubReleasePath (rq_Path r) of
          None \<Rightarrow> (http_Error ''invalid github release path'' 400, w)
        | Some path \<Rightarrow>
            serveUpstream h run w r (httpsURL (fe_lib h) (fe_githubReleaseHost h) path (fr_RawQuery run)) (releaseHosts h))"

section \<open>What a request stores\<close>

context cache_world
begin

definition fetch_on :: "'w fetch \<Rightarrow> bool" where
  "fetch_on h \<longleftrightarrow> fi_es (fe_index h) = es \<and> fe_store h = st \<and> json_ok (fi_json (fe_index h)) \<and> index_ok (fi_resources (fe_index h))"

definition same_resources :: "'w fetch \<Rightarrow> 'w \<Rightarrow> 'w \<Rightarrow> bool" where
  "same_resources h w w' \<longleftrightarrow> inv w' \<and> (healthy w \<longrightarrow> healthy w') \<and> (\<forall>k. fetch_Get (fe_index h) w' k = fetch_Get (fe_index h) w k)"

text \<open>The entry of \<open>key\<close> was set to what a reply says, or lost, or left alone.\<close>

definition stored_resource :: "'w fetch \<Rightarrow> string \<Rightarrow> http_reply \<Rightarrow> 'w \<Rightarrow> 'w \<Rightarrow> bool" where
  "stored_resource h key resp w w' \<longleftrightarrow>
     (let data = concat (chunks (rp_Body resp)) in
      inv w' \<and> (healthy w \<longrightarrow> healthy w') \<and> is_hash (blake3 data) \<and> \<not> src_fails (rp_Body resp)
      \<and> (\<exists>d. content w' (blake3 data) = Some d \<and> blake3 d = blake3 data \<and> (content w (blake3 data) = None \<longrightarrow> d = data))
      \<and> fetch_Get (fe_index h) w' key \<in> {fetch_Get (fe_index h) w key, Inl NotCached, Inr (resourceOf h key resp (blake3 data) (int (length data)))}
      \<and> (\<forall>k. k \<noteq> key \<longrightarrow> fetch_Get (fe_index h) w' k = fetch_Get (fe_index h) w k))"

lemma fetch_Get_cong:
  assumes "fetch_on h" "\<forall>p kd k. es_Get es w' p kd k = es_Get es w p kd k"
  shows "fetch_Get (fe_index h) w' k = fetch_Get (fe_index h) w k"
proof -
  have "EI_GetJSON (j_dec (fi_json (fe_index h))) es (fi_resources (fe_index h)) w' k
      = EI_GetJSON (j_dec (fi_json (fe_index h))) es (fi_resources (fe_index h)) w k"
    by (rule EI_GetJSON_cong) (use assms(2) in blast)
  then show ?thesis using assms(1) by (simp add: fetch_Get_def fetch_on_def)
qed

lemma fetch_Put_spec:
  assumes h: "fetch_on h" and inv: "inv w" and put: "fetch_Put (fe_index h) w key e opts = (r, w')"
  shows "inv w' \<and> content w' = content w \<and> (healthy w' \<longleftrightarrow> healthy w)
    \<and> (case r of Inl _ \<Rightarrow> w' = w
       | Inr _ \<Rightarrow> fetch_Get (fe_index h) w' key = Inr e \<and> (\<forall>k. k \<noteq> key \<longrightarrow> fetch_Get (fe_index h) w' k = fetch_Get (fe_index h) w k))"
proof (cases "j_enc (fi_json (fe_index h)) e")
  case None
  then show ?thesis using put inv by (auto simp: fetch_Put_def EI_PutJSONWithOptions_def)
next
  case (Some data)
  have x: "fi_es (fe_index h) = es" "json_ok (fi_json (fe_index h))" "index_ok (fi_resources (fe_index h))"
    using h by (simp_all add: fetch_on_def)
  have "EI_PutWithOptions es (fi_resources (fe_index h)) (fi_now (fe_index h)) w key data CT_JSON [cr_BlobHash e] opts = (r, w')"
    using put Some x(1) by (simp add: fetch_Put_def EI_PutJSONWithOptions_def)
  note spec = index_put_options [OF x(3) inv this]
  show ?thesis
  proof (cases r)
    case (Inr u)
    have "EI_Get es (fi_resources (fe_index h)) w' k = EI_Get es (fi_resources (fe_index h)) w k" if "k \<noteq> key" for k
      using spec index_ok_id [OF x(3), of k] Inr that by simp
    then show ?thesis using spec Some x Inr by (simp add: fetch_Get_def EI_GetJSON_def json_ok_def)
  qed (use spec inv in simp)
qed

lemma fetch_Delete_spec:
  assumes h: "fetch_on h" and inv: "inv w" and del: "fetch_Delete (fe_index h) w key = (r, w')"
  shows "inv w' \<and> content w' = content w \<and> (healthy w' \<longleftrightarrow> healthy w)
    \<and> fetch_Get (fe_index h) w' key \<in> {fetch_Get (fe_index h) w key, Inl NotCached}
    \<and> (\<forall>k. k \<noteq> key \<longrightarrow> fetch_Get (fe_index h) w' k = fetch_Get (fe_index h) w k)"
proof -
  have x: "fi_es (fe_index h) = es" "index_ok (fi_resources (fe_index h))" using h by (simp_all add: fetch_on_def)
  have "EI_Delete es (fi_resources (fe_index h)) w key = (r, w')" using del x(1) by (simp add: fetch_Delete_def)
  note spec = index_delete [OF x(2) inv this]
  show ?thesis
  proof (cases r)
    case (Inr u)
    have "EI_Get es (fi_resources (fe_index h)) w' k = EI_Get es (fi_resources (fe_index h)) w k" if "k \<noteq> key" for k
      using spec index_ok_id [OF x(2), of k] Inr that by simp
    then show ?thesis using spec x Inr by (simp add: fetch_Get_def EI_GetJSON_def indexError_def)
  qed (use spec inv in simp)
qed

lemma cacheResponse_spec:
  assumes h: "fetch_on h" and inv: "inv w" and run: "cacheResponse h tf key got w = (res, w')"
  shows "(case res of Inl _ \<Rightarrow> same_resources h w w'
    | Inr _ \<Rightarrow> stored_resource h key (fst got) w w'
        \<and> fetch_Get (fe_index h) w' key = Inr (resourceOf h key (fst got) (blake3 (concat (chunks (rp_Body (fst got)))))
             (int (length (concat (chunks (rp_Body (fst got))))))))"
proof (cases "\<exists>data. spool tf (fst got) = Inr data \<and> tf_seek tf")
  case False
  then have "w' = w" "\<exists>e. res = Inl e" using run by (auto simp: cacheResponse_def split: sum.splits if_splits)
  then show ?thesis using inv by (auto simp: same_resources_def)
next
  case True
  then obtain data where data: "spool tf (fst got) = Inr data" "tf_seek tf" by blast
  have d: "concat (chunks (rp_Body (fst got))) = data" "\<not> src_fails (rp_Body (fst got))" using spool_Inr [OF data(1)] by auto
  obtain pres w1 where p: "st_Put (fe_store h) w (spooled tf data) = (pres, w1)" by fastforce
  then have p': "st_Put st w (spooled tf data) = (pres, w1)" using h by (simp add: fetch_on_def)
  note pb = put_blob [OF inv p']
  have get1: "fetch_Get (fe_index h) w1 k = fetch_Get (fe_index h) w k" for k using fetch_Get_cong [OF h] pb by blast
  show ?thesis
  proof (cases pres)
    case (Inl e)
    then have "w' = w1" "\<exists>e. res = Inl e" using run data p by (auto simp: cacheResponse_def)
    then show ?thesis using pb get1 by (auto simp: same_resources_def)
  next
    case (Inr x)
    have x: "is_hash x" "x = blake3 data" "inv w1" "healthy w \<longrightarrow> healthy w1"
      "\<forall>g. is_hash g \<longrightarrow> content w1 g = (if g = x \<and> content w x = None then Some data else content w g)"
      using pb unfolding Inr sum.case spooled_simps by iprover+
    let ?e = "resourceOf h key (fst got) x (int (length data))"
    obtain r w2 where put: "fetch_Put (fe_index h) w1 key ?e (resourceOptions h ?e (snd got)) = (r, w2)" by fastforce
    note ps = fetch_Put_spec [OF h x(3) put]
    show ?thesis
    proof (cases r)
      case (Inl e)
      then have "w' = w1" "\<exists>e. res = Inl e" using run data p Inr put ps by (auto simp: cacheResponse_def Let_def)
      then show ?thesis using x get1 by (auto simp: same_resources_def)
    next
      case r: (Inr u)
      have w': "w' = w2" "res = Inr \<lparr>dr_Hash = x, dr_Size = int (length data)\<rparr>"
        using run data p Inr put r by (auto simp: cacheResponse_def Let_def)
      have c: "content w2 x = (if content w x = None then Some data else content w x)" "inv w2" "healthy w \<longrightarrow> healthy w2"
        "fetch_Get (fe_index h) w2 key = Inr ?e" "\<forall>k. k \<noteq> key \<longrightarrow> fetch_Get (fe_index h) w2 k = fetch_Get (fe_index h) w k"
        using ps r x get1 by simp_all
      have "\<exists>d. content w2 x = Some d \<and> blake3 d = x \<and> (content w x = None \<longrightarrow> d = data)"
      proof (cases "content w x")
        case (Some d)
        then show ?thesis using content_hash [OF inv x(1) Some] c(1) by simp
      qed (use c(1) x(2) in simp)
      then show ?thesis using c x(1,2) d by (simp add: stored_resource_def w')
    qed
  qed
qed

lemma serveCached_spec:
  assumes h: "fetch_on h" and inv: "inv w" and run: "serveCached h run w r entry = (res, w')"
  shows "inv w' \<and> content w' = content w \<and> (healthy w' \<longleftrightarrow> healthy w)
    \<and> fetch_Get (fe_index h) w' (cr_UpstreamURL entry) \<in> {fetch_Get (fe_index h) w (cr_UpstreamURL entry), Inl NotCached}
    \<and> (\<forall>k. k \<noteq> cr_UpstreamURL entry \<longrightarrow> fetch_Get (fe_index h) w' k = fetch_Get (fe_index h) w k)"
proof (cases "isNotModified (fe_lib h) r entry")
  case True
  then show ?thesis using run inv by (simp add: serveCached_def)
next
  case modified: False
  show ?thesis
  proof (cases "ParseBlobRef (fl_unicode (fe_lib h)) (cr_BlobHash entry)")
    case (Inl e)
    then show ?thesis
      using run modified fetch_Delete_spec [OF h inv, of "cr_UpstreamURL entry"]
      by (cases "fetch_Delete (fe_index h) w (cr_UpstreamURL entry)") (simp add: serveCached_def)
  next
    case (Inr ref)
    obtain gres w1 where g: "st_Get (fe_store h) w (br_hash ref) = (gres, w1)" by fastforce
    then have g': "st_Get st w (br_hash ref) = (gres, w1)" using h by (simp add: fetch_on_def)
    have "is_hash (br_hash ref)" using ParseBlobRef_is_hash [OF Inr] by simp
    note gb = get_blob [OF inv this g']
    have get1: "fetch_Get (fe_index h) w1 k = fetch_Get (fe_index h) w k" for k using fetch_Get_cong [OF h] gb by blast
    obtain rd w2 where d: "fetch_Delete (fe_index h) w1 (cr_UpstreamURL entry) = (rd, w2)" by fastforce
    have "inv w1" using gb by simp
    note ds = fetch_Delete_spec [OF h this d]
    have "w' = w1 \<or> w' = w2" using run modified Inr g d by (auto simp: serveCached_def split: sum.splits if_splits option.splits)
    then show ?thesis using gb ds get1 by auto
  qed
qed

lemma serveFresh_spec:
  assumes h: "fetch_on h" and inv: "inv w" and run: "serveFresh h run w r key = (resp, w')"
    and own: "\<And>e. fetch_Get (fe_index h) w key = Inr e \<Longrightarrow> cr_UpstreamURL e = key"
  shows "inv w' \<and> content w' = content w \<and> (healthy w' \<longleftrightarrow> healthy w)
    \<and> fetch_Get (fe_index h) w' key \<in> {fetch_Get (fe_index h) w key, Inl NotCached}
    \<and> (\<forall>k. k \<noteq> key \<longrightarrow> fetch_Get (fe_index h) w' k = fetch_Get (fe_index h) w k)"
proof (cases "fetch_Get (fe_index h) w key")
  case (Inl e)
  then show ?thesis using run inv by (simp add: serveFresh_def)
next
  case (Inr entry)
  obtain res w1 where s: "serveCached h run w r entry = (res, w1)" by fastforce
  have "w' = w1" using run Inr s by (auto simp: serveFresh_def split: served.splits)
  then show ?thesis using serveCached_spec [OF h inv s] own [OF Inr] by simp
qed

lemma serveFresh_keeps:
  assumes h: "fetch_on h" and inv: "inv w" "healthy w" and run: "serveFresh h run w r key = (resp, w')"
    and entry: "fetch_Get (fe_index h) w key = Inr e" "cr_BlobHash e = BlobRef_String (NewBlobRef x)" "is_hash x" "content w x \<noteq> None"
  shows "fetch_Get (fe_index h) w' k = fetch_Get (fe_index h) w k"
proof -
  have br: "br_hash (NewBlobRef x) = x" by (simp add: NewBlobRef_def)
  obtain gres w1 where g: "st_Get (fe_store h) w x = (gres, w1)" by fastforce
  then have g': "st_Get st w x = (gres, w1)" using h by (simp add: fetch_on_def)
  note gb = get_blob [OF inv(1) entry(3) g']
  have get1: "fetch_Get (fe_index h) w1 k = fetch_Get (fe_index h) w k" using fetch_Get_cong [OF h] gb by blast
  obtain d where "gres = Inr d" using gb inv(2) entry(4) by (cases gres) auto
  then have "w' = w \<or> w' = w1"
    using run entry g by (auto simp: serveFresh_def serveCached_def br split: served.splits if_splits option.splits)
  then show ?thesis using get1 by blast
qed

lemma stored_then_fresh:
  assumes h: "fetch_on h" and inv: "inv w" and run: "cacheResponse h tf key got w = (Inr x, w1)" "serveFresh h run w1 r key = (resp, w')"
  shows "stored_resource h key (fst got) w w'"
proof -
  have s: "stored_resource h key (fst got) w w1"
    "fetch_Get (fe_index h) w1 key = Inr (resourceOf h key (fst got) (blake3 (concat (chunks (rp_Body (fst got))))) (int (length (concat (chunks (rp_Body (fst got)))))))"
    using cacheResponse_spec [OF h inv run(1)] by simp_all
  have "inv w1" using s(1) by (simp add: stored_resource_def Let_def)
  from serveFresh_spec [OF h this run(2)] s(2)
  have f: "inv w'" "content w' = content w1" "healthy w' \<longleftrightarrow> healthy w1"
      "fetch_Get (fe_index h) w' key \<in> {fetch_Get (fe_index h) w1 key, Inl NotCached}"
      "\<forall>k. k \<noteq> key \<longrightarrow> fetch_Get (fe_index h) w' k = fetch_Get (fe_index h) w1 k"
    by (simp_all add: resourceOf_def)
  show ?thesis using s f unfolding stored_resource_def Let_def by auto
qed

lemma fetchMissing_spec:
  assumes h: "fetch_on h" and inv: "inv w" and m: "rq_Method r \<in> {''GET'', ''HEAD''}" and ex: "fr_flight run = Executes"
    and run: "fetchMissing h run w r key allowed = (resp, w')" and miss: "fetch_Get (fe_index h) w key = Inl e"
    and got: "fetch_Get (fe_index h) w' key = Inr entry"
  shows "\<exists>src got. fetch_doRequest h allowed ''GET'' key src = Inr got \<and> stored_resource h key (fst got) w w'"
proof (cases "isConditionalRequest r")
  case True
  then have p: "proxyConditionalMiss h run w r key allowed = (resp, w')" using run by (simp add: fetchMissing_def)
  have new: "w' \<noteq> w" using miss got by auto
  then obtain rr final where rr: "fetch_doRequest h allowed (rq_Method r) key (Some r) = Inr (rr, final)" "rp_Status rr \<noteq> 304" "rq_Method r \<noteq> ''HEAD''"
    using p by (auto simp: proxyConditionalMiss_def split: sum.splits prod.splits if_splits)
  obtain cres w1 where c: "cacheResponse h (fr_temp run) key (rr, final) w = (cres, w1)" by fastforce
  show ?thesis
  proof (cases cres)
    case (Inl ce)
    then have "w' = w1" using p rr c by (simp add: proxyConditionalMiss_def)
    then show ?thesis using cacheResponse_spec [OF h inv c] Inl miss got by (simp add: same_resources_def)
  next
    case (Inr x)
    then have "serveFresh h run w1 r key = (resp, w')" using p rr c by (simp add: proxyConditionalMiss_def)
    moreover have "rq_Method r = ''GET''" using m rr(3) by simp
    ultimately show ?thesis using stored_then_fresh [OF h inv c [unfolded Inr]] rr(1) by metis
  qed
next
  case plain: False
  have new: "w' \<noteq> w" using miss got by auto
  then have "rq_Method r \<noteq> ''HEAD''" using run plain by (auto simp: fetchMissing_def handleHeadMiss_def split: sum.splits prod.splits)
  then have p: "(case ensureCached h run key allowed w of ((Some e, _), w1) \<Rightarrow> (writeFetchError e, w1)
      | ((None, _), w1) \<Rightarrow> serveFresh h run w1 r key) = (resp, w')"
    using run plain by (simp add: fetchMissing_def)
  obtain res w1 where dl: "downloadAndCache h (fr_temp run) key allowed w = (res, w1)" by fastforce
  have ok: "fr_ctx run = None" "\<exists>x. res = Inr x" if "w' \<noteq> w1"
    using p dl ex that by (auto simp: ensureCached_def Do_def split: option.splits sum.splits)
  obtain rr where rr: "fetch_doRequest h allowed ''GET'' key None = Inr rr" "cacheResponse h (fr_temp run) key rr w = (res, w1)"
  proof (cases "fetch_doRequest h allowed ''GET'' key None")
    case (Inl x)
    then have "w1 = w" "res = Inl x" using dl by (auto simp: downloadAndCache_def)
    then show ?thesis using ok new by auto
  qed (use dl that in \<open>simp add: downloadAndCache_def\<close>)
  note cs = cacheResponse_spec [OF h inv rr(2)]
  show ?thesis
  proof (cases "fr_ctx run = None \<and> (\<exists>x. res = Inr x)")
    case True
    then obtain x where x: "res = Inr x" by blast
    then have "serveFresh h run w1 r key = (resp, w')" using p dl ex True by (simp add: ensureCached_def Do_def)
    then show ?thesis using stored_then_fresh [OF h inv rr(2) [unfolded x]] rr(1) by blast
  next
    case False
    then have w1: "w' = w1" using ok by blast
    show ?thesis
    proof (cases res)
      case (Inl x)
      then show ?thesis using cs miss got w1 by (simp add: same_resources_def)
    next
      case (Inr x)
      then show ?thesis using cs rr(1) w1 by (intro exI [of _ None] exI [of _ rr]) simp
    qed
  qed
qed

lemma serveUpstream_hit:
  assumes h: "fe_store h = st" and inv: "inv w" "healthy w"
    and entry: "fetch_Get (fe_index h) w (fl_String (fe_lib h) u) = Inr e" "cr_BlobHash e = BlobRef_String (NewBlobRef x)" "is_hash x"
      "content w x = Some d"
    and req: "rq_Header r ''Range'' = []" "\<not> isConditionalRequest r" "rq_Method r = ''GET''" "fr_sent run = None"
  shows "\<exists>w'. serveUpstream h run w r u allowed = (reply 200 (cachedHeaders e) d, w')"
proof -
  have fresh: "\<not> isNotModified (fe_lib h) r e" using req(2) by (simp add: isNotModified_def isConditionalRequest_def)
  have br: "br_hash (NewBlobRef x) = x" by (simp add: NewBlobRef_def)
  obtain gres w1 where g: "st_Get st w x = (gres, w1)" by fastforce
  have "gres = Inr d" using get_blob [OF inv(1) entry(3) g] inv(2) entry(4) by (cases gres) auto
  then have "serveCached h run w r e = (Served (reply 200 (cachedHeaders e) d), w1)"
    using fresh entry(2,3) g h req(3,4) by (simp add: serveCached_def br)
  then show ?thesis using entry(1) req(1) by (simp add: serveUpstream_def)
qed

end

end
