(* ===== verification/FetchProperties.thy ===== *)
theory FetchProperties
  imports PypiProperties Fetch
begin

text \<open>
  The properties of direct downloads: which hosts are ever contacted, and that a resource that was
  fetched is what later requests get.
\<close>

section \<open>Hosts\<close>

definition mayContact :: "fetch_lib \<Rightarrow> host_set \<Rightarrow> fetch_url \<Rightarrow> bool" where
  "mayContact L allowed url \<longleftrightarrow> fu_Scheme url = ''https'' \<and> hostSet_Contains L allowed (fu_Host url)"

text \<open>Hosts as requests name them: a name of letters, digits, hyphens, dots and underscores, and
  perhaps a numeric port. IPv6 addresses, escapes and names outside ASCII are not of this form.\<close>

definition plain_char :: "char \<Rightarrow> bool" where
  "plain_char c \<longleftrightarrow> is_alnum c \<or> c = CHR ''-'' \<or> c = CHR ''.'' \<or> c = CHR ''_''"

definition plain_name :: "string \<Rightarrow> bool" where
  "plain_name name \<longleftrightarrow> name \<noteq> [] \<and> list_all plain_char name"

definition port_digits :: "string \<Rightarrow> bool" where
  "port_digits port \<longleftrightarrow> list_all (\<lambda>c. CHR ''0'' \<le> c \<and> c \<le> CHR ''9'') port"

definition withPort :: "string \<Rightarrow> string \<Rightarrow> string" where
  "withPort name port = (if port = [] then name else name @ '':'' @ port)"

text \<open>What is documented of them: \<open>url.Parse\<close> takes them apart, \<open>net.JoinHostPort\<close> puts them together.\<close>

definition hosts_ok :: "fetch_lib \<Rightarrow> bool" where
  "hosts_ok L \<longleftrightarrow> (\<forall>name port. plain_name name \<and> port_digits port \<longrightarrow>
     fl_ParseHost L (withPort name port) = Some (name, port)
     \<and> (port \<noteq> [] \<longrightarrow> fl_JoinHostPort L name port = withPort name port))"

text \<open>When an HTTPS URL of such a host is printed and read again, scheme and host are what they were.\<close>

definition urls_reparse :: "fetch_lib \<Rightarrow> bool" where
  "urls_reparse L \<longleftrightarrow> (\<forall>name port u v. plain_name name \<and> port_digits port \<and> fu_Scheme u = ''https''
     \<and> fu_Host u = withPort name port \<and> fl_Parse L (fl_String L u) = Some v \<longrightarrow>
       fu_Scheme v = ''https'' \<and> fu_Host v = withPort name port)"

lemma plain_char_ascii: "plain_char c \<Longrightarrow> of_char c < (128::nat)"
  by (auto simp: plain_char_def is_alnum_def Let_def)

lemma plain_name_ascii: "plain_name name \<Longrightarrow> is_ascii name"
  by (auto simp: plain_name_def is_ascii_def list_all_iff plain_char_ascii)

lemma plain_name_lower: "plain_name name \<Longrightarrow> plain_name (map ascii_lower name)"
  by (auto simp: plain_name_def list_all_iff plain_char_def is_alnum_def ascii_lower_def less_eq_char_def)

lemma port_digits_lower: "port_digits port \<Longrightarrow> is_ascii port \<and> map ascii_lower port = port"
  unfolding port_digits_def by (induction port) (auto simp: ascii_lower_def less_eq_char_def)

lemma is_ascii_append: "is_ascii (a @ b) \<longleftrightarrow> is_ascii a \<and> is_ascii b"
  by (simp add: is_ascii_def)

lemma withPort_lower:
  "plain_name name \<Longrightarrow> port_digits port \<Longrightarrow> is_ascii (withPort name port)
     \<and> map ascii_lower (withPort name port) = withPort (map ascii_lower name) port"
  using plain_name_ascii [of name] port_digits_lower [of port] by (auto simp: withPort_def is_ascii_append ascii_lower_def less_eq_char_def)

lemma normalize_plain:
  assumes "hosts_ok L" and "plain_name name" "port_digits port"
  shows "normalizeHost L (withPort name port)
    = (map ascii_lower name, withPort (map ascii_lower name) port, port)"
proof -
  let ?n = "map ascii_lower name"
  have laws: "fl_ParseHost L (withPort name port) = Some (name, port)"
    "port \<noteq> [] \<Longrightarrow> fl_JoinHostPort L ?n port = withPort ?n port"
    using assms plain_name_lower [OF assms(2)] unfolding hosts_ok_def by blast+
  have "withPort name port \<noteq> []" "name \<noteq> []" using assms(2) by (auto simp: withPort_def plain_name_def)
  then show ?thesis
    using laws plain_name_ascii [OF assms(2)] withPort_lower [OF plain_name_lower [OF assms(2)] assms(3)]
    by (auto simp: normalizeHost_def ToLower_def Let_def o_def withPort_def)
qed

lemma follow_contacts:
  assumes "\<forall>m url hs. mayContact (fe_lib h) allowed url \<longrightarrow> fe_net h m url hs = net m url hs"
  shows "mayContact (fe_lib h) allowed url \<Longrightarrow>
    fetch_follow (h\<lparr>fe_net := net\<rparr>) allowed n m url hs = fetch_follow h allowed n m url hs"
proof (induction n arbitrary: url hs)
  case (Suc n)
  have "fe_net h m url hs = net m url hs" using assms Suc.prems by simp
  moreover have "(case redirectPolicy (h\<lparr>fe_net := net\<rparr>) allowed next v of Some e \<Rightarrow> Inl e
        | None \<Rightarrow> fetch_follow (h\<lparr>fe_net := net\<rparr>) allowed n m next hs')
      = (case redirectPolicy h allowed next v of Some e \<Rightarrow> Inl e | None \<Rightarrow> fetch_follow h allowed n m next hs')" for "next" v hs'
    using Suc.IH [of "next" hs'] by (auto simp: redirectPolicy_def mayContact_def split: option.split)
  ultimately show ?case by (simp split: sum.split fetch_hop.split)
qed simp

text \<open>The host of the URL that is requested: lower-case, and without the port 443.\<close>

lemma canonical_plain:
  assumes "hosts_ok L" "plain_name name" "port_digits port"
  obtains port' where "canonicalHTTPSAuthority L (withPort name port) = withPort (map ascii_lower name) port'"
    and "port_digits port'" and "hostSet_Contains L allowed (withPort name port) \<Longrightarrow>
      hostSet_Contains L allowed (withPort (map ascii_lower name) port')"
proof -
  let ?n = "map ascii_lower name" and ?port = "if port = ''443'' then [] else port"
  have n: "plain_name ?n" "?n \<noteq> []" using plain_name_lower [OF assms(2)] by (auto simp: plain_name_def)
  have p: "port_digits ?port" using assms(3) by (simp add: port_digits_def)
  show thesis
  proof (rule that [of ?port])
    show "canonicalHTTPSAuthority L (withPort name port) = withPort ?n ?port"
      using n(2) unfolding canonicalHTTPSAuthority_def normalize_plain [OF assms] by (simp add: withPort_def)
    show "hostSet_Contains L allowed (withPort ?n ?port)" if "hostSet_Contains L allowed (withPort name port)"
      using that n(2) normalize_plain [OF assms] normalize_plain [OF assms(1) n(1) p]
      by (auto simp: hostSet_Contains_def o_def split: if_splits)
  qed (rule p)
qed

text \<open>C19: for a request whose host is a plain name with or without a port, whatever the network would
  answer at URLs of other schemes or of hosts that are not on the list does not influence the
  response or the state: none of them is ever contacted, by the first request as little as after
  any number of redirects, to hosts of any form.\<close>

theorem fetch_allowlist:
  assumes net: "\<forall>m url hs. mayContact (fe_lib h) (fe_allowedHosts h) url \<longrightarrow> fe_net h m url hs = net m url hs"
    and laws: "hosts_ok (fe_lib h)" "urls_reparse (fe_lib h)"
    and host: "parseFetchPath (rq_Path r) = Some (withPort name port, path)" "plain_name name" "port_digits port"
  shows "fetch_ServeHTTP (h\<lparr>fe_net := net\<rparr>) run w r = fetch_ServeHTTP h run w r"
proof (cases "hostSet_Contains (fe_lib h) (fe_allowedHosts h) (withPort name port)")
  case False
  then show ?thesis using host(1) by (simp add: fetch_ServeHTTP_def)
next
  case True
  let ?L = "fe_lib h" and ?allowed = "fe_allowedHosts h" and ?h' = "h\<lparr>fe_net := net\<rparr>"
  define url where "url = httpsURL ?L (withPort name port) path (fr_RawQuery run)"
  obtain port' where c: "canonicalHTTPSAuthority ?L (withPort name port) = withPort (map ascii_lower name) port'" "port_digits port'"
    "hostSet_Contains ?L ?allowed (withPort (map ascii_lower name) port')"
    using canonical_plain [OF laws(1) host(2,3), where allowed = ?allowed] True by blast
  have u: "fu_Scheme url = ''https''" "fu_Host url = withPort (map ascii_lower name) port'"
    by (simp_all add: url_def httpsURL_def c(1))
  have first: "mayContact ?L ?allowed v" if "fl_Parse ?L (fl_String ?L url) = Some v" for v
    using laws(2) plain_name_lower [OF host(2)] c(2,3) u that unfolding urls_reparse_def mayContact_def by metis
  have req: "fetch_doRequest ?h' ?allowed m (fl_String ?L url) src = fetch_doRequest h ?allowed m (fl_String ?L url) src" for m src
    using follow_contacts [OF net first] by (simp add: fetch_doRequest_def split: option.split)
  have fields: "fe_index ?h' = fe_index h" "fe_store ?h' = fe_store h" "fe_lib ?h' = fe_lib h" by simp_all
  have store: "cacheResponse ?h' tf k got = cacheResponse h tf k got" for tf k got
    by (rule ext) (simp only: cacheResponse_def resourceOf_def resourceOptions_def fields)
  have load: "downloadAndCache ?h' tf (fl_String ?L url) ?allowed = downloadAndCache h tf (fl_String ?L url) ?allowed" for tf
    unfolding downloadAndCache_def req store ..
  have ensure: "ensureCached ?h' run (fl_String ?L url) ?allowed w = ensureCached h run (fl_String ?L url) ?allowed w" for w
    unfolding ensureCached_def load ..
  have served: "serveCached ?h' run w r e = serveCached h run w r e" for w e unfolding serveCached_def fields ..
  have fresh: "serveFresh ?h' run w r k = serveFresh h run w r k" for w k unfolding serveFresh_def served fields ..
  have "fetchMissing ?h' run w r (fl_String ?L url) ?allowed = fetchMissing h run w r (fl_String ?L url) ?allowed" for w
    unfolding fetchMissing_def proxyConditionalMiss_def handleHeadMiss_def req store ensure fresh ..
  then have "serveUpstream ?h' run w r url ?allowed = serveUpstream h run w r url ?allowed"
    unfolding serveUpstream_def Let_def served fields by (simp only:)
  then show ?thesis using host(1) True by (simp add: fetch_ServeHTTP_def url_def)
qed

section \<open>Resources\<close>

definition fetch_server :: "(string \<Rightarrow> string) \<Rightarrow> (envelope \<Rightarrow> bool) \<Rightarrow> header_codec \<Rightarrow> (bytes \<Rightarrow> hash) \<Rightarrow> (int \<Rightarrow> string)
     \<Rightarrow> 'n notifier_ops option \<Rightarrow> (db, fs, unit, 'n) cafs fetch \<Rightarrow> bool" where
  "fetch_server U mar c blake3 fmt nt h \<longleftrightarrow>
     fi_es (fe_index h) = onMetaDB (boltStore U mar) \<and> (\<exists>tf now. fe_store h = cafsOps (serverStore c blake3 fmt nt) tf now)
     \<and> json_ok (fi_json (fe_index h)) \<and> index_ok (fi_resources (fe_index h))"

text \<open>C20: when a request makes the index name a resource under its URL, the resource is what a GET of
  this URL answered, and every later unconditional GET gets its bytes from the store, with the network
  gone; the entries of other URLs stay.\<close>

theorem fetch_resource_served:
  fixes w :: "(db, fs, unit, 'n) cafs"
  assumes h: "fetch_server U mar c blake3 fmt nt h" and ok: "world_ok blake3 w" "fs_healthy (cs_backend w)"
    and req: "rq_Method r \<in> {''GET'', ''HEAD''}" "fr_flight run = Executes"
    and run: "serveUpstream h run w r u allowed = (resp, w')"
    and cached: "fetch_Get (fe_index h) w (fl_String (fe_lib h) u) = Inl e" "fetch_Get (fe_index h) w' (fl_String (fe_lib h) u) = Inr entry"
    and later: "rq_Method r' = ''GET''" "rq_Header r' ''Range'' = []" "\<not> isConditionalRequest r'" "fr_sent run' = None"
  shows "\<exists>src got data w2. fetch_doRequest h allowed ''GET'' (fl_String (fe_lib h) u) src = Inr got
    \<and> \<not> src_fails (rp_Body (fst got)) \<and> blake3 data = blake3 (concat (chunks (rp_Body (fst got))))
    \<and> (fs_content (cs_backend w) (blake3 data) = None \<longrightarrow> data = concat (chunks (rp_Body (fst got))))
    \<and> serveUpstream (h\<lparr>fe_net := net\<rparr>) run' w' r' u allowed' = (reply 200 (cachedHeaders entry) data, w2)
    \<and> (\<forall>k. k \<noteq> fl_String (fe_lib h) u \<longrightarrow> fetch_Get (fe_index h) w' k = fetch_Get (fe_index h) w k)"
proof -
  let ?key = "fl_String (fe_lib h) u"
  obtain tf now where st: "fe_store h = cafsOps (serverStore c blake3 fmt nt) tf now" using h by (auto simp: fetch_server_def)
  then have on: "server.fetch_on U mar c blake3 fmt nt tf now h" using h by (simp add: fetch_server_def server.fetch_on_def)
  have "w' \<noteq> w" using cached by auto
  then have miss: "fetchMissing h run w r ?key allowed = (resp, w')"
    using run cached(1) by (auto simp: serveUpstream_def Let_def split: if_splits)
  obtain src got where got: "fetch_doRequest h allowed ''GET'' ?key src = Inr got" "server.stored_resource blake3 h ?key (fst got) w w'"
    using server.fetchMissing_spec [OF on ok(1) req miss cached] by blast
  let ?body = "concat (chunks (rp_Body (fst got)))"
  note s = got(2) [unfolded server.stored_resource_def Let_def]
  obtain d where d: "fs_content (cs_backend w') (blake3 ?body) = Some d" "blake3 d = blake3 ?body"
      "fs_content (cs_backend w) (blake3 ?body) = None \<longrightarrow> d = ?body" using s by iprover
  have w': "world_ok blake3 w'" "fs_healthy (cs_backend w')" "is_hash (blake3 ?body)" using s ok(2) by iprover+
  have "entry = resourceOf h ?key (fst got) (blake3 ?body) (int (length ?body))" using s cached by simp
  then have ref: "cr_BlobHash entry = BlobRef_String (NewBlobRef (blake3 ?body))" by (simp add: resourceOf_def)
  have again: "fe_store (h\<lparr>fe_net := net\<rparr>) = cafsOps (serverStore c blake3 fmt nt) tf now"
    "fetch_Get (fe_index (h\<lparr>fe_net := net\<rparr>)) w' (fl_String (fe_lib (h\<lparr>fe_net := net\<rparr>)) u) = Inr entry"
    using st cached(2) by simp_all
  obtain w2 where w2: "serveUpstream (h\<lparr>fe_net := net\<rparr>) run' w' r' u allowed' = (reply 200 (cachedHeaders entry) d, w2)"
    using server.serveUpstream_hit [OF again(1) w'(1,2) again(2) ref w'(3) d(1) later(2,3,1,4)] by blast
  have rest: "\<not> src_fails (rp_Body (fst got))" "fs_content (cs_backend w) (blake3 d) = None \<longrightarrow> d = ?body"
    "\<forall>k. k \<noteq> ?key \<longrightarrow> fetch_Get (fe_index h) w' k = fetch_Get (fe_index h) w k"
    using s d(3) unfolding d(2) by iprover+
  show ?thesis
    by (intro exI [of _ src] exI [of _ got] exI [of _ d] exI [of _ w2] conjI) (fact got(1) rest(1) d(2) rest(2) w2 rest(3))+
qed

section \<open>Examples\<close>

text \<open>One host is allowed; it redirects to another.\<close>

definition fetchLib0 :: fetch_lib where
  "fetchLib0 = \<lparr>fl_ParseHost = (\<lambda>h. Some (takeWhile (\<lambda>c. c \<noteq> CHR '':'') h, drop 1 (dropWhile (\<lambda>c. c \<noteq> CHR '':'') h))), fl_JoinHostPort = (\<lambda>h p. h @ '':'' @ p),
     fl_String = (\<lambda>u. if fu_Scheme u = ''https'' then ''https://'' @ fu_Host u else ''other''),
     fl_Parse = (\<lambda>s. if HasPrefix s ''https://''
       then Some \<lparr>fu_Scheme = ''https'', fu_Host = drop 8 s, fu_Path = [], fu_RawQuery = []\<rparr> else None),
     fl_Hostname = (\<lambda>_. []), fl_ParseTime = (\<lambda>_. None), fl_unicode = id, fl_space = id\<rparr>"

definition fetchURL0 :: "string \<Rightarrow> fetch_url" where
  "fetchURL0 host = \<lparr>fu_Scheme = ''https'', fu_Host = host, fu_Path = [], fu_RawQuery = []\<rparr>"

definition fetchNet0 :: "(dl_error + fetch_hop) \<Rightarrow> fetch_net" where
  "fetchNet0 leak = (\<lambda>m url hs. if fu_Host url = ''a.com'' then Inr (FetchReply gitReply0)
     else if fu_Host url = ''c.com'' then leak else Inr (FetchRedirect (fetchURL0 ''c.com'') hs))"

definition resource0 :: cached_resource where
  "resource0 = \<lparr>cr_UpstreamURL = ''https://a.com'', cr_BlobHash = ref1, cr_Size = 6, cr_ContentType = ''application/octet-stream'',
     cr_ContentEncoding = [], cr_ContentDisposition = [], cr_ETag = [], cr_LastModified = [], cr_CachedAt = 0\<rparr>"

definition fetch0 :: "(dl_error + fetch_hop) \<Rightarrow> (db, fs, unit, unit) cafs fetch" where
  "fetch0 leak = \<lparr>fe_index = \<lparr>fi_es = onMetaDB (boltStore id (\<lambda>_. True)), fi_resources = kindIdx ''resource'',
       fi_json = \<lparr>j_enc = (\<lambda>e. if e = resource0 then Some ''r'' else None), j_dec = (\<lambda>b. if b = ''r'' then Some resource0 else None)\<rparr>,
       fi_now = 0\<rparr>,
     fe_store = cafsOps serverStore0 temp0 0, fe_net = fetchNet0 leak, fe_baseRedirect = (\<lambda>_. None),
     fe_allowedHosts = newHostSet fetchLib0 [''a.com'', ''B.com''], fe_githubReleaseHost = ''github.com'',
     fe_githubReleaseRedirectHosts = noHosts, fe_lib = fetchLib0\<rparr>"

definition fetch_run0 :: fetch_run where
  "fetch_run0 = \<lparr>fr_RawQuery = [], fr_temp = temp0, fr_flight = Executes, fr_ctx = None, fr_sent = None\<rparr>"

lemma fetch0_simps [simp]:
  "fe_lib (fetch0 leak) = fetchLib0" "fe_net (fetch0 leak) = fetchNet0 leak" "(fetch0 leak)\<lparr>fe_net := fetchNet0 leak'\<rparr> = fetch0 leak'"
  "fe_allowedHosts (fetch0 leak) = \<lparr>hs_hosts = {''a.com'', ''b.com''}, hs_authorities = {}\<rparr>"
  "fe_store (fetch0 leak) = cafsOps serverStore0 temp0 0"
proof -
  have "newHostSet fetchLib0 [''a.com'', ''B.com''] = \<lparr>hs_hosts = {''b.com'', ''a.com''}, hs_authorities = {}\<rparr>" by code_simp
  then show "fe_allowedHosts (fetch0 leak) = \<lparr>hs_hosts = {''a.com'', ''b.com''}, hs_authorities = {}\<rparr>"
    by (simp add: fetch0_def insert_commute)
qed (simp_all add: fetch0_def)

lemma plain_no_colon: "plain_name name \<Longrightarrow> \<forall>c \<in> set name. c \<noteq> CHR '':''"
  by (auto simp: plain_name_def list_all_iff plain_char_def is_alnum_def)

lemma split_at_first:
  "\<forall>c \<in> set xs. P c \<Longrightarrow> \<not> P a \<Longrightarrow>
     takeWhile P xs = xs \<and> dropWhile P xs = [] \<and> takeWhile P (xs @ a # ys) = xs \<and> dropWhile P (xs @ a # ys) = a # ys"
  by (induction xs) auto

lemma fetchLib0_ok: "hosts_ok fetchLib0" "urls_reparse fetchLib0"
proof -
  let ?P = "\<lambda>c. c \<noteq> CHR '':''"
  have "fl_ParseHost fetchLib0 (withPort name port) = Some (name, port)" if "plain_name name" for name port
    using split_at_first [of name ?P "CHR '':''" port, OF plain_no_colon [OF that]]
    by (cases "port = []") (simp_all add: withPort_def fetchLib0_def dropWhile_eq_Nil_conv [THEN iffD2])
  moreover have "fl_JoinHostPort fetchLib0 name port = withPort name port" if "port \<noteq> []" for name port
    using that by (simp add: withPort_def fetchLib0_def)
  ultimately show "hosts_ok fetchLib0" unfolding hosts_ok_def by blast
  have "v = \<lparr>fu_Scheme = ''https'', fu_Host = fu_Host u, fu_Path = [], fu_RawQuery = []\<rparr>"
    if "fu_Scheme u = ''https''" "fl_Parse fetchLib0 (fl_String fetchLib0 u) = Some v" for u v
    using that by (simp add: fetchLib0_def split: if_splits)
  then show "urls_reparse fetchLib0" unfolding urls_reparse_def by force
qed

theorem fetch_allowlist_witness:
  "fetch_ServeHTTP (fetch0 (Inl DownloadFailed)) fetch_run0 store1 (request ''GET'' ''/b.com/x'' src1)
     = fetch_ServeHTTP (fetch0 (Inl Canceled)) fetch_run0 store1 (request ''GET'' ''/b.com/x'' src1)"
proof -
  let ?h = "fetch0 (Inl Canceled)" and ?r = "request ''GET'' ''/b.com/x'' src1"
  have "\<not> hostSet_Contains fetchLib0 \<lparr>hs_hosts = {''a.com'', ''b.com''}, hs_authorities = {}\<rparr> ''c.com''" by code_simp
  then have "\<forall>m url hs. mayContact (fe_lib ?h) (fe_allowedHosts ?h) url \<longrightarrow> fe_net ?h m url hs = fetchNet0 (Inl DownloadFailed) m url hs"
    by (auto simp: mayContact_def fetchNet0_def)
  moreover have "parseFetchPath (rq_Path ?r) = Some (withPort ''b.com'' [], ''/x'')"
  proof -
    have "parseFetchPath ''/b.com/x'' = Some (withPort ''b.com'' [], ''/x'')" by code_simp
    then show ?thesis by (simp add: request_def)
  qed
  moreover have "plain_name ''b.com''" "port_digits []" by code_simp+
  ultimately show ?thesis
    using fetch_allowlist [of ?h "fetchNet0 (Inl DownloadFailed)" ?r "''b.com''" "[]" "''/x''" fetch_run0 store1] fetchLib0_ok
    by simp
qed

lemma fetch0_server: "fetch_server id (\<lambda>_. True) codec0 blake3_0 (\<lambda>_. []) None (fetch0 leak)"
  by (auto simp: fetch_server_def fetch0_def json_ok_def index_ok_kind sep_def split: if_splits)

abbreviation "fetchHandler0 \<equiv> fetch0 (Inl DownloadFailed)"

lemma fetch0_miss: "fetch_Get (fe_index fetchHandler0) store1 k = Inl NotCached"
  by (simp add: fetch_Get_def EI_GetJSON_def fetch0_def store1_miss indexError_def)

lemma fetch0_request: "fetch_doRequest fetchHandler0 allowed ''GET'' ''https://a.com'' src = Inr (gitReply0, fetchURL0 ''a.com'')"
proof -
  have "fl_Parse fetchLib0 ''https://a.com'' = Some (fetchURL0 ''a.com'')" by code_simp
  moreover have "fetch_follow fetchHandler0 allowed 10 ''GET'' (fetchURL0 ''a.com'') hs = Inr (gitReply0, fetchURL0 ''a.com'')" for hs
  proof -
    have "fe_net fetchHandler0 ''GET'' (fetchURL0 ''a.com'') hs = Inr (FetchReply gitReply0)" by (simp add: fetchNet0_def fetchURL0_def)
    then show ?thesis using fetch_follow.simps(2) [of fetchHandler0 allowed 9 "''GET''" "fetchURL0 ''a.com''" hs] by simp
  qed
  moreover have "rp_Status gitReply0 = 200" by (simp add: gitReply0_def)
  ultimately show ?thesis by (simp add: fetch_doRequest_def)
qed

lemma fetch0_run:
  "\<exists>resp w. serveUpstream fetchHandler0 fetch_run0 store1 (request ''GET'' [] src1) (fetchURL0 ''a.com'') allowed = (resp, w)
     \<and> fetch_Get (fe_index fetchHandler0) w ''https://a.com'' = Inr resource0"
proof -
  let ?x = "fe_index fetchHandler0" and ?r = "request ''GET'' [] src1" and ?k = "''https://a.com''"
  obtain w1 where w1: "Put serverStore0 temp0 0 store1 (spooled temp0 ''world!'') = (Inr hash1, w1)" "world_ok blake3_0 w1"
    "blobs_good (d_blobs (cs_metaDB w1))" "fs_healthy (cs_backend w1)" "fs_content (cs_backend w1) hash1 \<noteq> None"
    using upload_succeeds [OF store1_ok(1,2), of "spooled temp0 ''world!''"] by (auto simp: blake3_0_def temp0_def)
  have "j_enc (fi_json ?x) resource0 = Some ''r''" by (simp add: fetch0_def)
  then obtain w2 where w2: "EI_PutJSON (j_enc (fi_json ?x)) (onMetaDB (boltStore id (\<lambda>_. True))) (kindIdx ''resource'') 0 w1 ?k resource0 [ref1]
      = (Inr (), w2)"
    using sample_index [OF w1(3), of "[ref1]" "fi_json ?x" resource0 "''r''" "''resource''" ?k] by (auto simp: CompressionThreshold_def)
  have e: "resourceOf fetchHandler0 ?k gitReply0 hash1 6 = resource0"
    by (simp add: resourceOf_def resource0_def gitReply0_def contentTypeOrDefault_def fetch0_def ref1_def)
  have o: "resourceOptions fetchHandler0 resource0 u = noOptions" for u
    by (simp add: resourceOptions_def resource0_def noOptions_def fetchLib0_def)
  have put: "fetch_Put ?x w1 ?k resource0 noOptions = (Inr (), w2)"
    using w2 by (simp add: fetch_Put_def EI_PutJSONWithOptions_def EI_PutJSON_def EI_Put_def fetch0_def resource0_def)
  have on: "server.fetch_on id (\<lambda>_. True) codec0 blake3_0 (\<lambda>_. []) None temp0 0 fetchHandler0"
    by (auto simp: server.fetch_on_def fetch0_def json_ok_def index_ok_kind sep_def split: if_splits)
  note ps = server.fetch_Put_spec [OF on w1(2) put]
  have stored: "world_ok blake3_0 w2" "fs_healthy (cs_backend w2)" "fs_content (cs_backend w2) hash1 \<noteq> None"
    "fetch_Get ?x w2 ?k = Inr resource0" using ps w1(4,5) by simp_all
  have load: "downloadAndCache fetchHandler0 temp0 ?k allowed store1 = (Inr \<lparr>dr_Hash = hash1, dr_Size = 6\<rparr>, w2)"
    using w1(1) put by (simp add: downloadAndCache_def fetch0_request cacheResponse_def git0_reply e o)
  obtain resp w3 where fresh: "serveFresh fetchHandler0 fetch_run0 w2 ?r ?k = (resp, w3)" by fastforce
  have "cr_BlobHash resource0 = BlobRef_String (NewBlobRef hash1)" by (simp add: resource0_def ref1_def)
  then have kept: "fetch_Get ?x w3 ?k = Inr resource0"
    using server.serveFresh_keeps [OF on stored(1,2) fresh stored(4) _ _ stored(3)] stored(4) by simp
  have key: "fl_String fetchLib0 (fetchURL0 ''a.com'') = ?k" by code_simp
  have "ensureCached fetchHandler0 fetch_run0 ?k allowed store1 = ((None, False), w2)"
    by (simp add: ensureCached_def fetch_run0_def Do_def load)
  then have "serveUpstream fetchHandler0 fetch_run0 store1 ?r (fetchURL0 ''a.com'') allowed = (resp, w3)"
    using fresh by (simp add: serveUpstream_def key fetch0_miss fetchMissing_def isConditionalRequest_def request_def)
  then show ?thesis using kept by blast
qed

theorem fetch_resource_served_witness:
  "\<exists>resp w w2. serveUpstream fetchHandler0 fetch_run0 store1 (request ''GET'' [] src1) (fetchURL0 ''a.com'') noHosts = (resp, w)
     \<and> serveUpstream (fetchHandler0\<lparr>fe_net := \<lambda>_ _ _. Inl DownloadFailed\<rparr>) fetch_run0 w (request ''GET'' [] src1) (fetchURL0 ''a.com'') noHosts
         = (reply 200 (cachedHeaders resource0) ''world!'', w2)"
proof -
  let ?r = "request ''GET'' [] src1"
  obtain resp w where run: "serveUpstream fetchHandler0 fetch_run0 store1 ?r (fetchURL0 ''a.com'') noHosts = (resp, w)"
    and got: "fetch_Get (fe_index fetchHandler0) w ''https://a.com'' = Inr resource0" using fetch0_run by blast
  have key: "fl_String (fe_lib fetchHandler0) (fetchURL0 ''a.com'') = ''https://a.com''" unfolding fetch0_simps by code_simp
  have req: "rq_Method ?r \<in> {''GET'', ''HEAD''}" "fr_flight fetch_run0 = Executes" "rq_Method ?r = ''GET''" "rq_Header ?r ''Range'' = []"
    "\<not> isConditionalRequest ?r" "fr_sent fetch_run0 = None"
    by (simp_all add: request_def fetch_run0_def isConditionalRequest_def)
  obtain src got data w2 where out: "fetch_doRequest fetchHandler0 noHosts ''GET'' ''https://a.com'' src = Inr got"
      "fs_content (cs_backend store1) (blake3_0 data) = None \<longrightarrow> data = concat (chunks (rp_Body (fst got)))"
      "serveUpstream (fetchHandler0\<lparr>fe_net := \<lambda>_ _ _. Inl DownloadFailed\<rparr>) fetch_run0 w ?r (fetchURL0 ''a.com'') noHosts
         = (reply 200 (cachedHeaders resource0) data, w2)"
    using fetch_resource_served [OF fetch0_server store1_ok(1,2) req(1,2) run, unfolded key, OF fetch0_miss got req(3-6), of "\<lambda>_ _ _. Inl DownloadFailed" noHosts]
    by (elim exE conjE) (rule that)
  have "fst got = gitReply0" using out(1) fetch0_request by auto
  then show ?thesis using run out(2,3) store1_ok(3) by (auto simp: git0_reply)
qed

end
