(* ===== verification/Spec2Isabelle.thy ===== *)
theory Spec2Isabelle
  imports DBProperties CodecProperties IndexProperties StorageProperties EvictionProperties StoreProperties
  ProtocolProperties RegistryProperties MavenProperties GitProperties PypiProperties FetchProperties
begin

text \<open>
  A verification development for the content cache, a caching proxy for package registries.

  \<^bold>\<open>The program.\<close> Blobs of package data are stored once, under the hash of their
  content: \<^verbatim>\<open>hash.go\<close> and \<^verbatim>\<open>blobref.go\<close> name them, a backend (\<^verbatim>\<open>backend/\<close>) holds their
  bytes. A metadata database over bbolt (\<^verbatim>\<open>store/metadb/\<close>) records, per protocol, kind and
  key, an envelope that names the blobs it uses, and per blob an entry with a reference
  counter, a size and an access time. The typed indexes of the protocols store their values
  in envelopes. Reapers delete envelopes that have expired, and the S3-FIFO manager
  (\<^verbatim>\<open>store/s3fifo/\<close>) evicts blobs when the cache outgrows its size. What makes the program
  correct is that the reference counters agree with the envelopes, for a blob that is counted
  as unused is deleted; where the program lets them disagree, properties show it.

  \<^bold>\<open>Theories, in the order of the code's layers.\<close>

  \<^item> \<open>Prelude\<close>: results as sums, byte order, sorted keys, the ASCII part of case mapping.
  \<^item> \<open>Bolt\<close>: bbolt's documented behaviour as an ordered list of keys and values with a sequence
    counter; a transaction that fails leaves its database as it was. \<open>Encoding\<close>: big-endian
    integers and hexadecimal digits.
  \<^item> \<open>Hashes\<close> (\<^verbatim>\<open>hash.go\<close>, \<^verbatim>\<open>blobref.go\<close>): hashes, references \<open>blake3:<hex>\<close> and storage keys.
    \<open>Keys\<close> (\<^verbatim>\<open>store/metadb/buckets.go\<close>): compound keys and expiry keys.
  \<^item> \<open>Envelope\<close> (\<^verbatim>\<open>store/metadb/envelope.go\<close>, \<^verbatim>\<open>envelope.pb.go\<close>): payload compression and digest,
    validation, canonical and differing references.
  \<^item> \<open>MetaDB\<close> and \<open>EnvelopeDB\<close> (\<^verbatim>\<open>store/metadb/bolt.go\<close>, \<^verbatim>\<open>types.go\<close>): the database, a record \<open>db\<close>
    with one field per bucket, and one function per transaction: the legacy metadata API, the
    blob entries with their counters, and the envelope API with its expiry rows.
  \<^item> \<open>RefCounts\<close>, \<open>DBInv\<close>, \<open>DBReach\<close>: the databases \<open>db_reach\<close> that any sequence of transactions
    with any arguments reaches. In all of them expiry rows, reference rows and envelopes agree. The
    counter of a blob is the number of lists that name it for every blob outside the set that
    \<open>db_runs\<close> collects: those whose counter a step has set apart from the account, by an entry
    put with another counter (the content store does so when it writes the missing file of a named
    blob again), by a direct increment or decrement, or by a legacy list that repeats the blob.
    \<open>EnvelopeSpec\<close>: the envelope API implements a map.
  \<^item> \<open>EnvelopeIndex\<close> and \<open>Index\<close> (\<^verbatim>\<open>envelope_index.go\<close>, \<^verbatim>\<open>index.go\<close>, \<^verbatim>\<open>db.go\<close>): the typed indexes
    over any store that keeps the contract of the locale \<open>envelope_contract\<close>; the database is
    one such store, by interpretation.
  \<^item> \<open>Reapers\<close> (\<^verbatim>\<open>envelope_reaper.go\<close>, \<^verbatim>\<open>reaper.go\<close>): batches of conditional deletes over any
    provider of the locale \<open>expiry_contract\<close>, interpreted for envelopes and for legacy metadata.
  \<^item> \<open>MetaOps\<close> (\<^verbatim>\<open>operations.go\<close>): verification and rebuilding of the counters, compaction.
  \<^item> \<open>Queues\<close> (\<^verbatim>\<open>store/s3fifo/queues.go\<close>): the queues as pairs of buckets, refining lists
    (locale \<open>queues_contract\<close>). \<open>BlobStore\<close>: the blob operations a cache client relies on
    (locale \<open>blobs_contract\<close>). \<open>Backend\<close> (\<^verbatim>\<open>backend/\<close>): framed blobs, and the filesystem
    backend step by step over a file system whose calls may each fail (locale
    \<open>backend_contract\<close>).
  \<^item> \<open>S3FIFO\<close> (\<^verbatim>\<open>store/s3fifo/s3fifo.go\<close>): the manager's admission and eviction over those three
    interfaces. \<open>FifoSpec\<close> states the policy on plain lists, \<open>Eviction\<close> proves inside the locale
    \<open>eviction\<close> that the manager follows it, and interprets the locale on the server's parts. The
    states \<open>manager_reach\<close> of the manager leave out admissions of a blob of the main queue, which
    count it twice, removals with another size than the deleted row had, and queued blobs that lose
    their row without a removal.
  \<^item> \<open>Cafs\<close> (\<^verbatim>\<open>store/cafs.go\<close>): the content store over the backend, the blob rows and the eviction
    policy. \<open>CafsSpec\<close> (locale \<open>content_store\<close>) shows what each operation does to rows and files.
  \<^item> \<open>GC\<close> (\<^verbatim>\<open>store/gc/manager.go\<close>, \<^verbatim>\<open>phases.go\<close>): a collection run in three phases. \<open>GCSpec\<close>
    (locales \<open>gc_db\<close>, \<open>collector\<close>) shows what a run may delete.
  \<^item> \<open>World\<close> (\<^verbatim>\<open>store/store.go\<close>): HTTP requests and responses, the interface of the store, and
    the locale \<open>cache_world\<close> of a store and an envelope index that share one state, interpreted
    for the server's content store and database. Its clients are \<open>HttpCache\<close>
    (\<^verbatim>\<open>protocol/httpcache/\<close>) and \<open>BuildCache\<close> (\<^verbatim>\<open>protocol/buildcache/\<close>), whose registry of running
    uploads is a state machine.
  \<^item> \<open>Urls\<close>: what the handlers use of Go's strings and URLs. \<open>Download\<close> (\<^verbatim>\<open>download/\<close>): shared
    downloads as their callers see them, serving a result, streaming a body to the client and to a
    file at once. A request to an upstream is a call of a function, the network.
  \<^item> \<open>Npm\<close> (\<^verbatim>\<open>protocol/npm/\<close>), \<open>Oci\<close> and \<open>OciHandler\<close> (\<^verbatim>\<open>protocol/oci/\<close>), \<open>Goproxy\<close>
    (\<^verbatim>\<open>protocol/goproxy/\<close>): names and routing, the indexes, the upstream clients and the handlers,
    with what each guarantees over any \<open>cache_world\<close>. \<open>Maven\<close> (\<^verbatim>\<open>protocol/maven/\<close>): coordinates,
    metadata and checksums, the chain of repositories with its negative cache. \<open>Git\<close>
    (\<^verbatim>\<open>protocol/git/\<close>): packet lines, routing, credentials and packs. \<open>Pypi\<close> (\<^verbatim>\<open>protocol/pypi/\<close>):
    names, project pages, and an upstream whose redirects are followed one exchange at a time.
    \<open>Fetch\<close> (\<^verbatim>\<open>protocol/fetch/\<close>): downloads from a list of allowed hosts.
  \<^item> \<open>Samples\<close>: concrete hashes, envelopes and databases, with the runs that lead to them.
    \<open>DBProperties\<close>, \<open>CodecProperties\<close>, \<open>IndexProperties\<close>, \<open>StorageProperties\<close>,
    \<open>EvictionProperties\<close>, \<open>StoreProperties\<close>, \<open>ProtocolProperties\<close>, \<open>RegistryProperties\<close>, \<open>MavenProperties\<close>,
    \<open>GitProperties\<close>, \<open>PypiProperties\<close> and \<open>FetchProperties\<close>: the properties, each with an application to a concrete input.

  \<^bold>\<open>How the code is read.\<close> Go strings and byte slices are character lists; a nil and an empty
  slice are told apart only where the code does. Times are nanoseconds since the epoch; where
  the code converts to an unsigned 64-bit integer the model wraps. Integers of type \<open>int\<close> and
  \<open>int64\<close> that count bytes or entries are unbounded. Errors are the left side of a sum. A method
  that changes state takes the state and returns the changed one; where the code keeps state on
  an error path, so does the model. A value of interface type is a record of operations, so
  that a client is modelled once and a locale states what it may assume of a provider.
  Loops that need a bound take fuel: \<open>reapNowLoop\<close> receives one more step than there are
  expired rows, and the property says that the run then returns because each full batch
  deletes at least one row; \<open>trimLoop\<close>, \<open>evictFromSmall\<close> and \<open>evictFromMain\<close> receive the queue
  lengths that the code itself uses as bounds; \<open>follow\<close> receives the number of requests that fit
  into the client's timeout, \<open>fetch_follow\<close> the ten that its policy allows.

  \<^bold>\<open>Parameters.\<close> BLAKE3, SHA-256, zstd, the protobuf and JSON encodings and the case tables of
  Unicode beyond ASCII are arguments of the definitions that use them, with what the code
  relies on as named hypotheses (\<open>zstd_ok\<close>, \<open>header_codec_ok\<close>). A JSON or protobuf value in a
  bucket is either decoded or marked corrupt. That JSON is read back as it was written (\<open>json_ok\<close>)
  is documented of values whose strings are valid UTF-8, and the values of the model are those;
  where the code ignores the error of \<open>json.Unmarshal\<close>, what it leaves of a value that does not decode
  is a parameter of its own (\<open>ni_partial\<close>, \<open>yi_partial\<close>). Two loops over the runes of a string,
  \<open>encodePath\<close> and \<open>splitParams\<close>, are loops over its bytes, which is the same for valid UTF-8. What
  \<open>Fetch\<close> assumes of \<open>net/url\<close> (\<open>hosts_ok\<close>, \<open>urls_reparse\<close>) is limited to hosts of letters, digits,
  hyphens, dots and underscores with an optional port.

  \<^bold>\<open>Not modelled.\<close> Branches for a missing bucket, which cannot occur after the database is
  opened; metrics, logging and tracing; goroutines, tickers and mutexes (each method is one
  step, as under the locks the code takes); the handler of
  the RubyGems protocol, the instrumented backend and the command line.
\<close>

end
